(* ===== verification/Prelude.thy ===== *)
theory Prelude
  imports Main "HOL-Library.AList" "HOL-Library.Sublist"
begin

text \<open>
  What every component shares: points in time, insertion-ordered dictionaries, the string
  operations of Python the code uses, the exception hierarchy of
  \<^verbatim>\<open>src/ca_ztcf/errors.py\<close> as an error type, and the theorem collections the
  component proofs draw on.

  Conventions of the whole development.
  \<^item> A Python \<open>str\<close> is the HOL \<open>string\<close> of its UTF-8 bytes. Equality,
    concatenation, prefix tests, splitting and replacing at ASCII separators give the same
    answers on the bytes as on the code points.
  \<^item> A \<open>datetime\<close> (always UTC here) is an \<open>int\<close>: microseconds since the epoch,
    which is the resolution Python keeps. A \<open>timedelta\<close> is an \<open>int\<close> of microseconds.
  \<^item> A \<open>dict\<close> is an association list with distinct keys in insertion order; storing under
    an existing key keeps its place, a new key goes to the end.
  \<^item> Generated identifiers (\<open>uuid4\<close>) and random bytes are arguments.
  \<^item> A field \<open>f\<close> of a class is a record field \<open>xx_f\<close>, where \<open>xx\<close> abbreviates
    the class.
\<close>

section \<open>Theorem collections\<close>

named_theorems dict_simps \<open>lookups after stores and deletions\<close>
named_theorems py_str_simps \<open>string operations\<close>

section \<open>Time\<close>

type_synonym instant = int

definition seconds :: "int \<Rightarrow> int" where
  "seconds n = n * 1000000"

definition milliseconds :: "int \<Rightarrow> int" where
  "milliseconds n = n * 1000"

lemma seconds_mono [simp]: "seconds a \<le> seconds b \<longleftrightarrow> a \<le> b"
  by (simp add: seconds_def)

lemma seconds_nonneg [simp]: "0 \<le> seconds a \<longleftrightarrow> 0 \<le> a"
  by (simp add: seconds_def)

section \<open>Dictionaries\<close>

type_synonym ('k, 'v) dict = "('k \<times> 'v) list"

abbreviation dget :: "('k, 'v) dict \<Rightarrow> 'k \<Rightarrow> 'v option" where
  "dget d k \<equiv> map_of d k"

abbreviation dset :: "'k \<Rightarrow> 'v \<Rightarrow> ('k, 'v) dict \<Rightarrow> ('k, 'v) dict" where
  "dset k v d \<equiv> AList.update k v d"

abbreviation dpop :: "'k \<Rightarrow> ('k, 'v) dict \<Rightarrow> ('k, 'v) dict" where
  "dpop k d \<equiv> AList.delete k d"

abbreviation dict_ok :: "('k, 'v) dict \<Rightarrow> bool" where
  "dict_ok d \<equiv> distinct (map fst d)"

lemma dget_dset [simp, dict_simps]:
  "dget (dset k v d) k' = (if k' = k then Some v else dget d k')"
  by (simp add: AList.update_conv')

lemma dget_dpop [simp, dict_simps]:
  "dget (dpop k d) k' = (if k' = k then None else dget d k')"
  by (simp add: AList.delete_conv')

lemma dict_ok_dset [simp, intro]: "dict_ok d \<Longrightarrow> dict_ok (dset k v d)"
  by (rule AList.distinct_update)

lemma dict_ok_dpop [simp, intro]: "dict_ok d \<Longrightarrow> dict_ok (dpop k d)"
  by (rule AList.distinct_delete)

text \<open>Deleting the entries whose value satisfies a test, as the purge loops do.\<close>

definition dpurge :: "('v \<Rightarrow> bool) \<Rightarrow> ('k, 'v) dict \<Rightarrow> ('k, 'v) dict" where
  "dpurge p d = filter (\<lambda>(k, v). \<not> p v) d"

lemma dict_ok_dpurge [simp, intro]: "dict_ok d \<Longrightarrow> dict_ok (dpurge p d)"
  by (induction d) (auto simp: dpurge_def)

lemma dget_dpurge [dict_simps]:
  "dict_ok d \<Longrightarrow>
    dget (dpurge p d) k = (case dget d k of None \<Rightarrow> None | Some v \<Rightarrow> if p v then None else Some v)"
  by (induction d) (auto simp: dpurge_def dom_map_of_conv_image_fst[symmetric]
      split: option.splits dest: weak_map_of_SomeI)

lemma set_dset_subset: "set (dset k v d) \<subseteq> insert (k, v) (set d)"
  by (induction d) auto

lemma set_dpop_subset: "set (dpop k d) \<subseteq> set d"
  by (induction d) auto

text \<open>A property of every entry, and that storing and deleting keep it.\<close>

definition dict_all :: "('k \<Rightarrow> 'v \<Rightarrow> bool) \<Rightarrow> ('k, 'v) dict \<Rightarrow> bool" where
  "dict_all P d \<longleftrightarrow> (\<forall>x \<in> set d. P (fst x) (snd x))"

lemma dict_all_empty [simp, intro]: "dict_all P []"
  by (simp add: dict_all_def)

lemma dict_all_dset [intro]: "dict_all P d \<Longrightarrow> P k v \<Longrightarrow> dict_all P (dset k v d)"
  unfolding dict_all_def using set_dset_subset [of k v d] by auto

lemma dict_all_dpop [intro]: "dict_all P d \<Longrightarrow> dict_all P (dpop k d)"
  unfolding dict_all_def using set_dpop_subset [of k d] by auto

lemma dict_all_dget: "dict_all P d \<Longrightarrow> dget d k = Some v \<Longrightarrow> P k v"
  unfolding dict_all_def by (auto dest!: map_of_SomeD)

lemma dict_all_iff: "dict_ok d \<Longrightarrow> dict_all P d \<longleftrightarrow> (\<forall>k v. dget d k = Some v \<longrightarrow> P k v)"
  unfolding dict_all_def by (auto dest: map_of_SomeD)

lemma length_dset: "length (dset k v d) = (if k \<in> fst ` set d then length d else Suc (length d))"
  by (induction d) auto

text \<open>
  The keyed-store interface: what a client of a dictionary-backed component may rely on.
\<close>

locale keyed_store =
  fixes empty :: "'s"
    and look :: "'s \<Rightarrow> 'k \<Rightarrow> 'v option"
    and store :: "'k \<Rightarrow> 'v \<Rightarrow> 's \<Rightarrow> 's"
    and remove :: "'k \<Rightarrow> 's \<Rightarrow> 's"
    and ok :: "'s \<Rightarrow> bool"
  assumes look_empty: "look empty k = None"
    and look_store: "ok s \<Longrightarrow> look (store k v s) k' = (if k' = k then Some v else look s k')"
    and look_remove: "ok s \<Longrightarrow> look (remove k s) k' = (if k' = k then None else look s k')"
    and ok_empty: "ok empty"
    and ok_store: "ok s \<Longrightarrow> ok (store k v s)"
    and ok_remove: "ok s \<Longrightarrow> ok (remove k s)"
begin

lemma store_overwrites: "ok s \<Longrightarrow> look (store k w (store k v s)) = look (store k w s)"
  by (rule ext) (simp add: look_store ok_store)

lemma store_commutes:
  "ok s \<Longrightarrow> k \<noteq> k' \<Longrightarrow> look (store k v (store k' w s)) = look (store k' w (store k v s))"
  by (rule ext) (simp add: look_store ok_store)

lemma remove_forgets_store: "ok s \<Longrightarrow> look (remove k (store k v s)) = look (remove k s)"
  by (rule ext) (simp add: look_store look_remove ok_store)

lemma remove_idempotent: "ok s \<Longrightarrow> look (remove k (remove k s)) = look (remove k s)"
  by (rule ext) (simp add: look_remove ok_remove)

end

interpretation dict: keyed_store "[]" map_of AList.update AList.delete "\<lambda>d. dict_ok d"
  by unfold_locales auto

section \<open>Strings\<close>

text \<open>\<open>str(n)\<close> for integers.\<close>

definition digit_char :: "nat \<Rightarrow> char" where
  "digit_char d = char_of (48 + d)"

fun show_nat :: "nat \<Rightarrow> string" where
  "show_nat n = (if n < 10 then [digit_char n] else show_nat (n div 10) @ [digit_char (n mod 10)])"

declare show_nat.simps [simp del]

definition show_int :: "int \<Rightarrow> string" where
  "show_int n = (if n < 0 then ''-'' @ show_nat (nat (- n)) else show_nat (nat n))"

text \<open>A name between single quotes, as the messages write it.\<close>

definition quoted :: "string \<Rightarrow> string" where
  "quoted s = CHR 0x27 # s @ [CHR 0x27]"

text \<open>\<open>s.split(c)\<close>: the fields between separators, one more than there are separators.\<close>

fun split_on :: "char \<Rightarrow> string \<Rightarrow> string list" where
  "split_on c [] = [[]]"
| "split_on c (x # xs) =
     (if x = c then [] # split_on c xs
      else (case split_on c xs of [] \<Rightarrow> [[x]] | f # fs \<Rightarrow> (x # f) # fs))"

lemma split_on_nonempty [simp]: "split_on c s \<noteq> []"
  by (induction s) (auto split: list.splits)

lemma length_split_on [py_str_simps]: "length (split_on c s) = Suc (count_list s c)"
  by (induction s) (auto split: list.splits)

text \<open>\<open>c.join(parts)\<close>\<close>

fun join_with :: "string \<Rightarrow> string list \<Rightarrow> string" where
  "join_with sep [] = []"
| "join_with sep [p] = p"
| "join_with sep (p # ps) = p @ sep @ join_with sep ps"

lemma split_on_no_sep: "c \<notin> set s \<Longrightarrow> split_on c s = [s]"
  by (induction s) auto

lemma split_on_append_sep: "c \<notin> set p \<Longrightarrow> split_on c (p @ c # s) = p # split_on c s"
  by (induction p) auto

lemma split_on_join:
  "ps \<noteq> [] \<Longrightarrow> \<forall>p \<in> set ps. c \<notin> set p \<Longrightarrow> split_on c (join_with [c] ps) = ps"
proof (induction ps)
  case Nil
  then show ?case by simp
next
  case (Cons p ps)
  then show ?case
    by (cases ps) (simp_all add: split_on_no_sep split_on_append_sep)
qed

lemma join_split_on: "join_with [c] (split_on c s) = s"
proof (induction s)
  case Nil
  show ?case by simp
next
  case (Cons x xs)
  obtain f fs where "split_on c xs = f # fs"
    by (cases "split_on c xs") auto
  with Cons show ?case by (cases fs) auto
qed

text \<open>\<open>s.replace(pat, new)\<close> for a non-empty pattern: leftmost, not overlapping.\<close>

function py_replace :: "string \<Rightarrow> string \<Rightarrow> string \<Rightarrow> string" where
  "py_replace pat new s =
     (if pat \<noteq> [] \<and> prefix pat s then new @ py_replace pat new (drop (length pat) s)
      else (case s of [] \<Rightarrow> [] | x # xs \<Rightarrow> x # py_replace pat new xs))"
  by pat_completeness auto
termination
  by (relation "measure (\<lambda>(pat, new, s). length s)") (auto simp: prefix_def)

declare py_replace.simps [simp del]

text \<open>\<open>pat in s\<close>\<close>

definition str_contains :: "string \<Rightarrow> string \<Rightarrow> bool" where
  "str_contains pat s \<longleftrightarrow> list_ex (prefix pat) (suffixes s)"

lemma str_contains_iff: "str_contains pat s \<longleftrightarrow> (\<exists>u v. s = u @ pat @ v)"
proof
  assume "str_contains pat s"
  then show "\<exists>u v. s = u @ pat @ v"
    by (auto simp: str_contains_def list_ex_iff suffix_def prefix_def) blast
next
  assume "\<exists>u v. s = u @ pat @ v"
  then obtain u v where "s = u @ pat @ v" by blast
  then have "pat @ v \<in> set (suffixes s)" and "prefix pat (pat @ v)"
    by (auto simp: suffix_def)
  then show "str_contains pat s"
    unfolding str_contains_def list_ex_iff by blast
qed

text \<open>
  \<open>s.upper()\<close> and \<open>s.lower()\<close> on the ASCII letters; the code applies them to markers and
  key names that are ASCII. The few non-ASCII letters whose other case is ASCII are left alone.
\<close>

definition upper_char :: "char \<Rightarrow> char" where
  "upper_char c = (if 97 \<le> (of_char c :: nat) \<and> (of_char c :: nat) \<le> 122
     then char_of ((of_char c :: nat) - 32) else c)"

definition lower_char :: "char \<Rightarrow> char" where
  "lower_char c = (if 65 \<le> (of_char c :: nat) \<and> (of_char c :: nat) \<le> 90
     then char_of ((of_char c :: nat) + 32) else c)"

definition py_upper :: "string \<Rightarrow> string" where
  "py_upper s = map upper_char s"

definition py_lower :: "string \<Rightarrow> string" where
  "py_lower s = map lower_char s"

text \<open>\<open>tuple(dict.fromkeys(xs))\<close>: duplicates dropped, the first occurrence kept in place.\<close>

definition fromkeys :: "'a list \<Rightarrow> 'a list" where
  "fromkeys xs = map fst (fold (\<lambda>x d. dset x () d) xs [])"

lemma fold_dset_keys:
  "dict_ok d \<Longrightarrow> dict_ok (fold (\<lambda>x d. dset x () d) xs d)
    \<and> fst ` set (fold (\<lambda>x d. dset x () d) xs d) = fst ` set d \<union> set xs"
proof (induction xs arbitrary: d)
  case Nil
  then show ?case by simp
next
  case (Cons x xs)
  have "fst ` set (dset x () d) = insert x (fst ` set d)"
    by (induction d) auto
  with Cons show ?case by auto
qed

lemma distinct_fromkeys [simp]: "distinct (fromkeys xs)"
  using fold_dset_keys [of "[]" xs] by (simp add: fromkeys_def)

lemma set_fromkeys [simp]: "set (fromkeys xs) = set xs"
  using fold_dset_keys [of "[]" xs] by (simp add: fromkeys_def)

lemma fold_dset_append:
  "\<exists>ys. fold (\<lambda>x d. dset x () d) xs d = d @ ys"
proof (induction xs arbitrary: d)
  case Nil
  show ?case by simp
next
  case (Cons x xs)
  have "\<exists>zs. dset x () d = d @ zs"
    by (induction d) auto
  with Cons show ?case by (metis append.assoc fold_simps(2))
qed

lemma hd_fromkeys: "xs \<noteq> [] \<Longrightarrow> hd (fromkeys xs) = hd xs"
proof (cases xs)
  case (Cons x xs')
  obtain ys where "fold (\<lambda>x d. dset x () d) xs' [(x, ())] = [(x, ())] @ ys"
    using fold_dset_append by blast
  with Cons show ?thesis by (simp add: fromkeys_def)
qed simp

section \<open>Errors\<close>

text \<open>
  The exceptions of \<^verbatim>\<open>errors.py\<close> and of the modules that add their own, plus the built-in \<open>ValueError\<close> (and its subclass
  \<open>MqttProtocolError\<close> of the codec), \<open>KeyError\<close>, \<open>OverflowError\<close> and the \<open>IncompleteReadError\<close> of asyncio. Each carries its message. A function
  that can raise returns \<open>error + 'a\<close>.
\<close>

datatype error =
    ConfigurationError string
  | RegistryError string
  | DeviceAlreadyRegisteredError string
  | DeviceNotFoundError string
  | ProofOfPossessionError string
  | NonceError string
  | CollectorError string
  | EvidenceError string
  | PolicyError string
  | StrategyError string
  | EnforcementError string
  | AccessSourceError string
  | DeviceAgentError string
  | DeviceKeyError string
  | MqttProtocolError string
  | PyValueError string
  | PyKeyError string
  | PyOverflowError string
  | PyTypeError string
  | PyAttributeError string
  | PyIndexError string
  | PyRuntimeError string
  | PyAssertionError
  | PyTimeoutError
  | PyOSError string
  | IncompleteReadError

text \<open>The stable \<open>code\<close> of each class of the package; the built-ins have none.\<close>

fun error_code :: "error \<Rightarrow> string option" where
  "error_code (ConfigurationError _) = Some ''CONFIGURATION_ERROR''"
| "error_code (RegistryError _) = Some ''REGISTRY_ERROR''"
| "error_code (DeviceAlreadyRegisteredError _) = Some ''DEVICE_ALREADY_REGISTERED''"
| "error_code (DeviceNotFoundError _) = Some ''DEVICE_NOT_FOUND''"
| "error_code (ProofOfPossessionError _) = Some ''PROOF_OF_POSSESSION_ERROR''"
| "error_code (NonceError _) = Some ''NONCE_ERROR''"
| "error_code (CollectorError _) = Some ''COLLECTOR_ERROR''"
| "error_code (EvidenceError _) = Some ''EVIDENCE_ERROR''"
| "error_code (PolicyError _) = Some ''POLICY_ERROR''"
| "error_code (StrategyError _) = Some ''STRATEGY_ERROR''"
| "error_code (EnforcementError _) = Some ''ENFORCEMENT_ERROR''"
| "error_code (AccessSourceError _) = Some ''ACCESS_SOURCE_ERROR''"
| "error_code (DeviceAgentError _) = Some ''DEVICE_AGENT_ERROR''"
| "error_code (DeviceKeyError _) = Some ''DEVICE_KEY_ERROR''"
| "error_code (MqttProtocolError _) = None"
| "error_code (PyValueError _) = None"
| "error_code (PyKeyError _) = None"
| "error_code (PyOverflowError _) = None"
| "error_code (PyTypeError _) = None"
| "error_code (PyAttributeError _) = None"
| "error_code (PyIndexError _) = None"
| "error_code (PyRuntimeError _) = None"
| "error_code PyAssertionError = None"
| "error_code PyTimeoutError = None"
| "error_code (PyOSError _) = None"
| "error_code IncompleteReadError = None"

type_synonym 'a result = "error + 'a"

definition and_then :: "'a result \<Rightarrow> ('a \<Rightarrow> 'b result) \<Rightarrow> 'b result" where
  "and_then r f = (case r of Inl e \<Rightarrow> Inl e | Inr x \<Rightarrow> f x)"

lemma and_then_simps [simp]:
  "and_then (Inl e) f = Inl e"
  "and_then (Inr x) f = f x"
  by (simp_all add: and_then_def)

lemma and_then_Inr_iff: "and_then r f = Inr y \<longleftrightarrow> (\<exists>x. r = Inr x \<and> f x = Inr y)"
  by (cases r) auto

lemma and_then_assoc: "and_then (and_then r f) g = and_then r (\<lambda>x. and_then (f x) g)"
  by (cases r) auto

text \<open>A statement that changes a state, followed by the rest of the body: an exception skips the rest,
  the state stays.\<close>

definition run_then :: "'a result \<times> 's \<Rightarrow> ('a \<Rightarrow> 's \<Rightarrow> 'b result \<times> 's) \<Rightarrow> 'b result \<times> 's" where
  "run_then x f = (case x of (Inl e, s) \<Rightarrow> (Inl e, s) | (Inr a, s) \<Rightarrow> f a s)"

lemma run_then_simps [simp]:
  "run_then (Inl e, s) f = (Inl e, s)" "run_then (Inr a, s) f = f a s"
  by (simp_all add: run_then_def)

lemma run_then_cases:
  "run_then x f = (r, s') \<Longrightarrow>
     (\<exists>e. x = (Inl e, s') \<and> r = Inl e) \<or> (\<exists>a s. x = (Inr a, s) \<and> f a s = (r, s'))"
  by (cases x; cases "fst x") auto

lemma run_then_state:
  assumes "P (snd x)" "\<And>a s. x = (Inr a, s) \<Longrightarrow> P (snd (f a s))"
  shows "P (snd (run_then x f))"
  using assms by (cases x; cases "fst x") auto

end
