(* ===== verification/Config.thy ===== *)
theory Config
  imports Prelude
begin

text \<open>
  The configuration (\<^verbatim>\<open>src/ca_ztcf/config.py\<close>): the settings records, the field bounds and
  validators pydantic runs, and the cross-validation of the assembled tree. Reading YAML is outside:
  \<open>load_settings\<close> starts from the parsed sections. \<open>config_hash\<close>, a digest over the JSON of all
  other fields, is kept as the field \<open>st_config_hash\<close>.
\<close>

section \<open>Settings\<close>

record evidence_settings =
  es_proof_of_possession_ttl_s :: int
  es_nonce_ttl_s :: int
  es_binding_freshness_max_s :: int
  es_evidence_completeness_required :: "string list"

record transition_settings =
  ts_transition_window_s :: int
  ts_stability_window_s :: int
  ts_rate_window_s :: int
  ts_max_transitions_per_window :: int
  ts_repeat_threshold :: int

record security_settings =
  ss_authn_failure_window_s :: int
  ss_max_authn_failures :: int
  ss_cooldown_s :: int

record nr_posture_settings =
  np_allowed_gnb_ids :: "string list"
  np_allowed_dnns :: "string list"
  np_allowed_rat_types :: "string list"
  np_required_registration_states :: "string list"
  np_require_active_pdu_session :: bool

record wlan_posture_settings =
  wp_allowed_ssids :: "string list"
  wp_allowed_bssids :: "string list"
  wp_allowed_akms :: "string list"
  wp_require_eap_success :: bool

record posture_settings =
  po_nr :: nr_posture_settings
  po_wlan :: wlan_posture_settings

record policy_settings =
  pl_ttl_ms :: "(string, int) dict"

record privacy_settings =
  pv_identifier_hash_length :: nat

record audit_settings =
  as_enabled :: bool
  as_path :: string
  as_redact_keys :: "string list"

text \<open>The strategy parameters the code reads are integers.\<close>

datatype strategy_kind = K_CA_ZTCF | K_INDEPENDENT | K_STATIC_CONTINUITY

record strategy_definition =
  sd_name :: string
  sd_kind :: strategy_kind
  sd_parameters :: "(string, int) dict"

record scope_definition =
  sc_description :: string
  sc_allow :: "string list"
  sc_deny :: "string list"

record policy_rule_definition =
  rd_id :: string
  rd_state :: string
  rd_transition_contexts :: "string list"
  rd_action :: string
  rd_scope :: string
  rd_reason_codes :: "string list"
  rd_note :: string

record policy_matrix_definition =
  md_version :: int
  md_default_action :: string
  md_default_scope :: string
  md_default_reason_codes :: "string list"
  md_rules :: "policy_rule_definition list"

record service_settings =
  sv_name :: string
  sv_environment :: string
  sv_host :: string
  sv_port :: int

record settings =
  st_service :: service_settings
  st_evidence :: evidence_settings
  st_transition :: transition_settings
  st_security :: security_settings
  st_posture :: posture_settings
  st_policy :: policy_settings
  st_privacy :: privacy_settings
  st_audit :: audit_settings
  st_strategies :: "(string, strategy_definition) dict"
  st_scopes :: "(string, scope_definition) dict"
  st_policy_matrix :: policy_matrix_definition
  st_config_hash :: string

definition short_config_hash :: "settings \<Rightarrow> string" where
  "short_config_hash s = take 12 (st_config_hash s)"

section \<open>Field bounds and validators\<close>

definition service_valid :: "service_settings \<Rightarrow> bool" where
  "service_valid s \<longleftrightarrow> 1 \<le> sv_port s \<and> sv_port s \<le> 65535"

definition evidence_valid :: "evidence_settings \<Rightarrow> bool" where
  "evidence_valid e \<longleftrightarrow> 1 \<le> es_proof_of_possession_ttl_s e \<and> 1 \<le> es_nonce_ttl_s e
     \<and> 1 \<le> es_binding_freshness_max_s e"

definition transition_valid :: "transition_settings \<Rightarrow> bool" where
  "transition_valid t \<longleftrightarrow> 1 \<le> ts_transition_window_s t \<and> 1 \<le> ts_stability_window_s t
     \<and> 1 \<le> ts_rate_window_s t \<and> 1 \<le> ts_max_transitions_per_window t \<and> 1 \<le> ts_repeat_threshold t
     \<and> \<not> (ts_repeat_threshold t > ts_max_transitions_per_window t)"

definition security_valid :: "security_settings \<Rightarrow> bool" where
  "security_valid s \<longleftrightarrow> 1 \<le> ss_authn_failure_window_s s \<and> 1 \<le> ss_max_authn_failures s
     \<and> 0 \<le> ss_cooldown_s s"

definition policy_valid :: "policy_settings \<Rightarrow> bool" where
  "policy_valid p \<longleftrightarrow> list_all (\<lambda>(action, ttl). \<not> ttl < 0) (pl_ttl_ms p)"

definition privacy_valid :: "privacy_settings \<Rightarrow> bool" where
  "privacy_valid p \<longleftrightarrow> 8 \<le> pv_identifier_hash_length p \<and> pv_identifier_hash_length p \<le> 64"

definition settings_valid :: "settings \<Rightarrow> bool" where
  "settings_valid s \<longleftrightarrow> service_valid (st_service s) \<and> evidence_valid (st_evidence s)
     \<and> transition_valid (st_transition s) \<and> security_valid (st_security s)
     \<and> policy_valid (st_policy s) \<and> privacy_valid (st_privacy s)"

section \<open>Loading\<close>

text \<open>
  One strategy file: the file has no \<open>strategy\<close> mapping, or the mapping has a name that may be
  missing or empty, and a definition. Files come sorted by path.
\<close>

datatype strategy_file = NoStrategyBlock | StrategyBlock "string option" strategy_definition

fun collect_strategies ::
  "(string \<times> strategy_file) list \<Rightarrow> (string, strategy_definition) dict
     \<Rightarrow> (string, strategy_definition) dict result" where
  "collect_strategies [] acc = Inr acc"
| "collect_strategies ((path, NoStrategyBlock) # rest) acc =
     Inl (ConfigurationError (path @ '' must contain a 'strategy' mapping''))"
| "collect_strategies ((path, StrategyBlock None def) # rest) acc =
     Inl (ConfigurationError (path @ '' strategy requires a non-empty '' @ quoted ''name''))"
| "collect_strategies ((path, StrategyBlock (Some name) def) # rest) acc =
     (if name = [] then
        Inl (ConfigurationError (path @ '' strategy requires a non-empty '' @ quoted ''name''))
      else if dget acc name \<noteq> None then
        Inl (ConfigurationError (''duplicate strategy name '' @ quoted name @ '' in '' @ path))
      else collect_strategies rest (dset name def acc))"

fun cross_validate_rules ::
  "settings \<Rightarrow> policy_rule_definition list \<Rightarrow> unit result" where
  "cross_validate_rules s [] = Inr ()"
| "cross_validate_rules s (rule # rules) =
     (if dget (st_scopes s) (rd_scope rule) = None then
        Inl (ConfigurationError (''policy rule '' @ rd_id rule @ '' references undefined scope ''
               @ quoted (rd_scope rule)))
      else if dget (pl_ttl_ms (st_policy s)) (rd_action rule) = None then
        Inl (ConfigurationError (''policy rule '' @ rd_id rule @ '' uses action '' @ quoted (rd_action rule)
               @ '' which has no entry in policy.ttl_ms''))
      else cross_validate_rules s rules)"

definition cross_validate :: "settings \<Rightarrow> unit result" where
  "cross_validate s =
     (if dget (st_scopes s) (md_default_scope (st_policy_matrix s)) = None then
        Inl (ConfigurationError (''policy matrix default_scope ''
          @ quoted (md_default_scope (st_policy_matrix s)) @ '' is not defined in topic_scopes.yaml''))
      else and_then (cross_validate_rules s (md_rules (st_policy_matrix s))) (\<lambda>_.
        if st_strategies s = [] then
          Inl (ConfigurationError ''at least one strategy must be configured'')
        else Inr ()))"

text \<open>
  \<open>load_settings\<close> after the files are parsed: \<open>assemble\<close> builds the settings from the
  collected strategies (the other sections are already in it) and validation follows.
\<close>

definition load_settings ::
  "(string \<times> strategy_file) list \<Rightarrow> ((string, strategy_definition) dict \<Rightarrow> settings) \<Rightarrow> settings result" where
  "load_settings files assemble =
     and_then (collect_strategies files []) (\<lambda>strategies.
       let s = assemble strategies in
       if \<not> settings_valid s then Inl (ConfigurationError ''invalid configuration'')
       else and_then (cross_validate s) (\<lambda>_. Inr s))"

section \<open>Facts\<close>

lemma cross_validate_rules_iff:
  "cross_validate_rules s rules = Inr () \<longleftrightarrow>
     (\<forall>rule \<in> set rules. dget (st_scopes s) (rd_scope rule) \<noteq> None
        \<and> dget (pl_ttl_ms (st_policy s)) (rd_action rule) \<noteq> None)"
  by (induction rules) auto

lemma cross_validate_iff:
  "cross_validate s = Inr () \<longleftrightarrow>
     dget (st_scopes s) (md_default_scope (st_policy_matrix s)) \<noteq> None
     \<and> (\<forall>rule \<in> set (md_rules (st_policy_matrix s)). dget (st_scopes s) (rd_scope rule) \<noteq> None
          \<and> dget (pl_ttl_ms (st_policy s)) (rd_action rule) \<noteq> None)
     \<and> st_strategies s \<noteq> []"
  by (auto simp: cross_validate_def and_then_Inr_iff cross_validate_rules_iff
      split: if_splits)

lemma collect_strategies_ok:
  "dict_ok acc \<Longrightarrow> collect_strategies files acc = Inr d \<Longrightarrow>
     dict_ok d \<and> set acc \<subseteq> set d \<and> length d = length acc + length files"
proof (induction files acc rule: collect_strategies.induct)
  case (4 path name def rest acc)
  from 4(3) have n: "name \<noteq> []" "dget acc name = None"
    "collect_strategies rest (dset name def acc) = Inr d"
    by (auto split: if_splits)
  have new: "dset name def acc = acc @ [(name, def)]"
    using n(2) by (induction acc) (auto split: if_splits)
  show ?case
    using 4(1) [simplified new] n new 4(2) by (auto simp: map_of_eq_None_iff [symmetric])
qed auto

text \<open>The strategy files are accepted exactly when each defines one, under names that are there and differ.\<close>

lemma dset_new: "dget d k = None \<Longrightarrow> dset k v d = d @ [(k, v)]"
  by (induction d) (auto split: if_splits)

lemma collect_strategies_iff:
  "collect_strategies files acc = Inr d \<longleftrightarrow>
     (\<exists>defs. map snd files = map (\<lambda>(n, x). StrategyBlock (Some n) x) defs
        \<and> [] \<notin> fst ` set defs \<and> fst ` set defs \<inter> fst ` set acc = {} \<and> distinct (map fst defs) \<and> d = acc @ defs)"
proof (induction files acc rule: collect_strategies.induct)
  case (4 path name def rest acc)
  show ?case
  proof (cases "name = [] \<or> dget acc name \<noteq> None")
    case True
    moreover have "name \<in> fst ` set acc" if "dget acc name \<noteq> None"
      using that by (auto simp: map_of_eq_None_iff)
    ultimately show ?thesis by (auto simp: Cons_eq_map_conv)
  next
    case False
    then have a: "name \<noteq> []" "dget acc name = None" "name \<notin> fst ` set acc" by (auto simp: map_of_eq_None_iff)
    have "collect_strategies ((path, StrategyBlock (Some name) def) # rest) acc = Inr d \<longleftrightarrow>
        (\<exists>defs. map snd rest = map (\<lambda>(n, x). StrategyBlock (Some n) x) defs
          \<and> [] \<notin> fst ` set defs \<and> fst ` set defs \<inter> fst ` set (acc @ [(name, def)]) = {} \<and> distinct (map fst defs)
          \<and> d = (acc @ [(name, def)]) @ defs)"
      using 4 [OF a(1)] a dset_new [OF a(2), of def] by simp
    also have "\<dots> \<longleftrightarrow> (\<exists>defs. map snd ((path, StrategyBlock (Some name) def) # rest) = map (\<lambda>(n, x). StrategyBlock (Some n) x) defs
        \<and> [] \<notin> fst ` set defs \<and> fst ` set defs \<inter> fst ` set acc = {} \<and> distinct (map fst defs) \<and> d = acc @ defs)"
      (is "(\<exists>defs. ?P defs) \<longleftrightarrow> (\<exists>defs. ?Q defs)")
    proof
      assume "\<exists>defs. ?P defs"
      then obtain defs where "?P defs" by blast
      with a have "?Q ((name, def) # defs)" by auto
      then show "\<exists>defs. ?Q defs" by blast
    next
      assume "\<exists>defs. ?Q defs"
      then obtain defs where q: "?Q defs" by blast
      then obtain defs' where d: "defs = (name, def) # defs'" by (auto simp: Cons_eq_map_conv)
      with q have "?P defs'" by auto
      then show "\<exists>defs. ?P defs" by blast
    qed
    finally show ?thesis .
  qed
qed (auto simp: Cons_eq_map_conv)

lemma load_settings_iff:
  "load_settings files f = Inr s \<longleftrightarrow>
     (\<exists>defs. map snd files = map (\<lambda>(n, x). StrategyBlock (Some n) x) defs
        \<and> [] \<notin> fst ` set defs \<and> distinct (map fst defs) \<and> s = f defs)
     \<and> settings_valid s \<and> cross_validate s = Inr ()"
  by (auto simp: load_settings_def and_then_Inr_iff Let_def collect_strategies_iff split: if_splits)

end
