(* ===== verification/Rendering.thy ===== *)
theory Rendering
  imports Prelude
begin

text \<open>
  The textual forms the code writes into evidence and reason codes: \<open>datetime.isoformat()\<close> of a
  UTC instant, \<open>f"{x:.3f}"\<close> and \<open>str(round(x, 3))\<close> of a number of seconds, \<open>str\<close> of a
  boolean. Numbers of seconds are exact here (a whole number of microseconds), where Python holds
  a binary float: a value half-way between two milliseconds is rounded to the even one.
\<close>

section \<open>Calendar\<close>

text \<open>Year, month and day of a day number counted from 1970-01-01, proleptic Gregorian.\<close>

definition civil_from_days :: "int \<Rightarrow> int \<times> int \<times> int" where
  "civil_from_days z0 =
     (let z = z0 + 719468;
          era = z div 146097;
          doe = z mod 146097;
          yoe = (doe - doe div 1460 + doe div 36524 - doe div 146096) div 365;
          doy = doe - (365 * yoe + yoe div 4 - yoe div 100);
          mp = (5 * doy + 2) div 153;
          d = doy - (153 * mp + 2) div 5 + 1;
          m = (if mp < 10 then mp + 3 else mp - 9);
          y = yoe + era * 400
      in (if m \<le> 2 then y + 1 else y, m, d))"

definition pad_left :: "nat \<Rightarrow> string \<Rightarrow> string" where
  "pad_left n s = replicate (n - length s) (CHR ''0'') @ s"

definition isoformat :: "instant \<Rightarrow> string" where
  "isoformat t =
     (let us = t mod 1000000;
          sec = t div 1000000;
          sod = sec mod 86400
      in (case civil_from_days (sec div 86400) of (y, m, d) \<Rightarrow>
            pad_left 4 (show_int y) @ ''-'' @ pad_left 2 (show_int m) @ ''-'' @ pad_left 2 (show_int d)
            @ ''T'' @ pad_left 2 (show_int (sod div 3600)) @ '':''
            @ pad_left 2 (show_int (sod div 60 mod 60)) @ '':'' @ pad_left 2 (show_int (sod mod 60))
            @ (if us = 0 then [] else ''.'' @ pad_left 6 (show_int us))
            @ ''+00:00''))"

section \<open>Seconds with three decimals\<close>

text \<open>Microseconds to the nearest millisecond, ties to even.\<close>

definition round_ms :: "int \<Rightarrow> int" where
  "round_ms us =
     (let q = us div 1000; r = us mod 1000
      in if r < 500 \<or> (r = 500 \<and> even q) then q else q + 1)"

text \<open>\<open>f"{x:.3f}"\<close> for a non-negative number of milliseconds\<close>

definition fixed3 :: "int \<Rightarrow> string" where
  "fixed3 ms = show_int (ms div 1000) @ ''.'' @ pad_left 3 (show_int (ms mod 1000))"

text \<open>\<open>str(x)\<close> of the rounded float: trailing zeros dropped, at least one decimal kept.\<close>

definition drop_zeros :: "string \<Rightarrow> string" where
  "drop_zeros s = rev (dropWhile (\<lambda>c. c = CHR ''0'') (rev s))"

definition float3_repr :: "int \<Rightarrow> string" where
  "float3_repr ms =
     show_int (ms div 1000) @ ''.'' @
       (case drop_zeros (pad_left 3 (show_int (ms mod 1000))) of [] \<Rightarrow> ''0'' | ds \<Rightarrow> ds)"

definition py_bool :: "bool \<Rightarrow> string" where
  "py_bool b = (if b then ''True'' else ''False'')"

lemma round_ms_split: "0 \<le> r \<Longrightarrow> r < 1000 \<Longrightarrow>
    round_ms (1000 * q + r) = (if r < 500 \<or> (r = 500 \<and> even q) then q else q + 1)"
  by (simp add: round_ms_def Let_def)

lemma ms_cases:
  obtains q r :: int where "us = 1000 * q + r" "0 \<le> r" "r < 1000"
  using that [of "us div 1000" "us mod 1000"] by simp

lemma round_ms_nonneg: "0 \<le> us \<Longrightarrow> 0 \<le> round_ms us"
  by (rule ms_cases [of us]) (auto simp: round_ms_split)

lemma round_ms_close: "\<bar>1000 * round_ms us - us\<bar> \<le> 500"
  by (rule ms_cases [of us]) (auto simp: round_ms_split)

lemma round_ms_mono: "a \<le> b \<Longrightarrow> round_ms a \<le> round_ms b"
proof -
  assume "a \<le> b"
  then have q: "a div 1000 \<le> b div 1000" by (rule zdiv_mono1) simp
  show ?thesis
  proof (cases "a div 1000 = b div 1000")
    case True
    with \<open>a \<le> b\<close> have "a mod 1000 \<le> b mod 1000"
      by (metis add_le_cancel_left div_mult_mod_eq)
    with True show ?thesis by (auto simp: round_ms_def Let_def)
  next
    case False
    with q have "a div 1000 + 1 \<le> b div 1000" by simp
    then show ?thesis by (auto simp: round_ms_def Let_def)
  qed
qed

lemma civil_examples:
  "civil_from_days 0 = (1970, 1, 1)" "civil_from_days 20454 = (2026, 1, 1)"
  "civil_from_days 19782 = (2024, 2, 29)"
  by code_simp+

end
