(* ===== verification/Identity.thy ===== *)
theory Identity
  imports Prelude "HOL-Library.List_Lexorder" "HOL-Library.Char_ord" "HOL-Library.Word"
begin

text \<open>
  Device identities and their registry: \<^verbatim>\<open>src/ca_ztcf/identity/models.py\<close> and
  \<^verbatim>\<open>identity/registry.py\<close>. The cryptography package is a parameter (record
  \<open>crypto\<close>); pydantic's construction checks are the executable predicate
  \<open>identity_valid\<close>. The registry invariant (every entry is stored under its own
  identifier and passed the checks) is kept by every operation.
\<close>

type_synonym byte = "8 word"
type_synonym bytes = "byte list"

section \<open>Models\<close>

datatype device_status = ACTIVE | SUSPENDED | REVOKED

fun status_value :: "device_status \<Rightarrow> string" where
  "status_value ACTIVE = ''ACTIVE''"
| "status_value SUSPENDED = ''SUSPENDED''"
| "status_value REVOKED = ''REVOKED''"

record device_identity =
  di_device_id :: string
  di_public_key_pem :: string
  di_public_key_fingerprint :: string
  di_status :: device_status
  di_created_at :: instant
  di_updated_at :: instant
  di_labels :: "(string, string) dict"
  di_notes :: string

definition id_char_allowed :: "char \<Rightarrow> bool" where
  "id_char_allowed c \<longleftrightarrow> c \<in> set (''abcdefghijklmnopqrstuvwxyzABCDEFGHIJKLMNOPQRSTUVWXYZ0123456789-_.'')"

definition device_id_charset :: "string \<Rightarrow> bool" where
  "device_id_charset v \<longleftrightarrow> list_all id_char_allowed v"

definition rejects_private_key :: "string \<Rightarrow> bool" where
  "rejects_private_key v \<longleftrightarrow> str_contains ''PRIVATE KEY'' (py_upper v)"

text \<open>What pydantic checks when a \<open>DeviceIdentity\<close> is constructed or validated.\<close>

definition identity_valid :: "device_identity \<Rightarrow> bool" where
  "identity_valid d \<longleftrightarrow>
     1 \<le> length (di_device_id d) \<and> length (di_device_id d) \<le> 128
     \<and> 16 \<le> length (di_public_key_fingerprint d)
     \<and> device_id_charset (di_device_id d)
     \<and> \<not> rejects_private_key (di_public_key_pem d)"

definition is_enabled :: "device_identity \<Rightarrow> bool" where
  "is_enabled d \<longleftrightarrow> di_status d = ACTIVE"

record proof_of_possession =
  pp_device_id :: string
  pp_nonce :: string
  pp_signature :: string

record pop_result =
  pr_device_id :: string
  pr_valid :: bool
  pr_reason :: string
  pr_verified_at :: "instant option"
  pr_algorithm :: "string option"

section \<open>The cryptography package, as a parameter\<close>

text \<open>
  \<open>load_pem\<close> is \<open>load_pem_public_key\<close> (\<open>None\<close> for \<open>ValueError\<close> or
  \<open>TypeError\<close>); the loaded key is an Ed25519 key or one of another type. \<open>key_der\<close> is its
  SubjectPublicKeyInfo, \<open>sha256_hex\<close> the digest, \<open>ed_verify\<close> is false where
  \<open>Ed25519PublicKey.verify\<close> raises \<open>InvalidSignature\<close>.
\<close>

datatype 'k loaded_key = Ed25519Key 'k | OtherKey 'k

record 'k crypto =
  load_pem :: "string \<Rightarrow> 'k loaded_key option"
  key_der :: "'k loaded_key \<Rightarrow> bytes"
  sha256_hex :: "bytes \<Rightarrow> string"
  ed_verify :: "'k \<Rightarrow> bytes \<Rightarrow> bytes \<Rightarrow> bool"

definition fingerprint_public_key_pem :: "'k crypto \<Rightarrow> string \<Rightarrow> string result" where
  "fingerprint_public_key_pem cr pem =
     (case load_pem cr pem of
        None \<Rightarrow> Inl (PyValueError ''could not deserialize key'')
      | Some key \<Rightarrow> Inr (sha256_hex cr (key_der cr key)))"

section \<open>The registry\<close>

type_synonym registry = "(string, device_identity) dict"

definition reg_get :: "registry \<Rightarrow> string \<Rightarrow> device_identity option" where
  "reg_get r d = dget r d"

definition not_registered :: "string \<Rightarrow> string" where
  "not_registered d = ''device '' @ quoted d @ '' is not registered''"

definition reg_require :: "registry \<Rightarrow> string \<Rightarrow> device_identity result" where
  "reg_require r d =
     (case reg_get r d of None \<Rightarrow> Inl (DeviceNotFoundError (not_registered d)) | Some i \<Rightarrow> Inr i)"

definition reg_exists :: "registry \<Rightarrow> string \<Rightarrow> bool" where
  "reg_exists r d \<longleftrightarrow> d \<in> set (map fst r)"

definition list_devices :: "registry \<Rightarrow> device_identity list" where
  "list_devices r = map (\<lambda>k. the (dget r k)) (sort (map fst r))"

text \<open>
  \<open>register\<close>: refuse a known identifier, fingerprint the key, construct (and so check) the
  identity, store it.
\<close>

definition register ::
  "'k crypto \<Rightarrow> instant \<Rightarrow> registry \<Rightarrow> string \<Rightarrow> string \<Rightarrow> (string, string) dict \<Rightarrow> string
     \<Rightarrow> device_status \<Rightarrow> (device_identity \<times> registry) result" where
  "register cr now r d pem labels notes st =
     (if reg_exists r d then
        Inl (DeviceAlreadyRegisteredError (''device '' @ quoted d @ '' is already registered''))
      else
        (case fingerprint_public_key_pem cr pem of
           Inl _ \<Rightarrow> Inl (RegistryError (''public key for '' @ quoted d @ '' is not a readable PEM''))
         | Inr fp \<Rightarrow>
             (let i = \<lparr>di_device_id = d, di_public_key_pem = pem, di_public_key_fingerprint = fp,
                       di_status = st, di_created_at = now, di_updated_at = now,
                       di_labels = labels, di_notes = notes\<rparr>
              in if identity_valid i then Inr (i, dset d i r)
                 else Inl (PyValueError ''validation error for DeviceIdentity''))))"

definition set_status ::
  "instant \<Rightarrow> registry \<Rightarrow> string \<Rightarrow> device_status \<Rightarrow> (device_identity \<times> registry) result" where
  "set_status now r d st =
     and_then (reg_require r d)
       (\<lambda>i. let i' = i\<lparr>di_status := st, di_updated_at := now\<rparr> in Inr (i', dset d i' r))"

definition reg_remove :: "registry \<Rightarrow> string \<Rightarrow> registry result" where
  "reg_remove r d =
     (case dget r d of None \<Rightarrow> Inl (DeviceNotFoundError (not_registered d))
      | Some _ \<Rightarrow> Inr (dpop d r))"

text \<open>
  Snapshots. \<open>model_dump\<close> and \<open>model_validate\<close> belong to pydantic: \<open>dump\<close> and
  \<open>validate\<close> are parameters. Loading builds a fresh dictionary, so a record that fails
  leaves the registry as it was, and a later record wins over an earlier one of the same id.
\<close>

definition snapshot :: "(device_identity \<Rightarrow> 'j) \<Rightarrow> registry \<Rightarrow> 'j list" where
  "snapshot dump r = map dump (list_devices r)"

fun load_records ::
  "('j \<Rightarrow> device_identity result) \<Rightarrow> 'j list \<Rightarrow> registry \<Rightarrow> registry result" where
  "load_records validate [] acc = Inr acc"
| "load_records validate (j # js) acc =
     and_then (validate j) (\<lambda>i. load_records validate js (dset (di_device_id i) i acc))"

definition load_snapshot ::
  "('j \<Rightarrow> device_identity result) \<Rightarrow> 'j list \<Rightarrow> (nat \<times> registry) result" where
  "load_snapshot validate js =
     and_then (load_records validate js []) (\<lambda>r. Inr (length r, r))"

definition registry_status_reason :: "device_identity option \<Rightarrow> bool \<times> string" where
  "registry_status_reason oi =
     (case oi of
        None \<Rightarrow> (False, ''DEVICE_NOT_REGISTERED'')
      | Some i \<Rightarrow>
          if di_status i = REVOKED then (False, ''DEVICE_REVOKED'')
          else if di_status i = SUSPENDED then (False, ''DEVICE_SUSPENDED'')
          else (True, ''IDENTITY_ACTIVE''))"

section \<open>The registry invariant\<close>

definition registry_ok :: "registry \<Rightarrow> bool" where
  "registry_ok r \<longleftrightarrow>
     dict_ok r \<and> dict_all (\<lambda>k i. di_device_id i = k \<and> identity_valid i) r"

lemma registry_ok_empty [simp]: "registry_ok []"
  by (simp add: registry_ok_def)

lemma registry_ok_store:
  "registry_ok r \<Longrightarrow> di_device_id i = d \<Longrightarrow> identity_valid i \<Longrightarrow> registry_ok (dset d i r)"
  unfolding registry_ok_def by (auto intro!: dict_all_dset)

lemma registry_ok_pop: "registry_ok r \<Longrightarrow> registry_ok (dpop d r)"
  unfolding registry_ok_def by (auto intro: dict_all_dpop)

lemma registry_ok_get:
  "registry_ok r \<Longrightarrow> dget r d = Some i \<Longrightarrow> di_device_id i = d \<and> identity_valid i"
  by (auto simp: registry_ok_def dest: dict_all_dget)

lemma register_ok:
  "registry_ok r \<Longrightarrow> register cr now r d pem ls ns st = Inr (i, r') \<Longrightarrow>
    registry_ok r' \<and> reg_get r' d = Some i \<and> di_device_id i = d \<and> identity_valid i
    \<and> \<not> reg_exists r d"
  by (auto simp: register_def Let_def reg_get_def registry_ok_store
      split: if_splits sum.splits)

lemma set_status_ok:
  "registry_ok r \<Longrightarrow> set_status now r d st = Inr (i, r') \<Longrightarrow>
    registry_ok r' \<and> reg_get r' d = Some i \<and> di_status i = st"
  by (auto simp: set_status_def reg_require_def reg_get_def Let_def and_then_Inr_iff
      identity_valid_def split: option.splits intro!: registry_ok_store
      dest: registry_ok_get)

lemma reg_remove_ok:
  "registry_ok r \<Longrightarrow> reg_remove r d = Inr r' \<Longrightarrow> registry_ok r' \<and> reg_get r' d = None"
  by (auto simp: reg_remove_def reg_get_def registry_ok_pop split: option.splits)

lemma load_records_ok:
  "registry_ok acc \<Longrightarrow> \<forall>j i. validate j = Inr i \<longrightarrow> identity_valid i \<Longrightarrow>
    load_records validate js acc = Inr r \<Longrightarrow> registry_ok r"
proof (induction js arbitrary: acc)
  case Nil
  then show ?case by simp
next
  case (Cons j js)
  then show ?case
    by (auto simp: and_then_Inr_iff intro: registry_ok_store)
qed

text \<open>The frame of each mutation: no other device's entry moves.\<close>

lemma registry_frame:
  "register cr now r d pem ls ns st = Inr (i, r') \<Longrightarrow> d' \<noteq> d \<Longrightarrow> reg_get r' d' = reg_get r d'"
  "set_status now r d st = Inr (i, r') \<Longrightarrow> d' \<noteq> d \<Longrightarrow> reg_get r' d' = reg_get r d'"
  "reg_remove r d = Inr r' \<Longrightarrow> d' \<noteq> d \<Longrightarrow> reg_get r' d' = reg_get r d'"
  by (auto simp: register_def set_status_def reg_remove_def reg_require_def reg_get_def Let_def
      and_then_Inr_iff split: if_splits sum.splits option.splits)

section \<open>Registry programs\<close>

text \<open>The mutations as commands, and the state after a run that skips the refused ones.\<close>

datatype 'j reg_cmd =
    CmdRegister string string "(string, string) dict" string device_status
  | CmdSetStatus string device_status
  | CmdRemove string
  | CmdLoad "'j list"

fun reg_step ::
  "'k crypto \<Rightarrow> ('j \<Rightarrow> device_identity result) \<Rightarrow> instant \<Rightarrow> registry \<Rightarrow> 'j reg_cmd \<Rightarrow> registry" where
  "reg_step cr validate now r (CmdRegister d pem ls ns st) =
     (case register cr now r d pem ls ns st of Inl _ \<Rightarrow> r | Inr (_, r') \<Rightarrow> r')"
| "reg_step cr validate now r (CmdSetStatus d st) =
     (case set_status now r d st of Inl _ \<Rightarrow> r | Inr (_, r') \<Rightarrow> r')"
| "reg_step cr validate now r (CmdRemove d) =
     (case reg_remove r d of Inl _ \<Rightarrow> r | Inr r' \<Rightarrow> r')"
| "reg_step cr validate now r (CmdLoad js) =
     (case load_snapshot validate js of Inl _ \<Rightarrow> r | Inr (_, r') \<Rightarrow> r')"

lemma reg_step_ok:
  assumes "registry_ok r" and "\<forall>j i. validate j = Inr i \<longrightarrow> identity_valid i"
  shows "registry_ok (reg_step cr validate now r c)"
proof (cases c)
  case (CmdRegister d pem ls ns st)
  with assms show ?thesis
    by (auto split: sum.splits dest: register_ok)
next
  case (CmdSetStatus d st)
  with assms show ?thesis
    by (auto split: sum.splits dest: set_status_ok)
next
  case (CmdRemove d)
  with assms show ?thesis
    by (auto split: sum.splits dest: reg_remove_ok)
next
  case (CmdLoad js)
  with assms show ?thesis
    by (auto simp: load_snapshot_def and_then_Inr_iff split: sum.splits
        intro: load_records_ok [where acc = "[]" and validate = validate])
qed

end
