(* ===== verification/Bindings.thy ===== *)
theory Bindings
  imports Identity
begin

text \<open>
  Access domains, provenance, access bindings and the binding store
  (\<^verbatim>\<open>src/ca_ztcf/collectors/base.py\<close>). The store is keyed by peer address; a binding is
  attributed to at most one device, and a competing claim leaves the attribution as it was. The
  locale \<open>attribution_ledger\<close> states that contract; the store is its provider.
\<close>

section \<open>Domains, provenance, tiers\<close>

datatype access_domain = NR | WLAN

fun domain_value :: "access_domain \<Rightarrow> string" where
  "domain_value NR = ''NR''"
| "domain_value WLAN = ''WLAN''"

datatype source_mode =
    SYNTHETIC_FIXTURE
  | TIER1_WLAN_AUTH_EMULATION
  | REPLAY_CAPTURE
  | LIVE_TESTBED
  | SERVICE_DOMAIN

fun source_mode_value :: "source_mode \<Rightarrow> string" where
  "source_mode_value SYNTHETIC_FIXTURE = ''synthetic_fixture''"
| "source_mode_value TIER1_WLAN_AUTH_EMULATION = ''tier1_wlan_auth_emulation''"
| "source_mode_value REPLAY_CAPTURE = ''replay_capture''"
| "source_mode_value LIVE_TESTBED = ''live_testbed''"
| "source_mode_value SERVICE_DOMAIN = ''service_domain''"

definition tier1_source_modes :: "source_mode list" where
  "tier1_source_modes = [SYNTHETIC_FIXTURE, TIER1_WLAN_AUTH_EMULATION, REPLAY_CAPTURE, SERVICE_DOMAIN]"

definition measurement_source_modes :: "source_mode list" where
  "measurement_source_modes = [LIVE_TESTBED]"

instantiation access_domain :: enum
begin

definition enum_access_domain :: "access_domain list" where
  "enum_access_domain = [NR, WLAN]"

definition enum_all_access_domain :: "(access_domain \<Rightarrow> bool) \<Rightarrow> bool" where
  "enum_all_access_domain P \<longleftrightarrow> P NR \<and> P WLAN"

definition enum_ex_access_domain :: "(access_domain \<Rightarrow> bool) \<Rightarrow> bool" where
  "enum_ex_access_domain P \<longleftrightarrow> P NR \<or> P WLAN"

instance proof
  show "(UNIV :: access_domain set) = set Enum.enum"
    by (auto simp: enum_access_domain_def intro: access_domain.exhaust)
  show "distinct (Enum.enum :: access_domain list)"
    by (simp add: enum_access_domain_def)
  fix P :: "access_domain \<Rightarrow> bool"
  show "Enum.enum_all P = Ball UNIV P"
    unfolding enum_all_access_domain_def by (auto, metis access_domain.exhaust)
  show "Enum.enum_ex P = Bex UNIV P"
    unfolding enum_ex_access_domain_def by (auto, metis access_domain.exhaust)
qed

end

section \<open>Bindings\<close>

record access_binding =
  ab_binding_id :: string
  ab_domain :: access_domain
  ab_peer_address :: string
  ab_device_ref :: "string option"
  ab_source :: string
  ab_source_mode :: source_mode
  ab_first_seen :: instant
  ab_last_seen :: instant
  ab_expires_at :: "instant option"
  ab_attributes :: "(string, string) dict"

definition ab_age_us :: "access_binding \<Rightarrow> instant \<Rightarrow> int" where
  "ab_age_us b now = max 0 (now - ab_last_seen b)"

definition ab_is_expired :: "access_binding \<Rightarrow> instant \<Rightarrow> bool" where
  "ab_is_expired b now \<longleftrightarrow> (case ab_expires_at b of None \<Rightarrow> False | Some e \<Rightarrow> now > e)"

text \<open>\<open>a or b\<close> on optional strings: \<open>None\<close> and the empty string are false.\<close>

definition str_or :: "string option \<Rightarrow> string option \<Rightarrow> string option" where
  "str_or a b = (case a of Some (c # cs) \<Rightarrow> Some (c # cs) | _ \<Rightarrow> b)"

lemma str_or_None [simp]: "str_or None b = b"
  by (simp add: str_or_def)

section \<open>The store\<close>

type_synonym binding_store = "(string, access_binding) dict"

definition upsert :: "binding_store \<Rightarrow> access_binding \<Rightarrow> access_binding \<times> binding_store" where
  "upsert s b =
     (let merged =
        (case dget s (ab_peer_address b) of
           None \<Rightarrow> b
         | Some ex \<Rightarrow>
             if ab_domain ex = ab_domain b then
               b\<lparr>ab_binding_id := ab_binding_id ex, ab_first_seen := ab_first_seen ex,
                 ab_device_ref := str_or (ab_device_ref b) (ab_device_ref ex)\<rparr>
             else b)
      in (merged, dset (ab_peer_address merged) merged s))"

definition bs_get :: "instant \<Rightarrow> binding_store \<Rightarrow> string \<Rightarrow> access_binding option" where
  "bs_get clk s a =
     (case dget s a of
        None \<Rightarrow> None
      | Some b \<Rightarrow> if ab_is_expired b clk then None else Some b)"

definition claim ::
  "instant \<Rightarrow> binding_store \<Rightarrow> string \<Rightarrow> string \<Rightarrow> access_binding option \<times> bool \<times> binding_store" where
  "claim clk s a d =
     (case bs_get clk s a of
        None \<Rightarrow> (None, True, s)
      | Some b \<Rightarrow>
          (case ab_device_ref b of
             None \<Rightarrow> (let claimed = b\<lparr>ab_device_ref := Some d\<rparr>
                      in (Some claimed, True, dset a claimed s))
           | Some d' \<Rightarrow> if d' = d then (Some b, True, s) else (Some b, False, s)))"

definition domain_for :: "instant \<Rightarrow> binding_store \<Rightarrow> string \<Rightarrow> access_domain option" where
  "domain_for clk s a = map_option ab_domain (bs_get clk s a)"

definition release :: "binding_store \<Rightarrow> string \<Rightarrow> binding_store" where
  "release s a = dpop a s"

definition all_bindings :: "binding_store \<Rightarrow> access_binding list" where
  "all_bindings s = map (\<lambda>k. the (dget s k)) (sort (map fst s))"

section \<open>The store invariant\<close>

definition binding_store_ok :: "binding_store \<Rightarrow> bool" where
  "binding_store_ok s \<longleftrightarrow> dict_ok s \<and> dict_all (\<lambda>a b. ab_peer_address b = a) s"

lemma binding_store_ok_empty [simp]: "binding_store_ok []"
  by (simp add: binding_store_ok_def)

lemma binding_store_ok_dset:
  "binding_store_ok s \<Longrightarrow> ab_peer_address b = a \<Longrightarrow> binding_store_ok (dset a b s)"
  unfolding binding_store_ok_def by (auto intro!: dict_all_dset)

lemma binding_store_ok_get:
  "binding_store_ok s \<Longrightarrow> dget s a = Some b \<Longrightarrow> ab_peer_address b = a"
  by (auto simp: binding_store_ok_def dest: dict_all_dget)

lemma bs_get_SomeD: "bs_get clk s a = Some b \<Longrightarrow> dget s a = Some b \<and> \<not> ab_is_expired b clk"
  by (auto simp: bs_get_def split: option.splits if_splits)

lemma upsert_ok: "binding_store_ok s \<Longrightarrow> binding_store_ok (snd (upsert s b))"
  by (auto simp: upsert_def Let_def intro!: binding_store_ok_dset split: option.splits)

lemma claim_ok: "binding_store_ok s \<Longrightarrow> binding_store_ok (snd (snd (claim clk s a d)))"
  by (auto simp: claim_def Let_def intro!: binding_store_ok_dset
      dest!: bs_get_SomeD dest: binding_store_ok_get split: option.splits)

lemma release_ok: "binding_store_ok s \<Longrightarrow> binding_store_ok (release s a)"
  unfolding release_def binding_store_ok_def by (auto intro: dict_all_dpop)

section \<open>The attribution contract\<close>

text \<open>
  What the service domain needs of a ledger of attributions: a claim on a live, free address takes
  it; the owner's claim changes nothing; another's claim is inconsistent and changes nothing; a
  claim on an address that is not live changes nothing and is not a conflict.
\<close>

locale attribution_ledger =
  fixes owner :: "'s \<Rightarrow> 'a \<Rightarrow> 'd option"
    and live :: "'t \<Rightarrow> 's \<Rightarrow> 'a \<Rightarrow> bool"
    and try_claim :: "'t \<Rightarrow> 's \<Rightarrow> 'a \<Rightarrow> 'd \<Rightarrow> bool \<times> 's"
  assumes claim_free:
      "live t s a \<Longrightarrow> owner s a = None \<Longrightarrow>
        fst (try_claim t s a d) \<and> owner (snd (try_claim t s a d)) = (owner s)(a \<mapsto> d)"
    and claim_owned:
      "live t s a \<Longrightarrow> owner s a = Some d' \<Longrightarrow> try_claim t s a d = (d' = d, s)"
    and claim_dead: "\<not> live t s a \<Longrightarrow> try_claim t s a d = (True, s)"
    and claim_live: "live t' (snd (try_claim t s a d)) a' = live t' s a'"
begin

text \<open>A list of claims, each at its own time; the verdicts and the final ledger.\<close>

fun claims :: "'s \<Rightarrow> ('t \<times> 'a \<times> 'd) list \<Rightarrow> bool list \<times> 's" where
  "claims s [] = ([], s)"
| "claims s ((t, a, d) # cs) =
     (let r = try_claim t s a d; rs = claims (snd r) cs in (fst r # fst rs, snd rs))"

lemma owner_kept_by_claim: "owner s a = Some d \<Longrightarrow> owner (snd (try_claim t s a' d')) a = Some d"
proof (cases "live t s a'")
  case True
  assume o: "owner s a = Some d"
  show ?thesis
  proof (cases "owner s a'")
    case None
    with True o claim_free [OF True None, of d'] show ?thesis by auto
  next
    case (Some e)
    with True o show ?thesis by (simp add: claim_owned)
  qed
next
  case False
  then show "owner s a = Some d \<Longrightarrow> ?thesis" by (simp add: claim_dead)
qed

lemma owner_kept_by_claims: "owner s a = Some d \<Longrightarrow> owner (snd (claims s cs)) a = Some d"
proof (induction cs arbitrary: s)
  case Nil
  then show ?case by simp
next
  case (Cons c cs)
  obtain t a' d' where c: "c = (t, a', d')" by (cases c) auto
  from Cons.prems have "owner (snd (try_claim t s a' d')) a = Some d"
    by (rule owner_kept_by_claim)
  then have "owner (snd (claims (snd (try_claim t s a' d')) cs)) a = Some d"
    by (rule Cons.IH)
  then show ?case by (simp add: c Let_def)
qed

lemma live_kept_by_claims: "live t (snd (claims s cs)) a = live t s a"
proof (induction cs arbitrary: s)
  case Nil
  show ?case by simp
next
  case (Cons c cs)
  obtain t' a' d' where c: "c = (t', a', d')" by (cases c) auto
  have "live t (snd (claims (snd (try_claim t' s a' d')) cs)) a = live t (snd (try_claim t' s a' d')) a"
    by (rule Cons.IH)
  then show ?case by (simp add: c claim_live Let_def)
qed

text \<open>The first consistent claim on a live address decides: every later claim by another fails.\<close>

lemma first_claim_decides:
  assumes live0: "live t0 s a" and first: "fst (try_claim t0 s a d)"
    and live1: "live t1 s a" and other: "d' \<noteq> d"
  shows "\<not> fst (try_claim t1 (snd (claims (snd (try_claim t0 s a d)) cs)) a d')"
proof -
  let ?s1 = "snd (try_claim t0 s a d)"
  have "owner ?s1 a = Some d"
  proof (cases "owner s a")
    case None
    with claim_free [OF live0 None, of d] show ?thesis by simp
  next
    case (Some e)
    with live0 first show ?thesis by (auto simp: claim_owned)
  qed
  then have "owner (snd (claims ?s1 cs)) a = Some d"
    by (rule owner_kept_by_claims)
  moreover have "live t1 (snd (claims ?s1 cs)) a"
    using live1 by (simp add: live_kept_by_claims claim_live)
  ultimately show ?thesis
    using other by (simp add: claim_owned)
qed

end

text \<open>The store as a ledger.\<close>

definition attributed_to :: "binding_store \<Rightarrow> string \<Rightarrow> string option" where
  "attributed_to s a = Option.bind (dget s a) ab_device_ref"

definition has_live_binding :: "instant \<Rightarrow> binding_store \<Rightarrow> string \<Rightarrow> bool" where
  "has_live_binding clk s a \<longleftrightarrow> bs_get clk s a \<noteq> None"

lemma claim_unattributed:
  assumes "bs_get clk s a = Some b" and "ab_device_ref b = None"
  shows "claim clk s a d = (Some (b\<lparr>ab_device_ref := Some d\<rparr>), True, dset a (b\<lparr>ab_device_ref := Some d\<rparr>) s)"
  using assms by (simp add: claim_def Let_def)

lemma claim_attributed:
  assumes "bs_get clk s a = Some b" and "ab_device_ref b = Some d'"
  shows "claim clk s a d = (Some b, d' = d, s)"
  using assms by (simp add: claim_def)

lemma claim_no_binding: "bs_get clk s a = None \<Longrightarrow> claim clk s a d = (None, True, s)"
  by (simp add: claim_def)

lemma ab_is_expired_claimed [simp]: "ab_is_expired (b\<lparr>ab_device_ref := r\<rparr>) t = ab_is_expired b t"
  by (simp add: ab_is_expired_def)

lemma has_live_binding_claim:
  "has_live_binding t (snd (snd (claim clk s a d))) a' = has_live_binding t s a'"
proof (cases "bs_get clk s a")
  case None
  then show ?thesis by (simp add: claim_no_binding)
next
  case (Some b)
  then have "dget s a = Some b" by (auto dest: bs_get_SomeD)
  with Some show ?thesis
    by (cases "ab_device_ref b")
      (simp_all add: claim_attributed claim_unattributed has_live_binding_def bs_get_def)
qed

interpretation ledger: attribution_ledger attributed_to has_live_binding "\<lambda>clk s a d. snd (claim clk s a d)"
proof
  fix t s a and d :: string
  assume "has_live_binding t s a" and free: "attributed_to s a = None"
  then obtain b where b: "bs_get t s a = Some b" by (auto simp: has_live_binding_def)
  with free have "ab_device_ref b = None"
    by (auto simp: attributed_to_def dest!: bs_get_SomeD)
  with b show "fst (snd (claim t s a d)) \<and> attributed_to (snd (snd (claim t s a d))) = (attributed_to s)(a \<mapsto> d)"
    by (auto simp: claim_unattributed attributed_to_def fun_eq_iff)
next
  fix t s a and d' d :: string
  assume "has_live_binding t s a" and own: "attributed_to s a = Some d'"
  then obtain b where b: "bs_get t s a = Some b" by (auto simp: has_live_binding_def)
  with own have "ab_device_ref b = Some d'"
    by (auto simp: attributed_to_def dest!: bs_get_SomeD)
  with b show "snd (claim t s a d) = (d' = d, s)" by (simp add: claim_attributed)
next
  fix t s a and d :: string
  assume "\<not> has_live_binding t s a"
  then show "snd (claim t s a d) = (True, s)"
    by (simp add: has_live_binding_def claim_no_binding)
next
  fix t' t s a a' and d :: string
  show "has_live_binding t' (snd (snd (claim t s a d))) a' = has_live_binding t' s a'"
    by (rule has_live_binding_claim)
qed

section \<open>Programs over the store\<close>

datatype binding_op =
    Upsert access_binding
  | Claim instant string string
  | Release string
  | ClearStore

fun binding_step :: "binding_store \<Rightarrow> binding_op \<Rightarrow> binding_store" where
  "binding_step s (Upsert b) = snd (upsert s b)"
| "binding_step s (Claim clk a d) = snd (snd (claim clk s a d))"
| "binding_step s (Release a) = release s a"
| "binding_step s ClearStore = []"

definition binding_run :: "binding_store \<Rightarrow> binding_op list \<Rightarrow> binding_store" where
  "binding_run s ops = foldl binding_step s ops"

lemma binding_step_ok: "binding_store_ok s \<Longrightarrow> binding_store_ok (binding_step s op)"
  by (cases op) (simp_all add: upsert_ok claim_ok release_ok)

lemma binding_run_ok: "binding_store_ok s \<Longrightarrow> binding_store_ok (binding_run s ops)"
  unfolding binding_run_def by (induction ops arbitrary: s) (simp_all add: binding_step_ok)

text \<open>
  The operations that can end an attribution of address \<open>a\<close> held in domain \<open>held\<close>: releasing
  it, clearing the store, a binding for it from the other domain, or a binding that names a device
  itself (collectors never do).
\<close>

definition ends_attribution :: "string \<Rightarrow> access_domain \<Rightarrow> binding_op \<Rightarrow> bool" where
  "ends_attribution a held op \<longleftrightarrow>
     (case op of
        Upsert b \<Rightarrow> ab_peer_address b = a \<and> (ab_domain b \<noteq> held \<or> ab_device_ref b \<noteq> None)
      | Claim _ _ _ \<Rightarrow> False
      | Release a' \<Rightarrow> a' = a
      | ClearStore \<Rightarrow> True)"

lemma binding_step_keeps_attribution:
  assumes "dget s a = Some b" and "ab_device_ref b = Some d" and "\<not> ends_attribution a (ab_domain b) op"
  shows "\<exists>b'. dget (binding_step s op) a = Some b' \<and> ab_device_ref b' = Some d
    \<and> ab_domain b' = ab_domain b \<and> ab_binding_id b' = ab_binding_id b \<and> ab_first_seen b' = ab_first_seen b"
proof (cases op)
  case (Upsert n)
  with assms show ?thesis
    by (cases "ab_peer_address n = a")
      (auto simp: ends_attribution_def upsert_def Let_def split: option.splits)
next
  case (Claim clk a' e)
  show ?thesis
  proof (cases "bs_get clk s a'")
    case None
    with Claim assms show ?thesis by (simp add: claim_no_binding)
  next
    case (Some c)
    then have "dget s a' = Some c" by (auto dest: bs_get_SomeD)
    with Claim assms Some show ?thesis
      by (cases "ab_device_ref c") (auto simp: claim_attributed claim_unattributed)
  qed
next
  case (Release a')
  with assms show ?thesis by (auto simp: ends_attribution_def release_def)
next
  case ClearStore
  with assms show ?thesis by (simp add: ends_attribution_def)
qed

lemma binding_run_keeps_attribution:
  "dget s a = Some b \<Longrightarrow> ab_device_ref b = Some d \<Longrightarrow>
    \<forall>op \<in> set ops. \<not> ends_attribution a (ab_domain b) op \<Longrightarrow>
    \<exists>b'. dget (binding_run s ops) a = Some b' \<and> ab_device_ref b' = Some d
      \<and> ab_binding_id b' = ab_binding_id b \<and> ab_first_seen b' = ab_first_seen b"
proof (induction ops arbitrary: s b)
  case Nil
  then show ?case by (simp add: binding_run_def)
next
  case (Cons op ops)
  then obtain b1 where b1: "dget (binding_step s op) a = Some b1" "ab_device_ref b1 = Some d"
    "ab_domain b1 = ab_domain b" "ab_binding_id b1 = ab_binding_id b" "ab_first_seen b1 = ab_first_seen b"
    using binding_step_keeps_attribution [of s a b d op] by auto
  with Cons.IH [OF b1(1,2)] Cons.prems(3) show ?case
    by (simp add: binding_run_def)
qed

end
