(* ===== verification/Transition.thy ===== *)
theory Transition
  imports Bindings
begin

text \<open>
  The transition collector (\<^verbatim>\<open>src/ca_ztcf/collectors/transition.py\<close>): per device, the
  domain and address it was last accepted in, the instants of its recent transitions, and the
  events themselves, also indexed by identifier. Observations that are older than the last one
  accepted, or repeat it at the same instant, are rejected.

  The pruning of the history is the same loop as in the security counters; the locale
  \<open>sliding_window\<close> is their shared contract.
\<close>

section \<open>Sliding windows\<close>

text \<open>\<open>while bucket and bucket[0] < cutoff: bucket.popleft()\<close>\<close>

fun prune_before :: "instant \<Rightarrow> instant list \<Rightarrow> instant list" where
  "prune_before cutoff [] = []"
| "prune_before cutoff (t # ts) = (if t < cutoff then prune_before cutoff ts else t # ts)"

locale sliding_window =
  fixes prune :: "instant \<Rightarrow> instant list \<Rightarrow> instant list"
  assumes prune_suffix: "\<exists>old. ts = old @ prune c ts \<and> (\<forall>t \<in> set old. t < c)"
    and prune_head: "prune c ts = t # rest \<Longrightarrow> c \<le> t"
begin

lemma prune_length: "length (prune c ts) \<le> length ts"
  using prune_suffix [of ts c] by (metis le_add2 length_append)

lemma prune_subset: "set (prune c ts) \<subseteq> set ts"
  using prune_suffix [of ts c] by (metis set_append Un_upper2)

text \<open>On instants recorded in order, the window holds exactly those not older than the cutoff.\<close>

lemma prune_sorted:
  assumes "sorted ts"
  shows "prune c ts = filter (\<lambda>t. c \<le> t) ts"
proof -
  obtain old where old: "ts = old @ prune c ts" "\<forall>t \<in> set old. t < c"
    using prune_suffix [of ts c] by blast
  have keep: "\<forall>t \<in> set (prune c ts). c \<le> t"
  proof (cases "prune c ts")
    case (Cons t rest)
    then have "c \<le> t" by (rule prune_head)
    moreover have "sorted (t # rest)"
      using assms old(1) Cons by (metis sorted_append)
    ultimately show ?thesis using Cons by auto
  qed simp
  have "filter (\<lambda>t. c \<le> t) (old @ prune c ts) = prune c ts"
    using old(2) keep by (auto simp: filter_empty_conv intro: filter_True)
  with old(1) show ?thesis by metis
qed

lemma prune_sorted_sorted: "sorted ts \<Longrightarrow> sorted (prune c ts)"
  using prune_suffix [of ts c] by (metis sorted_append)

lemma prune_idem_later:
  assumes "sorted ts" and "c \<le> c'"
  shows "prune c' (prune c ts) = prune c' ts"
proof -
  have "prune c' (prune c ts) = filter (\<lambda>t. c' \<le> t) (filter (\<lambda>t. c \<le> t) ts)"
    using assms(1) by (metis prune_sorted prune_sorted_sorted)
  also have "\<dots> = filter (\<lambda>t. c' \<le> t) ts"
    using assms(2) by (auto intro: filter_cong)
  also have "\<dots> = prune c' ts"
    using assms(1) by (simp add: prune_sorted)
  finally show ?thesis .
qed

end

interpretation window: sliding_window prune_before
proof
  fix ts c
  show "\<exists>old. ts = old @ prune_before c ts \<and> (\<forall>t \<in> set old. t < c)"
  proof (induction ts)
    case Nil
    show ?case by simp
  next
    case (Cons t ts)
    then obtain old where old: "ts = old @ prune_before c ts" "\<forall>t \<in> set old. t < c" by blast
    show ?case
    proof (cases "t < c")
      case True
      with old show ?thesis by (intro exI [of _ "t # old"]) simp
    next
      case False
      then show ?thesis by simp
    qed
  qed
next
  fix c ts t rest
  show "prune_before c ts = t # rest \<Longrightarrow> c \<le> t"
    by (induction ts) (auto split: if_splits)
qed

section \<open>Events and results\<close>

datatype transition_context = CtxNone | NR_TO_WLAN | WLAN_TO_NR | INTRA | REPEATED

fun context_value :: "transition_context \<Rightarrow> string" where
  "context_value CtxNone = ''NONE''"
| "context_value NR_TO_WLAN = ''NR_TO_WLAN''"
| "context_value WLAN_TO_NR = ''WLAN_TO_NR''"
| "context_value INTRA = ''INTRA''"
| "context_value REPEATED = ''REPEATED''"

datatype transition_reason = DOMAIN_CHANGE | ADDRESS_CHANGE

datatype observation_verdict = ACCEPTED | NO_CHANGE | DUPLICATE | STALE | OUT_OF_ORDER

record transition_event =
  te_transition_id :: string
  te_device_id :: string
  te_from_domain :: "access_domain option"
  te_to_domain :: access_domain
  te_started_at :: instant
  te_completed_at :: "instant option"
  te_detected_at :: instant
  te_reason :: transition_reason
  te_sequence_number :: nat
  te_gap_ms :: "int option"
  te_transitions_in_window :: nat
  te_repeated :: bool
  te_cross_domain :: bool
  te_corroborated :: bool
  te_source_event_refs :: "string list"
  te_source_modes :: "source_mode list"
  te_from_address :: "string option"
  te_to_address :: "string option"

definition te_age_us :: "transition_event \<Rightarrow> instant \<Rightarrow> int" where
  "te_age_us e now = max 0 (now - te_detected_at e)"

definition te_duration_ms :: "transition_event \<Rightarrow> int option" where
  "te_duration_ms e = map_option (\<lambda>c. max 0 ((c - te_started_at e) div 1000)) (te_completed_at e)"

record observation_result =
  or_verdict :: observation_verdict
  or_event :: "transition_event option"

record device_track =
  dt_current_domain :: "access_domain option"
  dt_current_address :: "string option"
  dt_last_observed_at :: "instant option"
  dt_last_transition :: "transition_event option"
  dt_history :: "instant list"
  dt_sequence :: nat
  dt_rejected_stale :: nat
  dt_rejected_duplicate :: nat
  dt_uncorroborated :: nat
  dt_transitions :: "(string, transition_event) dict"

definition new_track :: device_track where
  "new_track = \<lparr>dt_current_domain = None, dt_current_address = None, dt_last_observed_at = None,
     dt_last_transition = None, dt_history = [], dt_sequence = 0, dt_rejected_stale = 0,
     dt_rejected_duplicate = 0, dt_uncorroborated = 0, dt_transitions = []\<rparr>"

record transition_collector =
  tc_rate_window_s :: int
  tc_repeat_threshold :: int
  tc_transition_window_s :: int
  tc_history_limit :: nat
  tc_tracks :: "(string, device_track) dict"
  tc_by_transition_id :: "(string, transition_event) dict"

definition new_transition_collector :: "int \<Rightarrow> int \<Rightarrow> int \<Rightarrow> transition_collector" where
  "new_transition_collector rate repeat window =
     \<lparr>tc_rate_window_s = rate, tc_repeat_threshold = repeat, tc_transition_window_s = window,
      tc_history_limit = 64, tc_tracks = [], tc_by_transition_id = []\<rparr>"

definition prune_history :: "transition_collector \<Rightarrow> device_track \<Rightarrow> instant \<Rightarrow> device_track" where
  "prune_history tc track now =
     track\<lparr>dt_history := prune_before (now - seconds (tc_rate_window_s tc)) (dt_history track)\<rparr>"

section \<open>Observation\<close>

text \<open>
  \<open>_corroborate\<close>: \<open>store\<close> is \<open>None\<close> where no binding store was given; the store reads the
  clock itself (\<open>clk\<close>).
\<close>

definition corroborate ::
  "instant \<Rightarrow> binding_store option \<Rightarrow> access_domain \<Rightarrow> string option
     \<Rightarrow> bool \<times> string list \<times> source_mode list" where
  "corroborate clk store d addr =
     (case (store, addr) of
        (Some bs, Some a) \<Rightarrow>
          (case bs_get clk bs a of
             None \<Rightarrow> (False, [], [])
           | Some b \<Rightarrow>
               if ab_domain b \<noteq> d then (False, [], [])
               else (True, [ab_binding_id b], [ab_source_mode b]))
      | _ \<Rightarrow> (False, [], []))"

text \<open>
  \<open>int((now - previous).total_seconds() * 1000)\<close>: whole milliseconds, rounded towards zero; the
  guard before it makes the interval non-negative.
\<close>

definition gap_ms_of :: "instant option \<Rightarrow> instant \<Rightarrow> int option" where
  "gap_ms_of prev now = map_option (\<lambda>p. max 0 ((now - p) div 1000)) prev"

definition make_event ::
  "transition_collector \<Rightarrow> instant \<Rightarrow> binding_store option \<Rightarrow> string \<Rightarrow> string \<Rightarrow> access_domain
     \<Rightarrow> string option \<Rightarrow> instant \<Rightarrow> device_track \<Rightarrow> device_track \<Rightarrow> bool \<Rightarrow> transition_event" where
  "make_event tc clk store tid d dm addr now old new domain_changed =
     (case corroborate clk store dm addr of (corr, refs, modes) \<Rightarrow>
      \<lparr>te_transition_id = tid, te_device_id = d, te_from_domain = dt_current_domain old,
       te_to_domain = dm,
       te_started_at = (case dt_last_observed_at old of None \<Rightarrow> now | Some p \<Rightarrow> p),
       te_completed_at = (if corr then Some now else None),
       te_detected_at = now,
       te_reason = (if domain_changed then DOMAIN_CHANGE else ADDRESS_CHANGE),
       te_sequence_number = dt_sequence new,
       te_gap_ms = gap_ms_of (dt_last_observed_at old) now,
       te_transitions_in_window = length (dt_history new),
       te_repeated = (int (length (dt_history new)) \<ge> tc_repeat_threshold tc),
       te_cross_domain = domain_changed, te_corroborated = corr,
       te_source_event_refs = refs, te_source_modes = modes,
       te_from_address = dt_current_address old, te_to_address = addr\<rparr>)"

text \<open>Recording an event: keep it as the last one, index it, and evict the oldest over the limit.\<close>

definition store_event ::
  "transition_collector \<Rightarrow> string \<Rightarrow> device_track \<Rightarrow> transition_event \<Rightarrow> transition_collector" where
  "store_event tc d track e =
     (let trans = dset (te_transition_id e) e (dt_transitions track);
          index = dset (te_transition_id e) e (tc_by_transition_id tc)
      in if length trans > tc_history_limit tc then
           (case trans of
              [] \<Rightarrow> tc
            | (oldest, removed) # _ \<Rightarrow>
                tc\<lparr>tc_tracks := dset d (track\<lparr>dt_last_transition := Some e,
                                   dt_transitions := dpop oldest trans\<rparr>) (tc_tracks tc),
                   tc_by_transition_id := dpop (te_transition_id removed) index\<rparr>)
         else tc\<lparr>tc_tracks := dset d (track\<lparr>dt_last_transition := Some e, dt_transitions := trans\<rparr>)
                      (tc_tracks tc),
                 tc_by_transition_id := index\<rparr>)"

definition track_of :: "transition_collector \<Rightarrow> string \<Rightarrow> device_track" where
  "track_of tc d = (case dget (tc_tracks tc) d of None \<Rightarrow> new_track | Some t \<Rightarrow> t)"

text \<open>What an observation is: stale, a repetition, or a change of position.\<close>

definition is_stale :: "device_track \<Rightarrow> instant \<Rightarrow> bool" where
  "is_stale t now = (case dt_last_observed_at t of None \<Rightarrow> False | Some l \<Rightarrow> now < l)"

definition is_repeat :: "device_track \<Rightarrow> access_domain \<Rightarrow> string option \<Rightarrow> instant \<Rightarrow> bool" where
  "is_repeat t dm addr now \<longleftrightarrow> dt_current_domain t = Some dm \<and> dt_current_address t = addr
     \<and> dt_last_observed_at t = Some now"

definition domain_change :: "device_track \<Rightarrow> access_domain \<Rightarrow> bool" where
  "domain_change t dm \<longleftrightarrow> dt_current_domain t \<noteq> None \<and> dt_current_domain t \<noteq> Some dm"

definition address_change :: "device_track \<Rightarrow> access_domain \<Rightarrow> string option \<Rightarrow> bool" where
  "address_change t dm addr \<longleftrightarrow> dt_current_domain t = Some dm \<and> dt_current_address t \<noteq> None
     \<and> addr \<noteq> None \<and> dt_current_address t \<noteq> addr"

text \<open>The track an accepted change leaves before its event is stored.\<close>

definition counted_track ::
  "instant \<Rightarrow> binding_store option \<Rightarrow> transition_collector \<Rightarrow> device_track \<Rightarrow> access_domain
     \<Rightarrow> string option \<Rightarrow> instant \<Rightarrow> device_track" where
  "counted_track clk store tc track dm addr now =
     (let pruned = prune_history tc (track\<lparr>dt_current_domain := Some dm, dt_current_address := addr,
                       dt_last_observed_at := Some now\<rparr>) now;
          counted = pruned\<lparr>dt_history := dt_history pruned @ [now],
                           dt_sequence := Suc (dt_sequence pruned)\<rparr>
      in if fst (corroborate clk store dm addr) then counted
         else counted\<lparr>dt_uncorroborated := Suc (dt_uncorroborated counted)\<rparr>)"

definition observe_detailed ::
  "instant \<Rightarrow> binding_store option \<Rightarrow> string \<Rightarrow> transition_collector \<Rightarrow> string \<Rightarrow> access_domain
     \<Rightarrow> string option \<Rightarrow> instant \<Rightarrow> observation_result \<times> transition_collector" where
  "observe_detailed clk store tid tc d dm addr now =
     (let track = track_of tc d;
          put = (\<lambda>t. tc\<lparr>tc_tracks := dset d t (tc_tracks tc)\<rparr>)
      in if is_stale track now then
           (\<lparr>or_verdict = STALE, or_event = dt_last_transition track\<rparr>,
            put (track\<lparr>dt_rejected_stale := Suc (dt_rejected_stale track)\<rparr>))
         else if is_repeat track dm addr now then
           (\<lparr>or_verdict = DUPLICATE, or_event = dt_last_transition track\<rparr>,
            put (track\<lparr>dt_rejected_duplicate := Suc (dt_rejected_duplicate track)\<rparr>))
         else if \<not> (domain_change track dm \<or> address_change track dm addr) then
           (\<lparr>or_verdict = NO_CHANGE, or_event = None\<rparr>,
            put (track\<lparr>dt_current_domain := Some dm, dt_current_address := addr,
                       dt_last_observed_at := Some now\<rparr>))
         else
           (let track' = counted_track clk store tc track dm addr now;
                e = make_event tc clk store tid d dm addr now track track' (domain_change track dm)
            in (\<lparr>or_verdict = ACCEPTED, or_event = Some e\<rparr>, store_event tc d track' e)))"

definition observe ::
  "instant \<Rightarrow> binding_store option \<Rightarrow> string \<Rightarrow> transition_collector \<Rightarrow> string \<Rightarrow> access_domain
     \<Rightarrow> string option \<Rightarrow> instant \<Rightarrow> transition_event option \<times> transition_collector" where
  "observe clk store tid tc d dm addr now =
     (case observe_detailed clk store tid tc d dm addr now of (r, tc') \<Rightarrow> (or_event r, tc'))"

section \<open>Queries\<close>

definition current_domain :: "transition_collector \<Rightarrow> string \<Rightarrow> access_domain option" where
  "current_domain tc d = Option.bind (dget (tc_tracks tc) d) dt_current_domain"

definition last_transition :: "transition_collector \<Rightarrow> string \<Rightarrow> transition_event option" where
  "last_transition tc d = Option.bind (dget (tc_tracks tc) d) dt_last_transition"

definition previous_domain :: "transition_collector \<Rightarrow> string \<Rightarrow> access_domain option" where
  "previous_domain tc d = Option.bind (last_transition tc d) te_from_domain"

definition transition_by_id :: "transition_collector \<Rightarrow> string \<Rightarrow> transition_event option" where
  "transition_by_id tc tid = dget (tc_by_transition_id tc) tid"

text \<open>Counting prunes the stored history as a side effect.\<close>

definition transitions_in_window :: "transition_collector \<Rightarrow> string \<Rightarrow> instant \<Rightarrow> nat \<times> transition_collector" where
  "transitions_in_window tc d now =
     (case dget (tc_tracks tc) d of
        None \<Rightarrow> (0, tc)
      | Some track \<Rightarrow>
          (let track' = prune_history tc track now
           in (length (dt_history track'), tc\<lparr>tc_tracks := dset d track' (tc_tracks tc)\<rparr>)))"

definition is_transition_recent :: "transition_collector \<Rightarrow> string \<Rightarrow> instant \<Rightarrow> bool" where
  "is_transition_recent tc d now =
     (case last_transition tc d of
        None \<Rightarrow> False
      | Some e \<Rightarrow> now - te_detected_at e \<le> seconds (tc_transition_window_s tc))"

definition context_for :: "transition_collector \<Rightarrow> string \<Rightarrow> instant \<Rightarrow> transition_context \<times> transition_collector" where
  "context_for tc d now =
     (case last_transition tc d of
        None \<Rightarrow> (CtxNone, tc)
      | Some e \<Rightarrow>
          if now - te_detected_at e > seconds (tc_transition_window_s tc) then (CtxNone, tc)
          else
            (case transitions_in_window tc d now of (n, tc') \<Rightarrow>
               if int n \<ge> tc_repeat_threshold tc then (REPEATED, tc')
               else if \<not> te_cross_domain e then (INTRA, tc')
               else if te_from_domain e = Some NR \<and> te_to_domain e = WLAN then (NR_TO_WLAN, tc')
               else if te_from_domain e = Some WLAN \<and> te_to_domain e = NR then (WLAN_TO_NR, tc')
               else (INTRA, tc')))"

definition anomaly_counts :: "transition_collector \<Rightarrow> string \<Rightarrow> nat \<times> nat \<times> nat" where
  "anomaly_counts tc d =
     (case dget (tc_tracks tc) d of
        None \<Rightarrow> (0, 0, 0)
      | Some t \<Rightarrow> (dt_rejected_stale t, dt_rejected_duplicate t, dt_uncorroborated t))"

definition reset_device :: "transition_collector \<Rightarrow> string \<Rightarrow> transition_collector" where
  "reset_device tc d =
     (case dget (tc_tracks tc) d of
        None \<Rightarrow> tc
      | Some track \<Rightarrow>
          tc\<lparr>tc_tracks := dpop d (tc_tracks tc),
             tc_by_transition_id := fold dpop (map fst (dt_transitions track)) (tc_by_transition_id tc)\<rparr>)"

definition reset_all :: "transition_collector \<Rightarrow> transition_collector" where
  "reset_all tc = tc\<lparr>tc_tracks := [], tc_by_transition_id := []\<rparr>"

section \<open>Invariant\<close>

text \<open>
  A track of device \<open>d\<close>: its instants are in order and not after the last accepted
  observation, its stored events are its own and not more than the limit.
\<close>

definition not_after :: "instant \<Rightarrow> instant option \<Rightarrow> bool" where
  "not_after t latest = (case latest of None \<Rightarrow> False | Some l \<Rightarrow> t \<le> l)"

definition track_ok :: "nat \<Rightarrow> string \<Rightarrow> device_track \<Rightarrow> bool" where
  "track_ok limit d t \<longleftrightarrow>
     sorted (dt_history t) \<and> (\<forall>i \<in> set (dt_history t). not_after i (dt_last_observed_at t))
     \<and> length (dt_history t) \<le> dt_sequence t
     \<and> dict_ok (dt_transitions t) \<and> length (dt_transitions t) \<le> limit
     \<and> dict_all (\<lambda>k e. te_transition_id e = k \<and> te_device_id e = d
          \<and> not_after (te_detected_at e) (dt_last_observed_at t)) (dt_transitions t)
     \<and> (\<forall>e. dt_last_transition t = Some e \<longrightarrow> te_device_id e = d
          \<and> not_after (te_detected_at e) (dt_last_observed_at t))"

definition tracks_ok :: "transition_collector \<Rightarrow> bool" where
  "tracks_ok tc \<longleftrightarrow> dict_ok (tc_tracks tc) \<and> dict_all (track_ok (tc_history_limit tc)) (tc_tracks tc)"

text \<open>The index by identifier holds exactly the events the tracks hold.\<close>

definition held :: "(string, device_track) dict \<Rightarrow> string \<Rightarrow> transition_event \<Rightarrow> bool" where
  "held trs k e \<longleftrightarrow> (\<exists>d t. dget trs d = Some t \<and> dget (dt_transitions t) k = Some e)"

definition index_agrees :: "transition_collector \<Rightarrow> bool" where
  "index_agrees tc \<longleftrightarrow> (\<forall>k e. dget (tc_by_transition_id tc) k = Some e \<longleftrightarrow> held (tc_tracks tc) k e)"

lemma tracks_ok_dget: "tracks_ok tc \<Longrightarrow> dget (tc_tracks tc) d = Some t \<Longrightarrow> track_ok (tc_history_limit tc) d t"
  by (auto simp: tracks_ok_def dest: dict_all_dget)

lemma track_ok_new [simp]: "track_ok n d new_track"
  by (simp add: track_ok_def new_track_def)

lemma tracks_ok_track_of: "tracks_ok tc \<Longrightarrow> track_ok (tc_history_limit tc) d (track_of tc d)"
  by (auto simp: track_of_def split: option.split intro: tracks_ok_dget)

lemma tracks_ok_new [simp]: "tracks_ok (new_transition_collector r p w)"
  by (simp add: tracks_ok_def new_transition_collector_def)

lemma index_agrees_new [simp]: "index_agrees (new_transition_collector r p w)"
  by (simp add: index_agrees_def held_def new_transition_collector_def)

lemma tracks_ok_put:
  "tracks_ok tc \<Longrightarrow> track_ok (tc_history_limit tc) d t \<Longrightarrow>
    tracks_ok (tc\<lparr>tc_tracks := dset d t (tc_tracks tc), tc_by_transition_id := ix\<rparr>)"
  by (auto simp: tracks_ok_def intro!: dict_all_dset)

lemma tracks_ok_put':
  "tracks_ok tc \<Longrightarrow> track_ok (tc_history_limit tc) d t \<Longrightarrow>
    tracks_ok (tc\<lparr>tc_tracks := dset d t (tc_tracks tc)\<rparr>)"
  by (auto simp: tracks_ok_def intro!: dict_all_dset)

lemma track_ok_prune:
  "track_ok n d t \<Longrightarrow> track_ok n d (prune_history tc t now)"
  using window.prune_subset [of "now - seconds (tc_rate_window_s tc)" "dt_history t"]
    window.prune_length [of "now - seconds (tc_rate_window_s tc)" "dt_history t"]
  by (auto simp: track_ok_def prune_history_def window.prune_sorted_sorted)

lemma not_after_mono: "not_after t l \<Longrightarrow> (\<And>x. l = Some x \<Longrightarrow> x \<le> now) \<Longrightarrow> not_after t (Some now)"
  by (force simp: not_after_def split: option.splits)

lemma not_after_refl [simp]: "not_after now (Some now)"
  by (simp add: not_after_def)

text \<open>An accepted observation moves the track forward and appends its instant.\<close>

lemma track_ok_moved:
  assumes "track_ok n d t" and "\<And>x. dt_last_observed_at t = Some x \<Longrightarrow> x \<le> now"
  shows "track_ok n d (t\<lparr>dt_current_domain := a, dt_current_address := b, dt_last_observed_at := Some now\<rparr>)"
  using assms not_after_mono [OF _ assms(2)] by (auto simp: track_ok_def dict_all_def)

lemma track_ok_counted:
  assumes "track_ok n d t" and "dt_last_observed_at t = Some now"
  shows "track_ok n d (t\<lparr>dt_history := dt_history t @ [now], dt_sequence := Suc (dt_sequence t)\<rparr>)"
  using assms by (auto simp: track_ok_def sorted_append not_after_def)

lemma track_ok_uncorroborated:
  "track_ok n d (t\<lparr>dt_uncorroborated := k\<rparr>) = track_ok n d t"
  "track_ok n d (t\<lparr>dt_rejected_stale := k\<rparr>) = track_ok n d t"
  "track_ok n d (t\<lparr>dt_rejected_duplicate := k\<rparr>) = track_ok n d t"
  by (simp_all add: track_ok_def)

lemma prune_history_frame [simp]:
  "dt_last_observed_at (prune_history tc t now) = dt_last_observed_at t"
  "dt_transitions (prune_history tc t now) = dt_transitions t"
  "dt_last_transition (prune_history tc t now) = dt_last_transition t"
  "dt_current_domain (prune_history tc t now) = dt_current_domain t"
  "dt_current_address (prune_history tc t now) = dt_current_address t"
  "dt_sequence (prune_history tc t now) = dt_sequence t"
  by (simp_all add: prune_history_def)

lemma counted_track_frame [simp]:
  "dt_last_observed_at (counted_track clk store tc t dm addr now) = Some now"
  "dt_transitions (counted_track clk store tc t dm addr now) = dt_transitions t"
  "dt_current_domain (counted_track clk store tc t dm addr now) = Some dm"
  "dt_current_address (counted_track clk store tc t dm addr now) = addr"
  "dt_sequence (counted_track clk store tc t dm addr now) = Suc (dt_sequence t)"
  "dt_history (counted_track clk store tc t dm addr now) =
     prune_before (now - seconds (tc_rate_window_s tc)) (dt_history t) @ [now]"
  by (simp_all add: counted_track_def Let_def) (simp_all add: prune_history_def)

lemma track_ok_counted_track:
  assumes "track_ok n d t" and "\<And>x. dt_last_observed_at t = Some x \<Longrightarrow> x \<le> now"
  shows "track_ok n d (counted_track clk store tc t dm addr now)"
proof -
  define p where "p = prune_history tc (t\<lparr>dt_current_domain := Some dm, dt_current_address := addr,
                       dt_last_observed_at := Some now\<rparr>) now"
  have "track_ok n d p"
    unfolding p_def by (intro track_ok_prune track_ok_moved [OF assms(1)] assms(2))
  moreover have "dt_last_observed_at p = Some now" by (simp add: p_def)
  ultimately have "track_ok n d (p\<lparr>dt_history := dt_history p @ [now], dt_sequence := Suc (dt_sequence p)\<rparr>)"
    by (rule track_ok_counted)
  then show ?thesis
    unfolding counted_track_def Let_def p_def [symmetric] by (simp add: track_ok_uncorroborated)
qed

lemma not_stale_le: "\<not> is_stale t now \<Longrightarrow> dt_last_observed_at t = Some x \<Longrightarrow> x \<le> now"
  by (simp add: is_stale_def)

lemma observe_stale:
  "is_stale (track_of tc d) now \<Longrightarrow>
    observe_detailed clk store tid tc d dm addr now =
      (\<lparr>or_verdict = STALE, or_event = dt_last_transition (track_of tc d)\<rparr>,
       tc\<lparr>tc_tracks := dset d ((track_of tc d)\<lparr>dt_rejected_stale := Suc (dt_rejected_stale (track_of tc d))\<rparr>)
            (tc_tracks tc)\<rparr>)"
  by (simp add: observe_detailed_def Let_def)

lemma observe_repeat:
  "\<not> is_stale (track_of tc d) now \<Longrightarrow> is_repeat (track_of tc d) dm addr now \<Longrightarrow>
    observe_detailed clk store tid tc d dm addr now =
      (\<lparr>or_verdict = DUPLICATE, or_event = dt_last_transition (track_of tc d)\<rparr>,
       tc\<lparr>tc_tracks := dset d ((track_of tc d)\<lparr>dt_rejected_duplicate :=
            Suc (dt_rejected_duplicate (track_of tc d))\<rparr>) (tc_tracks tc)\<rparr>)"
  by (simp add: observe_detailed_def Let_def)

lemma observe_same_place:
  "\<not> is_stale (track_of tc d) now \<Longrightarrow> \<not> is_repeat (track_of tc d) dm addr now \<Longrightarrow>
    \<not> domain_change (track_of tc d) dm \<Longrightarrow> \<not> address_change (track_of tc d) dm addr \<Longrightarrow>
    observe_detailed clk store tid tc d dm addr now =
      (\<lparr>or_verdict = NO_CHANGE, or_event = None\<rparr>,
       tc\<lparr>tc_tracks := dset d ((track_of tc d)\<lparr>dt_current_domain := Some dm, dt_current_address := addr,
            dt_last_observed_at := Some now\<rparr>) (tc_tracks tc)\<rparr>)"
  by (simp add: observe_detailed_def Let_def)

lemma observe_change:
  assumes "\<not> is_stale (track_of tc d) now"
    and "domain_change (track_of tc d) dm \<or> address_change (track_of tc d) dm addr"
  shows "observe_detailed clk store tid tc d dm addr now =
      (let t = track_of tc d;
           t' = counted_track clk store tc t dm addr now;
           e = make_event tc clk store tid d dm addr now t t' (domain_change t dm)
       in (\<lparr>or_verdict = ACCEPTED, or_event = Some e\<rparr>, store_event tc d t' e))"
proof -
  have "\<not> is_repeat (track_of tc d) dm addr now"
    using assms(2) by (auto simp: is_repeat_def domain_change_def address_change_def)
  with assms show ?thesis
    by (simp add: observe_detailed_def Let_def)
qed

text \<open>The four outcomes are all there are.\<close>

lemma observe_cases [consumes 0, case_names stale repeat same_place change]:
  obtains (stale) "is_stale (track_of tc d) now"
  | (repeat) "\<not> is_stale (track_of tc d) now" "is_repeat (track_of tc d) dm addr now"
  | (same_place) "\<not> is_stale (track_of tc d) now" "\<not> is_repeat (track_of tc d) dm addr now"
      "\<not> domain_change (track_of tc d) dm" "\<not> address_change (track_of tc d) dm addr"
  | (change) "\<not> is_stale (track_of tc d) now"
      "domain_change (track_of tc d) dm \<or> address_change (track_of tc d) dm addr"
  by blast

lemma store_event_small:
  "length (dset (te_transition_id e) e (dt_transitions track)) \<le> tc_history_limit tc \<Longrightarrow>
    store_event tc d track e =
      tc\<lparr>tc_tracks := dset d (track\<lparr>dt_last_transition := Some e,
            dt_transitions := dset (te_transition_id e) e (dt_transitions track)\<rparr>) (tc_tracks tc),
         tc_by_transition_id := dset (te_transition_id e) e (tc_by_transition_id tc)\<rparr>"
  by (simp add: store_event_def Let_def)

lemma store_event_evicts:
  "length (dset (te_transition_id e) e (dt_transitions track)) > tc_history_limit tc \<Longrightarrow>
    dset (te_transition_id e) e (dt_transitions track) = (k, r) # rest \<Longrightarrow>
    store_event tc d track e =
      tc\<lparr>tc_tracks := dset d (track\<lparr>dt_last_transition := Some e,
            dt_transitions := dpop k ((k, r) # rest)\<rparr>) (tc_tracks tc),
         tc_by_transition_id := dpop (te_transition_id r)
            (dset (te_transition_id e) e (tc_by_transition_id tc))\<rparr>"
  by (simp add: store_event_def Let_def)

lemma make_event_fields [simp]:
  "te_transition_id (make_event tc clk store tid d dm addr now t t' c) = tid"
  "te_device_id (make_event tc clk store tid d dm addr now t t' c) = d"
  "te_detected_at (make_event tc clk store tid d dm addr now t t' c) = now"
  "te_cross_domain (make_event tc clk store tid d dm addr now t t' c) = c"
  "te_from_domain (make_event tc clk store tid d dm addr now t t' c) = dt_current_domain t"
  "te_to_domain (make_event tc clk store tid d dm addr now t t' c) = dm"
  "te_corroborated (make_event tc clk store tid d dm addr now t t' c) = fst (corroborate clk store dm addr)"
  "te_sequence_number (make_event tc clk store tid d dm addr now t t' c) = dt_sequence t'"
  "te_transitions_in_window (make_event tc clk store tid d dm addr now t t' c) = length (dt_history t')"
  by (simp_all add: make_event_def split: prod.split)

lemma tracks_ok_store_event:
  assumes ok: "tracks_ok tc" and t: "track_ok (tc_history_limit tc) d t"
    and e: "te_device_id e = d" "not_after (te_detected_at e) (dt_last_observed_at t)"
  shows "tracks_ok (store_event tc d t e)"
proof -
  let ?trans = "dset (te_transition_id e) e (dt_transitions t)"
  let ?P = "\<lambda>k e. te_transition_id e = k \<and> te_device_id e = d
          \<and> not_after (te_detected_at e) (dt_last_observed_at t)"
  have P: "dict_all ?P ?trans" and d: "dict_ok ?trans"
    using t e by (auto simp: track_ok_def intro!: dict_all_dset)
  have len: "length ?trans \<le> Suc (tc_history_limit tc)"
    using t by (auto simp: track_ok_def length_dset)
  show ?thesis
  proof (cases "length ?trans \<le> tc_history_limit tc")
    case True
    then show ?thesis
      using t e P d
      by (simp add: store_event_small) (rule tracks_ok_put [OF ok], simp add: track_ok_def)
  next
    case False
    then obtain k r rest where tr: "?trans = (k, r) # rest"
      by (cases ?trans) auto
    have rest: "dpop k ((k, r) # rest) = rest"
      using d tr by (auto simp: delete_id [of k rest])
    have "length rest \<le> tc_history_limit tc" "dict_all ?P rest" "dict_ok rest"
      using len P d unfolding tr by (auto simp: dict_all_def)
    then have "track_ok (tc_history_limit tc) d (t\<lparr>dt_last_transition := Some e, dt_transitions := rest\<rparr>)"
      using t e by (simp add: track_ok_def)
    then show ?thesis
      using False tr rest by (simp add: store_event_evicts tracks_ok_put [OF ok])
  qed
qed

lemma observe_detailed_ok:
  assumes "tracks_ok tc"
  shows "tracks_ok (snd (observe_detailed clk store tid tc d dm addr now))"
proof -
  note t = tracks_ok_track_of [OF assms, of d]
  consider (stale) "is_stale (track_of tc d) now"
    | (repeat) "\<not> is_stale (track_of tc d) now" "is_repeat (track_of tc d) dm addr now"
    | (same_place) "\<not> is_stale (track_of tc d) now" "\<not> is_repeat (track_of tc d) dm addr now"
      "\<not> domain_change (track_of tc d) dm" "\<not> address_change (track_of tc d) dm addr"
    | (change) "\<not> is_stale (track_of tc d) now"
      "domain_change (track_of tc d) dm \<or> address_change (track_of tc d) dm addr"
    by (rule observe_cases)
  then show ?thesis
  proof cases
    case stale
    then show ?thesis
      by (simp add: observe_stale tracks_ok_put' [OF assms] track_ok_uncorroborated t)
  next
    case repeat
    then show ?thesis
      by (simp add: observe_repeat tracks_ok_put' [OF assms] track_ok_uncorroborated t)
  next
    case same_place
    then show ?thesis
      by (simp add: observe_same_place)
        (intro tracks_ok_put' [OF assms] track_ok_moved [OF t] not_stale_le [OF same_place(1)])
  next
    case change
    then show ?thesis
      by (simp add: observe_change Let_def)
        (intro tracks_ok_store_event [OF assms] track_ok_counted_track [OF t]
            not_stale_le [OF change(1)], simp_all)
  qed
qed

text \<open>The other devices are untouched, and so is the index by a rejected or uneventful observation.\<close>

lemma store_event_other: "d' \<noteq> d \<Longrightarrow> dget (tc_tracks (store_event tc d t e)) d' = dget (tc_tracks tc) d'"
  by (auto simp: store_event_def Let_def split: list.splits)

lemma observe_other_device:
  "d' \<noteq> d \<Longrightarrow> dget (tc_tracks (snd (observe_detailed clk store tid tc d dm addr now))) d'
     = dget (tc_tracks tc) d'"
  by (simp add: observe_detailed_def Let_def store_event_other)

lemma rejected_keeps_position:
  assumes "or_verdict (fst (observe_detailed clk store tid tc d dm addr now)) \<in> {STALE, DUPLICATE}"
    and "observe_detailed clk store tid tc d dm addr now = (r, tc')"
  shows "dt_current_domain (track_of tc' d) = dt_current_domain (track_of tc d)"
    and "dt_current_address (track_of tc' d) = dt_current_address (track_of tc d)"
    and "dt_last_observed_at (track_of tc' d) = dt_last_observed_at (track_of tc d)"
    and "dt_history (track_of tc' d) = dt_history (track_of tc d)"
    and "dt_last_transition (track_of tc' d) = dt_last_transition (track_of tc d)"
    and "dt_transitions (track_of tc' d) = dt_transitions (track_of tc d)"
    and "tc_by_transition_id tc' = tc_by_transition_id tc"
  using assms by (auto simp: observe_detailed_def Let_def track_of_def split: if_splits)

lemma observed_at_forward:
  assumes "dt_last_observed_at (track_of tc d) = Some l"
    and "dget (tc_tracks (snd (observe_detailed clk store tid tc d dm addr now))) d = Some t'"
  shows "\<exists>l'. dt_last_observed_at t' = Some l' \<and> l \<le> l'"
proof (rule observe_cases [where tc = tc and d = d and now = now and dm = dm and addr = addr])
  assume "is_stale (track_of tc d) now"
  with assms show ?thesis by (auto simp: observe_stale)
next
  assume "\<not> is_stale (track_of tc d) now" "is_repeat (track_of tc d) dm addr now"
  with assms show ?thesis by (auto simp: observe_repeat)
next
  assume *: "\<not> is_stale (track_of tc d) now" "\<not> is_repeat (track_of tc d) dm addr now"
    "\<not> domain_change (track_of tc d) dm" "\<not> address_change (track_of tc d) dm addr"
  with assms not_stale_le [OF *(1) assms(1)] show ?thesis by (auto simp: observe_same_place)
next
  assume *: "\<not> is_stale (track_of tc d) now"
    "domain_change (track_of tc d) dm \<or> address_change (track_of tc d) dm addr"
  with assms not_stale_le [OF *(1) assms(1)] show ?thesis
    by (auto simp: observe_change Let_def store_event_def split: list.splits if_splits)
qed

section \<open>The index\<close>

lemma index_agreesD:
  "index_agrees tc \<Longrightarrow> dget (tc_by_transition_id tc) k = Some e \<longleftrightarrow> held (tc_tracks tc) k e"
  by (simp add: index_agrees_def)

text \<open>Held by another device than \<open>d\<close>, and the track of \<open>d\<close> split off.\<close>

definition held_elsewhere :: "string \<Rightarrow> (string, device_track) dict \<Rightarrow> string \<Rightarrow> transition_event \<Rightarrow> bool" where
  "held_elsewhere d trs k e \<longleftrightarrow>
     (\<exists>d' t. d' \<noteq> d \<and> dget trs d' = Some t \<and> dget (dt_transitions t) k = Some e)"

lemma held_dset:
  "held (dset d t trs) k e \<longleftrightarrow> dget (dt_transitions t) k = Some e \<or> held_elsewhere d trs k e"
  by (auto simp: held_def held_elsewhere_def)

lemma held_dpop: "held (dpop d trs) k e \<longleftrightarrow> held_elsewhere d trs k e"
  by (auto simp: held_def held_elsewhere_def)

lemma held_track_of:
  "held (tc_tracks tc) k e \<longleftrightarrow>
     dget (dt_transitions (track_of tc d)) k = Some e \<or> held_elsewhere d (tc_tracks tc) k e"
  unfolding held_def held_elsewhere_def track_of_def new_track_def
  by (cases "dget (tc_tracks tc) d") (auto, (metis option.distinct(1) option.inject)+)

lemma index_agrees_put:
  assumes "index_agrees tc" "dt_transitions t = dt_transitions (track_of tc d)"
  shows "index_agrees (tc\<lparr>tc_tracks := dset d t (tc_tracks tc)\<rparr>)"
  using assms by (simp add: index_agrees_def held_dset held_track_of [of tc _ _ d])

lemma event_of_track:
  assumes "tracks_ok tc" "dget (tc_tracks tc) d = Some t" "dget (dt_transitions t) k = Some e"
  shows "te_device_id e = d \<and> te_transition_id e = k"
proof -
  from tracks_ok_dget [OF assms(1,2)]
  have "dict_all (\<lambda>k e. te_transition_id e = k \<and> te_device_id e = d
          \<and> not_after (te_detected_at e) (dt_last_observed_at t)) (dt_transitions t)"
    by (simp add: track_ok_def)
  from dict_all_dget [OF this assms(3)] show ?thesis by simp
qed

text \<open>An identifier in the track of one device is in no other track.\<close>

lemma event_owner:
  assumes "tracks_ok tc" "index_agrees tc"
    and t: "dget (dt_transitions (track_of tc d)) k = Some e"
  shows "\<not> held_elsewhere d (tc_tracks tc) k e'"
proof
  assume "held_elsewhere d (tc_tracks tc) k e'"
  then obtain d' t' where d': "d' \<noteq> d" "dget (tc_tracks tc) d' = Some t'" "dget (dt_transitions t') k = Some e'"
    by (auto simp: held_elsewhere_def)
  from t obtain t0 where t0: "dget (tc_tracks tc) d = Some t0" "dget (dt_transitions t0) k = Some e"
    by (auto simp: track_of_def new_track_def split: option.splits)
  have "held (tc_tracks tc) k e" "held (tc_tracks tc) k e'"
    using d' t0 by (auto simp: held_def)
  then have "e' = e"
    using index_agreesD [OF assms(2)] by (metis option.inject)
  then show False
    using event_of_track [OF assms(1) d'(2,3)] event_of_track [OF assms(1) t0] d'(1) by simp
qed

lemma fresh_not_held:
  assumes "index_agrees tc" "dget (tc_by_transition_id tc) k = None"
  shows "dget (dt_transitions (track_of tc d)) k = None" "\<not> held_elsewhere d (tc_tracks tc) k e"
proof -
  have "\<not> held (tc_tracks tc) k x" for x
    using assms by (metis index_agreesD option.distinct(1))
  then have *: "dget (dt_transitions (track_of tc d)) k \<noteq> Some x \<and> \<not> held_elsewhere d (tc_tracks tc) k x" for x
    by (simp add: held_track_of [of tc _ _ d])
  then show "dget (dt_transitions (track_of tc d)) k = None"
    by (cases "dget (dt_transitions (track_of tc d)) k") auto
  from * show "\<not> held_elsewhere d (tc_tracks tc) k e" by blast
qed

lemma index_agrees_store_event:
  assumes ok: "tracks_ok tc" and ix: "index_agrees tc"
    and fresh: "dget (tc_by_transition_id tc) (te_transition_id e) = None"
    and t: "dt_transitions t = dt_transitions (track_of tc d)"
  shows "index_agrees (store_event tc d t e)"
proof (cases "length (dset (te_transition_id e) e (dt_transitions t)) \<le> tc_history_limit tc")
  case True
  then show ?thesis
    by (simp add: store_event_small index_agrees_def held_dset t index_agreesD [OF ix]
        held_track_of [of tc _ _ d] fresh_not_held [OF ix fresh])
next
  case False
  let ?trans = "dset (te_transition_id e) e (dt_transitions t)"
  from False obtain k r rest where tr: "?trans = (k, r) # rest"
    by (cases ?trans) auto
  have r: "dget ?trans k = Some r" by (simp add: tr del: dget_dset)
  have k: "te_transition_id r = k"
  proof (cases "k = te_transition_id e")
    case True
    then show ?thesis using r by simp
  next
    case False
    then have "dget (dt_transitions (track_of tc d)) k = Some r" using r t by simp
    then have "held (tc_tracks tc) k r" by (simp add: held_track_of [of tc _ _ d])
    then show ?thesis by (auto simp: held_def dest: event_of_track [OF ok])
  qed
  have none: "\<not> held_elsewhere d (tc_tracks tc) k x" for x
    using event_owner [OF ok ix] r t fresh_not_held [OF ix fresh]
    by (auto split: if_splits)
  have "store_event tc d t e = tc\<lparr>tc_tracks := dset d (t\<lparr>dt_last_transition := Some e,
            dt_transitions := dpop k ?trans\<rparr>) (tc_tracks tc),
         tc_by_transition_id := dpop k (dset (te_transition_id e) e (tc_by_transition_id tc))\<rparr>"
    using False tr k by (simp add: store_event_evicts)
  then show ?thesis
    using none fresh_not_held [OF ix fresh]
    by (auto simp: index_agrees_def held_dset t index_agreesD [OF ix] held_track_of [of tc _ _ d])
qed

text \<open>With fresh identifiers an observation keeps the index in agreement.\<close>

lemma observe_index_agrees:
  assumes "tracks_ok tc" "index_agrees tc" "dget (tc_by_transition_id tc) tid = None"
  shows "index_agrees (snd (observe_detailed clk store tid tc d dm addr now))"
  using assms by (auto simp: observe_detailed_def Let_def
      intro!: index_agrees_put index_agrees_store_event)

lemma reset_device_index:
  assumes "tracks_ok tc" "index_agrees tc"
  shows "index_agrees (reset_device tc d)"
proof (cases "dget (tc_tracks tc) d")
  case None
  with assms show ?thesis by (simp add: reset_device_def)
next
  case (Some t)
  have pops: "dget (fold dpop ks ix) k = (if k \<in> set ks then None else dget ix k)" for ks k
    and ix :: "(string, transition_event) dict"
    by (induction ks arbitrary: ix) auto
  have mem: "k \<in> set (map fst (dt_transitions t)) \<longleftrightarrow> (\<exists>e. dget (dt_transitions (track_of tc d)) k = Some e)" for k
    using Some by (auto simp: track_of_def dom_map_of_conv_image_fst [symmetric])
  show ?thesis
    unfolding index_agrees_def reset_device_def
    using event_owner [OF assms] 
    by (auto simp: Some pops mem held_dpop index_agreesD [OF assms(2)] held_track_of [of tc _ _ d]
        simp del: set_map)
qed

section \<open>Context and counts\<close>

lemma transitions_in_window_count:
  "tracks_ok tc \<Longrightarrow> fst (transitions_in_window tc d now) =
     length (filter (\<lambda>t. now - seconds (tc_rate_window_s tc) \<le> t) (dt_history (track_of tc d)))"
  by (auto simp: transitions_in_window_def track_of_def new_track_def prune_history_def Let_def
      track_ok_def window.prune_sorted split: option.split dest: tracks_ok_dget)

lemma transitions_in_window_ok: "tracks_ok tc \<Longrightarrow> tracks_ok (snd (transitions_in_window tc d now))"
  by (auto simp: transitions_in_window_def Let_def split: option.split
      intro!: tracks_ok_put' track_ok_prune dest: tracks_ok_dget)

lemma context_for_ok: "tracks_ok tc \<Longrightarrow> tracks_ok (snd (context_for tc d now))"
  using transitions_in_window_ok [of tc d now]
  by (auto simp: context_for_def split: option.split prod.split)

text \<open>
  The context is \<open>NONE\<close> exactly where the recency test fails: both compare the age of the last
  transition with the transition window.
\<close>

lemma context_none_iff:
  "fst (context_for tc d now) = CtxNone \<longleftrightarrow> \<not> is_transition_recent tc d now"
  by (auto simp: context_for_def is_transition_recent_def split: option.split prod.split)

lemma context_for_cases:
  assumes "last_transition tc d = Some e" "now - te_detected_at e \<le> seconds (tc_transition_window_s tc)"
  shows "fst (context_for tc d now) =
    (if int (fst (transitions_in_window tc d now)) \<ge> tc_repeat_threshold tc then REPEATED
     else if \<not> te_cross_domain e then INTRA
     else (case (te_from_domain e, te_to_domain e) of
             (Some NR, WLAN) \<Rightarrow> NR_TO_WLAN
           | (Some WLAN, NR) \<Rightarrow> WLAN_TO_NR
           | _ \<Rightarrow> INTRA))"
  using assms by (auto simp: context_for_def split: option.split prod.split access_domain.split)

text \<open>Queries change histories only: positions, events and the index stay.\<close>

lemma context_for_frame:
  "tc_by_transition_id (snd (context_for tc d now)) = tc_by_transition_id tc"
  "last_transition (snd (context_for tc d now)) d' = last_transition tc d'"
  "current_domain (snd (context_for tc d now)) d' = current_domain tc d'"
  by (auto simp: context_for_def transitions_in_window_def last_transition_def current_domain_def
      Let_def split: option.split prod.split)

lemma context_for_config [simp]:
  "tc_rate_window_s (snd (context_for tc d now)) = tc_rate_window_s tc"
  "tc_repeat_threshold (snd (context_for tc d now)) = tc_repeat_threshold tc"
  "tc_transition_window_s (snd (context_for tc d now)) = tc_transition_window_s tc"
  "tc_history_limit (snd (context_for tc d now)) = tc_history_limit tc"
  by (auto simp: context_for_def transitions_in_window_def Let_def split: option.split prod.split)

lemma observe_config [simp]:
  "tc_rate_window_s (snd (observe_detailed clk store tid tc d dm addr now)) = tc_rate_window_s tc"
  "tc_repeat_threshold (snd (observe_detailed clk store tid tc d dm addr now)) = tc_repeat_threshold tc"
  "tc_transition_window_s (snd (observe_detailed clk store tid tc d dm addr now)) = tc_transition_window_s tc"
  "tc_history_limit (snd (observe_detailed clk store tid tc d dm addr now)) = tc_history_limit tc"
  by (auto simp: observe_detailed_def store_event_def Let_def split: list.split)

end
