(* ===== verification/Assembler.thy ===== *)
theory Assembler
  imports Evidence
begin

text \<open>
  The evidence assembler (\<^verbatim>\<open>src/ca_ztcf/evidence/assembler.py\<close>, \<open>EvidenceAssembler.assemble\<close>):
  one definition per section of the method, each storing its items in the order the code does. The
  two freshness tests can raise and are evaluated first; the rest cannot.
\<close>

section \<open>Inputs and storing an item\<close>

record assembler_inputs =
  ai_device_id :: string
  ai_identity :: "device_identity option"
  ai_pop_result :: "pop_result option"
  ai_binding :: "access_binding option"
  ai_binding_consistent :: bool
  ai_current_domain :: "access_domain option"
  ai_previous_domain :: "access_domain option"
  ai_transition :: "transition_event option"
  ai_transition_recent :: bool
  ai_transitions_in_window :: nat
  ai_authentication_failure_count :: nat
  ai_session_consistent :: bool
  ai_collector_available :: bool

definition put ::
  "string \<Rightarrow> evidence_value \<Rightarrow> string \<Rightarrow> source_mode \<Rightarrow> instant \<Rightarrow> instant option
     \<Rightarrow> validation_status \<Rightarrow> string \<Rightarrow> items \<Rightarrow> items" where
  "put name v src mode observed expires validation detail items =
     dset name \<lparr>ei_name = name, ei_category = item_category name, ei_value = v, ei_source = src,
       ei_source_mode = mode, ei_observed_at = observed, ei_expires_at = expires,
       ei_validation = validation, ei_detail = detail\<rparr> items"

definition present :: "'a option \<Rightarrow> validation_status" where
  "present x = (if x \<noteq> None then VALID else MISSING)"

definition opt_text :: "string option \<Rightarrow> evidence_value" where
  "opt_text x = (case x of None \<Rightarrow> VNone | Some s \<Rightarrow> VStr s)"

text \<open>\<open>x.attr if x is not None else default\<close>\<close>

definition attr_or :: "('a \<Rightarrow> 'b) \<Rightarrow> 'b \<Rightarrow> 'a option \<Rightarrow> 'b" where
  "attr_or f dflt x = (case x of None \<Rightarrow> dflt | Some v \<Rightarrow> f v)"

lemma attr_or_simps [simp]: "attr_or f dflt None = dflt" "attr_or f dflt (Some v) = f v"
  by (simp_all add: attr_or_def)

section \<open>1. Device identity\<close>

definition put_identity :: "device_identity option \<Rightarrow> instant \<Rightarrow> items \<Rightarrow> items" where
  "put_identity identity now items =
     put ''public_key_fingerprint'' (opt_text (map_option di_public_key_fingerprint identity))
       ''identity.registry'' SERVICE_DOMAIN (attr_or di_created_at now identity) None (present identity) []
     (put ''identity_enabled'' (VBool (attr_or is_enabled False identity))
       ''identity.registry'' SERVICE_DOMAIN (attr_or di_updated_at now identity) None (present identity)
       (attr_or (\<lambda>i. status_value (di_status i)) ''device not registered'' identity)
     (put ''identity_registered'' (VBool (identity \<noteq> None))
       ''identity.registry'' SERVICE_DOMAIN now None (present identity)
       (if identity \<noteq> None then [] else ''no registry entry for device_id'') items))"

text \<open>
  A proof counts when it is valid and carries its verification time; \<open>pop_fresh\<close> then is its
  freshness.
\<close>

definition usable_proof :: "pop_result option \<Rightarrow> instant option" where
  "usable_proof pop =
     (case pop of None \<Rightarrow> None | Some p \<Rightarrow> if pr_valid p then pr_verified_at p else None)"

definition pop_freshness :: "settings \<Rightarrow> pop_result option \<Rightarrow> instant \<Rightarrow> bool result" where
  "pop_freshness s pop now =
     (case usable_proof pop of
        None \<Rightarrow> Inr False
      | Some t \<Rightarrow> is_fresh t now (es_proof_of_possession_ttl_s (st_evidence s)))"

definition put_pop :: "settings \<Rightarrow> pop_result option \<Rightarrow> bool \<Rightarrow> instant \<Rightarrow> items \<Rightarrow> items" where
  "put_pop s pop pop_fresh now items =
     (case usable_proof pop of
        Some t \<Rightarrow>
          put ''proof_of_possession_valid'' (VBool pop_fresh) ''identity.proof'' SERVICE_DOMAIN t
            (Some (t + seconds (es_proof_of_possession_ttl_s (st_evidence s))))
            (if pop_fresh then VALID else STALE_EVIDENCE)
            (if pop_fresh then attr_or pr_reason [] pop else ''POP_STALE'') items
      | None \<Rightarrow>
          put ''proof_of_possession_valid'' (VBool False) ''identity.proof'' SERVICE_DOMAIN now None
            (if pop = None then MISSING else INVALID)
            (attr_or pr_reason ''POP_NOT_PRESENTED'' pop) items)"

section \<open>2. Access binding\<close>

definition binding_source :: "access_binding option \<Rightarrow> string" where
  "binding_source b = attr_or ab_source ''collector.none'' b"

definition binding_mode :: "access_binding option \<Rightarrow> source_mode" where
  "binding_mode b = attr_or ab_source_mode SERVICE_DOMAIN b"

definition binding_observed :: "access_binding option \<Rightarrow> instant \<Rightarrow> instant" where
  "binding_observed b now = attr_or ab_last_seen now b"

definition binding_freshness :: "settings \<Rightarrow> access_binding option \<Rightarrow> instant \<Rightarrow> bool result" where
  "binding_freshness s binding now =
     (case binding of
        None \<Rightarrow> Inr False
      | Some b \<Rightarrow>
          and_then (is_fresh (ab_last_seen b) now (es_binding_freshness_max_s (st_evidence s)))
            (\<lambda>fresh. Inr (fresh \<and> \<not> ab_is_expired b now)))"

definition put_binding ::
  "access_binding option \<Rightarrow> bool \<Rightarrow> bool \<Rightarrow> instant \<Rightarrow> items \<Rightarrow> items" where
  "put_binding binding binding_fresh consistent now items =
     (let src = binding_source binding; mode = binding_mode binding;
          obs = binding_observed binding now; exp = attr_or ab_expires_at None binding
      in put ''binding_consistent'' (VBool consistent) src mode obs None
           (if consistent then VALID else INVALID)
           (if consistent then [] else ''access binding is already attributed to a different device'')
        (put ''binding_fresh'' (VBool binding_fresh) src mode obs exp
           (if binding_fresh then VALID else if binding = None then MISSING else STALE_EVIDENCE)
           (attr_or (\<lambda>b. ''age_s='' @ fixed3 (round_ms (age_us (ab_last_seen b) now))) [] binding)
        (put ''binding_domain'' (opt_text (map_option (\<lambda>b. domain_value (ab_domain b)) binding))
           src mode obs None (present binding) []
        (put ''binding_present'' (VBool (binding \<noteq> None)) src mode obs exp (present binding) [] items))))"

section \<open>3. Access context\<close>

definition transition_detail :: "transition_event \<Rightarrow> string" where
  "transition_detail e = te_transition_id e @ '' corroborated='' @ py_bool (te_corroborated e)
     @ '' seq='' @ show_nat (te_sequence_number e)"

definition put_context :: "settings \<Rightarrow> assembler_inputs \<Rightarrow> instant \<Rightarrow> items \<Rightarrow> items" where
  "put_context s ins now items =
     (let mode = binding_mode (ai_binding ins); tr = ai_transition ins
      in put ''transition_count_window'' (VInt (int (ai_transitions_in_window ins)))
           ''collector.transition'' SERVICE_DOMAIN now None VALID
           (''window_s='' @ show_int (ts_rate_window_s (st_transition s)))
        (put ''transition_age'' (attr_or (\<lambda>e. VMs (round_ms (te_age_us e now))) VNone tr)
           ''collector.transition'' mode (attr_or te_detected_at now tr) None (present tr)
           ''seconds since the last detected access-domain change''
        (put ''transition_detected'' (VBool (ai_transition_recent ins))
           ''collector.transition'' mode (attr_or te_detected_at now tr) None VALID
           (attr_or transition_detail ''no transition on record'' tr)
        (put ''previous_domain'' (opt_text (map_option domain_value (ai_previous_domain ins)))
           ''collector.transition'' mode now None (present (ai_previous_domain ins)) []
        (put ''current_domain'' (opt_text (map_option domain_value (ai_current_domain ins)))
           ''collector.transition'' mode now None (present (ai_current_domain ins)) [] items)))))"

section \<open>4. Security events\<close>

definition put_security :: "settings \<Rightarrow> assembler_inputs \<Rightarrow> instant \<Rightarrow> items \<Rightarrow> items" where
  "put_security s ins now items =
     (let posture = evaluate_posture (ai_binding ins) s
      in put ''unauthorized_context'' (VBool (pt_unauthorized posture))
           (binding_source (ai_binding ins)) (binding_mode (ai_binding ins))
           (binding_observed (ai_binding ins) now) None VALID (pt_reason posture)
        (put ''session_mismatch'' (VBool (\<not> ai_session_consistent ins))
           ''service_domain.counters'' SERVICE_DOMAIN now None VALID
           ''true when the service-layer session identity does not match the device''
        (put ''identity_mismatch'' (VBool (\<not> ai_binding_consistent ins))
           ''service_domain.counters'' SERVICE_DOMAIN now None VALID
           ''true when the access binding is attributed to a different device''
        (put ''authentication_failure_count'' (VInt (int (ai_authentication_failure_count ins)))
           ''service_domain.counters'' SERVICE_DOMAIN now None VALID
           (''window_s='' @ show_int (ss_authn_failure_window_s (st_security s))) items))))"

section \<open>5. Domain posture\<close>

text \<open>\<open>value in (None, False)\<close>: in Python \<open>0 == False\<close>, so a zero counts too.\<close>

definition none_or_false :: "evidence_value \<Rightarrow> bool" where
  "none_or_false v \<longleftrightarrow> v \<in> set [VNone, VBool False, VInt 0, VMs 0]"

definition evidence_complete :: "string list \<Rightarrow> items \<Rightarrow> bool" where
  "evidence_complete required items \<longleftrightarrow>
     list_all (\<lambda>name. case dget items name of None \<Rightarrow> True | Some i \<Rightarrow> \<not> none_or_false (ei_value i)) required"

definition missing_names :: "string list \<Rightarrow> items \<Rightarrow> string list" where
  "missing_names required items =
     filter (\<lambda>name. case dget items name of None \<Rightarrow> True | Some i \<Rightarrow> none_or_false (ei_value i)) required"

definition put_posture :: "settings \<Rightarrow> assembler_inputs \<Rightarrow> instant \<Rightarrow> items \<Rightarrow> items" where
  "put_posture s ins now items0 =
     (let posture = evaluate_posture (ai_binding ins) s;
          items = put ''collector_available'' (VBool (ai_collector_available ins))
              ''collector.health'' SERVICE_DOMAIN now None VALID
              ''collector outage is missing evidence, never contradictory evidence''
            (put ''domain_posture_ok'' (VBool (pt_ok posture))
              (binding_source (ai_binding ins)) (binding_mode (ai_binding ins))
              (binding_observed (ai_binding ins) now) None (if pt_ok posture then VALID else INVALID)
              (pt_reason posture) items0);
          required = es_evidence_completeness_required (st_evidence s);
          complete = evidence_complete required items
      in put ''evidence_complete'' (VBool complete) ''service_domain'' SERVICE_DOMAIN now None
           (if complete then VALID else MISSING)
           (if complete then [] else ''missing='' @ join_with '','' (missing_names required items)) items)"

section \<open>6. Evidence metadata\<close>

definition oldest_observation :: "instant \<Rightarrow> items \<Rightarrow> instant" where
  "oldest_observation now items =
     (case map (\<lambda>(_, i). ei_observed_at i) items of [] \<Rightarrow> now | t # ts \<Rightarrow> fold min ts t)"

definition SCHEMA_VERSION :: string where
  "SCHEMA_VERSION = ''1''"

definition put_metadata :: "settings \<Rightarrow> instant \<Rightarrow> items \<Rightarrow> items" where
  "put_metadata s now items =
     put ''config_hash'' (VStr (st_config_hash s)) ''service_domain'' SERVICE_DOMAIN now None VALID []
     (put ''schema_version'' (VStr SCHEMA_VERSION) ''service_domain'' SERVICE_DOMAIN now None VALID []
     (put ''evidence_age'' (VMs (round_ms (age_us (oldest_observation now items) now)))
        ''service_domain'' SERVICE_DOMAIN now None VALID
        ''age of the oldest observation contributing to this record''
     (put ''assembled_at'' (VStr (isoformat now)) ''service_domain'' SERVICE_DOMAIN now None VALID [] items)))"

section \<open>The whole record\<close>

definition assemble_items ::
  "settings \<Rightarrow> assembler_inputs \<Rightarrow> instant \<Rightarrow> bool \<Rightarrow> bool \<Rightarrow> items" where
  "assemble_items s ins now pop_fresh binding_fresh =
     put_metadata s now
      (put_posture s ins now
        (put_security s ins now
          (put_context s ins now
            (put_binding (ai_binding ins) binding_fresh (ai_binding_consistent ins) now
              (put_pop s (ai_pop_result ins) pop_fresh now
                (put_identity (ai_identity ins) now []))))))"

definition assemble ::
  "settings \<Rightarrow> string \<Rightarrow> assembler_inputs \<Rightarrow> instant \<Rightarrow> evidence_record result" where
  "assemble s rid ins now =
     and_then (pop_freshness s (ai_pop_result ins) now) (\<lambda>pop_fresh.
     and_then (binding_freshness s (ai_binding ins) now) (\<lambda>binding_fresh.
       Inr \<lparr>er_schema_version = SCHEMA_VERSION, er_record_id = rid, er_device_id = ai_device_id ins,
            er_assembled_at = now, er_config_hash = st_config_hash s,
            er_items = assemble_items s ins now pop_fresh binding_fresh\<rparr>))"

section \<open>Facts\<close>

lemma dget_put [dict_simps]:
  "dget (put n v src mode obs ex va de items) k =
     (if k = n then Some \<lparr>ei_name = n, ei_category = item_category n, ei_value = v, ei_source = src,
       ei_source_mode = mode, ei_observed_at = obs, ei_expires_at = ex,
       ei_validation = va, ei_detail = de\<rparr> else dget items k)"
  by (simp add: put_def)

lemma dict_ok_put [simp]: "dict_ok items \<Longrightarrow> dict_ok (put n v src mode obs ex va de items)"
  by (simp add: put_def)

lemmas section_defs = put_identity_def put_pop_def put_binding_def put_context_def put_security_def
  put_posture_def put_metadata_def

text \<open>The keys of each section, in the order they are stored.\<close>

lemma map_fst_put:
  "map fst (put n v src mode obs ex va de items) =
     (if n \<in> set (map fst items) then map fst items else map fst items @ [n])"
  unfolding put_def by (induction items) auto

lemma assemble_items_keys: "map fst (assemble_items s ins now pf bf) =
    [''identity_registered'', ''identity_enabled'', ''public_key_fingerprint'',
     ''proof_of_possession_valid'', ''binding_present'', ''binding_domain'', ''binding_fresh'',
     ''binding_consistent'', ''current_domain'', ''previous_domain'', ''transition_detected'',
     ''transition_age'', ''transition_count_window'', ''authentication_failure_count'',
     ''identity_mismatch'', ''session_mismatch'', ''unauthorized_context'', ''domain_posture_ok'',
     ''collector_available'', ''evidence_complete'', ''assembled_at'', ''evidence_age'',
     ''schema_version'', ''config_hash'']"
proof -
  have 1: "map fst (put_identity i now []) =
      [''identity_registered'', ''identity_enabled'', ''public_key_fingerprint'']" for i
    by (simp add: put_identity_def map_fst_put del: set_map)
  have 2: "''proof_of_possession_valid'' \<notin> set (map fst its) \<Longrightarrow>
      map fst (put_pop s pop pf now its) = map fst its @ [''proof_of_possession_valid'']" for its pop
    by (simp add: put_pop_def map_fst_put del: set_map split: option.split)
  have 3: "set (map fst its) \<inter> set [''binding_present'', ''binding_domain'', ''binding_fresh'', ''binding_consistent''] = {} \<Longrightarrow>
      map fst (put_binding b bf c now its) = map fst its @ [''binding_present'', ''binding_domain'', ''binding_fresh'',
     ''binding_consistent'']" for its b c
    by (simp add: put_binding_def Let_def map_fst_put del: set_map)
  have 4: "set (map fst its) \<inter> set [''current_domain'', ''previous_domain'', ''transition_detected'',
     ''transition_age'', ''transition_count_window''] = {} \<Longrightarrow>
      map fst (put_context s ins now its) = map fst its @ [''current_domain'', ''previous_domain'', ''transition_detected'',
     ''transition_age'', ''transition_count_window'']" for its
    by (simp add: put_context_def Let_def map_fst_put del: set_map)
  have 5: "set (map fst its) \<inter> set [''authentication_failure_count'',
     ''identity_mismatch'', ''session_mismatch'', ''unauthorized_context''] = {} \<Longrightarrow>
      map fst (put_security s ins now its) = map fst its @ [''authentication_failure_count'',
     ''identity_mismatch'', ''session_mismatch'', ''unauthorized_context'']" for its
    by (simp add: put_security_def Let_def map_fst_put del: set_map)
  have 6: "set (map fst its) \<inter> set [''domain_posture_ok'', ''collector_available'', ''evidence_complete''] = {} \<Longrightarrow>
      map fst (put_posture s ins now its) = map fst its @ [''domain_posture_ok'', ''collector_available'', ''evidence_complete'']" for its
    by (simp add: put_posture_def Let_def map_fst_put del: set_map)
  have 7: "set (map fst its) \<inter> set [''assembled_at'', ''evidence_age'', ''schema_version'', ''config_hash''] = {} \<Longrightarrow>
      map fst (put_metadata s now its) = map fst its @ [''assembled_at'', ''evidence_age'', ''schema_version'', ''config_hash'']" for its
    by (simp add: put_metadata_def map_fst_put del: set_map)
  show ?thesis
    unfolding assemble_items_def
    by (simp add: 1 2 3 4 5 6 7 del: set_map)
qed

lemma assemble_items_ok: "dict_ok (assemble_items s ins now pf bf)"
  unfolding assemble_items_keys by simp

text \<open>The value and the detail stored under a name.\<close>

definition val_of :: "items \<Rightarrow> string \<Rightarrow> evidence_value option" where
  "val_of items k = map_option ei_value (dget items k)"

definition detail_of :: "items \<Rightarrow> string \<Rightarrow> string option" where
  "detail_of items k = map_option ei_detail (dget items k)"

lemma val_of_put [simp]:
  "val_of (put n v src mode obs ex va de items) k = (if k = n then Some v else val_of items k)"
  by (simp add: val_of_def dget_put)

lemma detail_of_put [simp]:
  "detail_of (put n v src mode obs ex va de items) k = (if k = n then Some de else detail_of items k)"
  by (simp add: detail_of_def dget_put)

text \<open>Each section leaves the items of the others alone.\<close>

lemma put_identity_frame:
  "k \<notin> set [''identity_registered'', ''identity_enabled'', ''public_key_fingerprint''] \<Longrightarrow> val_of (put_identity i now its) k = val_of its k"
  "k \<notin> set [''identity_registered'', ''identity_enabled'', ''public_key_fingerprint''] \<Longrightarrow> detail_of (put_identity i now its) k = detail_of its k"
  by (simp_all add: put_identity_def Let_def)

lemma put_pop_frame:
  "k \<notin> set [''proof_of_possession_valid''] \<Longrightarrow> val_of (put_pop s pop pf now its) k = val_of its k"
  "k \<notin> set [''proof_of_possession_valid''] \<Longrightarrow> detail_of (put_pop s pop pf now its) k = detail_of its k"
  by (simp_all add: put_pop_def Let_def split: option.split)

lemma put_binding_frame:
  "k \<notin> set [''binding_present'', ''binding_domain'', ''binding_fresh'', ''binding_consistent''] \<Longrightarrow> val_of (put_binding b bf c now its) k = val_of its k"
  "k \<notin> set [''binding_present'', ''binding_domain'', ''binding_fresh'', ''binding_consistent''] \<Longrightarrow> detail_of (put_binding b bf c now its) k = detail_of its k"
  by (simp_all add: put_binding_def Let_def)

lemma put_context_frame:
  "k \<notin> set [''current_domain'', ''previous_domain'', ''transition_detected'', ''transition_age'', ''transition_count_window''] \<Longrightarrow> val_of (put_context s ins now its) k = val_of its k"
  "k \<notin> set [''current_domain'', ''previous_domain'', ''transition_detected'', ''transition_age'', ''transition_count_window''] \<Longrightarrow> detail_of (put_context s ins now its) k = detail_of its k"
  by (simp_all add: put_context_def Let_def)

lemma put_security_frame:
  "k \<notin> set [''authentication_failure_count'', ''identity_mismatch'', ''session_mismatch'', ''unauthorized_context''] \<Longrightarrow> val_of (put_security s ins now its) k = val_of its k"
  "k \<notin> set [''authentication_failure_count'', ''identity_mismatch'', ''session_mismatch'', ''unauthorized_context''] \<Longrightarrow> detail_of (put_security s ins now its) k = detail_of its k"
  by (simp_all add: put_security_def Let_def)

lemma put_posture_frame:
  "k \<notin> set [''domain_posture_ok'', ''collector_available'', ''evidence_complete''] \<Longrightarrow> val_of (put_posture s ins now its) k = val_of its k"
  "k \<notin> set [''domain_posture_ok'', ''collector_available'', ''evidence_complete''] \<Longrightarrow> detail_of (put_posture s ins now its) k = detail_of its k"
  by (simp_all add: put_posture_def Let_def)

lemma put_metadata_frame:
  "k \<notin> set [''assembled_at'', ''evidence_age'', ''schema_version'', ''config_hash''] \<Longrightarrow> val_of (put_metadata s now its) k = val_of its k"
  "k \<notin> set [''assembled_at'', ''evidence_age'', ''schema_version'', ''config_hash''] \<Longrightarrow> detail_of (put_metadata s now its) k = detail_of its k"
  by (simp_all add: put_metadata_def Let_def)

lemmas section_frames = put_identity_frame put_pop_frame put_binding_frame put_context_frame put_security_frame put_posture_frame put_metadata_frame

text \<open>What the items the predicates read contain.\<close>

lemma item_values:
  "(val_of (assemble_items s ins now pf bf) ''identity_registered'')
     = Some (VBool (ai_identity ins \<noteq> None))"
  "(val_of (assemble_items s ins now pf bf) ''identity_enabled'')
     = Some (VBool (attr_or is_enabled False (ai_identity ins)))"
  "(val_of (assemble_items s ins now pf bf) ''proof_of_possession_valid'')
     = Some (VBool (usable_proof (ai_pop_result ins) \<noteq> None \<and> pf))"
  "(val_of (assemble_items s ins now pf bf) ''binding_present'')
     = Some (VBool (ai_binding ins \<noteq> None))"
  "(val_of (assemble_items s ins now pf bf) ''binding_fresh'') = Some (VBool bf)"
  "(val_of (assemble_items s ins now pf bf) ''binding_consistent'')
     = Some (VBool (ai_binding_consistent ins))"
  "(val_of (assemble_items s ins now pf bf) ''transition_detected'')
     = Some (VBool (ai_transition_recent ins))"
  "(val_of (assemble_items s ins now pf bf) ''transition_count_window'')
     = Some (VInt (int (ai_transitions_in_window ins)))"
  "(val_of (assemble_items s ins now pf bf) ''authentication_failure_count'')
     = Some (VInt (int (ai_authentication_failure_count ins)))"
  "(val_of (assemble_items s ins now pf bf) ''session_mismatch'')
     = Some (VBool (\<not> ai_session_consistent ins))"
  "(val_of (assemble_items s ins now pf bf) ''domain_posture_ok'')
     = Some (VBool (pt_ok (evaluate_posture (ai_binding ins) s)))"
  unfolding assemble_items_def
  by (simp_all add: section_frames)
    (auto simp: section_defs Let_def split: option.split)

lemma item_details:
  "(detail_of (assemble_items s ins now pf bf) ''identity_enabled'')
     = Some (attr_or (\<lambda>i. status_value (di_status i)) ''device not registered'' (ai_identity ins))"
  "(detail_of (assemble_items s ins now pf bf) ''domain_posture_ok'')
     = Some (pt_reason (evaluate_posture (ai_binding ins) s))"
  unfolding assemble_items_def
  by (simp_all add: section_frames)
    (simp_all add: section_defs Let_def)

end
