(* ===== verification/Predicates.thy ===== *)
theory Predicates
  imports Assembler
begin

text \<open>
  The eleven predicates (\<^verbatim>\<open>src/ca_ztcf/evidence/predicates.py\<close>): result, reason and consulted
  items of each, computed from an evidence record. Looking up a predicate that a vector does not
  hold raises \<open>KeyError\<close>. Shown: a vector always has the eleven results in order, so no lookup in
  it raises, and each result is the condition on the assembler's inputs it is meant to be.
\<close>

section \<open>Results and vectors\<close>

datatype predicate_id = C1 | C2 | C3 | C4 | C5 | C6 | C7 | C8 | C9 | C10 | C11

fun predicate_id_value :: "predicate_id \<Rightarrow> string" where
  "predicate_id_value C1 = ''C1''" | "predicate_id_value C2 = ''C2''"
| "predicate_id_value C3 = ''C3''" | "predicate_id_value C4 = ''C4''"
| "predicate_id_value C5 = ''C5''" | "predicate_id_value C6 = ''C6''"
| "predicate_id_value C7 = ''C7''" | "predicate_id_value C8 = ''C8''"
| "predicate_id_value C9 = ''C9''" | "predicate_id_value C10 = ''C10''"
| "predicate_id_value C11 = ''C11''"

fun predicate_name :: "predicate_id \<Rightarrow> string" where
  "predicate_name C1 = ''IDENTITY_VALID''" | "predicate_name C2 = ''POP_FRESH''"
| "predicate_name C3 = ''BINDING_PRESENT''" | "predicate_name C4 = ''BINDING_FRESH''"
| "predicate_name C5 = ''BINDING_CONSISTENT''" | "predicate_name C6 = ''DOMAIN_STABLE''"
| "predicate_name C7 = ''TRANSITION_RECENT''" | "predicate_name C8 = ''RATE_OK''"
| "predicate_name C9 = ''AUTHN_FAILURES_OK''" | "predicate_name C10 = ''SESSION_CONSISTENT''"
| "predicate_name C11 = ''DOMAIN_POSTURE_OK''"

record predicate_result =
  pq_predicate_id :: predicate_id
  pq_name :: string
  pq_result :: bool
  pq_reason :: string
  pq_evidence_refs :: "string list"
  pq_evaluated_at :: instant

record predicate_vector =
  pv_trace_id :: string
  pv_device_id :: string
  pv_evidence_record_id :: string
  pv_evaluated_at :: instant
  pv_results :: "predicate_result list"

fun find_result :: "predicate_id \<Rightarrow> predicate_result list \<Rightarrow> predicate_result option" where
  "find_result p [] = None"
| "find_result p (r # rs) = (if pq_predicate_id r = p then Some r else find_result p rs)"

definition pv_get :: "predicate_vector \<Rightarrow> predicate_id \<Rightarrow> predicate_result result" where
  "pv_get v p = (case find_result p (pv_results v) of
     None \<Rightarrow> Inl (PyKeyError (''predicate '' @ predicate_id_value p @ '' was not evaluated''))
   | Some r \<Rightarrow> Inr r)"

definition pv_ok :: "predicate_vector \<Rightarrow> predicate_id \<Rightarrow> bool result" where
  "pv_ok v p = and_then (pv_get v p) (\<lambda>r. Inr (pq_result r))"

definition pv_failed :: "predicate_vector \<Rightarrow> predicate_result list" where
  "pv_failed v = filter (\<lambda>r. \<not> pq_result r) (pv_results v)"

definition reasons_for_failures :: "predicate_vector \<Rightarrow> string list" where
  "reasons_for_failures v = map pq_reason (pv_failed v)"

definition as_map :: "predicate_vector \<Rightarrow> (string, bool) dict" where
  "as_map v = fold (\<lambda>r d. dset (predicate_id_value (pq_predicate_id r)) (pq_result r) d) (pv_results v) []"

section \<open>The predicates\<close>

definition emit :: "instant \<Rightarrow> predicate_id \<Rightarrow> bool \<Rightarrow> string \<Rightarrow> string list \<Rightarrow> predicate_result" where
  "emit now p res reason refs =
     \<lparr>pq_predicate_id = p, pq_name = predicate_name p, pq_result = res, pq_reason = reason,
      pq_evidence_refs = refs, pq_evaluated_at = now\<rparr>"

definition eval_c1 :: "evidence_record \<Rightarrow> predicate_result" where
  "eval_c1 r =
     (let now = er_assembled_at r in
      if \<not> er_flag r ''identity_registered'' then
        emit now C1 False ''DEVICE_NOT_REGISTERED'' [''identity_registered'']
      else if \<not> er_flag r ''identity_enabled'' then
        emit now C1 False
          (''DEVICE_NOT_ENABLED:'' @ attr_or ei_detail ''DISABLED'' (er_item r ''identity_enabled''))
          [''identity_registered'', ''identity_enabled'']
      else emit now C1 True ''IDENTITY_VALID'' [''identity_registered'', ''identity_enabled''])"

definition eval_c2 :: "evidence_record \<Rightarrow> predicate_result" where
  "eval_c2 r =
     (let ok = er_flag r ''proof_of_possession_valid'';
          detail = attr_or ei_detail [] (er_item r ''proof_of_possession_valid'')
      in emit (er_assembled_at r) C2 ok
           (if ok then ''POP_FRESH'' else if detail \<noteq> [] then detail else ''POP_NOT_FRESH'')
           [''proof_of_possession_valid''])"

definition eval_c3 :: "evidence_record \<Rightarrow> predicate_result" where
  "eval_c3 r =
     (let ok = er_flag r ''binding_present''
      in emit (er_assembled_at r) C3 ok
           (if ok then ''BINDING_PRESENT'' else ''NO_ACCESS_BINDING_FOR_PEER_ADDRESS'')
           [''binding_present'', ''binding_domain''])"

definition eval_c4 :: "settings \<Rightarrow> evidence_record \<Rightarrow> predicate_result" where
  "eval_c4 s r =
     (let ok = er_flag r ''binding_fresh'';
          detail = attr_or ei_detail [] (er_item r ''binding_fresh'')
      in emit (er_assembled_at r) C4 ok
           (if ok then ''BINDING_FRESH''
            else if \<not> er_flag r ''binding_present'' then ''NO_ACCESS_BINDING_FOR_PEER_ADDRESS''
            else ''BINDING_STALE:max_s='' @ show_int (es_binding_freshness_max_s (st_evidence s))
                   @ (if detail \<noteq> [] then '':'' @ detail else []))
           [''binding_fresh''])"

definition eval_c5 :: "evidence_record \<Rightarrow> predicate_result" where
  "eval_c5 r =
     (let ok = er_flag r ''binding_consistent''
      in emit (er_assembled_at r) C5 ok
           (if ok then ''BINDING_CONSISTENT'' else ''BINDING_CLAIMED_BY_ANOTHER_DEVICE'')
           [''binding_consistent'', ''identity_mismatch''])"

definition age_text :: "evidence_record \<Rightarrow> string" where
  "age_text r =
     (case er_value r ''transition_age'' of
        VNone \<Rightarrow> ''no_transition_on_record''
      | v \<Rightarrow> ''age_s='' @ value_text v)"

definition eval_c6 :: "evidence_record \<Rightarrow> predicate_result" where
  "eval_c6 r =
     (let recent = er_flag r ''transition_detected''
      in emit (er_assembled_at r) C6 (\<not> recent)
           (if \<not> recent then ''DOMAIN_STABLE'' else ''TRANSITION_WITHIN_STABILITY_WINDOW:'' @ age_text r)
           [''transition_detected'', ''transition_age''])"

definition eval_c7 :: "evidence_record \<Rightarrow> predicate_result" where
  "eval_c7 r =
     (let recent = er_flag r ''transition_detected''
      in emit (er_assembled_at r) C7 recent
           (if recent then ''TRANSITION_RECENT:'' @ age_text r else ''NO_RECENT_TRANSITION'')
           [''transition_detected'', ''transition_age''])"

definition eval_c8 :: "settings \<Rightarrow> evidence_record \<Rightarrow> predicate_result" where
  "eval_c8 s r =
     (let n = er_number r ''transition_count_window'';
          limit = ts_max_transitions_per_window (st_transition s)
      in emit (er_assembled_at r) C8 (n \<le> limit)
           (if n \<le> limit then ''RATE_OK:'' @ show_int n @ ''<='' @ show_int limit
            else ''TRANSITION_RATE_EXCEEDED:'' @ show_int n @ ''>'' @ show_int limit)
           [''transition_count_window''])"

definition eval_c9 :: "settings \<Rightarrow> evidence_record \<Rightarrow> predicate_result" where
  "eval_c9 s r =
     (let n = er_number r ''authentication_failure_count'';
          limit = ss_max_authn_failures (st_security s)
      in emit (er_assembled_at r) C9 (n \<le> limit)
           (if n \<le> limit then ''AUTHN_FAILURES_OK:'' @ show_int n @ ''<='' @ show_int limit
            else ''AUTHN_FAILURES_EXCEEDED:'' @ show_int n @ ''>'' @ show_int limit)
           [''authentication_failure_count''])"

definition eval_c10 :: "evidence_record \<Rightarrow> predicate_result" where
  "eval_c10 r =
     (let mismatch = er_flag r ''session_mismatch''
      in emit (er_assembled_at r) C10 (\<not> mismatch)
           (if \<not> mismatch then ''SESSION_CONSISTENT'' else ''SESSION_IDENTITY_MISMATCH'')
           [''session_mismatch''])"

definition eval_c11 :: "evidence_record \<Rightarrow> predicate_result" where
  "eval_c11 r =
     emit (er_assembled_at r) C11 (er_flag r ''domain_posture_ok'')
       (attr_or ei_detail ''POSTURE_UNKNOWN'' (er_item r ''domain_posture_ok''))
       [''domain_posture_ok'', ''unauthorized_context'']"

definition evaluate_predicates :: "settings \<Rightarrow> string \<Rightarrow> evidence_record \<Rightarrow> predicate_vector" where
  "evaluate_predicates s tid r =
     \<lparr>pv_trace_id = tid, pv_device_id = er_device_id r, pv_evidence_record_id = er_record_id r,
      pv_evaluated_at = er_assembled_at r,
      pv_results = [eval_c1 r, eval_c2 r, eval_c3 r, eval_c4 s r, eval_c5 r, eval_c6 r, eval_c7 r,
                    eval_c8 s r, eval_c9 s r, eval_c10 r, eval_c11 r]\<rparr>"

section \<open>Facts\<close>

lemma emit_simps [simp]:
  "pq_predicate_id (emit now p res reason refs) = p"
  "pq_name (emit now p res reason refs) = predicate_name p"
  "pq_result (emit now p res reason refs) = res"
  "pq_reason (emit now p res reason refs) = reason"
  "pq_evaluated_at (emit now p res reason refs) = now"
  by (simp_all add: emit_def)

lemma eval_ids [simp]:
  "pq_predicate_id (eval_c1 r) = C1" "pq_predicate_id (eval_c2 r) = C2"
  "pq_predicate_id (eval_c3 r) = C3" "pq_predicate_id (eval_c4 s r) = C4"
  "pq_predicate_id (eval_c5 r) = C5" "pq_predicate_id (eval_c6 r) = C6"
  "pq_predicate_id (eval_c7 r) = C7" "pq_predicate_id (eval_c8 s r) = C8"
  "pq_predicate_id (eval_c9 s r) = C9" "pq_predicate_id (eval_c10 r) = C10"
  "pq_predicate_id (eval_c11 r) = C11"
  by (simp_all add: eval_c1_def eval_c2_def eval_c3_def eval_c4_def eval_c5_def eval_c6_def
      eval_c7_def eval_c8_def eval_c9_def eval_c10_def eval_c11_def Let_def)

text \<open>The result a complete vector holds for a predicate.\<close>

fun eval_of :: "settings \<Rightarrow> evidence_record \<Rightarrow> predicate_id \<Rightarrow> predicate_result" where
  "eval_of s r C1 = eval_c1 r" | "eval_of s r C2 = eval_c2 r" | "eval_of s r C3 = eval_c3 r"
| "eval_of s r C4 = eval_c4 s r" | "eval_of s r C5 = eval_c5 r" | "eval_of s r C6 = eval_c6 r"
| "eval_of s r C7 = eval_c7 r" | "eval_of s r C8 = eval_c8 s r" | "eval_of s r C9 = eval_c9 s r"
| "eval_of s r C10 = eval_c10 r" | "eval_of s r C11 = eval_c11 r"

lemma pv_get_evaluate [simp]: "pv_get (evaluate_predicates s tid r) p = Inr (eval_of s r p)"
  by (cases p) (simp_all add: pv_get_def evaluate_predicates_def)

lemma pv_ok_evaluate [simp]: "pv_ok (evaluate_predicates s tid r) p = Inr (pq_result (eval_of s r p))"
  by (simp add: pv_ok_def)

lemma vector_ids: "map pq_predicate_id (pv_results (evaluate_predicates s tid r))
    = [C1, C2, C3, C4, C5, C6, C7, C8, C9, C10, C11]"
  by (simp add: evaluate_predicates_def)

lemma c6_is_not_c7: "pq_result (eval_c6 r) \<longleftrightarrow> \<not> pq_result (eval_c7 r)"
  by (simp add: eval_c6_def eval_c7_def Let_def)

text \<open>Reading a record through \<open>val_of\<close> and \<open>detail_of\<close>.\<close>

lemma er_flag_val: "er_flag r k \<longleftrightarrow> val_of (er_items r) k = Some (VBool True)"
  by (auto simp: er_flag_def val_of_def as_bool_def split: option.split)

lemma er_number_val: "val_of (er_items r) k = Some (VInt n) \<Longrightarrow> er_number r k = n"
  by (auto simp: er_number_def val_of_def as_int_def)

lemma er_item_detail: "attr_or ei_detail dflt (er_item r k) = (case detail_of (er_items r) k of None \<Rightarrow> dflt | Some t \<Rightarrow> t)"
  by (simp add: er_item_def detail_of_def attr_or_def split: option.split)

section \<open>The predicates on assembled records\<close>

lemma assemble_Inr:
  "assemble s rid ins now = Inr r \<longleftrightarrow>
    (\<exists>pf bf. pop_freshness s (ai_pop_result ins) now = Inr pf
      \<and> binding_freshness s (ai_binding ins) now = Inr bf
      \<and> r = \<lparr>er_schema_version = SCHEMA_VERSION, er_record_id = rid, er_device_id = ai_device_id ins,
            er_assembled_at = now, er_config_hash = st_config_hash s,
            er_items = assemble_items s ins now pf bf\<rparr>)"
  by (auto simp: assemble_def and_then_Inr_iff)

text \<open>With the bounds validation enforces, assembling never raises.\<close>

lemma assemble_total:
  assumes "evidence_valid (st_evidence s)"
  shows "\<exists>r. assemble s rid ins now = Inr r"
  using assms by (auto simp: assemble_Inr pop_freshness_def binding_freshness_def evidence_valid_def
      split: option.split)

lemma pop_freshness_Inr:
  "pop_freshness s pop now = Inr pf \<Longrightarrow> usable_proof pop = Some t \<Longrightarrow>
     pf = (age_us t now \<le> seconds (es_proof_of_possession_ttl_s (st_evidence s)))"
  by (auto simp: pop_freshness_def is_fresh_def split: if_splits)

lemma binding_freshness_Inr:
  "binding_freshness s b now = Inr bf \<Longrightarrow>
     bf \<longleftrightarrow> (\<exists>x. b = Some x \<and> \<not> ab_is_expired x now
        \<and> age_us (ab_last_seen x) now \<le> seconds (es_binding_freshness_max_s (st_evidence s)))"
  by (auto simp: binding_freshness_def is_fresh_def and_then_Inr_iff split: option.splits if_splits)

definition proof_usable_and_fresh :: "settings \<Rightarrow> pop_result option \<Rightarrow> instant \<Rightarrow> bool" where
  "proof_usable_and_fresh s pop now \<longleftrightarrow>
     (case usable_proof pop of None \<Rightarrow> False
      | Some t \<Rightarrow> age_us t now \<le> seconds (es_proof_of_possession_ttl_s (st_evidence s)))"

definition binding_present_and_fresh :: "settings \<Rightarrow> access_binding option \<Rightarrow> instant \<Rightarrow> bool" where
  "binding_present_and_fresh s b now \<longleftrightarrow>
     (case b of None \<Rightarrow> False
      | Some x \<Rightarrow> \<not> ab_is_expired x now
          \<and> age_us (ab_last_seen x) now \<le> seconds (es_binding_freshness_max_s (st_evidence s)))"

lemma predicates_of_inputs:
  assumes "assemble s rid ins now = Inr r"
  shows "pq_result (eval_c1 r) \<longleftrightarrow> attr_or is_enabled False (ai_identity ins)"
    and "pq_reason (eval_c1 r) = ''DEVICE_NOT_REGISTERED'' \<longleftrightarrow> ai_identity ins = None"
    and "pq_result (eval_c2 r) \<longleftrightarrow> proof_usable_and_fresh s (ai_pop_result ins) now"
    and "pq_result (eval_c3 r) \<longleftrightarrow> ai_binding ins \<noteq> None"
    and "pq_result (eval_c4 s r) \<longleftrightarrow> binding_present_and_fresh s (ai_binding ins) now"
    and "pq_result (eval_c5 r) \<longleftrightarrow> ai_binding_consistent ins"
    and "pq_result (eval_c6 r) \<longleftrightarrow> \<not> ai_transition_recent ins"
    and "pq_result (eval_c7 r) \<longleftrightarrow> ai_transition_recent ins"
    and "pq_result (eval_c8 s r) \<longleftrightarrow>
           int (ai_transitions_in_window ins) \<le> ts_max_transitions_per_window (st_transition s)"
    and "pq_result (eval_c9 s r) \<longleftrightarrow>
           int (ai_authentication_failure_count ins) \<le> ss_max_authn_failures (st_security s)"
    and "pq_result (eval_c10 r) \<longleftrightarrow> ai_session_consistent ins"
    and "pq_result (eval_c11 r) \<longleftrightarrow> pt_ok (evaluate_posture (ai_binding ins) s)"
    and "pq_reason (eval_c11 r) = pt_reason (evaluate_posture (ai_binding ins) s)"
proof -
  from assms obtain pf bf where pf: "pop_freshness s (ai_pop_result ins) now = Inr pf"
    and bf: "binding_freshness s (ai_binding ins) now = Inr bf"
    and items: "er_items r = assemble_items s ins now pf bf"
    by (auto simp: assemble_Inr)
  note v = item_values [of s ins now pf bf, folded items]
    item_details [of s ins now pf bf, folded items]
  show "pq_result (eval_c1 r) \<longleftrightarrow> attr_or is_enabled False (ai_identity ins)"
    "pq_reason (eval_c1 r) = ''DEVICE_NOT_REGISTERED'' \<longleftrightarrow> ai_identity ins = None"
    by (auto simp: eval_c1_def er_flag_val v Let_def)
  show "pq_result (eval_c2 r) \<longleftrightarrow> proof_usable_and_fresh s (ai_pop_result ins) now"
    using pop_freshness_Inr [OF pf]
    by (auto simp: eval_c2_def er_flag_val v Let_def proof_usable_and_fresh_def split: option.split)
  show "pq_result (eval_c4 s r) \<longleftrightarrow> binding_present_and_fresh s (ai_binding ins) now"
    using binding_freshness_Inr [OF bf]
    by (simp add: eval_c4_def er_flag_val v Let_def binding_present_and_fresh_def split: option.split)
  show "pq_result (eval_c8 s r) \<longleftrightarrow>
           int (ai_transitions_in_window ins) \<le> ts_max_transitions_per_window (st_transition s)"
    "pq_result (eval_c9 s r) \<longleftrightarrow>
           int (ai_authentication_failure_count ins) \<le> ss_max_authn_failures (st_security s)"
    by (simp_all add: eval_c8_def eval_c9_def er_number_val [OF v(8)] er_number_val [OF v(9)] Let_def)
  show "pq_reason (eval_c11 r) = pt_reason (evaluate_posture (ai_binding ins) s)"
    by (simp add: eval_c11_def er_item_detail v)
  show "pq_result (eval_c3 r) \<longleftrightarrow> ai_binding ins \<noteq> None"
    "pq_result (eval_c5 r) \<longleftrightarrow> ai_binding_consistent ins"
    "pq_result (eval_c6 r) \<longleftrightarrow> \<not> ai_transition_recent ins"
    "pq_result (eval_c7 r) \<longleftrightarrow> ai_transition_recent ins"
    "pq_result (eval_c10 r) \<longleftrightarrow> ai_session_consistent ins"
    "pq_result (eval_c11 r) \<longleftrightarrow> pt_ok (evaluate_posture (ai_binding ins) s)"
    by (simp_all add: eval_c3_def eval_c5_def eval_c6_def eval_c7_def eval_c10_def eval_c11_def
        er_flag_val v Let_def)
qed

end
