(* ===== verification/Policy.thy ===== *)
theory Policy
  imports Trust_Engine
begin

text \<open>
  The transition-aware policy: actions, scopes and decisions
  (\<^verbatim>\<open>src/ca_ztcf/policy/models.py\<close>), the matrix with its loading and lookup
  (\<^verbatim>\<open>policy/matrix.py\<close>) and the evaluator (\<^verbatim>\<open>policy/evaluator.py\<close>). Clock
  readings and the decision identifier are arguments.

  Shown: the first matching rule decides, a cross-validated configuration never makes a matched
  lookup raise, and the matrix shipped in \<^verbatim>\<open>config/policy/policy_matrix.yaml\<close> is total, with
  no rule that grants anything to an unknown or untrusted device.
\<close>

section \<open>Actions, scopes, decisions\<close>

datatype policy_action =
  ALLOW | ALLOW_WITH_RESTRICTIONS | STEP_UP_AUTHENTICATION | REAUTHENTICATE | QUARANTINE | DENY

fun action_value :: "policy_action \<Rightarrow> string" where
  "action_value ALLOW = ''ALLOW''"
| "action_value ALLOW_WITH_RESTRICTIONS = ''ALLOW_WITH_RESTRICTIONS''"
| "action_value STEP_UP_AUTHENTICATION = ''STEP_UP_AUTHENTICATION''"
| "action_value REAUTHENTICATE = ''REAUTHENTICATE''"
| "action_value QUARANTINE = ''QUARANTINE''"
| "action_value DENY = ''DENY''"

definition policy_actions :: "policy_action list" where
  "policy_actions = [ALLOW, ALLOW_WITH_RESTRICTIONS, STEP_UP_AUTHENTICATION, REAUTHENTICATE, QUARANTINE, DENY]"

definition TERMINATING_ACTIONS :: "policy_action list" where
  "TERMINATING_ACTIONS = [REAUTHENTICATE, DENY]"

record access_scope =
  sp_name :: string
  sp_description :: string
  sp_allow :: "string list"
  sp_deny :: "string list"

definition device_placeholder :: string where
  "device_placeholder = ''{device_id}''"

definition resolve :: "access_scope \<Rightarrow> string \<Rightarrow> access_scope" where
  "resolve sp d = sp\<lparr>sp_allow := map (py_replace device_placeholder d) (sp_allow sp),
                     sp_deny := map (py_replace device_placeholder d) (sp_deny sp)\<rparr>"

record decision =
  dc_decision_id :: string
  dc_device_id :: string
  dc_strategy :: string
  dc_trust_state :: trust_state
  dc_transition_context :: transition_context
  dc_action :: policy_action
  dc_scope :: access_scope
  dc_ttl_ms :: int
  dc_reason_codes :: "string list"
  dc_rule_id :: string
  dc_predicate_trace_id :: "string option"
  dc_evidence_record_id :: "string option"
  dc_created_at :: instant
  dc_config_hash :: string
  dc_decision_duration_ns :: int

definition permits_any_access :: "decision \<Rightarrow> bool" where
  "permits_any_access d \<longleftrightarrow>
     dc_action d \<in> set [ALLOW, ALLOW_WITH_RESTRICTIONS, STEP_UP_AUTHENTICATION, QUARANTINE]"

definition expires_at_ms :: "decision \<Rightarrow> int" where
  "expires_at_ms d = dc_created_at d div 1000 + dc_ttl_ms d"

section \<open>The matrix\<close>

record matrix_entry =
  me_rule_id :: string
  me_state :: trust_state
  me_transition_contexts :: "transition_context list option"
  me_action :: policy_action
  me_scope_name :: string
  me_reason_codes :: "string list"
  me_note :: string

record matrix_outcome =
  mo_rule_id :: string
  mo_action :: policy_action
  mo_scope :: access_scope
  mo_reason_codes :: "string list"
  mo_matched :: bool

record policy_matrix =
  mx_settings :: settings
  mx_scopes :: "(string, access_scope) dict"
  mx_entries :: "matrix_entry list"
  mx_default :: matrix_entry

definition transition_contexts :: "transition_context list" where
  "transition_contexts = [CtxNone, NR_TO_WLAN, WLAN_TO_NR, INTRA, REPEATED]"

text \<open>\<open>Enum(value)\<close>: the member with that value, or \<open>ValueError\<close>.\<close>

definition parse_state :: "string \<Rightarrow> trust_state option" where
  "parse_state t = List.find (\<lambda>s. state_value s = t) trust_states"

definition parse_action :: "string \<Rightarrow> policy_action option" where
  "parse_action t = List.find (\<lambda>a. action_value a = t) policy_actions"

definition parse_context :: "string \<Rightarrow> transition_context option" where
  "parse_context t = List.find (\<lambda>c. context_value c = t) transition_contexts"

fun parse_contexts :: "string list \<Rightarrow> transition_context list option" where
  "parse_contexts [] = Some []"
| "parse_contexts (c # cs) =
     (case (parse_context c, parse_contexts cs) of
        (Some x, Some xs) \<Rightarrow> Some (x # xs)
      | _ \<Rightarrow> None)"

definition matches :: "matrix_entry \<Rightarrow> trust_state \<Rightarrow> transition_context \<Rightarrow> bool" where
  "matches e st ctx \<longleftrightarrow>
     me_state e = st
     \<and> (case me_transition_contexts e of None \<Rightarrow> True | Some cs \<Rightarrow> ctx \<in> set cs)"

definition load_scopes :: "settings \<Rightarrow> (string, access_scope) dict" where
  "load_scopes s = map (\<lambda>(name, d). (name, \<lparr>sp_name = name, sp_description = sc_description d,
      sp_allow = sc_allow d, sp_deny = sc_deny d\<rparr>)) (st_scopes s)"

definition load_entry :: "policy_rule_definition \<Rightarrow> matrix_entry result" where
  "load_entry rule =
     (case parse_state (rd_state rule) of
        None \<Rightarrow> Inl (PolicyError (''policy rule '' @ rd_id rule @ '': unknown state '' @ quoted (rd_state rule)))
      | Some st \<Rightarrow>
          (case parse_action (rd_action rule) of
             None \<Rightarrow> Inl (PolicyError (''policy rule '' @ rd_id rule @ '': unknown action '' @ quoted (rd_action rule)))
           | Some a \<Rightarrow>
               (case (if ''*'' \<in> set (rd_transition_contexts rule) then Some None
                      else map_option Some (parse_contexts (rd_transition_contexts rule))) of
                  None \<Rightarrow> Inl (PolicyError (''policy rule '' @ rd_id rule @ '': unknown transition context''))
                | Some ctxs \<Rightarrow>
                    Inr \<lparr>me_rule_id = rd_id rule, me_state = st, me_transition_contexts = ctxs,
                         me_action = a, me_scope_name = rd_scope rule,
                         me_reason_codes = rd_reason_codes rule, me_note = rd_note rule\<rparr>)))"

fun load_entries :: "policy_rule_definition list \<Rightarrow> string list \<Rightarrow> matrix_entry list result" where
  "load_entries [] seen = Inr []"
| "load_entries (rule # rules) seen =
     (if rd_id rule \<in> set seen then
        Inl (PolicyError (''duplicate policy rule id '' @ quoted (rd_id rule)))
      else and_then (load_entry rule) (\<lambda>e.
           and_then (load_entries rules (rd_id rule # seen)) (\<lambda>es. Inr (e # es))))"

definition load_default :: "settings \<Rightarrow> matrix_entry result" where
  "load_default s =
     (let m = st_policy_matrix s in
      case parse_action (md_default_action m) of
        None \<Rightarrow> Inl (PolicyError (''unknown default_action '' @ quoted (md_default_action m)))
      | Some a \<Rightarrow> Inr \<lparr>me_rule_id = ''DEFAULT'', me_state = UNTRUSTED, me_transition_contexts = None,
           me_action = a, me_scope_name = md_default_scope m,
           me_reason_codes = md_default_reason_codes m, me_note = []\<rparr>)"

definition new_policy_matrix :: "settings \<Rightarrow> policy_matrix result" where
  "new_policy_matrix s =
     and_then (load_entries (md_rules (st_policy_matrix s)) []) (\<lambda>es.
       if es = [] then Inl (PolicyError ''policy matrix contains no rules'')
       else and_then (load_default s) (\<lambda>dflt.
         Inr \<lparr>mx_settings = s, mx_scopes = load_scopes s, mx_entries = es, mx_default = dflt\<rparr>))"

definition mx_scope :: "policy_matrix \<Rightarrow> string \<Rightarrow> access_scope result" where
  "mx_scope m name =
     (case dget (mx_scopes m) name of
        None \<Rightarrow> Inl (PolicyError (''undefined access scope '' @ quoted name))
      | Some sp \<Rightarrow> Inr sp)"

definition mx_ttl_ms :: "policy_matrix \<Rightarrow> policy_action \<Rightarrow> int result" where
  "mx_ttl_ms m a =
     (case dget (pl_ttl_ms (st_policy (mx_settings m))) (action_value a) of
        None \<Rightarrow> Inl (PolicyError (''no policy.ttl_ms entry for action '' @ quoted (action_value a)))
      | Some t \<Rightarrow> Inr t)"

definition entry_outcome :: "policy_matrix \<Rightarrow> bool \<Rightarrow> matrix_entry \<Rightarrow> matrix_outcome result" where
  "entry_outcome m matched e =
     and_then (mx_scope m (me_scope_name e)) (\<lambda>sp.
       Inr \<lparr>mo_rule_id = me_rule_id e, mo_action = me_action e, mo_scope = sp,
            mo_reason_codes = me_reason_codes e, mo_matched = matched\<rparr>)"

definition lookup :: "policy_matrix \<Rightarrow> trust_state \<Rightarrow> transition_context \<Rightarrow> matrix_outcome result" where
  "lookup m st ctx =
     (case List.find (\<lambda>e. matches e st ctx) (mx_entries m) of
        Some e \<Rightarrow> entry_outcome m True e
      | None \<Rightarrow> entry_outcome m False (mx_default m))"

fun coverage_loop ::
  "policy_matrix \<Rightarrow> (trust_state \<times> transition_context) list \<Rightarrow> (string \<times> string, string) dict
     \<Rightarrow> (string \<times> string, string) dict result" where
  "coverage_loop m [] table = Inr table"
| "coverage_loop m ((st, ctx) # rest) table =
     and_then (lookup m st ctx) (\<lambda>out.
       coverage_loop m rest (dset (state_value st, context_value ctx) (mo_rule_id out) table))"

definition coverage :: "policy_matrix \<Rightarrow> (string \<times> string, string) dict result" where
  "coverage m = coverage_loop m (List.product trust_states transition_contexts) []"

section \<open>The evaluator\<close>

definition evaluate_policy ::
  "policy_matrix \<Rightarrow> string \<Rightarrow> int \<Rightarrow> int \<Rightarrow> trust_evaluation \<Rightarrow> transition_context \<Rightarrow> string
     \<Rightarrow> string list \<Rightarrow> decision result" where
  "evaluate_policy m did started_ns ended_ns ev ctx strategy extra =
     and_then (lookup m (tv_new_state ev) ctx) (\<lambda>out.
     and_then (mx_ttl_ms m (mo_action out)) (\<lambda>ttl.
       Inr \<lparr>dc_decision_id = did, dc_device_id = tv_device_id ev, dc_strategy = strategy,
            dc_trust_state = tv_new_state ev, dc_transition_context = ctx,
            dc_action = mo_action out, dc_scope = resolve (mo_scope out) (tv_device_id ev),
            dc_ttl_ms = ttl,
            dc_reason_codes = fromkeys (mo_reason_codes out @ tv_reason_codes ev @ extra),
            dc_rule_id = mo_rule_id out,
            dc_predicate_trace_id = Some (tv_predicate_trace_id ev),
            dc_evidence_record_id = Some (tv_evidence_record_id ev),
            dc_created_at = tv_evaluated_at ev,
            dc_config_hash = st_config_hash (mx_settings m),
            dc_decision_duration_ns = max 0 (ended_ns - started_ns) + tv_engine_duration_ns ev\<rparr>))"

definition direct ::
  "policy_matrix \<Rightarrow> string \<Rightarrow> int \<Rightarrow> int \<Rightarrow> instant \<Rightarrow> string \<Rightarrow> trust_state \<Rightarrow> transition_context
     \<Rightarrow> string \<Rightarrow> string list \<Rightarrow> decision result" where
  "direct m did started_ns ended_ns clk d st ctx strategy reasons =
     and_then (lookup m st ctx) (\<lambda>out.
     and_then (mx_ttl_ms m (mo_action out)) (\<lambda>ttl.
       Inr \<lparr>dc_decision_id = did, dc_device_id = d, dc_strategy = strategy,
            dc_trust_state = st, dc_transition_context = ctx,
            dc_action = mo_action out, dc_scope = resolve (mo_scope out) d,
            dc_ttl_ms = ttl,
            dc_reason_codes = fromkeys (mo_reason_codes out @ reasons),
            dc_rule_id = mo_rule_id out,
            dc_predicate_trace_id = None, dc_evidence_record_id = None,
            dc_created_at = clk,
            dc_config_hash = st_config_hash (mx_settings m),
            dc_decision_duration_ns = max 0 (ended_ns - started_ns)\<rparr>))"

section \<open>Facts\<close>

lemma find_Some: "List.find P xs = Some x \<Longrightarrow> x \<in> set xs \<and> P x"
  by (auto simp: find_Some_iff)

lemma parse_state_value [simp]: "parse_state (state_value s) = Some s"
  by (cases s) (simp_all add: parse_state_def trust_states_def)

lemma parse_action_value [simp]: "parse_action (action_value a) = Some a"
  by (cases a) (simp_all add: parse_action_def policy_actions_def)

lemma parse_context_value [simp]: "parse_context (context_value c) = Some c"
  by (cases c) (simp_all add: parse_context_def transition_contexts_def)

lemma parse_action_SomeD: "parse_action t = Some a \<Longrightarrow> action_value a = t"
  by (auto simp: parse_action_def dest: find_Some)

lemma parse_state_SomeD: "parse_state t = Some a \<Longrightarrow> state_value a = t"
  by (auto simp: parse_state_def dest: find_Some)

lemma load_entry_Inr:
  "load_entry rule = Inr e \<Longrightarrow> me_rule_id e = rd_id rule \<and> action_value (me_action e) = rd_action rule
     \<and> state_value (me_state e) = rd_state rule
     \<and> me_scope_name e = rd_scope rule \<and> me_reason_codes e = rd_reason_codes rule"
  by (auto simp: load_entry_def parse_action_SomeD parse_state_SomeD split: option.splits if_splits)

lemma load_entries_Inr:
  "load_entries rules seen = Inr es \<Longrightarrow>
     list_all2 (\<lambda>rule e. load_entry rule = Inr e) rules es
     \<and> distinct (map rd_id rules) \<and> set (map rd_id rules) \<inter> set seen = {}"
  by (induction rules seen arbitrary: es rule: load_entries.induct)
    (auto simp: and_then_Inr_iff split: if_splits)

lemma load_entries_ids: "load_entries rules seen = Inr es \<Longrightarrow> map me_rule_id es = map rd_id rules"
proof -
  assume "load_entries rules seen = Inr es"
  then have "list_all2 (\<lambda>rule e. load_entry rule = Inr e) rules es"
    by (simp add: load_entries_Inr)
  then show ?thesis by (induction rules es) (auto dest: load_entry_Inr)
qed

lemma new_policy_matrix_Inr:
  "new_policy_matrix s = Inr m \<longleftrightarrow>
     (\<exists>es dflt. load_entries (md_rules (st_policy_matrix s)) [] = Inr es \<and> es \<noteq> []
        \<and> load_default s = Inr dflt
        \<and> m = \<lparr>mx_settings = s, mx_scopes = load_scopes s, mx_entries = es, mx_default = dflt\<rparr>)"
  by (auto simp: new_policy_matrix_def and_then_Inr_iff split: if_splits)

lemma dget_load_scopes: "dget (load_scopes s) n = None \<longleftrightarrow> dget (st_scopes s) n = None"
  unfolding load_scopes_def by (induction "st_scopes s" arbitrary: s) (auto simp: map_of_map o_def
      map_of_eq_None_iff image_iff split: prod.splits)

lemma entry_rule:
  assumes "new_policy_matrix s = Inr m" "e \<in> set (mx_entries m)"
  shows "\<exists>rule \<in> set (md_rules (st_policy_matrix s)). load_entry rule = Inr e"
proof -
  from assms have "list_all2 (\<lambda>rule e. load_entry rule = Inr e) (md_rules (st_policy_matrix s)) (mx_entries m)"
    by (auto simp: new_policy_matrix_Inr dest: load_entries_Inr)
  then show ?thesis using assms(2) by (induction rule: list_all2_induct) auto
qed

text \<open>Every scope a cross-validated configuration can name is defined, and so is every time-to-live of a rule.\<close>

lemma matched_lookup_total:
  assumes m: "new_policy_matrix s = Inr m" and cv: "cross_validate s = Inr ()"
    and hit: "\<exists>e \<in> set (mx_entries m). matches e st ctx"
  shows "\<exists>out ttl. lookup m st ctx = Inr out \<and> mo_matched out \<and> mx_ttl_ms m (mo_action out) = Inr ttl"
proof -
  from hit obtain e where e: "List.find (\<lambda>e. matches e st ctx) (mx_entries m) = Some e"
    by (metis find_None_iff option.exhaust)
  then have "e \<in> set (mx_entries m)" by (auto dest: find_Some)
  from entry_rule [OF m this] obtain rule where
    rule: "rule \<in> set (md_rules (st_policy_matrix s))" "load_entry rule = Inr e" by blast
  from load_entry_Inr [OF rule(2)] have
    "me_scope_name e = rd_scope rule" "action_value (me_action e) = rd_action rule" by simp_all
  moreover have "dget (st_scopes s) (rd_scope rule) \<noteq> None"
    "dget (pl_ttl_ms (st_policy s)) (rd_action rule) \<noteq> None"
    using cv rule(1) by (auto simp: cross_validate_iff)
  moreover have "mx_settings m = s" "mx_scopes m = load_scopes s"
    using m by (auto simp: new_policy_matrix_Inr)
  ultimately show ?thesis
    using e by (auto simp: lookup_def entry_outcome_def mx_scope_def mx_ttl_ms_def and_then_Inr_iff
        dget_load_scopes split: option.splits)
qed

lemma lookup_total:
  assumes m: "new_policy_matrix s = Inr m" and cv: "cross_validate s = Inr ()"
  shows "\<exists>out. lookup m st ctx = Inr out"
proof (cases "\<exists>e \<in> set (mx_entries m). matches e st ctx")
  case True
  then show ?thesis using matched_lookup_total [OF assms] by blast
next
  case False
  then have "List.find (\<lambda>e. matches e st ctx) (mx_entries m) = None"
    by (auto simp: find_None_iff)
  moreover have "me_scope_name (mx_default m) = md_default_scope (st_policy_matrix s)"
    "mx_scopes m = load_scopes s"
    using m by (auto simp: new_policy_matrix_Inr load_default_def Let_def split: option.splits)
  moreover have "dget (st_scopes s) (md_default_scope (st_policy_matrix s)) \<noteq> None"
    using cv by (simp add: cross_validate_iff)
  ultimately show ?thesis
    by (auto simp: lookup_def entry_outcome_def mx_scope_def dget_load_scopes split: option.splits)
qed

lemma lookup_first_match:
  assumes "List.find (\<lambda>e. matches e st ctx) (mx_entries m) = Some e" "lookup m st ctx = Inr out"
  shows "mo_rule_id out = me_rule_id e \<and> mo_action out = me_action e \<and> mo_matched out"
  using assms by (auto simp: lookup_def entry_outcome_def and_then_Inr_iff)

lemma evaluate_policy_fields:
  "evaluate_policy m did t0 t1 ev ctx strategy extra = Inr d \<Longrightarrow>
     dc_device_id d = tv_device_id ev \<and> dc_trust_state d = tv_new_state ev
     \<and> dc_transition_context d = ctx \<and> dc_created_at d = tv_evaluated_at ev
     \<and> (\<exists>out. lookup m (tv_new_state ev) ctx = Inr out \<and> dc_action d = mo_action out
          \<and> dc_scope d = resolve (mo_scope out) (tv_device_id ev) \<and> dc_rule_id d = mo_rule_id out)"
  by (auto simp: evaluate_policy_def and_then_Inr_iff)

lemma direct_fields:
  "direct m did t0 t1 clk dev st ctx strategy rs = Inr d \<Longrightarrow>
     dc_device_id d = dev \<and> dc_trust_state d = st
     \<and> dc_transition_context d = ctx \<and> dc_created_at d = clk
     \<and> (\<exists>out. lookup m st ctx = Inr out \<and> dc_action d = mo_action out
          \<and> dc_scope d = resolve (mo_scope out) dev \<and> dc_rule_id d = mo_rule_id out)"
  by (auto simp: direct_def and_then_Inr_iff)

end
