(* ===== verification/Shipped_Config.thy ===== *)
theory Shipped_Config
  imports Policy
begin

text \<open>
  The configuration the repository ships: \<^verbatim>\<open>config/ca_ztcf.yaml\<close>,
  \<^verbatim>\<open>config/policy/policy_matrix.yaml\<close>, \<^verbatim>\<open>config/policy/topic_scopes.yaml\<close> and
  \<^verbatim>\<open>config/strategies/*.yaml\<close>. Shown: it is valid, its matrix loads, covers every pair of state and
  transition context, and decides as the reference table says.
\<close>

section \<open>The shipped values\<close>

definition shipped_rule ::
  "string \<Rightarrow> string \<Rightarrow> string list \<Rightarrow> string \<Rightarrow> string \<Rightarrow> string list \<Rightarrow> policy_rule_definition" where
  "shipped_rule i st ctxs a sp rs =
     \<lparr>rd_id = i, rd_state = st, rd_transition_contexts = ctxs, rd_action = a, rd_scope = sp,
      rd_reason_codes = rs, rd_note = []\<rparr>"

definition shipped_rules :: "policy_rule_definition list" where
  "shipped_rules =
    [shipped_rule ''P01'' ''UNKNOWN'' [''*''] ''DENY'' ''none'' [''REGISTRATION_REQUIRED''],
     shipped_rule ''P02'' ''UNTRUSTED'' [''*''] ''DENY'' ''none'' [''VALIDATION_FAILED''],
     shipped_rule ''P03'' ''SUSPICIOUS'' [''NR_TO_WLAN'', ''WLAN_TO_NR'', ''REPEATED''] ''QUARANTINE''
       ''quarantine'' [''CONTRADICTORY_EVIDENCE'', ''DURING_ACCESS_TRANSITION''],
     shipped_rule ''P04'' ''SUSPICIOUS'' [''NONE'', ''INTRA''] ''REAUTHENTICATE'' ''none''
       [''CONTRADICTORY_EVIDENCE''],
     shipped_rule ''P05'' ''DEGRADED'' [''*''] ''STEP_UP_AUTHENTICATION'' ''step_up_pending''
       [''INCOMPLETE_OR_STALE_EVIDENCE''],
     shipped_rule ''P06'' ''TRANSITIONAL'' [''REPEATED''] ''STEP_UP_AUTHENTICATION'' ''step_up_pending''
       [''REPEATED_TRANSITION''],
     shipped_rule ''P07'' ''TRANSITIONAL'' [''NR_TO_WLAN'', ''WLAN_TO_NR''] ''ALLOW_WITH_RESTRICTIONS''
       ''restricted'' [''ACCESS_DOMAIN_TRANSITION''],
     shipped_rule ''P08'' ''TRANSITIONAL'' [''INTRA''] ''ALLOW_WITH_RESTRICTIONS'' ''restricted''
       [''INTRA_DOMAIN_REBINDING''],
     shipped_rule ''P09'' ''TRANSITIONAL'' [''NONE''] ''ALLOW_WITH_RESTRICTIONS'' ''restricted''
       [''TRANSITION_EVIDENCE_SETTLING''],
     shipped_rule ''P10'' ''STABLE'' [''NONE'', ''INTRA''] ''ALLOW'' ''full'' [''EVIDENCE_CONSISTENT''],
     shipped_rule ''P11'' ''STABLE'' [''*''] ''ALLOW_WITH_RESTRICTIONS'' ''restricted''
       [''UNEXPECTED_TRANSITION_CONTEXT_FOR_STABLE'']]"

definition shipped_scopes :: "(string, scope_definition) dict" where
  "shipped_scopes =
    [(''full'', \<lparr>sc_description = [],
        sc_allow = [''dev/{device_id}/#'', ''cmd/{device_id}/#'', ''shared/telemetry/#''], sc_deny = []\<rparr>),
     (''restricted'', \<lparr>sc_description = [],
        sc_allow = [''dev/{device_id}/telemetry/#'', ''dev/{device_id}/status''],
        sc_deny = [''cmd/#'', ''shared/#'']\<rparr>),
     (''step_up_pending'', \<lparr>sc_description = [],
        sc_allow = [''ctl/{device_id}/challenge'', ''ctl/{device_id}/response''], sc_deny = []\<rparr>),
     (''quarantine'', \<lparr>sc_description = [], sc_allow = [''q/{device_id}/#''], sc_deny = []\<rparr>),
     (''none'', \<lparr>sc_description = [], sc_allow = [], sc_deny = []\<rparr>)]"

definition shipped_ttl_ms :: "(string, int) dict" where
  "shipped_ttl_ms =
    [(''ALLOW'', 60000), (''ALLOW_WITH_RESTRICTIONS'', 10000), (''STEP_UP_AUTHENTICATION'', 10000),
     (''REAUTHENTICATE'', 0), (''QUARANTINE'', 30000), (''DENY'', 0)]"

definition shipped_strategies :: "(string, strategy_definition) dict" where
  "shipped_strategies =
    [(''ca_ztcf'', \<lparr>sd_name = ''ca_ztcf'', sd_kind = K_CA_ZTCF, sd_parameters = []\<rparr>),
     (''independent'', \<lparr>sd_name = ''independent'', sd_kind = K_INDEPENDENT,
        sd_parameters = [(''proof_of_possession_ttl_s'', 300)]\<rparr>),
     (''static_continuity'', \<lparr>sd_name = ''static_continuity'', sd_kind = K_STATIC_CONTINUITY,
        sd_parameters = [(''token_ttl_s'', 300)]\<rparr>),
     (''static_continuity_ttl1800'', \<lparr>sd_name = ''static_continuity_ttl1800'', sd_kind = K_STATIC_CONTINUITY,
        sd_parameters = [(''token_ttl_s'', 1800)]\<rparr>),
     (''static_continuity_ttl30'', \<lparr>sd_name = ''static_continuity_ttl30'', sd_kind = K_STATIC_CONTINUITY,
        sd_parameters = [(''token_ttl_s'', 30)]\<rparr>)]"

definition shipped_redact_keys :: "string list" where
  "shipped_redact_keys =
    [''private_key'', ''private_key_pem'', ''password'', ''passphrase'', ''secret'', ''token'',
     ''credential'', ''credentials'', ''eap_secret'', ''psk'', ''pmk'', ''ptk'', ''kausf'', ''kseaf'',
     ''opc'', ''ki'', ''supi'', ''imsi'', ''authorization'']"

definition shipped_posture :: posture_settings where
  "shipped_posture =
    \<lparr>po_nr = \<lparr>np_allowed_gnb_ids = [], np_allowed_dnns = [], np_allowed_rat_types = [''NR''],
        np_required_registration_states = [''REGISTERED''], np_require_active_pdu_session = True\<rparr>,
     po_wlan = \<lparr>wp_allowed_ssids = [], wp_allowed_bssids = [],
        wp_allowed_akms = [''WPA2-EAP'', ''WPA3-EAP'', ''WPA3-SAE''], wp_require_eap_success = True\<rparr>\<rparr>"

text \<open>The hash is the digest of the whole tree; any value serves here.\<close>

definition shipped_settings :: "string \<Rightarrow> settings" where
  "shipped_settings h =
    \<lparr>st_service = \<lparr>sv_name = ''ca-ztcf'', sv_environment = ''development'', sv_host = ''0.0.0.0'', sv_port = 8080\<rparr>,
     st_evidence = \<lparr>es_proof_of_possession_ttl_s = 300, es_nonce_ttl_s = 60, es_binding_freshness_max_s = 30,
        es_evidence_completeness_required =
          [''identity_registered'', ''identity_enabled'', ''binding_present'', ''current_domain'']\<rparr>,
     st_transition = \<lparr>ts_transition_window_s = 20, ts_stability_window_s = 20, ts_rate_window_s = 60,
        ts_max_transitions_per_window = 4, ts_repeat_threshold = 3\<rparr>,
     st_security = \<lparr>ss_authn_failure_window_s = 300, ss_max_authn_failures = 5, ss_cooldown_s = 120\<rparr>,
     st_posture = shipped_posture,
     st_policy = \<lparr>pl_ttl_ms = shipped_ttl_ms\<rparr>,
     st_privacy = \<lparr>pv_identifier_hash_length = 16\<rparr>,
     st_audit = \<lparr>as_enabled = True, as_path = ''artifacts/audit/decisions.jsonl'',
        as_redact_keys = shipped_redact_keys\<rparr>,
     st_strategies = shipped_strategies,
     st_scopes = shipped_scopes,
     st_policy_matrix = \<lparr>md_version = 1, md_default_action = ''DENY'', md_default_scope = ''none'',
        md_default_reason_codes = [''NO_MATCHING_POLICY_RULE''], md_rules = shipped_rules\<rparr>,
     st_config_hash = h\<rparr>"

section \<open>What the matrix decides\<close>

text \<open>The reference: action and scope per state and context, as the comments of the file describe it.\<close>

fun policy_table :: "trust_state \<Rightarrow> transition_context \<Rightarrow> policy_action \<times> string" where
  "policy_table UNKNOWN _ = (DENY, ''none'')"
| "policy_table UNTRUSTED _ = (DENY, ''none'')"
| "policy_table SUSPICIOUS ctx =
     (if ctx \<in> {NR_TO_WLAN, WLAN_TO_NR, REPEATED} then (QUARANTINE, ''quarantine'') else (REAUTHENTICATE, ''none''))"
| "policy_table DEGRADED _ = (STEP_UP_AUTHENTICATION, ''step_up_pending'')"
| "policy_table TRANSITIONAL ctx =
     (if ctx = REPEATED then (STEP_UP_AUTHENTICATION, ''step_up_pending'')
      else (ALLOW_WITH_RESTRICTIONS, ''restricted''))"
| "policy_table STABLE ctx =
     (if ctx \<in> {CtxNone, INTRA} then (ALLOW, ''full'') else (ALLOW_WITH_RESTRICTIONS, ''restricted''))"

definition shipped_entry ::
  "string \<Rightarrow> trust_state \<Rightarrow> transition_context list option \<Rightarrow> policy_action \<Rightarrow> string \<Rightarrow> string list \<Rightarrow> matrix_entry" where
  "shipped_entry i st ctxs a sp rs =
     \<lparr>me_rule_id = i, me_state = st, me_transition_contexts = ctxs, me_action = a, me_scope_name = sp,
      me_reason_codes = rs, me_note = []\<rparr>"

definition shipped_entries :: "matrix_entry list" where
  "shipped_entries =
    [shipped_entry ''P01'' UNKNOWN None DENY ''none'' [''REGISTRATION_REQUIRED''],
     shipped_entry ''P02'' UNTRUSTED None DENY ''none'' [''VALIDATION_FAILED''],
     shipped_entry ''P03'' SUSPICIOUS (Some [NR_TO_WLAN, WLAN_TO_NR, REPEATED]) QUARANTINE
       ''quarantine'' [''CONTRADICTORY_EVIDENCE'', ''DURING_ACCESS_TRANSITION''],
     shipped_entry ''P04'' SUSPICIOUS (Some [CtxNone, INTRA]) REAUTHENTICATE ''none'' [''CONTRADICTORY_EVIDENCE''],
     shipped_entry ''P05'' DEGRADED None STEP_UP_AUTHENTICATION ''step_up_pending'' [''INCOMPLETE_OR_STALE_EVIDENCE''],
     shipped_entry ''P06'' TRANSITIONAL (Some [REPEATED]) STEP_UP_AUTHENTICATION ''step_up_pending'' [''REPEATED_TRANSITION''],
     shipped_entry ''P07'' TRANSITIONAL (Some [NR_TO_WLAN, WLAN_TO_NR]) ALLOW_WITH_RESTRICTIONS
       ''restricted'' [''ACCESS_DOMAIN_TRANSITION''],
     shipped_entry ''P08'' TRANSITIONAL (Some [INTRA]) ALLOW_WITH_RESTRICTIONS ''restricted'' [''INTRA_DOMAIN_REBINDING''],
     shipped_entry ''P09'' TRANSITIONAL (Some [CtxNone]) ALLOW_WITH_RESTRICTIONS ''restricted'' [''TRANSITION_EVIDENCE_SETTLING''],
     shipped_entry ''P10'' STABLE (Some [CtxNone, INTRA]) ALLOW ''full'' [''EVIDENCE_CONSISTENT''],
     shipped_entry ''P11'' STABLE None ALLOW_WITH_RESTRICTIONS ''restricted''
       [''UNEXPECTED_TRANSITION_CONTEXT_FOR_STABLE'']]"

definition shipped_matrix :: "string \<Rightarrow> policy_matrix" where
  "shipped_matrix h =
     \<lparr>mx_settings = shipped_settings h, mx_scopes = load_scopes (shipped_settings h),
      mx_entries = shipped_entries,
      mx_default = shipped_entry ''DEFAULT'' UNTRUSTED None DENY ''none'' [''NO_MATCHING_POLICY_RULE'']\<rparr>"

lemma shipped_fields [simp]:
  "st_scopes (shipped_settings h) = shipped_scopes"
  "md_rules (st_policy_matrix (shipped_settings h)) = shipped_rules"
  "pl_ttl_ms (st_policy (shipped_settings h)) = shipped_ttl_ms"
  "st_config_hash (shipped_settings h) = h"
  by (simp_all add: shipped_settings_def)

lemma shipped_settings_valid: "settings_valid (shipped_settings h)"
  by (simp add: shipped_settings_def settings_valid_def service_valid_def evidence_valid_def
      transition_valid_def security_valid_def policy_valid_def privacy_valid_def shipped_ttl_ms_def)

lemma shipped_evidence_valid [simp]: "evidence_valid (st_evidence (shipped_settings h))"
  using shipped_settings_valid [of h] by (simp add: settings_valid_def)

lemma shipped_cross_validated: "cross_validate (shipped_settings h) = Inr ()"
  by (simp add: cross_validate_iff shipped_settings_def shipped_scopes_def shipped_rules_def
      shipped_rule_def shipped_ttl_ms_def shipped_strategies_def)

lemma shipped_load_entries: "load_entries shipped_rules [] = Inr shipped_entries"
  by code_simp

lemma shipped_matrix_loads: "new_policy_matrix (shipped_settings h) = Inr (shipped_matrix h)"
proof -
  have "load_default (shipped_settings h)
      = Inr (shipped_entry ''DEFAULT'' UNTRUSTED None DENY ''none'' [''NO_MATCHING_POLICY_RULE''])"
    using parse_action_value [of DENY]
    by (simp add: load_default_def shipped_settings_def shipped_entry_def)
  moreover have "shipped_entries \<noteq> []" by (simp add: shipped_entries_def)
  ultimately show ?thesis
    by (simp add: new_policy_matrix_Inr shipped_load_entries shipped_matrix_def)
qed

text \<open>The scope of a name, and the time-to-live of an action.\<close>

definition shipped_scope :: "string \<Rightarrow> access_scope" where
  "shipped_scope n = (case dget shipped_scopes n of
     None \<Rightarrow> \<lparr>sp_name = n, sp_description = [], sp_allow = [], sp_deny = []\<rparr>
   | Some d \<Rightarrow> \<lparr>sp_name = n, sp_description = sc_description d, sp_allow = sc_allow d, sp_deny = sc_deny d\<rparr>)"

lemma shipped_mx_scope:
  "n \<in> set [''full'', ''restricted'', ''step_up_pending'', ''quarantine'', ''none''] \<Longrightarrow>
     mx_scope (shipped_matrix h) n = Inr (shipped_scope n)"
  by (auto simp: mx_scope_def shipped_matrix_def load_scopes_def shipped_scopes_def shipped_scope_def)

lemma shipped_find:
  "\<exists>e. List.find (\<lambda>e. matches e st ctx) shipped_entries = Some e
     \<and> (me_action e, me_scope_name e) = policy_table st ctx"
  by (cases st; cases ctx) (simp_all add: shipped_entries_def shipped_entry_def matches_def)

lemma policy_table_scope:
  "snd (policy_table st ctx) \<in> set [''full'', ''restricted'', ''step_up_pending'', ''quarantine'', ''none'']"
  by (cases st) auto

lemma shipped_lookup:
  "\<exists>out. lookup (shipped_matrix h) st ctx = Inr out \<and> mo_matched out
     \<and> mo_action out = fst (policy_table st ctx)
     \<and> mo_scope out = shipped_scope (snd (policy_table st ctx))"
proof -
  from shipped_find [of st ctx] obtain e where
    e: "List.find (\<lambda>e. matches e st ctx) shipped_entries = Some e"
      "me_action e = fst (policy_table st ctx)" "me_scope_name e = snd (policy_table st ctx)"
    by (metis fst_conv snd_conv)
  have "mx_entries (shipped_matrix h) = shipped_entries" by (simp add: shipped_matrix_def)
  then show ?thesis
    using e shipped_mx_scope [OF policy_table_scope, of h st ctx]
    by (simp add: lookup_def entry_outcome_def)
qed

lemma shipped_ttl: "\<exists>t \<ge> 0. mx_ttl_ms (shipped_matrix h) a = Inr t \<and> (t = 0 \<longleftrightarrow> a \<in> set TERMINATING_ACTIONS)"
  by (cases a) (simp_all add: mx_ttl_ms_def shipped_matrix_def shipped_ttl_ms_def TERMINATING_ACTIONS_def)

end
