(* ===== verification/Enforcement.thy ===== *)
theory Enforcement
  imports Shipped_Config
begin

text \<open>
  Enforcement of decisions: topic filters (\<^verbatim>\<open>src/ca_ztcf/enforcement/interface.py\<close>), the
  in-memory enforcement point (\<^verbatim>\<open>enforcement/memory_pep.py\<close>) and the scope test of the MQTT
  gateway (\<^verbatim>\<open>enforcement/mqtt_gateway.py\<close>, \<open>scope_permits\<close>). The clock reading is an argument.

  Shown: topic matching agrees with a declarative reading of MQTT filters; both scope tests are a
  deny-wins, default-deny guard (locale \<open>scope_guard\<close>); the enforcement point permits an operation
  exactly when a live, non-terminating decision covers it; and, for filters without \<open>+\<close>, what a
  granted subscription can deliver was permitted to be published.
\<close>

declare map_of_eq_Some_iff [simp del]

section \<open>Topic filters\<close>

fun match_levels :: "string list \<Rightarrow> string list \<Rightarrow> bool" where
  "match_levels [] ts \<longleftrightarrow> ts = []"
| "match_levels (p # ps) ts \<longleftrightarrow>
     (if p = ''#'' then ps = []
      else (case ts of
          [] \<Rightarrow> False
        | t # ts' \<Rightarrow> (if p = ''+'' \<or> p = t then match_levels ps ts' else False)))"

definition topic_matches :: "string \<Rightarrow> string \<Rightarrow> bool" where
  "topic_matches pattern topic =
     (if pattern = ''#'' then True
      else match_levels (split_on (CHR ''/'') pattern) (split_on (CHR ''/'') topic))"

text \<open>
  The declarative reading: level by level, \<open>+\<close> for any one level; a final \<open>#\<close> for any number of
  further levels; a \<open>#\<close> anywhere else matches nothing.
\<close>

definition level_matches :: "string \<Rightarrow> string \<Rightarrow> bool" where
  "level_matches p t \<longleftrightarrow> p \<noteq> ''#'' \<and> (p = ''+'' \<or> p = t)"

definition levels_spec :: "string list \<Rightarrow> string list \<Rightarrow> bool" where
  "levels_spec ps ts \<longleftrightarrow>
     list_all2 level_matches ps ts
     \<or> (\<exists>qs us vs. ps = qs @ [''#''] \<and> ts = us @ vs \<and> list_all2 level_matches qs us)"

lemma levels_spec_Cons:
  assumes "p \<noteq> ''#''"
  shows "levels_spec (p # ps) ts \<longleftrightarrow> (\<exists>t ts'. ts = t # ts' \<and> level_matches p t \<and> levels_spec ps ts')"
proof
  assume "levels_spec (p # ps) ts"
  then consider "list_all2 level_matches (p # ps) ts"
    | qs us vs where "p # ps = qs @ [''#'']" "ts = us @ vs" "list_all2 level_matches qs us"
    unfolding levels_spec_def by blast
  then show "\<exists>t ts'. ts = t # ts' \<and> level_matches p t \<and> levels_spec ps ts'"
  proof cases
    case 1
    then show ?thesis by (auto simp: list_all2_Cons1 levels_spec_def)
  next
    case (2 qs us vs)
    with assms obtain qs' where "qs = p # qs'" "ps = qs' @ [''#'']"
      by (cases qs) auto
    with 2 show ?thesis by (auto simp: list_all2_Cons1 levels_spec_def) blast
  qed
next
  assume "\<exists>t ts'. ts = t # ts' \<and> level_matches p t \<and> levels_spec ps ts'"
  then obtain t ts' where t: "ts = t # ts'" "level_matches p t" "levels_spec ps ts'" by blast
  from t(3) consider "list_all2 level_matches ps ts'"
    | qs us vs where "ps = qs @ [''#'']" "ts' = us @ vs" "list_all2 level_matches qs us"
    unfolding levels_spec_def by blast
  then show "levels_spec (p # ps) ts"
  proof cases
    case 1
    with t show ?thesis by (simp add: levels_spec_def)
  next
    case (2 qs us vs)
    with t have "p # ps = (p # qs) @ [''#'']" "ts = (t # us) @ vs" "list_all2 level_matches (p # qs) (t # us)"
      by simp_all
    then show ?thesis unfolding levels_spec_def by blast
  qed
qed

lemma levels_spec_hash: "levels_spec (''#'' # ps) ts \<longleftrightarrow> ps = []"
proof
  assume "levels_spec (''#'' # ps) ts"
  then consider "list_all2 level_matches (''#'' # ps) ts"
    | qs us where "''#'' # ps = qs @ [''#'']" "list_all2 level_matches qs us"
    unfolding levels_spec_def by blast
  then show "ps = []"
  proof cases
    case 1
    then show ?thesis by (simp add: list_all2_Cons1 level_matches_def)
  next
    case (2 qs us)
    then show ?thesis by (cases qs) (auto simp: list_all2_Cons1 level_matches_def)
  qed
next
  assume "ps = []"
  then have "''#'' # ps = [] @ [''#'']" "ts = [] @ ts" "list_all2 level_matches [] []" by simp_all
  then show "levels_spec (''#'' # ps) ts" unfolding levels_spec_def by blast
qed

lemma match_levels_Cons:
  "p \<noteq> ''#'' \<Longrightarrow> match_levels (p # ps) ts \<longleftrightarrow>
     (\<exists>t ts'. ts = t # ts' \<and> (p = ''+'' \<or> p = t) \<and> match_levels ps ts')"
  by (cases ts) auto

lemma match_levels_spec: "match_levels ps ts = levels_spec ps ts"
proof (induction ps arbitrary: ts)
  case Nil
  show ?case by (auto simp: levels_spec_def)
next
  case (Cons p ps)
  show ?case
  proof (cases "p = ''#''")
    case True
    then show ?thesis by (simp add: levels_spec_hash)
  next
    case False
    then show ?thesis
      by (simp add: levels_spec_Cons match_levels_Cons Cons level_matches_def del: match_levels.simps)
  qed
qed

lemma topic_matches_levels:
  "topic_matches pattern topic = match_levels (split_on (CHR ''/'') pattern) (split_on (CHR ''/'') topic)"
  by (simp add: topic_matches_def)

lemma topic_matches_spec:
  "topic_matches pattern topic = levels_spec (split_on (CHR ''/'') pattern) (split_on (CHR ''/'') topic)"
  by (simp add: topic_matches_levels match_levels_spec)

text \<open>
  A pattern without \<open>+\<close> that matches a filter read as a topic covers whatever the filter covers.
\<close>

lemma match_levels_contains:
  assumes "''+'' \<notin> set ps" "match_levels ps fs" "match_levels fs ts"
  shows "match_levels ps ts"
  using assms
proof (induction ps arbitrary: fs ts)
  case Nil
  then show ?case by simp
next
  case (Cons p ps)
  show ?case
  proof (cases "p = ''#''")
    case True
    with Cons show ?thesis by simp
  next
    case False
    have plus: "p \<noteq> ''+''" using Cons.prems(1) by auto
    with False Cons.prems(2) obtain fs' where fs: "fs = p # fs'" "match_levels ps fs'"
      by (auto simp: match_levels_Cons simp del: match_levels.simps)
    with False plus Cons.prems(3) obtain ts' where ts: "ts = p # ts'" "match_levels fs' ts'"
      by (auto simp: match_levels_Cons simp del: match_levels.simps)
    have "match_levels ps ts'"
      by (rule Cons.IH [OF _ fs(2) ts(2)]) (use Cons.prems(1) in simp)
    with False ts show ?thesis by simp
  qed
qed

definition plus_free :: "string \<Rightarrow> bool" where
  "plus_free p \<longleftrightarrow> ''+'' \<notin> set (split_on (CHR ''/'') p)"

lemma topic_matches_contains:
  assumes "plus_free p" "topic_matches p f" "topic_matches f t"
  shows "topic_matches p t"
  using assms match_levels_contains unfolding topic_matches_levels plus_free_def by blast

section \<open>Requests and results\<close>

datatype resource_operation = CONNECT | PUBLISH | SUBSCRIBE

record enforcement_request =
  eq_device_id :: string
  eq_operation :: resource_operation
  eq_resource :: string

record enforcement_result =
  el_device_id :: string
  el_permitted :: bool
  el_reason :: string
  el_action :: "policy_action option"
  el_decision_id :: "string option"
  el_evaluated_at :: instant

section \<open>The in-memory enforcement point\<close>

record memory_pep =
  mp_decisions :: "(string, decision) dict"
  mp_last :: "(string, decision) dict"

definition new_pep :: memory_pep where
  "new_pep = \<lparr>mp_decisions = [], mp_last = []\<rparr>"

definition apply_decision :: "memory_pep \<Rightarrow> decision \<Rightarrow> memory_pep" where
  "apply_decision p d =
     (if dc_action d \<in> set TERMINATING_ACTIONS then
        p\<lparr>mp_decisions := dpop (dc_device_id d) (mp_decisions p),
          mp_last := dset (dc_device_id d) d (mp_last p)\<rparr>
      else
        p\<lparr>mp_decisions := dset (dc_device_id d) d (mp_decisions p),
          mp_last := dset (dc_device_id d) d (mp_last p)\<rparr>)"

definition decision_expired :: "instant \<Rightarrow> decision \<Rightarrow> bool" where
  "decision_expired now d =
     (if dc_ttl_ms d \<le> 0 then True else now > dc_created_at d + milliseconds (dc_ttl_ms d))"

definition active_decision :: "instant \<Rightarrow> memory_pep \<Rightarrow> string \<Rightarrow> decision option \<times> memory_pep" where
  "active_decision now p dev =
     (case dget (mp_decisions p) dev of
        None \<Rightarrow> (None, p)
      | Some d \<Rightarrow>
          if decision_expired now d then (None, p\<lparr>mp_decisions := dpop dev (mp_decisions p)\<rparr>)
          else (Some d, p))"

definition revoke :: "memory_pep \<Rightarrow> string \<Rightarrow> memory_pep" where
  "revoke p dev = p\<lparr>mp_decisions := dpop dev (mp_decisions p)\<rparr>"

definition verdict ::
  "enforcement_request \<Rightarrow> decision \<Rightarrow> instant \<Rightarrow> bool \<Rightarrow> string \<Rightarrow> enforcement_result" where
  "verdict rq d now permitted reason =
     \<lparr>el_device_id = eq_device_id rq, el_permitted = permitted, el_reason = reason,
      el_action = Some (dc_action d), el_decision_id = Some (dc_decision_id d), el_evaluated_at = now\<rparr>"

definition refusal_without_decision ::
  "enforcement_request \<Rightarrow> decision option \<Rightarrow> instant \<Rightarrow> enforcement_result" where
  "refusal_without_decision rq last_seen now =
     (case last_seen of
        None \<Rightarrow> \<lparr>el_device_id = eq_device_id rq, el_permitted = False, el_reason = ''NO_ACTIVE_DECISION'',
                 el_action = None, el_decision_id = None, el_evaluated_at = now\<rparr>
      | Some d \<Rightarrow> verdict rq d now False
          (if dc_action d \<in> set TERMINATING_ACTIONS then ''ACTION_'' @ action_value (dc_action d)
           else ''DECISION_EXPIRED''))"

text \<open>The part of \<open>check\<close> after a live decision was found.\<close>

definition check_active :: "instant \<Rightarrow> decision \<Rightarrow> enforcement_request \<Rightarrow> enforcement_result" where
  "check_active now d rq =
     (if dc_action d = ALLOW \<and> eq_operation rq = CONNECT then verdict rq d now True ''ALLOWED''
      else if eq_operation rq = CONNECT then
        verdict rq d now True (''CONNECT_UNDER_'' @ action_value (dc_action d))
      else
        (case List.find (\<lambda>p. topic_matches p (eq_resource rq)) (sp_deny (dc_scope d)) of
           Some p \<Rightarrow> verdict rq d now False (''DENIED_BY_SCOPE:'' @ sp_name (dc_scope d) @ '':'' @ p)
         | None \<Rightarrow>
             (case List.find (\<lambda>p. topic_matches p (eq_resource rq)) (sp_allow (dc_scope d)) of
                Some p \<Rightarrow> verdict rq d now True (''ALLOWED_BY_SCOPE:'' @ sp_name (dc_scope d))
              | None \<Rightarrow> verdict rq d now False (''NOT_IN_SCOPE:'' @ sp_name (dc_scope d)))))"

definition check :: "instant \<Rightarrow> memory_pep \<Rightarrow> enforcement_request \<Rightarrow> enforcement_result \<times> memory_pep" where
  "check now p rq =
     (case active_decision now p (eq_device_id rq) of
        (None, p') \<Rightarrow> (refusal_without_decision rq (dget (mp_last p') (eq_device_id rq)) now, p')
      | (Some d, p') \<Rightarrow> (check_active now d rq, p'))"

definition reset_pep :: "memory_pep \<Rightarrow> memory_pep" where
  "reset_pep p = p\<lparr>mp_decisions := [], mp_last := []\<rparr>"

section \<open>The scope test of the gateway\<close>

definition scope_permits :: "decision \<Rightarrow> string \<Rightarrow> bool \<times> string" where
  "scope_permits d topic =
     (case List.find (\<lambda>p. topic_matches p topic) (sp_deny (dc_scope d)) of
        Some p \<Rightarrow> (False, ''DENIED_BY_SCOPE:'' @ sp_name (dc_scope d) @ '':'' @ p)
      | None \<Rightarrow>
          (case List.find (\<lambda>p. topic_matches p topic) (sp_allow (dc_scope d)) of
             Some p \<Rightarrow> (True, ''ALLOWED_BY_SCOPE:'' @ sp_name (dc_scope d))
           | None \<Rightarrow> (False, ''NOT_IN_SCOPE:'' @ sp_name (dc_scope d))))"

section \<open>Deny wins, default is deny\<close>

locale scope_guard =
  fixes permitted :: "decision \<Rightarrow> string \<Rightarrow> bool"
  assumes deny_wins: "p \<in> set (sp_deny (dc_scope d)) \<Longrightarrow> topic_matches p t \<Longrightarrow> \<not> permitted d t"
    and default_deny: "permitted d t \<Longrightarrow> \<exists>p \<in> set (sp_allow (dc_scope d)). topic_matches p t"
    and allowed: "p \<in> set (sp_allow (dc_scope d)) \<Longrightarrow> topic_matches p t
       \<Longrightarrow> \<forall>q \<in> set (sp_deny (dc_scope d)). \<not> topic_matches q t \<Longrightarrow> permitted d t"
begin

lemma permitted_iff:
  "permitted d t \<longleftrightarrow> (\<exists>p \<in> set (sp_allow (dc_scope d)). topic_matches p t)
     \<and> (\<forall>q \<in> set (sp_deny (dc_scope d)). \<not> topic_matches q t)"
  using deny_wins default_deny allowed by blast

lemma empty_allow: "sp_allow (dc_scope d) = [] \<Longrightarrow> \<not> permitted d t"
  using default_deny by fastforce

text \<open>A granted filter delivers only permitted topics, as far as the deny patterns leave them alone.\<close>

lemma granted_filter_contained:
  assumes "permitted d f" "\<forall>p \<in> set (sp_allow (dc_scope d)). plus_free p"
    and "topic_matches f t" "\<forall>q \<in> set (sp_deny (dc_scope d)). \<not> topic_matches q t"
  shows "permitted d t"
  using assms topic_matches_contains by (meson permitted_iff)

text \<open>Widening the allow list or shrinking the deny list never takes a permission away.\<close>

lemma permitted_mono:
  assumes "permitted d t" "set (sp_allow (dc_scope d)) \<subseteq> set (sp_allow (dc_scope d'))"
    and "set (sp_deny (dc_scope d')) \<subseteq> set (sp_deny (dc_scope d))"
  shows "permitted d' t"
  using assms by (auto simp: permitted_iff)

end

lemma find_None_all: "List.find P xs = None \<longleftrightarrow> (\<forall>x \<in> set xs. \<not> P x)"
  by (auto simp: find_None_iff)

lemma find_Some_ex: "(\<exists>x. List.find P xs = Some x) \<longleftrightarrow> (\<exists>x \<in> set xs. P x)"
  by (metis find_None_all not_Some_eq)

lemma verdict_permitted [simp]: "el_permitted (verdict rq d now b r) = b"
  by (simp add: verdict_def)

interpretation gateway_scope: scope_guard "\<lambda>d t. fst (scope_permits d t)"
  by unfold_locales
    (auto simp: scope_permits_def find_None_all split: option.splits if_splits dest: find_Some)

interpretation pep_scope: scope_guard
  "\<lambda>d t. el_permitted (check_active now d \<lparr>eq_device_id = dev, eq_operation = PUBLISH, eq_resource = t\<rparr>)"
  by unfold_locales
    (auto simp: check_active_def find_None_all split: option.splits if_splits dest: find_Some)

section \<open>Invariant and permissions of the enforcement point\<close>

text \<open>
  Decisions are filed under their device; only non-terminating ones are installed, and the installed
  one is the last one seen.
\<close>

definition pep_ok :: "memory_pep \<Rightarrow> bool" where
  "pep_ok p \<longleftrightarrow> dict_ok (mp_decisions p) \<and> dict_ok (mp_last p)
     \<and> dict_all (\<lambda>dev d. dc_device_id d = dev) (mp_last p)
     \<and> dict_all (\<lambda>dev d. dc_action d \<notin> set TERMINATING_ACTIONS \<and> dget (mp_last p) dev = Some d) (mp_decisions p)"

lemma pep_ok_new [simp]: "pep_ok new_pep"
  by (simp add: pep_ok_def new_pep_def)

lemma dict_all_mono: "dict_all P d \<Longrightarrow> (\<And>k v. (k, v) \<in> set d \<Longrightarrow> P k v \<Longrightarrow> Q k v) \<Longrightarrow> dict_all Q d"
  by (auto simp: dict_all_def)

lemma dict_all_dpop_key: "dict_all P d \<Longrightarrow> dict_all (\<lambda>k v. k \<noteq> x \<and> P k v) (dpop x d)"
  by (induction d) (auto simp: dict_all_def)

lemma apply_decision_ok: "pep_ok p \<Longrightarrow> pep_ok (apply_decision p d)"
proof -
  assume ok: "pep_ok p"
  let ?P = "\<lambda>dev d. dc_action d \<notin> set TERMINATING_ACTIONS \<and> dget (mp_last p) dev = Some d"
  have "dict_all ?P (mp_decisions p)" using ok by (simp add: pep_ok_def)
  from dict_all_dpop_key [OF this, of "dc_device_id d"]
  have pop: "dict_all (\<lambda>dev x. dev \<noteq> dc_device_id d \<and> ?P dev x) (dpop (dc_device_id d) (mp_decisions p))" .
  have set: "dict_all (\<lambda>dev x. dc_action x \<notin> set TERMINATING_ACTIONS
        \<and> dget (dset (dc_device_id d) d (mp_last p)) dev = Some x) (dset (dc_device_id d) d (mp_decisions p))"
    if "dc_action d \<notin> set TERMINATING_ACTIONS"
    using ok that unfolding pep_ok_def
    by (subst dict_all_iff) (auto simp: dict_all_iff)
  show ?thesis
    using ok pop set
    by (auto simp: apply_decision_def pep_ok_def intro!: dict_all_dset elim: dict_all_mono)
qed

lemma active_decision_ok: "pep_ok p \<Longrightarrow> pep_ok (snd (active_decision now p dev))"
  by (auto simp: active_decision_def pep_ok_def split: option.split intro!: dict_all_dpop)

lemma check_ok: "pep_ok p \<Longrightarrow> pep_ok (snd (check now p rq))"
  using active_decision_ok [of p now "eq_device_id rq"]
  by (auto simp: check_def split: prod.split option.split)

lemma revoke_ok: "pep_ok p \<Longrightarrow> pep_ok (revoke p dev)"
  by (auto simp: revoke_def pep_ok_def intro!: dict_all_dpop)

lemma active_decision_Some_iff:
  "fst (active_decision now p dev) = Some d \<longleftrightarrow>
     dget (mp_decisions p) dev = Some d \<and> \<not> decision_expired now d"
  by (auto simp: active_decision_def split: option.split)

lemma check_active_permitted_iff:
  "el_permitted (check_active now d rq) \<longleftrightarrow>
     eq_operation rq = CONNECT \<or> fst (scope_permits d (eq_resource rq))"
  by (auto simp: check_active_def scope_permits_def split: option.split)

lemma refusal_refuses [simp]: "\<not> el_permitted (refusal_without_decision rq l now)"
  by (simp add: refusal_without_decision_def split: option.split)

lemma check_permitted_iff:
  "el_permitted (fst (check now p rq)) \<longleftrightarrow>
     (\<exists>d. dget (mp_decisions p) (eq_device_id rq) = Some d \<and> \<not> decision_expired now d
        \<and> (eq_operation rq = CONNECT
           \<or> ((\<exists>q \<in> set (sp_allow (dc_scope d)). topic_matches q (eq_resource rq))
              \<and> (\<forall>q \<in> set (sp_deny (dc_scope d)). \<not> topic_matches q (eq_resource rq)))))"
  by (auto simp: check_def active_decision_def check_active_permitted_iff gateway_scope.permitted_iff
      split: option.split)

lemma terminating_refuses:
  "dc_action d \<in> set TERMINATING_ACTIONS \<Longrightarrow> eq_device_id rq = dc_device_id d \<Longrightarrow>
     \<not> el_permitted (fst (check now (apply_decision p d) rq))"
  by (simp add: check_permitted_iff apply_decision_def)

text \<open>A sequence of decisions and checks: what is permitted rests on the last decision of the device.\<close>

lemma apply_decision_last:
  "dget (mp_last (apply_decision p d)) dev = (if dev = dc_device_id d then Some d else dget (mp_last p) dev)"
  by (simp add: apply_decision_def)

lemma check_keeps_last: "mp_last (snd (check now p rq)) = mp_last p"
  by (auto simp: check_def active_decision_def split: option.split)

lemma permitted_last:
  assumes "pep_ok p" "el_permitted (fst (check now p rq))"
  shows "\<exists>d. dget (mp_last p) (eq_device_id rq) = Some d \<and> dc_action d \<notin> set TERMINATING_ACTIONS
     \<and> \<not> decision_expired now d"
  using assms by (auto simp: check_permitted_iff pep_ok_def dest: dict_all_dget)

section \<open>Resolved scopes\<close>

lemma py_replace_skip: "pat \<noteq> [] \<Longrightarrow> x \<noteq> hd pat \<Longrightarrow> py_replace pat new (x # s) = x # py_replace pat new s"
  by (subst py_replace.simps) (auto simp: prefix_def neq_Nil_conv)

lemma py_replace_hit: "pat \<noteq> [] \<Longrightarrow> py_replace pat new (pat @ s) = new @ py_replace pat new s"
  by (subst py_replace.simps) simp

lemma py_replace_Nil [simp]: "py_replace pat new [] = []"
  by (subst py_replace.simps) auto

lemma py_replace_none: "pat \<noteq> [] \<Longrightarrow> hd pat \<notin> set s \<Longrightarrow> py_replace pat new s = s"
  by (induction s) (auto simp: py_replace_skip)

lemma py_replace_before:
  "pat \<noteq> [] \<Longrightarrow> hd pat \<notin> set u \<Longrightarrow> py_replace pat new (u @ s) = u @ py_replace pat new s"
  by (induction u) (auto simp: py_replace_skip)

lemma py_replace_once:
  "pat \<noteq> [] \<Longrightarrow> hd pat \<notin> set u \<Longrightarrow> hd pat \<notin> set v \<Longrightarrow>
     py_replace pat new (u @ pat @ v) = u @ new @ v"
  by (simp add: py_replace_before py_replace_hit py_replace_none)

lemma placeholder_facts: "device_placeholder \<noteq> []" "hd device_placeholder = CHR ''{''"
  by (simp_all add: device_placeholder_def)

lemma resolve_pattern:
  assumes "CHR ''{'' \<notin> set u" "CHR ''{'' \<notin> set v"
  shows "py_replace device_placeholder d (u @ device_placeholder @ v) = u @ d @ v"
  using assms by (intro py_replace_once) (simp_all add: placeholder_facts)

lemma resolve_constant: "CHR ''{'' \<notin> set u \<Longrightarrow> py_replace device_placeholder d u = u"
  by (intro py_replace_none) (simp_all add: placeholder_facts)

text \<open>A device identifier the registry accepts has none of the characters topics give a meaning to.\<close>

lemma device_id_plain:
  assumes "device_id_charset d"
  shows "CHR ''/'' \<notin> set d" "CHR ''+'' \<notin> set d" "CHR ''#'' \<notin> set d" "CHR ''{'' \<notin> set d"
proof -
  have "\<not> id_char_allowed (CHR ''/'')" "\<not> id_char_allowed (CHR ''+'')"
    "\<not> id_char_allowed (CHR ''#'')" "\<not> id_char_allowed (CHR ''{'')"
    by (simp_all add: id_char_allowed_def)
  with assms show "CHR ''/'' \<notin> set d" "CHR ''+'' \<notin> set d" "CHR ''#'' \<notin> set d" "CHR ''{'' \<notin> set d"
    by (auto simp: device_id_charset_def list_all_iff)
qed

lemma shipped_patterns:
  "py_replace device_placeholder d ''dev/{device_id}/#'' = ''dev/'' @ d @ ''/#''"
  "py_replace device_placeholder d ''cmd/{device_id}/#'' = ''cmd/'' @ d @ ''/#''"
  "py_replace device_placeholder d ''dev/{device_id}/telemetry/#'' = ''dev/'' @ d @ ''/telemetry/#''"
  "py_replace device_placeholder d ''dev/{device_id}/status'' = ''dev/'' @ d @ ''/status''"
  "py_replace device_placeholder d ''ctl/{device_id}/challenge'' = ''ctl/'' @ d @ ''/challenge''"
  "py_replace device_placeholder d ''ctl/{device_id}/response'' = ''ctl/'' @ d @ ''/response''"
  "py_replace device_placeholder d ''q/{device_id}/#'' = ''q/'' @ d @ ''/#''"
  "py_replace device_placeholder d ''shared/telemetry/#'' = ''shared/telemetry/#''"
  "py_replace device_placeholder d ''cmd/#'' = ''cmd/#''"
  "py_replace device_placeholder d ''shared/#'' = ''shared/#''"
proof -
  show "py_replace device_placeholder d ''dev/{device_id}/#'' = ''dev/'' @ d @ ''/#''"
    using resolve_pattern [of "''dev/''" "''/#''" d] by (simp add: device_placeholder_def)
  show "py_replace device_placeholder d ''cmd/{device_id}/#'' = ''cmd/'' @ d @ ''/#''"
    using resolve_pattern [of "''cmd/''" "''/#''" d] by (simp add: device_placeholder_def)
  show "py_replace device_placeholder d ''dev/{device_id}/telemetry/#'' = ''dev/'' @ d @ ''/telemetry/#''"
    using resolve_pattern [of "''dev/''" "''/telemetry/#''" d] by (simp add: device_placeholder_def)
  show "py_replace device_placeholder d ''dev/{device_id}/status'' = ''dev/'' @ d @ ''/status''"
    using resolve_pattern [of "''dev/''" "''/status''" d] by (simp add: device_placeholder_def)
  show "py_replace device_placeholder d ''ctl/{device_id}/challenge'' = ''ctl/'' @ d @ ''/challenge''"
    using resolve_pattern [of "''ctl/''" "''/challenge''" d] by (simp add: device_placeholder_def)
  show "py_replace device_placeholder d ''ctl/{device_id}/response'' = ''ctl/'' @ d @ ''/response''"
    using resolve_pattern [of "''ctl/''" "''/response''" d] by (simp add: device_placeholder_def)
  show "py_replace device_placeholder d ''q/{device_id}/#'' = ''q/'' @ d @ ''/#''"
    using resolve_pattern [of "''q/''" "''/#''" d] by (simp add: device_placeholder_def)
qed (simp_all add: resolve_constant)

lemma shipped_resolved:
  "sp_allow (resolve (shipped_scope ''full'') d) =
     [''dev/'' @ d @ ''/#'', ''cmd/'' @ d @ ''/#'', ''shared/telemetry/#'']"
  "sp_deny (resolve (shipped_scope ''full'') d) = []"
  "sp_allow (resolve (shipped_scope ''restricted'') d) =
     [''dev/'' @ d @ ''/telemetry/#'', ''dev/'' @ d @ ''/status'']"
  "sp_deny (resolve (shipped_scope ''restricted'') d) = [''cmd/#'', ''shared/#'']"
  "sp_allow (resolve (shipped_scope ''step_up_pending'') d) =
     [''ctl/'' @ d @ ''/challenge'', ''ctl/'' @ d @ ''/response'']"
  "sp_deny (resolve (shipped_scope ''step_up_pending'') d) = []"
  "sp_allow (resolve (shipped_scope ''quarantine'') d) = [''q/'' @ d @ ''/#'']"
  "sp_deny (resolve (shipped_scope ''quarantine'') d) = []"
  "sp_allow (resolve (shipped_scope ''none'') d) = []"
  "sp_deny (resolve (shipped_scope ''none'') d) = []"
  by (simp_all add: resolve_def shipped_scope_def shipped_scopes_def shipped_patterns)

text \<open>Under the shipped scopes a granted filter delivers only topics that may be published.\<close>

lemma split_on_chars: "l \<in> set (split_on c s) \<Longrightarrow> set l \<subseteq> set s"
  by (induction s arbitrary: l) (auto split: if_splits list.splits, blast+)

lemma plus_free_char: "CHR ''+'' \<notin> set p \<Longrightarrow> plus_free p"
  unfolding plus_free_def using split_on_chars [of "''+''" "CHR ''/''" p] by auto

lemma shipped_plus_free:
  assumes "device_id_charset d" "n \<in> set [''full'', ''restricted'', ''step_up_pending'', ''quarantine'', ''none'']"
  shows "\<forall>p \<in> set (sp_allow (resolve (shipped_scope n) d)). plus_free p"
  using assms(2) device_id_plain [OF assms(1)]
  by (auto simp: shipped_resolved intro!: plus_free_char)

text \<open>What a pattern that starts with a fixed level matches starts with that level.\<close>

lemma first_level:
  assumes "CHR ''/'' \<notin> set a" "a \<noteq> ''#''" "a \<noteq> ''+''" "topic_matches (a @ CHR ''/'' # rest) t"
  shows "\<exists>ts. split_on (CHR ''/'') t = a # ts"
  using assms by (auto simp: topic_matches_levels split_on_append_sep match_levels_Cons
      simp del: match_levels.simps)

lemma restricted_denies_disjoint:
  assumes "p \<in> set (sp_allow (resolve (shipped_scope ''restricted'') d))" "topic_matches p t"
    and "q \<in> set (sp_deny (resolve (shipped_scope ''restricted'') d))"
  shows "\<not> topic_matches q t"
proof -
  from assms(1) obtain rest where "p = ''dev'' @ CHR ''/'' # rest"
    by (auto simp: shipped_resolved)
  with assms(2) first_level [of "''dev''" rest t] obtain ts where "split_on (CHR ''/'') t = ''dev'' # ts"
    by auto
  with assms(3) show ?thesis
    by (auto simp: shipped_resolved topic_matches_levels)
qed

lemma granted_filter_shipped:
  assumes "device_id_charset d" "dc_scope dec = resolve (shipped_scope n) d"
    and n: "n \<in> set [''full'', ''restricted'', ''step_up_pending'', ''quarantine'', ''none'']"
    and f: "fst (scope_permits dec f)" and t: "topic_matches f t"
  shows "fst (scope_permits dec t)"
proof (rule gateway_scope.granted_filter_contained [OF f _ t])
  show pf: "\<forall>p \<in> set (sp_allow (dc_scope dec)). plus_free p"
    unfolding assms(2) by (rule shipped_plus_free [OF assms(1) n])
  from f obtain p where p: "p \<in> set (sp_allow (dc_scope dec))" "topic_matches p f"
    by (auto simp: gateway_scope.permitted_iff)
  with pf t have "topic_matches p t" by (blast intro: topic_matches_contains)
  with p n show "\<forall>q \<in> set (sp_deny (dc_scope dec)). \<not> topic_matches q t"
    unfolding assms(2) using restricted_denies_disjoint [of p d t]
    by (auto simp: shipped_resolved)
qed

end
