(* ===== verification/Base64url.thy ===== *)
theory Base64url
  imports Identity
begin

text \<open>
  \<open>_b64url_encode\<close> and \<open>_b64url_decode\<close> of \<^verbatim>\<open>identity/proof.py\<close> (and their copies in
  \<^verbatim>\<open>device/keys.py\<close>), with the part of Python's \<open>base64\<close>/\<open>binascii\<close> they use: the
  encoder with padding, and the lenient decoder, which skips characters outside the alphabet and
  stops at a complete padding sequence. The main result is the round trip of a nonce or a
  signature through its transport form.
\<close>

section \<open>The alphabet\<close>

definition b64_char :: "nat \<Rightarrow> char" where
  "b64_char n =
     (if n < 26 then char_of (65 + n)
      else if n < 52 then char_of (97 + (n - 26))
      else if n < 62 then char_of (48 + (n - 52))
      else if n = 62 then CHR ''-'' else CHR ''_'')"

text \<open>
  After \<open>urlsafe_b64decode\<close> has translated \<open>-_\<close> to \<open>+/\<close>, both spellings are in the
  alphabet.
\<close>

definition b64_val :: "char \<Rightarrow> nat option" where
  "b64_val c =
     (let n = (of_char c :: nat) in
      if 65 \<le> n \<and> n \<le> 90 then Some (n - 65)
      else if 97 \<le> n \<and> n \<le> 122 then Some (n - 97 + 26)
      else if 48 \<le> n \<and> n \<le> 57 then Some (n - 48 + 52)
      else if c = CHR ''+'' \<or> c = CHR ''-'' then Some 62
      else if c = CHR ''/'' \<or> c = CHR ''_'' then Some 63
      else None)"

lemma of_char_b64_char:
  "n < 64 \<Longrightarrow> (of_char (b64_char n) :: nat) =
     (if n < 26 then 65 + n else if n < 52 then 97 + (n - 26) else if n < 62 then 48 + (n - 52)
      else if n = 62 then 45 else 95)"
  by (simp add: b64_char_def)

lemma b64_char_not:
  assumes "n < 64" and "(of_char c :: nat) < 45 \<or> (of_char c :: nat) = 46 \<or> (of_char c :: nat) = 61"
  shows "b64_char n \<noteq> c"
proof
  assume "b64_char n = c"
  with assms show False
    using of_char_b64_char [OF assms(1)] by (auto split: if_splits)
qed

lemma b64_char_facts:
  assumes "n < 64"
  shows "b64_val (b64_char n) = Some n" "b64_char n \<noteq> CHR ''=''" "b64_char n \<noteq> CHR ''.''"
    "(of_char (b64_char n) :: nat) < 128"
proof -
  show "b64_char n \<noteq> CHR ''=''" "b64_char n \<noteq> CHR ''.''"
    by (rule b64_char_not [OF assms], simp)+
  show "(of_char (b64_char n) :: nat) < 128"
    using of_char_b64_char [OF assms] assms by (auto split: if_splits)
  consider "n < 26" | "26 \<le> n" "n < 52" | "52 \<le> n" "n < 62" | "n = 62" | "n = 63"
    using assms by linarith
  then show "b64_val (b64_char n) = Some n"
  proof cases
    case 3
    then obtain m where "n = 52 + m"
      using le_Suc_ex by blast
    with 3 have "m < 10" by simp
    with \<open>n = 52 + m\<close> show ?thesis
      by (simp add: b64_val_def Let_def b64_char_def)
  qed (simp_all add: b64_val_def Let_def of_char_b64_char b64_char_def)
qed

section \<open>Encoding\<close>

fun b64_enc :: "bytes \<Rightarrow> string" where
  "b64_enc [] = []"
| "b64_enc [a] =
     [b64_char (unat a div 4), b64_char (unat a mod 4 * 16), CHR ''='', CHR ''='']"
| "b64_enc [a, b] =
     [b64_char (unat a div 4), b64_char (unat a mod 4 * 16 + unat b div 16),
      b64_char (unat b mod 16 * 4), CHR ''='']"
| "b64_enc (a # b # c # r) =
     [b64_char (unat a div 4), b64_char (unat a mod 4 * 16 + unat b div 16),
      b64_char (unat b mod 16 * 4 + unat c div 64), b64_char (unat c mod 64)] @ b64_enc r"

definition rstrip_pad :: "string \<Rightarrow> string" where
  "rstrip_pad s = rev (dropWhile (\<lambda>c. c = CHR ''='') (rev s))"

definition b64url_encode :: "bytes \<Rightarrow> string" where
  "b64url_encode raw = rstrip_pad (b64_enc raw)"

section \<open>Decoding\<close>

text \<open>
  The decoder's state: position in the quad, the bits left over, the padding seen. A pad after two
  data characters of a quad ends the input once the quad is complete.
\<close>

fun a2b :: "nat \<Rightarrow> nat \<Rightarrow> nat \<Rightarrow> string \<Rightarrow> bytes result" where
  "a2b q left pads [] =
     (if q = 0 then Inr []
      else if q = 1 then
        Inl (PyValueError ''number of data characters cannot be 1 more than a multiple of 4'')
      else Inl (PyValueError ''Incorrect padding''))"
| "a2b q left pads (c # cs) =
     (if c = CHR ''='' then
        (if 2 \<le> q \<and> 4 \<le> q + Suc pads then Inr []
         else a2b q left (if 2 \<le> q then Suc pads else pads) cs)
      else
        (case b64_val c of
           None \<Rightarrow> a2b q left pads cs
         | Some v \<Rightarrow>
             if q = 0 then a2b 1 v 0 cs
             else if q = 1 then
               and_then (a2b 2 (v mod 16) 0 cs) (\<lambda>r. Inr (word_of_nat (left * 4 + v div 16) # r))
             else if q = 2 then
               and_then (a2b 3 (v mod 4) 0 cs) (\<lambda>r. Inr (word_of_nat (left * 16 + v div 4) # r))
             else
               and_then (a2b 0 0 0 cs) (\<lambda>r. Inr (word_of_nat (left * 64 + v) # r))))"

definition ascii_only :: "string \<Rightarrow> bool" where
  "ascii_only s \<longleftrightarrow> list_all (\<lambda>c. (of_char c :: nat) < 128) s"

definition b64url_decode :: "string \<Rightarrow> bytes result" where
  "b64url_decode s =
     (if \<not> ascii_only s then
        Inl (PyValueError ''string argument should contain only ASCII characters'')
      else a2b 0 0 0 (s @ replicate ((4 - length s mod 4) mod 4) (CHR ''='')))"

section \<open>The round trip\<close>

lemma byte_bound [simp]: "unat (b :: byte) < 256"
  by (rule order.strict_trans2 [OF unsigned_less]) simp

lemma sextets:
  fixes a b c :: nat
  assumes "a < 256" "b < 256" "c < 256"
  shows "a div 4 < 64" "a mod 4 * 16 + b div 16 < 64" "a mod 4 * 16 < 64"
    "b mod 16 * 4 + c div 64 < 64" "b mod 16 * 4 < 64" "c mod 64 < 64"
proof -
  have "a mod 4 \<le> 3" "b div 16 \<le> 15" "b mod 16 \<le> 15" "c div 64 \<le> 3"
    using assms by auto
  then show "a div 4 < 64" "a mod 4 * 16 + b div 16 < 64" "a mod 4 * 16 < 64"
    "b mod 16 * 4 + c div 64 < 64" "b mod 16 * 4 < 64" "c mod 64 < 64"
    using assms by auto
qed

lemma octets:
  fixes a b c :: nat
  assumes "a < 256" "b < 256" "c < 256"
  shows "a div 4 * 4 + (a mod 4 * 16 + b div 16) div 16 = a"
    "a div 4 * 4 + (a mod 4 * 16) div 16 = a"
    "(a mod 4 * 16 + b div 16) mod 16 * 16 + (b mod 16 * 4 + c div 64) div 4 = b"
    "(a mod 4 * 16 + b div 16) mod 16 * 16 + (b mod 16 * 4) div 4 = b"
    "(b mod 16 * 4 + c div 64) mod 4 * 64 + c mod 64 = c"
proof -
  have "b div 16 < 16" "c div 64 < 4"
    using assms by auto
  then show "a div 4 * 4 + (a mod 4 * 16 + b div 16) div 16 = a"
    "a div 4 * 4 + (a mod 4 * 16) div 16 = a"
    "(a mod 4 * 16 + b div 16) mod 16 * 16 + (b mod 16 * 4 + c div 64) div 4 = b"
    "(a mod 4 * 16 + b div 16) mod 16 * 16 + (b mod 16 * 4) div 4 = b"
    "(b mod 16 * 4 + c div 64) mod 4 * 64 + c mod 64 = c"
    by simp_all
qed

lemmas byte_pieces = sextets [OF byte_bound byte_bound byte_bound]

lemmas byte_rebuild = octets [OF byte_bound byte_bound byte_bound]

lemma word_of_unat_byte: "word_of_nat (unat (b :: byte)) = b"
  by simp

lemma a2b_quad:
  "v0 < 64 \<Longrightarrow> v1 < 64 \<Longrightarrow> v2 < 64 \<Longrightarrow> v3 < 64 \<Longrightarrow>
    a2b 0 l p (b64_char v0 # b64_char v1 # b64_char v2 # b64_char v3 # cs) =
      and_then (a2b 0 0 0 cs)
        (\<lambda>r. Inr (word_of_nat (v0 * 4 + v1 div 16) # word_of_nat (v1 mod 16 * 16 + v2 div 4)
               # word_of_nat (v2 mod 4 * 64 + v3) # r))"
  by (simp add: b64_char_facts and_then_assoc)

lemma a2b_triple:
  "v0 < 64 \<Longrightarrow> v1 < 64 \<Longrightarrow> v2 < 64 \<Longrightarrow>
    a2b 0 l p [b64_char v0, b64_char v1, b64_char v2, CHR ''=''] =
      Inr [word_of_nat (v0 * 4 + v1 div 16), word_of_nat (v1 mod 16 * 16 + v2 div 4)]"
  by (simp add: b64_char_facts)

lemma a2b_pair:
  "v0 < 64 \<Longrightarrow> v1 < 64 \<Longrightarrow>
    a2b 0 l p [b64_char v0, b64_char v1, CHR ''='', CHR ''=''] = Inr [word_of_nat (v0 * 4 + v1 div 16)]"
  by (simp add: b64_char_facts)

lemma a2b_b64_enc: "a2b 0 l p (b64_enc raw) = Inr raw"
proof (induction raw arbitrary: l p rule: b64_enc.induct)
  case 1
  show ?case by simp
next
  case (2 a)
  show ?case
    by (simp only: b64_enc.simps a2b_pair [OF byte_pieces(1,3)] byte_rebuild word_of_unat_byte)
next
  case (3 a b)
  show ?case
    by (simp only: b64_enc.simps a2b_triple [OF byte_pieces(1,2,5)] byte_rebuild
        word_of_unat_byte)
next
  case (4 a b c r)
  show ?case
    by (simp only: b64_enc.simps append_Cons append_Nil a2b_quad [OF byte_pieces(1,2,4,6)]
        byte_rebuild word_of_unat_byte "4.IH" and_then_simps)
qed

lemma pad_not_sextet: "n < 64 \<Longrightarrow> CHR ''='' \<noteq> b64_char n" "n < 64 \<Longrightarrow> CHR ''.'' \<noteq> b64_char n"
  by (simp_all add: b64_char_facts not_sym)

lemma b64_enc_shape:
  "\<exists>body k. b64_enc raw = body @ replicate k (CHR ''='') \<and> k < 3
     \<and> (length body + k) mod 4 = 0 \<and> (CHR ''='') \<notin> set body \<and> ascii_only body"
proof (induction raw rule: b64_enc.induct)
  case 1
  show ?case by (rule exI [of _ "[]"], rule exI [of _ 0]) (simp add: ascii_only_def)
next
  case (2 a)
  show ?case
    by (rule exI [of _ "[b64_char (unat a div 4), b64_char (unat a mod 4 * 16)]"], rule exI [of _ 2])
      (simp add: ascii_only_def b64_char_facts byte_pieces pad_not_sextet numeral_2_eq_2)
next
  case (3 a b)
  show ?case
    by (rule exI [of _ "[b64_char (unat a div 4), b64_char (unat a mod 4 * 16 + unat b div 16),
            b64_char (unat b mod 16 * 4)]"], rule exI [of _ 1])
      (simp add: ascii_only_def b64_char_facts byte_pieces pad_not_sextet)
next
  case (4 a b c r)
  then obtain body k where IH: "b64_enc r = body @ replicate k (CHR ''='')" "k < 3"
    "(length body + k) mod 4 = 0" "(CHR ''='') \<notin> set body" "ascii_only body"
    by (elim exE conjE) (rule that)
  let ?q = "[b64_char (unat a div 4), b64_char (unat a mod 4 * 16 + unat b div 16),
      b64_char (unat b mod 16 * 4 + unat c div 64), b64_char (unat c mod 64)]"
  have q: "(CHR ''='') \<notin> set ?q" "ascii_only ?q"
    by (simp_all add: ascii_only_def b64_char_facts byte_pieces pad_not_sextet)
  have "(length (?q @ body) + k) mod 4 = 0"
    using IH(3) by simp
  with IH q show ?case
    by (intro exI [of _ "?q @ body"] exI [of _ k]) (auto simp: ascii_only_def)
qed

lemma rstrip_pad_body:
  "(CHR ''='') \<notin> set body \<Longrightarrow> rstrip_pad (body @ replicate k (CHR ''='')) = body"
proof -
  assume no: "(CHR ''='') \<notin> set body"
  have "dropWhile (\<lambda>c. c = CHR ''='') (replicate k (CHR ''='') @ rev body)
      = dropWhile (\<lambda>c. c = CHR ''='') (rev body)"
    by (induction k) auto
  also have "\<dots> = rev body"
    using no by (cases body rule: rev_cases) auto
  finally show ?thesis by (simp add: rstrip_pad_def)
qed

lemma pad_length: "k < 3 \<Longrightarrow> (n + k) mod 4 = 0 \<Longrightarrow> (4 - n mod 4) mod 4 = (k :: nat)"
proof -
  assume k: "k < 3" and m: "(n + k) mod 4 = (0 :: nat)"
  define q r where "q = n div 4" and "r = n mod 4"
  then have n: "n = 4 * q + r" and r: "r < 4" by simp_all
  have "r = 0 \<or> r = 1 \<or> r = 2 \<or> r = 3" "k = 0 \<or> k = 1 \<or> k = 2"
    using r k by linarith+
  moreover have "n mod 4 = r" "(r + k) mod 4 = 0"
    using m r unfolding n by (simp, metis add.assoc mod_mult_self4)
  ultimately show ?thesis
    by (elim disjE) simp_all
qed

lemma b64url_encode_ascii: "ascii_only (b64url_encode raw)"
  using b64_enc_shape [of raw] by (auto simp: b64url_encode_def rstrip_pad_body)

lemma b64url_encode_no_pad: "(CHR ''='') \<notin> set (b64url_encode raw)"
  using b64_enc_shape [of raw] by (auto simp: b64url_encode_def rstrip_pad_body)

lemma b64url_decode_encode: "b64url_decode (b64url_encode raw) = Inr raw"
proof -
  obtain body k where s: "b64_enc raw = body @ replicate k (CHR ''='')" "k < 3"
    "(length body + k) mod 4 = 0" "(CHR ''='') \<notin> set body" "ascii_only body"
    using b64_enc_shape [of raw] by (elim exE conjE) (rule that)
  then have e: "b64url_encode raw = body"
    by (simp add: b64url_encode_def rstrip_pad_body)
  have "body @ replicate ((4 - length body mod 4) mod 4) (CHR ''='') = b64_enc raw"
    using pad_length [OF s(2,3)] s(1) by simp
  with e s(5) show ?thesis
    by (simp add: b64url_decode_def a2b_b64_enc)
qed

text \<open>The URL-safe alphabet has no dot, so the dot separates a nonce from a signature.\<close>

lemma b64_enc_no_dot: "(CHR ''.'') \<notin> set (b64_enc raw)"
  by (induction raw rule: b64_enc.induct) (simp_all add: pad_not_sextet byte_pieces)

lemma b64url_encode_no_dot: "(CHR ''.'') \<notin> set (b64url_encode raw)"
  using b64_enc_no_dot [of raw] set_dropWhileD [of "CHR ''.''" "\<lambda>c. c = CHR ''=''" "rev (b64_enc raw)"]
  by (auto simp: b64url_encode_def rstrip_pad_def)

lemma b64url_encode_nonempty: "raw \<noteq> [] \<Longrightarrow> b64url_encode raw \<noteq> []"
  using b64url_decode_encode [of raw] by (auto simp: b64url_decode_def ascii_only_def)

end
