(* ===== verification/Proof.thy ===== *)
theory Proof
  imports Base64url
begin

text \<open>
  Proof-of-possession: nonce issuance, verification and the store of verified proofs
  (\<^verbatim>\<open>src/ca_ztcf/identity/proof.py\<close>), and the device's side of it
  (\<^verbatim>\<open>src/ca_ztcf/device/keys.py\<close>). The clock reading and the random bytes are
  arguments. Shown: a nonce is accepted at most as often as it was issued, what a valid result
  means, that a replay is refused, and that only successful proofs are stored and only live ones
  returned.
\<close>

section \<open>Nonces\<close>

record issued_nonce =
  in_device_id :: string
  in_issued_at :: instant
  in_expires_at :: instant

record nonce_issuer =
  ni_ttl_s :: int
  ni_issued :: "(string, issued_nonce) dict"

definition new_nonce_issuer :: "int \<Rightarrow> nonce_issuer" where
  "new_nonce_issuer ttl_s = \<lparr>ni_ttl_s = ttl_s, ni_issued = []\<rparr>"

definition purge_nonces :: "instant \<Rightarrow> nonce_issuer \<Rightarrow> nonce_issuer" where
  "purge_nonces now ni = ni\<lparr>ni_issued := dpurge (\<lambda>rec. now > in_expires_at rec) (ni_issued ni)\<rparr>"

definition issue ::
  "instant \<Rightarrow> bytes \<Rightarrow> nonce_issuer \<Rightarrow> string \<Rightarrow> string \<times> instant \<times> nonce_issuer" where
  "issue now raw ni d =
     (let nonce = b64url_encode raw;
          expires_at = now + seconds (ni_ttl_s ni);
          ni' = ni\<lparr>ni_issued := dset nonce
                  \<lparr>in_device_id = d, in_issued_at = now, in_expires_at = expires_at\<rparr> (ni_issued ni)\<rparr>
      in (nonce, expires_at, purge_nonces now ni'))"

definition consume ::
  "instant \<Rightarrow> nonce_issuer \<Rightarrow> string \<Rightarrow> string \<Rightarrow> bool \<times> string \<times> nonce_issuer" where
  "consume now ni nonce d =
     (let ni' = ni\<lparr>ni_issued := dpop nonce (ni_issued ni)\<rparr> in
      case dget (ni_issued ni) nonce of
        None \<Rightarrow> (False, ''NONCE_UNKNOWN_OR_ALREADY_USED'', ni')
      | Some rec \<Rightarrow>
          if in_device_id rec \<noteq> d then (False, ''NONCE_DEVICE_MISMATCH'', ni')
          else if now > in_expires_at rec then (False, ''NONCE_EXPIRED'', ni')
          else (True, ''NONCE_OK'', ni'))"

definition nonces_outstanding :: "nonce_issuer \<Rightarrow> nat" where
  "nonces_outstanding ni = length (ni_issued ni)"

definition issuer_ok :: "nonce_issuer \<Rightarrow> bool" where
  "issuer_ok ni \<longleftrightarrow> dict_ok (ni_issued ni)"

lemma consume_forgets: "dget (ni_issued (snd (snd (consume now ni nonce d)))) n
    = (if n = nonce then None else dget (ni_issued ni) n)"
  by (simp add: consume_def Let_def split: option.splits)

lemma consume_accepts_iff:
  "fst (consume now ni nonce d) \<longleftrightarrow>
     (\<exists>rec. dget (ni_issued ni) nonce = Some rec \<and> in_device_id rec = d \<and> now \<le> in_expires_at rec)"
  by (auto simp: consume_def Let_def split: option.splits)

lemma consume_ok [simp]: "issuer_ok ni \<Longrightarrow> issuer_ok (snd (snd (consume now ni nonce d)))"
  by (auto simp: consume_def Let_def issuer_ok_def split: option.splits)

lemma issue_ok [simp]: "issuer_ok ni \<Longrightarrow> issuer_ok (snd (snd (issue now raw ni d)))"
  by (simp add: issue_def Let_def issuer_ok_def purge_nonces_def)

lemma consume_ttl [simp]: "ni_ttl_s (snd (snd (consume now ni nonce d))) = ni_ttl_s ni"
  by (auto simp: consume_def Let_def split: option.splits)

lemma issue_ttl [simp]: "ni_ttl_s (snd (snd (issue now raw ni d))) = ni_ttl_s ni"
  by (simp add: issue_def Let_def purge_nonces_def)

lemma issue_lookup:
  assumes "issuer_ok ni" and "0 \<le> ni_ttl_s ni"
  shows "dget (ni_issued (snd (snd (issue now raw ni d)))) (b64url_encode raw)
    = Some \<lparr>in_device_id = d, in_issued_at = now, in_expires_at = now + seconds (ni_ttl_s ni)\<rparr>"
  using assms by (simp add: issue_def Let_def purge_nonces_def dget_dpurge issuer_ok_def seconds_def)

lemma issue_purges:
  assumes "issuer_ok ni" and "dget (ni_issued (snd (snd (issue now raw ni d)))) n = Some rec"
  shows "now \<le> in_expires_at rec"
  using assms by (auto simp: issue_def Let_def purge_nonces_def dget_dpurge issuer_ok_def
      split: option.splits if_splits)

lemma issue_other:
  assumes "issuer_ok ni" and "n \<noteq> b64url_encode raw"
    and "dget (ni_issued (snd (snd (issue now raw ni d)))) n = Some rec"
  shows "dget (ni_issued ni) n = Some rec"
  using assms by (auto simp: issue_def Let_def purge_nonces_def dget_dpurge issuer_ok_def
      split: option.splits if_splits)

subsection \<open>Runs of the issuer\<close>

datatype nonce_op =
    IssueOp instant bytes string
  | ConsumeOp instant string string

fun nonce_step :: "nonce_issuer \<Rightarrow> nonce_op \<Rightarrow> nonce_issuer" where
  "nonce_step ni (IssueOp now raw d) = snd (snd (issue now raw ni d))"
| "nonce_step ni (ConsumeOp now n d) = snd (snd (consume now ni n d))"

text \<open>How often a run accepts the nonce \<open>n\<close>, and how often it issues it.\<close>

fun accepted_count :: "string \<Rightarrow> nonce_issuer \<Rightarrow> nonce_op list \<Rightarrow> nat" where
  "accepted_count n ni [] = 0"
| "accepted_count n ni (IssueOp now raw d # ops) =
     accepted_count n (nonce_step ni (IssueOp now raw d)) ops"
| "accepted_count n ni (ConsumeOp now m d # ops) =
     (if m = n \<and> fst (consume now ni m d) then 1 else 0)
     + accepted_count n (nonce_step ni (ConsumeOp now m d)) ops"

fun issued_count :: "string \<Rightarrow> nonce_op list \<Rightarrow> nat" where
  "issued_count n [] = 0"
| "issued_count n (IssueOp now raw d # ops) =
     (if b64url_encode raw = n then 1 else 0) + issued_count n ops"
| "issued_count n (ConsumeOp now m d # ops) = issued_count n ops"

lemma accepted_le_issued:
  "issuer_ok ni \<Longrightarrow>
    accepted_count n ni ops \<le> issued_count n ops + (if dget (ni_issued ni) n = None then 0 else 1)"
proof (induction ops arbitrary: ni)
  case Nil
  then show ?case by simp
next
  case (Cons op ops)
  show ?case
  proof (cases op)
    case (IssueOp now raw d)
    let ?ni = "snd (snd (issue now raw ni d))"
    have step: "accepted_count n ?ni ops
        \<le> issued_count n ops + (if dget (ni_issued ?ni) n = None then 0 else 1)"
      using Cons by simp
    show ?thesis
    proof (cases "n = b64url_encode raw")
      case True
      with step IssueOp show ?thesis by (auto split: if_splits)
    next
      case False
      with step IssueOp issue_other [OF Cons.prems False, of now d] show ?thesis
        by (cases "dget (ni_issued ?ni) n") auto
    qed
  next
    case (ConsumeOp now m d)
    let ?ni = "snd (snd (consume now ni m d))"
    have step: "accepted_count n ?ni ops
        \<le> issued_count n ops + (if dget (ni_issued ?ni) n = None then 0 else 1)"
      using Cons by simp
    then show ?thesis
      using ConsumeOp consume_accepts_iff [of now ni m d] by (auto simp: consume_forgets split: if_splits)
  qed
qed

section \<open>Verification\<close>

definition pop_failure :: "string \<Rightarrow> string \<Rightarrow> pop_result" where
  "pop_failure d reason = \<lparr>pr_device_id = d, pr_valid = False, pr_reason = reason,
     pr_verified_at = None, pr_algorithm = None\<rparr>"

text \<open>The checks after the nonce has been accepted, in the order of the code.\<close>

definition check_signature ::
  "'k crypto \<Rightarrow> device_identity \<Rightarrow> proof_of_possession \<Rightarrow> instant \<Rightarrow> pop_result" where
  "check_signature cr i p now =
     (case load_pem cr (di_public_key_pem i) of
        None \<Rightarrow> pop_failure (di_device_id i) ''POP_PUBLIC_KEY_UNREADABLE''
      | Some (OtherKey _) \<Rightarrow> pop_failure (di_device_id i) ''POP_UNSUPPORTED_KEY_TYPE''
      | Some (Ed25519Key k) \<Rightarrow>
          (case b64url_decode (pp_signature p) of
             Inl _ \<Rightarrow> pop_failure (di_device_id i) ''POP_SIGNATURE_NOT_BASE64URL''
           | Inr signature \<Rightarrow>
               (case b64url_decode (pp_nonce p) of
                  Inl _ \<Rightarrow> pop_failure (di_device_id i) ''POP_NONCE_NOT_BASE64URL''
                | Inr nonce_bytes \<Rightarrow>
                    if ed_verify cr k signature nonce_bytes then
                      \<lparr>pr_device_id = di_device_id i, pr_valid = True, pr_reason = ''POP_VERIFIED'',
                       pr_verified_at = Some now, pr_algorithm = Some ''ed25519''\<rparr>
                    else pop_failure (di_device_id i) ''POP_SIGNATURE_INVALID'')))"

definition verify ::
  "'k crypto \<Rightarrow> instant \<Rightarrow> nonce_issuer \<Rightarrow> device_identity \<Rightarrow> proof_of_possession
     \<Rightarrow> pop_result \<times> nonce_issuer" where
  "verify cr now ni i p =
     (if pp_device_id p \<noteq> di_device_id i then
        (pop_failure (di_device_id i) ''POP_DEVICE_ID_MISMATCH'', ni)
      else
        (case consume now ni (pp_nonce p) (di_device_id i) of (accepted, reason, ni') \<Rightarrow>
           if \<not> accepted then (pop_failure (di_device_id i) reason, ni')
           else (check_signature cr i p now, ni')))"

lemma pop_failure_simps [simp]:
  "pr_valid (pop_failure d r) = False" "pr_verified_at (pop_failure d r) = None"
  "pr_device_id (pop_failure d r) = d" "pr_reason (pop_failure d r) = r"
  by (simp_all add: pop_failure_def)

lemma check_signature_device [simp]: "pr_device_id (check_signature cr i p now) = di_device_id i"
  by (simp add: check_signature_def split: option.splits loaded_key.splits sum.splits)

lemma check_signature_valid_iff:
  "pr_valid (check_signature cr i p now) \<longleftrightarrow>
     (\<exists>k sig msg. load_pem cr (di_public_key_pem i) = Some (Ed25519Key k)
        \<and> b64url_decode (pp_signature p) = Inr sig \<and> b64url_decode (pp_nonce p) = Inr msg
        \<and> ed_verify cr k sig msg)"
  by (auto simp: check_signature_def split: option.splits loaded_key.splits sum.splits)

lemma check_signature_verified_at:
  "pr_verified_at (check_signature cr i p now)
     = (if pr_valid (check_signature cr i p now) then Some now else None)"
  by (auto simp: check_signature_def split: option.splits loaded_key.splits sum.splits)

lemma verify_valid_iff:
  "pr_valid (fst (verify cr now ni i p)) \<longleftrightarrow>
     pp_device_id p = di_device_id i
     \<and> (\<exists>rec. dget (ni_issued ni) (pp_nonce p) = Some rec \<and> in_device_id rec = di_device_id i
             \<and> now \<le> in_expires_at rec)
     \<and> (\<exists>k sig msg. load_pem cr (di_public_key_pem i) = Some (Ed25519Key k)
          \<and> b64url_decode (pp_signature p) = Inr sig \<and> b64url_decode (pp_nonce p) = Inr msg
          \<and> ed_verify cr k sig msg)"
proof (cases "pp_device_id p = di_device_id i")
  case True
  obtain a r ni' where c: "consume now ni (pp_nonce p) (di_device_id i) = (a, r, ni')"
    by (cases "consume now ni (pp_nonce p) (di_device_id i)") auto
  with consume_accepts_iff [of now ni "pp_nonce p" "di_device_id i"] True
  show ?thesis
    by (auto simp: verify_def check_signature_valid_iff)
next
  case False
  then show ?thesis by (simp add: verify_def)
qed

lemma verify_device [simp]: "pr_device_id (fst (verify cr now ni i p)) = di_device_id i"
  by (simp add: verify_def split: prod.splits)

lemma verify_verified_at:
  "pr_verified_at (fst (verify cr now ni i p))
     = (if pr_valid (fst (verify cr now ni i p)) then Some now else None)"
  by (auto simp: verify_def check_signature_verified_at split: prod.splits)

lemma verify_issuer: "snd (verify cr now ni i p) =
    (if pp_device_id p = di_device_id i then snd (snd (consume now ni (pp_nonce p) (di_device_id i)))
     else ni)"
  by (simp add: verify_def split: prod.split)

lemma verify_issuer_ok [simp]: "issuer_ok ni \<Longrightarrow> issuer_ok (snd (verify cr now ni i p))"
  by (simp add: verify_issuer)

lemma verify_ttl [simp]: "ni_ttl_s (snd (verify cr now ni i p)) = ni_ttl_s ni"
  by (simp add: verify_issuer)

lemma verify_forgets_nonce:
  "pp_device_id p = di_device_id i \<Longrightarrow>
    dget (ni_issued (snd (verify cr now ni i p))) n
      = (if n = pp_nonce p then None else dget (ni_issued ni) n)"
  by (simp add: verify_issuer consume_forgets)

section \<open>The device's side\<close>

text \<open>\<open>sign\<close> is the private key's signing function; it never leaves the device.\<close>

definition sign_nonce :: "(bytes \<Rightarrow> bytes) \<Rightarrow> string \<Rightarrow> string result" where
  "sign_nonce sign nonce = and_then (b64url_decode nonce) (\<lambda>raw. Inr (b64url_encode (sign raw)))"

definition device_proof :: "(bytes \<Rightarrow> bytes) \<Rightarrow> string \<Rightarrow> string \<Rightarrow> proof_of_possession result" where
  "device_proof sign d nonce =
     and_then (sign_nonce sign nonce)
       (\<lambda>s. Inr \<lparr>pp_device_id = d, pp_nonce = nonce, pp_signature = s\<rparr>)"

text \<open>The credential of the CONNECT password field, \<open>nonce.signature\<close>.\<close>

definition credential :: "(bytes \<Rightarrow> bytes) \<Rightarrow> string \<Rightarrow> string result" where
  "credential sign nonce = and_then (sign_nonce sign nonce) (\<lambda>s. Inr (nonce @ ''.'' @ s))"

section \<open>The proof store\<close>

type_synonym proof_store = "(string, pop_result) dict"

definition ps_record :: "proof_store \<Rightarrow> pop_result \<Rightarrow> pop_result \<times> proof_store" where
  "ps_record ps r =
     (r, if pr_valid r \<and> pr_verified_at r \<noteq> None then dset (pr_device_id r) r ps else ps)"

definition ps_get ::
  "int \<Rightarrow> proof_store \<Rightarrow> string \<Rightarrow> instant \<Rightarrow> pop_result option \<times> proof_store" where
  "ps_get ttl_s ps d now =
     (case dget ps d of
        None \<Rightarrow> (None, ps)
      | Some stored \<Rightarrow>
          (case pr_verified_at stored of
             None \<Rightarrow> (None, ps)
           | Some v \<Rightarrow>
               if now - v > seconds ttl_s then (None, dpop d ps) else (Some stored, ps)))"

definition ps_invalidate :: "proof_store \<Rightarrow> string \<Rightarrow> proof_store" where
  "ps_invalidate ps d = dpop d ps"

definition proof_store_ok :: "proof_store \<Rightarrow> bool" where
  "proof_store_ok ps \<longleftrightarrow>
     dict_ok ps \<and> dict_all (\<lambda>d r. pr_device_id r = d \<and> pr_valid r \<and> pr_verified_at r \<noteq> None) ps"

lemma proof_store_ok_empty [simp]: "proof_store_ok []"
  by (simp add: proof_store_ok_def)

lemma ps_record_ok: "proof_store_ok ps \<Longrightarrow> proof_store_ok (snd (ps_record ps r))"
  unfolding proof_store_ok_def ps_record_def by (auto intro!: dict_all_dset)

lemma proof_store_ok_dpop: "proof_store_ok ps \<Longrightarrow> proof_store_ok (dpop d ps)"
  unfolding proof_store_ok_def by (auto intro: dict_all_dpop)

lemma ps_get_ok: "proof_store_ok ps \<Longrightarrow> proof_store_ok (snd (ps_get ttl ps d now))"
  by (auto simp: ps_get_def proof_store_ok_dpop split: option.splits)

lemma ps_invalidate_ok: "proof_store_ok ps \<Longrightarrow> proof_store_ok (ps_invalidate ps d)"
  by (simp add: ps_invalidate_def proof_store_ok_dpop)

lemma proof_store_ok_get:
  "proof_store_ok ps \<Longrightarrow> dget ps d = Some r \<Longrightarrow>
    pr_device_id r = d \<and> pr_valid r \<and> pr_verified_at r \<noteq> None"
  by (auto simp: proof_store_ok_def dest: dict_all_dget)

lemma ps_get_Some_iff:
  "fst (ps_get ttl ps d now) = Some r \<longleftrightarrow>
     dget ps d = Some r \<and> (\<exists>v. pr_verified_at r = Some v \<and> now - v \<le> seconds ttl)"
  by (auto simp: ps_get_def split: option.splits)

lemma ps_record_failure: "\<not> pr_valid r \<Longrightarrow> snd (ps_record ps r) = ps"
  by (simp add: ps_record_def)

end
