(* ===== verification/Access_Collectors.thy ===== *)
theory Access_Collectors
  imports Bindings
begin

text \<open>
  The two access-context collectors: \<^verbatim>\<open>src/ca_ztcf/collectors/nr.py\<close> and
  \<^verbatim>\<open>collectors/wlan.py\<close>, with the identifier hashing of their base class
  (\<^verbatim>\<open>collectors/base.py\<close>) and the synthetic event source. SHA-256 is the
  \<open>sha256_hex\<close> field of the \<open>crypto\<close> parameter; a fresh binding identifier is an argument.
  Shown: what each event type does to the store, that the two collectors stay in their domain, and
  that a binding depends on a raw subscriber or station identifier only through its salted digest.
\<close>

section \<open>Events\<close>

datatype nr_event_type = SESSION_ESTABLISHED | SESSION_REFRESHED | SESSION_RELEASED

record nr_access_event =
  ne_event_type :: nr_event_type
  ne_peer_address :: string
  ne_observed_at :: instant
  ne_source_mode :: source_mode
  ne_subscriber_ref :: "string option"
  ne_pdu_session_id :: "string option"
  ne_dnn :: "string option"
  ne_gnb_id :: "string option"
  ne_rat_type :: string
  ne_registration_state :: string
  ne_pdu_session_active :: bool
  ne_binding_lifetime_s :: "int option"

datatype wlan_event_type = STA_AUTHENTICATED | STA_REFRESHED | STA_DISCONNECTED

record wlan_access_event =
  we_event_type :: wlan_event_type
  we_peer_address :: string
  we_observed_at :: instant
  we_source_mode :: source_mode
  we_sta_mac :: "string option"
  we_eap_identity :: "string option"
  we_eap_success :: bool
  we_akm :: string
  we_ssid :: "string option"
  we_ap_bssid :: "string option"
  we_binding_lifetime_s :: "int option"

text \<open>What may reach \<open>ingest\<close>; a collector refuses the other's events.\<close>

datatype access_event = NrEvent nr_access_event | WlanEvent wlan_access_event

section \<open>The base collector\<close>

record collector =
  co_hash_length :: nat
  co_salt :: bytes
  co_available :: bool

definition set_available :: "collector \<Rightarrow> bool \<Rightarrow> collector" where
  "set_available co v = co\<lparr>co_available := v\<rparr>"

text \<open>\<open>raw.encode("utf-8")\<close>: a string is its UTF-8 bytes already.\<close>

definition str_encode :: "string \<Rightarrow> bytes" where
  "str_encode s = map of_char s"

definition hash_identifier :: "'k crypto \<Rightarrow> collector \<Rightarrow> string \<Rightarrow> string" where
  "hash_identifier cr co raw = take (co_hash_length co) (sha256_hex cr (co_salt co @ str_encode raw))"

definition expiry :: "instant \<Rightarrow> int option \<Rightarrow> instant option" where
  "expiry observed_at lifetime_s = map_option (\<lambda>l. observed_at + seconds l) lifetime_s"

definition bool_text :: "bool \<Rightarrow> string" where
  "bool_text b = (if b then ''true'' else ''false'')"

text \<open>\<open>if v is not None: attributes[key] = v\<close>\<close>

definition put_opt :: "string \<Rightarrow> string option \<Rightarrow> (string, string) dict \<Rightarrow> (string, string) dict" where
  "put_opt key v d = (case v of None \<Rightarrow> d | Some x \<Rightarrow> dset key x d)"

lemma dget_put_opt [simp, dict_simps]:
  "dget (put_opt key v d) k = (if k = key \<and> v \<noteq> None then v else dget d k)"
  by (simp add: put_opt_def split: option.split)

lemma dict_ok_put_opt [simp]: "dict_ok d \<Longrightarrow> dict_ok (put_opt key v d)"
  by (simp add: put_opt_def split: option.split)

section \<open>The 5G collector\<close>

definition nr_attributes :: "'k crypto \<Rightarrow> collector \<Rightarrow> nr_access_event \<Rightarrow> (string, string) dict" where
  "nr_attributes cr co e =
     put_opt ''gnb_id'' (ne_gnb_id e)
      (put_opt ''dnn'' (ne_dnn e)
        (put_opt ''pdu_session_id'' (ne_pdu_session_id e)
          (put_opt ''subscriber_ref_hash'' (map_option (hash_identifier cr co) (ne_subscriber_ref e))
            [(''rat_type'', ne_rat_type e),
             (''registration_state'', ne_registration_state e),
             (''pdu_session_active'', bool_text (ne_pdu_session_active e))])))"

definition nr_binding :: "'k crypto \<Rightarrow> collector \<Rightarrow> string \<Rightarrow> nr_access_event \<Rightarrow> access_binding" where
  "nr_binding cr co bid e =
     \<lparr>ab_binding_id = bid, ab_domain = NR, ab_peer_address = ne_peer_address e, ab_device_ref = None,
      ab_source = ''collector.nr'', ab_source_mode = ne_source_mode e,
      ab_first_seen = ne_observed_at e, ab_last_seen = ne_observed_at e,
      ab_expires_at = expiry (ne_observed_at e) (ne_binding_lifetime_s e),
      ab_attributes = nr_attributes cr co e\<rparr>"

definition nr_ingest ::
  "'k crypto \<Rightarrow> collector \<Rightarrow> string \<Rightarrow> binding_store \<Rightarrow> access_event
     \<Rightarrow> (access_binding option \<times> binding_store) result" where
  "nr_ingest cr co bid s ev =
     (case ev of
        WlanEvent _ \<Rightarrow> Inl (CollectorError ''NRCollector cannot ingest WlanAccessEvent'')
      | NrEvent e \<Rightarrow>
          if ne_event_type e = SESSION_RELEASED then Inr (None, release s (ne_peer_address e))
          else (case upsert s (nr_binding cr co bid e) of (b, s') \<Rightarrow> Inr (Some b, s')))"

section \<open>The WLAN collector\<close>

definition wlan_attributes :: "'k crypto \<Rightarrow> collector \<Rightarrow> wlan_access_event \<Rightarrow> (string, string) dict" where
  "wlan_attributes cr co e =
     put_opt ''ap_bssid'' (we_ap_bssid e)
      (put_opt ''ssid'' (we_ssid e)
        (put_opt ''eap_identity_hash'' (map_option (hash_identifier cr co) (we_eap_identity e))
          (put_opt ''sta_mac_hash'' (map_option (hash_identifier cr co) (we_sta_mac e))
            [(''akm'', we_akm e), (''eap_success'', bool_text (we_eap_success e))])))"

definition wlan_binding :: "'k crypto \<Rightarrow> collector \<Rightarrow> string \<Rightarrow> wlan_access_event \<Rightarrow> access_binding" where
  "wlan_binding cr co bid e =
     \<lparr>ab_binding_id = bid, ab_domain = WLAN, ab_peer_address = we_peer_address e, ab_device_ref = None,
      ab_source = ''collector.wlan'', ab_source_mode = we_source_mode e,
      ab_first_seen = we_observed_at e, ab_last_seen = we_observed_at e,
      ab_expires_at = expiry (we_observed_at e) (we_binding_lifetime_s e),
      ab_attributes = wlan_attributes cr co e\<rparr>"

definition wlan_ingest ::
  "'k crypto \<Rightarrow> collector \<Rightarrow> string \<Rightarrow> binding_store \<Rightarrow> access_event
     \<Rightarrow> (access_binding option \<times> binding_store) result" where
  "wlan_ingest cr co bid s ev =
     (case ev of
        NrEvent _ \<Rightarrow> Inl (CollectorError ''WLANCollector cannot ingest NrAccessEvent'')
      | WlanEvent e \<Rightarrow>
          if we_event_type e = STA_DISCONNECTED then Inr (None, release s (we_peer_address e))
          else (case upsert s (wlan_binding cr co bid e) of (b, s') \<Rightarrow> Inr (Some b, s')))"

text \<open>\<open>ingest_many\<close>: every event in order, with one fresh identifier each; the first refused event
  raises, and the bindings of the events before it are already stored.\<close>

fun ingest_many ::
  "(string \<Rightarrow> binding_store \<Rightarrow> access_event \<Rightarrow> (access_binding option \<times> binding_store) result)
     \<Rightarrow> binding_store \<Rightarrow> (string \<times> access_event) list
     \<Rightarrow> access_binding list result \<times> binding_store" where
  "ingest_many ingest s [] = (Inr [], s)"
| "ingest_many ingest s ((bid, ev) # evs) =
     (case ingest bid s ev of
        Inl err \<Rightarrow> (Inl err, s)
      | Inr (ob, s') \<Rightarrow>
          (case ingest_many ingest s' evs of
             (Inl err, s'') \<Rightarrow> (Inl err, s'')
           | (Inr bs, s'') \<Rightarrow> (Inr (case ob of None \<Rightarrow> bs | Some b \<Rightarrow> b # bs), s'')))"

section \<open>The synthetic event source\<close>

record fixture_provider =
  fp_events :: "nr_access_event list"
  fp_cursor :: nat

definition fp_add :: "fixture_provider \<Rightarrow> nr_access_event \<Rightarrow> fixture_provider result" where
  "fp_add fp e =
     (if ne_source_mode e \<noteq> SYNTHETIC_FIXTURE then
        Inl (CollectorError ''SyntheticFixtureProvider only accepts synthetic_fixture events'')
      else Inr (fp\<lparr>fp_events := fp_events fp @ [e]\<rparr>))"

fun fp_extend :: "fixture_provider \<Rightarrow> nr_access_event list \<Rightarrow> fixture_provider result" where
  "fp_extend fp [] = Inr fp"
| "fp_extend fp (e # es) = and_then (fp_add fp e) (\<lambda>fp'. fp_extend fp' es)"

definition fp_next_event :: "fixture_provider \<Rightarrow> nr_access_event option \<times> fixture_provider" where
  "fp_next_event fp =
     (if fp_cursor fp \<ge> length (fp_events fp) then (None, fp)
      else (Some (fp_events fp ! fp_cursor fp), fp\<lparr>fp_cursor := Suc (fp_cursor fp)\<rparr>))"

definition fp_drain :: "fixture_provider \<Rightarrow> nr_access_event list \<times> fixture_provider" where
  "fp_drain fp = (drop (fp_cursor fp) (fp_events fp), fp\<lparr>fp_cursor := length (fp_events fp)\<rparr>)"

definition fp_reset :: "fixture_provider \<Rightarrow> fixture_provider" where
  "fp_reset fp = fp\<lparr>fp_cursor := 0\<rparr>"

definition fp_pending :: "fixture_provider \<Rightarrow> nat" where
  "fp_pending fp = length (fp_events fp) - fp_cursor fp"

text \<open>Taking events one by one gives what draining gives.\<close>

fun fp_take_all :: "nat \<Rightarrow> fixture_provider \<Rightarrow> nr_access_event list" where
  "fp_take_all 0 fp = []"
| "fp_take_all (Suc n) fp =
     (case fp_next_event fp of (None, _) \<Rightarrow> [] | (Some e, fp') \<Rightarrow> e # fp_take_all n fp')"

lemma fp_take_all_drain: "fp_pending fp \<le> n \<Longrightarrow> fp_take_all n fp = fst (fp_drain fp)"
proof (induction n arbitrary: fp)
  case 0
  then show ?case by (simp add: fp_pending_def fp_drain_def)
next
  case (Suc n)
  show ?case
  proof (cases "fp_cursor fp < length (fp_events fp)")
    case True
    with Suc show ?thesis
      by (simp add: fp_next_event_def fp_pending_def fp_drain_def Cons_nth_drop_Suc)
  next
    case False
    then show ?thesis by (simp add: fp_next_event_def fp_drain_def)
  qed
qed

section \<open>Convenience builders and attribute parsing\<close>

definition session_established :: "string \<Rightarrow> instant \<Rightarrow> nr_access_event" where
  "session_established addr at =
     \<lparr>ne_event_type = SESSION_ESTABLISHED, ne_peer_address = addr, ne_observed_at = at,
      ne_source_mode = SYNTHETIC_FIXTURE, ne_subscriber_ref = Some ''fixture-subscriber-001'',
      ne_pdu_session_id = Some ''1'', ne_dnn = Some ''internet'', ne_gnb_id = Some ''gnb-001'',
      ne_rat_type = ''NR'', ne_registration_state = ''REGISTERED'', ne_pdu_session_active = True,
      ne_binding_lifetime_s = Some 120\<rparr>"

definition sta_authenticated :: "string \<Rightarrow> instant \<Rightarrow> wlan_access_event" where
  "sta_authenticated addr at =
     \<lparr>we_event_type = STA_AUTHENTICATED, we_peer_address = addr, we_observed_at = at,
      we_source_mode = TIER1_WLAN_AUTH_EMULATION, we_sta_mac = Some ''02:00:00:00:00:01'',
      we_eap_identity = Some ''fixture-device@lab.invalid'', we_eap_success = True,
      we_akm = ''WPA2-EAP'', we_ssid = Some ''ca-ztcf-lab'', we_ap_bssid = Some ''02:00:00:00:0a:01'',
      we_binding_lifetime_s = Some 120\<rparr>"

definition ascii_space :: "char \<Rightarrow> bool" where
  "ascii_space c \<longleftrightarrow> of_char c \<in> set [9, 10, 11, 12, 13, 28, 29, 30, 31, 32 :: nat]"

definition py_strip :: "string \<Rightarrow> string" where
  "py_strip s = rev (dropWhile ascii_space (rev (dropWhile ascii_space s)))"

definition parse_bool_attribute :: "string option \<Rightarrow> bool \<Rightarrow> bool" where
  "parse_bool_attribute v dflt =
     (case v of None \<Rightarrow> dflt
      | Some s \<Rightarrow> py_lower (py_strip s) \<in> set [''true'', ''1'', ''yes''])"

definition nr_attribute_keys :: "string list" where
  "nr_attribute_keys = [''rat_type'', ''registration_state'', ''pdu_session_active'',
     ''subscriber_ref_hash'', ''pdu_session_id'', ''dnn'', ''gnb_id'']"

definition wlan_attribute_keys :: "string list" where
  "wlan_attribute_keys = [''akm'', ''eap_success'', ''sta_mac_hash'', ''eap_identity_hash'',
     ''ssid'', ''ap_bssid'']"

section \<open>Facts\<close>

lemma keys_put_opt: "fst ` set (put_opt k v d) \<subseteq> insert k (fst ` set d)"
proof (cases v)
  case None
  then show ?thesis by (auto simp: put_opt_def)
next
  case (Some x)
  with set_dset_subset [of k x d] show ?thesis by (auto simp: put_opt_def)
qed

lemma nr_attributes_keys: "fst ` set (nr_attributes cr co e) \<subseteq> set nr_attribute_keys"
  unfolding nr_attributes_def nr_attribute_keys_def
  by (intro subset_trans [OF keys_put_opt] insert_subset [THEN iffD2] conjI) simp_all

lemma wlan_attributes_keys: "fst ` set (wlan_attributes cr co e) \<subseteq> set wlan_attribute_keys"
  unfolding wlan_attributes_def wlan_attribute_keys_def
  by (intro subset_trans [OF keys_put_opt] insert_subset [THEN iffD2] conjI) simp_all

lemma nr_ingest_ok:
  "binding_store_ok s \<Longrightarrow> nr_ingest cr co bid s ev = Inr (ob, s') \<Longrightarrow> binding_store_ok s'"
  using upsert_ok [of s] by (auto simp: nr_ingest_def release_ok
      split: access_event.splits if_splits prod.splits) (metis snd_conv)+

lemma wlan_ingest_ok:
  "binding_store_ok s \<Longrightarrow> wlan_ingest cr co bid s ev = Inr (ob, s') \<Longrightarrow> binding_store_ok s'"
  using upsert_ok [of s] by (auto simp: wlan_ingest_def release_ok
      split: access_event.splits if_splits prod.splits) (metis snd_conv)+

lemma upsert_frame:
  "a \<noteq> ab_peer_address b \<Longrightarrow> dget (snd (upsert s b)) a = dget s a"
  by (auto simp: upsert_def Let_def split: option.splits)

lemma upsert_stores: "dget (snd (upsert s b)) (ab_peer_address b) = Some (fst (upsert s b))"
  by (auto simp: upsert_def Let_def split: option.splits)

lemma upsert_domain: "ab_domain (fst (upsert s b)) = ab_domain b"
  by (auto simp: upsert_def Let_def split: option.splits)

lemma nr_binding_digest_only:
  assumes "hash_identifier cr co x = hash_identifier cr co y"
  shows "nr_binding cr co bid (e\<lparr>ne_subscriber_ref := Some x\<rparr>)
       = nr_binding cr co bid (e\<lparr>ne_subscriber_ref := Some y\<rparr>)"
  using assms by (simp add: nr_binding_def nr_attributes_def)

lemma wlan_binding_digest_only:
  assumes "hash_identifier cr co x = hash_identifier cr co x'"
    and "hash_identifier cr co y = hash_identifier cr co y'"
  shows "wlan_binding cr co bid (e\<lparr>we_sta_mac := Some x, we_eap_identity := Some y\<rparr>)
       = wlan_binding cr co bid (e\<lparr>we_sta_mac := Some x', we_eap_identity := Some y'\<rparr>)"
  using assms by (simp add: wlan_binding_def wlan_attributes_def)

end
