(* ===== verification/Counters.thy ===== *)
theory Counters
  imports Transition
begin

text \<open>
  The security counters (\<^verbatim>\<open>src/ca_ztcf/evidence/counters.py\<close>): per device a sliding window
  of authentication failures and a total of identity conflicts. The window is the one of
  \<^verbatim>\<open>Transition\<close>; its facts come from the interpretation \<open>window\<close>.
\<close>

record security_counters =
  cn_window_s :: int
  cn_authn_failures :: "(string, instant list) dict"
  cn_identity_conflicts :: "(string, nat) dict"

definition new_counters :: "int \<Rightarrow> security_counters" where
  "new_counters w = \<lparr>cn_window_s = w, cn_authn_failures = [], cn_identity_conflicts = []\<rparr>"

definition prune_bucket :: "security_counters \<Rightarrow> instant list \<Rightarrow> instant \<Rightarrow> instant list" where
  "prune_bucket c bucket now = prune_before (now - seconds (cn_window_s c)) bucket"

definition bucket_of :: "security_counters \<Rightarrow> string \<Rightarrow> instant list" where
  "bucket_of c d = (case dget (cn_authn_failures c) d of None \<Rightarrow> [] | Some b \<Rightarrow> b)"

definition record_authn_failure :: "security_counters \<Rightarrow> string \<Rightarrow> instant \<Rightarrow> nat \<times> security_counters" where
  "record_authn_failure c d at =
     (let bucket = prune_bucket c (bucket_of c d @ [at]) at
      in (length bucket, c\<lparr>cn_authn_failures := dset d bucket (cn_authn_failures c)\<rparr>))"

definition authn_failures :: "security_counters \<Rightarrow> string \<Rightarrow> instant \<Rightarrow> nat \<times> security_counters" where
  "authn_failures c d at =
     (case dget (cn_authn_failures c) d of
        None \<Rightarrow> (0, c)
      | Some b \<Rightarrow>
          (let bucket = prune_bucket c b at
           in (length bucket, c\<lparr>cn_authn_failures := dset d bucket (cn_authn_failures c)\<rparr>)))"

definition identity_conflicts :: "security_counters \<Rightarrow> string \<Rightarrow> nat" where
  "identity_conflicts c d = (case dget (cn_identity_conflicts c) d of None \<Rightarrow> 0 | Some n \<Rightarrow> n)"

definition record_identity_conflict :: "security_counters \<Rightarrow> string \<Rightarrow> nat \<times> security_counters" where
  "record_identity_conflict c d =
     (let total = identity_conflicts c d + 1
      in (total, c\<lparr>cn_identity_conflicts := dset d total (cn_identity_conflicts c)\<rparr>))"

definition reset_counters :: "security_counters \<Rightarrow> string option \<Rightarrow> security_counters" where
  "reset_counters c d =
     (case d of
        None \<Rightarrow> c\<lparr>cn_authn_failures := [], cn_identity_conflicts := []\<rparr>
      | Some x \<Rightarrow> c\<lparr>cn_authn_failures := dpop x (cn_authn_failures c),
                    cn_identity_conflicts := dpop x (cn_identity_conflicts c)\<rparr>)"

section \<open>Facts\<close>

lemma counters_window [simp]:
  "cn_window_s (snd (record_authn_failure c d at)) = cn_window_s c"
  "cn_window_s (snd (authn_failures c d at)) = cn_window_s c"
  "cn_window_s (snd (record_identity_conflict c d)) = cn_window_s c"
  by (simp_all add: record_authn_failure_def authn_failures_def record_identity_conflict_def Let_def
      split: option.split)

lemma bucket_of_record [simp]:
  "bucket_of (snd (record_authn_failure c d at)) d' =
     (if d' = d then prune_before (at - seconds (cn_window_s c)) (bucket_of c d @ [at])
      else bucket_of c d')"
  by (simp add: record_authn_failure_def bucket_of_def prune_bucket_def Let_def)

lemma bucket_of_query [simp]:
  "bucket_of (snd (authn_failures c d at)) d' =
     (if d' = d then prune_before (at - seconds (cn_window_s c)) (bucket_of c d) else bucket_of c d')"
  by (auto simp: authn_failures_def bucket_of_def prune_bucket_def Let_def split: option.split)

lemma authn_failures_count:
  "fst (authn_failures c d at) = length (prune_before (at - seconds (cn_window_s c)) (bucket_of c d))"
  by (simp add: authn_failures_def bucket_of_def prune_bucket_def Let_def split: option.split)

text \<open>
  A history of failures and queries for one device at instants that never go back: the count is
  the number of failures recorded within the window before the query.
\<close>

datatype counter_op = Failure instant | Query instant

fun op_at :: "counter_op \<Rightarrow> instant" where
  "op_at (Failure t) = t"
| "op_at (Query t) = t"

fun counter_step :: "string \<Rightarrow> security_counters \<Rightarrow> counter_op \<Rightarrow> security_counters" where
  "counter_step d c (Failure t) = snd (record_authn_failure c d t)"
| "counter_step d c (Query t) = snd (authn_failures c d t)"

fun failure_log :: "counter_op list \<Rightarrow> instant list" where
  "failure_log [] = []"
| "failure_log (Failure t # ops) = t # failure_log ops"
| "failure_log (Query t # ops) = failure_log ops"

lemma failure_log_append [simp]: "failure_log (xs @ ys) = failure_log xs @ failure_log ys"
  by (induction xs rule: failure_log.induct) auto

lemma failure_log_set: "set (failure_log ops) \<subseteq> op_at ` set ops"
  by (induction ops rule: failure_log.induct) auto

lemma failure_log_sorted: "sorted (map op_at ops) \<Longrightarrow> sorted (failure_log ops)"
  using failure_log_set by (induction ops rule: failure_log.induct) fastforce+

lemma counter_step_window [simp]: "cn_window_s (counter_step d c op) = cn_window_s c"
  by (cases op) simp_all

lemma counter_run_bucket:
  assumes "sorted (map op_at ops)" and "bucket_of c d = []" and "0 \<le> cn_window_s c"
  shows "cn_window_s (fold (\<lambda>op c. counter_step d c op) ops c) = cn_window_s c
    \<and> (\<exists>cut. (\<forall>now. (\<forall>op \<in> set ops. op_at op \<le> now) \<longrightarrow> ops \<noteq> [] \<longrightarrow> cut \<le> now - seconds (cn_window_s c))
      \<and> bucket_of (fold (\<lambda>op c. counter_step d c op) ops c) d
          = (if ops = [] then [] else filter (\<lambda>t. cut \<le> t) (failure_log ops)))"
  using assms(1)
proof (induction ops rule: rev_induct)
  case Nil
  then show ?case by (simp add: assms(2))
next
  case (snoc op ops)
  let ?run = "fold (\<lambda>op c. counter_step d c op) ops c"
  let ?w = "seconds (cn_window_s c)"
  have srt: "sorted (map op_at ops)" and le: "\<forall>o' \<in> set ops. op_at o' \<le> op_at op"
    using snoc.prems by (auto simp: sorted_append)
  have w: "cn_window_s ?run = cn_window_s c" and
    "\<exists>cut. (ops \<noteq> [] \<longrightarrow> cut \<le> op_at op - ?w)
      \<and> bucket_of ?run d = (if ops = [] then [] else filter (\<lambda>t. cut \<le> t) (failure_log ops))"
    using snoc.IH [OF srt] le by blast+
  then obtain cut where cut: "ops \<noteq> [] \<longrightarrow> cut \<le> op_at op - ?w"
    "bucket_of ?run d = (if ops = [] then [] else filter (\<lambda>t. cut \<le> t) (failure_log ops))"
    by blast
  let ?c' = "op_at op - ?w"
  have b: "bucket_of ?run d = filter (\<lambda>t. cut \<le> t) (failure_log ops)"
    using cut(2) by simp
  have two: "filter (\<lambda>t. ?c' \<le> t) (filter (\<lambda>t. cut \<le> t) (failure_log ops))
      = filter (\<lambda>t. ?c' \<le> t) (failure_log ops)"
    using cut(1) by (cases "ops = []") (auto intro!: filter_cong)
  have sb: "sorted (bucket_of ?run d)"
    unfolding b by (rule sorted_wrt_filter) (simp add: failure_log_sorted [OF srt])
  have "\<forall>t \<in> set (bucket_of ?run d). t \<le> op_at op"
    unfolding b using failure_log_set le by fastforce
  with sb have sb': "sorted (bucket_of ?run d @ [op_at op])"
    by (simp add: sorted_append)
  have "bucket_of (counter_step d ?run op) d = filter (\<lambda>t. ?c' \<le> t) (failure_log (ops @ [op]))"
    by (cases op) (use sb sb' two b w in \<open>simp_all add: window.prune_sorted\<close>)
  moreover have "\<forall>now. (\<forall>o' \<in> set (ops @ [op]). op_at o' \<le> now) \<longrightarrow> ?c' \<le> now - ?w"
    by simp
  ultimately show ?case
    using w by (intro conjI exI [of _ ?c']) simp_all
qed

lemma counter_run_count:
  assumes "sorted (map op_at ops)" and "\<forall>op \<in> set ops. op_at op \<le> now"
    and "0 \<le> w"
  shows "fst (authn_failures (fold (\<lambda>op c. counter_step d c op) ops (new_counters w)) d now)
    = length (filter (\<lambda>t. now - seconds w \<le> t) (failure_log ops))"
proof -
  let ?run = "fold (\<lambda>op c. counter_step d c op) ops (new_counters w)"
  have new: "bucket_of (new_counters w) d = []" "cn_window_s (new_counters w) = w"
    by (simp_all add: new_counters_def bucket_of_def)
  from counter_run_bucket [OF assms(1) new(1)] assms(2,3) new(2)
  have wr: "cn_window_s ?run = w" and
    "\<exists>cut. (ops \<noteq> [] \<longrightarrow> cut \<le> now - seconds w)
      \<and> bucket_of ?run d = (if ops = [] then [] else filter (\<lambda>t. cut \<le> t) (failure_log ops))"
    by (auto split del: if_split)
  then obtain cut where cut: "ops \<noteq> [] \<longrightarrow> cut \<le> now - seconds w"
      "bucket_of ?run d = (if ops = [] then [] else filter (\<lambda>t. cut \<le> t) (failure_log ops))"
    by blast
  show ?thesis
  proof (cases "ops = []")
    case True
    then show ?thesis by (simp add: authn_failures_count new)
  next
    case False
    with cut have b: "bucket_of ?run d = filter (\<lambda>t. cut \<le> t) (failure_log ops)" "cut \<le> now - seconds w"
      by auto
    then have "sorted (bucket_of ?run d)"
      using sorted_wrt_filter [of "(\<le>)" "failure_log ops"] failure_log_sorted [OF assms(1)] by simp
    then have "prune_before (now - seconds w) (bucket_of ?run d)
       = filter (\<lambda>t. now - seconds w \<le> t) (filter (\<lambda>t. cut \<le> t) (failure_log ops))"
      using b(1) by (simp add: window.prune_sorted)
    also have "\<dots> = filter (\<lambda>t. now - seconds w \<le> t) (failure_log ops)"
      using b(2) by (auto intro!: filter_cong)
    finally show ?thesis
      by (simp add: authn_failures_count wr)
  qed
qed

end
