(* ===== verification/Strategies.thy ===== *)
theory Strategies
  imports Enforcement Proof Access_Collectors Counters
begin

text \<open>
  The three decision strategies over their shared services
  (\<^verbatim>\<open>src/ca_ztcf/strategies/interface.py\<close>, \<^verbatim>\<open>ca_ztcf.py\<close>, \<^verbatim>\<open>independent.py\<close>,
  \<^verbatim>\<open>static_continuity.py\<close>). The services are one record that every strategy threads; the
  session tokens are the private state of the static baseline. What one decision draws from outside
  (clock readings, generated identifiers, duration counters) is the record \<open>draws\<close>: one clock
  reading per service that reads the clock.
\<close>

section \<open>Requests, outcomes, services\<close>

record access_request =
  rq_device_id :: string
  rq_peer_address :: string
  rq_domain :: access_domain
  rq_session_identity :: "string option"
  rq_proof :: "proof_of_possession option"
  rq_resource :: "string option"
  rq_at :: "instant option"

record strategy_outcome =
  so_decision :: decision
  so_evidence :: "evidence_record option"
  so_predicates :: "predicate_vector option"
  so_trust_evaluation :: "trust_evaluation option"
  so_notes :: "(string, string) dict"

record services =
  sy_settings :: settings
  sy_matrix :: policy_matrix
  sy_registry :: registry
  sy_nonces :: nonce_issuer
  sy_proofs :: proof_store
  sy_bindings :: binding_store
  sy_transitions :: transition_collector
  sy_states :: trust_state_manager
  sy_counters :: security_counters

record draws =
  dw_now :: instant
  dw_clk_verify :: instant
  dw_clk_observe :: instant
  dw_clk_claim :: instant
  dw_clk_direct :: instant
  dw_transition_id :: string
  dw_record_id :: string
  dw_trace_id :: string
  dw_evaluation_id :: string
  dw_decision_id :: string
  dw_engine_ns :: "int \<times> int"
  dw_policy_ns :: "int \<times> int"

definition decision_now :: "draws \<Rightarrow> access_request \<Rightarrow> instant" where
  "decision_now dw rq = (case rq_at rq of Some t \<Rightarrow> t | None \<Rightarrow> dw_now dw)"

definition proof_ttl_s :: "services \<Rightarrow> int" where
  "proof_ttl_s sy = es_proof_of_possession_ttl_s (st_evidence (sy_settings sy))"

section \<open>Shared steps\<close>

text \<open>
  A presented proof is verified, stored when valid, and counted as an authentication failure when
  not; without one the stored proof is used while it lives.
\<close>

definition proof_step ::
  "'k crypto \<Rightarrow> draws \<Rightarrow> services \<Rightarrow> access_request \<Rightarrow> device_identity \<Rightarrow> pop_result option \<times> services" where
  "proof_step cr dw sy rq i =
     (let now = decision_now dw rq in
      case rq_proof rq of
        Some p \<Rightarrow>
          (case verify cr (dw_clk_verify dw) (sy_nonces sy) i p of (r, nonces) \<Rightarrow>
             (let sy1 = sy\<lparr>sy_nonces := nonces, sy_proofs := snd (ps_record (sy_proofs sy) r)\<rparr>
              in (Some r,
                  if \<not> pr_valid r then
                    sy1\<lparr>sy_counters := snd (record_authn_failure (sy_counters sy1) (rq_device_id rq) now)\<rparr>
                  else sy1)))
      | None \<Rightarrow>
          (case ps_get (proof_ttl_s sy) (sy_proofs sy) (rq_device_id rq) now of (r, proofs) \<Rightarrow>
             (r, sy\<lparr>sy_proofs := proofs\<rparr>)))"

definition observe_step ::
  "draws \<Rightarrow> services \<Rightarrow> access_request \<Rightarrow> transition_event option \<times> services" where
  "observe_step dw sy rq =
     (case observe (dw_clk_observe dw) (Some (sy_bindings sy)) (dw_transition_id dw) (sy_transitions sy)
             (rq_device_id rq) (rq_domain rq) (Some (rq_peer_address rq)) (decision_now dw rq) of
        (e, tc) \<Rightarrow> (e, sy\<lparr>sy_transitions := tc\<rparr>))"

definition context_step :: "draws \<Rightarrow> services \<Rightarrow> access_request \<Rightarrow> transition_context \<times> services" where
  "context_step dw sy rq =
     (case context_for (sy_transitions sy) (rq_device_id rq) (decision_now dw rq) of
        (c, tc) \<Rightarrow> (c, sy\<lparr>sy_transitions := tc\<rparr>))"

definition direct_decision ::
  "draws \<Rightarrow> services \<Rightarrow> string \<Rightarrow> string \<Rightarrow> trust_state \<Rightarrow> transition_context \<Rightarrow> string list \<Rightarrow> decision result" where
  "direct_decision dw sy name d st ctx reasons =
     direct (sy_matrix sy) (dw_decision_id dw) (fst (dw_policy_ns dw)) (snd (dw_policy_ns dw))
       (dw_clk_direct dw) d st ctx name reasons"

definition baseline_outcome :: "decision \<Rightarrow> (string, string) dict \<Rightarrow> strategy_outcome" where
  "baseline_outcome d notes =
     \<lparr>so_decision = d, so_evidence = None, so_predicates = None, so_trust_evaluation = None, so_notes = notes\<rparr>"

section \<open>The proposed strategy\<close>

definition session_consistent :: "access_request \<Rightarrow> bool" where
  "session_consistent rq \<longleftrightarrow>
     (case rq_session_identity rq of
        None \<Rightarrow> True
      | Some si \<Rightarrow> si = rq_device_id rq \<or> prefix (rq_device_id rq @ '':'') si)"

definition identity_step ::
  "'k crypto \<Rightarrow> draws \<Rightarrow> services \<Rightarrow> access_request \<Rightarrow> pop_result option \<times> services" where
  "identity_step cr dw sy rq =
     (case reg_get (sy_registry sy) (rq_device_id rq) of
        None \<Rightarrow> (None, sy)
      | Some i \<Rightarrow> proof_step cr dw sy rq i)"

definition claim_step ::
  "draws \<Rightarrow> services \<Rightarrow> access_request \<Rightarrow> access_binding option \<times> bool \<times> services" where
  "claim_step dw sy rq =
     (case claim (dw_clk_claim dw) (sy_bindings sy) (rq_peer_address rq) (rq_device_id rq) of
        (b, consistent, bs) \<Rightarrow>
          (let sy1 = sy\<lparr>sy_bindings := bs\<rparr>
           in (b, consistent,
               if \<not> consistent then
                 sy1\<lparr>sy_counters := snd (record_identity_conflict (sy_counters sy1) (rq_device_id rq))\<rparr>
               else sy1)))"

text \<open>The assembler inputs; counting transitions and failures prunes their windows.\<close>

definition inputs_step ::
  "draws \<Rightarrow> services \<Rightarrow> access_request \<Rightarrow> pop_result option \<Rightarrow> access_binding option \<Rightarrow> bool
     \<Rightarrow> assembler_inputs \<times> services" where
  "inputs_step dw sy rq pop binding consistent =
     (let d = rq_device_id rq; now = decision_now dw rq; tc = sy_transitions sy in
      case transitions_in_window tc d now of (n, tc') \<Rightarrow>
      (case authn_failures (sy_counters sy) d now of (f, cn') \<Rightarrow>
        (\<lparr>ai_device_id = d, ai_identity = reg_get (sy_registry sy) d, ai_pop_result = pop,
          ai_binding = binding, ai_binding_consistent = consistent,
          ai_current_domain = current_domain tc d, ai_previous_domain = previous_domain tc d,
          ai_transition = last_transition tc d,
          ai_transition_recent = is_transition_recent tc d now,
          ai_transitions_in_window = n, ai_authentication_failure_count = f,
          ai_session_consistent = session_consistent rq, ai_collector_available = True\<rparr>,
         sy\<lparr>sy_transitions := tc', sy_counters := cn'\<rparr>)))"

text \<open>What the request is about to be judged on: inputs, context, and the event observed.\<close>

definition gather ::
  "'k crypto \<Rightarrow> draws \<Rightarrow> services \<Rightarrow> access_request
     \<Rightarrow> assembler_inputs \<times> transition_context \<times> transition_event option \<times> services" where
  "gather cr dw sy0 rq =
     (case identity_step cr dw sy0 rq of (pop, sy1) \<Rightarrow>
      (case observe_step dw sy1 rq of (tr, sy2) \<Rightarrow>
       (case context_step dw sy2 rq of (ctx, sy3) \<Rightarrow>
        (case claim_step dw sy3 rq of (binding, consistent, sy4) \<Rightarrow>
         (case inputs_step dw sy4 rq pop binding consistent of (ins, sy5) \<Rightarrow>
           (ins, ctx, tr, sy5))))))"

text \<open>Judging: evidence, predicates, state, policy. The new state is recorded before the policy runs.\<close>

definition judge ::
  "draws \<Rightarrow> services \<Rightarrow> string \<Rightarrow> assembler_inputs \<Rightarrow> instant \<Rightarrow> transition_context \<Rightarrow> (string, string) dict
     \<Rightarrow> strategy_outcome result \<times> services" where
  "judge dw sy name ins now ctx notes =
     (case assemble (sy_settings sy) (dw_record_id dw) ins now of
        Inl err \<Rightarrow> (Inl err, sy)
      | Inr r \<Rightarrow>
          (let v = evaluate_predicates (sy_settings sy) (dw_trace_id dw) r in
           case evaluate_trust (sy_settings sy) (dw_evaluation_id dw) (fst (dw_engine_ns dw))
                  (snd (dw_engine_ns dw)) r v (sm_state (sy_states sy) (ai_device_id ins)) of
             Inl err \<Rightarrow> (Inl err, sy)
           | Inr ev \<Rightarrow>
               (let sy' = sy\<lparr>sy_states := snd (sm_record (sy_states sy) ev)\<rparr> in
                case evaluate_policy (sy_matrix sy) (dw_decision_id dw) (fst (dw_policy_ns dw))
                       (snd (dw_policy_ns dw)) ev ctx name [] of
                  Inl err \<Rightarrow> (Inl err, sy')
                | Inr d \<Rightarrow>
                    (Inr \<lparr>so_decision = d, so_evidence = Some r, so_predicates = Some v,
                          so_trust_evaluation = Some ev, so_notes = notes\<rparr>, sy'))))"

definition ca_ztcf_decide ::
  "'k crypto \<Rightarrow> string \<Rightarrow> draws \<Rightarrow> services \<Rightarrow> access_request \<Rightarrow> strategy_outcome result \<times> services" where
  "ca_ztcf_decide cr name dw sy rq =
     (case gather cr dw sy rq of (ins, ctx, tr, sy') \<Rightarrow>
        judge dw sy' name ins (decision_now dw rq) ctx
          [(''transition_detected'', bool_text (tr \<noteq> None))])"

section \<open>Baseline A: independent authentication\<close>

definition param_or :: "string \<Rightarrow> int \<Rightarrow> strategy_definition \<Rightarrow> int" where
  "param_or key dflt def = (case dget (sd_parameters def) key of None \<Rightarrow> dflt | Some v \<Rightarrow> v)"

definition independent_outcome ::
  "draws \<Rightarrow> services \<Rightarrow> string \<Rightarrow> access_request \<Rightarrow> trust_state \<Rightarrow> transition_context \<Rightarrow> string list
     \<Rightarrow> bool \<Rightarrow> strategy_outcome result" where
  "independent_outcome dw sy name rq st ctx reasons force_reauthenticate =
     and_then (if force_reauthenticate
               then direct_decision dw sy name (rq_device_id rq) SUSPICIOUS CtxNone reasons
               else direct_decision dw sy name (rq_device_id rq) st ctx reasons)
       (\<lambda>d. Inr (baseline_outcome d [(''baseline'', ''A'')]))"

definition independent_proof ::
  "'k crypto \<Rightarrow> strategy_definition \<Rightarrow> draws \<Rightarrow> services \<Rightarrow> access_request \<Rightarrow> device_identity
     \<Rightarrow> transition_context \<Rightarrow> strategy_outcome result \<times> services" where
  "independent_proof cr def dw sy rq i ctx =
     (case proof_step cr dw sy rq i of (pop, sy') \<Rightarrow>
        (case pop of
           None \<Rightarrow> (independent_outcome dw sy' (sd_name def) rq DEGRADED ctx [''POP_NOT_PRESENTED''] False, sy')
         | Some r \<Rightarrow>
             (case (if pr_valid r then pr_verified_at r else None) of
                None \<Rightarrow> (independent_outcome dw sy' (sd_name def) rq DEGRADED ctx [pr_reason r] False, sy')
              | Some t \<Rightarrow>
                  (case is_fresh t (decision_now dw rq)
                          (param_or ''proof_of_possession_ttl_s'' (proof_ttl_s sy) def) of
                     Inl err \<Rightarrow> (Inl err, sy')
                   | Inr fresh \<Rightarrow>
                       (if \<not> fresh then independent_outcome dw sy' (sd_name def) rq DEGRADED ctx [''POP_STALE''] False
                        else independent_outcome dw sy' (sd_name def) rq STABLE CtxNone
                               [''BASELINE_A_FULLY_AUTHENTICATED''] False,
                        sy')))))"

definition independent_decide ::
  "'k crypto \<Rightarrow> strategy_definition \<Rightarrow> draws \<Rightarrow> services \<Rightarrow> access_request
     \<Rightarrow> strategy_outcome result \<times> services" where
  "independent_decide cr def dw sy0 rq =
     (case observe_step dw sy0 rq of (_, sy1) \<Rightarrow>
      (let recent = is_transition_recent (sy_transitions sy1) (rq_device_id rq) (decision_now dw rq) in
       case context_step dw sy1 rq of (ctx, sy2) \<Rightarrow>
        (case reg_get (sy_registry sy2) (rq_device_id rq) of
           None \<Rightarrow> (independent_outcome dw sy2 (sd_name def) rq UNKNOWN ctx [''DEVICE_NOT_REGISTERED''] False, sy2)
         | Some i \<Rightarrow>
             (case registry_status_reason (Some i) of (valid, reason) \<Rightarrow>
                if \<not> valid then
                  (independent_outcome dw sy2 (sd_name def) rq UNTRUSTED ctx [reason] False, sy2)
                else if recent then
                  (independent_outcome dw sy2 (sd_name def) rq
                     (if ctx = REPEATED then SUSPICIOUS else UNKNOWN) CtxNone
                     [''BASELINE_A_TRANSITION_REQUIRES_FULL_REAUTHENTICATION''] True, sy2)
                else independent_proof cr def dw sy2 rq i ctx))))"

section \<open>Baseline B: static continuity\<close>

record session_token =
  tk_device_id :: string
  tk_issued_at :: instant
  tk_expires_at :: instant

definition token_valid :: "session_token \<Rightarrow> instant \<Rightarrow> bool" where
  "token_valid t now \<longleftrightarrow> now \<le> tk_expires_at t"

type_synonym tokens = "(string, session_token) dict"

definition token_ttl_s :: "strategy_definition \<Rightarrow> int" where
  "token_ttl_s def = param_or ''token_ttl_s'' 300 def"

definition static_outcome ::
  "draws \<Rightarrow> services \<Rightarrow> strategy_definition \<Rightarrow> access_request \<Rightarrow> trust_state \<Rightarrow> string list
     \<Rightarrow> (string, string) dict \<Rightarrow> strategy_outcome result" where
  "static_outcome dw sy def rq st reasons notes =
     and_then (direct_decision dw sy (sd_name def) (rq_device_id rq) st CtxNone reasons)
       (\<lambda>d. Inr (baseline_outcome d ((''baseline'', ''B'') # notes)))"

definition static_authenticate ::
  "'k crypto \<Rightarrow> strategy_definition \<Rightarrow> draws \<Rightarrow> tokens \<Rightarrow> services \<Rightarrow> access_request
     \<Rightarrow> strategy_outcome result \<times> tokens \<times> services" where
  "static_authenticate cr def dw toks sy rq =
     (let none = [(''token'', ''none'')] in
      case reg_get (sy_registry sy) (rq_device_id rq) of
        None \<Rightarrow> (static_outcome dw sy def rq UNKNOWN [''DEVICE_NOT_REGISTERED''] none, toks, sy)
      | Some i \<Rightarrow>
          (case registry_status_reason (Some i) of (valid, reason) \<Rightarrow>
             if \<not> valid then (static_outcome dw sy def rq UNTRUSTED [reason] none, toks, sy)
             else
               (case proof_step cr dw sy rq i of (pop, sy') \<Rightarrow>
                  (case pop of
                     None \<Rightarrow> (static_outcome dw sy' def rq DEGRADED [''POP_NOT_PRESENTED''] none, toks, sy')
                   | Some r \<Rightarrow>
                       if \<not> pr_valid r then
                         (static_outcome dw sy' def rq DEGRADED [pr_reason r] none, toks, sy')
                       else
                         (let now = decision_now dw rq;
                              tok = \<lparr>tk_device_id = rq_device_id rq, tk_issued_at = now,
                                     tk_expires_at = now + seconds (token_ttl_s def)\<rparr>
                          in (static_outcome dw sy' def rq STABLE [''BASELINE_B_SESSION_TOKEN_ISSUED'']
                                [(''token'', ''issued''), (''token_ttl_s'', show_int (token_ttl_s def))],
                              dset (rq_device_id rq) tok toks, sy'))))))"

definition static_decide ::
  "'k crypto \<Rightarrow> strategy_definition \<Rightarrow> draws \<Rightarrow> tokens \<Rightarrow> services \<Rightarrow> access_request
     \<Rightarrow> strategy_outcome result \<times> tokens \<times> services" where
  "static_decide cr def dw toks sy0 rq =
     (case observe_step dw sy0 rq of (_, sy) \<Rightarrow>
        (case dget toks (rq_device_id rq) of
           Some t \<Rightarrow>
             if token_valid t (decision_now dw rq) then
               (static_outcome dw sy def rq STABLE [''BASELINE_B_SESSION_TOKEN_VALID'']
                  [(''token'', ''reused''), (''token_ttl_s'', show_int (token_ttl_s def))], toks, sy)
             else static_authenticate cr def dw (dpop (rq_device_id rq) toks) sy rq
         | None \<Rightarrow> static_authenticate cr def dw toks sy rq))"

section \<open>Choosing the implementation\<close>

text \<open>\<open>build_strategy\<close>: the configured kind names the implementation; the pydantic model admits no other.\<close>

definition decide ::
  "'k crypto \<Rightarrow> strategy_definition \<Rightarrow> draws \<Rightarrow> tokens \<Rightarrow> services \<Rightarrow> access_request
     \<Rightarrow> strategy_outcome result \<times> tokens \<times> services" where
  "decide cr def dw toks sy rq =
     (case sd_kind def of
        K_CA_ZTCF \<Rightarrow> (case ca_ztcf_decide cr (sd_name def) dw sy rq of (r, sy') \<Rightarrow> (r, toks, sy'))
      | K_INDEPENDENT \<Rightarrow> (case independent_decide cr def dw sy rq of (r, sy') \<Rightarrow> (r, toks, sy'))
      | K_STATIC_CONTINUITY \<Rightarrow> static_decide cr def dw toks sy rq)"

section \<open>What the steps leave alone, and the services' invariant\<close>

definition services_ok :: "services \<Rightarrow> bool" where
  "services_ok sy \<longleftrightarrow> registry_ok (sy_registry sy) \<and> issuer_ok (sy_nonces sy)
     \<and> proof_store_ok (sy_proofs sy) \<and> binding_store_ok (sy_bindings sy) \<and> tracks_ok (sy_transitions sy)"

text \<open>What no strategy changes.\<close>

definition same_policy :: "services \<Rightarrow> services \<Rightarrow> bool" where
  "same_policy sy sy' \<longleftrightarrow> sy_settings sy' = sy_settings sy \<and> sy_matrix sy' = sy_matrix sy
     \<and> sy_registry sy' = sy_registry sy"

lemma same_policy_refl [simp]: "same_policy sy sy"
  by (simp add: same_policy_def)

lemma same_policy_trans: "same_policy a b \<Longrightarrow> same_policy b c \<Longrightarrow> same_policy a c"
  by (simp add: same_policy_def)

lemma proof_step_frame:
  "same_policy sy (snd (proof_step cr dw sy rq i))"
  "sy_bindings (snd (proof_step cr dw sy rq i)) = sy_bindings sy"
  "sy_transitions (snd (proof_step cr dw sy rq i)) = sy_transitions sy"
  "sy_states (snd (proof_step cr dw sy rq i)) = sy_states sy"
  by (simp_all add: proof_step_def same_policy_def Let_def split: option.split prod.split)

lemma proof_step_ok:
  assumes "services_ok sy"
  shows "services_ok (snd (proof_step cr dw sy rq i))"
proof (cases "rq_proof rq")
  case None
  obtain r ps where g: "ps_get (proof_ttl_s sy) (sy_proofs sy) (rq_device_id rq) (decision_now dw rq) = (r, ps)"
    by fastforce
  then have "proof_store_ok ps"
    using ps_get_ok [of "sy_proofs sy" "proof_ttl_s sy" "rq_device_id rq" "decision_now dw rq"] assms
    by (simp add: services_ok_def)
  with None assms g show ?thesis by (simp add: proof_step_def services_ok_def)
next
  case (Some p)
  obtain r ni where v: "verify cr (dw_clk_verify dw) (sy_nonces sy) i p = (r, ni)" by fastforce
  then have "issuer_ok ni"
    using verify_issuer_ok [of "sy_nonces sy" cr "dw_clk_verify dw" i p] assms by (simp add: services_ok_def)
  with Some assms v show ?thesis by (simp add: proof_step_def services_ok_def Let_def ps_record_ok)
qed

lemma observe_step_frame:
  "same_policy sy (snd (observe_step dw sy rq))"
  "sy_bindings (snd (observe_step dw sy rq)) = sy_bindings sy"
  "sy_states (snd (observe_step dw sy rq)) = sy_states sy"
  "sy_nonces (snd (observe_step dw sy rq)) = sy_nonces sy"
  "sy_proofs (snd (observe_step dw sy rq)) = sy_proofs sy"
  by (simp_all add: observe_step_def same_policy_def split: prod.split)

lemma observe_step_ok: "services_ok sy \<Longrightarrow> services_ok (snd (observe_step dw sy rq))"
  using observe_detailed_ok [of "sy_transitions sy" "dw_clk_observe dw" "Some (sy_bindings sy)"
      "dw_transition_id dw" "rq_device_id rq" "rq_domain rq" "Some (rq_peer_address rq)" "decision_now dw rq"]
  by (auto simp: observe_step_def observe_def services_ok_def split: prod.splits)

lemma context_step_frame:
  "same_policy sy (snd (context_step dw sy rq))"
  "sy_bindings (snd (context_step dw sy rq)) = sy_bindings sy"
  "sy_states (snd (context_step dw sy rq)) = sy_states sy"
  "sy_transitions (snd (context_step dw sy rq))
     = snd (context_for (sy_transitions sy) (rq_device_id rq) (decision_now dw rq))"
  by (simp_all add: context_step_def same_policy_def split: prod.split)

lemma context_step_ok: "services_ok sy \<Longrightarrow> services_ok (snd (context_step dw sy rq))"
  using context_for_ok [of "sy_transitions sy" "rq_device_id rq" "decision_now dw rq"]
  by (auto simp: context_step_def services_ok_def split: prod.splits)

lemma identity_step_frame:
  "same_policy sy (snd (identity_step cr dw sy rq))"
  "sy_bindings (snd (identity_step cr dw sy rq)) = sy_bindings sy"
  "sy_states (snd (identity_step cr dw sy rq)) = sy_states sy"
  by (simp_all add: identity_step_def proof_step_frame split: option.split)

lemma identity_step_ok: "services_ok sy \<Longrightarrow> services_ok (snd (identity_step cr dw sy rq))"
  by (simp add: identity_step_def proof_step_ok split: option.split)

lemma claim_step_eq:
  "fst (claim_step dw sy rq) = fst (claim (dw_clk_claim dw) (sy_bindings sy) (rq_peer_address rq) (rq_device_id rq))"
  "fst (snd (claim_step dw sy rq)) =
     fst (snd (claim (dw_clk_claim dw) (sy_bindings sy) (rq_peer_address rq) (rq_device_id rq)))"
  "sy_bindings (snd (snd (claim_step dw sy rq))) =
     snd (snd (claim (dw_clk_claim dw) (sy_bindings sy) (rq_peer_address rq) (rq_device_id rq)))"
  "same_policy sy (snd (snd (claim_step dw sy rq)))"
  "sy_states (snd (snd (claim_step dw sy rq))) = sy_states sy"
  "sy_transitions (snd (snd (claim_step dw sy rq))) = sy_transitions sy"
  by (simp_all add: claim_step_def same_policy_def Let_def split: prod.split)

lemma claim_step_ok: "services_ok sy \<Longrightarrow> services_ok (snd (snd (claim_step dw sy rq)))"
  using claim_ok [of "sy_bindings sy" "dw_clk_claim dw" "rq_peer_address rq" "rq_device_id rq"]
  by (auto simp: claim_step_def services_ok_def Let_def split: prod.splits)

lemma inputs_step_frame:
  "same_policy sy (snd (inputs_step dw sy rq pop b c))"
  "sy_bindings (snd (inputs_step dw sy rq pop b c)) = sy_bindings sy"
  "sy_states (snd (inputs_step dw sy rq pop b c)) = sy_states sy"
  by (simp_all add: inputs_step_def same_policy_def Let_def split: prod.split)

lemma inputs_step_ok: "services_ok sy \<Longrightarrow> services_ok (snd (inputs_step dw sy rq pop b c))"
  using transitions_in_window_ok [of "sy_transitions sy" "rq_device_id rq" "decision_now dw rq"]
  by (auto simp: inputs_step_def services_ok_def Let_def split: prod.splits)

lemma inputs_step_values:
  "ai_device_id (fst (inputs_step dw sy rq pop b c)) = rq_device_id rq"
  "ai_identity (fst (inputs_step dw sy rq pop b c)) = reg_get (sy_registry sy) (rq_device_id rq)"
  "ai_pop_result (fst (inputs_step dw sy rq pop b c)) = pop"
  "ai_binding (fst (inputs_step dw sy rq pop b c)) = b"
  "ai_binding_consistent (fst (inputs_step dw sy rq pop b c)) = c"
  "ai_transition_recent (fst (inputs_step dw sy rq pop b c)) =
     is_transition_recent (sy_transitions sy) (rq_device_id rq) (decision_now dw rq)"
  "ai_session_consistent (fst (inputs_step dw sy rq pop b c)) = session_consistent rq"
  by (simp_all add: inputs_step_def Let_def split: prod.split)

lemma context_for_recent:
  "is_transition_recent (snd (context_for tc d now)) d' now' = is_transition_recent tc d' now'"
  by (simp add: is_transition_recent_def context_for_frame split: option.split)

section \<open>What the proposed strategy judges\<close>

lemma gather_facts:
  assumes "gather cr dw sy rq = (ins, ctx, tr, sy')"
  shows "ai_device_id ins = rq_device_id rq"
    and "ai_identity ins = reg_get (sy_registry sy) (rq_device_id rq)"
    and "same_policy sy sy'"
    and "sy_states sy' = sy_states sy"
    and "ai_binding ins = fst (claim (dw_clk_claim dw) (sy_bindings sy) (rq_peer_address rq) (rq_device_id rq))"
    and "ai_binding_consistent ins =
       fst (snd (claim (dw_clk_claim dw) (sy_bindings sy) (rq_peer_address rq) (rq_device_id rq)))"
    and "sy_bindings sy' =
       snd (snd (claim (dw_clk_claim dw) (sy_bindings sy) (rq_peer_address rq) (rq_device_id rq)))"
    and "ctx = CtxNone \<longleftrightarrow> \<not> ai_transition_recent ins"
    and "ai_pop_result ins = fst (identity_step cr dw sy rq)"
    and "ai_session_consistent ins = session_consistent rq"
    and "services_ok sy \<Longrightarrow> services_ok sy'"
proof -
  let ?s1 = "snd (identity_step cr dw sy rq)"
  let ?s2 = "snd (observe_step dw ?s1 rq)"
  let ?s3 = "snd (context_step dw ?s2 rq)"
  let ?c = "claim_step dw ?s3 rq"
  let ?s4 = "snd (snd ?c)"
  let ?i = "inputs_step dw ?s4 rq (fst (identity_step cr dw sy rq)) (fst ?c) (fst (snd ?c))"
  have eqs: "ins = fst ?i" "sy' = snd ?i" "ctx = fst (context_step dw ?s2 rq)"
    using assms by (auto simp: gather_def split: prod.splits)
  have b: "sy_bindings ?s3 = sy_bindings sy"
    by (simp add: context_step_frame observe_step_frame identity_step_frame)
  have pol: "same_policy sy ?s4"
    by (meson same_policy_trans identity_step_frame observe_step_frame context_step_frame claim_step_eq)
  then show "same_policy sy sy'"
    unfolding eqs by (meson same_policy_trans inputs_step_frame)
  show "ai_identity ins = reg_get (sy_registry sy) (rq_device_id rq)"
    using pol by (simp add: eqs inputs_step_values same_policy_def)
  show "ai_device_id ins = rq_device_id rq" "ai_pop_result ins = fst (identity_step cr dw sy rq)"
    "ai_session_consistent ins = session_consistent rq"
    by (simp_all add: eqs inputs_step_values)
  show "sy_states sy' = sy_states sy"
    by (simp add: eqs inputs_step_frame claim_step_eq context_step_frame observe_step_frame identity_step_frame)
  show "ai_binding ins = fst (claim (dw_clk_claim dw) (sy_bindings sy) (rq_peer_address rq) (rq_device_id rq))"
    "ai_binding_consistent ins =
       fst (snd (claim (dw_clk_claim dw) (sy_bindings sy) (rq_peer_address rq) (rq_device_id rq)))"
    "sy_bindings sy' =
       snd (snd (claim (dw_clk_claim dw) (sy_bindings sy) (rq_peer_address rq) (rq_device_id rq)))"
    by (simp_all add: eqs inputs_step_values inputs_step_frame claim_step_eq b)
  have "fst (context_step dw ?s2 rq)
      = fst (context_for (sy_transitions ?s2) (rq_device_id rq) (decision_now dw rq))"
    by (simp add: context_step_def split: prod.split)
  then show "ctx = CtxNone \<longleftrightarrow> \<not> ai_transition_recent ins"
    by (simp add: eqs inputs_step_values claim_step_eq context_step_frame context_none_iff
        context_for_recent)
  show "services_ok sy \<Longrightarrow> services_ok sy'"
    unfolding eqs by (intro inputs_step_ok claim_step_ok context_step_ok observe_step_ok identity_step_ok)
qed

lemma judge_Inr:
  assumes v: "evidence_valid (st_evidence (sy_settings sy))"
    and "judge dw sy name ins now ctx notes = (Inr so, sy')"
  shows "dc_trust_state (so_decision so) = classify (sy_settings sy) ins now"
    and "dc_device_id (so_decision so) = ai_device_id ins"
    and "dc_transition_context (so_decision so) = ctx"
    and "dc_created_at (so_decision so) = now"
    and "\<exists>out. lookup (sy_matrix sy) (dc_trust_state (so_decision so)) ctx = Inr out
          \<and> dc_action (so_decision so) = mo_action out
          \<and> dc_scope (so_decision so) = resolve (mo_scope out) (ai_device_id ins)
          \<and> dc_rule_id (so_decision so) = mo_rule_id out"
    and "sm_state (sy_states sy') (ai_device_id ins) = Some (dc_trust_state (so_decision so))"
proof -
  from pipeline_classifies [OF v, of "dw_record_id dw" ins now "dw_evaluation_id dw" "fst (dw_engine_ns dw)"
      "snd (dw_engine_ns dw)" "dw_trace_id dw" "sm_state (sy_states sy) (ai_device_id ins)"]
  obtain r ev where r: "assemble (sy_settings sy) (dw_record_id dw) ins now = Inr r"
    and ev: "evaluate_trust (sy_settings sy) (dw_evaluation_id dw) (fst (dw_engine_ns dw))
       (snd (dw_engine_ns dw)) r (evaluate_predicates (sy_settings sy) (dw_trace_id dw) r)
       (sm_state (sy_states sy) (ai_device_id ins)) = Inr ev"
    and e: "tv_new_state ev = classify (sy_settings sy) ins now" "tv_device_id ev = ai_device_id ins"
      "tv_evaluated_at ev = now"
    by blast
  from assms(2) r ev obtain d where
    d: "evaluate_policy (sy_matrix sy) (dw_decision_id dw) (fst (dw_policy_ns dw))
          (snd (dw_policy_ns dw)) ev ctx name [] = Inr d"
    and so: "so_decision so = d" and sy': "sy' = sy\<lparr>sy_states := snd (sm_record (sy_states sy) ev)\<rparr>"
    by (auto simp: judge_def Let_def split: sum.splits)
  note f = evaluate_policy_fields [OF d]
  show "dc_trust_state (so_decision so) = classify (sy_settings sy) ins now"
    "dc_device_id (so_decision so) = ai_device_id ins" "dc_transition_context (so_decision so) = ctx"
    "dc_created_at (so_decision so) = now"
    "\<exists>out. lookup (sy_matrix sy) (dc_trust_state (so_decision so)) ctx = Inr out
          \<and> dc_action (so_decision so) = mo_action out
          \<and> dc_scope (so_decision so) = resolve (mo_scope out) (ai_device_id ins)
          \<and> dc_rule_id (so_decision so) = mo_rule_id out"
    using f e by (simp_all add: so)
  show "sm_state (sy_states sy') (ai_device_id ins) = Some (dc_trust_state (so_decision so))"
    using f e by (simp add: so sy' sm_record_state)
qed

lemma judge_services:
  "same_policy sy (snd (judge dw sy name ins now ctx notes))"
  "sy_bindings (snd (judge dw sy name ins now ctx notes)) = sy_bindings sy"
  "services_ok (snd (judge dw sy name ins now ctx notes)) = services_ok sy"
  by (auto simp: judge_def same_policy_def services_ok_def Let_def split: sum.split)

lemma judge_total:
  assumes v: "evidence_valid (st_evidence (sy_settings sy))"
    and out: "lookup (sy_matrix sy) (classify (sy_settings sy) ins now) ctx = Inr out"
    and ttl: "mx_ttl_ms (sy_matrix sy) (mo_action out) = Inr ttl"
  shows "\<exists>so sy'. judge dw sy name ins now ctx notes = (Inr so, sy')"
proof -
  from pipeline_classifies [OF v, of "dw_record_id dw" ins now "dw_evaluation_id dw" "fst (dw_engine_ns dw)"
      "snd (dw_engine_ns dw)" "dw_trace_id dw" "sm_state (sy_states sy) (ai_device_id ins)"]
  obtain r ev where "assemble (sy_settings sy) (dw_record_id dw) ins now = Inr r"
    "evaluate_trust (sy_settings sy) (dw_evaluation_id dw) (fst (dw_engine_ns dw))
       (snd (dw_engine_ns dw)) r (evaluate_predicates (sy_settings sy) (dw_trace_id dw) r)
       (sm_state (sy_states sy) (ai_device_id ins)) = Inr ev"
    "tv_new_state ev = classify (sy_settings sy) ins now"
    by blast
  with out ttl show ?thesis
    by (simp add: judge_def Let_def evaluate_policy_def)
qed

text \<open>The decision of the proposed strategy, as a function of what was gathered.\<close>

lemma ca_ztcf_decide_facts:
  assumes v: "evidence_valid (st_evidence (sy_settings sy))"
    and g: "gather cr dw sy rq = (ins, ctx, tr, sy1)"
    and d: "ca_ztcf_decide cr name dw sy rq = (Inr so, sy')"
  shows "dc_trust_state (so_decision so) = classify (sy_settings sy) ins (decision_now dw rq)"
    and "dc_device_id (so_decision so) = rq_device_id rq"
    and "dc_transition_context (so_decision so) = ctx"
    and "\<exists>out. lookup (sy_matrix sy) (dc_trust_state (so_decision so)) ctx = Inr out
          \<and> dc_action (so_decision so) = mo_action out
          \<and> dc_scope (so_decision so) = resolve (mo_scope out) (rq_device_id rq)
          \<and> dc_rule_id (so_decision so) = mo_rule_id out"
    and "sm_state (sy_states sy') (rq_device_id rq) = Some (dc_trust_state (so_decision so))"
proof -
  note gf = gather_facts [OF g]
  have pol: "sy_settings sy1 = sy_settings sy" "sy_matrix sy1 = sy_matrix sy"
    using gf(3) by (simp_all add: same_policy_def)
  have j: "judge dw sy1 name ins (decision_now dw rq) ctx
      [(''transition_detected'', bool_text (tr \<noteq> None))] = (Inr so, sy')"
    using d g by (simp add: ca_ztcf_decide_def)
  have v1: "evidence_valid (st_evidence (sy_settings sy1))" using v pol by simp
  note f = judge_Inr [OF v1 j]
  show "dc_trust_state (so_decision so) = classify (sy_settings sy) ins (decision_now dw rq)"
    "dc_device_id (so_decision so) = rq_device_id rq" "dc_transition_context (so_decision so) = ctx"
    "\<exists>out. lookup (sy_matrix sy) (dc_trust_state (so_decision so)) ctx = Inr out
          \<and> dc_action (so_decision so) = mo_action out
          \<and> dc_scope (so_decision so) = resolve (mo_scope out) (rq_device_id rq)
          \<and> dc_rule_id (so_decision so) = mo_rule_id out"
    "sm_state (sy_states sy') (rq_device_id rq) = Some (dc_trust_state (so_decision so))"
    using f gf(1) by (simp_all add: pol)
qed

lemma ca_ztcf_decide_services:
  "same_policy sy (snd (ca_ztcf_decide cr name dw sy rq))"
  "services_ok sy \<Longrightarrow> services_ok (snd (ca_ztcf_decide cr name dw sy rq))"
  "sy_bindings (snd (ca_ztcf_decide cr name dw sy rq)) =
     snd (snd (claim (dw_clk_claim dw) (sy_bindings sy) (rq_peer_address rq) (rq_device_id rq)))"
proof -
  obtain ins ctx tr sy1 where g: "gather cr dw sy rq = (ins, ctx, tr, sy1)"
    by (cases "gather cr dw sy rq") auto
  note gf = gather_facts [OF g]
  show "same_policy sy (snd (ca_ztcf_decide cr name dw sy rq))"
    using gf(3) same_policy_trans [OF _ judge_services(1)] by (simp add: ca_ztcf_decide_def g)
  show "services_ok sy \<Longrightarrow> services_ok (snd (ca_ztcf_decide cr name dw sy rq))"
    using gf(11) by (simp add: ca_ztcf_decide_def g judge_services)
  show "sy_bindings (snd (ca_ztcf_decide cr name dw sy rq)) =
     snd (snd (claim (dw_clk_claim dw) (sy_bindings sy) (rq_peer_address rq) (rq_device_id rq)))"
    using gf(7) by (simp add: ca_ztcf_decide_def g judge_services)
qed

text \<open>A stable device is never in a transition context, and a transitional one always is.\<close>

lemma ca_ztcf_state_context:
  assumes "evidence_valid (st_evidence (sy_settings sy))"
    and "ca_ztcf_decide cr name dw sy rq = (Inr so, sy')"
  shows "dc_trust_state (so_decision so) = STABLE \<Longrightarrow> dc_transition_context (so_decision so) = CtxNone"
    and "dc_trust_state (so_decision so) = TRANSITIONAL \<Longrightarrow> dc_transition_context (so_decision so) \<noteq> CtxNone"
proof -
  obtain ins ctx tr sy1 where g: "gather cr dw sy rq = (ins, ctx, tr, sy1)"
    by (cases "gather cr dw sy rq") auto
  note f = ca_ztcf_decide_facts [OF assms(1) g assms(2)] and gf = gather_facts [OF g]
  show "dc_trust_state (so_decision so) = STABLE \<Longrightarrow> dc_transition_context (so_decision so) = CtxNone"
    using f gf(8) by (simp add: classify_STABLE_iff)
  show "dc_trust_state (so_decision so) = TRANSITIONAL \<Longrightarrow> dc_transition_context (so_decision so) \<noteq> CtxNone"
    using f gf(8) by (simp add: classify_TRANSITIONAL_iff)
qed

end
