(* ===== verification/Strategy_Contracts.thy ===== *)
theory Strategy_Contracts
  imports Strategies
begin

text \<open>
  What the service relies on of a decision strategy, as locales, and their interpretations on the
  three implementations: a strategy keeps the services' invariant and never edits registry, settings
  or matrix; an evidence-bound one (the proposed strategy and baseline A) also judges unregistered
  and disabled devices as such in every state. Baseline B is not evidence-bound: a live token is
  honoured whatever the registry says.
\<close>

section \<open>The contracts\<close>

locale decision_strategy =
  fixes step :: "draws \<Rightarrow> 'p \<Rightarrow> services \<Rightarrow> access_request \<Rightarrow> strategy_outcome result \<times> 'p \<times> services"
  assumes keeps_policy: "same_policy sy (snd (snd (step dw p sy rq)))"
    and keeps_ok: "services_ok sy \<Longrightarrow> services_ok (snd (snd (step dw p sy rq)))"
    and answers_requester: "evidence_valid (st_evidence (sy_settings sy)) \<Longrightarrow>
      fst (step dw p sy rq) = Inr so \<Longrightarrow> dc_device_id (so_decision so) = rq_device_id rq"
begin

fun serve :: "'p \<Rightarrow> services \<Rightarrow> (draws \<times> access_request) list \<Rightarrow> strategy_outcome result list \<times> 'p \<times> services" where
  "serve p sy [] = ([], p, sy)"
| "serve p sy ((dw, rq) # rqs) =
     (case step dw p sy rq of (r, p', sy') \<Rightarrow>
        (case serve p' sy' rqs of (rs, p'', sy'') \<Rightarrow> (r # rs, p'', sy'')))"

lemma serve_keeps: "services_ok sy \<Longrightarrow> same_policy sy (snd (snd (serve p sy rqs)))
    \<and> services_ok (snd (snd (serve p sy rqs)))"
proof (induction rqs arbitrary: p sy)
  case Nil
  then show ?case by simp
next
  case (Cons x rqs)
  obtain dw rq where x: "x = (dw, rq)" by fastforce
  obtain r p' sy' where s: "step dw p sy rq = (r, p', sy')" by (metis prod_cases3)
  have "same_policy sy sy'" "services_ok sy'"
    using keeps_policy [of sy dw p rq] keeps_ok [of sy dw p rq] Cons.prems s by simp_all
  with Cons.IH [of sy' p'] show ?case
    using same_policy_trans by (auto simp: x s split: prod.splits)
qed

lemma serve_answers:
  assumes "evidence_valid (st_evidence (sy_settings sy))"
  shows "list_all2 (\<lambda>(dw, rq) r. \<forall>so. r = Inr so \<longrightarrow> dc_device_id (so_decision so) = rq_device_id rq)
     rqs (fst (serve p sy rqs))"
  using assms
proof (induction rqs arbitrary: p sy)
  case Nil
  then show ?case by simp
next
  case (Cons x rqs)
  obtain dw rq where x: "x = (dw, rq)" by fastforce
  obtain r p' sy' where s: "step dw p sy rq = (r, p', sy')" by (metis prod_cases3)
  have "same_policy sy sy'" using keeps_policy [of sy dw p rq] s by simp
  with Cons.prems have "evidence_valid (st_evidence (sy_settings sy'))" by (simp add: same_policy_def)
  with Cons.IH [of sy' p'] answers_requester [OF Cons.prems, of dw p rq] show ?case
    by (auto simp: x s split: prod.splits)
qed

end

locale evidence_bound_strategy = decision_strategy +
  assumes unregistered: "evidence_valid (st_evidence (sy_settings sy)) \<Longrightarrow>
      reg_get (sy_registry sy) (rq_device_id rq) = None \<Longrightarrow>
      fst (step dw p sy rq) = Inr so \<Longrightarrow> dc_trust_state (so_decision so) = UNKNOWN"
    and disabled: "evidence_valid (st_evidence (sy_settings sy)) \<Longrightarrow>
      reg_get (sy_registry sy) (rq_device_id rq) = Some i \<Longrightarrow> di_status i \<noteq> ACTIVE \<Longrightarrow>
      fst (step dw p sy rq) = Inr so \<Longrightarrow> dc_trust_state (so_decision so) = UNTRUSTED"
    and action_from_matrix: "fst (step dw p sy rq) = Inr so \<Longrightarrow>
      \<exists>out. lookup (sy_matrix sy) (dc_trust_state (so_decision so)) (dc_transition_context (so_decision so)) = Inr out
        \<and> dc_action (so_decision so) = mo_action out"
begin

text \<open>With the shipped matrix such a device is denied.\<close>

lemma not_active_denied:
  assumes "sy_settings sy = shipped_settings h" "sy_matrix sy = shipped_matrix h"
    and i: "\<forall>i. reg_get (sy_registry sy) (rq_device_id rq) = Some i \<longrightarrow> di_status i \<noteq> ACTIVE"
    and so: "fst (step dw p sy rq) = Inr so"
  shows "dc_action (so_decision so) = DENY"
proof -
  have v: "evidence_valid (st_evidence (sy_settings sy))" using assms(1) by simp
  have "dc_trust_state (so_decision so) \<in> {UNKNOWN, UNTRUSTED}"
  proof (cases "reg_get (sy_registry sy) (rq_device_id rq)")
    case None
    with unregistered [OF v None so] show ?thesis by simp
  next
    case (Some x)
    with disabled [OF v Some _ so] i show ?thesis by simp
  qed
  then have t: "fst (policy_table (dc_trust_state (so_decision so)) (dc_transition_context (so_decision so))) = DENY"
    by auto
  from action_from_matrix [OF so] shipped_lookup [of h "dc_trust_state (so_decision so)"
      "dc_transition_context (so_decision so)"] t
  show ?thesis by (auto simp: assms(2))
qed

lemma not_active_refused:
  assumes "sy_settings sy = shipped_settings h" "sy_matrix sy = shipped_matrix h"
    and i: "\<forall>i. reg_get (sy_registry sy) (rq_device_id rq) = Some i \<longrightarrow> di_status i \<noteq> ACTIVE"
    and so: "fst (step dw p sy rq) = Inr so"
    and e: "eq_device_id er = rq_device_id rq"
  shows "\<not> el_permitted (fst (check now (apply_decision pep (so_decision so)) er))"
proof -
  have "evidence_valid (st_evidence (sy_settings sy))" using assms(1) by simp
  then have "dc_device_id (so_decision so) = rq_device_id rq"
    using answers_requester so by blast
  with not_active_denied [OF assms(1-4)] e show ?thesis
    by (intro terminating_refuses) (simp_all add: TERMINATING_ACTIONS_def)
qed

end

section \<open>The baselines\<close>

lemma direct_decision_fields:
  "direct_decision dw sy name d st ctx rs = Inr x \<Longrightarrow>
     dc_device_id x = d \<and> dc_trust_state x = st \<and> dc_transition_context x = ctx
     \<and> (\<exists>out. lookup (sy_matrix sy) st ctx = Inr out \<and> dc_action x = mo_action out
          \<and> dc_scope x = resolve (mo_scope out) d)"
  unfolding direct_decision_def by (drule direct_fields) blast

lemma independent_outcome_fields:
  assumes "independent_outcome dw sy name rq st ctx rs f = Inr so"
  shows "dc_device_id (so_decision so) = rq_device_id rq
     \<and> dc_trust_state (so_decision so) = (if f then SUSPICIOUS else st)
     \<and> dc_transition_context (so_decision so) = (if f then CtxNone else ctx)
     \<and> (\<exists>out. lookup (sy_matrix sy) (dc_trust_state (so_decision so)) (dc_transition_context (so_decision so)) = Inr out
          \<and> dc_action (so_decision so) = mo_action out)"
  using assms by (auto simp: independent_outcome_def and_then_Inr_iff baseline_outcome_def
      split: if_splits dest!: direct_decision_fields)

lemma static_outcome_fields:
  assumes "static_outcome dw sy def rq st rs notes = Inr so"
  shows "dc_device_id (so_decision so) = rq_device_id rq
     \<and> dc_trust_state (so_decision so) = st \<and> dc_transition_context (so_decision so) = CtxNone
     \<and> (\<exists>out. lookup (sy_matrix sy) st CtxNone = Inr out \<and> dc_action (so_decision so) = mo_action out)"
proof -
  from assms obtain d where d: "direct_decision dw sy (sd_name def) (rq_device_id rq) st CtxNone rs = Inr d"
    "so = baseline_outcome d ((''baseline'', ''B'') # notes)"
    by (auto simp: static_outcome_def and_then_Inr_iff)
  from direct_decision_fields [OF d(1)] show ?thesis unfolding d(2) by (auto simp: baseline_outcome_def)
qed

text \<open>The services after each baseline, and which outcome it returns.\<close>

lemma independent_proof_services:
  "snd (independent_proof cr def dw sy rq i ctx) = snd (proof_step cr dw sy rq i)"
  by (simp add: independent_proof_def split: prod.split option.split sum.split)

lemma independent_proof_outcome:
  assumes "fst (independent_proof cr def dw sy rq i ctx) = Inr so"
  obtains st ctx' rs where
    "independent_outcome dw (snd (proof_step cr dw sy rq i)) (sd_name def) rq st ctx' rs False = Inr so"
    "st \<in> {DEGRADED, STABLE}"
    "st = STABLE \<Longrightarrow> ctx' = CtxNone \<and> (\<exists>r t. fst (proof_step cr dw sy rq i) = Some r \<and> pr_valid r
       \<and> pr_verified_at r = Some t \<and> is_fresh t (decision_now dw rq)
            (param_or ''proof_of_possession_ttl_s'' (proof_ttl_s sy) def) = Inr True)"
proof -
  obtain pop sy' where p: "proof_step cr dw sy rq i = (pop, sy')" by fastforce
  show thesis
  proof (cases pop)
    case None
    with assms p that [of DEGRADED ctx "[''POP_NOT_PRESENTED'']"] show ?thesis
      by (simp add: independent_proof_def)
  next
    case (Some r)
    show ?thesis
    proof (cases "if pr_valid r then pr_verified_at r else None")
      case None
      with assms p Some that [of DEGRADED ctx "[pr_reason r]"] show ?thesis
        by (simp add: independent_proof_def)
    next
      case t: (Some t)
      then have r: "pr_valid r" "pr_verified_at r = Some t" by (auto split: if_splits)
      from assms p Some r obtain fresh where
        f: "is_fresh t (decision_now dw rq) (param_or ''proof_of_possession_ttl_s'' (proof_ttl_s sy) def) = Inr fresh"
        by (auto simp: independent_proof_def split: sum.splits)
      show ?thesis
      proof (cases fresh)
        case True
        with assms p Some r f that [of STABLE CtxNone "[''BASELINE_A_FULLY_AUTHENTICATED'']"] show ?thesis
          by (simp add: independent_proof_def)
      next
        case False
        with assms p Some r f that [of DEGRADED ctx "[''POP_STALE'']"] show ?thesis
          by (simp add: independent_proof_def)
      qed
    qed
  qed
qed

lemma independent_services:
  "same_policy sy (snd (independent_decide cr def dw sy rq))"
  "services_ok sy \<Longrightarrow> services_ok (snd (independent_decide cr def dw sy rq))"
  "sy_bindings (snd (independent_decide cr def dw sy rq)) = sy_bindings sy"
proof -
  let ?s1 = "snd (observe_step dw sy rq)"
  let ?s2 = "snd (context_step dw ?s1 rq)"
  obtain e s1 where o1: "observe_step dw sy rq = (e, s1)" by fastforce
  obtain ctx s2 where c: "context_step dw s1 rq = (ctx, s2)" by fastforce
  have "snd (independent_decide cr def dw sy rq) = ?s2
     \<or> (\<exists>i. snd (independent_decide cr def dw sy rq) = snd (proof_step cr dw ?s2 rq i))"
  proof (cases "reg_get (sy_registry s2) (rq_device_id rq)")
    case None
    then show ?thesis by (simp add: independent_decide_def o1 c)
  next
    case (Some i)
    obtain v reason where "registry_status_reason (Some i) = (v, reason)" by fastforce
    with Some show ?thesis by (simp add: independent_decide_def o1 c independent_proof_services) blast
  qed
  moreover have "same_policy sy ?s2" "sy_bindings ?s2 = sy_bindings sy"
    using same_policy_trans [OF observe_step_frame(1) context_step_frame(1)]
    by (simp_all add: context_step_frame observe_step_frame)
  moreover have "services_ok sy \<Longrightarrow> services_ok ?s2"
    by (intro context_step_ok observe_step_ok)
  ultimately show "same_policy sy (snd (independent_decide cr def dw sy rq))"
    "services_ok sy \<Longrightarrow> services_ok (snd (independent_decide cr def dw sy rq))"
    "sy_bindings (snd (independent_decide cr def dw sy rq)) = sy_bindings sy"
    using same_policy_trans [OF _ proof_step_frame(1)]
    by (auto simp: proof_step_ok proof_step_frame)
qed

lemma status_valid [simp]: "fst (registry_status_reason (Some i)) \<longleftrightarrow> di_status i = ACTIVE"
  by (cases "di_status i") (simp_all add: registry_status_reason_def)

text \<open>The four branches of baseline A.\<close>

lemma independent_branches:
  assumes "fst (independent_decide cr def dw sy rq) = Inr so"
  defines "sy1 \<equiv> snd (observe_step dw sy rq)"
  defines "sy2 \<equiv> snd (context_step dw sy1 rq)"
  obtains (unknown) rs where "reg_get (sy_registry sy) (rq_device_id rq) = None"
      "independent_outcome dw sy2 (sd_name def) rq UNKNOWN (fst (context_step dw sy1 rq)) rs False = Inr so"
  | (untrusted) i rs where "reg_get (sy_registry sy) (rq_device_id rq) = Some i" "di_status i \<noteq> ACTIVE"
      "independent_outcome dw sy2 (sd_name def) rq UNTRUSTED (fst (context_step dw sy1 rq)) rs False = Inr so"
  | (recent) i st rs where "reg_get (sy_registry sy) (rq_device_id rq) = Some i" "di_status i = ACTIVE"
      "is_transition_recent (sy_transitions sy1) (rq_device_id rq) (decision_now dw rq)"
      "independent_outcome dw sy2 (sd_name def) rq st CtxNone rs True = Inr so"
  | (proven) i where "reg_get (sy_registry sy) (rq_device_id rq) = Some i" "di_status i = ACTIVE"
      "\<not> is_transition_recent (sy_transitions sy1) (rq_device_id rq) (decision_now dw rq)"
      "fst (independent_proof cr def dw sy2 rq i (fst (context_step dw sy1 rq))) = Inr so"
proof -
  have reg: "sy_registry sy2 = sy_registry sy"
    using same_policy_trans [OF observe_step_frame(1) context_step_frame(1)]
    by (simp add: sy1_def sy2_def same_policy_def)
  obtain e s1 where o1: "observe_step dw sy rq = (e, s1)" by fastforce
  obtain ctx s2 where c: "context_step dw s1 rq = (ctx, s2)" by fastforce
  have eqs: "sy1 = s1" "sy2 = s2" by (simp_all add: sy1_def sy2_def o1 c)
  show thesis
  proof (cases "reg_get (sy_registry sy) (rq_device_id rq)")
    case None
    with assms(1) reg show ?thesis
      by (intro unknown) (auto simp: independent_decide_def o1 c eqs)
  next
    case (Some i)
    obtain v reason where sr: "registry_status_reason (Some i) = (v, reason)" by fastforce
    then have v: "v \<longleftrightarrow> di_status i = ACTIVE" using status_valid [of i] by simp
    show ?thesis
    proof (cases v)
      case False
      with assms(1) reg Some sr v show ?thesis
        by (intro untrusted) (auto simp: independent_decide_def o1 c eqs)
    next
      case True
      show ?thesis
      proof (cases "is_transition_recent (sy_transitions s1) (rq_device_id rq) (decision_now dw rq)")
        case rec: True
        with assms(1) reg Some sr v True show ?thesis
          by (intro recent) (auto simp: independent_decide_def o1 c eqs)
      next
        case nrec: False
        with assms(1) reg Some sr v True show ?thesis
          by (intro proven) (auto simp: independent_decide_def o1 c eqs)
      qed
    qed
  qed
qed

text \<open>Baseline A: a stable outcome needs an active identity, no recent transition and a fresh valid proof.\<close>

lemma independent_state:
  assumes "fst (independent_decide cr def dw sy rq) = Inr so"
  shows "dc_device_id (so_decision so) = rq_device_id rq"
    and "reg_get (sy_registry sy) (rq_device_id rq) = None \<Longrightarrow> dc_trust_state (so_decision so) = UNKNOWN"
    and "reg_get (sy_registry sy) (rq_device_id rq) = Some i \<Longrightarrow> di_status i \<noteq> ACTIVE \<Longrightarrow>
          dc_trust_state (so_decision so) = UNTRUSTED"
    and "\<exists>out. lookup (sy_matrix sy) (dc_trust_state (so_decision so)) (dc_transition_context (so_decision so)) = Inr out
        \<and> dc_action (so_decision so) = mo_action out"
    and "dc_trust_state (so_decision so) = STABLE \<Longrightarrow>
          (\<exists>i. reg_get (sy_registry sy) (rq_device_id rq) = Some i \<and> di_status i = ACTIVE)
          \<and> \<not> is_transition_recent (sy_transitions (snd (observe_step dw sy rq))) (rq_device_id rq) (decision_now dw rq)"
proof -
  have mat: "sy_matrix (snd (context_step dw (snd (observe_step dw sy rq)) rq)) = sy_matrix sy"
    using same_policy_trans [OF observe_step_frame(1) context_step_frame(1)] by (simp add: same_policy_def)
  have mat': "sy_matrix (snd (proof_step cr dw s' rq i)) = sy_matrix s'" for s' i
    using proof_step_frame(1) [of s' cr dw rq i] by (simp add: same_policy_def)
  let ?d = "so_decision so"
  let ?recent = "is_transition_recent (sy_transitions (snd (observe_step dw sy rq))) (rq_device_id rq) (decision_now dw rq)"
  have all: "dc_device_id ?d = rq_device_id rq
      \<and> (\<exists>out. lookup (sy_matrix sy) (dc_trust_state ?d) (dc_transition_context ?d) = Inr out
           \<and> dc_action ?d = mo_action out)
      \<and> (case reg_get (sy_registry sy) (rq_device_id rq) of
           None \<Rightarrow> dc_trust_state ?d = UNKNOWN
         | Some i \<Rightarrow> if di_status i \<noteq> ACTIVE then dc_trust_state ?d = UNTRUSTED
                     else dc_trust_state ?d = STABLE \<longrightarrow> \<not> ?recent)"
    using assms
  proof (cases rule: independent_branches)
    case (unknown rs)
    with independent_outcome_fields [OF unknown(2)] show ?thesis by (auto simp: mat)
  next
    case (untrusted i rs)
    with independent_outcome_fields [OF untrusted(3)] show ?thesis by (auto simp: mat)
  next
    case (recent i st rs)
    with independent_outcome_fields [OF recent(4)] show ?thesis by (auto simp: mat)
  next
    case (proven i)
    from proven(4) obtain st ctx' rs sy' where o: "independent_outcome dw sy' (sd_name def) rq st ctx' rs False = Inr so"
      and sy': "sy' = snd (proof_step cr dw (snd (context_step dw (snd (observe_step dw sy rq)) rq)) rq i)"
      by (rule independent_proof_outcome) blast
    from proven independent_outcome_fields [OF o] show ?thesis by (auto simp: mat mat' sy')
  qed
  show "dc_device_id ?d = rq_device_id rq"
    "\<exists>out. lookup (sy_matrix sy) (dc_trust_state ?d) (dc_transition_context ?d) = Inr out \<and> dc_action ?d = mo_action out"
    using all by blast+
  show "reg_get (sy_registry sy) (rq_device_id rq) = None \<Longrightarrow> dc_trust_state ?d = UNKNOWN"
    using all by simp
  show "reg_get (sy_registry sy) (rq_device_id rq) = Some i \<Longrightarrow> di_status i \<noteq> ACTIVE \<Longrightarrow> dc_trust_state ?d = UNTRUSTED"
    using all by simp
  show "dc_trust_state ?d = STABLE \<Longrightarrow>
          (\<exists>i. reg_get (sy_registry sy) (rq_device_id rq) = Some i \<and> di_status i = ACTIVE) \<and> \<not> ?recent"
    using all by (simp split: option.splits if_splits)
qed

section \<open>Baseline B\<close>

lemma static_branches:
  assumes "fst (static_decide cr def dw toks sy rq) = Inr so"
  obtains (token) t where "dget toks (rq_device_id rq) = Some t" "token_valid t (decision_now dw rq)"
      "dc_trust_state (so_decision so) = STABLE" "snd (static_decide cr def dw toks sy rq) = (toks, snd (observe_step dw sy rq))"
  | (authenticate) toks' where "\<forall>t. dget toks (rq_device_id rq) = Some t \<longrightarrow> \<not> token_valid t (decision_now dw rq)"
      "static_decide cr def dw toks sy rq = static_authenticate cr def dw toks' (snd (observe_step dw sy rq)) rq"
      "toks' = dpop (rq_device_id rq) toks \<or> toks' = toks"
proof -
  obtain e s1 where o1: "observe_step dw sy rq = (e, s1)" by fastforce
  show thesis
  proof (cases "dget toks (rq_device_id rq)")
    case None
    then show ?thesis
      by (intro authenticate [of toks]) (simp_all add: static_decide_def o1)
  next
    case (Some t)
    show ?thesis
    proof (cases "token_valid t (decision_now dw rq)")
      case True
      with assms Some show ?thesis
        by (intro token [of t]) (auto simp: static_decide_def o1 dest: static_outcome_fields)
    next
      case False
      with Some show ?thesis
        by (intro authenticate [of "dpop (rq_device_id rq) toks"]) (simp_all add: static_decide_def o1)
    qed
  qed
qed

lemma static_authenticate_services:
  "snd (snd (static_authenticate cr def dw toks sy rq)) = sy
     \<or> (\<exists>i. snd (snd (static_authenticate cr def dw toks sy rq)) = snd (proof_step cr dw sy rq i))"
  by (auto simp: static_authenticate_def Let_def prod.case_eq_if split: option.splits)

lemma static_authenticate_outcome:
  assumes "fst (static_authenticate cr def dw toks sy rq) = Inr so"
  shows "dc_device_id (so_decision so) = rq_device_id rq
    \<and> (dc_trust_state (so_decision so) = STABLE \<longrightarrow>
        (\<exists>i r. reg_get (sy_registry sy) (rq_device_id rq) = Some i \<and> di_status i = ACTIVE
           \<and> fst (proof_step cr dw sy rq i) = Some r \<and> pr_valid r))"
proof (cases "reg_get (sy_registry sy) (rq_device_id rq)")
  case None
  with assms show ?thesis by (auto simp: static_authenticate_def Let_def dest!: static_outcome_fields)
next
  case (Some i)
  obtain v reason where sr: "registry_status_reason (Some i) = (v, reason)" by fastforce
  then have v: "v \<longleftrightarrow> di_status i = ACTIVE" using status_valid [of i] by simp
  obtain pop sy' where p: "proof_step cr dw sy rq i = (pop, sy')" by fastforce
  show ?thesis
  proof (cases v)
    case False
    with assms Some sr show ?thesis
      by (auto simp: static_authenticate_def Let_def dest!: static_outcome_fields)
  next
    case True
    with assms Some sr p v show ?thesis
      by (auto simp: static_authenticate_def Let_def dest!: static_outcome_fields
          split: option.splits if_splits)
  qed
qed

lemma static_services:
  "same_policy sy (snd (snd (static_decide cr def dw toks sy rq)))"
  "services_ok sy \<Longrightarrow> services_ok (snd (snd (static_decide cr def dw toks sy rq)))"
  "sy_bindings (snd (snd (static_decide cr def dw toks sy rq))) = sy_bindings sy"
proof -
  let ?s1 = "snd (observe_step dw sy rq)"
  have "snd (snd (static_decide cr def dw toks sy rq)) = ?s1
     \<or> (\<exists>toks'. snd (snd (static_decide cr def dw toks sy rq))
          = snd (snd (static_authenticate cr def dw toks' ?s1 rq)))"
    by (auto simp: static_decide_def split: prod.splits option.splits)
  then have c: "snd (snd (static_decide cr def dw toks sy rq)) = ?s1
     \<or> (\<exists>i. snd (snd (static_decide cr def dw toks sy rq)) = snd (proof_step cr dw ?s1 rq i))"
    using static_authenticate_services by metis
  show "same_policy sy (snd (snd (static_decide cr def dw toks sy rq)))"
    using c same_policy_trans [OF observe_step_frame(1) proof_step_frame(1)] observe_step_frame(1) by metis
  show "services_ok sy \<Longrightarrow> services_ok (snd (snd (static_decide cr def dw toks sy rq)))"
    using c observe_step_ok proof_step_ok by metis
  show "sy_bindings (snd (snd (static_decide cr def dw toks sy rq))) = sy_bindings sy"
    using c observe_step_frame(2) proof_step_frame(2) by metis
qed

lemma static_state:
  assumes "fst (static_decide cr def dw toks sy rq) = Inr so"
  shows "dc_device_id (so_decision so) = rq_device_id rq"
    and "dc_trust_state (so_decision so) = STABLE \<Longrightarrow>
       (\<exists>t. dget toks (rq_device_id rq) = Some t \<and> token_valid t (decision_now dw rq))
       \<or> (\<exists>i r. reg_get (sy_registry sy) (rq_device_id rq) = Some i \<and> di_status i = ACTIVE
            \<and> fst (proof_step cr dw (snd (observe_step dw sy rq)) rq i) = Some r \<and> pr_valid r)"
proof -
  have reg: "sy_registry (snd (observe_step dw sy rq)) = sy_registry sy"
    using observe_step_frame(1) [of sy dw rq] by (simp add: same_policy_def)
  have "dc_device_id (so_decision so) = rq_device_id rq \<and> (dc_trust_state (so_decision so) = STABLE \<longrightarrow>
       (\<exists>t. dget toks (rq_device_id rq) = Some t \<and> token_valid t (decision_now dw rq))
       \<or> (\<exists>i r. reg_get (sy_registry sy) (rq_device_id rq) = Some i \<and> di_status i = ACTIVE
            \<and> fst (proof_step cr dw (snd (observe_step dw sy rq)) rq i) = Some r \<and> pr_valid r))"
    using assms
  proof (cases rule: static_branches)
    case (token t)
    obtain e s1 where o1: "observe_step dw sy rq = (e, s1)" by fastforce
    from token assms show ?thesis
      by (auto simp: static_decide_def o1 dest: static_outcome_fields)
  next
    case (authenticate toks')
    then show ?thesis
      using assms static_authenticate_outcome [of cr def dw toks' "snd (observe_step dw sy rq)" rq so] reg
      by auto
  qed
  then show "dc_device_id (so_decision so) = rq_device_id rq"
    and "dc_trust_state (so_decision so) = STABLE \<Longrightarrow>
       (\<exists>t. dget toks (rq_device_id rq) = Some t \<and> token_valid t (decision_now dw rq))
       \<or> (\<exists>i r. reg_get (sy_registry sy) (rq_device_id rq) = Some i \<and> di_status i = ACTIVE
            \<and> fst (proof_step cr dw (snd (observe_step dw sy rq)) rq i) = Some r \<and> pr_valid r)"
    by blast+
qed

text \<open>A live token is all it takes, whatever the registry, the bindings or the transitions say.\<close>

lemma static_token_suffices:
  assumes "dget toks (rq_device_id rq) = Some t" "token_valid t (decision_now dw rq)"
    and "fst (static_decide cr def dw toks sy rq) = Inr so"
  shows "dc_trust_state (so_decision so) = STABLE \<and> dc_transition_context (so_decision so) = CtxNone"
  using assms by (auto simp: static_decide_def dest: static_outcome_fields split: prod.splits)

text \<open>Tokens live exactly their configured lifetime.\<close>

definition tokens_ok :: "strategy_definition \<Rightarrow> tokens \<Rightarrow> bool" where
  "tokens_ok def toks \<longleftrightarrow>
     dict_all (\<lambda>d t. tk_device_id t = d \<and> tk_expires_at t = tk_issued_at t + seconds (token_ttl_s def)) toks"

lemma static_authenticate_tokens:
  "tokens_ok def toks \<Longrightarrow> tokens_ok def (fst (snd (static_authenticate cr def dw toks sy rq)))"
  by (auto simp: static_authenticate_def tokens_ok_def Let_def intro!: dict_all_dset
      split: option.splits prod.splits)

lemma static_decide_tokens:
  "tokens_ok def toks \<Longrightarrow> tokens_ok def (fst (snd (static_decide cr def dw toks sy rq)))"
proof -
  assume ok: "tokens_ok def toks"
  then have "tokens_ok def (dpop (rq_device_id rq) toks)" by (auto simp: tokens_ok_def)
  with ok show ?thesis
    by (auto simp: static_decide_def static_authenticate_tokens split: option.splits prod.splits)
qed

section \<open>The interpretations\<close>

interpretation proposed: evidence_bound_strategy
  "\<lambda>dw (p :: unit) sy rq. case ca_ztcf_decide cr name dw sy rq of (r, sy') \<Rightarrow> (r, p, sy')" for cr name
proof
  fix sy dw rq so i and p :: unit
  let ?step = "case ca_ztcf_decide cr name dw sy rq of (r, sy') \<Rightarrow> (r, p, sy')"
  obtain r sy' where d: "ca_ztcf_decide cr name dw sy rq = (r, sy')" by fastforce
  obtain ins ctx tr sy1 where g: "gather cr dw sy rq = (ins, ctx, tr, sy1)"
    by (cases "gather cr dw sy rq") auto
  note gf = gather_facts [OF g]
  show "same_policy sy (snd (snd ?step))"
    using ca_ztcf_decide_services(1) [where sy = sy and cr = cr and name = name and dw = dw and rq = rq] by (simp add: d)
  show "services_ok sy \<Longrightarrow> services_ok (snd (snd ?step))"
    using ca_ztcf_decide_services(2) [where sy = sy and cr = cr and name = name and dw = dw and rq = rq] by (simp add: d)
  show "evidence_valid (st_evidence (sy_settings sy)) \<Longrightarrow> fst ?step = Inr so \<Longrightarrow>
      dc_device_id (so_decision so) = rq_device_id rq"
    using ca_ztcf_decide_facts(2) [OF _ g, where name = name and so = so and sy' = sy'] by (simp add: d)
  show "evidence_valid (st_evidence (sy_settings sy)) \<Longrightarrow> reg_get (sy_registry sy) (rq_device_id rq) = None \<Longrightarrow>
      fst ?step = Inr so \<Longrightarrow> dc_trust_state (so_decision so) = UNKNOWN"
    using ca_ztcf_decide_facts(1) [OF _ g, where name = name and so = so and sy' = sy'] gf(2)
    by (simp add: d classify_UNKNOWN_iff)
  show "evidence_valid (st_evidence (sy_settings sy)) \<Longrightarrow> reg_get (sy_registry sy) (rq_device_id rq) = Some i \<Longrightarrow>
      di_status i \<noteq> ACTIVE \<Longrightarrow> fst ?step = Inr so \<Longrightarrow> dc_trust_state (so_decision so) = UNTRUSTED"
    using ca_ztcf_decide_facts(1) [OF _ g, where name = name and so = so and sy' = sy'] gf(2)
    by (simp add: d classify_UNTRUSTED_iff identity_ok_def)
  show "fst ?step = Inr so \<Longrightarrow> \<exists>out. lookup (sy_matrix sy) (dc_trust_state (so_decision so))
      (dc_transition_context (so_decision so)) = Inr out \<and> dc_action (so_decision so) = mo_action out"
    using gf(3) by (auto simp: ca_ztcf_decide_def judge_def g same_policy_def Let_def
        split: sum.splits dest!: evaluate_policy_fields)
qed

interpretation baseline_a: evidence_bound_strategy
  "\<lambda>dw (p :: unit) sy rq. case independent_decide cr def dw sy rq of (r, sy') \<Rightarrow> (r, p, sy')" for cr def
proof
  fix sy dw rq so i and p :: unit
  let ?step = "case independent_decide cr def dw sy rq of (r, sy') \<Rightarrow> (r, p, sy')"
  obtain r sy' where d: "independent_decide cr def dw sy rq = (r, sy')" by fastforce
  note f = independent_state [of cr def dw sy rq so]
  show "same_policy sy (snd (snd ?step))" "services_ok sy \<Longrightarrow> services_ok (snd (snd ?step))"
    using independent_services [where sy = sy and cr = cr and def = def and dw = dw and rq = rq] by (simp_all add: d)
  show "evidence_valid (st_evidence (sy_settings sy)) \<Longrightarrow> fst ?step = Inr so \<Longrightarrow>
      dc_device_id (so_decision so) = rq_device_id rq"
    using f(1) by (simp add: d)
  show "evidence_valid (st_evidence (sy_settings sy)) \<Longrightarrow> reg_get (sy_registry sy) (rq_device_id rq) = None \<Longrightarrow>
      fst ?step = Inr so \<Longrightarrow> dc_trust_state (so_decision so) = UNKNOWN"
    using f(2) by (simp add: d)
  show "evidence_valid (st_evidence (sy_settings sy)) \<Longrightarrow> reg_get (sy_registry sy) (rq_device_id rq) = Some i \<Longrightarrow>
      di_status i \<noteq> ACTIVE \<Longrightarrow> fst ?step = Inr so \<Longrightarrow> dc_trust_state (so_decision so) = UNTRUSTED"
    using f(3) by (simp add: d)
  show "fst ?step = Inr so \<Longrightarrow> \<exists>out. lookup (sy_matrix sy) (dc_trust_state (so_decision so))
      (dc_transition_context (so_decision so)) = Inr out \<and> dc_action (so_decision so) = mo_action out"
    using f(4) by (simp add: d)
qed

interpretation baseline_b: decision_strategy
  "\<lambda>dw toks sy rq. static_decide cr def dw toks sy rq" for cr def
  by unfold_locales (simp_all add: static_services static_state(1))

end
