(* ===== verification/Audit_Log.thy ===== *)
theory Audit_Log
  imports Strategies
begin

text \<open>
  The decision audit log (\<^verbatim>\<open>src/ca_ztcf/telemetry/audit.py\<close>): the recursive redaction, the
  writer and the record of a decision. The file is the list of records written (one JSON line each);
  serialising a record is I/O.

  Shown: what is written is clean (no denylisted key keeps its value, no string looks like key
  material), redaction is idempotent and keeps the keys, and a decision is found again under its
  identifier by its redacted record.
\<close>

section \<open>Redaction\<close>

datatype json =
    JNull
  | JBool bool
  | JInt int
  | JStr string
  | JList "json list"
  | JObj "(string \<times> json) list"

definition REDACTED :: string where
  "REDACTED = ''[REDACTED]''"

definition PEM_MARKERS :: "string list" where
  "PEM_MARKERS = [''-----BEGIN'', ''PRIVATE KEY'', ''BEGIN OPENSSH'']"

definition looks_like_key_material :: "string \<Rightarrow> bool" where
  "looks_like_key_material v = list_ex (\<lambda>m. str_contains m (py_upper v)) PEM_MARKERS"

fun redact :: "string list \<Rightarrow> json \<Rightarrow> json"
and redact_list :: "string list \<Rightarrow> json list \<Rightarrow> json list"
and redact_mapping :: "string list \<Rightarrow> (string \<times> json) list \<Rightarrow> (string \<times> json) list" where
  "redact dl (JObj kvs) = JObj (redact_mapping dl kvs)"
| "redact dl (JList vs) = JList (redact_list dl vs)"
| "redact dl (JStr s) = JStr (if looks_like_key_material s then REDACTED else s)"
| "redact dl JNull = JNull"
| "redact dl (JBool b) = JBool b"
| "redact dl (JInt i) = JInt i"
| "redact_list dl [] = []"
| "redact_list dl (v # vs) = redact dl v # redact_list dl vs"
| "redact_mapping dl [] = []"
| "redact_mapping dl ((k, v) # kvs) =
     (k, if py_lower k \<in> set dl then JStr REDACTED else redact dl v) # redact_mapping dl kvs"

text \<open>What a reader of the log can rely on.\<close>

fun clean :: "string list \<Rightarrow> json \<Rightarrow> bool"
and clean_list :: "string list \<Rightarrow> json list \<Rightarrow> bool"
and clean_mapping :: "string list \<Rightarrow> (string \<times> json) list \<Rightarrow> bool" where
  "clean dl (JObj kvs) = clean_mapping dl kvs"
| "clean dl (JList vs) = clean_list dl vs"
| "clean dl (JStr s) = (\<not> looks_like_key_material s)"
| "clean dl JNull = True"
| "clean dl (JBool b) = True"
| "clean dl (JInt i) = True"
| "clean_list dl [] = True"
| "clean_list dl (v # vs) = (clean dl v \<and> clean_list dl vs)"
| "clean_mapping dl [] = True"
| "clean_mapping dl ((k, v) # kvs) =
     ((if py_lower k \<in> set dl then v = JStr REDACTED else clean dl v) \<and> clean_mapping dl kvs)"

lemmas plain_text_defs = looks_like_key_material_def PEM_MARKERS_def str_contains_def py_upper_def upper_char_def

lemma redacted_marker_plain [simp]: "\<not> looks_like_key_material REDACTED"
  by (simp add: REDACTED_def plain_text_defs)

lemma redact_clean:
  "clean dl (redact dl v)" "clean_list dl (redact_list dl vs)" "clean_mapping dl (redact_mapping dl kvs)"
  by (induction dl v and dl vs and dl kvs rule: redact_redact_list_redact_mapping.induct) simp_all

lemma redact_of_clean:
  "clean dl v \<Longrightarrow> redact dl v = v" "clean_list dl vs \<Longrightarrow> redact_list dl vs = vs"
  "clean_mapping dl kvs \<Longrightarrow> redact_mapping dl kvs = kvs"
  by (induction dl v and dl vs and dl kvs rule: redact_redact_list_redact_mapping.induct)
    (auto split: if_splits)

lemma redact_idempotent: "redact dl (redact dl v) = redact dl v"
  by (rule redact_of_clean(1)) (rule redact_clean(1))

lemma redact_mapping_keys: "map fst (redact_mapping dl kvs) = map fst kvs"
  by (induction kvs) auto

text \<open>What a redacted copy is: clean, with the same keys, and the record itself where that is clean.\<close>

definition redacted_copy :: "string list \<Rightarrow> (string, json) dict \<Rightarrow> (string, json) dict \<Rightarrow> bool" where
  "redacted_copy dl rec w \<longleftrightarrow>
     clean_mapping dl w \<and> map fst w = map fst rec \<and> (clean_mapping dl rec \<longrightarrow> w = rec)"

lemma redacted_copy_mapping: "redacted_copy dl rec (redact_mapping dl rec)"
  by (simp add: redacted_copy_def redact_clean redact_mapping_keys redact_of_clean)

lemma dget_redact_mapping:
  "dget (redact_mapping dl kvs) k =
     (case dget kvs k of None \<Rightarrow> None
      | Some v \<Rightarrow> Some (if py_lower k \<in> set dl then JStr REDACTED else redact dl v))"
  by (induction kvs) auto

section \<open>The writer\<close>

record audit_writer =
  aw_enabled :: bool
  aw_denylist :: "string list"
  aw_written :: nat
  aw_lines :: "(string, json) dict list"
  aw_by_decision :: "(string, (string, json) dict) dict"

definition new_audit_writer :: "audit_settings \<Rightarrow> audit_writer" where
  "new_audit_writer s =
     \<lparr>aw_enabled = as_enabled s, aw_denylist = map py_lower (as_redact_keys s), aw_written = 0,
      aw_lines = [], aw_by_decision = []\<rparr>"

definition audit_write :: "audit_writer \<Rightarrow> (string, json) dict \<Rightarrow> (string, json) dict \<times> audit_writer" where
  "audit_write aw rec =
     (let cleaned = redact_mapping (aw_denylist aw) rec
      in (cleaned,
          if \<not> aw_enabled aw then aw
          else aw\<lparr>aw_lines := aw_lines aw @ [cleaned], aw_written := Suc (aw_written aw)\<rparr>))"

fun opt_json :: "string option \<Rightarrow> json" where
  "opt_json None = JNull"
| "opt_json (Some s) = JStr s"

definition strs :: "string list \<Rightarrow> json" where
  "strs xs = JList (map JStr xs)"

definition predicate_json :: "predicate_result \<Rightarrow> json" where
  "predicate_json p =
     JObj [(''predicate_id'', JStr (predicate_id_value (pq_predicate_id p))), (''name'', JStr (pq_name p)),
           (''result'', JBool (pq_result p)), (''reason'', JStr (pq_reason p)),
           (''evidence_refs'', strs (pq_evidence_refs p))]"

definition evaluation_json :: "trust_evaluation \<Rightarrow> json" where
  "evaluation_json ev =
     JObj [(''evaluation_id'', JStr (tv_evaluation_id ev)),
           (''previous_state'', opt_json (map_option state_value (tv_previous_state ev))),
           (''new_state'', JStr (state_value (tv_new_state ev))),
           (''firing_rule'', JStr (tv_firing_rule ev)),
           (''reason_codes'', strs (tv_reason_codes ev)),
           (''engine_duration_ns'', JInt (tv_engine_duration_ns ev)),
           (''predicates'', JList (map predicate_json (tv_predicate_vector ev)))]"

definition decision_json :: "decision \<Rightarrow> instant option \<Rightarrow> (string, json) dict" where
  "decision_json d recorded_at =
     [(''record_type'', JStr ''decision''),
      (''recorded_at'', JStr (isoformat (case recorded_at of Some t \<Rightarrow> t | None \<Rightarrow> dc_created_at d))),
      (''decision_id'', JStr (dc_decision_id d)), (''device_id'', JStr (dc_device_id d)),
      (''strategy'', JStr (dc_strategy d)), (''trust_state'', JStr (state_value (dc_trust_state d))),
      (''transition_context'', JStr (context_value (dc_transition_context d))),
      (''action'', JStr (action_value (dc_action d))),
      (''scope'', JObj [(''name'', JStr (sp_name (dc_scope d))), (''allow'', strs (sp_allow (dc_scope d))),
                        (''deny'', strs (sp_deny (dc_scope d)))]),
      (''ttl_ms'', JInt (dc_ttl_ms d)), (''reason_codes'', strs (dc_reason_codes d)),
      (''policy_rule_id'', JStr (dc_rule_id d)),
      (''predicate_trace_id'', opt_json (dc_predicate_trace_id d)),
      (''evidence_record_id'', opt_json (dc_evidence_record_id d)),
      (''created_at'', JStr (isoformat (dc_created_at d))), (''config_hash'', JStr (dc_config_hash d)),
      (''decision_duration_ns'', JInt (dc_decision_duration_ns d))]"

text \<open>An empty \<open>extra\<close> adds nothing.\<close>

definition decision_record ::
  "decision \<Rightarrow> trust_evaluation option \<Rightarrow> instant option \<Rightarrow> (string, json) dict \<Rightarrow> (string, json) dict" where
  "decision_record d evaluation recorded_at extra =
     (let rec0 = decision_json d recorded_at;
          rec1 = (case evaluation of None \<Rightarrow> rec0
                  | Some ev \<Rightarrow> dset ''trust_evaluation'' (evaluation_json ev) rec0)
      in if extra = [] then rec1 else dset ''extra'' (JObj extra) rec1)"

definition write_decision ::
  "audit_writer \<Rightarrow> decision \<Rightarrow> trust_evaluation option \<Rightarrow> instant option \<Rightarrow> (string, json) dict
     \<Rightarrow> (string, json) dict \<times> audit_writer" where
  "write_decision aw d evaluation recorded_at extra =
     (case audit_write aw (decision_record d evaluation recorded_at extra) of
        (written, aw') \<Rightarrow>
          (written, aw'\<lparr>aw_by_decision := dset (dc_decision_id d) written (aw_by_decision aw')\<rparr>))"

definition find_decision :: "audit_writer \<Rightarrow> string \<Rightarrow> (string, json) dict option" where
  "find_decision aw i = dget (aw_by_decision aw) i"

definition indexed_decisions :: "audit_writer \<Rightarrow> nat" where
  "indexed_decisions aw = length (aw_by_decision aw)"

section \<open>What the log holds\<close>

definition audit_ok :: "audit_writer \<Rightarrow> bool" where
  "audit_ok aw \<longleftrightarrow> list_all (clean_mapping (aw_denylist aw)) (aw_lines aw)
     \<and> dict_all (\<lambda>_ r. clean_mapping (aw_denylist aw) r) (aw_by_decision aw)
     \<and> aw_written aw = length (aw_lines aw) \<and> (\<not> aw_enabled aw \<longrightarrow> aw_lines aw = [])"

lemma audit_ok_new [simp]: "audit_ok (new_audit_writer s)"
  by (simp add: audit_ok_def new_audit_writer_def)

lemma audit_write_facts:
  "fst (audit_write aw rec) = redact_mapping (aw_denylist aw) rec"
  "aw_denylist (snd (audit_write aw rec)) = aw_denylist aw"
  "aw_enabled (snd (audit_write aw rec)) = aw_enabled aw"
  "aw_by_decision (snd (audit_write aw rec)) = aw_by_decision aw"
  "aw_lines (snd (audit_write aw rec)) =
     aw_lines aw @ (if aw_enabled aw then [redact_mapping (aw_denylist aw) rec] else [])"
  by (simp_all add: audit_write_def Let_def)

lemma audit_write_ok: "audit_ok aw \<Longrightarrow> audit_ok (snd (audit_write aw rec))"
  by (auto simp: audit_ok_def audit_write_def Let_def redact_clean)

lemma write_decision_eq:
  "write_decision aw d ev at extra =
     (let w = redact_mapping (aw_denylist aw) (decision_record d ev at extra)
      in (w, (snd (audit_write aw (decision_record d ev at extra)))
               \<lparr>aw_by_decision := dset (dc_decision_id d) w (aw_by_decision aw)\<rparr>))"
  by (simp add: write_decision_def audit_write_def Let_def)

lemma write_decision_facts:
  "fst (write_decision aw d ev t extra) = redact_mapping (aw_denylist aw) (decision_record d ev t extra)"
  "aw_denylist (snd (write_decision aw d ev t extra)) = aw_denylist aw"
  "aw_lines (snd (write_decision aw d ev t extra)) =
     aw_lines aw @ (if aw_enabled aw then [redact_mapping (aw_denylist aw) (decision_record d ev t extra)] else [])"
  by (simp_all add: write_decision_eq Let_def audit_write_facts)

lemma write_decision_ok: "audit_ok aw \<Longrightarrow> audit_ok (snd (write_decision aw d ev at extra))"
  using audit_write_ok [of aw "decision_record d ev at extra"]
  by (auto simp: write_decision_eq Let_def audit_ok_def audit_write_facts redact_clean)

lemma find_decision_written:
  "find_decision (snd (write_decision aw d ev at extra)) i =
     (if i = dc_decision_id d then Some (fst (write_decision aw d ev at extra)) else find_decision aw i)"
  by (simp add: write_decision_eq Let_def find_decision_def)

text \<open>None of a decision record's own keys is on the shipped denylist, so what it decided stays readable.\<close>

lemma decision_record_action:
  "dget (decision_record d ev t extra) ''action'' = Some (JStr (action_value (dc_action d)))"
  "dget (decision_record d ev t extra) ''trust_state'' = Some (JStr (state_value (dc_trust_state d)))"
proof -
  have json: "dget (decision_json d t) ''action'' = Some (JStr (action_value (dc_action d)))"
    "dget (decision_json d t) ''trust_state'' = Some (JStr (state_value (dc_trust_state d)))"
    by (simp_all add: decision_json_def)
  show "dget (decision_record d ev t extra) ''action'' = Some (JStr (action_value (dc_action d)))"
    "dget (decision_record d ev t extra) ''trust_state'' = Some (JStr (state_value (dc_trust_state d)))"
    by (cases ev; cases "extra = []";
        simp only: decision_record_def Let_def option.case if_True if_False; simp add: json)+
qed

lemma action_name_plain: "\<not> looks_like_key_material (action_value a)"
  by (cases a) (simp_all add: plain_text_defs)

lemma state_name_plain: "\<not> looks_like_key_material (state_value s)"
  by (cases s) (simp_all add: plain_text_defs)

lemma shipped_denylist_readable:
  "py_lower ''action'' \<notin> set (map py_lower shipped_redact_keys)"
  "py_lower ''trust_state'' \<notin> set (map py_lower shipped_redact_keys)"
  by (simp_all add: shipped_redact_keys_def py_lower_def lower_char_def)

text \<open>The written record of a decision says, in clear, what was decided and in which state.\<close>

lemma written_decision_readable:
  assumes "aw_denylist aw = map py_lower shipped_redact_keys"
  shows "dget (fst (write_decision aw d ev at extra)) ''action'' = Some (JStr (action_value (dc_action d)))"
    and "dget (fst (write_decision aw d ev at extra)) ''trust_state'' = Some (JStr (state_value (dc_trust_state d)))"
  using shipped_denylist_readable
  by (simp_all add: write_decision_eq Let_def dget_redact_mapping decision_record_action assms
      action_name_plain state_name_plain del: list.set_map set_map)

end
