(* ===== verification/Service_Api.thy ===== *)
theory Service_Api
  imports App_State
begin

text \<open>
  The routes of \<^verbatim>\<open>src/ca_ztcf/api/routes_research.py\<close> on the application state. A route is
  its handler: the response it returns and the state it leaves. Clock readings and drawn identifiers
  are arguments; request bodies are already validated by their pydantic models, except where the
  handler builds a model itself. Metrics are not modelled.
\<close>

section \<open>Responses\<close>

text \<open>
  A handler returns, raises \<open>HTTPException\<close>, raises an error of the package (the
  application's exception handler answers 400 with its code), or raises anything else (500).
\<close>

datatype 'a response = Ok 'a | HttpError nat string | DomainError string | ServerError

definition of_error :: "error \<Rightarrow> 'a response" where
  "of_error e = (case error_code e of Some c \<Rightarrow> DomainError c | None \<Rightarrow> ServerError)"

definition status_of :: "'a response \<Rightarrow> nat" where
  "status_of r = (case r of Ok _ \<Rightarrow> 200 | HttpError n _ \<Rightarrow> n | DomainError _ \<Rightarrow> 400 | ServerError \<Rightarrow> 500)"

definition not_found :: "string \<Rightarrow> 'a response" where
  "not_found d = HttpError 404 (''device '' @ quoted d @ '' not found'')"

definition update_registry :: "app_state \<Rightarrow> registry \<Rightarrow> app_state" where
  "update_registry st r = st\<lparr>ap_services := (ap_services st)\<lparr>sy_registry := r\<rparr>\<rparr>"

definition app_registry :: "app_state \<Rightarrow> registry" where
  "app_registry st = sy_registry (ap_services st)"

section \<open>Devices\<close>

definition route_register ::
  "'k crypto \<Rightarrow> instant \<Rightarrow> app_state \<Rightarrow> string \<Rightarrow> string \<Rightarrow> (string, string) dict \<Rightarrow> string
     \<Rightarrow> device_identity response \<times> app_state" where
  "route_register cr now st d pem labels notes =
     (case register cr now (app_registry st) d pem labels notes ACTIVE of
        Inr (i, r) \<Rightarrow> (Ok i, update_registry st r)
      | Inl (DeviceAlreadyRegisteredError m) \<Rightarrow>
          (HttpError 409 (''[DEVICE_ALREADY_REGISTERED] '' @ m), st)
      | Inl e \<Rightarrow> (if error_code e \<noteq> None then HttpError 400 (the (error_code e)) else ServerError, st))"

definition route_get_device :: "app_state \<Rightarrow> string \<Rightarrow> device_identity response" where
  "route_get_device st d =
     (case reg_get (app_registry st) d of None \<Rightarrow> not_found d | Some i \<Rightarrow> Ok i)"

definition route_set_status ::
  "instant \<Rightarrow> app_state \<Rightarrow> string \<Rightarrow> device_status \<Rightarrow> device_identity response \<times> app_state" where
  "route_set_status now st d s =
     (if \<not> reg_exists (app_registry st) d then (not_found d, st)
      else
        (case set_status now (app_registry st) d s of
           Inl e \<Rightarrow> (of_error e, st)
         | Inr (i, r) \<Rightarrow> (Ok i, update_registry st r)))"

definition route_nonce ::
  "instant \<Rightarrow> bytes \<Rightarrow> app_state \<Rightarrow> string \<Rightarrow> (string \<times> instant) response \<times> app_state" where
  "route_nonce now raw st d =
     (if \<not> reg_exists (app_registry st) d then (not_found d, st)
      else
        (case issue now raw (sy_nonces (ap_services st)) d of
           (nonce, expires_at, ni) \<Rightarrow>
             (Ok (nonce, expires_at), st\<lparr>ap_services := (ap_services st)\<lparr>sy_nonces := ni\<rparr>\<rparr>)))"

section \<open>Collector events\<close>

text \<open>
  \<open>attributes\<close> is any JSON object: \<open>str(v)\<close> and \<open>bool(v)\<close> are Python's, with
  \<open>repr_json\<close> the text of a list or an object; the event models accept a string or \<open>None\<close>.
\<close>

definition py_str :: "(json \<Rightarrow> string) \<Rightarrow> json \<Rightarrow> string" where
  "py_str repr_json v =
     (case v of JNull \<Rightarrow> ''None'' | JBool b \<Rightarrow> py_bool b | JInt i \<Rightarrow> show_int i | JStr s \<Rightarrow> s
      | _ \<Rightarrow> repr_json v)"

definition truthy :: "json \<Rightarrow> bool" where
  "truthy v =
     (case v of JNull \<Rightarrow> False | JBool b \<Rightarrow> b | JInt i \<Rightarrow> i \<noteq> 0 | JStr s \<Rightarrow> s \<noteq> [] | JList l \<Rightarrow> l \<noteq> []
      | JObj kvs \<Rightarrow> kvs \<noteq> [])"

definition attr_json :: "(string, json) dict \<Rightarrow> string \<Rightarrow> json \<Rightarrow> json" where
  "attr_json attrs k dflt = (case dget attrs k of None \<Rightarrow> dflt | Some v \<Rightarrow> v)"

definition opt_str :: "json \<Rightarrow> string option result" where
  "opt_str v =
     (case v of JNull \<Rightarrow> Inr None | JStr s \<Rightarrow> Inr (Some s) | _ \<Rightarrow> Inl (PyValueError ''Input should be a valid string''))"

definition attr_opt :: "(string, json) dict \<Rightarrow> string \<Rightarrow> string option result" where
  "attr_opt attrs k = opt_str (attr_json attrs k JNull)"

definition nr_event_type_of :: "string \<Rightarrow> nr_event_type option" where
  "nr_event_type_of s =
     (if s = ''SESSION_ESTABLISHED'' then Some SESSION_ESTABLISHED
      else if s = ''SESSION_REFRESHED'' then Some SESSION_REFRESHED
      else if s = ''SESSION_RELEASED'' then Some SESSION_RELEASED else None)"

definition wlan_event_type_of :: "string \<Rightarrow> wlan_event_type option" where
  "wlan_event_type_of s =
     (if s = ''STA_AUTHENTICATED'' then Some STA_AUTHENTICATED
      else if s = ''STA_REFRESHED'' then Some STA_REFRESHED
      else if s = ''STA_DISCONNECTED'' then Some STA_DISCONNECTED else None)"

record collector_event_request =
  ce_domain :: access_domain
  ce_peer_address :: string
  ce_observed_at :: "instant option"
  ce_source_mode :: source_mode
  ce_event_type :: "string option"
  ce_attributes :: "(string, json) dict"
  ce_binding_lifetime_s :: "int option"

definition nr_event_of ::
  "(json \<Rightarrow> string) \<Rightarrow> instant \<Rightarrow> nr_event_type \<Rightarrow> collector_event_request \<Rightarrow> nr_access_event result" where
  "nr_event_of repr_json at et p =
     (let a = ce_attributes p in
      and_then (attr_opt a ''subscriber_ref'') (\<lambda>sub.
      and_then (attr_opt a ''pdu_session_id'') (\<lambda>pdu.
      and_then (attr_opt a ''dnn'') (\<lambda>dnn.
      and_then (attr_opt a ''gnb_id'') (\<lambda>gnb.
        Inr \<lparr>ne_event_type = et, ne_peer_address = ce_peer_address p, ne_observed_at = at,
             ne_source_mode = ce_source_mode p, ne_subscriber_ref = sub, ne_pdu_session_id = pdu,
             ne_dnn = dnn, ne_gnb_id = gnb,
             ne_rat_type = py_str repr_json (attr_json a ''rat_type'' (JStr ''NR'')),
             ne_registration_state = py_str repr_json (attr_json a ''registration_state'' (JStr ''REGISTERED'')),
             ne_pdu_session_active = truthy (attr_json a ''pdu_session_active'' (JBool True)),
             ne_binding_lifetime_s = ce_binding_lifetime_s p\<rparr>)))))"

definition wlan_event_of ::
  "(json \<Rightarrow> string) \<Rightarrow> instant \<Rightarrow> wlan_event_type \<Rightarrow> collector_event_request \<Rightarrow> wlan_access_event result" where
  "wlan_event_of repr_json at et p =
     (let a = ce_attributes p in
      and_then (attr_opt a ''sta_mac'') (\<lambda>mac.
      and_then (attr_opt a ''eap_identity'') (\<lambda>eap.
      and_then (attr_opt a ''ssid'') (\<lambda>ssid.
      and_then (attr_opt a ''ap_bssid'') (\<lambda>bssid.
        Inr \<lparr>we_event_type = et, we_peer_address = ce_peer_address p, we_observed_at = at,
             we_source_mode = ce_source_mode p, we_sta_mac = mac, we_eap_identity = eap,
             we_eap_success = truthy (attr_json a ''eap_success'' (JBool True)),
             we_akm = py_str repr_json (attr_json a ''akm'' (JStr ''WPA2-EAP'')),
             we_ssid = ssid, we_ap_bssid = bssid,
             we_binding_lifetime_s = ce_binding_lifetime_s p\<rparr>)))))"

text \<open>A handled event: its binding, or what a refused model or collector raises.\<close>

definition ingested ::
  "app_state \<Rightarrow> (access_binding option \<times> binding_store) result \<Rightarrow> access_binding option response \<times> app_state" where
  "ingested st r =
     (case r of
        Inl e \<Rightarrow> (of_error e, st)
      | Inr (b, bs) \<Rightarrow> (Ok b, st\<lparr>ap_services := (ap_services st)\<lparr>sy_bindings := bs\<rparr>\<rparr>))"

definition unknown_event :: "string \<Rightarrow> string option \<Rightarrow> 'a response" where
  "unknown_event kind et =
     HttpError 400 (''unknown '' @ kind @ '' event_type: '' @ (case et of None \<Rightarrow> ''None'' | Some s \<Rightarrow> s))"

definition route_ingest ::
  "'k crypto \<Rightarrow> (json \<Rightarrow> string) \<Rightarrow> instant \<Rightarrow> string \<Rightarrow> app_state \<Rightarrow> collector_event_request
     \<Rightarrow> access_binding option response \<times> app_state" where
  "route_ingest cr repr_json clk bid st p =
     (let at = (case ce_observed_at p of Some t \<Rightarrow> t | None \<Rightarrow> clk);
          bs = sy_bindings (ap_services st)
      in case ce_domain p of
           NR \<Rightarrow>
             (case nr_event_type_of (name_or (ce_event_type p) ''SESSION_ESTABLISHED'') of
                None \<Rightarrow> (unknown_event ''NR'' (ce_event_type p), st)
              | Some et \<Rightarrow>
                  ingested st (and_then (nr_event_of repr_json at et p)
                    (\<lambda>e. nr_ingest cr (ap_nr_collector st) bid bs (NrEvent e))))
         | WLAN \<Rightarrow>
             (case wlan_event_type_of (name_or (ce_event_type p) ''STA_AUTHENTICATED'') of
                None \<Rightarrow> (unknown_event ''WLAN'' (ce_event_type p), st)
              | Some et \<Rightarrow>
                  ingested st (and_then (wlan_event_of repr_json at et p)
                    (\<lambda>e. wlan_ingest cr (ap_wlan_collector st) bid bs (WlanEvent e)))))"

section \<open>Transitions\<close>

record transition_response =
  tp_transition_detected :: bool
  tp_context :: transition_context
  tp_from_domain :: "access_domain option"
  tp_to_domain :: "access_domain option"
  tp_detected_at :: "instant option"
  tp_gap_ms :: "int option"
  tp_transitions_in_window :: nat
  tp_repeated :: bool

definition with_transitions :: "app_state \<Rightarrow> transition_collector \<Rightarrow> app_state" where
  "with_transitions st tc = st\<lparr>ap_services := (ap_services st)\<lparr>sy_transitions := tc\<rparr>\<rparr>"

definition route_observe ::
  "instant \<Rightarrow> string \<Rightarrow> app_state \<Rightarrow> string \<Rightarrow> access_domain \<Rightarrow> string option \<Rightarrow> instant
     \<Rightarrow> transition_response \<times> app_state" where
  "route_observe clk tid st d dm addr at =
     (case observe clk (Some (sy_bindings (ap_services st))) tid (sy_transitions (ap_services st)) d dm addr at of
        (event, tc1) \<Rightarrow>
      (case context_for tc1 d at of (ctx, tc2) \<Rightarrow>
      (let l = last_transition tc2 d in
      (case transitions_in_window tc2 d at of (n, tc3) \<Rightarrow>
        (\<lparr>tp_transition_detected = event \<noteq> None, tp_context = ctx,
          tp_from_domain = Option.bind l te_from_domain, tp_to_domain = map_option te_to_domain l,
          tp_detected_at = map_option te_detected_at l, tp_gap_ms = Option.bind l te_gap_ms,
          tp_transitions_in_window = n,
          tp_repeated = (case l of None \<Rightarrow> False | Some e \<Rightarrow> te_repeated e)\<rparr>,
         with_transitions st tc3)))))"

section \<open>Evaluation\<close>

text \<open>\<open>state.strategy\<close> raising and a strategy raising reach the application's handler.\<close>

definition route_evidence ::
  "'k crypto \<Rightarrow> app_draws \<Rightarrow> app_state \<Rightarrow> decision_request \<Rightarrow> strategy_outcome response \<times> app_state" where
  "route_evidence cr ad st r =
     (case app_strategy st (Some ''ca_ztcf'') of
        Inl e \<Rightarrow> (of_error e, st)
      | Inr def \<Rightarrow>
          (case run_strategy cr def (ad_strategy ad) st
                  (to_access_request (ad_clk_domain ad) (ap_services st) r) of
             (Inl e, st') \<Rightarrow> (of_error e, st')
           | (Inr so, st') \<Rightarrow>
               (if so_evidence so = None \<or> so_predicates so = None \<or> so_trust_evaluation so = None then
                  HttpError 500 ''evidence pipeline produced no trace'' else Ok so, st')))"

definition decision_extra ::
  "string \<Rightarrow> access_domain \<Rightarrow> access_domain option \<Rightarrow> strategy_outcome \<Rightarrow> (string, json) dict" where
  "decision_extra a dm declared so =
     with_notes
       [(''peer_address'', JStr a), (''domain'', JStr (domain_value dm)),
        (''domain_source'', JStr (if declared \<noteq> None then ''declared'' else ''derived_from_binding''))]
       (so_notes so)"

definition route_decide ::
  "'k crypto \<Rightarrow> app_draws \<Rightarrow> app_state \<Rightarrow> decision_request \<Rightarrow> decision response \<times> app_state" where
  "route_decide cr ad st r =
     (case app_strategy st (dr_strategy r) of
        Inl (StrategyError m) \<Rightarrow> (HttpError 400 (''[STRATEGY_ERROR] '' @ m), st)
      | Inl e \<Rightarrow> (of_error e, st)
      | Inr def \<Rightarrow>
          (let rq = to_access_request (ad_clk_domain ad) (ap_services st) r in
           case decide_and_enforce cr def ad
                  (decision_extra (dr_peer_address r) (rq_domain rq) (dr_domain r)) st rq of
             (Inl e, st') \<Rightarrow> (of_error e, st')
           | (Inr so, st') \<Rightarrow> (Ok (so_decision so), st')))"

section \<open>State, step-up and lookups\<close>

record device_state_response =
  ds_registered :: bool
  ds_status :: "device_status option"
  ds_trust_state :: "trust_state option"
  ds_state_entered_at :: "string option"
  ds_history :: "(string \<times> trust_state) list"
  ds_transitions_in_window :: nat
  ds_current_domain :: "access_domain option"
  ds_previous_domain :: "access_domain option"
  ds_transition_context :: transition_context

definition route_device_state ::
  "instant \<Rightarrow> app_state \<Rightarrow> string \<Rightarrow> device_state_response \<times> app_state" where
  "route_device_state now st d =
     (let sy = ap_services st; i = reg_get (sy_registry sy) d; sm = sy_states sy in
      case transitions_in_window (sy_transitions sy) d now of (n, tc1) \<Rightarrow>
      (case context_for tc1 d now of (ctx, tc2) \<Rightarrow>
        (\<lparr>ds_registered = i \<noteq> None, ds_status = map_option di_status i, ds_trust_state = sm_state sm d,
          ds_state_entered_at = sm_entered sm d, ds_history = sm_history_of sm d,
          ds_transitions_in_window = n, ds_current_domain = current_domain tc1 d,
          ds_previous_domain = previous_domain tc1 d, ds_transition_context = ctx\<rparr>,
         with_transitions st tc2)))"

definition route_active_decision :: "instant \<Rightarrow> app_state \<Rightarrow> string \<Rightarrow> decision response \<times> app_state" where
  "route_active_decision now st d =
     (case active_decision now (ap_pep st) d of
        (None, p) \<Rightarrow> (HttpError 404 (''no active decision for '' @ quoted d), st\<lparr>ap_pep := p\<rparr>)
      | (Some dc, p) \<Rightarrow> (Ok dc, st\<lparr>ap_pep := p\<rparr>))"

record step_up_response =
  su_accepted :: bool
  su_reason :: string
  su_decision :: "decision option"

definition step_up_refusals :: "policy_action list" where
  "step_up_refusals = [DENY, REAUTHENTICATE, STEP_UP_AUTHENTICATION]"

definition step_up_outcome :: "decision \<Rightarrow> step_up_response" where
  "step_up_outcome d =
     \<lparr>su_accepted = dc_action d \<notin> set step_up_refusals,
      su_reason = (case dc_reason_codes d of [] \<Rightarrow> ''NO_REASON'' | c # _ \<Rightarrow> c), su_decision = Some d\<rparr>"

definition route_step_up ::
  "'k crypto \<Rightarrow> app_draws \<Rightarrow> app_state \<Rightarrow> string \<Rightarrow> string \<times> string \<Rightarrow> string \<Rightarrow> access_domain
     \<Rightarrow> string option \<Rightarrow> instant option \<Rightarrow> step_up_response response \<times> app_state" where
  "route_step_up cr ad st d pf a dm si at =
     (if reg_get (app_registry st) d = None then
        (Ok \<lparr>su_accepted = False, su_reason = ''DEVICE_NOT_REGISTERED'', su_decision = None\<rparr>, st)
      else
        (case app_strategy st (Some ''ca_ztcf'') of
           Inl e \<Rightarrow> (of_error e, st)
         | Inr def \<Rightarrow>
             (case decide_and_enforce cr def ad (\<lambda>_. [(''trigger'', JStr ''step_up'')]) st
                     \<lparr>rq_device_id = d, rq_peer_address = a, rq_domain = dm, rq_session_identity = si,
                      rq_proof = Some \<lparr>pp_device_id = d, pp_nonce = fst pf, pp_signature = snd pf\<rparr>,
                      rq_resource = None, rq_at = at\<rparr> of
                (Inl e, st') \<Rightarrow> (of_error e, st')
              | (Inr so, st') \<Rightarrow> (Ok (step_up_outcome (so_decision so)), st'))))"

definition route_transition :: "app_state \<Rightarrow> string \<Rightarrow> transition_event response" where
  "route_transition st tid =
     (case transition_by_id (sy_transitions (ap_services st)) tid of
        None \<Rightarrow> HttpError 404 (''transition '' @ quoted tid @ '' not found'')
      | Some e \<Rightarrow> Ok e)"

definition route_audit :: "app_state \<Rightarrow> string \<Rightarrow> bool \<times> (string, json) dict option" where
  "route_audit st i = (let r = find_decision (ap_audit st) i in (r \<noteq> None, r))"

section \<open>Every route keeps the state well-formed\<close>

lemma update_registry_ok:
  "app_ok st \<Longrightarrow> registry_ok r \<Longrightarrow> app_ok (update_registry st r)"
  by (simp add: app_ok_def services_ok_def update_registry_def)

lemma with_transitions_ok: "app_ok st \<Longrightarrow> tracks_ok tc \<Longrightarrow> app_ok (with_transitions st tc)"
  by (simp add: app_ok_def services_ok_def with_transitions_def)

lemma app_ok_parts:
  "app_ok st \<Longrightarrow> registry_ok (app_registry st)" "app_ok st \<Longrightarrow> tracks_ok (sy_transitions (ap_services st))"
  "app_ok st \<Longrightarrow> binding_store_ok (sy_bindings (ap_services st))" "app_ok st \<Longrightarrow> pep_ok (ap_pep st)"
  by (simp_all add: app_ok_def services_ok_def app_registry_def)

lemma route_register_ok:
  assumes "app_ok st"
  shows "app_ok (snd (route_register cr now st d pem labels notes))"
proof (cases "register cr now (app_registry st) d pem labels notes ACTIVE")
  case (Inl e)
  then show ?thesis using assms by (cases e) (simp_all add: route_register_def)
next
  case (Inr x)
  obtain i r where x: "x = (i, r)" by fastforce
  with register_ok [OF app_ok_parts(1) [OF assms]] Inr have "registry_ok r" by blast
  with Inr x assms show ?thesis by (simp add: route_register_def update_registry_ok)
qed

lemma route_set_status_ok:
  assumes "app_ok st"
  shows "app_ok (snd (route_set_status now st d s))"
  using assms set_status_ok [OF app_ok_parts(1) [OF assms], of now d s]
  by (auto simp: route_set_status_def intro: update_registry_ok split: sum.split prod.split)

lemma route_nonce_ok: "app_ok st \<Longrightarrow> app_ok (snd (route_nonce now raw st d))"
  using local_issue_nonce_ok [of st now raw d]
  by (simp add: route_nonce_def local_issue_nonce_def app_registry_def split: prod.splits if_splits)

lemma ingested_ok:
  "app_ok st \<Longrightarrow> (\<And>b bs. r = Inr (b, bs) \<Longrightarrow> binding_store_ok bs) \<Longrightarrow> app_ok (snd (ingested st r))"
  by (auto simp: ingested_def app_ok_def services_ok_def split: sum.split prod.split)

lemma route_ingest_ok:
  assumes "app_ok st"
  shows "app_ok (snd (route_ingest cr repr_json clk bid st p))"
  using assms
  by (auto simp: route_ingest_def Let_def and_then_Inr_iff
      intro!: ingested_ok dest: nr_ingest_ok [OF app_ok_parts(3)] wlan_ingest_ok [OF app_ok_parts(3)]
      split: access_domain.split option.split)

lemma route_observe_ok:
  assumes "app_ok st"
  shows "app_ok (snd (route_observe clk tid st d dm addr at))"
proof -
  obtain e tc1 where o: "observe clk (Some (sy_bindings (ap_services st))) tid
      (sy_transitions (ap_services st)) d dm addr at = (e, tc1)" by fastforce
  then have t1: "tracks_ok tc1"
    using observe_detailed_ok [OF app_ok_parts(2) [OF assms], of clk "Some (sy_bindings (ap_services st))" tid d dm addr at]
    by (auto simp: observe_def split: prod.splits)
  obtain ctx tc2 where c: "context_for tc1 d at = (ctx, tc2)" by fastforce
  with context_for_ok [OF t1, of d at] have t2: "tracks_ok tc2" by simp
  obtain n tc3 where w: "transitions_in_window tc2 d at = (n, tc3)" by fastforce
  with transitions_in_window_ok [OF t2, of d at] have "tracks_ok tc3" by simp
  with assms show ?thesis by (simp add: route_observe_def o c w Let_def with_transitions_ok)
qed

lemma route_evidence_ok: "app_ok st \<Longrightarrow> app_ok (snd (route_evidence cr ad st r))"
proof (cases "app_strategy st (Some ''ca_ztcf'')")
  case (Inr def)
  assume "app_ok st"
  then have "app_ok (snd (run_strategy cr def (ad_strategy ad) st
      (to_access_request (ad_clk_domain ad) (ap_services st) r)))" by (rule run_strategy_ok)
  with Inr show ?thesis
    by (cases "run_strategy cr def (ad_strategy ad) st (to_access_request (ad_clk_domain ad) (ap_services st) r)")
      (simp add: route_evidence_def split: sum.split)
qed (simp add: route_evidence_def)

text \<open>The state the deciding routes leave, without their responses.\<close>

lemma route_decide_state:
  "snd (route_decide cr ad st r) =
     (let rq = to_access_request (ad_clk_domain ad) (ap_services st) r in
      case app_strategy st (dr_strategy r) of
        Inl e \<Rightarrow> st
      | Inr def \<Rightarrow> snd (decide_and_enforce cr def ad
          (decision_extra (dr_peer_address r) (rq_domain rq) (dr_domain r)) st rq))"
  by (simp add: route_decide_def Let_def split: sum.split prod.split error.split)

lemma route_step_up_state:
  "snd (route_step_up cr ad st d pf a dm si at) =
     (if reg_get (app_registry st) d = None then st
      else case app_strategy st (Some ''ca_ztcf'') of
        Inl e \<Rightarrow> st
      | Inr def \<Rightarrow> snd (decide_and_enforce cr def ad (\<lambda>_. [(''trigger'', JStr ''step_up'')]) st
          \<lparr>rq_device_id = d, rq_peer_address = a, rq_domain = dm, rq_session_identity = si,
           rq_proof = Some \<lparr>pp_device_id = d, pp_nonce = fst pf, pp_signature = snd pf\<rparr>,
           rq_resource = None, rq_at = at\<rparr>))"
  by (simp add: route_step_up_def split: sum.split prod.split)

lemma route_decide_ok: "app_ok st \<Longrightarrow> app_ok (snd (route_decide cr ad st r))"
  by (simp add: route_decide_state Let_def decide_and_enforce_ok split: sum.split)

lemma route_device_state_ok:
  assumes "app_ok st"
  shows "app_ok (snd (route_device_state now st d))"
proof -
  obtain n tc1 where w: "transitions_in_window (sy_transitions (ap_services st)) d now = (n, tc1)" by fastforce
  with transitions_in_window_ok [OF app_ok_parts(2) [OF assms], of d now] have t1: "tracks_ok tc1" by simp
  obtain ctx tc2 where c: "context_for tc1 d now = (ctx, tc2)" by fastforce
  with context_for_ok [OF t1, of d now] have "tracks_ok tc2" by simp
  with assms show ?thesis by (simp add: route_device_state_def w c Let_def with_transitions_ok)
qed

lemma route_active_decision_ok:
  assumes "app_ok st"
  shows "app_ok (snd (route_active_decision now st d))"
  using assms active_decision_ok [OF app_ok_parts(4) [OF assms], of now d]
  by (auto simp: route_active_decision_def app_ok_def split: prod.splits option.splits)

lemma route_step_up_ok: "app_ok st \<Longrightarrow> app_ok (snd (route_step_up cr ad st d pf a dm si at))"
  by (simp add: route_step_up_state decide_and_enforce_ok split: sum.split)

end
