(* ===== verification/Service_Runs.thy ===== *)
theory Service_Runs
  imports Service_Api
begin

text \<open>
  The service as a state machine: one step is one route or one call of the in-process decision
  client or of the enforcement point; the initial states are what \<open>build_app_state\<close> makes.

  Shown by induction over the steps: every component's invariant, the constancy of settings and
  matrix, and that the enforcement point only ever holds decisions the matrix prescribes.
\<close>

section \<open>Decisions the matrix prescribes\<close>

definition from_matrix :: "policy_matrix \<Rightarrow> decision \<Rightarrow> bool" where
  "from_matrix m d \<longleftrightarrow>
     (\<exists>out. lookup m (dc_trust_state d) (dc_transition_context d) = Inr out
        \<and> dc_action d = mo_action out \<and> dc_scope d = resolve (mo_scope out) (dc_device_id d))
     \<and> mx_ttl_ms m (dc_action d) = Inr (dc_ttl_ms d)"

lemma direct_from_matrix:
  "direct_decision dw sy name dev st ctx rs = Inr d \<Longrightarrow> from_matrix (sy_matrix sy) d"
  by (auto simp: direct_decision_def direct_def and_then_Inr_iff from_matrix_def)

lemma independent_outcome_from_matrix:
  "independent_outcome dw sy name rq st ctx rs f = Inr so \<Longrightarrow> from_matrix (sy_matrix sy) (so_decision so)"
  by (auto simp: independent_outcome_def and_then_Inr_iff baseline_outcome_def
      split: if_splits dest!: direct_from_matrix)

lemma static_outcome_from_matrix:
  "static_outcome dw sy def rq st rs notes = Inr so \<Longrightarrow> from_matrix (sy_matrix sy) (so_decision so)"
  by (auto simp: static_outcome_def and_then_Inr_iff baseline_outcome_def dest!: direct_from_matrix)

lemma judge_from_matrix:
  "fst (judge dw sy name ins now ctx notes) = Inr so \<Longrightarrow> from_matrix (sy_matrix sy) (so_decision so)"
  by (auto simp: judge_def Let_def evaluate_policy_def and_then_Inr_iff from_matrix_def split: sum.splits)

lemma proof_step_matrix: "sy_matrix (snd (proof_step cr dw sy rq i)) = sy_matrix sy"
  using proof_step_frame(1) [of sy cr dw rq i] by (simp add: same_policy_def)

lemma observe_step_matrix: "sy_matrix (snd (observe_step dw sy rq)) = sy_matrix sy"
  using observe_step_frame(1) [of sy dw rq] by (simp add: same_policy_def)

lemma context_step_matrix: "sy_matrix (snd (context_step dw sy rq)) = sy_matrix sy"
  using context_step_frame(1) [of sy dw rq] by (simp add: same_policy_def)

lemma independent_from_matrix:
  assumes "fst (independent_decide cr def dw sy rq) = Inr so"
  shows "from_matrix (sy_matrix sy) (so_decision so)"
  using assms
proof (cases rule: independent_branches)
  case (proven i)
  from proven(4) show ?thesis
    by (rule independent_proof_outcome)
      (auto dest: independent_outcome_from_matrix simp: proof_step_matrix observe_step_matrix context_step_matrix)
qed (auto dest: independent_outcome_from_matrix simp: observe_step_matrix context_step_matrix)

lemma static_authenticate_from_matrix:
  assumes "fst (static_authenticate cr def dw toks sy rq) = Inr so"
  shows "from_matrix (sy_matrix sy) (so_decision so)"
proof (cases "reg_get (sy_registry sy) (rq_device_id rq)")
  case None
  with assms show ?thesis
    by (auto simp: static_authenticate_def Let_def dest: static_outcome_from_matrix)
next
  case (Some i)
  obtain v rs where v: "registry_status_reason (Some i) = (v, rs)" by fastforce
  obtain pop sy' where p: "proof_step cr dw sy rq i = (pop, sy')" by fastforce
  with proof_step_matrix [of cr dw sy rq i] have "sy_matrix sy' = sy_matrix sy" by simp
  with assms Some v p show ?thesis
    by (auto simp: static_authenticate_def Let_def split: if_splits option.splits
        dest: static_outcome_from_matrix)
qed

lemma static_from_matrix:
  assumes "fst (static_decide cr def dw toks sy rq) = Inr so"
  shows "from_matrix (sy_matrix sy) (so_decision so)"
proof -
  obtain e sy' where o: "observe_step dw sy rq = (e, sy')" by fastforce
  with observe_step_matrix [of dw sy rq] have "sy_matrix sy' = sy_matrix sy" by simp
  with assms o show ?thesis
    by (auto simp: static_decide_def split: if_splits option.splits
        dest: static_outcome_from_matrix static_authenticate_from_matrix)
qed

lemma decide_result:
  "fst (decide cr def dw toks sy rq) =
     (case sd_kind def of
        K_CA_ZTCF \<Rightarrow> fst (ca_ztcf_decide cr (sd_name def) dw sy rq)
      | K_INDEPENDENT \<Rightarrow> fst (independent_decide cr def dw sy rq)
      | K_STATIC_CONTINUITY \<Rightarrow> fst (static_decide cr def dw toks sy rq))"
  by (simp add: decide_def split: strategy_kind.split prod.split)

lemma ca_ztcf_from_matrix:
  assumes "fst (ca_ztcf_decide cr name dw sy rq) = Inr so"
  shows "from_matrix (sy_matrix sy) (so_decision so)"
proof -
  obtain ins ctx tr sy1 where g: "gather cr dw sy rq = (ins, ctx, tr, sy1)" by (metis prod_cases4)
  have "sy_matrix sy1 = sy_matrix sy" using gather_facts(3) [OF g] by (simp add: same_policy_def)
  with assms judge_from_matrix show ?thesis by (fastforce simp: ca_ztcf_decide_def g)
qed

lemma decide_from_matrix:
  assumes "fst (decide cr def dw toks sy rq) = Inr so"
  shows "from_matrix (sy_matrix sy) (so_decision so)"
  using assms ca_ztcf_from_matrix independent_from_matrix static_from_matrix
  by (cases "sd_kind def") (auto simp: decide_result)

section \<open>Steps\<close>

inductive app_step :: "'k crypto \<Rightarrow> app_state \<Rightarrow> app_state \<Rightarrow> bool" for cr where
  register: "app_step cr st (snd (route_register cr now st d pem labels notes))"
| set_status: "app_step cr st (snd (route_set_status now st d s))"
| nonce: "app_step cr st (snd (route_nonce now raw st d))"
| ingest: "app_step cr st (snd (route_ingest cr repr_json clk bid st p))"
| observe: "app_step cr st (snd (route_observe clk tid st d dm addr at))"
| evidence: "app_step cr st (snd (route_evidence cr ad st r))"
| decide: "app_step cr st (snd (route_decide cr ad st r))"
| device_state: "app_step cr st (snd (route_device_state now st d))"
| active: "app_step cr st (snd (route_active_decision now st d))"
| step_up: "app_step cr st (snd (route_step_up cr ad st d pf a dm si at))"
| local_decide: "app_step cr st (snd (local_decide cr dflt ad st r))"
| local_nonce: "app_step cr st (snd (local_issue_nonce now raw st d))"
| enforce: "app_step cr st (st\<lparr>ap_pep := snd (check now (ap_pep st) rq)\<rparr>)"
| revoke: "app_step cr st (st\<lparr>ap_pep := revoke (ap_pep st) d\<rparr>)"

inductive_cases app_stepE: "app_step cr st st'"

inductive reachable :: "'k crypto \<Rightarrow> settings \<Rightarrow> app_state \<Rightarrow> bool" for cr s where
  start: "build_app_state s x y = Inr st \<Longrightarrow> reachable cr s st"
| step: "reachable cr s st \<Longrightarrow> app_step cr st st' \<Longrightarrow> reachable cr s st'"

lemma app_step_ok:
  assumes "app_step cr st st'" "app_ok st"
  shows "app_ok st'"
  using assms
proof (cases rule: app_step.cases)
  case (enforce now rq)
  with assms(2) check_ok [of "ap_pep st" now rq] show ?thesis by (simp add: app_ok_def)
next
  case (revoke d)
  with assms(2) revoke_ok [of "ap_pep st" d] show ?thesis by (simp add: app_ok_def)
qed (simp_all add: route_register_ok route_set_status_ok route_nonce_ok route_ingest_ok route_observe_ok
      route_evidence_ok route_decide_ok route_device_state_ok route_active_decision_ok route_step_up_ok
      local_decide_ok local_issue_nonce_ok)

lemma reachable_ok: "reachable cr s st \<Longrightarrow> app_ok st"
  by (induction rule: reachable.induct) (auto intro: build_app_state_ok app_step_ok)

section \<open>What the enforcement point holds\<close>

definition holds_matrix :: "settings \<Rightarrow> policy_matrix \<Rightarrow> app_state \<Rightarrow> bool" where
  "holds_matrix s m st \<longleftrightarrow> sy_settings (ap_services st) = s \<and> sy_matrix (ap_services st) = m
     \<and> dict_all (\<lambda>_ d. from_matrix m d) (mp_decisions (ap_pep st))"

definition quiet :: "app_state \<Rightarrow> app_state \<Rightarrow> bool" where
  "quiet st st' \<longleftrightarrow> ap_pep st' = ap_pep st \<and> sy_settings (ap_services st') = sy_settings (ap_services st)
     \<and> sy_matrix (ap_services st') = sy_matrix (ap_services st)"

lemma quiet_holds: "quiet st st' \<Longrightarrow> holds_matrix s m st \<Longrightarrow> holds_matrix s m st'"
  by (simp add: quiet_def holds_matrix_def)

lemma quiet_refl [simp]: "quiet st st"
  by (simp add: quiet_def)

lemma quiet_updates [simp]:
  "quiet st (update_registry st r)" "quiet st (with_transitions st tc)"
  "quiet st (st\<lparr>ap_services := (ap_services st)\<lparr>sy_nonces := ni\<rparr>\<rparr>)"
  "quiet st (snd (ingested st r'))"
  by (auto simp: quiet_def update_registry_def with_transitions_def ingested_def split: sum.split)

lemma quiet_run_strategy: "quiet st (snd (run_strategy cr def dw st rq))"
  by (simp add: quiet_def run_strategy_frame(1) run_strategy_frame(3) [unfolded same_policy_def])

lemma quiet_routes:
  "quiet st (snd (route_set_status now st d s'))"
  "quiet st (snd (route_nonce now raw st d))"
  "quiet st (snd (local_issue_nonce now raw st d))"
  "quiet st (snd (route_ingest cr repr_json clk bid st p))"
  "quiet st (snd (route_observe clk tid st d dm addr at))"
  "quiet st (snd (route_device_state now st d))"
  by (simp_all add: route_set_status_def route_nonce_def local_issue_nonce_def route_ingest_def
      route_observe_def route_device_state_def Let_def
      split: prod.split sum.split option.split access_domain.split)

lemma quiet_register: "quiet st (snd (route_register cr now st d pem labels notes))"
  by (simp add: route_register_def split: sum.split prod.split error.split)

lemma quiet_evidence: "quiet st (snd (route_evidence cr ad st r))"
proof (cases "app_strategy st (Some ''ca_ztcf'')")
  case (Inr def)
  let ?run = "run_strategy cr def (ad_strategy ad) st (to_access_request (ad_clk_domain ad) (ap_services st) r)"
  have "quiet st (snd ?run)" by (rule quiet_run_strategy)
  with Inr show ?thesis
    by (cases ?run) (simp add: route_evidence_def split: sum.split)
qed (simp add: route_evidence_def)

lemma decide_and_enforce_holds:
  assumes h: "holds_matrix s m st"
  shows "holds_matrix s m (snd (decide_and_enforce cr def ad extra st rq))"
proof (cases "fst (run_strategy cr def (ad_strategy ad) st rq)")
  case (Inl e)
  with quiet_holds [OF quiet_run_strategy h] show ?thesis by (simp add: decide_and_enforce_state)
next
  case (Inr so)
  let ?st = "snd (run_strategy cr def (ad_strategy ad) st rq)"
  have st: "holds_matrix s m ?st" by (rule quiet_holds [OF quiet_run_strategy h])
  from Inr h have "from_matrix m (so_decision so)"
    using decide_from_matrix by (fastforce simp: run_strategy_eq Let_def holds_matrix_def)
  with Inr st show ?thesis
    by (auto simp: decide_and_enforce_state enforce_outcome_def holds_matrix_def apply_decision_def)
qed

lemma check_decisions_subset: "set (mp_decisions (snd (check now p rq))) \<subseteq> set (mp_decisions p)"
  by (simp add: check_def active_decision_def set_dpop_subset split: option.split)

lemma active_decisions_subset: "set (mp_decisions (snd (active_decision now p d))) \<subseteq> set (mp_decisions p)"
  by (simp add: active_decision_def set_dpop_subset split: option.split)

lemma holds_fewer:
  "holds_matrix s m st \<Longrightarrow> set (mp_decisions p) \<subseteq> set (mp_decisions (ap_pep st)) \<Longrightarrow>
     holds_matrix s m (st\<lparr>ap_pep := p\<rparr>)"
  by (auto simp: holds_matrix_def dict_all_def)

lemma app_step_holds:
  assumes "app_step cr st st'" and h: "holds_matrix s m st"
  shows "holds_matrix s m st'"
  using assms(1)
proof (cases rule: app_step.cases)
  case (decide ad r)
  then show ?thesis using h
    by (simp add: route_decide_state Let_def decide_and_enforce_holds [OF h] split: sum.split)
next
  case (local_decide dflt ad r)
  then show ?thesis using h
    by (simp add: local_decide_state decide_and_enforce_holds [OF h] split: sum.split)
next
  case (step_up ad d pf a dm si at)
  then show ?thesis using h
    by (simp add: route_step_up_state decide_and_enforce_holds [OF h] split: sum.split)
next
  case (active now d)
  obtain x p where a: "active_decision now (ap_pep st) d = (x, p)" by fastforce
  with active_decisions_subset [of now "ap_pep st" d] have "holds_matrix s m (st\<lparr>ap_pep := p\<rparr>)"
    by (intro holds_fewer [OF h]) simp
  with active a show ?thesis by (simp add: route_active_decision_def split: option.split)
next
  case (enforce now rq)
  with holds_fewer [OF h check_decisions_subset] show ?thesis by simp
next
  case (revoke d)
  have "holds_matrix s m (st\<lparr>ap_pep := Enforcement.revoke (ap_pep st) d\<rparr>)"
    by (rule holds_fewer [OF h]) (simp add: revoke_def set_dpop_subset)
  with revoke show ?thesis by simp
qed (simp_all add: quiet_holds [OF _ h] quiet_routes quiet_register quiet_evidence)

lemma start_holds:
  assumes "build_app_state s x y = Inr st"
  shows "\<exists>m. new_policy_matrix s = Inr m \<and> holds_matrix s m st"
  using assms by (auto simp: build_app_state_def build_services_def and_then_Inr_iff Let_def holds_matrix_def new_pep_def)

lemma reachable_holds:
  assumes "reachable cr s st"
  shows "\<exists>m. new_policy_matrix s = Inr m \<and> holds_matrix s m st"
  using assms
proof (induction rule: reachable.induct)
  case (start x y st)
  then show ?case by (intro start_holds)
next
  case (step st st')
  then show ?case using app_step_holds by blast
qed

text \<open>
  Under the shipped configuration: whatever the enforcement point lets through was decided by the
  policy table, and lies in the scope it names.
\<close>

lemma from_shipped_matrix:
  assumes "from_matrix (shipped_matrix h) d"
  shows "dc_action d = fst (policy_table (dc_trust_state d) (dc_transition_context d))"
    and "dc_scope d = resolve (shipped_scope (snd (policy_table (dc_trust_state d) (dc_transition_context d))))
           (dc_device_id d)"
    and "dget shipped_ttl_ms (action_value (dc_action d)) = Some (dc_ttl_ms d)"
  using assms shipped_lookup [of h "dc_trust_state d" "dc_transition_context d"]
  by (auto simp: from_matrix_def mx_ttl_ms_def shipped_matrix_def split: option.splits)

lemma reachable_permits:
  assumes r: "reachable cr (shipped_settings h) st"
    and p: "el_permitted (fst (check now (ap_pep st) rq))"
  shows "\<exists>d. dget (mp_decisions (ap_pep st)) (eq_device_id rq) = Some d
     \<and> \<not> decision_expired now d \<and> dc_device_id d = eq_device_id rq
     \<and> dget shipped_ttl_ms (action_value (dc_action d)) = Some (dc_ttl_ms d)
     \<and> dc_action d = fst (policy_table (dc_trust_state d) (dc_transition_context d))
     \<and> dc_action d \<notin> set TERMINATING_ACTIONS
     \<and> dc_scope d = resolve (shipped_scope (snd (policy_table (dc_trust_state d) (dc_transition_context d))))
         (eq_device_id rq)
     \<and> (eq_operation rq = CONNECT \<or> fst (scope_permits d (eq_resource rq)))"
proof -
  from reachable_holds [OF r] shipped_matrix_loads [of h]
  have m: "dict_all (\<lambda>_ d. from_matrix (shipped_matrix h) d) (mp_decisions (ap_pep st))"
    by (auto simp: holds_matrix_def)
  have ok: "pep_ok (ap_pep st)" using reachable_ok [OF r] by (simp add: app_ok_def)
  from p obtain d where d: "dget (mp_decisions (ap_pep st)) (eq_device_id rq) = Some d"
      "\<not> decision_expired now d" "el_permitted (check_active now d rq)"
    by (auto simp: check_def active_decision_def split: option.splits if_splits)
  have f: "from_matrix (shipped_matrix h) d" using dict_all_dget [OF m d(1)] .
  have k: "dc_device_id d = eq_device_id rq \<and> dc_action d \<notin> set TERMINATING_ACTIONS"
    using ok d(1) by (auto simp: pep_ok_def dest: dict_all_dget)
  from d f k show ?thesis
    using from_shipped_matrix(3) [OF f]
    by (intro exI [of _ d]) (simp add: from_shipped_matrix(1,2) [OF f] check_active_permitted_iff)
qed

section \<open>Nothing raises under the shipped configuration\<close>

definition shipped :: "string \<Rightarrow> services \<Rightarrow> bool" where
  "shipped h sy \<longleftrightarrow> sy_settings sy = shipped_settings h \<and> sy_matrix sy = shipped_matrix h"

lemma shipped_same: "same_policy sy sy' \<Longrightarrow> shipped h sy \<Longrightarrow> shipped h sy'"
  by (simp add: same_policy_def shipped_def)

lemma shipped_direct_total:
  assumes "shipped h sy"
  shows "\<exists>d. direct_decision dw sy name dev st ctx rs = Inr d"
proof -
  obtain out where out: "lookup (shipped_matrix h) st ctx = Inr out" using shipped_lookup by blast
  obtain t where t: "mx_ttl_ms (shipped_matrix h) (mo_action out) = Inr t" using shipped_ttl by blast
  from assms out t show ?thesis by (simp add: direct_decision_def direct_def shipped_def)
qed

lemma shipped_independent_outcome:
  "shipped h sy \<Longrightarrow> \<exists>so. independent_outcome dw sy name rq st ctx rs f = Inr so"
  using shipped_direct_total [of h sy dw name "rq_device_id rq"]
  by (cases f) (simp_all add: independent_outcome_def and_then_Inr_iff)

lemma shipped_static_outcome:
  "shipped h sy \<Longrightarrow> \<exists>so. static_outcome dw sy def rq st rs notes = Inr so"
  using shipped_direct_total [of h sy dw "sd_name def" "rq_device_id rq"]
  by (simp add: static_outcome_def and_then_Inr_iff)

lemma shipped_ca_ztcf_total:
  assumes "shipped h sy"
  shows "\<exists>so. fst (ca_ztcf_decide cr name dw sy rq) = Inr so"
proof -
  obtain ins ctx tr sy1 where g: "gather cr dw sy rq = (ins, ctx, tr, sy1)" by (metis prod_cases4)
  have s1: "sy_settings sy1 = shipped_settings h" "sy_matrix sy1 = shipped_matrix h"
    using gather_facts(3) [OF g] assms by (simp_all add: same_policy_def shipped_def)
  obtain out where out: "lookup (shipped_matrix h) (classify (sy_settings sy1) ins (decision_now dw rq)) ctx = Inr out"
    using shipped_lookup by blast
  obtain t where t: "mx_ttl_ms (shipped_matrix h) (mo_action out) = Inr t" using shipped_ttl by blast
  have "\<exists>so sy'. judge dw sy1 name ins (decision_now dw rq) ctx [(''transition_detected'', bool_text (tr \<noteq> None))]
      = (Inr so, sy')"
    by (rule judge_total [where out = out and ttl = t]) (use s1 out t in simp_all)
  then show ?thesis by (auto simp: ca_ztcf_decide_def g)
qed

lemma shipped_independent_proof:
  assumes "shipped h sy" "0 \<le> param_or ''proof_of_possession_ttl_s'' 300 def"
  shows "\<exists>so. fst (independent_proof cr def dw sy rq i ctx) = Inr so"
proof -
  obtain pop sy' where p: "proof_step cr dw sy rq i = (pop, sy')" by fastforce
  then have s': "shipped h sy'" using shipped_same [OF proof_step_frame(1) assms(1), of cr dw rq i] by simp
  have "proof_ttl_s sy = 300" using assms(1) by (simp add: proof_ttl_s_def shipped_def shipped_settings_def)
  with assms(2) have f: "\<exists>b. is_fresh t now (param_or ''proof_of_possession_ttl_s'' (proof_ttl_s sy) def) = Inr b"
    for t now by (simp add: is_fresh_def)
  show ?thesis
    using shipped_independent_outcome [OF s'] f
    by (simp add: independent_proof_def p split: option.split sum.split) (metis sum.simps(4))
qed

lemma shipped_independent_total:
  assumes "shipped h sy" "0 \<le> param_or ''proof_of_possession_ttl_s'' 300 def"
  shows "\<exists>so. fst (independent_decide cr def dw sy rq) = Inr so"
proof -
  obtain e sy1 where o: "observe_step dw sy rq = (e, sy1)" by fastforce
  then have s1: "shipped h sy1" using shipped_same [OF observe_step_frame(1) assms(1), of dw rq] by simp
  obtain ctx sy2 where c: "context_step dw sy1 rq = (ctx, sy2)" by fastforce
  then have s2: "shipped h sy2" using shipped_same [OF context_step_frame(1) s1, of dw rq] by simp
  show ?thesis
    using shipped_independent_outcome [OF s2] shipped_independent_proof [OF s2 assms(2), of cr dw rq]
    by (simp add: independent_decide_def o c Let_def split: option.split prod.split)
qed

lemma shipped_static_authenticate:
  assumes "shipped h sy"
  shows "\<exists>so. fst (static_authenticate cr def dw toks sy rq) = Inr so"
proof (cases "reg_get (sy_registry sy) (rq_device_id rq)")
  case None
  with shipped_static_outcome [OF assms] show ?thesis by (simp add: static_authenticate_def Let_def)
next
  case (Some i)
  obtain pop sy' where p: "proof_step cr dw sy rq i = (pop, sy')" by fastforce
  then have s': "shipped h sy'" using shipped_same [OF proof_step_frame(1) assms, of cr dw rq i] by simp
  from Some show ?thesis
    using shipped_static_outcome [OF assms] shipped_static_outcome [OF s']
    by (simp add: static_authenticate_def Let_def p split: option.split prod.split)
qed

lemma shipped_static_total:
  assumes "shipped h sy"
  shows "\<exists>so. fst (static_decide cr def dw toks sy rq) = Inr so"
proof -
  obtain e sy1 where o: "observe_step dw sy rq = (e, sy1)" by fastforce
  then have s1: "shipped h sy1" using shipped_same [OF observe_step_frame(1) assms, of dw rq] by simp
  show ?thesis
    using shipped_static_outcome [OF s1] shipped_static_authenticate [OF s1, of cr]
    by (simp add: static_decide_def o split: option.split)
qed

lemma shipped_decide_total:
  assumes "shipped h sy" "0 \<le> param_or ''proof_of_possession_ttl_s'' 300 def"
  shows "\<exists>so. fst (decide cr def dw toks sy rq) = Inr so"
  using shipped_ca_ztcf_total [OF assms(1), of cr] shipped_independent_total [OF assms, of cr]
    shipped_static_total [OF assms(1), of cr]
  by (cases "sd_kind def") (simp_all add: decide_result)

section \<open>Who a decision is about\<close>

lemma decide_device:
  assumes "fst (decide cr def dw toks sy rq) = Inr so" "evidence_valid (st_evidence (sy_settings sy))"
  shows "dc_device_id (so_decision so) = rq_device_id rq"
proof (cases "sd_kind def")
  case K_CA_ZTCF
  then have "fst (case ca_ztcf_decide cr (sd_name def) dw sy rq of (r, sy') \<Rightarrow> (r, (), sy')) = Inr so"
    using assms(1) by (auto simp: decide_result split: prod.splits)
  then show ?thesis by (rule proposed.answers_requester [OF assms(2)])
next
  case K_INDEPENDENT
  with assms(1) show ?thesis using independent_state(1) by (simp add: decide_result)
next
  case K_STATIC_CONTINUITY
  with assms(1) show ?thesis using static_state(1) by (simp add: decide_result)
qed

end
