(* ===== verification/Sample_Run.thy ===== *)
theory Sample_Run
  imports Service_Runs
begin

text \<open>
  A small concrete deployment under the shipped configuration: one registered device, its WLAN
  binding, a toy signature scheme. The witnesses of the properties are evaluated on it.
\<close>

text \<open>A key is its PEM text; a signature is valid when it is the message itself.\<close>

definition sample_crypto :: "string crypto" where
  "sample_crypto =
     \<lparr>load_pem = (\<lambda>pem. if pem = [] then None else Some (Ed25519Key pem)),
      key_der = (\<lambda>k. case k of Ed25519Key p \<Rightarrow> str_encode p | OtherKey p \<Rightarrow> str_encode p),
      sha256_hex = (\<lambda>bs. map (\<lambda>b. char_of (97 + unat b mod 16)) bs),
      ed_verify = (\<lambda>k sig msg. sig = msg)\<rparr>"

definition sample_identity :: device_identity where
  "sample_identity =
     \<lparr>di_device_id = ''dev-1'', di_public_key_pem = ''K'', di_public_key_fingerprint = ''k'',
      di_status = ACTIVE, di_created_at = 0, di_updated_at = 0, di_labels = [], di_notes = []\<rparr>"

definition sample_binding :: access_binding where
  "sample_binding =
     \<lparr>ab_binding_id = ''b1'', ab_domain = WLAN, ab_peer_address = ''10.0.0.2'', ab_device_ref = None,
      ab_source = ''collector.wlan'', ab_source_mode = SYNTHETIC_FIXTURE, ab_first_seen = 0,
      ab_last_seen = seconds 100, ab_expires_at = Some (seconds 220),
      ab_attributes = [(''eap_success'', ''true''), (''akm'', ''WPA2-EAP'')]\<rparr>"

definition sample_nonce :: string where
  "sample_nonce = b64url_encode [1, 2, 3]"

definition sample_proof :: proof_of_possession where
  "sample_proof = \<lparr>pp_device_id = ''dev-1'', pp_nonce = sample_nonce, pp_signature = sample_nonce\<rparr>"

definition sample_services :: services where
  "sample_services =
     (build_services (shipped_settings ''h'') (shipped_matrix ''h''))
       \<lparr>sy_registry := [(''dev-1'', sample_identity)],
        sy_nonces := \<lparr>ni_ttl_s = 60, ni_issued = [(sample_nonce, \<lparr>in_device_id = ''dev-1'',
          in_issued_at = seconds 90, in_expires_at = seconds 150\<rparr>)]\<rparr>,
        sy_bindings := [(''10.0.0.2'', sample_binding)]\<rparr>"

definition sample_draws :: draws where
  "sample_draws =
     \<lparr>dw_now = seconds 100, dw_clk_verify = seconds 100, dw_clk_observe = seconds 100,
      dw_clk_claim = seconds 100, dw_clk_direct = seconds 100, dw_transition_id = ''t1'',
      dw_record_id = ''r1'', dw_trace_id = ''p1'', dw_evaluation_id = ''e1'', dw_decision_id = ''d1'',
      dw_engine_ns = (0, 10), dw_policy_ns = (0, 10)\<rparr>"

definition sample_request :: access_request where
  "sample_request =
     \<lparr>rq_device_id = ''dev-1'', rq_peer_address = ''10.0.0.2'', rq_domain = WLAN,
      rq_session_identity = None, rq_proof = Some sample_proof, rq_resource = None, rq_at = None\<rparr>"

definition sample_outcome :: "strategy_outcome result" where
  "sample_outcome = fst (ca_ztcf_decide sample_crypto ''ca_ztcf'' sample_draws sample_services sample_request)"

section \<open>The steps of the sample decision, evaluated\<close>

definition sample_pop :: pop_result where
  "sample_pop =
     \<lparr>pr_device_id = ''dev-1'', pr_valid = True, pr_reason = ''POP_VERIFIED'',
      pr_verified_at = Some (seconds 100), pr_algorithm = Some ''ed25519''\<rparr>"

definition sample_inputs :: assembler_inputs where
  "sample_inputs =
     \<lparr>ai_device_id = ''dev-1'', ai_identity = Some sample_identity, ai_pop_result = Some sample_pop,
      ai_binding = Some (sample_binding\<lparr>ab_device_ref := Some ''dev-1''\<rparr>), ai_binding_consistent = True,
      ai_current_domain = Some WLAN, ai_previous_domain = None, ai_transition = None,
      ai_transition_recent = False, ai_transitions_in_window = 0, ai_authentication_failure_count = 0,
      ai_session_consistent = True, ai_collector_available = True\<rparr>"

lemma sample_fields [simp]:
  "sy_settings sample_services = shipped_settings ''h''" "sy_matrix sample_services = shipped_matrix ''h''"
  "sy_registry sample_services = [(''dev-1'', sample_identity)]"
  "sy_bindings sample_services = [(''10.0.0.2'', sample_binding)]"
  "sy_proofs sample_services = []"
  "sy_counters sample_services = new_counters 300"
  "sy_transitions sample_services = new_transition_collector 60 3 20"
  "sy_states sample_services = new_state_manager 64"
  "decision_now sample_draws sample_request = seconds 100"
  by (simp_all add: sample_services_def build_services_def shipped_settings_def decision_now_def
      sample_draws_def sample_request_def)

lemma sample_inputs_fields [simp]:
  "rq_device_id sample_request = ''dev-1''" "rq_peer_address sample_request = ''10.0.0.2''"
  "rq_domain sample_request = WLAN" "rq_proof sample_request = Some sample_proof"
  "session_consistent sample_request"
  "dw_clk_verify sample_draws = seconds 100" "dw_clk_observe sample_draws = seconds 100"
  "dw_clk_claim sample_draws = seconds 100"
  by (simp_all add: sample_request_def sample_draws_def session_consistent_def)

lemma sample_verify:
  "verify sample_crypto (seconds 100) (sy_nonces sample_services) sample_identity sample_proof =
     (sample_pop, \<lparr>ni_ttl_s = 60, ni_issued = []\<rparr>)"
  by (simp add: verify_def consume_def check_signature_def sample_proof_def sample_identity_def
      sample_services_def sample_crypto_def sample_nonce_def b64url_decode_encode seconds_def sample_pop_def)

lemma sample_identity_step:
  "identity_step sample_crypto sample_draws sample_services sample_request =
     (Some sample_pop, sample_services\<lparr>sy_nonces := \<lparr>ni_ttl_s = 60, ni_issued = []\<rparr>,
        sy_proofs := [(''dev-1'', sample_pop)]\<rparr>)"
  by (simp add: identity_step_def proof_step_def reg_get_def sample_verify Let_def ps_record_def)
    (simp add: sample_pop_def)

definition sample_track :: device_track where
  "sample_track = new_track\<lparr>dt_current_domain := Some WLAN, dt_current_address := Some ''10.0.0.2'',
     dt_last_observed_at := Some (seconds 100)\<rparr>"

definition sample_tracks :: transition_collector where
  "sample_tracks = (new_transition_collector 60 3 20)\<lparr>tc_tracks := [(''dev-1'', sample_track)]\<rparr>"

lemma sample_observe:
  "observe_detailed clk bs tid (new_transition_collector 60 3 20) ''dev-1'' WLAN (Some ''10.0.0.2'') (seconds 100) =
     (\<lparr>or_verdict = NO_CHANGE, or_event = None\<rparr>, sample_tracks)"
  by (simp add: observe_detailed_def Let_def track_of_def new_transition_collector_def is_stale_def
      is_repeat_def domain_change_def address_change_def new_track_def sample_track_def sample_tracks_def)

lemma sample_queries:
  "context_for sample_tracks ''dev-1'' t = (CtxNone, sample_tracks)"
  "transitions_in_window sample_tracks ''dev-1'' t = (0, sample_tracks)"
  "current_domain sample_tracks ''dev-1'' = Some WLAN" "previous_domain sample_tracks ''dev-1'' = None"
  "last_transition sample_tracks ''dev-1'' = None" "is_transition_recent sample_tracks ''dev-1'' t = False"
  by (simp_all add: context_for_def transitions_in_window_def current_domain_def previous_domain_def
      is_transition_recent_def last_transition_def sample_tracks_def sample_track_def new_track_def
      prune_history_def new_transition_collector_def)

lemma sample_claim:
  "claim (seconds 100) [(''10.0.0.2'', sample_binding)] ''10.0.0.2'' ''dev-1'' =
     (Some (sample_binding\<lparr>ab_device_ref := Some ''dev-1''\<rparr>), True,
      [(''10.0.0.2'', sample_binding\<lparr>ab_device_ref := Some ''dev-1''\<rparr>)])"
  by (simp add: claim_def bs_get_def ab_is_expired_def sample_binding_def seconds_def Let_def)

lemma sample_failures: "\<exists>cn. authn_failures (new_counters 300) ''dev-1'' t = (0, cn)"
  by (rule exI [of _ "snd (authn_failures (new_counters 300) ''dev-1'' t)"])
    (simp add: prod_eq_iff authn_failures_count bucket_of_def new_counters_def)

lemma sample_gather:
  "\<exists>sy'. gather sample_crypto sample_draws sample_services sample_request = (sample_inputs, CtxNone, None, sy')"
proof -
  obtain cn where cn: "authn_failures (new_counters 300) ''dev-1'' (seconds 100) = (0, cn)"
    using sample_failures by blast
  show ?thesis
    by (simp add: gather_def sample_identity_step observe_step_def observe_def sample_observe
        context_step_def sample_queries claim_step_def sample_claim inputs_step_def cn
        reg_get_def Let_def sample_inputs_def)
qed

lemma sample_shipped [simp]: "shipped h sy \<Longrightarrow> evidence_valid (st_evidence (sy_settings sy))"
  by (simp add: shipped_def)

lemma sample_classified: "classify (shipped_settings h) sample_inputs (seconds 100) = STABLE"
  by (simp add: classify_STABLE_iff identity_ok_def contradictory_def evidence_sufficient_def
      binding_present_and_fresh_def proof_usable_and_fresh_def usable_proof_def sample_inputs_def
      sample_identity_def sample_binding_def sample_pop_def shipped_settings_def shipped_posture_def
      evaluate_posture_def evaluate_posture_wlan_def not_listed_def accept_posture_def
      ab_is_expired_def age_us_def seconds_def)

section \<open>A reachable state\<close>

text \<open>The service starts, the device registers, and asks without a proof: it may only step up.\<close>

definition sample_app0 :: app_state where
  "sample_app0 =
     \<lparr>ap_services = build_services (shipped_settings ''h'') (shipped_matrix ''h''), ap_tokens = [],
      ap_pep = new_pep, ap_audit = new_audit_writer (st_audit (shipped_settings ''h'')),
      ap_nr_collector = \<lparr>co_hash_length = 16, co_salt = [1], co_available = True\<rparr>,
      ap_wlan_collector = \<lparr>co_hash_length = 16, co_salt = [2], co_available = True\<rparr>\<rparr>"

definition sample_pem :: string where
  "sample_pem = ''an Ed25519 public key''"

definition sample_app1 :: app_state where
  "sample_app1 = snd (route_register sample_crypto 0 sample_app0 ''dev-1'' sample_pem [] [])"

definition sample_app_draws :: app_draws where
  "sample_app_draws =
     \<lparr>ad_clk_domain = seconds 100, ad_strategy = sample_draws, ad_recorded_at = seconds 100\<rparr>"

definition sample_plain_request :: decision_request where
  "sample_plain_request =
     \<lparr>dr_device_id = ''dev-1'', dr_peer_address = ''10.0.0.2'', dr_domain = Some WLAN,
      dr_session_identity = None, dr_proof = None, dr_resource = None, dr_strategy = None, dr_at = None\<rparr>"

definition sample_app2 :: app_state where
  "sample_app2 = snd (route_decide sample_crypto sample_app_draws sample_app1 sample_plain_request)"

lemma sample_build: "build_app_state (shipped_settings ''h'') [1] [2] = Inr sample_app0"
  by (simp add: build_app_state_def shipped_matrix_loads Let_def sample_app0_def)
    (simp add: shipped_settings_def)

lemma sample_reachable1: "reachable sample_crypto (shipped_settings ''h'') sample_app1"
  unfolding sample_app1_def by (rule reachable.step [OF reachable.start [OF sample_build] app_step.register])

lemma sample_reachable2: "reachable sample_crypto (shipped_settings ''h'') sample_app2"
  unfolding sample_app2_def by (rule reachable.step [OF sample_reachable1 app_step.decide])

definition sample_registration :: device_identity where
  "sample_registration =
     \<lparr>di_device_id = ''dev-1'', di_public_key_pem = sample_pem,
      di_public_key_fingerprint = sha256_hex sample_crypto (str_encode sample_pem),
      di_status = ACTIVE, di_created_at = 0, di_updated_at = 0, di_labels = [], di_notes = []\<rparr>"

lemma sample_registration_valid: "identity_valid sample_registration"
  by (simp add: identity_valid_def sample_registration_def sample_crypto_def sample_pem_def str_encode_def
      rejects_private_key_def str_contains_def py_upper_def upper_char_def char_of_def device_id_charset_def
      id_char_allowed_def bit_Suc_0_iff)

lemma sample_registered: "sample_app1 = update_registry sample_app0 [(''dev-1'', sample_registration)]"
proof -
  have "fingerprint_public_key_pem sample_crypto sample_pem = Inr (sha256_hex sample_crypto (str_encode sample_pem))"
    by (simp add: fingerprint_public_key_pem_def sample_crypto_def sample_pem_def)
  moreover have "app_registry sample_app0 = []" by (simp add: app_registry_def sample_app0_def build_services_def)
  ultimately have "register sample_crypto 0 (app_registry sample_app0) ''dev-1'' sample_pem [] [] ACTIVE =
      Inr (sample_registration, [(''dev-1'', sample_registration)])"
    using sample_registration_valid by (simp add: register_def reg_exists_def Let_def sample_registration_def)
  then show ?thesis by (simp add: sample_app1_def route_register_def)
qed

definition sample_plain_access :: access_request where
  "sample_plain_access =
     \<lparr>rq_device_id = ''dev-1'', rq_peer_address = ''10.0.0.2'', rq_domain = WLAN, rq_session_identity = None,
      rq_proof = None, rq_resource = None, rq_at = None\<rparr>"

definition sample_plain_inputs :: assembler_inputs where
  "sample_plain_inputs =
     \<lparr>ai_device_id = ''dev-1'', ai_identity = Some sample_registration, ai_pop_result = None,
      ai_binding = None, ai_binding_consistent = True, ai_current_domain = Some WLAN,
      ai_previous_domain = None, ai_transition = None, ai_transition_recent = False,
      ai_transitions_in_window = 0, ai_authentication_failure_count = 0,
      ai_session_consistent = True, ai_collector_available = True\<rparr>"

lemma sample_app1_fields [simp]:
  "sy_settings (ap_services sample_app1) = shipped_settings ''h''"
  "sy_matrix (ap_services sample_app1) = shipped_matrix ''h''"
  "sy_registry (ap_services sample_app1) = [(''dev-1'', sample_registration)]"
  "sy_bindings (ap_services sample_app1) = []" "sy_proofs (ap_services sample_app1) = []"
  "sy_counters (ap_services sample_app1) = new_counters 300"
  "sy_transitions (ap_services sample_app1) = new_transition_collector 60 3 20"
  "ap_tokens sample_app1 = []" "ap_pep sample_app1 = new_pep"
  by (simp_all add: sample_registered update_registry_def sample_app0_def build_services_def)
    (simp_all add: shipped_settings_def)

lemma sample_plain_fields [simp]:
  "rq_device_id sample_plain_access = ''dev-1''" "rq_peer_address sample_plain_access = ''10.0.0.2''"
  "rq_domain sample_plain_access = WLAN" "rq_proof sample_plain_access = None"
  "session_consistent sample_plain_access" "decision_now sample_draws sample_plain_access = seconds 100"
  by (simp_all add: sample_plain_access_def sample_draws_def session_consistent_def decision_now_def)

lemma sample_plain_gather:
  "\<exists>sy'. gather sample_crypto sample_draws (ap_services sample_app1) sample_plain_access
     = (sample_plain_inputs, CtxNone, None, sy')"
proof -
  obtain cn where cn: "authn_failures (new_counters 300) ''dev-1'' (seconds 100) = (0, cn)"
    using sample_failures by blast
  have p: "ps_get t [] d n = (None, [])" for t d n by (simp add: ps_get_def)
  show ?thesis
    by (simp add: gather_def identity_step_def proof_step_def reg_get_def p observe_step_def observe_def
        context_step_def claim_step_def claim_def bs_get_def inputs_step_def Let_def
        sample_observe sample_queries cn)
      (simp add: sample_plain_inputs_def)
qed

lemma sample_plain_degraded: "classify (shipped_settings h) sample_plain_inputs (seconds 100) = DEGRADED"
  by (simp add: classify_def identity_ok_def contradictory_def evidence_sufficient_def
      binding_present_and_fresh_def sample_plain_inputs_def sample_registration_def shipped_settings_def)

lemma sample_plain_strategy: "dr_strategy sample_plain_request = None"
  by (simp add: sample_plain_request_def)

lemma sample_app2_decision:
  "\<exists>d. dget (mp_decisions (ap_pep sample_app2)) ''dev-1'' = Some d \<and> dc_trust_state d = DEGRADED
     \<and> dc_created_at d = seconds 100 \<and> from_matrix (shipped_matrix ''h'') d \<and> dc_device_id d = ''dev-1''"
proof -
  let ?sy = "ap_services sample_app1" and ?def = "\<lparr>sd_name = ''ca_ztcf'', sd_kind = K_CA_ZTCF, sd_parameters = []\<rparr>"
  have strat: "app_strategy sample_app1 None = Inr ?def"
    by (simp add: app_strategy_def DEFAULT_STRATEGY_def) (simp add: shipped_settings_def shipped_strategies_def)
  have rq: "to_access_request t ?sy sample_plain_request = sample_plain_access" for t
    by (simp add: to_access_request_def derived_domain_def sample_plain_request_def sample_plain_access_def)
  have sh: "shipped ''h'' ?sy" by (simp add: shipped_def)
  then obtain so where so: "fst (ca_ztcf_decide sample_crypto ''ca_ztcf'' sample_draws ?sy sample_plain_access) = Inr so"
    using shipped_ca_ztcf_total by blast
  then obtain sy' where d: "ca_ztcf_decide sample_crypto ''ca_ztcf'' sample_draws ?sy sample_plain_access = (Inr so, sy')"
    by (metis prod.collapse)
  obtain sy1 where g: "gather sample_crypto sample_draws ?sy sample_plain_access
      = (sample_plain_inputs, CtxNone, None, sy1)" using sample_plain_gather by blast
  note f = ca_ztcf_decide_facts [OF _ g d]
  have j: "judge sample_draws sy1 ''ca_ztcf'' sample_plain_inputs (seconds 100) CtxNone
      [(''transition_detected'', bool_text False)] = (Inr so, sy')"
    using d by (simp add: ca_ztcf_decide_def g)
  have v1: "evidence_valid (st_evidence (sy_settings sy1))"
    using gather_facts(3) [OF g] by (simp add: same_policy_def)
  have st: "dc_trust_state (so_decision so) = DEGRADED" "dc_device_id (so_decision so) = ''dev-1''"
    "dc_created_at (so_decision so) = seconds 100"
    using f(1,2) judge_Inr(4) [OF v1 j] sample_plain_degraded
    by simp_all
  have m: "from_matrix (shipped_matrix ''h'') (so_decision so)" using ca_ztcf_from_matrix [OF so] by simp
  have a: "dc_action (so_decision so) \<notin> set TERMINATING_ACTIONS"
    using from_shipped_matrix(1) [OF m] st(1) by (simp add: TERMINATING_ACTIONS_def)
  have run: "fst (run_strategy sample_crypto ?def sample_draws sample_app1 sample_plain_access) = Inr so"
    by (simp add: run_strategy_eq Let_def decide_result so)
  have "ap_pep (snd (decide_and_enforce sample_crypto ?def sample_app_draws x sample_app1 sample_plain_access))
      = apply_decision new_pep (so_decision so)" for x
    using run by (simp add: decide_and_enforce_state sample_app_draws_def enforce_outcome_def run_strategy_frame)
  then have "ap_pep sample_app2 = apply_decision new_pep (so_decision so)"
    by (simp add: sample_app2_def route_decide_state strat rq Let_def sample_plain_strategy)
  with a st m show ?thesis by (simp add: apply_decision_def)
qed

definition sample_connect :: enforcement_request where
  "sample_connect = \<lparr>eq_device_id = ''dev-1'', eq_operation = CONNECT, eq_resource = []\<rparr>"

lemma sample_permitted: "el_permitted (fst (check (seconds 101) (ap_pep sample_app2) sample_connect))"
proof -
  obtain d where d: "dget (mp_decisions (ap_pep sample_app2)) ''dev-1'' = Some d"
    "dc_trust_state d = DEGRADED" "dc_created_at d = seconds 100" "from_matrix (shipped_matrix ''h'') d"
    using sample_app2_decision by blast
  from d(2) have "dget shipped_ttl_ms ''STEP_UP_AUTHENTICATION'' = Some (dc_ttl_ms d)"
    using from_shipped_matrix(1,3) [OF d(4)] by simp
  then have "dc_ttl_ms d = 10000" by (simp add: shipped_ttl_ms_def)
  with d show ?thesis
    by (simp add: check_permitted_iff sample_connect_def decision_expired_def seconds_def milliseconds_def)
qed

section \<open>The sample decision\<close>

lemma sample_run:
  "\<exists>sy1 so sy'. gather sample_crypto sample_draws sample_services sample_request = (sample_inputs, CtxNone, None, sy1)
     \<and> ca_ztcf_decide sample_crypto ''ca_ztcf'' sample_draws sample_services sample_request = (Inr so, sy')"
proof -
  have "shipped ''h'' sample_services" by (simp add: shipped_def)
  then obtain so where "fst (ca_ztcf_decide sample_crypto ''ca_ztcf'' sample_draws sample_services sample_request) = Inr so"
    using shipped_ca_ztcf_total by blast
  with sample_gather show ?thesis by (metis prod.collapse)
qed

text \<open>The same services after the device was revoked.\<close>

definition revoked_services :: services where
  "revoked_services = sample_services\<lparr>sy_registry := [(''dev-1'', sample_identity\<lparr>di_status := REVOKED\<rparr>)]\<rparr>"

text \<open>Session tokens of the static baseline, one of them live.\<close>

definition sample_tokens :: tokens where
  "sample_tokens = [(''dev-1'', \<lparr>tk_device_id = ''dev-1'', tk_issued_at = 0, tk_expires_at = seconds 300\<rparr>)]"

definition static_definition :: strategy_definition where
  "static_definition = \<lparr>sd_name = ''static_continuity'', sd_kind = K_STATIC_CONTINUITY,
     sd_parameters = [(''token_ttl_s'', 300)]\<rparr>"

lemma sample_revoked_run:
  "\<exists>so. fst (ca_ztcf_decide sample_crypto ''ca_ztcf'' sample_draws revoked_services sample_request) = Inr so"
  by (rule shipped_ca_ztcf_total [of "''h''"]) (simp add: shipped_def revoked_services_def)

lemma sample_static_run:
  "\<exists>so. fst (static_decide sample_crypto static_definition sample_draws sample_tokens revoked_services sample_request) = Inr so"
  by (rule shipped_static_total [of "''h''"]) (simp add: shipped_def revoked_services_def)

definition sample_decision :: decision where
  "sample_decision =
     \<lparr>dc_decision_id = ''d1'', dc_device_id = ''dev-1'', dc_strategy = ''ca_ztcf'', dc_trust_state = STABLE,
      dc_transition_context = CtxNone, dc_action = ALLOW,
      dc_scope = resolve (shipped_scope ''full'') ''dev-1'', dc_ttl_ms = 60000, dc_reason_codes = [],
      dc_rule_id = ''P10'', dc_predicate_trace_id = None, dc_evidence_record_id = None,
      dc_created_at = seconds 100, dc_config_hash = ''h'', dc_decision_duration_ns = 0\<rparr>"

definition sample_evaluation :: "trust_state \<Rightarrow> trust_evaluation" where
  "sample_evaluation st =
     \<lparr>tv_evaluation_id = ''e1'', tv_device_id = ''dev-1'', tv_previous_state = None, tv_new_state = st,
      tv_firing_rule = ''R5'', tv_reason_codes = [], tv_predicate_trace_id = ''p1'', tv_predicate_vector = [],
      tv_evidence_record_id = ''r1'', tv_evaluated_at = 0, tv_engine_duration_ns = 0, tv_config_hash = ''h''\<rparr>"

lemma sample_served:
  "\<exists>so st'. decide_and_enforce sample_crypto \<lparr>sd_name = ''ca_ztcf'', sd_kind = K_CA_ZTCF, sd_parameters = []\<rparr>
     sample_app_draws (\<lambda>_. []) sample_app1 sample_plain_access = (Inr so, st')"
proof -
  let ?def = "\<lparr>sd_name = ''ca_ztcf'', sd_kind = K_CA_ZTCF, sd_parameters = []\<rparr>"
  have "\<exists>so. fst (decide sample_crypto ?def sample_draws toks (ap_services sample_app1) sample_plain_access) = Inr so" for toks
    by (rule shipped_decide_total [of "''h''"]) (simp_all add: shipped_def param_or_def)
  then obtain so where "fst (decide_and_enforce sample_crypto ?def sample_app_draws (\<lambda>_. []) sample_app1 sample_plain_access) = Inr so"
    by (fastforce simp: decide_and_enforce_result run_strategy_eq Let_def sample_app_draws_def)
  then show ?thesis by (metis prod.collapse)
qed

lemma sample_denylist: "aw_denylist (ap_audit sample_app1) = map py_lower shipped_redact_keys"
  by (simp add: sample_registered update_registry_def sample_app0_def new_audit_writer_def shipped_settings_def)

definition sample_event :: nr_access_event where
  "sample_event =
     \<lparr>ne_event_type = SESSION_ESTABLISHED, ne_peer_address = ''10.0.0.3'', ne_observed_at = 0,
      ne_source_mode = SYNTHETIC_FIXTURE, ne_subscriber_ref = None, ne_pdu_session_id = None, ne_dnn = None,
      ne_gnb_id = None, ne_rat_type = ''NR'', ne_registration_state = ''REGISTERED'',
      ne_pdu_session_active = True, ne_binding_lifetime_s = Some 120\<rparr>"

end
