(* ===== verification/Mqtt_Codec.thy ===== *)
theory Mqtt_Codec
  imports Access_Collectors
begin

text \<open>
  The MQTT 3.1.1 codec (\<^verbatim>\<open>src/ca_ztcf/enforcement/mqtt_codec.py\<close>) on bytes (\<open>8 word\<close>): the
  variable-length remaining length, length-prefixed fields, the decoders of the packets the
  enforcement point reads and the builders of those it writes.

  Definitions only. The bounds and the round trips of numbers and fields are in Mqtt\_Codec\_Facts,
  those of whole packets in Mqtt\_Stream.
\<close>

unbundle bit_operations_syntax

section \<open>Integers on the wire\<close>

definition MAX_REMAINING_LENGTH :: nat where
  "MAX_REMAINING_LENGTH = 268435455"

text \<open>\<open>n.to_bytes(2, "big")\<close> and \<open>int.from_bytes(bs, "big")\<close>\<close>

definition be16 :: "nat \<Rightarrow> bytes" where
  "be16 n = [of_nat (n div 256), of_nat (n mod 256)]"

definition to_bytes2 :: "nat \<Rightarrow> bytes result" where
  "to_bytes2 n = (if n \<ge> 65536 then Inl (PyOverflowError ''int too big to convert'') else Inr (be16 n))"

definition from_bytes :: "bytes \<Rightarrow> nat" where
  "from_bytes bs = foldl (\<lambda>a b. 256 * a + unat b) 0 bs"

text \<open>The bytes of a varint: seven bits each, the lowest first, the top bit set on all but the last.\<close>

fun varint :: "nat \<Rightarrow> bytes" where
  "varint v =
     (if v div 128 > 0 then (of_nat (v mod 128) OR 0x80) # varint (v div 128) else [of_nat (v mod 128)])"

declare varint.simps [simp del]

definition encode_remaining_length :: "int \<Rightarrow> bytes result" where
  "encode_remaining_length v =
     (if v < 0 \<or> v > int MAX_REMAINING_LENGTH then
        Inl (MqttProtocolError (''remaining length out of range: '' @ show_int v))
      else Inr (varint (nat v)))"

function drl_loop :: "bytes \<Rightarrow> nat \<Rightarrow> nat \<Rightarrow> nat \<Rightarrow> nat \<Rightarrow> (nat \<times> nat) result" where
  "drl_loop data offset multiplier value consumed =
     (if offset + consumed \<ge> length data then Inl (MqttProtocolError ''truncated remaining length'')
      else
        (let b = data ! (offset + consumed);
             consumed' = consumed + 1;
             value' = value + unat (b AND 0x7F) * multiplier
         in if b AND 0x80 = 0 then Inr (value', consumed')
            else if multiplier * 128 > 128 ^ 3 then Inl (MqttProtocolError ''malformed remaining length'')
            else drl_loop data offset (multiplier * 128) value' consumed'))"
  by pat_completeness auto
termination
  by (relation "measure (\<lambda>(data, offset, _, _, consumed). length data - (offset + consumed))") auto

declare drl_loop.simps [simp del]

definition decode_remaining_length :: "bytes \<Rightarrow> nat \<Rightarrow> (nat \<times> nat) result" where
  "decode_remaining_length data offset = drl_loop data offset 1 0 0"

section \<open>UTF-8\<close>

text \<open>
  The strict decoder of Python: no overlong forms, no surrogates, nothing above U+10FFFF. A decoded
  string is its bytes again.
\<close>

definition cont :: "byte \<Rightarrow> bool" where
  "cont b \<longleftrightarrow> 0x80 \<le> b \<and> b \<le> 0xBF"

definition between :: "byte \<Rightarrow> byte \<Rightarrow> byte \<Rightarrow> bool" where
  "between lo hi b \<longleftrightarrow> lo \<le> b \<and> b \<le> hi"

fun utf8_valid :: "bytes \<Rightarrow> bool" where
  "utf8_valid [] = True"
| "utf8_valid (a # bs) =
     (if a < 0x80 then utf8_valid bs
      else if between 0xC2 0xDF a then
        (case bs of b # rest \<Rightarrow> cont b \<and> utf8_valid rest | _ \<Rightarrow> False)
      else if between 0xE0 0xEF a then
        (case bs of b # c # rest \<Rightarrow>
             cont b \<and> cont c \<and> (a = 0xE0 \<longrightarrow> b \<ge> 0xA0) \<and> (a = 0xED \<longrightarrow> b \<le> 0x9F) \<and> utf8_valid rest
         | _ \<Rightarrow> False)
      else if between 0xF0 0xF4 a then
        (case bs of b # c # d # rest \<Rightarrow>
             cont b \<and> cont c \<and> cont d \<and> (a = 0xF0 \<longrightarrow> b \<ge> 0x90) \<and> (a = 0xF4 \<longrightarrow> b \<le> 0x8F)
             \<and> utf8_valid rest
         | _ \<Rightarrow> False)
      else False)"

definition str_decode :: "bytes \<Rightarrow> string" where
  "str_decode bs = map (\<lambda>b. char_of (unat b)) bs"

text \<open>The strings a Python \<open>str\<close> can be.\<close>

definition py_text :: "string \<Rightarrow> bool" where
  "py_text s \<longleftrightarrow> utf8_valid (str_encode s)"

section \<open>Length-prefixed fields\<close>

definition encode_field :: "string \<Rightarrow> bytes \<Rightarrow> bytes result" where
  "encode_field msg raw =
     (if length raw > 0xFFFF then Inl (MqttProtocolError msg) else Inr (be16 (length raw) @ raw))"

definition encode_string :: "string \<Rightarrow> bytes result" where
  "encode_string s = encode_field ''UTF-8 string exceeds 65535 bytes'' (str_encode s)"

definition slice :: "bytes \<Rightarrow> nat \<Rightarrow> nat \<Rightarrow> bytes" where
  "slice bs i j = take (j - i) (drop i bs)"

definition read_bytes :: "bytes \<Rightarrow> nat \<Rightarrow> (bytes \<times> nat) result" where
  "read_bytes payload offset =
     (if offset + 2 > length payload then Inl (MqttProtocolError ''truncated length prefix'')
      else
        (let len = from_bytes (slice payload offset (offset + 2));
             start = offset + 2;
             stop = start + len
         in if stop > length payload then Inl (MqttProtocolError ''truncated length-prefixed field'')
            else Inr (slice payload start stop, stop)))"

definition read_string :: "bytes \<Rightarrow> nat \<Rightarrow> (string \<times> nat) result" where
  "read_string payload offset =
     (case read_bytes payload offset of
        Inl e \<Rightarrow> Inl e
      | Inr (raw, next) \<Rightarrow>
          if utf8_valid raw then Inr (str_decode raw, next)
          else Inl (MqttProtocolError ''field is not valid UTF-8''))"

section \<open>Packets\<close>

datatype packet_type =
    PT_CONNECT | PT_CONNACK | PT_PUBLISH | PT_PUBACK | PT_PUBREC | PT_PUBREL | PT_PUBCOMP
  | PT_SUBSCRIBE | PT_SUBACK | PT_UNSUBSCRIBE | PT_UNSUBACK | PT_PINGREQ | PT_PINGRESP | PT_DISCONNECT

definition packet_types :: "packet_type list" where
  "packet_types = [PT_CONNECT, PT_CONNACK, PT_PUBLISH, PT_PUBACK, PT_PUBREC, PT_PUBREL, PT_PUBCOMP,
     PT_SUBSCRIBE, PT_SUBACK, PT_UNSUBSCRIBE, PT_UNSUBACK, PT_PINGREQ, PT_PINGRESP, PT_DISCONNECT]"

fun packet_code :: "packet_type \<Rightarrow> nat" where
  "packet_code PT_CONNECT = 1" | "packet_code PT_CONNACK = 2" | "packet_code PT_PUBLISH = 3"
| "packet_code PT_PUBACK = 4" | "packet_code PT_PUBREC = 5" | "packet_code PT_PUBREL = 6"
| "packet_code PT_PUBCOMP = 7" | "packet_code PT_SUBSCRIBE = 8" | "packet_code PT_SUBACK = 9"
| "packet_code PT_UNSUBSCRIBE = 10" | "packet_code PT_UNSUBACK = 11" | "packet_code PT_PINGREQ = 12"
| "packet_code PT_PINGRESP = 13" | "packet_code PT_DISCONNECT = 14"

definition packet_type_of :: "nat \<Rightarrow> packet_type option" where
  "packet_type_of n = List.find (\<lambda>t. packet_code t = n) packet_types"

datatype connack_code =
  CA_ACCEPTED | CA_BAD_PROTOCOL | CA_IDENTIFIER_REJECTED | CA_SERVER_UNAVAILABLE
  | CA_BAD_CREDENTIALS | CA_NOT_AUTHORIZED

fun connack_value :: "connack_code \<Rightarrow> nat" where
  "connack_value CA_ACCEPTED = 0" | "connack_value CA_BAD_PROTOCOL = 1"
| "connack_value CA_IDENTIFIER_REJECTED = 2" | "connack_value CA_SERVER_UNAVAILABLE = 3"
| "connack_value CA_BAD_CREDENTIALS = 4" | "connack_value CA_NOT_AUTHORIZED = 5"

definition SUBACK_FAILURE :: nat where
  "SUBACK_FAILURE = 0x80"

record packet =
  pk_type :: packet_type
  pk_flags :: nat
  pk_payload :: bytes
  pk_raw :: bytes

definition pk_qos :: "packet \<Rightarrow> nat" where
  "pk_qos p = drop_bit 1 (pk_flags p AND 0x06)"

definition pk_dup :: "packet \<Rightarrow> bool" where
  "pk_dup p \<longleftrightarrow> pk_flags p AND 0x08 \<noteq> 0"

definition pk_retain :: "packet \<Rightarrow> bool" where
  "pk_retain p \<longleftrightarrow> pk_flags p AND 0x01 \<noteq> 0"

record connect_packet =
  cp_protocol_name :: string
  cp_protocol_level :: byte
  cp_connect_flags :: byte
  cp_keep_alive :: nat
  cp_client_id :: string
  cp_will_topic :: "string option"
  cp_will_payload :: "bytes option"
  cp_username :: "string option"
  cp_password :: "bytes option"

definition cp_clean_session :: "connect_packet \<Rightarrow> bool" where
  "cp_clean_session c \<longleftrightarrow> cp_connect_flags c AND 0x02 \<noteq> 0"

definition cp_has_username :: "connect_packet \<Rightarrow> bool" where
  "cp_has_username c \<longleftrightarrow> cp_connect_flags c AND 0x80 \<noteq> 0"

definition cp_has_password :: "connect_packet \<Rightarrow> bool" where
  "cp_has_password c \<longleftrightarrow> cp_connect_flags c AND 0x40 \<noteq> 0"

record publish_packet =
  pb_topic :: string
  pb_packet_id :: "nat option"
  pb_payload :: bytes
  pb_qos :: nat
  pb_retain :: bool
  pb_dup :: bool

record subscribe_packet =
  sb_packet_id :: nat
  sb_subscriptions :: "(string \<times> nat) list"

record unsubscribe_packet =
  ub_packet_id :: nat
  ub_topics :: "string list"

section \<open>Decoding\<close>

text \<open>A field present when its flag is set.\<close>

definition read_opt :: "bool \<Rightarrow> (bytes \<Rightarrow> nat \<Rightarrow> ('a \<times> nat) result) \<Rightarrow> bytes \<Rightarrow> nat \<Rightarrow> ('a option \<times> nat) result" where
  "read_opt present rd payload offset =
     (if present then and_then (rd payload offset) (\<lambda>(x, next). Inr (Some x, next)) else Inr (None, offset))"

definition decode_connect :: "packet \<Rightarrow> connect_packet result" where
  "decode_connect p =
     (let payload = pk_payload p in
      and_then (read_string payload 0) (\<lambda>(name, offset).
      if offset + 4 > length payload then Inl (MqttProtocolError ''truncated CONNECT variable header'')
      else
        (let level = payload ! offset;
             flags = payload ! (offset + 1);
             keep_alive = from_bytes (slice payload (offset + 2) (offset + 4))
         in and_then (read_string payload (offset + 4)) (\<lambda>(client_id, o1).
            and_then (read_opt (flags AND 0x04 \<noteq> 0) read_string payload o1) (\<lambda>(will_topic, o2).
            and_then (read_opt (flags AND 0x04 \<noteq> 0) read_bytes payload o2) (\<lambda>(will_payload, o3).
            and_then (read_opt (flags AND 0x80 \<noteq> 0) read_string payload o3) (\<lambda>(username, o4).
            and_then (read_opt (flags AND 0x40 \<noteq> 0) read_bytes payload o4) (\<lambda>(password, o5).
              Inr \<lparr>cp_protocol_name = name, cp_protocol_level = level, cp_connect_flags = flags,
                   cp_keep_alive = keep_alive, cp_client_id = client_id, cp_will_topic = will_topic,
                   cp_will_payload = will_payload, cp_username = username, cp_password = password\<rparr>))))))))"

definition decode_publish :: "packet \<Rightarrow> publish_packet result" where
  "decode_publish p =
     and_then (read_string (pk_payload p) 0) (\<lambda>(topic, offset).
       if pk_qos p > 0 then
         (if offset + 2 > length (pk_payload p) then
            Inl (MqttProtocolError ''truncated PUBLISH packet identifier'')
          else Inr \<lparr>pb_topic = topic,
                    pb_packet_id = Some (from_bytes (slice (pk_payload p) offset (offset + 2))),
                    pb_payload = drop (offset + 2) (pk_payload p), pb_qos = pk_qos p,
                    pb_retain = pk_retain p, pb_dup = pk_dup p\<rparr>)
       else Inr \<lparr>pb_topic = topic, pb_packet_id = None, pb_payload = drop offset (pk_payload p),
                 pb_qos = pk_qos p, pb_retain = pk_retain p, pb_dup = pk_dup p\<rparr>)"

lemma read_bytes_Inr:
  "read_bytes payload offset = Inr (raw, next) \<Longrightarrow>
     offset + 2 \<le> next \<and> next \<le> length payload \<and> length raw = next - (offset + 2)"
  by (auto simp: read_bytes_def slice_def Let_def split: if_splits)

lemma read_string_Inr:
  "read_string payload offset = Inr (s, next) \<Longrightarrow> offset + 2 \<le> next \<and> next \<le> length payload"
  by (auto simp: read_string_def dest: read_bytes_Inr split: sum.splits prod.splits if_splits)

function subscribe_loop :: "bytes \<Rightarrow> nat \<Rightarrow> (string \<times> nat) list result" where
  "subscribe_loop payload offset =
     (if offset \<ge> length payload then Inr []
      else
        (case read_string payload offset of
           Inl e \<Rightarrow> Inl e
         | Inr (topic, next) \<Rightarrow>
             if next \<ge> length payload then Inl (MqttProtocolError ''SUBSCRIBE entry missing requested QoS'')
             else
               (case subscribe_loop payload (next + 1) of
                  Inl e \<Rightarrow> Inl e
                | Inr rest \<Rightarrow> Inr ((topic, unat (payload ! next AND 0x03)) # rest))))"
  by pat_completeness auto
termination
  by (relation "measure (\<lambda>(payload, offset). length payload - offset)")
    (auto dest: read_string_Inr)

function unsubscribe_loop :: "bytes \<Rightarrow> nat \<Rightarrow> string list result" where
  "unsubscribe_loop payload offset =
     (if offset \<ge> length payload then Inr []
      else
        (case read_string payload offset of
           Inl e \<Rightarrow> Inl e
         | Inr (topic, next) \<Rightarrow>
             (case unsubscribe_loop payload next of
                Inl e \<Rightarrow> Inl e
              | Inr rest \<Rightarrow> Inr (topic # rest))))"
  by pat_completeness auto
termination
  by (relation "measure (\<lambda>(payload, offset). length payload - offset)")
    (auto dest: read_string_Inr)

declare subscribe_loop.simps [simp del] unsubscribe_loop.simps [simp del]

definition decode_subscribe :: "packet \<Rightarrow> subscribe_packet result" where
  "decode_subscribe p =
     (if length (pk_payload p) < 2 then Inl (MqttProtocolError ''truncated SUBSCRIBE'')
      else and_then (subscribe_loop (pk_payload p) 2) (\<lambda>subs.
        if subs = [] then Inl (MqttProtocolError ''SUBSCRIBE must carry at least one topic filter'')
        else Inr \<lparr>sb_packet_id = from_bytes (slice (pk_payload p) 0 2), sb_subscriptions = subs\<rparr>))"

definition decode_unsubscribe :: "packet \<Rightarrow> unsubscribe_packet result" where
  "decode_unsubscribe p =
     (if length (pk_payload p) < 2 then Inl (MqttProtocolError ''truncated UNSUBSCRIBE'')
      else and_then (unsubscribe_loop (pk_payload p) 2) (\<lambda>topics.
        Inr \<lparr>ub_packet_id = from_bytes (slice (pk_payload p) 0 2), ub_topics = topics\<rparr>))"

text \<open>\<open>PacketType.name\<close>\<close>

fun packet_type_name :: "packet_type \<Rightarrow> string" where
  "packet_type_name PT_CONNECT = ''CONNECT''"
| "packet_type_name PT_CONNACK = ''CONNACK''"
| "packet_type_name PT_PUBLISH = ''PUBLISH''"
| "packet_type_name PT_PUBACK = ''PUBACK''"
| "packet_type_name PT_PUBREC = ''PUBREC''"
| "packet_type_name PT_PUBREL = ''PUBREL''"
| "packet_type_name PT_PUBCOMP = ''PUBCOMP''"
| "packet_type_name PT_SUBSCRIBE = ''SUBSCRIBE''"
| "packet_type_name PT_SUBACK = ''SUBACK''"
| "packet_type_name PT_UNSUBSCRIBE = ''UNSUBSCRIBE''"
| "packet_type_name PT_UNSUBACK = ''UNSUBACK''"
| "packet_type_name PT_PINGREQ = ''PINGREQ''"
| "packet_type_name PT_PINGRESP = ''PINGRESP''"
| "packet_type_name PT_DISCONNECT = ''DISCONNECT''"

definition decode_packet_id :: "packet \<Rightarrow> nat result" where
  "decode_packet_id p =
     (if length (pk_payload p) < 2 then
        Inl (MqttProtocolError (packet_type_name (pk_type p) @ '' is missing a packet identifier''))
      else Inr (from_bytes (slice (pk_payload p) 0 2)))"

section \<open>Encoding\<close>

definition build_packet :: "packet_type \<Rightarrow> nat \<Rightarrow> bytes \<Rightarrow> bytes result" where
  "build_packet t flags payload =
     (let header = of_nat (push_bit 4 (packet_code t) OR (flags AND 0x0F))
      in and_then (encode_remaining_length (int (length payload))) (\<lambda>len. Inr (header # len @ payload)))"

definition build_connack :: "connack_code \<Rightarrow> bool \<Rightarrow> bytes result" where
  "build_connack code session_present =
     build_packet PT_CONNACK 0
       [(if session_present \<and> code = CA_ACCEPTED then 0x01 else 0x00), of_nat (connack_value code)]"

definition build_puback :: "nat \<Rightarrow> bytes result" where
  "build_puback pid = and_then (to_bytes2 pid) (build_packet PT_PUBACK 0)"

text \<open>\<open>bytes(return_codes)\<close> raises \<open>ValueError\<close> for a code over 255.\<close>

definition build_suback :: "nat \<Rightarrow> nat list \<Rightarrow> bytes result" where
  "build_suback pid codes =
     and_then (to_bytes2 pid) (\<lambda>i.
       if list_ex (\<lambda>c. c > 255) codes then Inl (PyValueError ''bytes must be in range(0, 256)'')
       else build_packet PT_SUBACK 0 (i @ map of_nat codes))"

definition build_unsuback :: "nat \<Rightarrow> bytes result" where
  "build_unsuback pid = and_then (to_bytes2 pid) (build_packet PT_UNSUBACK 0)"

definition build_pingresp :: "bytes result" where
  "build_pingresp = build_packet PT_PINGRESP 0 []"

definition build_disconnect :: "bytes result" where
  "build_disconnect = build_packet PT_DISCONNECT 0 []"

definition build_publish :: "string \<Rightarrow> bytes \<Rightarrow> nat \<Rightarrow> nat option \<Rightarrow> bool \<Rightarrow> bytes result" where
  "build_publish topic payload qos pid retain =
     (if qos > 0 \<and> pid = None then
        Inl (MqttProtocolError ''a PUBLISH with QoS > 0 requires a packet identifier'')
      else
        and_then (encode_string topic) (\<lambda>t.
        and_then (if qos > 0 then to_bytes2 (the pid) else Inr []) (\<lambda>i.
          build_packet PT_PUBLISH (push_bit 1 (qos AND 0x03) OR (if retain then 0x01 else 0x00))
            (t @ i @ payload))))"

definition connect_flags :: "string option \<Rightarrow> bytes option \<Rightarrow> bool \<Rightarrow> byte" where
  "connect_flags username password clean_session =
     (if clean_session then 0x02 else 0x00) OR (if username \<noteq> None then 0x80 else 0x00)
       OR (if password \<noteq> None then 0x40 else 0x00)"

definition build_connect ::
  "string \<Rightarrow> string option \<Rightarrow> bytes option \<Rightarrow> nat \<Rightarrow> bool \<Rightarrow> bytes result" where
  "build_connect client_id username password keep_alive clean_session =
     and_then (encode_string ''MQTT'') (\<lambda>proto.
     and_then (to_bytes2 keep_alive) (\<lambda>ka.
     and_then (encode_string client_id) (\<lambda>cid.
     and_then (case username of None \<Rightarrow> Inr [] | Some u \<Rightarrow> encode_string u) (\<lambda>un.
     and_then (case password of None \<Rightarrow> Inr [] | Some pw \<Rightarrow> encode_field ''password exceeds 65535 bytes'' pw) (\<lambda>pw.
       build_packet PT_CONNECT 0
         (proto @ [4, connect_flags username password clean_session] @ ka @ cid @ un @ pw))))))"

end
