(* ===== verification/Mqtt_Codec_Facts.thy ===== *)
theory Mqtt_Codec_Facts
  imports Mqtt_Codec
begin

text \<open>
  Facts about the codec of \<^verbatim>\<open>Mqtt_Codec\<close>: bytes, the remaining length, fields, packets.
\<close>

section \<open>Bytes\<close>

lemma unat_byte [simp]: "n < 256 \<Longrightarrow> unat (of_nat n :: byte) = n"
  by (simp add: unat_of_nat take_bit_eq_mod)

lemma unat_lt_256: "unat (b :: byte) < 256"
  by (rule order.strict_trans2 [OF unsigned_less]) simp

lemma of_nat_unat_byte [simp]: "of_nat (unat (b :: byte)) = b"
  by simp

lemma unat_low7: "unat (b AND 0x7F :: byte) = unat b mod 128"
proof -
  have "unat (b AND 0x7F) = unat b AND mask 7"
    by (simp add: unsigned_and_eq mask_eq_exp_minus_1)
  also have "\<dots> = take_bit 7 (unat b)" by (simp add: take_bit_eq_mask)
  finally show ?thesis by (simp add: take_bit_eq_mod)
qed

lemma byte_eq_0_iff: "(b = (0 :: byte)) \<longleftrightarrow> unat b = 0"
  by (simp add: unsigned_eq_0_iff)

lemma top_bit_clear: "(b AND 0x80 = (0 :: byte)) \<longleftrightarrow> unat b < 128"
proof -
  have "unat (b AND 0x80) = (unat b AND 2 ^ 7)"
    by (simp add: unsigned_and_eq)
  then have "(b AND 0x80 = (0 :: byte)) \<longleftrightarrow> (unat b AND 2 ^ 7 = 0)"
    by (simp only: byte_eq_0_iff)
  also have "\<dots> \<longleftrightarrow> \<not> bit (unat b) 7" by (rule and_exp_eq_0_iff_not_bit)
  also have "\<dots> \<longleftrightarrow> even (unat b div 128)" by (simp add: bit_iff_odd)
  also have "\<dots> \<longleftrightarrow> unat b < 128"
  proof (cases "unat b < 128")
    case False
    then have "unat b div 128 = 1" using unat_lt_256 [of b] by (simp add: div_nat_eqI)
    with False show ?thesis by simp
  qed simp
  finally show ?thesis .
qed

lemma unat_set_top: "n < 128 \<Longrightarrow> unat (of_nat n OR 0x80 :: byte) = n + 128"
proof -
  assume n: "n < 128"
  have "\<forall>m \<in> set [0..<128]. unat (of_nat m OR 0x80 :: byte) = m + 128"
    by code_simp
  with n show ?thesis by auto
qed

lemma from_be16 [simp]: "n < 65536 \<Longrightarrow> from_bytes (be16 n) = n"
proof -
  assume "n < 65536"
  then have "n div 256 < 256" by (simp add: div_less_iff_less_mult)
  then show ?thesis by (simp add: from_bytes_def be16_def)
qed

lemma length_be16 [simp]: "length (be16 n) = 2"
  by (simp add: be16_def)

lemma from_bytes_two: "from_bytes [a, b] < 65536"
  using unat_lt_256 [of a] unat_lt_256 [of b] by (simp add: from_bytes_def)

lemma be16_from: "be16 (from_bytes [a, b]) = [a, b]"
  using unat_lt_256 [of a] unat_lt_256 [of b] by (simp add: from_bytes_def be16_def)

section \<open>The remaining length\<close>

lemma varint_small: "v < 128 \<Longrightarrow> varint v = [of_nat v]"
  by (simp add: varint.simps)

lemma varint_big: "128 \<le> v \<Longrightarrow> varint v = (of_nat (v mod 128) OR 0x80) # varint (v div 128)"
  by (subst varint.simps) (simp add: div_greater_zero_iff)

lemma varint_nonempty [simp]: "varint v \<noteq> []"
  by (subst varint.simps) simp

lemma length_varint: "v < 128 ^ Suc k \<Longrightarrow> length (varint v) \<le> Suc k"
proof (induction k arbitrary: v)
  case 0
  then show ?case by (simp add: varint_small)
next
  case (Suc k)
  show ?case
  proof (cases "v < 128")
    case True
    then show ?thesis by (simp add: varint_small)
  next
    case False
    have "v div 128 < 128 ^ Suc k" using Suc.prems by (simp add: less_mult_imp_div_less mult.commute)
    with Suc.IH False show ?thesis by (simp add: varint_big)
  qed
qed

lemma drl_stop:
  "offset + consumed < length data \<Longrightarrow> unat (data ! (offset + consumed)) < 128 \<Longrightarrow>
    drl_loop data offset m v consumed = Inr (v + unat (data ! (offset + consumed)) * m, consumed + 1)"
  by (subst drl_loop.simps) (simp add: Let_def top_bit_clear unat_low7)

lemma drl_more:
  "offset + consumed < length data \<Longrightarrow> 128 \<le> unat (data ! (offset + consumed)) \<Longrightarrow> m * 128 \<le> 128 ^ 3 \<Longrightarrow>
    drl_loop data offset m v consumed =
      drl_loop data offset (m * 128) (v + (unat (data ! (offset + consumed)) mod 128) * m) (consumed + 1)"
  by (subst drl_loop.simps) (simp add: Let_def top_bit_clear unat_low7)

lemma drl_varint:
  assumes "v < 128 ^ Suc k" "m * 128 ^ k \<le> 128 ^ 3" "offset + consumed = length pre"
  shows "drl_loop (pre @ varint v @ suf) offset m acc consumed = Inr (acc + v * m, consumed + length (varint v))"
  using assms
proof (induction k arbitrary: v m pre consumed acc)
  case 0
  then show ?case
    by (subst drl_stop) (simp_all add: varint_small nth_append)
next
  case (Suc k)
  show ?case
  proof (cases "v < 128")
    case True
    with Suc.prems(3) show ?thesis
      by (subst drl_stop) (simp_all add: varint_small nth_append)
  next
    case False
    let ?b = "of_nat (v mod 128) OR 0x80 :: byte"
    have b: "unat ?b = v mod 128 + 128" by (rule unat_set_top) simp
    have data: "pre @ varint v @ suf = (pre @ [?b]) @ varint (v div 128) @ suf"
      using False by (simp add: varint_big)
    have v': "v div 128 < 128 ^ Suc k"
      using Suc.prems(1) by (simp add: less_mult_imp_div_less mult.commute)
    have m': "(m * 128) * 128 ^ k \<le> 128 ^ 3" using Suc.prems(2) by (simp add: mult.assoc)
    have "m * 128 \<le> (m * 128) * 128 ^ k" by simp
    with m' have m1: "m * 128 \<le> 128 ^ 3" by (rule order_trans [rotated])
    have nth: "(pre @ varint v @ suf) ! length pre = ?b"
      using False by (simp add: nth_append varint_big)
    have "drl_loop (pre @ varint v @ suf) offset m acc consumed
        = drl_loop (pre @ varint v @ suf) offset (m * 128) (acc + v mod 128 * m) (consumed + 1)"
      using Suc.prems(3) m1 by (subst drl_more) (simp_all only: nth b, simp_all)
    also have "\<dots> = Inr (acc + v mod 128 * m + v div 128 * (m * 128), consumed + 1 + length (varint (v div 128)))"
      unfolding data using Suc.prems(3) v' m' by (intro Suc.IH) simp_all
    also have "acc + v mod 128 * m + v div 128 * (m * 128) = acc + v * m"
    proof -
      have "v * m = (v div 128 * 128 + v mod 128) * m" by simp
      also have "\<dots> = v mod 128 * m + v div 128 * (m * 128)"
        by (simp only: add_mult_distrib add_mult_distrib2 ac_simps)
      finally show ?thesis by linarith
    qed
    finally show ?thesis using False by (simp add: varint_big)
  qed
qed

lemma encode_remaining_length_Inr:
  "encode_remaining_length (int n) = Inr bs \<longleftrightarrow> n \<le> MAX_REMAINING_LENGTH \<and> bs = varint n"
  by (auto simp: encode_remaining_length_def)

lemma max_remaining: "n \<le> MAX_REMAINING_LENGTH \<longleftrightarrow> n < 128 ^ Suc 3"
  by (auto simp: MAX_REMAINING_LENGTH_def)

lemma remaining_length_roundtrip:
  assumes "encode_remaining_length (int n) = Inr bs"
  shows "decode_remaining_length (pre @ bs @ suf) (length pre) = Inr (n, length bs)" "length bs \<le> 4"
  using assms drl_varint [of n 3 1 "length pre" 0 pre suf 0] length_varint [of n 3]
  by (simp_all add: encode_remaining_length_Inr max_remaining decode_remaining_length_def)

text \<open>Whatever is decoded is in range and took at most four bytes.\<close>

lemma drl_bound:
  assumes "drl_loop data offset m acc consumed = Inr (v, c)" "m = 128 ^ j" "j \<le> 3" "acc < m"
  shows "v < 128 ^ 4 \<and> c \<le> consumed + (4 - j) \<and> consumed < c \<and> offset + c \<le> length data"
  using assms
proof (induction "3 - j" arbitrary: j m acc consumed)
  case 0
  then have j: "j = 3" by simp
  let ?b = "data ! (offset + consumed)"
  from 0 have len: "offset + consumed < length data"
    by (subst (asm) drl_loop.simps) (auto split: if_splits)
  have b: "unat ?b < 128"
  proof (rule ccontr)
    assume "\<not> unat ?b < 128"
    with 0 j len show False
      by (subst (asm) drl_loop.simps) (auto simp: Let_def top_bit_clear split: if_splits)
  qed
  then have "unat ?b * m \<le> 127 * m" by (intro mult_right_mono) simp_all
  with 0 j len b drl_stop [OF len b, of m acc] show ?case by simp
next
  case (Suc n)
  let ?b = "data ! (offset + consumed)"
  from Suc have len: "offset + consumed < length data"
    by (subst (asm) drl_loop.simps) (auto split: if_splits)
  have j: "j \<le> 2" "n = 3 - Suc j" using Suc.hyps(2) by simp_all
  have pw: "(128 :: nat) ^ j \<le> 128 ^ 2" using j by (intro power_increasing) simp_all
  show ?case
  proof (cases "unat ?b < 128")
    case True
    then have "unat ?b * m \<le> 127 * m" by (intro mult_right_mono) simp_all
    moreover have "128 * m \<le> 128 * 128 ^ 2" using pw Suc.prems(2) by simp
    ultimately have "acc + unat ?b * m < 128 * 128 ^ 2" using Suc.prems(4) by linarith
    then have "acc + unat ?b * m < 128 ^ 4" by simp
    with Suc.prems(1) drl_stop [OF len True, of m acc] len have "v < 128 ^ 4" "c = consumed + 1" by simp_all
    with j(1) len show ?thesis by linarith
  next
    case False
    have m3: "m * 128 \<le> 128 ^ 3" using pw Suc.prems(2) by simp
    from False have F: "128 \<le> unat ?b" by simp
    have "acc + (unat ?b mod 128) * m < m * 128"
    proof -
      have "(unat ?b mod 128) * m \<le> 127 * m" by (rule mult_right_mono) simp_all
      with Suc.prems(4) show ?thesis by linarith
    qed
    with Suc.hyps(1) [OF j(2), where m = "m * 128" and consumed = "consumed + 1"
        and acc = "acc + (unat ?b mod 128) * m"] Suc.prems drl_more [OF len F m3, of acc] j(1)
    have "v < 128 ^ 4 \<and> c \<le> consumed + 1 + (4 - Suc j) \<and> consumed + 1 < c \<and> offset + c \<le> length data"
      by simp
    with j(1) show ?thesis by linarith
  qed
qed

lemma decode_remaining_length_bound:
  "decode_remaining_length data offset = Inr (v, c) \<Longrightarrow>
     v \<le> MAX_REMAINING_LENGTH \<and> 1 \<le> c \<and> c \<le> 4 \<and> offset + c \<le> length data"
  using drl_bound [of data offset 1 0 0 v c 0]
  by (auto simp: decode_remaining_length_def max_remaining)

section \<open>Fields\<close>

lemma length_str_encode [simp]: "length (str_encode s) = length s"
  by (simp add: str_encode_def)

lemma unat_of_char: "unat (of_char c :: byte) = of_char c"
proof -
  have "(of_char c :: byte) = of_nat (of_char c)" by (rule of_nat_of_char [symmetric])
  then show ?thesis by (simp only: unat_byte nat_of_char_less_256)
qed

lemma of_char_of_unat: "of_char (char_of (unat (b :: byte))) = b"
proof -
  have "(of_char (char_of (unat b)) :: byte) = of_nat (of_char (char_of (unat b)))" by (rule of_nat_of_char [symmetric])
  then show ?thesis using unat_lt_256 [of b] by simp
qed

lemma str_decode_encode [simp]: "str_decode (str_encode s) = s"
  by (simp add: str_decode_def str_encode_def comp_def unat_of_char)

lemma str_encode_decode [simp]: "str_encode (str_decode bs) = bs"
  by (simp add: str_decode_def str_encode_def comp_def of_char_of_unat)

lemma slice_at: "slice (pre @ xs @ suf) (length pre) (length pre + length xs) = xs"
  by (simp add: slice_def)

lemma read_bytes_at:
  assumes "payload = pre @ be16 (length raw) @ raw @ suf" "offset = length pre" "length raw \<le> 65535"
  shows "read_bytes payload offset = Inr (raw, offset + 2 + length raw)"
proof -
  have "slice payload offset (offset + 2) = be16 (length raw)"
    using slice_at [of pre "be16 (length raw)" "raw @ suf"] assms(1,2) by simp
  moreover have "slice payload (offset + 2) (offset + 2 + length raw) = raw"
    using slice_at [of "pre @ be16 (length raw)" raw suf] assms(1,2) by simp
  ultimately show ?thesis using assms by (simp add: read_bytes_def Let_def)
qed

lemma read_string_at:
  assumes "payload = pre @ be16 (length s) @ str_encode s @ suf" "offset = length pre" "length s \<le> 65535" "py_text s"
  shows "read_string payload offset = Inr (s, offset + 2 + length s)"
  using read_bytes_at [of payload pre "str_encode s" suf offset] assms
  by (simp add: read_string_def py_text_def)

lemma encode_string_Inr: "encode_string s = Inr bs \<longleftrightarrow> length s \<le> 65535 \<and> bs = be16 (length s) @ str_encode s"
  by (auto simp: encode_string_def encode_field_def)

lemma encode_field_Inr: "encode_field m raw = Inr bs \<longleftrightarrow> length raw \<le> 65535 \<and> bs = be16 (length raw) @ raw"
  by (auto simp: encode_field_def)

lemma to_bytes2_Inr: "to_bytes2 n = Inr bs \<longleftrightarrow> n < 65536 \<and> bs = be16 n"
  by (auto simp: to_bytes2_def)

text \<open>What is read is in the payload: a decoded string is valid text.\<close>

lemma read_string_text: "read_string payload offset = Inr (s, next) \<Longrightarrow> py_text s \<and> length s \<le> 65535"
proof -
  assume a: "read_string payload offset = Inr (s, next)"
  then obtain raw where r: "read_bytes payload offset = Inr (raw, next)" "utf8_valid raw" "s = str_decode raw"
    by (auto simp: read_string_def split: sum.splits prod.splits if_splits)
  have "length raw \<le> 65535"
  proof -
    let ?h = "slice payload offset (offset + 2)"
    have "offset + 2 \<le> length payload" using r(1) by (auto simp: read_bytes_def split: if_splits)
    then have "length ?h = 2" by (simp add: slice_def)
    then obtain x y where h: "?h = [x, y]" by (auto simp: length_Suc_conv numeral_2_eq_2)
    have "length raw \<le> from_bytes ?h"
      using r(1) by (auto simp: read_bytes_def Let_def slice_def split: if_splits)
    with from_bytes_two [of x y] show ?thesis unfolding h by simp
  qed
  moreover have "length s = length raw" by (simp add: r(3) str_decode_def)
  ultimately show ?thesis using r(2,3) by (simp add: py_text_def)
qed

end
