(* ===== verification/Mqtt_Stream.thy ===== *)
theory Mqtt_Stream
  imports Mqtt_Codec_Facts
begin

unbundle bit_operations_syntax

text \<open>
  Framing packets off a byte stream and counting what is written
  (\<^verbatim>\<open>src/ca_ztcf/enforcement/mqtt_stream.py\<close>). The stream is the list of the bytes the peer still
  delivers before it closes; a reader is that list and the two counters of \<open>PacketReader\<close>.

  Shown: reading conserves the stream, bytes and counters included; whatever the codec builds is read
  back as the packet it was built as, whatever follows it; the inline loop over the remaining length
  agrees with the codec's decoder; built CONNECT, PUBLISH and SUBSCRIBE packets decode to their fields.
\<close>

section \<open>Reading\<close>

record packet_reader =
  rd_input :: bytes
  rd_bytes_read :: nat
  rd_packets_read :: nat

definition new_reader :: "bytes \<Rightarrow> packet_reader" where
  "new_reader input = \<lparr>rd_input = input, rd_bytes_read = 0, rd_packets_read = 0\<rparr>"

text \<open>
  The loop \<open>for _ in range(4)\<close>: the tries left, the multiplier, the sum so far, the stream. It gives the
  length with the bytes it took, and the rest of the stream also where it raises.
\<close>

fun read_length :: "nat \<Rightarrow> nat \<Rightarrow> nat \<Rightarrow> bytes \<Rightarrow> (nat \<times> bytes) result \<times> bytes" where
  "read_length 0 m remaining input = (Inl (MqttProtocolError ''malformed remaining length''), input)"
| "read_length (Suc n) m remaining [] =
     (Inl (MqttProtocolError ''stream ended inside the remaining length''), [])"
| "read_length (Suc n) m remaining (b # input) =
     (let remaining' = remaining + unat (b AND 0x7F) * m
      in if b AND 0x80 = 0 then (Inr (remaining', [b]), input)
         else (case read_length n (m * 128) remaining' input of
                 (Inl e, rest) \<Rightarrow> (Inl e, rest)
               | (Inr (v, raw), rest) \<Rightarrow> (Inr (v, b # raw), rest)))"

definition read_packet :: "packet_reader \<Rightarrow> packet option result \<times> packet_reader" where
  "read_packet r =
     (case rd_input r of
        [] \<Rightarrow> (Inr None, r)
      | header # input \<Rightarrow>
          (case read_length 4 1 0 input of
             (Inl e, rest) \<Rightarrow> (Inl e, r\<lparr>rd_input := rest\<rparr>)
           | (Inr (remaining, len), rest) \<Rightarrow>
               if remaining > MAX_REMAINING_LENGTH then
                 (Inl (MqttProtocolError (''remaining length too large: '' @ show_nat remaining)), r\<lparr>rd_input := rest\<rparr>)
               else if remaining > length rest then (Inl IncompleteReadError, r\<lparr>rd_input := []\<rparr>)
               else
                 (let body = take remaining rest;
                      raw = header # len @ body;
                      code = drop_bit 4 (unat header)
                  in case packet_type_of code of
                       None \<Rightarrow> (Inl (MqttProtocolError (''unknown packet type '' @ show_nat code)),
                                r\<lparr>rd_input := drop remaining rest\<rparr>)
                     | Some t \<Rightarrow>
                         (Inr (Some \<lparr>pk_type = t, pk_flags = unat (header AND 0x0F), pk_payload = body, pk_raw = raw\<rparr>),
                          r\<lparr>rd_input := drop remaining rest,
                            rd_bytes_read := rd_bytes_read r + length raw,
                            rd_packets_read := rd_packets_read r + 1\<rparr>))))"

section \<open>Writing\<close>

text \<open>What was written, packet by packet, and the counters of \<open>CountingWriter\<close>.\<close>

record counting_writer =
  cw_sent :: "bytes list"
  cw_bytes_written :: nat
  cw_packets_written :: nat

definition new_writer :: counting_writer where
  "new_writer = \<lparr>cw_sent = [], cw_bytes_written = 0, cw_packets_written = 0\<rparr>"

definition cw_write :: "counting_writer \<Rightarrow> bytes \<Rightarrow> counting_writer" where
  "cw_write w data =
     w\<lparr>cw_sent := cw_sent w @ [data], cw_bytes_written := cw_bytes_written w + length data,
       cw_packets_written := cw_packets_written w + 1\<rparr>"

definition writer_ok :: "counting_writer \<Rightarrow> bool" where
  "writer_ok w \<longleftrightarrow> cw_bytes_written w = length (concat (cw_sent w)) \<and> cw_packets_written w = length (cw_sent w)"

lemma writer_ok_new [simp]: "writer_ok new_writer"
  by (simp add: writer_ok_def new_writer_def)

lemma writer_ok_write [simp]: "writer_ok w \<Longrightarrow> writer_ok (cw_write w data)"
  by (simp add: writer_ok_def cw_write_def)

lemma cw_sent_write [simp]: "cw_sent (cw_write w data) = cw_sent w @ [data]"
  by (simp add: cw_write_def)

lemma cw_sent_new [simp]: "cw_sent new_writer = []"
  by (simp add: new_writer_def)

section \<open>Reading conserves the stream\<close>

lemma read_length_split:
  "read_length n m v input = (Inr (remaining, len), rest) \<Longrightarrow> input = len @ rest \<and> len \<noteq> [] \<and> length len \<le> n"
proof (induction n m v input arbitrary: remaining len rest rule: read_length.induct)
  case (3 n m v b input)
  then show ?case by (auto simp: Let_def split: if_splits prod.splits sum.splits)
qed simp_all

lemma read_length_shorter: "length (snd (read_length n m v input)) \<le> length input"
proof (induction n m v input rule: read_length.induct)
  case (3 n m v b input)
  then show ?case by (fastforce simp: Let_def split: prod.splits sum.splits)
qed simp_all

lemma read_packet_SomeD:
  assumes "read_packet r = (Inr (Some p), r')"
  shows "rd_input r = pk_raw p @ rd_input r'"
    and "rd_bytes_read r' = rd_bytes_read r + length (pk_raw p)"
    and "rd_packets_read r' = rd_packets_read r + 1"
    and "pk_raw p \<noteq> []"
    and "\<exists>h len. pk_raw p = h # len @ pk_payload p"
  using assms
  by (auto simp: read_packet_def Let_def split: list.splits prod.splits sum.splits if_splits option.splits
      dest!: read_length_split)

lemma read_packet_NoneD: "read_packet r = (Inr None, r') \<Longrightarrow> r' = r \<and> rd_input r = []"
  by (auto simp: read_packet_def Let_def split: list.splits prod.splits sum.splits if_splits option.splits)

lemma read_packet_shorter: "read_packet r = (Inr (Some p), r') \<Longrightarrow> length (rd_input r') < length (rd_input r)"
  using read_packet_SomeD(1,4) [of r p r'] by simp

lemma read_packet_error_counts:
  "read_packet r = (Inl e, r') \<Longrightarrow> rd_bytes_read r' = rd_bytes_read r \<and> rd_packets_read r' = rd_packets_read r"
  by (auto simp: read_packet_def Let_def split: list.splits prod.splits sum.splits if_splits option.splits)

section \<open>Reading back what was built\<close>

lemma header_byte:
  "unat (of_nat (push_bit 4 (packet_code t) OR (flags AND 0x0F)) :: byte) = 16 * packet_code t + flags mod 16"
proof -
  have "push_bit 4 n OR f mod 16 = 16 * n + f mod 16" for n f :: nat
  proof -
    have "f mod 16 = take_bit 4 f" by (simp add: take_bit_eq_mod)
    moreover have "push_bit 4 n AND take_bit 4 f = 0" by (rule bit_eqI) (auto simp: bit_simps)
    ultimately show ?thesis by (simp add: disjunctive_add_eq_or [symmetric] push_bit_eq_mult)
  qed
  moreover have "packet_code t < 16" by (cases t) simp_all
  moreover have "flags AND 0x0F = flags mod 16"
    using take_bit_eq_mask [of 4 flags] by (simp add: take_bit_eq_mod mask_eq_exp_minus_1)
  ultimately have eq: "push_bit 4 (packet_code t) OR (flags AND 0x0F) = 16 * packet_code t + flags mod 16"
    by simp
  have "16 * packet_code t + flags mod 16 < 256"
    using \<open>packet_code t < 16\<close> mod_less_divisor [of 16 flags] by linarith
  then show ?thesis unfolding eq by (rule unat_byte)
qed

lemma packet_type_of_code [simp]: "packet_type_of (packet_code t) = Some t"
  by (cases t) (simp_all add: packet_type_of_def packet_types_def)

lemma build_packet_Inr:
  "build_packet t flags payload = Inr raw \<longleftrightarrow> length payload \<le> MAX_REMAINING_LENGTH
     \<and> raw = of_nat (push_bit 4 (packet_code t) OR (flags AND 0x0F)) # varint (length payload) @ payload"
  by (auto simp: build_packet_def and_then_Inr_iff encode_remaining_length_Inr Let_def)

lemma read_length_varint:
  "v < 128 ^ Suc k \<Longrightarrow> read_length (Suc k) m acc (varint v @ rest) = (Inr (acc + v * m, varint v), rest)"
proof (induction k arbitrary: v m acc)
  case 0
  then show ?case by (simp add: varint_small Let_def top_bit_clear unat_low7)
next
  case (Suc k)
  show ?case
  proof (cases "v < 128")
    case True
    then show ?thesis by (simp add: varint_small Let_def top_bit_clear unat_low7)
  next
    case False
    let ?b = "of_nat (v mod 128) OR 0x80 :: byte"
    have b: "unat ?b = v mod 128 + 128" by (rule unat_set_top) simp
    have "v div 128 < 128 ^ Suc k"
      using Suc.prems by (simp add: less_mult_imp_div_less mult.commute)
    note Suc.IH [OF this, of "m * 128" "acc + v mod 128 * m"]
    moreover have "acc + v mod 128 * m + v div 128 * (m * 128) = acc + v * m"
      by (simp add: algebra_simps flip: add_mult_distrib2)
    ultimately show ?thesis
      using False b by (simp add: varint_big Let_def top_bit_clear unat_low7 del: read_length.simps(3) add: read_length.simps(3) [of "Suc k"])
  qed
qed

lemma read_packet_build:
  assumes "build_packet t flags payload = Inr raw" "rd_input r = raw @ rest"
  shows "read_packet r =
    (Inr (Some \<lparr>pk_type = t, pk_flags = flags mod 16, pk_payload = payload, pk_raw = raw\<rparr>),
     r\<lparr>rd_input := rest, rd_bytes_read := rd_bytes_read r + length raw, rd_packets_read := rd_packets_read r + 1\<rparr>)"
proof -
  let ?h = "of_nat (push_bit 4 (packet_code t) OR (flags AND 0x0F)) :: byte"
  have raw: "length payload \<le> MAX_REMAINING_LENGTH" "raw = ?h # varint (length payload) @ payload"
    using assms(1) by (simp_all only: build_packet_Inr)
  have len: "read_length 4 1 0 (varint (length payload) @ payload @ rest) = (Inr (length payload, varint (length payload)), payload @ rest)"
    using read_length_varint [of "length payload" 3 1 0 "payload @ rest"] raw(1) [unfolded max_remaining]
    by (simp del: read_length.simps)
  have h: "unat ?h = 16 * packet_code t + flags mod 16" by (rule header_byte)
  have code: "drop_bit 4 (unat ?h) = packet_code t" unfolding h by (simp add: drop_bit_eq_div)
  have flags: "unat (?h AND 0x0F) = flags mod 16"
  proof -
    have "unat (?h AND 0x0F) = unat ?h AND mask 4" by (simp add: unsigned_and_eq mask_eq_exp_minus_1)
    also have "\<dots> = take_bit 4 (unat ?h)" by (simp add: take_bit_eq_mask)
    finally show ?thesis unfolding h by (simp add: take_bit_eq_mod)
  qed
  have "rd_input r = ?h # varint (length payload) @ payload @ rest" using raw(2) assms(2) by simp
  then show ?thesis
    unfolding read_packet_def using raw(1) code flags
    by (simp add: len raw(2) Let_def del: One_nat_def)
qed

section \<open>The two decoders of the remaining length\<close>

lemma read_length_is_drl_loop:
  "j < 4 \<Longrightarrow> m = 128 ^ j \<Longrightarrow>
    (case drl_loop data offset m v c of
       Inl e \<Rightarrow> \<exists>e' rest. read_length (4 - j) m v (drop (offset + c) data) = (Inl e', rest)
     | Inr (x, c') \<Rightarrow> c < c' \<and> read_length (4 - j) m v (drop (offset + c) data)
         = (Inr (x, slice data (offset + c) (offset + c')), drop (offset + c') data))"
proof (induction "3 - j" arbitrary: j m v c)
  case 0
  then have j: "j = 3" "4 - j = Suc 0" by simp_all
  show ?case
  proof (cases "offset + c < length data")
    case False
    then show ?thesis using j by (subst drl_loop.simps) simp
  next
    case True
    let ?b = "data ! (offset + c)"
    have d: "drop (offset + c) data = ?b # drop (offset + (c + 1)) data"
      using Cons_nth_drop_Suc [OF True] by simp
    show ?thesis
      using True 0 j by (subst drl_loop.simps) (simp add: d Let_def slice_def take_Suc_conv_app_nth split: prod.split)
  qed
next
  case (Suc n)
  then have j: "n = 3 - Suc j" "Suc j < 4" "4 - j = Suc (4 - Suc j)" by simp_all
  show ?case
  proof (cases "offset + c < length data")
    case False
    then show ?thesis using j(3) by (subst drl_loop.simps) simp
  next
    case True
    let ?b = "data ! (offset + c)"
    have d: "drop (offset + c) data = ?b # drop (offset + (c + 1)) data"
      using Cons_nth_drop_Suc [OF True] by simp
    have s: "slice data (offset + c) (offset + c') = ?b # slice data (offset + (c + 1)) (offset + c')" if "c < c'" for c'
      using that d by (auto simp: slice_def less_iff_Suc_add)
    have pw: "m * 128 \<le> 128 ^ 3"
    proof -
      have "(128 :: nat) ^ Suc j \<le> 128 ^ 3" using j(2) by (intro power_increasing) simp_all
      then show ?thesis using Suc.prems(2) by simp
    qed
    show ?thesis
    proof (cases "?b AND 0x80 = 0")
      case b: True
      then show ?thesis using True j(3)
        by (subst drl_loop.simps) (simp add: d Let_def s slice_def)
    next
      case b: False
      let ?v = "v + unat (?b AND 0x7F) * m"
      have step: "drl_loop data offset m v c = drl_loop data offset (m * 128) ?v (c + 1)"
        using True b pw by (subst drl_loop.simps) (simp add: Let_def)
      have IH: "case drl_loop data offset (m * 128) ?v (c + 1) of
          Inl e \<Rightarrow> \<exists>e' rest. read_length (4 - Suc j) (m * 128) ?v (drop (offset + (c + 1)) data) = (Inl e', rest)
        | Inr (x, c') \<Rightarrow> c + 1 < c' \<and> read_length (4 - Suc j) (m * 128) ?v (drop (offset + (c + 1)) data)
            = (Inr (x, slice data (offset + (c + 1)) (offset + c')), drop (offset + c') data)"
        using Suc.hyps(1) [OF j(1,2), of "m * 128" ?v "c + 1"] Suc.prems(2) by simp
      then show ?thesis
        unfolding step d j(3) using b
        by (auto simp: Let_def s split: sum.splits prod.splits)
    qed
  qed
qed

lemma read_length_is_decode:
  "(case decode_remaining_length input 0 of
      Inl _ \<Rightarrow> \<exists>e rest. read_length 4 1 0 input = (Inl e, rest)
    | Inr (v, c) \<Rightarrow> read_length 4 1 0 input = (Inr (v, take c input), drop c input))"
  using read_length_is_drl_loop [where j = 0 and m = 1 and data = input and offset = 0 and v = 0 and c = 0]
  by (auto simp: decode_remaining_length_def slice_def split: sum.splits prod.splits)

section \<open>Built packets decode to their fields\<close>

lemma py_text_MQTT: "py_text ''MQTT''"
  by code_simp

lemma connect_flag_bits:
  "connect_flags un pw cs AND 0x04 = 0" "connect_flags un pw cs AND 0x80 = 0 \<longleftrightarrow> un = None"
  "connect_flags un pw cs AND 0x40 = 0 \<longleftrightarrow> pw = None" "connect_flags un pw cs AND 0x02 = 0 \<longleftrightarrow> \<not> cs"
  by (cases un; cases pw; simp add: connect_flags_def)+

definition opt_field :: "bytes option \<Rightarrow> bytes" where
  "opt_field x = (case x of None \<Rightarrow> [] | Some raw \<Rightarrow> be16 (length raw) @ raw)"

lemma read_opt_bytes_at:
  assumes "payload = pre @ opt_field x @ suf" "offset = length pre" "\<forall>raw. x = Some raw \<longrightarrow> length raw \<le> 65535"
    and "present \<longleftrightarrow> x \<noteq> None"
  shows "read_opt present read_bytes payload offset = Inr (x, offset + length (opt_field x))"
proof (cases x)
  case (Some raw)
  with assms read_bytes_at [of payload pre raw suf offset] show ?thesis
    by (simp add: read_opt_def opt_field_def and_then_def)
qed (use assms in \<open>simp add: read_opt_def opt_field_def\<close>)

lemma read_opt_string_at:
  assumes "payload = pre @ opt_field (map_option str_encode x) @ suf" "offset = length pre"
    and "\<forall>s. x = Some s \<longrightarrow> length s \<le> 65535 \<and> py_text s" and "present \<longleftrightarrow> x \<noteq> None"
  shows "read_opt present read_string payload offset = Inr (x, offset + length (opt_field (map_option str_encode x)))"
proof (cases x)
  case (Some s)
  with assms read_string_at [of payload pre s suf offset] show ?thesis
    by (simp add: read_opt_def opt_field_def and_then_def)
qed (use assms in \<open>simp add: read_opt_def opt_field_def\<close>)

lemma be16_MQTT: "be16 (Suc (Suc (Suc (Suc 0)))) = be16 4"
  by (rule arg_cong [of _ _ be16]) simp

lemma build_connect_Inr:
  assumes "build_connect cid un pw ka cs = Inr raw"
  shows "build_packet PT_CONNECT 0 (be16 4 @ str_encode ''MQTT'' @ [4, connect_flags un pw cs] @ be16 ka
      @ be16 (length cid) @ str_encode cid @ opt_field (map_option str_encode un) @ opt_field pw) = Inr raw"
    and "ka < 65536" "length cid \<le> 65535" "\<forall>u. un = Some u \<longrightarrow> length u \<le> 65535" "\<forall>w. pw = Some w \<longrightarrow> length w \<le> 65535"
  using assms
  by (auto simp: build_connect_def and_then_Inr_iff encode_string_Inr encode_field_Inr to_bytes2_Inr opt_field_def
      be16_MQTT split: option.splits)

lemma decode_connect_build:
  assumes "build_connect cid un pw ka cs = Inr raw" "py_text cid" "\<forall>u. un = Some u \<longrightarrow> py_text u"
    and "pk_payload p = be16 4 @ str_encode ''MQTT'' @ [4, connect_flags un pw cs] @ be16 ka
      @ be16 (length cid) @ str_encode cid @ opt_field (map_option str_encode un) @ opt_field pw"
  shows "decode_connect p = Inr \<lparr>cp_protocol_name = ''MQTT'', cp_protocol_level = 4,
     cp_connect_flags = connect_flags un pw cs, cp_keep_alive = ka, cp_client_id = cid,
     cp_will_topic = None, cp_will_payload = None, cp_username = un, cp_password = pw\<rparr>"
proof -
  note b = build_connect_Inr [OF assms(1)]
  let ?P = "pk_payload p" and ?f = "connect_flags un pw cs"
  let ?u = "opt_field (map_option str_encode un)"
  let ?h = "be16 4 @ str_encode ''MQTT''"
  let ?h2 = "?h @ [4, ?f] @ be16 ka"
  let ?h3 = "?h2 @ be16 (length cid) @ str_encode cid"
  have name: "read_string ?P 0 = Inr (''MQTT'', 6)"
    using read_string_at [of ?P "[]" "''MQTT''" _ 0, OF _ _ _ py_text_MQTT] assms(4) by (simp add: be16_MQTT)
  have len: "10 \<le> length ?P" by (simp add: assms(4))
  have bytes: "?P ! 6 = 4" "?P ! 7 = ?f" by (simp_all add: assms(4) nth_append)
  have ka: "slice ?P 8 10 = be16 ka"
    using slice_at [of "?h @ [4, ?f]" "be16 ka" "drop 10 ?P"] by (simp add: assms(4))
  have cid: "read_string ?P 10 = Inr (cid, 12 + length cid)"
    using read_string_at [of ?P ?h2 cid "?u @ opt_field pw" 10] b(3) assms(2) by (simp add: assms(4))
  have un: "read_opt (?f AND 0x80 \<noteq> 0) read_string ?P (12 + length cid) = Inr (un, 12 + length cid + length ?u)"
    using read_opt_string_at [of ?P ?h3 un "opt_field pw" "12 + length cid"] b(4) assms(3)
    by (simp add: assms(4) connect_flag_bits)
  have pw: "read_opt (?f AND 0x40 \<noteq> 0) read_bytes ?P (12 + length cid + length ?u)
      = Inr (pw, 12 + length cid + length ?u + length (opt_field pw))"
    using read_opt_bytes_at [of ?P "?h3 @ ?u" pw "[]" "12 + length cid + length ?u"] b(5)
    by (simp add: assms(4) connect_flag_bits)
  have no_will: "read_opt (?f AND 0x04 \<noteq> 0) rd ?P n = Inr (None, n)" for rd :: "bytes \<Rightarrow> nat \<Rightarrow> ('x \<times> nat) result" and n
    by (simp add: read_opt_def connect_flag_bits)
  show ?thesis
    using len b(2) by (simp add: decode_connect_def Let_def and_then_def name bytes ka cid un pw no_will)
qed

lemma publish_flag_bits:
  assumes "q < 4"
  shows "pk_qos \<lparr>pk_type = t, pk_flags = (push_bit 1 (q AND 0x03) OR (if rt then 0x01 else 0x00)) mod 16,
       pk_payload = pl, pk_raw = rw\<rparr> = q"
    and "pk_retain \<lparr>pk_type = t, pk_flags = (push_bit 1 (q AND 0x03) OR (if rt then 0x01 else 0x00)) mod 16,
       pk_payload = pl, pk_raw = rw\<rparr> = rt"
    and "\<not> pk_dup \<lparr>pk_type = t, pk_flags = (push_bit 1 (q AND 0x03) OR (if rt then 0x01 else 0x00)) mod 16,
       pk_payload = pl, pk_raw = rw\<rparr>"
proof -
  have q: "q = 0 \<or> q = 1 \<or> q = 2 \<or> q = 3" using assms by auto
  have bits: "\<forall>x \<in> set [0, 1, 2, 3 :: nat]. \<forall>y \<in> set [0, 1 :: nat]. let f = (push_bit 1 (x AND 0x03) OR y) mod 16
    in drop_bit 1 (f AND 0x06) = x \<and> f AND 0x01 = y \<and> f AND 0x08 = 0"
    by code_simp
  have "let f = (push_bit 1 (q AND 0x03) OR (if rt then 1 else 0)) mod 16
    in drop_bit 1 (f AND 0x06) = q \<and> f AND 0x01 = (if rt then 1 else 0) \<and> f AND 0x08 = 0"
    using bits q by (cases rt) auto
  then show "pk_qos \<lparr>pk_type = t, pk_flags = (push_bit 1 (q AND 0x03) OR (if rt then 0x01 else 0x00)) mod 16,
       pk_payload = pl, pk_raw = rw\<rparr> = q"
    "pk_retain \<lparr>pk_type = t, pk_flags = (push_bit 1 (q AND 0x03) OR (if rt then 0x01 else 0x00)) mod 16,
       pk_payload = pl, pk_raw = rw\<rparr> = rt"
    "\<not> pk_dup \<lparr>pk_type = t, pk_flags = (push_bit 1 (q AND 0x03) OR (if rt then 0x01 else 0x00)) mod 16,
       pk_payload = pl, pk_raw = rw\<rparr>"
    by (simp_all add: pk_qos_def pk_retain_def pk_dup_def Let_def split: if_splits)
qed

lemma build_publish_Inr:
  assumes "build_publish topic payload q pid rt = Inr raw"
  shows "length topic \<le> 65535" "q > 0 \<longrightarrow> (\<exists>i. pid = Some i \<and> i < 65536)"
    and "build_packet PT_PUBLISH (push_bit 1 (q AND 0x03) OR (if rt then 0x01 else 0x00))
      (be16 (length topic) @ str_encode topic @ (if q > 0 then be16 (the pid) else []) @ payload) = Inr raw"
  using assms
  by (auto simp: build_publish_def and_then_Inr_iff encode_string_Inr to_bytes2_Inr split: if_splits)

lemma decode_publish_build:
  assumes "build_publish topic payload q pid rt = Inr raw" "q < 4" "py_text topic"
    and "pk_payload p = be16 (length topic) @ str_encode topic @ (if q > 0 then be16 (the pid) else []) @ payload"
    and "pk_qos p = q" "pk_retain p = rt" "\<not> pk_dup p"
  shows "decode_publish p = Inr \<lparr>pb_topic = topic, pb_packet_id = (if q > 0 then pid else None),
     pb_payload = payload, pb_qos = q, pb_retain = rt, pb_dup = False\<rparr>"
proof -
  note b = build_publish_Inr [OF assms(1)]
  let ?P = "pk_payload p" and ?o = "2 + length topic"
  have t: "read_string ?P 0 = Inr (topic, ?o)"
    using read_string_at [of ?P "[]" topic "(if q > 0 then be16 (the pid) else []) @ payload" 0] b(1) assms(3,4) by simp
  show ?thesis
  proof (cases "q > 0")
    case True
    then obtain i where i: "pid = Some i" "i < 65536" using b(2) by auto
    have "slice ?P ?o (?o + 2) = be16 i"
      using slice_at [of "be16 (length topic) @ str_encode topic" "be16 i" payload] True i assms(4) by simp
    moreover have "drop (?o + 2) ?P = payload" using True by (simp add: assms(4))
    moreover have "?o + 2 \<le> length ?P" using True by (simp add: assms(4))
    ultimately show ?thesis
      unfolding decode_publish_def and_then_def t using True i assms(5-7) by simp
  next
    case False
    then have "drop ?o ?P = payload" by (simp add: assms(4))
    then show ?thesis
      unfolding decode_publish_def and_then_def t using False assms(5-7) by simp
  qed
qed

definition subscribe_body :: "(string \<times> nat) list \<Rightarrow> bytes" where
  "subscribe_body subs = concat (map (\<lambda>(f, q). be16 (length f) @ str_encode f @ [of_nat q]) subs)"

lemma subscribe_loop_body:
  assumes "\<forall>(f, q) \<in> set subs. py_text f \<and> length f \<le> 65535 \<and> q < 4"
  shows "subscribe_loop (pre @ subscribe_body subs) (length pre) = Inr subs"
  using assms
proof (induction subs arbitrary: pre)
  case Nil
  then show ?case by (simp add: subscribe_body_def subscribe_loop.simps)
next
  case (Cons fq subs)
  obtain f q where fq: "fq = (f, q)" by fastforce
  let ?x = "be16 (length f) @ str_encode f @ [of_nat q]"
  let ?P = "pre @ subscribe_body (fq # subs)"
  have P: "?P = (pre @ ?x) @ subscribe_body subs" by (simp add: subscribe_body_def fq)
  have f: "py_text f" "length f \<le> 65535" "q < 4" using Cons.prems fq by auto
  have rd: "read_string ?P (length pre) = Inr (f, length pre + 2 + length f)"
    using f by (intro read_string_at [where suf = "of_nat q # subscribe_body subs"]) (simp_all add: P)
  have q: "unat (?P ! (length pre + 2 + length f) AND 0x03) = q"
  proof -
    have "?P ! (length pre + 2 + length f) = of_nat q" by (simp add: P nth_append)
    moreover have "\<forall>n \<in> set [0, 1, 2, 3 :: nat]. unat (of_nat n AND 0x03 :: byte) = n" by simp
    moreover have "q = 0 \<or> q = 1 \<or> q = 2 \<or> q = 3" using f(3) by auto
    ultimately show ?thesis by auto
  qed
  have "subscribe_loop ?P (length pre + 2 + length f + 1) = Inr subs"
    using Cons.IH [of "pre @ ?x"] Cons.prems unfolding P by (simp add: add.assoc)
  with rd q show ?case
    unfolding fq by (subst subscribe_loop.simps) (simp add: subscribe_body_def)
qed

lemma decode_subscribe_body:
  assumes "\<forall>(f, q) \<in> set subs. py_text f \<and> length f \<le> 65535 \<and> q < 4" "subs \<noteq> []" "i < 65536"
    and "pk_payload p = be16 i @ subscribe_body subs"
  shows "decode_subscribe p = Inr \<lparr>sb_packet_id = i, sb_subscriptions = subs\<rparr>"
proof -
  have "subscribe_loop (pk_payload p) 2 = Inr subs"
    using subscribe_loop_body [OF assms(1), of "be16 i"] by (simp add: assms(4))
  moreover have "slice (pk_payload p) 0 2 = be16 i"
    by (simp add: slice_def assms(4))
  ultimately show ?thesis
    using assms(2-4) by (simp add: decode_subscribe_def and_then_def)
qed

text \<open>What the subscription loop returns is text with a quality of service below four.\<close>

lemma subscribe_loop_valid:
  "subscribe_loop payload offset = Inr subs \<Longrightarrow> \<forall>(f, q) \<in> set subs. py_text f \<and> length f \<le> 65535 \<and> q < 4"
proof (induction payload offset arbitrary: subs rule: subscribe_loop.induct)
  case (1 payload offset)
  have q: "unat (b AND 0x03) < 4" for b :: byte
  proof -
    have "unat (b AND 0x03) = unat b AND mask 2" by (simp add: unsigned_and_eq mask_eq_exp_minus_1)
    also have "\<dots> = unat b mod 4" by (simp only: flip: take_bit_eq_mask) (simp add: take_bit_eq_mod)
    finally show ?thesis by simp
  qed
  show ?case
  proof (cases "length payload \<le> offset")
    case True
    with "1.prems" show ?thesis by (subst (asm) subscribe_loop.simps) simp
  next
    case False
    with "1.prems" obtain f n rest where r: "read_string payload offset = Inr (f, n)" "\<not> length payload \<le> n"
      "subscribe_loop payload (n + 1) = Inr rest" "subs = (f, unat (payload ! n AND 0x03)) # rest"
      by (subst (asm) subscribe_loop.simps) (auto split: sum.splits prod.splits if_splits)
    have "\<forall>(f, q) \<in> set rest. py_text f \<and> length f \<le> 65535 \<and> q < 4"
      using "1.IH" [OF False r(1) refl r(2,3)] .
    with read_string_text [OF r(1)] q show ?thesis by (simp add: r(4))
  qed
qed

end
