(* ===== verification/Gateway.thy ===== *)
theory Gateway
  imports Mqtt_Stream Service_Api
begin

text \<open>
  The MQTT enforcement point (\<^verbatim>\<open>src/ca_ztcf/enforcement/mqtt_gateway.py\<close>): one connection from its
  first byte to its end. The decision client is its interface (\<^verbatim>\<open>decision_client.py\<close>): a record of two
  functions on a state of its own. The byte streams are what the peers send before they close; writes
  succeed. The broker's output is relayed by a concurrent task that shares only the client's writer,
  so it is a function of the broker's stream and of how many packets it relays before it is cancelled.
\<close>

section \<open>The decision client and the environment\<close>

record 'st decision_client =
  cl_decide :: "'st \<Rightarrow> decision_request \<Rightarrow> decision result \<times> 'st"
  cl_issue_nonce :: "'st \<Rightarrow> string \<Rightarrow> (string \<times> instant) result \<times> 'st"

record gateway_config =
  gc_declared_domain :: "access_domain option"
  gc_strategy :: "string option"

text \<open>
  The text of JSON values and \<open>str\<close> of a JSON list or object belong to Python's library: functions of
  the environment. Parsing gives \<open>None\<close> where \<open>json.loads\<close> raises.
\<close>

record 'st gateway_env =
  ge_config :: gateway_config
  ge_client :: "'st decision_client"
  ge_loads :: "string \<Rightarrow> json option"
  ge_dumps :: "json \<Rightarrow> string"
  ge_repr :: "json \<Rightarrow> string"

text \<open>What the handling of one packet draws: clock readings and the measured latency.\<close>

record packet_draws =
  pd_now :: instant
  pd_denied_at :: "nat \<Rightarrow> instant"
  pd_elapsed_ns :: int

section \<open>Session state\<close>

record session_stats =
  sn_connection_id :: string
  sn_device_id :: string
  sn_connected_at :: "instant option"
  sn_bytes_from_client :: nat
  sn_bytes_to_client :: nat
  sn_bytes_to_broker :: nat
  sn_bytes_from_broker :: nat
  sn_packets_from_client :: nat
  sn_packets_to_client :: nat
  sn_publishes_allowed :: nat
  sn_publishes_denied :: nat
  sn_subscriptions_allowed :: nat
  sn_subscriptions_denied :: nat
  sn_decisions_requested :: nat
  sn_step_up_challenges :: nat
  sn_step_up_successes :: nat
  sn_step_up_failures :: nat
  sn_connack_code :: "nat option"
  sn_decision_latency_ns :: "int list"
  sn_actions_seen :: "string list"
  sn_close_reason :: string

definition new_stats :: "string \<Rightarrow> session_stats" where
  "new_stats cid =
     \<lparr>sn_connection_id = cid, sn_device_id = [], sn_connected_at = None, sn_bytes_from_client = 0,
      sn_bytes_to_client = 0, sn_bytes_to_broker = 0, sn_bytes_from_broker = 0, sn_packets_from_client = 0,
      sn_packets_to_client = 0, sn_publishes_allowed = 0, sn_publishes_denied = 0,
      sn_subscriptions_allowed = 0, sn_subscriptions_denied = 0, sn_decisions_requested = 0,
      sn_step_up_challenges = 0, sn_step_up_successes = 0, sn_step_up_failures = 0, sn_connack_code = None,
      sn_decision_latency_ns = [], sn_actions_seen = [], sn_close_reason = []\<rparr>"

text \<open>
  \<open>gs_audit\<close>: the records handed to the audit sink. \<open>gs_decisions\<close> is not in the code: the decisions
  the client gave, in order, for the statements below.
\<close>

record 'st session =
  gs_state :: 'st
  gs_stats :: session_stats
  gs_client :: counting_writer
  gs_broker :: counting_writer
  gs_opened :: bool
  gs_audit :: "(string, json) dict list"
  gs_decisions :: "decision list"

definition new_session :: "string \<Rightarrow> 'st \<Rightarrow> 'st session" where
  "new_session cid st =
     \<lparr>gs_state = st, gs_stats = new_stats cid, gs_client = new_writer, gs_broker = new_writer,
      gs_opened = False, gs_audit = [], gs_decisions = []\<rparr>"

definition with_stats :: "(session_stats \<Rightarrow> session_stats) \<Rightarrow> 'st session \<Rightarrow> 'st session" where
  "with_stats f gs = gs\<lparr>gs_stats := f (gs_stats gs)\<rparr>"

definition close_with :: "string \<Rightarrow> 'st session \<Rightarrow> 'st session" where
  "close_with reason = with_stats (\<lambda>s. s\<lparr>sn_close_reason := reason\<rparr>)"

definition to_client :: "bytes result \<Rightarrow> 'st session \<Rightarrow> unit result \<times> 'st session" where
  "to_client built gs =
     (case built of Inl e \<Rightarrow> (Inl e, gs) | Inr raw \<Rightarrow> (Inr (), gs\<lparr>gs_client := cw_write (gs_client gs) raw\<rparr>))"

definition to_broker :: "bytes result \<Rightarrow> 'st session \<Rightarrow> unit result \<times> 'st session" where
  "to_broker built gs =
     (case built of Inl e \<Rightarrow> (Inl e, gs) | Inr raw \<Rightarrow> (Inr (), gs\<lparr>gs_broker := cw_write (gs_broker gs) raw\<rparr>))"

definition snapshot_stats :: "session_stats \<Rightarrow> (string, json) dict" where
  "snapshot_stats s =
     [(''connection_id'', JStr (sn_connection_id s)), (''device_id'', JStr (sn_device_id s)),
      (''connected_at'', opt_json (map_option isoformat (sn_connected_at s))),
      (''bytes_from_client'', JInt (int (sn_bytes_from_client s))),
      (''bytes_to_client'', JInt (int (sn_bytes_to_client s))),
      (''bytes_to_broker'', JInt (int (sn_bytes_to_broker s))),
      (''bytes_from_broker'', JInt (int (sn_bytes_from_broker s))),
      (''packets_from_client'', JInt (int (sn_packets_from_client s))),
      (''packets_to_client'', JInt (int (sn_packets_to_client s))),
      (''publishes_allowed'', JInt (int (sn_publishes_allowed s))),
      (''publishes_denied'', JInt (int (sn_publishes_denied s))),
      (''subscriptions_allowed'', JInt (int (sn_subscriptions_allowed s))),
      (''subscriptions_denied'', JInt (int (sn_subscriptions_denied s))),
      (''decisions_requested'', JInt (int (sn_decisions_requested s))),
      (''step_up_challenges'', JInt (int (sn_step_up_challenges s))),
      (''step_up_successes'', JInt (int (sn_step_up_successes s))),
      (''step_up_failures'', JInt (int (sn_step_up_failures s))),
      (''connack_code'', (case sn_connack_code s of None \<Rightarrow> JNull | Some c \<Rightarrow> JInt (int c))),
      (''decision_latency_ns'', JList (map JInt (sn_decision_latency_ns s))),
      (''actions_seen'', strs (sn_actions_seen s)), (''close_reason'', JStr (sn_close_reason s))]"

section \<open>Decisions\<close>

definition HELD_ACTIONS :: "policy_action list" where
  "HELD_ACTIONS = [STEP_UP_AUTHENTICATION]"

definition REFUSING_ACTIONS :: "policy_action list" where
  "REFUSING_ACTIONS = [DENY, REAUTHENTICATE]"

definition ctl_topic :: "string \<Rightarrow> string \<Rightarrow> string" where
  "ctl_topic d leaf = ''ctl/'' @ d @ ''/'' @ leaf"

abbreviation CHALLENGE_TOPIC :: "string \<Rightarrow> string" where
  "CHALLENGE_TOPIC d \<equiv> ctl_topic d ''challenge''"

abbreviation RESPONSE_TOPIC :: "string \<Rightarrow> string" where
  "RESPONSE_TOPIC d \<equiv> ctl_topic d ''response''"

abbreviation DECISION_TOPIC :: "string \<Rightarrow> string" where
  "DECISION_TOPIC d \<equiv> ctl_topic d ''decision''"

text \<open>\<open>text.partition(".")\<close> on the password, when it is ASCII.\<close>

definition parse_proof :: "string \<Rightarrow> bytes option \<Rightarrow> proof_of_possession option" where
  "parse_proof d password =
     (case password of
        None \<Rightarrow> None
      | Some raw \<Rightarrow>
          if raw = [] \<or> list_ex (\<lambda>b. b \<ge> 0x80) raw then None
          else
            (let text = str_decode raw;
                 nonce = takeWhile (\<lambda>c. c \<noteq> CHR ''.'') text
             in case dropWhile (\<lambda>c. c \<noteq> CHR ''.'') text of
                  [] \<Rightarrow> None
                | _ # signature \<Rightarrow>
                    if nonce = [] \<or> signature = [] then None
                    else Some \<lparr>pp_device_id = d, pp_nonce = nonce, pp_signature = signature\<rparr>))"

definition gw_decide ::
  "'st gateway_env \<Rightarrow> int \<Rightarrow> string \<Rightarrow> string \<Rightarrow> string option \<Rightarrow> proof_of_possession option
     \<Rightarrow> string option \<Rightarrow> 'st session \<Rightarrow> decision result \<times> 'st session" where
  "gw_decide env elapsed d peer ident pf resource gs =
     (case cl_decide (ge_client env) (gs_state gs)
             \<lparr>dr_device_id = d, dr_peer_address = peer, dr_domain = gc_declared_domain (ge_config env),
              dr_session_identity = ident, dr_proof = pf, dr_resource = resource,
              dr_strategy = gc_strategy (ge_config env), dr_at = None\<rparr> of
        (Inl e, st) \<Rightarrow> (Inl e, gs\<lparr>gs_state := st\<rparr>)
      | (Inr dec, st) \<Rightarrow>
          (Inr dec,
           with_stats (\<lambda>s. s\<lparr>sn_decisions_requested := sn_decisions_requested s + 1,
                             sn_decision_latency_ns := sn_decision_latency_ns s @ [elapsed],
                             sn_actions_seen := sn_actions_seen s @ [action_value (dc_action dec)]\<rparr>)
             (gs\<lparr>gs_state := st, gs_decisions := gs_decisions gs @ [dec]\<rparr>)))"

definition gw_expired :: "instant \<Rightarrow> decision \<Rightarrow> bool" where
  "gw_expired now dec = (if dc_ttl_ms dec \<le> 0 then True else now > dc_created_at dec + milliseconds (dc_ttl_ms dec))"

definition refresh_if_needed ::
  "'st gateway_env \<Rightarrow> packet_draws \<Rightarrow> string \<Rightarrow> string \<Rightarrow> string \<Rightarrow> decision \<Rightarrow> 'st session
     \<Rightarrow> decision result \<times> 'st session" where
  "refresh_if_needed env pd d peer resource dec gs =
     (if \<not> gw_expired (pd_now pd) dec then (Inr dec, gs)
      else gw_decide env (pd_elapsed_ns pd) d peer None None (Some resource) gs)"

definition authorise :: "decision \<Rightarrow> string \<Rightarrow> bool \<times> string" where
  "authorise dec topic =
     (if dc_action dec \<in> set REFUSING_ACTIONS then (False, ''ACTION_'' @ action_value (dc_action dec))
      else scope_permits dec topic)"

text \<open>The audit record of a refused operation.\<close>

definition record_denial :: "instant \<Rightarrow> decision \<Rightarrow> string \<Rightarrow> string \<Rightarrow> string \<Rightarrow> 'st session \<Rightarrow> 'st session" where
  "record_denial at dec operation resource reason gs =
     gs\<lparr>gs_audit := gs_audit gs @
       [[(''record_type'', JStr ''enforcement''), (''enforcement_point'', JStr ''mqtt''),
         (''recorded_at'', JStr (isoformat at)),
         (''connection_id'', JStr (sn_connection_id (gs_stats gs))),
         (''device_id'', JStr (sn_device_id (gs_stats gs))), (''operation'', JStr operation),
         (''resource'', JStr resource), (''permitted'', JBool False), (''reason'', JStr reason),
         (''decision_id'', JStr (dc_decision_id dec)), (''action'', JStr (action_value (dc_action dec))),
         (''trust_state'', JStr (state_value (dc_trust_state dec))), (''scope'', JStr (sp_name (dc_scope dec))),
         (''config_hash'', JStr (dc_config_hash dec))]]\<rparr>"

section \<open>Sequencing\<close>

section \<open>Step-up\<close>

text \<open>An unregistered device cannot be challenged: the client's \<open>EnforcementError\<close> is dropped.\<close>

definition send_challenge :: "'st gateway_env \<Rightarrow> string \<Rightarrow> 'st session \<Rightarrow> unit result \<times> 'st session" where
  "send_challenge env d gs =
     (case cl_issue_nonce (ge_client env) (gs_state gs) d of
        (Inl (EnforcementError m), st) \<Rightarrow> (Inr (), gs\<lparr>gs_state := st\<rparr>)
      | (Inl e, st) \<Rightarrow> (Inl e, gs\<lparr>gs_state := st\<rparr>)
      | (Inr (nonce, expires_at), st) \<Rightarrow>
          (let body = str_encode (ge_dumps env (JObj [(''nonce'', JStr nonce),
                (''expires_at'', JStr (isoformat expires_at)), (''algorithm'', JStr ''ed25519'')]))
           in run_then (to_client (build_publish (CHALLENGE_TOPIC d) body 0 None False) (gs\<lparr>gs_state := st\<rparr>))
                (\<lambda>_ gs1. (Inr (), with_stats (\<lambda>s. s\<lparr>sn_step_up_challenges := sn_step_up_challenges s + 1\<rparr>) gs1))))"

definition announcement :: "decision \<Rightarrow> string \<Rightarrow> json" where
  "announcement dec peer =
     JObj [(''decision_id'', JStr (dc_decision_id dec)), (''action'', JStr (action_value (dc_action dec))),
       (''trust_state'', JStr (state_value (dc_trust_state dec))), (''scope'', JStr (sp_name (dc_scope dec))),
       (''ttl_ms'', JInt (dc_ttl_ms dec)), (''reason_codes'', strs (dc_reason_codes dec)),
       (''observed_peer_address'', JStr peer)]"

definition announce_decision ::
  "'st gateway_env \<Rightarrow> decision \<Rightarrow> string \<Rightarrow> 'st session \<Rightarrow> unit result \<times> 'st session" where
  "announce_decision env dec peer gs =
     to_client (build_publish (DECISION_TOPIC (sn_device_id (gs_stats gs)))
       (str_encode (ge_dumps env (announcement dec peer))) 0 None False) gs"

text \<open>
  \<open>json.loads(payload.decode("utf-8"))\<close> and the two subscripts: a missing key is a \<open>KeyError\<close>, a value
  that is not an object a \<open>TypeError\<close>.
\<close>

definition step_up_proof :: "'st gateway_env \<Rightarrow> string \<Rightarrow> bytes \<Rightarrow> proof_of_possession result" where
  "step_up_proof env d payload =
     (if \<not> utf8_valid payload then Inl (PyValueError ''payload is not UTF-8'')
      else
        (case ge_loads env (str_decode payload) of
           None \<Rightarrow> Inl (PyValueError ''payload is not JSON'')
         | Some (JObj kvs) \<Rightarrow>
             (case dget kvs ''nonce'' of
                None \<Rightarrow> Inl (PyKeyError ''nonce'')
              | Some n \<Rightarrow>
                  (case dget kvs ''signature'' of
                     None \<Rightarrow> Inl (PyKeyError ''signature'')
                   | Some sg \<Rightarrow> Inr \<lparr>pp_device_id = d, pp_nonce = py_str (ge_repr env) n,
                                    pp_signature = py_str (ge_repr env) sg\<rparr>))
         | Some _ \<Rightarrow> Inl (PyTypeError ''payload is not an object'')))"

definition handle_step_up_response ::
  "'st gateway_env \<Rightarrow> packet_draws \<Rightarrow> string \<Rightarrow> decision \<Rightarrow> publish_packet \<Rightarrow> 'st session
     \<Rightarrow> decision result \<times> 'st session" where
  "handle_step_up_response env pd peer dec pub gs =
     (let d = sn_device_id (gs_stats gs);
          failed = with_stats (\<lambda>s. s\<lparr>sn_step_up_failures := sn_step_up_failures s + 1\<rparr>);
          succeeded = with_stats (\<lambda>s. s\<lparr>sn_step_up_successes := sn_step_up_successes s + 1\<rparr>)
      in case step_up_proof env d (pb_payload pub) of
           Inl (PyValueError m) \<Rightarrow> (Inr dec, failed gs)
         | Inl (PyKeyError m) \<Rightarrow> (Inr dec, failed gs)
         | Inl e \<Rightarrow> (Inl e, gs)
         | Inr pf \<Rightarrow>
             run_then (gw_decide env (pd_elapsed_ns pd) d peer None (Some pf) None gs) (\<lambda>dec' gs1.
             run_then (announce_decision env dec' peer
                 (if dc_action dec' \<in> set HELD_ACTIONS \<union> set REFUSING_ACTIONS then failed gs1 else succeeded gs1))
               (\<lambda>_ gs2. (Inr dec', gs2))))"

section \<open>Relaying the client's packets\<close>

datatype loop_next = Again decision | Leave

definition terminate :: "decision \<Rightarrow> 'st session \<Rightarrow> 'st session" where
  "terminate dec = close_with (''SESSION_TERMINATED:'' @ action_value (dc_action dec))"

definition acknowledge :: "publish_packet \<Rightarrow> 'st session \<Rightarrow> unit result \<times> 'st session" where
  "acknowledge pub gs =
     (if pb_qos pub = 1 then
        (case pb_packet_id pub of None \<Rightarrow> (Inr (), gs) | Some i \<Rightarrow> to_client (build_puback i) gs)
      else (Inr (), gs))"

definition handle_publish ::
  "'st gateway_env \<Rightarrow> packet_draws \<Rightarrow> string \<Rightarrow> decision \<Rightarrow> packet \<Rightarrow> 'st session
     \<Rightarrow> loop_next result \<times> 'st session" where
  "handle_publish env pd peer dec p gs =
     (case decode_publish p of
        Inl e \<Rightarrow> (Inl e, gs)
      | Inr pub \<Rightarrow>
          (let d = sn_device_id (gs_stats gs); topic = pb_topic pub
           in if topic = RESPONSE_TOPIC d then
                run_then (handle_step_up_response env pd peer dec pub gs) (\<lambda>dec' gs1.
                run_then (acknowledge pub gs1) (\<lambda>_ gs2.
                  if dc_action dec' \<in> set REFUSING_ACTIONS then (Inr Leave, terminate dec' gs2)
                  else (Inr (Again dec'), gs2)))
              else
                run_then (refresh_if_needed env pd d peer topic dec gs) (\<lambda>dec' gs1.
                  if dc_action dec' \<in> set REFUSING_ACTIONS then (Inr Leave, terminate dec' gs1)
                  else if fst (authorise dec' topic) then
                    run_then (to_broker (Inr (pk_raw p))
                        (with_stats (\<lambda>s. s\<lparr>sn_publishes_allowed := sn_publishes_allowed s + 1\<rparr>) gs1))
                      (\<lambda>_ gs2. (Inr (Again dec'), gs2))
                  else
                    run_then (acknowledge pub
                        (record_denial (pd_denied_at pd 0) dec' ''PUBLISH'' topic (snd (authorise dec' topic))
                          (with_stats (\<lambda>s. s\<lparr>sn_publishes_denied := sn_publishes_denied s + 1\<rparr>) gs1)))
                      (\<lambda>_ gs2. (Inr (Again dec'), gs2)))))"

text \<open>The filters in order: those granted, the return codes, the session after the denials (numbered from \<open>k\<close>).\<close>

fun review :: "packet_draws \<Rightarrow> decision \<Rightarrow> nat \<Rightarrow> (string \<times> nat) list \<Rightarrow> 'st session
     \<Rightarrow> (string \<times> nat) list \<times> nat list \<times> 'st session" where
  "review pd dec k [] gs = ([], [], gs)"
| "review pd dec k ((f, q) # rest) gs =
     (if fst (authorise dec f) then
        (case review pd dec k rest
                (with_stats (\<lambda>s. s\<lparr>sn_subscriptions_allowed := sn_subscriptions_allowed s + 1\<rparr>) gs) of
           (granted, codes, gs') \<Rightarrow> ((f, q) # granted, q # codes, gs'))
      else
        (case review pd dec (Suc k) rest
                (record_denial (pd_denied_at pd k) dec ''SUBSCRIBE'' f (snd (authorise dec f))
                  (with_stats (\<lambda>s. s\<lparr>sn_subscriptions_denied := sn_subscriptions_denied s + 1\<rparr>) gs)) of
           (granted, codes, gs') \<Rightarrow> (granted, SUBACK_FAILURE # codes, gs')))"

fun encode_filters :: "(string \<times> nat) list \<Rightarrow> bytes result" where
  "encode_filters [] = Inr []"
| "encode_filters ((f, q) # rest) =
     and_then (encode_string f) (\<lambda>x. and_then (encode_filters rest) (\<lambda>y. Inr (x @ [of_nat q] @ y)))"

definition forward_subscribe :: "nat \<Rightarrow> (string \<times> nat) list \<Rightarrow> bytes result" where
  "forward_subscribe i granted =
     and_then (to_bytes2 i) (\<lambda>h. and_then (encode_filters granted) (\<lambda>b. build_packet PT_SUBSCRIBE 0x02 (h @ b)))"

definition handle_subscribe ::
  "'st gateway_env \<Rightarrow> packet_draws \<Rightarrow> string \<Rightarrow> decision \<Rightarrow> packet \<Rightarrow> 'st session
     \<Rightarrow> loop_next result \<times> 'st session" where
  "handle_subscribe env pd peer dec p gs =
     (case decode_subscribe p of
        Inl e \<Rightarrow> (Inl e, gs)
      | Inr sub \<Rightarrow>
          run_then (refresh_if_needed env pd (sn_device_id (gs_stats gs)) peer (fst (hd (sb_subscriptions sub))) dec gs)
            (\<lambda>dec' gs1.
              if dc_action dec' \<in> set REFUSING_ACTIONS then (Inr Leave, terminate dec' gs1)
              else
                (case review pd dec' 0 (sb_subscriptions sub) gs1 of
                   (granted, codes, gs2) \<Rightarrow>
                     if granted \<noteq> [] then
                       run_then (to_broker (forward_subscribe (sb_packet_id sub) granted) gs2) (\<lambda>_ gs3.
                         run_then (if length granted \<noteq> length (sb_subscriptions sub)
                                   then to_client (build_suback (sb_packet_id sub) codes) gs3 else (Inr (), gs3))
                           (\<lambda>_ gs4. (Inr (Again dec'), gs4)))
                     else
                       run_then (to_client (build_suback (sb_packet_id sub) codes) gs2)
                         (\<lambda>_ gs3. (Inr (Again dec'), gs3)))))"

definition relayed_types :: "packet_type list" where
  "relayed_types = [PT_PUBACK, PT_UNSUBSCRIBE, PT_PUBREC, PT_PUBREL, PT_PUBCOMP]"

definition handle_packet ::
  "'st gateway_env \<Rightarrow> packet_draws \<Rightarrow> string \<Rightarrow> decision \<Rightarrow> packet \<Rightarrow> 'st session
     \<Rightarrow> loop_next result \<times> 'st session" where
  "handle_packet env pd peer dec p gs =
     (let relay = to_broker (Inr (pk_raw p))
      in if pk_type p = PT_DISCONNECT then
           run_then (relay (close_with ''CLIENT_DISCONNECT'' gs)) (\<lambda>_ gs1. (Inr Leave, gs1))
         else if pk_type p = PT_PINGREQ then run_then (relay gs) (\<lambda>_ gs1. (Inr (Again dec), gs1))
         else if pk_type p = PT_PUBLISH then handle_publish env pd peer dec p gs
         else if pk_type p = PT_SUBSCRIBE then handle_subscribe env pd peer dec p gs
         else if pk_type p \<in> set relayed_types then run_then (relay gs) (\<lambda>_ gs1. (Inr (Again dec), gs1))
         else (Inr Leave, close_with (''UNSUPPORTED_PACKET:'' @ packet_type_name (pk_type p)) gs))"

function client_loop ::
  "'st gateway_env \<Rightarrow> (nat \<Rightarrow> packet_draws) \<Rightarrow> string \<Rightarrow> nat \<Rightarrow> packet_reader \<Rightarrow> decision \<Rightarrow> 'st session
     \<Rightarrow> unit result \<times> packet_reader \<times> 'st session" where
  "client_loop env pds peer n r dec gs =
     (case read_packet r of
        (Inl e, r') \<Rightarrow> (Inl e, r', gs)
      | (Inr None, r') \<Rightarrow>
          (Inr (), r', if sn_close_reason (gs_stats gs) = [] then close_with ''CLIENT_CLOSED'' gs else gs)
      | (Inr (Some p), r') \<Rightarrow>
          (case handle_packet env (pds n) peer dec p gs of
             (Inl e, gs') \<Rightarrow> (Inl e, r', gs')
           | (Inr Leave, gs') \<Rightarrow> (Inr (), r', gs')
           | (Inr (Again dec'), gs') \<Rightarrow> client_loop env pds peer (Suc n) r' dec' gs'))"
  by pat_completeness auto
termination
  by (relation "measure (\<lambda>(_, _, _, _, r, _, _). length (rd_input r))") (auto dest: read_packet_shorter [OF sym])

declare client_loop.simps [simp del]

section \<open>The broker's output\<close>

text \<open>The relaying task: the packets it got to relay, at most \<open>n\<close> before it is cancelled.\<close>

primrec pump :: "nat \<Rightarrow> packet_reader \<Rightarrow> bytes list \<times> packet_reader" where
  "pump 0 r = ([], r)"
| "pump (Suc n) r =
     (case read_packet r of
        (Inr (Some p), r') \<Rightarrow> (case pump n r' of (ps, r'') \<Rightarrow> (pk_raw p # ps, r''))
      | (_, r') \<Rightarrow> ([], r'))"

section \<open>One connection\<close>

text \<open>
  What a connection brings: the client's bytes, whether its first packet is late, the clock and the
  latency of the first decision, the broker's bytes or the reason it cannot be reached, the number of
  packets relayed from it, and the draws of each packet of the loop.
\<close>

record connection =
  cx_id :: string
  cx_peer :: "string option"
  cx_input :: bytes
  cx_times_out :: bool
  cx_connected_at :: instant
  cx_connect_ns :: int
  cx_broker :: "string + bytes"
  cx_relayed :: nat
  cx_packets :: "nat \<Rightarrow> packet_draws"

text \<open>\<open>serve\<close> is the body of the \<open>try\<close>; its result carries the client's reader and what was relayed.\<close>

type_synonym 'st served = "unit result \<times> packet_reader \<times> bytes list \<times> 'st session"

definition refuse_with :: "connack_code \<Rightarrow> 'st session \<Rightarrow> unit result \<times> 'st session" where
  "refuse_with code = to_client (build_connack code False)"

definition connack_seen :: "packet \<Rightarrow> nat option" where
  "connack_seen p = (if length (pk_payload p) > 1 then Some (unat (pk_payload p ! 1)) else None)"

definition session_loop ::
  "'st gateway_env \<Rightarrow> connection \<Rightarrow> packet_reader \<Rightarrow> packet_reader \<Rightarrow> decision \<Rightarrow> 'st session \<Rightarrow> 'st served" where
  "session_loop env cx r br dec gs =
     (let peer = name_or (cx_peer cx) ''0.0.0.0'';
          d = sn_device_id (gs_stats gs)
      in case pump (cx_relayed cx) br of
           (relayed, br') \<Rightarrow>
             (let gs0 = with_stats (\<lambda>s. if relayed = [] then s else s\<lparr>sn_bytes_from_broker := rd_bytes_read br'\<rparr>) gs
              in case run_then (if dc_action dec \<in> set HELD_ACTIONS then send_challenge env d gs0 else (Inr (), gs0))
                        (\<lambda>_ gs1. announce_decision env dec peer gs1) of
                   (Inl e, gs2) \<Rightarrow> (Inl e, r, relayed, gs2)
                 | (Inr _, gs2) \<Rightarrow>
                     (case client_loop env (cx_packets cx) peer 0 r dec gs2 of
                        (res, r', gs3) \<Rightarrow> (res, r', relayed, gs3))))"

definition open_broker ::
  "'st gateway_env \<Rightarrow> connection \<Rightarrow> connect_packet \<Rightarrow> packet_reader \<Rightarrow> decision \<Rightarrow> 'st session \<Rightarrow> 'st served" where
  "open_broker env cx c r dec gs =
     (case cx_broker cx of
        Inl failure \<Rightarrow>
          (case refuse_with CA_SERVER_UNAVAILABLE
                  (close_with (''BROKER_UNREACHABLE:'' @ failure)
                    (with_stats (\<lambda>s. s\<lparr>sn_connack_code := Some (connack_value CA_SERVER_UNAVAILABLE)\<rparr>) gs)) of
             (res, gs') \<Rightarrow> (res, r, [], gs'))
      | Inr output \<Rightarrow>
          (let gs0 = gs\<lparr>gs_opened := True\<rparr>;
               upstream = build_connect (cp_client_id c) (Some (sn_device_id (gs_stats gs))) None
                            (cp_keep_alive c) (cp_clean_session c)
           in case to_broker upstream gs0 of
                (Inl e, gs1) \<Rightarrow> (Inl e, r, [], gs1)
              | (Inr _, gs1) \<Rightarrow>
                  (case read_packet (new_reader output) of
                     (Inl e, br) \<Rightarrow> (Inl e, r, [], gs1)
                   | (Inr None, br) \<Rightarrow>
                       (case refuse_with CA_SERVER_UNAVAILABLE (close_with ''BROKER_DID_NOT_ACK'' gs1) of
                          (res, gs2) \<Rightarrow> (res, r, [], gs2))
                   | (Inr (Some ack), br) \<Rightarrow>
                       if pk_type ack \<noteq> PT_CONNACK then
                         (case refuse_with CA_SERVER_UNAVAILABLE (close_with ''BROKER_DID_NOT_ACK'' gs1) of
                            (res, gs2) \<Rightarrow> (res, r, [], gs2))
                       else
                         (case to_client (Inr (pk_raw ack))
                                 (with_stats (\<lambda>s. s\<lparr>sn_connack_code := connack_seen ack\<rparr>) gs1) of
                            (_, gs2) \<Rightarrow> session_loop env cx r br dec gs2))))"

definition admit ::
  "'st gateway_env \<Rightarrow> connection \<Rightarrow> connect_packet \<Rightarrow> packet_reader \<Rightarrow> 'st session \<Rightarrow> 'st served" where
  "admit env cx c r gs =
     (let d = name_or (cp_username c) (cp_client_id c);
          gs0 = with_stats (\<lambda>s. s\<lparr>sn_device_id := d, sn_connected_at := Some (cx_connected_at cx)\<rparr>) gs;
          peer = name_or (cx_peer cx) ''0.0.0.0''
      in case gw_decide env (cx_connect_ns cx) d peer (Some (cp_client_id c)) (parse_proof d (cp_password c)) None gs0 of
           (Inl e, gs1) \<Rightarrow> (Inl e, r, [], gs1)
         | (Inr dec, gs1) \<Rightarrow>
             if dc_action dec \<in> set REFUSING_ACTIONS then
               (case refuse_with CA_NOT_AUTHORIZED
                       (close_with (''CONNECT_REFUSED:'' @ action_value (dc_action dec))
                         (with_stats (\<lambda>s. s\<lparr>sn_connack_code := Some (connack_value CA_NOT_AUTHORIZED)\<rparr>) gs1)) of
                  (res, gs2) \<Rightarrow> (res, r, [], gs2))
             else open_broker env cx c r dec gs1)"

definition serve :: "'st gateway_env \<Rightarrow> connection \<Rightarrow> 'st \<Rightarrow> 'st served" where
  "serve env cx st =
     (let gs = new_session (cx_id cx) st;
          r0 = new_reader (cx_input cx)
      in if cx_times_out cx then (Inl PyTimeoutError, r0, [], gs)
         else
           (case read_packet r0 of
              (Inl e, r) \<Rightarrow> (Inl e, r, [], gs)
            | (Inr None, r) \<Rightarrow> (Inr (), r, [], close_with ''CLOSED_BEFORE_CONNECT'' gs)
            | (Inr (Some p), r) \<Rightarrow>
                if pk_type p \<noteq> PT_CONNECT then
                  (case refuse_with CA_NOT_AUTHORIZED (close_with ''FIRST_PACKET_NOT_CONNECT'' gs) of
                     (res, gs') \<Rightarrow> (res, r, [], gs'))
                else
                  (case decode_connect p of
                     Inl e \<Rightarrow> (Inl e, r, [], gs)
                   | Inr c \<Rightarrow> admit env cx c r gs)))"

text \<open>
  The \<open>except\<close> clauses: the close reason an exception leaves, \<open>None\<close> where it is not caught and leaves
  the handler. \<open>MqttProtocolError\<close> is the codec's; \<open>TimeoutError\<close> comes before \<open>OSError\<close>.
\<close>

fun close_reason_for :: "error \<Rightarrow> string \<Rightarrow> string option" where
  "close_reason_for IncompleteReadError old = Some (if old = [] then ''CLIENT_STREAM_TRUNCATED'' else old)"
| "close_reason_for (MqttProtocolError m) old = Some (''PROTOCOL_ERROR:'' @ m)"
| "close_reason_for PyTimeoutError old = Some ''CONNECT_TIMEOUT''"
| "close_reason_for (PyOSError m) old = Some (''TRANSPORT_ERROR:'' @ m)"
| "close_reason_for (EnforcementError m) old = Some (''ENFORCEMENT_ERROR:[ENFORCEMENT_ERROR] '' @ m)"
| "close_reason_for e old = None"

definition handle_exception :: "error \<Rightarrow> 'st session \<Rightarrow> error option \<times> 'st session" where
  "handle_exception e gs =
     (case close_reason_for e (sn_close_reason (gs_stats gs)) of
        None \<Rightarrow> (Some e, gs)
      | Some reason \<Rightarrow>
          (None, (case e of
                    EnforcementError _ \<Rightarrow> snd (refuse_with CA_SERVER_UNAVAILABLE (close_with reason gs))
                  | _ \<Rightarrow> close_with reason gs)))"

text \<open>
  The \<open>finally\<close> clause: the counters of the reader and the writers. The relaying task writes through the
  client's writer too, at moments of its own, so by then that writer has also written what was relayed.
\<close>

definition final_writer :: "bytes list \<Rightarrow> 'st session \<Rightarrow> counting_writer" where
  "final_writer relayed gs = foldl cw_write (gs_client gs) relayed"

definition final_stats :: "packet_reader \<Rightarrow> bytes list \<Rightarrow> 'st session \<Rightarrow> session_stats" where
  "final_stats r relayed gs =
     (let s = (gs_stats gs)\<lparr>sn_bytes_from_client := rd_bytes_read r, sn_packets_from_client := rd_packets_read r,
                sn_bytes_to_client := cw_bytes_written (final_writer relayed gs),
                sn_packets_to_client := cw_packets_written (final_writer relayed gs)\<rparr>
      in if gs_opened gs then s\<lparr>sn_bytes_to_broker := cw_bytes_written (gs_broker gs)\<rparr> else s)"

record 'st session_end =
  se_session :: "'st session"
  se_relayed :: "bytes list"
  se_unhandled :: "error option"
  se_stats :: session_stats

definition handle_client :: "'st gateway_env \<Rightarrow> connection \<Rightarrow> 'st \<Rightarrow> 'st session_end" where
  "handle_client env cx st =
     (case serve env cx st of
        (res, r, relayed, gs) \<Rightarrow>
          (case (case res of Inr _ \<Rightarrow> (None, gs) | Inl e \<Rightarrow> handle_exception e gs) of
             (unhandled, gs') \<Rightarrow>
               \<lparr>se_session = gs', se_relayed = relayed, se_unhandled = unhandled,
                se_stats = final_stats r relayed gs'\<rparr>))"

text \<open>The gateway keeps the snapshots of completed sessions until they are drained.\<close>

definition complete :: "(string, json) dict list \<Rightarrow> 'st session_end \<Rightarrow> (string, json) dict list" where
  "complete completed e = completed @ [snapshot_stats (se_stats e)]"

definition drain_sessions :: "(string, json) dict list \<Rightarrow> (string, json) dict list \<times> (string, json) dict list" where
  "drain_sessions completed = (completed, [])"

end
