(* ===== verification/Gateway_Facts.thy ===== *)
theory Gateway_Facts
  imports Gateway
begin

text \<open>
  What a session of the gateway does, whatever the decision client answers and the peers send. Every
  step is quiet (nothing reaches the broker, the device stays, decisions are only added) up to the
  one packet it forwards, and that packet is justified by a decision the client gave in this session.
\<close>

section \<open>A framed packet is read the same anywhere\<close>

lemma read_length_local:
  "read_length n m v input = (Inr (x, len), rest) \<Longrightarrow> read_length n m v (len @ any) = (Inr (x, len), any)"
proof (induction n m v input arbitrary: x len rest rule: read_length.induct)
  case (3 n m v b input)
  then show ?case by (fastforce simp: Let_def split: if_splits prod.splits sum.splits)
qed simp_all

definition parses_as :: "bytes \<Rightarrow> packet \<Rightarrow> bool" where
  "parses_as raw p \<longleftrightarrow> fst (read_packet (new_reader raw)) = Inr (Some p) \<and> pk_raw p = raw"

lemma read_packet_local:
  assumes "read_packet r = (Inr (Some p), r')"
  shows "read_packet (new_reader (pk_raw p @ any)) =
    (Inr (Some p), \<lparr>rd_input = any, rd_bytes_read = length (pk_raw p), rd_packets_read = 1\<rparr>)"
proof -
  obtain h input v len rest t where i: "rd_input r = h # input" "read_length 4 1 0 input = (Inr (v, len), rest)"
      "v \<le> MAX_REMAINING_LENGTH" "v \<le> length rest" "packet_type_of (drop_bit 4 (unat h)) = Some t"
    and p: "p = \<lparr>pk_type = t, pk_flags = unat (h AND 0x0F), pk_payload = take v rest, pk_raw = h # len @ take v rest\<rparr>"
    using assms
    by (auto simp: read_packet_def Let_def split: list.splits prod.splits sum.splits if_splits option.splits)
  have "read_length 4 1 0 (len @ take v rest @ any) = (Inr (v, len), take v rest @ any)"
    using i(2) by (rule read_length_local)
  with i(3-5) show ?thesis
    unfolding p by (simp add: read_packet_def new_reader_def Let_def del: One_nat_def)
qed

lemma read_packet_parses: "read_packet r = (Inr (Some p), r') \<Longrightarrow> parses_as (pk_raw p) p"
  using read_packet_local [of r p r' "[]"] by (simp add: parses_as_def)

lemma build_packet_parses:
  "build_packet t flags payload = Inr raw \<Longrightarrow>
     parses_as raw \<lparr>pk_type = t, pk_flags = flags mod 16, pk_payload = payload, pk_raw = raw\<rparr>"
  using read_packet_build [of t flags payload raw "new_reader raw" "[]"] by (simp add: parses_as_def new_reader_def)

section \<open>What may be forwarded\<close>

definition unprotected :: "packet_type list" where
  "unprotected = PT_DISCONNECT # PT_PINGREQ # relayed_types"

definition permits :: "decision \<Rightarrow> string \<Rightarrow> bool" where
  "permits dec topic \<longleftrightarrow> dc_action dec \<notin> set REFUSING_ACTIONS \<and> fst (scope_permits dec topic)"

lemma authorise_permits: "fst (authorise dec topic) = permits dec topic"
  by (simp add: authorise_def permits_def)

definition forwardable :: "string \<Rightarrow> decision list \<Rightarrow> bytes \<Rightarrow> bool" where
  "forwardable d ds raw \<longleftrightarrow>
     (\<exists>p. parses_as raw p \<and>
        (pk_type p \<in> set unprotected
         \<or> (\<exists>pub dec. pk_type p = PT_PUBLISH \<and> decode_publish p = Inr pub \<and> pb_topic pub \<noteq> RESPONSE_TOPIC d
              \<and> dec \<in> set ds \<and> permits dec (pb_topic pub))
         \<or> (\<exists>sub dec. pk_type p = PT_SUBSCRIBE \<and> decode_subscribe p = Inr sub \<and> dec \<in> set ds
              \<and> (\<forall>(f, q) \<in> set (sb_subscriptions sub). permits dec f))))"

lemma forwardable_more: "forwardable d ds raw \<Longrightarrow> set ds \<subseteq> set ds' \<Longrightarrow> forwardable d ds' raw"
  unfolding forwardable_def by (meson subsetD)

section \<open>Quiet steps\<close>

definition quiet_step :: "'st session \<Rightarrow> 'st session \<Rightarrow> bool" where
  "quiet_step gs gs' \<longleftrightarrow> sn_device_id (gs_stats gs') = sn_device_id (gs_stats gs) \<and> gs_broker gs' = gs_broker gs
     \<and> gs_opened gs' = gs_opened gs \<and> (\<exists>ds. gs_decisions gs' = gs_decisions gs @ ds)
     \<and> (\<exists>out. cw_sent (gs_client gs') = cw_sent (gs_client gs) @ out)
     \<and> (writer_ok (gs_client gs) \<longrightarrow> writer_ok (gs_client gs'))"

lemma quiet_step_refl [simp]: "quiet_step gs gs"
  by (simp add: quiet_step_def)

lemma quiet_trans [trans]: "quiet_step a b \<Longrightarrow> quiet_step b c \<Longrightarrow> quiet_step a c"
  by (auto simp: quiet_step_def)

lemma quiet_stats: "(\<And>s. sn_device_id (f s) = sn_device_id s) \<Longrightarrow> quiet_step gs (with_stats f gs)"
  by (simp add: quiet_step_def with_stats_def)

lemma quiet_close [simp]: "quiet_step gs (close_with reason gs)"
  by (simp add: close_with_def quiet_stats)

lemma quiet_terminate [simp]: "quiet_step gs (terminate dec gs)"
  by (simp add: terminate_def)

lemma quiet_state [simp]: "quiet_step gs (gs\<lparr>gs_state := st\<rparr>)"
  by (simp add: quiet_step_def)

lemma quiet_denial [simp]: "quiet_step gs (record_denial at dec op res reason gs)"
  by (simp add: quiet_step_def record_denial_def)

lemma quiet_to_client [simp]: "quiet_step gs (snd (to_client built gs))"
  by (simp add: quiet_step_def to_client_def split: sum.split)

lemma quiet_of: "x = (a, gs') \<Longrightarrow> quiet_step gs (snd x) \<Longrightarrow> quiet_step gs gs'"
  by simp

lemma quiet_run_then:
  assumes "quiet_step gs (snd x)" "\<And>a s. x = (Inr a, s) \<Longrightarrow> quiet_step s (snd (f a s))"
  shows "quiet_step gs (snd (run_then x f))"
proof (rule run_then_state)
  show "quiet_step gs (snd x)" by (rule assms(1))
  show "quiet_step gs (snd (f a s))" if x: "x = (Inr a, s)" for a s
  proof (rule quiet_trans)
    show "quiet_step gs s" using assms(1) x by simp
    show "quiet_step s (snd (f a s))" using x by (rule assms(2))
  qed
qed

lemma quiet_decide: "quiet_step gs (snd (gw_decide env el d peer ident pf res gs))"
proof -
  obtain r st where "cl_decide (ge_client env) (gs_state gs)
      \<lparr>dr_device_id = d, dr_peer_address = peer, dr_domain = gc_declared_domain (ge_config env),
       dr_session_identity = ident, dr_proof = pf, dr_resource = res,
       dr_strategy = gc_strategy (ge_config env), dr_at = None\<rparr> = (r, st)" by fastforce
  then show ?thesis by (cases r) (simp_all add: gw_decide_def quiet_step_def with_stats_def)
qed

lemma quiet_refresh: "quiet_step gs (snd (refresh_if_needed env pd d peer res dec gs))"
  by (simp add: refresh_if_needed_def quiet_decide)

lemma quiet_acknowledge [simp]: "quiet_step gs (snd (acknowledge pub gs))"
  by (simp add: acknowledge_def split: option.split)

lemma quiet_announce: "quiet_step gs gs1 \<Longrightarrow> quiet_step gs (snd (announce_decision env dec peer gs1))"
  unfolding announce_decision_def by (rule quiet_trans [OF _ quiet_to_client])

lemma quiet_challenge: "quiet_step gs (snd (send_challenge env d gs))"
proof -
  obtain r st where c: "cl_issue_nonce (ge_client env) (gs_state gs) d = (r, st)" by fastforce
  show ?thesis
  proof (cases r)
    case (Inl e)
    with c show ?thesis by (cases e) (simp_all add: send_challenge_def)
  next
    case (Inr ne)
    obtain n t where "ne = (n, t)" by fastforce
    with c Inr show ?thesis
      by (auto simp: send_challenge_def Let_def
          intro!: quiet_run_then quiet_stats quiet_trans [OF quiet_state quiet_to_client])
  qed
qed

lemma quiet_step_up: "quiet_step gs (snd (handle_step_up_response env pd peer dec pub gs))"
proof (cases "step_up_proof env (sn_device_id (gs_stats gs)) (pb_payload pub)")
  case (Inl e)
  then show ?thesis by (cases e) (simp_all add: handle_step_up_response_def Let_def quiet_stats)
next
  case (Inr pf)
  then show ?thesis
    by (auto simp: handle_step_up_response_def Let_def quiet_stats
        intro!: quiet_run_then quiet_decide quiet_announce)
qed

lemma quiet_review: "quiet_step gs (snd (snd (review pd dec k subs gs)))"
proof (induction subs arbitrary: k gs)
  case (Cons fq subs)
  obtain f q where fq: "fq = (f, q)" by fastforce
  let ?a = "with_stats (\<lambda>s. s\<lparr>sn_subscriptions_allowed := sn_subscriptions_allowed s + 1\<rparr>) gs"
  let ?b = "record_denial (pd_denied_at pd k) dec ''SUBSCRIBE'' f (snd (authorise dec f))
      (with_stats (\<lambda>s. s\<lparr>sn_subscriptions_denied := sn_subscriptions_denied s + 1\<rparr>) gs)"
  have "quiet_step gs (snd (snd (review pd dec k subs ?a)))"
    by (rule quiet_trans [OF quiet_stats Cons.IH]) simp
  moreover have "quiet_step gs (snd (snd (review pd dec (Suc k) subs ?b)))"
    by (rule quiet_trans [OF quiet_trans [OF quiet_stats quiet_denial] Cons.IH]) simp
  ultimately show ?case
    unfolding fq by (auto split: prod.splits)
qed simp

section \<open>The decision in force\<close>

lemma decide_recorded: "gw_decide env el d peer ident pf res gs = (Inr dec, gs') \<Longrightarrow> dec \<in> set (gs_decisions gs')"
  by (auto simp: gw_decide_def with_stats_def split: prod.splits sum.splits)

lemma refresh_recorded:
  "refresh_if_needed env pd d peer res dec gs = (Inr dec', gs') \<Longrightarrow> dec \<in> set (gs_decisions gs)
     \<Longrightarrow> dec' \<in> set (gs_decisions gs')"
  by (auto simp: refresh_if_needed_def decide_recorded split: if_splits)

lemma step_up_recorded:
  assumes "handle_step_up_response env pd peer dec pub gs = (Inr dec', gs')" "dec \<in> set (gs_decisions gs)"
  shows "dec' \<in> set (gs_decisions gs')"
proof (cases "step_up_proof env (sn_device_id (gs_stats gs)) (pb_payload pub)")
  case (Inl e)
  with assms show ?thesis by (cases e) (auto simp: handle_step_up_response_def Let_def with_stats_def)
next
  case (Inr pf)
  let ?dec = "gw_decide env (pd_elapsed_ns pd) (sn_device_id (gs_stats gs)) peer None (Some pf) None gs"
  obtain r gs1 where d: "?dec = (r, gs1)" by fastforce
  with Inr assms(1) obtain d1 where r: "r = Inr d1"
    by (cases r) (auto simp: handle_step_up_response_def Let_def)
  have mem: "d1 \<in> set (gs_decisions gs1)" using d r by (simp add: decide_recorded)
  have same: "gs_decisions (snd (announce_decision env x peer (with_stats f gs1))) = gs_decisions gs1" for x f
    by (simp add: announce_decision_def to_client_def with_stats_def split: sum.split)
  obtain f where f: "(if dc_action d1 \<in> set HELD_ACTIONS \<union> set REFUSING_ACTIONS
      then with_stats (\<lambda>s. s\<lparr>sn_step_up_failures := sn_step_up_failures s + 1\<rparr>) gs1
      else with_stats (\<lambda>s. s\<lparr>sn_step_up_successes := sn_step_up_successes s + 1\<rparr>) gs1) = with_stats f gs1"
    by (cases "dc_action d1 \<in> set HELD_ACTIONS \<union> set REFUSING_ACTIONS") simp_all
  obtain x gs2 where a: "announce_decision env d1 peer (with_stats f gs1) = (x, gs2)" by fastforce
  have "run_then (x, gs2) (\<lambda>_ gs2. (Inr d1, gs2)) = (Inr dec', gs')"
    using assms(1) unfolding handle_step_up_response_def Let_def Inr
    by (simp only: sum.case d [unfolded r] run_then_simps f a)
  then have "dec' = d1" "gs' = gs2" by (cases x; simp)+
  with mem same [of d1 f] a show ?thesis by simp
qed

section \<open>One packet\<close>

text \<open>What a step adds to what the broker was sent.\<close>

definition adds :: "'st session \<Rightarrow> bytes list \<Rightarrow> 'st session \<Rightarrow> bool" where
  "adds gs raws gs' \<longleftrightarrow> sn_device_id (gs_stats gs') = sn_device_id (gs_stats gs) \<and> gs_opened gs' = gs_opened gs
     \<and> cw_sent (gs_broker gs') = cw_sent (gs_broker gs) @ raws \<and> (\<exists>ds. gs_decisions gs' = gs_decisions gs @ ds)
     \<and> (writer_ok (gs_broker gs) \<longrightarrow> writer_ok (gs_broker gs'))
     \<and> (\<exists>out. cw_sent (gs_client gs') = cw_sent (gs_client gs) @ out)
     \<and> (writer_ok (gs_client gs) \<longrightarrow> writer_ok (gs_client gs'))"

lemma adds_quiet: "quiet_step gs gs' \<Longrightarrow> adds gs [] gs'"
  by (simp add: adds_def quiet_step_def)

lemma adds_trans: "adds a xs b \<Longrightarrow> adds b ys c \<Longrightarrow> adds a (xs @ ys) c"
  by (auto simp: adds_def)

lemma adds_before: "quiet_step a b \<Longrightarrow> adds b xs c \<Longrightarrow> adds a xs c"
  using adds_trans [of a "[]" b xs c] by (simp add: adds_quiet)

lemma adds_after: "adds a xs b \<Longrightarrow> quiet_step b c \<Longrightarrow> adds a xs c"
  using adds_trans [of a xs b "[]" c] by (simp add: adds_quiet)

lemma adds_write: "to_broker (Inr raw) gs = (Inr (), gs') \<Longrightarrow> adds gs [raw] gs'"
  by (auto simp: adds_def to_broker_def)

lemma encode_filters_Inr: "encode_filters subs = Inr b \<Longrightarrow> b = subscribe_body subs"
proof (induction subs arbitrary: b)
  case (Cons fq subs)
  then show ?case
    by (cases fq) (auto simp: and_then_Inr_iff encode_string_Inr subscribe_body_def)
qed (simp add: subscribe_body_def)

lemma forward_subscribe_Inr:
  "forward_subscribe i granted = Inr raw \<Longrightarrow>
     i < 65536 \<and> build_packet PT_SUBSCRIBE 0x02 (be16 i @ subscribe_body granted) = Inr raw"
  by (auto simp: forward_subscribe_def and_then_Inr_iff to_bytes2_Inr dest: encode_filters_Inr)

lemma review_granted:
  "review pd dec k subs gs = (granted, codes, gs') \<Longrightarrow>
     granted = filter (\<lambda>(f, q). permits dec f) subs
     \<and> codes = map (\<lambda>(f, q). if permits dec f then q else SUBACK_FAILURE) subs"
proof (induction subs arbitrary: k gs granted codes gs')
  case (Cons fq subs)
  obtain f q where fq: "fq = (f, q)" by fastforce
  from Cons.prems show ?case
    unfolding fq by (auto simp: authorise_permits split: prod.splits if_splits dest!: Cons.IH)
qed simp

lemma forwarded_subscription:
  assumes "forward_subscribe i granted = Inr raw" "decode_subscribe p = Inr sub"
    and "granted = filter (\<lambda>(f, q). permits dec f) (sb_subscriptions sub)" "granted \<noteq> []" "dec \<in> set ds"
  shows "forwardable d ds raw"
proof -
  note f = forward_subscribe_Inr [OF assms(1)]
  have valid: "\<forall>(f, q) \<in> set granted. py_text f \<and> length f \<le> 65535 \<and> q < 4"
  proof -
    obtain subs where "subscribe_loop (pk_payload p) 2 = Inr subs" "sb_subscriptions sub = subs"
      using assms(2) by (auto simp: decode_subscribe_def and_then_Inr_iff split: if_splits)
    then have "\<forall>(f, q) \<in> set (sb_subscriptions sub). py_text f \<and> length f \<le> 65535 \<and> q < 4"
      using subscribe_loop_valid by blast
    then show ?thesis by (auto simp: assms(3))
  qed
  let ?p = "\<lparr>pk_type = PT_SUBSCRIBE, pk_flags = 2 mod 16, pk_payload = be16 i @ subscribe_body granted, pk_raw = raw\<rparr>"
  have "parses_as raw ?p" using f by (intro build_packet_parses) simp
  moreover have "decode_subscribe ?p = Inr \<lparr>sb_packet_id = i, sb_subscriptions = granted\<rparr>"
    using f by (intro decode_subscribe_body [OF valid assms(4)]) simp_all
  moreover have "\<forall>(f, q) \<in> set granted. permits dec f" by (auto simp: assms(3))
  ultimately show ?thesis
    unfolding forwardable_def using assms(5)
    by (intro exI [of _ ?p]) (auto intro!: exI [of _ "\<lparr>sb_packet_id = i, sb_subscriptions = granted\<rparr>"] exI [of _ dec])
qed

text \<open>The effect of a step: what it adds is forwardable, and the loop goes on with a recorded decision.\<close>

definition justified_step :: "'st session \<Rightarrow> loop_next result \<times> 'st session \<Rightarrow> bool" where
  "justified_step gs out \<longleftrightarrow>
     (\<exists>raws. adds gs raws (snd out)
        \<and> (\<forall>raw \<in> set raws. forwardable (sn_device_id (gs_stats gs)) (gs_decisions (snd out)) raw))
     \<and> (\<forall>dec'. fst out = Inr (Again dec') \<longrightarrow> dec' \<in> set (gs_decisions (snd out)))"

lemma justified_quiet:
  "quiet_step gs gs' \<Longrightarrow> (\<And>dec'. res = Inr (Again dec') \<Longrightarrow> dec' \<in> set (gs_decisions gs')) \<Longrightarrow> justified_step gs (res, gs')"
  unfolding justified_step_def by (auto intro!: exI [of _ "[]"] adds_quiet)

lemma justified_forward:
  assumes "quiet_step gs gs1" "to_broker (Inr raw) gs1 = (Inr (), gs2)" "quiet_step gs2 gs'"
    and "forwardable (sn_device_id (gs_stats gs)) (gs_decisions gs') raw"
    and "\<And>dec'. res = Inr (Again dec') \<Longrightarrow> dec' \<in> set (gs_decisions gs')"
  shows "justified_step gs (res, gs')"
  unfolding justified_step_def
  using adds_after [OF adds_before [OF assms(1) adds_write [OF assms(2)]] assms(3)] assms(4,5)
  by (auto intro!: exI [of _ "[raw]"])

lemma quiet_keeps_decisions: "quiet_step gs gs' \<Longrightarrow> set (gs_decisions gs) \<subseteq> set (gs_decisions gs')"
  by (auto simp: quiet_step_def)

lemma response_justified:
  assumes "decode_publish p = Inr pub" "pb_topic pub = RESPONSE_TOPIC (sn_device_id (gs_stats gs))"
    and "dec \<in> set (gs_decisions gs)"
  shows "justified_step gs (handle_publish env pd peer dec p gs)"
proof -
  obtain r gs1 where s: "handle_step_up_response env pd peer dec pub gs = (r, gs1)" by fastforce
  have q: "quiet_step gs gs1" using quiet_step_up [of gs env pd peer dec pub] s by simp
  show ?thesis
  proof (cases r)
    case (Inl e)
    with assms s q show ?thesis by (auto simp: handle_publish_def intro!: justified_quiet)
  next
    case (Inr dec')
    have mem: "dec' \<in> set (gs_decisions gs1)" using step_up_recorded s Inr assms(3) by blast
    obtain a gs2 where ack: "acknowledge pub gs1 = (a, gs2)" by fastforce
    have q2: "quiet_step gs1 gs2" using quiet_of [OF ack quiet_acknowledge] .
    have mem2: "dec' \<in> set (gs_decisions gs2)" using mem quiet_keeps_decisions [OF q2] by blast
    from assms(1,2) s Inr ack show ?thesis
      by (cases a) (auto simp: handle_publish_def mem2 intro!: justified_quiet quiet_trans [OF q q2]
          quiet_trans [OF quiet_trans [OF q q2] quiet_terminate])
  qed
qed

text \<open>An ordinary PUBLISH under the decision in force after the refresh.\<close>

lemma permitted_justified:
  assumes "parses_as (pk_raw p) p" "pk_type p = PT_PUBLISH" "decode_publish p = Inr pub"
    and "pb_topic pub \<noteq> RESPONSE_TOPIC (sn_device_id (gs_stats gs))"
    and "refresh_if_needed env pd (sn_device_id (gs_stats gs)) peer (pb_topic pub) dec gs = (Inr dec', gs1)"
    and "dec' \<in> set (gs_decisions gs1)" "permits dec' (pb_topic pub)"
  shows "justified_step gs (handle_publish env pd peer dec p gs)"
proof -
  let ?w = "with_stats (\<lambda>s. s\<lparr>sn_publishes_allowed := sn_publishes_allowed s + 1\<rparr>) gs1"
  let ?g = "?w\<lparr>gs_broker := cw_write (gs_broker ?w) (pk_raw p)\<rparr>"
  have out: "handle_publish env pd peer dec p gs = (Inr (Again dec'), ?g)"
    using assms(3-5,7)
    by (simp add: handle_publish_def Let_def authorise_permits to_broker_def permits_def [of dec'])
  have ds: "gs_decisions ?g = gs_decisions gs1" by (simp add: with_stats_def)
  have "forwardable (sn_device_id (gs_stats gs)) (gs_decisions ?g) (pk_raw p)"
    unfolding forwardable_def ds using assms(1-4,6,7) by blast
  moreover have "quiet_step gs gs1"
    using quiet_refresh [of gs env pd _ peer "pb_topic pub" dec] assms(5) by (metis snd_conv)
  then have "quiet_step gs ?w" by (rule quiet_trans [OF _ quiet_stats]) simp
  ultimately show ?thesis
    unfolding out using assms(6) ds by (intro justified_forward [of gs ?w _ ?g]) (simp_all add: to_broker_def)
qed

lemma denied_justified:
  assumes "decode_publish p = Inr pub" "pb_topic pub \<noteq> RESPONSE_TOPIC (sn_device_id (gs_stats gs))"
    and "refresh_if_needed env pd (sn_device_id (gs_stats gs)) peer (pb_topic pub) dec gs = (Inr dec', gs1)"
    and "dec' \<in> set (gs_decisions gs1)" "\<not> permits dec' (pb_topic pub)" "dc_action dec' \<notin> set REFUSING_ACTIONS"
  shows "justified_step gs (handle_publish env pd peer dec p gs)"
proof -
  let ?g = "record_denial (pd_denied_at pd 0) dec' ''PUBLISH'' (pb_topic pub) (snd (authorise dec' (pb_topic pub)))
      (with_stats (\<lambda>s. s\<lparr>sn_publishes_denied := sn_publishes_denied s + 1\<rparr>) gs1)"
  obtain a gs2 where ack: "acknowledge pub ?g = (a, gs2)" by fastforce
  have "quiet_step gs gs1"
    using quiet_refresh [of gs env pd _ peer "pb_topic pub" dec] assms(3) by (metis snd_conv)
  then have "quiet_step gs ?g" by (rule quiet_trans [OF _ quiet_trans [OF quiet_stats quiet_denial]]) simp
  moreover have q: "quiet_step ?g gs2" using quiet_of [OF ack quiet_acknowledge] .
  ultimately have q2: "quiet_step gs gs2" by (rule quiet_trans)
  have "gs_decisions ?g = gs_decisions gs1" by (simp add: with_stats_def record_denial_def)
  then have "dec' \<in> set (gs_decisions gs2)" using assms(4) quiet_keeps_decisions [OF q] by auto
  with assms(1-3,5,6) ack show ?thesis
    by (cases a) (auto simp: handle_publish_def Let_def authorise_permits intro!: justified_quiet [OF q2])
qed

lemma publish_justified:
  assumes "parses_as (pk_raw p) p" "pk_type p = PT_PUBLISH" "dec \<in> set (gs_decisions gs)"
  shows "justified_step gs (handle_publish env pd peer dec p gs)"
proof (cases "decode_publish p")
  case (Inl e)
  then show ?thesis by (auto simp: handle_publish_def intro!: justified_quiet)
next
  case pub: (Inr pub)
  let ?d = "sn_device_id (gs_stats gs)"
  obtain r gs1 where s: "refresh_if_needed env pd ?d peer (pb_topic pub) dec gs = (r, gs1)" by fastforce
  have q: "quiet_step gs gs1" using quiet_refresh [of gs env pd ?d peer "pb_topic pub" dec] s by simp
  show ?thesis
  proof (cases "pb_topic pub = RESPONSE_TOPIC ?d")
    case True
    then show ?thesis using response_justified pub assms(3) by blast
  next
    case topic: False
    show ?thesis
    proof (cases r)
      case (Inl e)
      with pub topic s q show ?thesis by (auto simp: handle_publish_def Let_def intro!: justified_quiet)
    next
      case (Inr dec')
      then have mem: "dec' \<in> set (gs_decisions gs1)" using refresh_recorded s assms(3) by blast
      show ?thesis
      proof (cases "dc_action dec' \<in> set REFUSING_ACTIONS")
        case True
        with pub topic s Inr show ?thesis
          by (auto simp: handle_publish_def Let_def intro!: justified_quiet quiet_trans [OF q quiet_terminate])
      next
        case False
        then show ?thesis
          using permitted_justified [OF assms(1,2) pub topic] denied_justified [OF pub topic] s Inr mem by blast
      qed
    qed
  qed
qed

text \<open>A SUBSCRIBE of which some filters are granted.\<close>

lemma granted_justified:
  assumes "decode_subscribe p = Inr sub"
    and "refresh_if_needed env pd (sn_device_id (gs_stats gs)) peer (fst (hd (sb_subscriptions sub))) dec gs = (Inr dec', gs1)"
    and "dec' \<in> set (gs_decisions gs1)" "review pd dec' 0 (sb_subscriptions sub) gs1 = (granted, codes, gs2)"
    and "dc_action dec' \<notin> set REFUSING_ACTIONS" "granted \<noteq> []"
  shows "justified_step gs (handle_subscribe env pd peer dec p gs)"
proof -
  let ?partial = "length granted \<noteq> length (sb_subscriptions sub)"
  have "quiet_step gs gs1"
    using quiet_refresh [of gs env pd _ peer _ dec] assms(2) by (metis snd_conv)
  moreover have "quiet_step gs1 gs2" using quiet_review [of gs1 pd dec' 0 "sb_subscriptions sub"] assms(4) by simp
  ultimately have q: "quiet_step gs gs2" by (rule quiet_trans)
  have mem: "dec' \<in> set (gs_decisions gs2)"
    using assms(3) quiet_keeps_decisions [OF \<open>quiet_step gs1 gs2\<close>] by blast
  show ?thesis
  proof (cases "forward_subscribe (sb_packet_id sub) granted")
    case (Inl e)
    with assms q show ?thesis
      by (auto simp: handle_subscribe_def to_broker_def intro!: justified_quiet)
  next
    case (Inr raw)
    let ?g = "gs2\<lparr>gs_broker := cw_write (gs_broker gs2) raw\<rparr>"
    obtain a gs3 where w: "(if ?partial then to_client (build_suback (sb_packet_id sub) codes) ?g else (Inr (), ?g)) = (a, gs3)"
      by fastforce
    have q3: "quiet_step ?g gs3"
    proof (cases ?partial)
      case True
      with w show ?thesis by (intro quiet_of [OF _ quiet_to_client]) simp
    qed (use w in simp)
    have mem3: "dec' \<in> set (gs_decisions gs3)" using mem quiet_keeps_decisions [OF q3] by auto
    have out: "handle_subscribe env pd peer dec p gs = (map_sum id (\<lambda>_. Again dec') a, gs3)"
      using assms Inr w by (cases a) (simp_all add: handle_subscribe_def to_broker_def)
    have "forwardable (sn_device_id (gs_stats gs)) (gs_decisions gs3) raw"
      using review_granted [OF assms(4)] by (intro forwarded_subscription [OF Inr assms(1) _ assms(6) mem3]) simp
    then show ?thesis
      unfolding out using mem3 q3 q
      by (intro justified_forward [of gs gs2 raw ?g]) (auto simp: to_broker_def map_sum_def split: sum.splits)
  qed
qed

lemma subscribe_justified:
  assumes "dec \<in> set (gs_decisions gs)"
  shows "justified_step gs (handle_subscribe env pd peer dec p gs)"
proof (cases "decode_subscribe p")
  case (Inl e)
  then show ?thesis by (auto simp: handle_subscribe_def intro!: justified_quiet)
next
  case sub: (Inr sub)
  let ?d = "sn_device_id (gs_stats gs)" and ?subs = "sb_subscriptions sub"
  obtain r gs1 where s: "refresh_if_needed env pd ?d peer (fst (hd ?subs)) dec gs = (r, gs1)" by fastforce
  have q: "quiet_step gs gs1" using quiet_refresh [of gs env pd ?d peer "fst (hd ?subs)" dec] s by simp
  show ?thesis
  proof (cases r)
    case (Inl e)
    with sub s q show ?thesis by (auto simp: handle_subscribe_def intro!: justified_quiet)
  next
    case (Inr dec')
    then have mem: "dec' \<in> set (gs_decisions gs1)" using refresh_recorded s assms by blast
    obtain granted codes gs2 where rv: "review pd dec' 0 ?subs gs1 = (granted, codes, gs2)" by (metis prod_cases3)
    have q2: "quiet_step gs1 gs2" using quiet_review [of gs1 pd dec' 0 ?subs] rv by simp
    have mem2: "dec' \<in> set (gs_decisions gs2)" using mem quiet_keeps_decisions [OF q2] by blast
    note eqs = sub s Inr rv
    consider (refused) "dc_action dec' \<in> set REFUSING_ACTIONS"
      | (none) "dc_action dec' \<notin> set REFUSING_ACTIONS" "granted = []"
      | (some) "dc_action dec' \<notin> set REFUSING_ACTIONS" "granted \<noteq> []" by blast
    then show ?thesis
    proof cases
      case refused
      with eqs show ?thesis
        by (auto simp: handle_subscribe_def intro!: justified_quiet quiet_trans [OF q quiet_terminate])
    next
      case none
      obtain a gs3 where w: "to_client (build_suback (sb_packet_id sub) codes) gs2 = (a, gs3)" by fastforce
      have q3: "quiet_step gs2 gs3" using quiet_of [OF w quiet_to_client] .
      have "dec' \<in> set (gs_decisions gs3)" using mem2 quiet_keeps_decisions [OF q3] by blast
      with eqs none w show ?thesis
        by (cases a) (auto simp: handle_subscribe_def intro!: justified_quiet quiet_trans [OF q quiet_trans [OF q2 q3]])
    next
      case some
      show ?thesis
        using granted_justified [OF sub s [unfolded Inr] mem rv some] .
    qed
  qed
qed

lemma packet_justified:
  assumes "parses_as (pk_raw p) p" "dec \<in> set (gs_decisions gs)"
  shows "justified_step gs (handle_packet env pd peer dec p gs)"
proof -
  have relay: "justified_step gs (run_then (to_broker (Inr (pk_raw p)) gs0) (\<lambda>_ gs1. (Inr next, gs1)))"
    if "pk_type p \<in> set unprotected" "quiet_step gs gs0" "next = Leave \<or> next = Again dec" for gs0 "next"
  proof -
    let ?g = "gs0\<lparr>gs_broker := cw_write (gs_broker gs0) (pk_raw p)\<rparr>"
    have "forwardable (sn_device_id (gs_stats gs)) (gs_decisions ?g) (pk_raw p)"
      unfolding forwardable_def using assms(1) that(1) by blast
    moreover have "dec \<in> set (gs_decisions gs0)" using assms(2) quiet_keeps_decisions [OF that(2)] by blast
    ultimately have "justified_step gs (Inr next, ?g)"
      using that(2,3) by (intro justified_forward [of gs gs0 "pk_raw p" ?g]) (auto simp: to_broker_def)
    then show ?thesis by (simp add: to_broker_def)
  qed
  show ?thesis
    unfolding handle_packet_def Let_def
    using assms relay [of "close_with ''CLIENT_DISCONNECT'' gs" Leave] relay [of gs "Again dec"]
    by (auto simp: unprotected_def publish_justified subscribe_justified intro!: justified_quiet)
qed

section \<open>The loop and the connection\<close>

lemma client_loop_adds:
  assumes "client_loop env pds peer n r dec gs = (res, r', gs')" "dec \<in> set (gs_decisions gs)"
  shows "\<exists>raws. adds gs raws gs' \<and> (\<forall>raw \<in> set raws. forwardable (sn_device_id (gs_stats gs)) (gs_decisions gs') raw)"
  using assms
proof (induction env pds peer n r dec gs arbitrary: res r' gs' rule: client_loop.induct)
  case (1 env pds peer n r dec gs)
  obtain x r1 where rd: "read_packet r = (x, r1)" by fastforce
  have quiet: ?case if "quiet_step gs gs'"
    using adds_quiet [OF that] by (intro exI [of _ "[]"]) simp
  show ?case
  proof (cases "\<exists>p. x = Inr (Some p)")
    case False
    with 1(2) rd have "quiet_step gs gs'"
      by (subst (asm) client_loop.simps) (auto split: sum.splits option.splits if_splits)
    then show ?thesis by (rule quiet)
  next
    case True
    then obtain p where p: "x = Inr (Some p)" by blast
    obtain out gs1 where h: "handle_packet env (pds n) peer dec p gs = (out, gs1)" by fastforce
    have j: "justified_step gs (out, gs1)"
      using packet_justified [OF read_packet_parses, of r p r1 dec gs env "pds n" peer] rd p h 1(3) by simp
    then obtain raws where raws: "adds gs raws gs1"
      "\<forall>raw \<in> set raws. forwardable (sn_device_id (gs_stats gs)) (gs_decisions gs1) raw"
      by (auto simp: justified_step_def)
    show ?thesis
    proof (cases "\<exists>dec'. out = Inr (Again dec')")
      case False
      with 1(2) rd p h have "gs' = gs1"
        by (subst (asm) client_loop.simps) (auto split: sum.splits loop_next.splits)
      with raws show ?thesis by blast
    next
      case True
      then obtain dec' where out: "out = Inr (Again dec')" by blast
      then have mem: "dec' \<in> set (gs_decisions gs1)" using j by (simp add: justified_step_def)
      have loop: "client_loop env pds peer (Suc n) r1 dec' gs1 = (res, r', gs')"
        using 1(2) rd p h out by (subst (asm) client_loop.simps) simp
      obtain more where more: "adds gs1 more gs'"
        "\<forall>raw \<in> set more. forwardable (sn_device_id (gs_stats gs1)) (gs_decisions gs') raw"
        using 1(1) [OF rd [symmetric] p refl h [symmetric] out refl loop mem] by blast
      have dev: "sn_device_id (gs_stats gs1) = sn_device_id (gs_stats gs)" using raws(1) by (simp add: adds_def)
      have "set (gs_decisions gs1) \<subseteq> set (gs_decisions gs')" using more(1) by (auto simp: adds_def)
      then have "\<forall>raw \<in> set (raws @ more). forwardable (sn_device_id (gs_stats gs)) (gs_decisions gs') raw"
        using raws(2) more(2) forwardable_more dev by (metis (no_types, lifting) Un_iff set_append)
      with adds_trans [OF raws(1) more(1)] show ?thesis by blast
    qed
  qed
qed

text \<open>The CONNECT the broker gets: the client's, with the device as user name and no password.\<close>

definition clean_connect :: "string \<Rightarrow> bytes \<Rightarrow> bool" where
  "clean_connect d raw \<longleftrightarrow>
     (\<exists>p c. parses_as raw p \<and> pk_type p = PT_CONNECT \<and> decode_connect p = Inr c
        \<and> cp_username c = Some d \<and> cp_password c = None \<and> cp_will_topic c = None)"

lemma built_connect_clean:
  assumes "build_connect cid (Some d) None ka cs = Inr raw" "py_text cid" "py_text d"
  shows "clean_connect d raw"
proof -
  let ?b = "be16 4 @ str_encode ''MQTT'' @ [4, connect_flags (Some d) None cs] @ be16 ka
      @ be16 (length cid) @ str_encode cid @ opt_field (map_option str_encode (Some d)) @ opt_field None"
  let ?p = "\<lparr>pk_type = PT_CONNECT, pk_flags = 0 mod 16, pk_payload = ?b, pk_raw = raw\<rparr>"
  have "parses_as raw ?p" by (rule build_packet_parses [OF build_connect_Inr(1) [OF assms(1)]])
  moreover have "decode_connect ?p = Inr \<lparr>cp_protocol_name = ''MQTT'', cp_protocol_level = 4,
     cp_connect_flags = connect_flags (Some d) None cs, cp_keep_alive = ka, cp_client_id = cid,
     cp_will_topic = None, cp_will_payload = None, cp_username = Some d, cp_password = None\<rparr>"
    using assms(2,3) by (intro decode_connect_build [OF assms(1)]) simp_all
  ultimately show ?thesis unfolding clean_connect_def by force
qed

lemma read_opt_string_text:
  "read_opt b read_string payload o1 = Inr (x, o2) \<Longrightarrow> \<forall>u. x = Some u \<longrightarrow> py_text u"
  by (auto simp: read_opt_def and_then_Inr_iff dest: read_string_text split: if_splits)

lemma decode_connect_text:
  assumes "decode_connect p = Inr c"
  shows "py_text (name_or (cp_username c) (cp_client_id c))" "py_text (cp_client_id c)"
proof -
  from assms obtain o0 o1 o2 o3 where
    "read_string (pk_payload p) o0 = Inr (cp_client_id c, o1)"
    "read_opt (cp_connect_flags c AND 0x80 \<noteq> 0) read_string (pk_payload p) o2 = Inr (cp_username c, o3)"
    by (auto simp: decode_connect_def and_then_Inr_iff Let_def split: if_splits)
  then have t: "py_text (cp_client_id c)" "\<forall>u. cp_username c = Some u \<longrightarrow> py_text u"
    using read_string_text read_opt_string_text by blast+
  then show "py_text (name_or (cp_username c) (cp_client_id c))"
    by (auto simp: name_or_def split: option.split)
  show "py_text (cp_client_id c)" by (rule t(1))
qed

text \<open>What the broker has been sent over a session.\<close>

definition broker_view :: "'st session \<Rightarrow> bool" where
  "broker_view gs \<longleftrightarrow> writer_ok (gs_client gs) \<and> writer_ok (gs_broker gs)
     \<and> (\<not> gs_opened gs \<longrightarrow> cw_sent (gs_broker gs) = [])
     \<and> (gs_opened gs \<longrightarrow> gs_decisions gs \<noteq> [] \<and> dc_action (hd (gs_decisions gs)) \<notin> set REFUSING_ACTIONS)
     \<and> (cw_sent (gs_broker gs) \<noteq> [] \<longrightarrow> clean_connect (sn_device_id (gs_stats gs)) (hd (cw_sent (gs_broker gs))))
     \<and> (\<forall>raw \<in> set (tl (cw_sent (gs_broker gs))). forwardable (sn_device_id (gs_stats gs)) (gs_decisions gs) raw)"

lemma view_quiet:
  assumes "broker_view gs" "quiet_step gs gs'"
  shows "broker_view gs'"
proof -
  from assms(2) have "set (gs_decisions gs) \<subseteq> set (gs_decisions gs')" by (rule quiet_keeps_decisions)
  then have f: "forwardable d (gs_decisions gs) raw \<Longrightarrow> forwardable d (gs_decisions gs') raw" for d raw
    by (rule forwardable_more [rotated])
  from assms(2) have "gs_decisions gs \<noteq> [] \<Longrightarrow> gs_decisions gs' \<noteq> [] \<and> hd (gs_decisions gs') = hd (gs_decisions gs)"
    by (auto simp: quiet_step_def)
  with assms f show ?thesis by (auto simp: broker_view_def quiet_step_def)
qed

lemma view_adds:
  assumes "broker_view gs" "adds gs raws gs'" "cw_sent (gs_broker gs) \<noteq> []"
    and "\<forall>raw \<in> set raws. forwardable (sn_device_id (gs_stats gs)) (gs_decisions gs') raw"
  shows "broker_view gs'"
proof -
  from assms(2) have "set (gs_decisions gs) \<subseteq> set (gs_decisions gs')" by (auto simp: adds_def)
  then have f: "forwardable d (gs_decisions gs) raw \<Longrightarrow> forwardable d (gs_decisions gs') raw" for d raw
    by (rule forwardable_more [rotated])
  from assms(2) have "gs_decisions gs \<noteq> [] \<Longrightarrow> gs_decisions gs' \<noteq> [] \<and> hd (gs_decisions gs') = hd (gs_decisions gs)"
    by (auto simp: adds_def)
  with assms f show ?thesis by (auto simp: broker_view_def adds_def)
qed

lemma view_new [simp]: "broker_view (new_session cid st)"
  by (simp add: broker_view_def new_session_def)

lemma refuse_quiet: "refuse_with code gs = (res, gs') \<Longrightarrow> quiet_step gs gs'"
  unfolding refuse_with_def by (rule quiet_of [OF _ quiet_to_client])

lemma intro_quiet:
  assumes "run_then (if dc_action dec \<in> set HELD_ACTIONS then send_challenge env d (with_stats f gs)
      else (Inr (), with_stats f gs)) (\<lambda>_ gs1. announce_decision env dec peer gs1) = (a, gs')"
    and "\<And>s. sn_device_id (f s) = sn_device_id s"
  shows "quiet_step gs gs'"
proof (rule quiet_trans [OF quiet_stats [of f gs, OF assms(2)] quiet_of [OF assms(1) quiet_run_then]])
  show "quiet_step (with_stats f gs) (snd (if dc_action dec \<in> set HELD_ACTIONS
      then send_challenge env d (with_stats f gs) else (Inr (), with_stats f gs)))"
    by (simp add: quiet_challenge)
qed (simp add: quiet_announce)

lemma session_loop_view:
  assumes "broker_view gs" "cw_sent (gs_broker gs) \<noteq> []" "dec \<in> set (gs_decisions gs)"
    and "session_loop env cx r br dec gs = (res, r', relayed, gs')"
  shows "broker_view gs'"
proof -
  let ?peer = "name_or (cx_peer cx) ''0.0.0.0''"
  obtain rl br' where pm: "pump (cx_relayed cx) br = (rl, br')" by fastforce
  let ?gs0 = "with_stats (\<lambda>s. if rl = [] then s else s\<lparr>sn_bytes_from_broker := rd_bytes_read br'\<rparr>) gs"
  let ?intro = "run_then (if dc_action dec \<in> set HELD_ACTIONS then send_challenge env (sn_device_id (gs_stats gs)) ?gs0
      else (Inr (), ?gs0)) (\<lambda>_ gs1. announce_decision env dec ?peer gs1)"
  obtain a gs2 where i: "?intro = (a, gs2)" by fastforce
  have q: "quiet_step gs gs2" by (rule intro_quiet [OF i]) simp
  have v: "broker_view gs2" by (rule view_quiet [OF assms(1) q])
  show ?thesis
  proof (cases a)
    case (Inl e)
    with assms(4) pm i v show ?thesis by (simp add: session_loop_def Let_def)
  next
    case (Inr u)
    then have l: "client_loop env (cx_packets cx) ?peer 0 r dec gs2 = (res, r', gs')"
      using assms(4) pm i by (auto simp: session_loop_def Let_def split: prod.splits)
    have "dec \<in> set (gs_decisions gs2)" using assms(3) quiet_keeps_decisions [OF q] by blast
    from client_loop_adds [OF l this] show ?thesis
      using view_adds [OF v] q assms(2) by (auto simp: quiet_step_def)
  qed
qed

lemma open_broker_view:
  assumes "broker_view gs" "\<not> gs_opened gs" "gs_decisions gs = [dec]" "dc_action dec \<notin> set REFUSING_ACTIONS"
    and "py_text (cp_client_id c)" "py_text (sn_device_id (gs_stats gs))"
    and "open_broker env cx c r dec gs = (res, r', relayed, gs')"
  shows "broker_view gs'"
proof (cases "cx_broker cx")
  case (Inl failure)
  let ?g = "close_with (''BROKER_UNREACHABLE:'' @ failure)
      (with_stats (\<lambda>s. s\<lparr>sn_connack_code := Some (connack_value CA_SERVER_UNAVAILABLE)\<rparr>) gs)"
  have "quiet_step gs ?g" by (rule quiet_trans [OF quiet_stats quiet_close]) simp
  moreover have "quiet_step ?g gs'"
    using assms(7) Inl by (auto simp: open_broker_def dest: refuse_quiet split: prod.splits)
  ultimately show ?thesis using view_quiet [OF assms(1)] quiet_trans by blast
next
  case (Inr sent)
  let ?d = "sn_device_id (gs_stats gs)" and ?gs0 = "gs\<lparr>gs_opened := True\<rparr>"
  have v0: "broker_view ?gs0" using assms(1-4) by (simp add: broker_view_def)
  show ?thesis
  proof (cases "build_connect (cp_client_id c) (Some ?d) None (cp_keep_alive c) (cp_clean_session c)")
    case (Inl e)
    with assms(7) Inr v0 show ?thesis by (simp add: open_broker_def to_broker_def Let_def)
  next
    case built: (Inr raw)
    let ?gs1 = "?gs0\<lparr>gs_broker := cw_write (gs_broker ?gs0) raw\<rparr>"
    have clean: "clean_connect ?d raw" by (rule built_connect_clean [OF built assms(5,6)])
    have v1: "broker_view ?gs1" using assms(1-4) clean by (simp add: broker_view_def)
    obtain a br where rd: "read_packet (new_reader sent) = (a, br)" by fastforce
    note eqs = assms(7) Inr built rd
    let ?close = "close_with ''BROKER_DID_NOT_ACK'' ?gs1"
    have vc: "broker_view g" if "refuse_with CA_SERVER_UNAVAILABLE ?close = (x, g)" for x g
      by (rule view_quiet [OF v1 quiet_trans [OF quiet_close refuse_quiet [OF that]]])
    consider (error) e where "a = Inl e" | (none) "a = Inr None"
      | (wrong) ack where "a = Inr (Some ack)" "pk_type ack \<noteq> PT_CONNACK"
      | (ack) ack where "a = Inr (Some ack)" "pk_type ack = PT_CONNACK"
      by (metis option.exhaust sum.exhaust)
    then show ?thesis
    proof cases
      case error
      with eqs v1 show ?thesis by (simp add: open_broker_def to_broker_def Let_def)
    next
      case none
      with eqs vc show ?thesis by (auto simp: open_broker_def to_broker_def Let_def split: prod.splits)
    next
      case wrong
      with eqs vc show ?thesis by (auto simp: open_broker_def to_broker_def Let_def split: prod.splits)
    next
      case ack
      let ?w = "with_stats (\<lambda>s. s\<lparr>sn_connack_code := connack_seen ack\<rparr>) ?gs1"
      let ?gs2 = "?w\<lparr>gs_client := cw_write (gs_client ?w) (pk_raw ack)\<rparr>"
      have "quiet_step ?gs1 ?w" by (rule quiet_stats) simp
      moreover have "quiet_step ?w ?gs2" by (simp add: quiet_step_def)
      ultimately have v2: "broker_view ?gs2" using view_quiet [OF v1] quiet_trans by blast
      have l: "session_loop env cx r br dec ?gs2 = (res, r', relayed, gs')"
        using eqs ack by (simp add: open_broker_def to_broker_def to_client_def Let_def)
      show ?thesis
        by (rule session_loop_view [OF v2 _ _ l]) (simp_all add: with_stats_def assms(3))
    qed
  qed
qed

lemma decide_from_start:
  assumes "gw_decide env el d peer ident pf res gs = (Inr dec, gs')" "gs_decisions gs = []"
  shows "gs_decisions gs' = [dec]"
  using assms by (auto simp: gw_decide_def with_stats_def split: prod.splits sum.splits)

lemma admit_view:
  assumes "broker_view gs" "\<not> gs_opened gs" "gs_decisions gs = []" "cw_sent (gs_broker gs) = []"
    and "decode_connect p = Inr c" "admit env cx c r gs = (res, r', relayed, gs')"
  shows "broker_view gs'"
proof -
  let ?d = "name_or (cp_username c) (cp_client_id c)"
  let ?gs0 = "with_stats (\<lambda>s. s\<lparr>sn_device_id := ?d, sn_connected_at := Some (cx_connected_at cx)\<rparr>) gs"
  obtain a gs1 where dec: "gw_decide env (cx_connect_ns cx) ?d (name_or (cx_peer cx) ''0.0.0.0'') (Some (cp_client_id c))
      (parse_proof ?d (cp_password c)) None ?gs0 = (a, gs1)" by fastforce
  have v0: "broker_view ?gs0" using assms(1-4) by (simp add: broker_view_def with_stats_def)
  have q: "quiet_step ?gs0 gs1" by (rule quiet_of [OF dec quiet_decide])
  have v1: "broker_view gs1" by (rule view_quiet [OF v0 q])
  have o1: "\<not> gs_opened gs1" "sn_device_id (gs_stats gs1) = ?d"
    using q assms(2) by (simp_all add: quiet_step_def with_stats_def)
  show ?thesis
  proof (cases a)
    case (Inl e)
    with assms(6) dec v1 o1 show ?thesis by (simp add: admit_def Let_def)
  next
    case (Inr d1)
    have ds: "gs_decisions gs1 = [d1]"
      by (rule decide_from_start [OF dec [unfolded Inr]]) (simp add: with_stats_def assms(3))
    show ?thesis
    proof (cases "dc_action d1 \<in> set REFUSING_ACTIONS")
      case True
      let ?g = "close_with (''CONNECT_REFUSED:'' @ action_value (dc_action d1))
          (with_stats (\<lambda>s. s\<lparr>sn_connack_code := Some (connack_value CA_NOT_AUTHORIZED)\<rparr>) gs1)"
      have "quiet_step gs1 ?g" by (rule quiet_trans [OF quiet_stats quiet_close]) simp
      moreover have "quiet_step ?g gs'"
        using assms(6) dec Inr True by (auto simp: admit_def Let_def dest: refuse_quiet split: prod.splits)
      ultimately have "quiet_step gs1 gs'" by (rule quiet_trans)
      with view_quiet [OF v1] o1 show ?thesis by (simp add: quiet_step_def)
    next
      case False
      then have o: "open_broker env cx c r d1 gs1 = (res, r', relayed, gs')"
        using assms(6) dec Inr by (simp add: admit_def Let_def)
      show ?thesis
        by (rule open_broker_view [OF v1 o1(1) ds False _ _ o])
          (simp_all add: o1(2) decode_connect_text [OF assms(5)])
    qed
  qed
qed

lemma serve_view:
  assumes "serve env cx st = (res, r', relayed, gs')"
  shows "broker_view gs'"
proof (cases "cx_times_out cx")
  case True
  with assms have "gs' = new_session (cx_id cx) st" by (simp add: serve_def Let_def)
  then show ?thesis by simp
next
  case False
  let ?gs = "new_session (cx_id cx) st"
  have quiet: "broker_view gs'" if "quiet_step ?gs gs'" by (rule view_quiet [OF view_new that])
  obtain a r where rd: "read_packet (new_reader (cx_input cx)) = (a, r)" by fastforce
  note eqs = assms False rd
  show ?thesis
  proof (cases "\<exists>p c. a = Inr (Some p) \<and> pk_type p = PT_CONNECT \<and> decode_connect p = Inr c")
    case True
    then obtain p c where p: "a = Inr (Some p)" "pk_type p = PT_CONNECT" "decode_connect p = Inr c" by blast
    with eqs have "admit env cx c r ?gs = (res, r', relayed, gs')" by (simp add: serve_def Let_def)
    from admit_view [OF view_new _ _ _ p(3) this] show ?thesis by (simp add: new_session_def)
  next
    case other: False
    have "quiet_step ?gs gs'"
      using eqs other
      by (auto simp: serve_def Let_def split: sum.splits option.splits prod.splits if_splits
          intro: quiet_trans [OF quiet_close] dest: refuse_quiet)
    then show ?thesis by (rule quiet)
  qed
qed

lemma exception_quiet: "quiet_step gs (snd (handle_exception e gs))"
  by (cases e) (auto simp: handle_exception_def refuse_with_def intro: quiet_trans [OF quiet_close quiet_to_client])

lemma handle_client_view: "broker_view (se_session (handle_client env cx st))"
proof -
  obtain res r relayed gs where s: "serve env cx st = (res, r, relayed, gs)" by (metis prod_cases4)
  have v: "broker_view gs" by (rule serve_view [OF s])
  show ?thesis
  proof (cases res)
    case (Inl e)
    obtain u gs' where x: "handle_exception e gs = (u, gs')" by fastforce
    have "broker_view gs'" by (rule view_quiet [OF v quiet_of [OF x exception_quiet]])
    with s Inl x show ?thesis by (simp add: handle_client_def)
  qed (use s v in \<open>simp add: handle_client_def\<close>)
qed

section \<open>What the client sees\<close>

lemma read_packet_input: "fst (read_packet r) = fst (read_packet (new_reader (rd_input r)))"
  by (simp add: read_packet_def new_reader_def Let_def split: list.split sum.split prod.split option.split)

text \<open>
  What \<open>pump\<close> relays of a stream: its whole packets, one after the other, as many as asked for unless no
  further packet can be read.
\<close>

definition whole_packets :: "nat \<Rightarrow> bytes list \<Rightarrow> bytes \<Rightarrow> bool" where
  "whole_packets n raws stream \<longleftrightarrow>
     (\<exists>ps rest. stream = concat raws @ rest \<and> raws = map pk_raw ps \<and> (\<forall>p \<in> set ps. parses_as (pk_raw p) p)
        \<and> (length ps = n \<or> length ps < n \<and> (\<forall>p. fst (read_packet (new_reader rest)) \<noteq> Inr (Some p))))"

lemma pump_whole_packets: "pump n r = (raws, r') \<Longrightarrow> whole_packets n raws (rd_input r)"
proof (induction n arbitrary: r raws r')
  case 0
  then show ?case by (simp add: whole_packets_def)
next
  case (Suc n)
  obtain x r1 where rd: "read_packet r = (x, r1)" by fastforce
  show ?case
  proof (cases "\<exists>p. x = Inr (Some p)")
    case True
    then obtain p qs r2 where p: "x = Inr (Some p)" "pump n r1 = (qs, r2)" by (metis prod.exhaust)
    obtain ps rest where ps: "rd_input r1 = concat qs @ rest" "qs = map pk_raw ps" "\<forall>q \<in> set ps. parses_as (pk_raw q) q"
      "length ps = n \<or> length ps < n \<and> (\<forall>q. fst (read_packet (new_reader rest)) \<noteq> Inr (Some q))"
      using Suc.IH [OF p(2)] unfolding whole_packets_def by blast
    have r: "raws = pk_raw p # qs" using Suc.prems rd p by simp
    have i: "rd_input r = pk_raw p @ rd_input r1" by (rule read_packet_SomeD(1) [OF rd [unfolded p(1)]])
    have w: "parses_as (pk_raw p) p" by (rule read_packet_parses [OF rd [unfolded p(1)]])
    show ?thesis
      unfolding whole_packets_def
      by (rule exI [of _ "p # ps"], rule exI [of _ rest]) (use r i w ps in \<open>auto\<close>)
  next
    case False
    then have "raws = []" using Suc.prems rd by (auto split: sum.splits option.splits)
    moreover have "fst (read_packet (new_reader (rd_input r))) \<noteq> Inr (Some p)" for p
      using False rd read_packet_input [of r] by simp
    ultimately show ?thesis by (simp add: whole_packets_def)
  qed
qed

text \<open>
  The broker's answer to the CONNECT, once there was one, goes to the client first, and what is relayed
  directly follows it in the broker's output; otherwise nothing is relayed.
\<close>

definition acknowledged :: "connection \<Rightarrow> 'st session \<Rightarrow> packet \<Rightarrow> bytes \<Rightarrow> bool" where
  "acknowledged cx gs ack stream \<longleftrightarrow> cw_sent (gs_broker gs) \<noteq> [] \<and> cx_broker cx = Inr (pk_raw ack @ stream)
     \<and> parses_as (pk_raw ack) ack \<and> pk_type ack = PT_CONNACK"

definition relayed_from :: "connection \<Rightarrow> bytes list \<Rightarrow> 'st session \<Rightarrow> bool" where
  "relayed_from cx relayed gs \<longleftrightarrow>
     (\<exists>ack stream own. acknowledged cx gs ack stream \<and> cw_sent (gs_client gs) = pk_raw ack # own
        \<and> whole_packets (cx_relayed cx) relayed stream)
     \<or> relayed = [] \<and> (\<forall>ack stream. \<not> acknowledged cx gs ack stream)"

lemma relayed_quiet:
  assumes "relayed_from cx relayed gs" "quiet_step gs gs'"
  shows "relayed_from cx relayed gs'"
proof -
  have a: "acknowledged cx gs' ack stream = acknowledged cx gs ack stream" for ack stream
    using assms(2) by (simp add: acknowledged_def quiet_step_def)
  obtain out where o: "cw_sent (gs_client gs') = cw_sent (gs_client gs) @ out"
    using assms(2) by (auto simp: quiet_step_def)
  from assms(1) consider "relayed = []" "\<forall>ack stream. \<not> acknowledged cx gs ack stream"
    | ack stream own where "acknowledged cx gs ack stream" "cw_sent (gs_client gs) = pk_raw ack # own"
      "whole_packets (cx_relayed cx) relayed stream"
    unfolding relayed_from_def by blast
  then show ?thesis
  proof cases
    case 1
    then show ?thesis by (simp add: relayed_from_def a)
  next
    case 2
    then have "cw_sent (gs_client gs') = pk_raw ack # (own @ out)" using o by simp
    with 2 show ?thesis unfolding relayed_from_def a by blast
  qed
qed

lemma nothing_relayed: "cw_sent (gs_broker gs) = [] \<Longrightarrow> relayed_from cx [] gs"
  by (simp add: relayed_from_def acknowledged_def)

lemma session_loop_relayed:
  assumes "session_loop env cx r br dec gs = (res, r', relayed, gs')" "dec \<in> set (gs_decisions gs)"
  shows "whole_packets (cx_relayed cx) relayed (rd_input br) \<and> (\<exists>raws. adds gs raws gs')"
proof -
  let ?peer = "name_or (cx_peer cx) ''0.0.0.0''"
  obtain rl br' where pm: "pump (cx_relayed cx) br = (rl, br')" by fastforce
  let ?gs0 = "with_stats (\<lambda>s. if rl = [] then s else s\<lparr>sn_bytes_from_broker := rd_bytes_read br'\<rparr>) gs"
  let ?intro = "run_then (if dc_action dec \<in> set HELD_ACTIONS then send_challenge env (sn_device_id (gs_stats gs)) ?gs0
      else (Inr (), ?gs0)) (\<lambda>_ gs1. announce_decision env dec ?peer gs1)"
  obtain a gs2 where i: "?intro = (a, gs2)" by fastforce
  have q: "quiet_step gs gs2" by (rule intro_quiet [OF i]) simp
  show ?thesis
  proof (cases a)
    case (Inl e)
    then have "relayed = rl" "gs' = gs2" using assms(1) pm i by (simp_all add: session_loop_def Let_def)
    then show ?thesis using pump_whole_packets [OF pm] adds_quiet [OF q] by auto
  next
    case (Inr u)
    then have l: "relayed = rl" "client_loop env (cx_packets cx) ?peer 0 r dec gs2 = (res, r', gs')"
      using assms(1) pm i by (auto simp: session_loop_def Let_def split: prod.splits)
    have "dec \<in> set (gs_decisions gs2)" using assms(2) quiet_keeps_decisions [OF q] by blast
    then obtain raws where "adds gs2 raws gs'" using client_loop_adds [OF l(2)] by blast
    then show ?thesis using pump_whole_packets [OF pm] adds_trans [OF adds_quiet [OF q]] l(1) by auto
  qed
qed

lemma open_broker_relayed:
  assumes "cw_sent (gs_broker gs) = []" "cw_sent (gs_client gs) = []" "dec \<in> set (gs_decisions gs)"
    and "open_broker env cx c r dec gs = (res, r', relayed, gs')"
  shows "relayed_from cx relayed gs'"
proof (cases "cx_broker cx")
  case (Inl failure)
  then have "relayed = []" using assms(4) by (simp add: open_broker_def split: prod.splits)
  with Inl show ?thesis by (simp add: relayed_from_def acknowledged_def)
next
  case (Inr sent)
  let ?d = "sn_device_id (gs_stats gs)" and ?gs0 = "gs\<lparr>gs_opened := True\<rparr>"
  show ?thesis
  proof (cases "build_connect (cp_client_id c) (Some ?d) None (cp_keep_alive c) (cp_clean_session c)")
    case (Inl e)
    with assms(4) Inr have "relayed = []" "gs' = ?gs0" by (simp_all add: open_broker_def to_broker_def Let_def)
    then show ?thesis using nothing_relayed [of ?gs0] assms(1) by simp
  next
    case built: (Inr raw)
    let ?gs1 = "?gs0\<lparr>gs_broker := cw_write (gs_broker ?gs0) raw\<rparr>"
    obtain a br where rd: "read_packet (new_reader sent) = (a, br)" by fastforce
    note eqs = assms(4) Inr built rd
    have first: "a = Inr (Some ack)" if "acknowledged cx gs'' ack stream" for ack stream and gs'' :: "'a session"
    proof -
      have "read_packet (new_reader (pk_raw ack)) = (Inr (Some ack), snd (read_packet (new_reader (pk_raw ack))))"
        using that by (metis acknowledged_def parses_as_def prod.collapse)
      from read_packet_local [OF this, of stream] show ?thesis using that rd Inr by (simp add: acknowledged_def)
    qed
    show ?thesis
    proof (cases "\<exists>ack. a = Inr (Some ack) \<and> pk_type ack = PT_CONNACK")
      case False
      then have "relayed = []"
        using eqs by (cases a; cases "projr a") (simp_all add: open_broker_def to_broker_def Let_def split: prod.splits)
      moreover have "\<not> acknowledged cx gs' ack stream" for ack stream
        using False first [of gs' ack stream] by (auto simp: acknowledged_def)
      ultimately show ?thesis by (simp add: relayed_from_def)
    next
      case True
      then obtain ack where ack: "a = Inr (Some ack)" "pk_type ack = PT_CONNACK" by blast
      let ?w = "with_stats (\<lambda>s. s\<lparr>sn_connack_code := connack_seen ack\<rparr>) ?gs1"
      let ?gs2 = "?w\<lparr>gs_client := cw_write (gs_client ?w) (pk_raw ack)\<rparr>"
      have l: "session_loop env cx r br dec ?gs2 = (res, r', relayed, gs')"
        using eqs ack by (simp add: open_broker_def to_broker_def to_client_def Let_def)
      have "dec \<in> set (gs_decisions ?gs2)" using assms(3) by (simp add: with_stats_def)
      from session_loop_relayed [OF l this] obtain raws where
        w: "whole_packets (cx_relayed cx) relayed (rd_input br)" "adds ?gs2 raws gs'" by blast
      have s: "sent = pk_raw ack @ rd_input br" "parses_as (pk_raw ack) ack"
        using read_packet_SomeD(1) [OF rd [unfolded ack(1)]] read_packet_parses [OF rd [unfolded ack(1)]]
        by (simp_all add: new_reader_def)
      have "acknowledged cx gs' ack (rd_input br)"
        using w(2) s Inr ack(2) by (auto simp: acknowledged_def adds_def with_stats_def)
      moreover have "\<exists>own. cw_sent (gs_client gs') = pk_raw ack # own"
        using w(2) assms(2) by (auto simp: adds_def with_stats_def)
      ultimately show ?thesis using w(1) unfolding relayed_from_def by blast
    qed
  qed
qed

lemma admit_relayed:
  assumes "cw_sent (gs_broker gs) = []" "cw_sent (gs_client gs) = []" "gs_decisions gs = []"
    and "admit env cx c r gs = (res, r', relayed, gs')"
  shows "relayed_from cx relayed gs'"
proof -
  let ?d = "name_or (cp_username c) (cp_client_id c)"
  let ?gs0 = "with_stats (\<lambda>s. s\<lparr>sn_device_id := ?d, sn_connected_at := Some (cx_connected_at cx)\<rparr>) gs"
  obtain a gs1 where dec: "gw_decide env (cx_connect_ns cx) ?d (name_or (cx_peer cx) ''0.0.0.0'') (Some (cp_client_id c))
      (parse_proof ?d (cp_password c)) None ?gs0 = (a, gs1)" by fastforce
  have b: "cw_sent (gs_broker gs1) = []" "cw_sent (gs_client gs1) = []"
    using dec assms(1,2) by (auto simp: gw_decide_def with_stats_def split: prod.splits sum.splits)
  show ?thesis
  proof (cases a)
    case (Inl e)
    with assms(4) dec b(1) show ?thesis by (auto simp: admit_def Let_def intro: nothing_relayed)
  next
    case (Inr d1)
    have ds: "gs_decisions gs1 = [d1]"
      by (rule decide_from_start [OF dec [unfolded Inr]]) (simp add: with_stats_def assms(3))
    show ?thesis
    proof (cases "dc_action d1 \<in> set REFUSING_ACTIONS")
      case True
      let ?g = "close_with (''CONNECT_REFUSED:'' @ action_value (dc_action d1))
          (with_stats (\<lambda>s. s\<lparr>sn_connack_code := Some (connack_value CA_NOT_AUTHORIZED)\<rparr>) gs1)"
      have "relayed = []" "quiet_step ?g gs'"
        using assms(4) dec Inr True by (auto simp: admit_def Let_def dest: refuse_quiet split: prod.splits)
      moreover have "quiet_step gs1 ?g" by (rule quiet_trans [OF quiet_stats quiet_close]) simp
      ultimately show ?thesis using relayed_quiet [OF nothing_relayed [OF b(1)]] quiet_trans by blast
    next
      case False
      then have "open_broker env cx c r d1 gs1 = (res, r', relayed, gs')"
        using assms(4) dec Inr by (simp add: admit_def Let_def)
      from open_broker_relayed [OF b _ this] ds show ?thesis by simp
    qed
  qed
qed

lemma serve_relayed:
  assumes "serve env cx st = (res, r', relayed, gs')"
  shows "relayed_from cx relayed gs'"
proof (cases "\<exists>p r c. read_packet (new_reader (cx_input cx)) = (Inr (Some p), r) \<and> pk_type p = PT_CONNECT
    \<and> decode_connect p = Inr c \<and> \<not> cx_times_out cx")
  case True
  then obtain c r where "admit env cx c r (new_session (cx_id cx) st) = (res, r', relayed, gs')"
    using assms by (auto simp: serve_def Let_def)
  from admit_relayed [OF _ _ _ this] show ?thesis by (simp add: new_session_def)
next
  case False
  have n: "relayed_from cx [] (new_session (cx_id cx) st)" by (rule nothing_relayed) (simp add: new_session_def)
  have "relayed = [] \<and> quiet_step (new_session (cx_id cx) st) gs'"
    using assms False
    by (auto simp: serve_def Let_def split: sum.splits option.splits prod.splits if_splits
        intro: quiet_trans [OF quiet_close] dest: refuse_quiet)
  with relayed_quiet [OF n] show ?thesis by blast
qed

lemma handle_client_relayed:
  "relayed_from cx (se_relayed (handle_client env cx st)) (se_session (handle_client env cx st))"
proof -
  obtain res r relayed gs where s: "serve env cx st = (res, r, relayed, gs)" by (metis prod_cases4)
  note v = serve_relayed [OF s]
  show ?thesis
  proof (cases res)
    case (Inl e)
    obtain u gs' where x: "handle_exception e gs = (u, gs')" by fastforce
    show ?thesis
      using relayed_quiet [OF v quiet_of [OF x exception_quiet]] s Inl x by (simp add: handle_client_def)
  qed (use s v in \<open>simp add: handle_client_def\<close>)
qed

lemma final_writer_ok: "writer_ok (gs_client gs) \<Longrightarrow> writer_ok (final_writer relayed gs)"
  unfolding final_writer_def by (induction relayed rule: rev_induct) simp_all

lemma final_writer_sent: "cw_sent (final_writer relayed gs) = cw_sent (gs_client gs) @ relayed"
  unfolding final_writer_def by (induction relayed rule: rev_induct) simp_all

text \<open>However the two writers of the client's side took turns, the bytes and packets are the same.\<close>

lemma append_in_shuffles: "xs @ ys \<in> shuffles xs ys"
  by (induction xs) (auto intro: Cons_in_shuffles_leftI)

lemma shuffles_count:
  "out \<in> shuffles xs ys \<Longrightarrow> length out = length xs + length ys
     \<and> length (concat out) = length (concat xs) + length (concat ys)"
  by (induction xs ys arbitrary: out rule: shuffles.induct) fastforce+

lemma final_counters:
  assumes "writer_ok (gs_client gs)" "out \<in> shuffles (cw_sent (gs_client gs)) relayed"
  shows "cw_bytes_written (final_writer relayed gs) = length (concat out)"
    "cw_packets_written (final_writer relayed gs) = length out"
  using final_writer_ok [OF assms(1), of relayed] shuffles_count [OF assms(2)]
  by (simp_all add: writer_ok_def final_writer_sent)

lemma handle_client_stats:
  "\<exists>r. se_stats (handle_client env cx st) =
     final_stats r (se_relayed (handle_client env cx st)) (se_session (handle_client env cx st))"
  by (auto simp: handle_client_def split: prod.split)

section \<open>An expired decision\<close>

text \<open>
  Where the decision in force has expired and the client answers with an error or a refusal, a PUBLISH or
  SUBSCRIBE goes nowhere, and the loop goes on only after a step-up response.
\<close>

definition client_refuses :: "'st gateway_env \<Rightarrow> 'st \<Rightarrow> bool" where
  "client_refuses env st \<longleftrightarrow>
     (\<forall>r dec. fst (cl_decide (ge_client env) st r) = Inr dec \<longrightarrow> dc_action dec \<in> set REFUSING_ACTIONS)"

lemma refused_refresh:
  assumes "client_refuses env (gs_state gs)" "gw_expired (pd_now pd) dec"
    and "refresh_if_needed env pd d peer res dec gs = (Inr dec', gs1)"
  shows "dc_action dec' \<in> set REFUSING_ACTIONS"
  using assms
  by (auto simp: refresh_if_needed_def gw_decide_def client_refuses_def split: prod.splits sum.splits) (metis fst_conv)+

lemma expired_forwards_nothing:
  assumes "client_refuses env (gs_state gs)" "gw_expired (pd_now pd) dec"
    and "pk_type p \<in> {PT_PUBLISH, PT_SUBSCRIBE}"
  shows "gs_broker (snd (handle_packet env pd peer dec p gs)) = gs_broker gs"
    and "fst (handle_packet env pd peer dec p gs) = Inr (Again dec') \<Longrightarrow>
      \<exists>pub. decode_publish p = Inr pub \<and> pb_topic pub = RESPONSE_TOPIC (sn_device_id (gs_stats gs))"
proof -
  have step: "quiet_step gs (snd (run_then (refresh_if_needed env pd d peer res dec gs) f))
      \<and> fst (run_then (refresh_if_needed env pd d peer res dec gs) f) \<noteq> Inr (Again dec')"
    if "\<And>x g. dc_action x \<in> set REFUSING_ACTIONS \<Longrightarrow> f x g = (Inr Leave, terminate x g)" for d res f dec'
  proof -
    obtain r gs1 where s: "refresh_if_needed env pd d peer res dec gs = (r, gs1)" by fastforce
    have q: "quiet_step gs gs1" by (rule quiet_of [OF s quiet_refresh])
    show ?thesis
    proof (cases r)
      case (Inr x)
      then have "dc_action x \<in> set REFUSING_ACTIONS" using refused_refresh [OF assms(1,2)] s by blast
      with s Inr that q show ?thesis by (simp add: quiet_trans [OF q quiet_terminate])
    qed (simp add: s q)
  qed
  have pub: "quiet_step gs (snd (handle_publish env pd peer dec p gs))
      \<and> (fst (handle_publish env pd peer dec p gs) = Inr (Again dec') \<longrightarrow>
          (\<exists>pub. decode_publish p = Inr pub \<and> pb_topic pub = RESPONSE_TOPIC (sn_device_id (gs_stats gs))))" for dec'
  proof (cases "decode_publish p")
    case (Inr pub)
    show ?thesis
    proof (cases "pb_topic pub = RESPONSE_TOPIC (sn_device_id (gs_stats gs))")
      case True
      have "quiet_step gs (snd (handle_publish env pd peer dec p gs))"
        using Inr True by (auto simp: handle_publish_def intro!: quiet_run_then quiet_step_up)
      with Inr True show ?thesis by blast
    next
      case False
      then show ?thesis using Inr step by (simp add: handle_publish_def Let_def)
    qed
  qed (simp add: handle_publish_def)
  have sub: "quiet_step gs (snd (handle_subscribe env pd peer dec p gs))
      \<and> fst (handle_subscribe env pd peer dec p gs) \<noteq> Inr (Again dec')" for dec'
  proof (cases "decode_subscribe p")
    case (Inr sub)
    then show ?thesis using step by (simp add: handle_subscribe_def)
  qed (simp add: handle_subscribe_def)
  show "gs_broker (snd (handle_packet env pd peer dec p gs)) = gs_broker gs"
    using assms(3) pub sub by (auto simp: handle_packet_def quiet_step_def)
  show "fst (handle_packet env pd peer dec p gs) = Inr (Again dec') \<Longrightarrow>
      \<exists>pub. decode_publish p = Inr pub \<and> pb_topic pub = RESPONSE_TOPIC (sn_device_id (gs_stats gs))"
    using assms(3) pub sub by (auto simp: handle_packet_def)
qed

end
