(* ===== verification/Gateway_Runs.thy ===== *)
theory Gateway_Runs
  imports Gateway_Facts Service_Runs
begin

text \<open>
  The gateway and the service together. The gateway relies on its decision client through a contract:
  an invariant the client keeps and a law its decisions obey. Whatever the contract, it holds of every
  decision of a session; the in-process client (\<^verbatim>\<open>decision_client.py\<close>) on a reachable state of the service
  meets it, with the policy matrix as the law.
\<close>

section \<open>The contract of a decision client\<close>

definition session_inv :: "('st \<Rightarrow> bool) \<Rightarrow> (string \<Rightarrow> decision \<Rightarrow> bool) \<Rightarrow> 'st session \<Rightarrow> bool" where
  "session_inv kept good gs \<longleftrightarrow> kept (gs_state gs)
     \<and> (\<forall>dec \<in> set (gs_decisions gs). good (sn_device_id (gs_stats gs)) dec)"

locale decision_source =
  fixes client :: "'st decision_client"
    and kept :: "'st \<Rightarrow> bool"
    and good :: "string \<Rightarrow> decision \<Rightarrow> bool"
  assumes decide_keeps: "kept st \<Longrightarrow> kept (snd (cl_decide client st r))"
    and nonce_keeps: "kept st \<Longrightarrow> kept (snd (cl_issue_nonce client st d))"
    and decide_good: "kept st \<Longrightarrow> fst (cl_decide client st r) = Inr dec \<Longrightarrow> good (dr_device_id r) dec"
begin

abbreviation ok :: "'st session \<Rightarrow> bool" where
  "ok \<equiv> session_inv kept good"

lemma ok_same:
  assumes "ok gs" "gs_state gs' = gs_state gs" "gs_decisions gs' = gs_decisions gs"
    and "sn_device_id (gs_stats gs') = sn_device_id (gs_stats gs)"
  shows "ok gs'"
  using assms by (simp add: session_inv_def)

lemma ok_stats: "ok gs \<Longrightarrow> (\<And>s. sn_device_id (f s) = sn_device_id s) \<Longrightarrow> ok (with_stats f gs)"
  by (rule ok_same) (simp_all add: with_stats_def)

lemma ok_close: "ok gs \<Longrightarrow> ok (close_with reason gs)"
  by (simp add: close_with_def ok_stats)

lemma ok_terminate: "ok gs \<Longrightarrow> ok (terminate dec gs)"
  by (simp add: terminate_def ok_close)

lemma ok_denial: "ok gs \<Longrightarrow> ok (record_denial at dec op res reason gs)"
  by (rule ok_same) (simp_all add: record_denial_def)

lemma ok_to_client: "ok gs \<Longrightarrow> ok (snd (to_client built gs))"
  by (cases built) (simp_all add: session_inv_def to_client_def)

lemma ok_to_broker: "ok gs \<Longrightarrow> ok (snd (to_broker built gs))"
  by (cases built) (simp_all add: session_inv_def to_broker_def)

lemma ok_acknowledge: "ok gs \<Longrightarrow> ok (snd (acknowledge pub gs))"
  by (simp add: acknowledge_def ok_to_client split: option.split)

lemma ok_run_then:
  "ok (snd x) \<Longrightarrow> (\<And>a s. x = (Inr a, s) \<Longrightarrow> ok s \<Longrightarrow> ok (snd (f a s))) \<Longrightarrow> ok (snd (run_then x f))"
  by (rule run_then_state [where P = ok]) auto

lemma ok_of: "x = (a, gs') \<Longrightarrow> ok (snd x) \<Longrightarrow> ok gs'"
  by simp

lemma ok_decide:
  assumes "ge_client env = client" "ok gs" "d = sn_device_id (gs_stats gs)"
  shows "ok (snd (gw_decide env el d peer ident pf res gs))"
proof -
  let ?r = "\<lparr>dr_device_id = d, dr_peer_address = peer, dr_domain = gc_declared_domain (ge_config env),
       dr_session_identity = ident, dr_proof = pf, dr_resource = res,
       dr_strategy = gc_strategy (ge_config env), dr_at = None\<rparr>"
  obtain r st where c: "cl_decide client (gs_state gs) ?r = (r, st)" by fastforce
  have i: "kept st" using decide_keeps [of "gs_state gs" ?r] c assms(2) by (simp add: session_inv_def)
  show ?thesis
  proof (cases r)
    case (Inl e)
    with c i assms show ?thesis by (simp add: gw_decide_def session_inv_def)
  next
    case (Inr dec)
    with decide_good [of "gs_state gs" ?r dec] c assms(2) have "good d dec" by (simp add: session_inv_def)
    with Inr c i assms show ?thesis by (simp add: gw_decide_def session_inv_def with_stats_def)
  qed
qed

lemma ok_refresh:
  "ge_client env = client \<Longrightarrow> ok gs \<Longrightarrow> d = sn_device_id (gs_stats gs) \<Longrightarrow>
     ok (snd (refresh_if_needed env pd d peer res dec gs))"
  by (simp add: refresh_if_needed_def ok_decide)

lemma ok_announce: "ok gs \<Longrightarrow> ok (snd (announce_decision env dec peer gs))"
  by (simp add: announce_decision_def ok_to_client)

lemma ok_challenge:
  assumes "ge_client env = client" "ok gs"
  shows "ok (snd (send_challenge env d gs))"
proof -
  obtain r st where c: "cl_issue_nonce client (gs_state gs) d = (r, st)" by fastforce
  have "kept st" using nonce_keeps [of "gs_state gs" d] c assms(2) by (simp add: session_inv_def)
  with assms(2) have o: "ok (gs\<lparr>gs_state := st\<rparr>)" by (simp add: session_inv_def)
  show ?thesis
  proof (cases r)
    case (Inl e)
    with c o assms(1) show ?thesis by (cases e) (simp_all add: send_challenge_def)
  next
    case (Inr ne)
    obtain n t where "ne = (n, t)" by fastforce
    with c Inr o assms(1) show ?thesis
      by (auto simp: send_challenge_def Let_def intro!: ok_run_then ok_to_client ok_stats)
  qed
qed

lemma ok_step_up:
  assumes "ge_client env = client" "ok gs"
  shows "ok (snd (handle_step_up_response env pd peer dec pub gs))"
proof (cases "step_up_proof env (sn_device_id (gs_stats gs)) (pb_payload pub)")
  case (Inl e)
  with assms show ?thesis by (cases e) (simp_all add: handle_step_up_response_def Let_def ok_stats)
next
  case (Inr pf)
  with assms show ?thesis
    by (auto simp: handle_step_up_response_def Let_def intro!: ok_run_then ok_decide ok_announce ok_stats)
qed

lemma ok_review: "ok gs \<Longrightarrow> ok (snd (snd (review pd dec k subs gs)))"
proof (induction subs arbitrary: k gs)
  case (Cons fq subs)
  obtain f q where fq: "fq = (f, q)" by fastforce
  have "ok (snd (snd (review pd dec k subs
      (with_stats (\<lambda>s. s\<lparr>sn_subscriptions_allowed := sn_subscriptions_allowed s + 1\<rparr>) gs))))"
    by (intro Cons.IH ok_stats Cons.prems) simp
  moreover have "ok (snd (snd (review pd dec (Suc k) subs
      (record_denial (pd_denied_at pd k) dec ''SUBSCRIBE'' f (snd (authorise dec f))
        (with_stats (\<lambda>s. s\<lparr>sn_subscriptions_denied := sn_subscriptions_denied s + 1\<rparr>) gs)))))"
    by (intro Cons.IH ok_denial ok_stats Cons.prems) simp
  ultimately show ?case
    unfolding fq by (auto split: prod.splits)
qed simp

lemma ok_publish:
  assumes "ge_client env = client" "ok gs"
  shows "ok (snd (handle_publish env pd peer dec p gs))"
proof (cases "decode_publish p")
  case (Inr pub)
  have resp: "ok (snd (run_then (handle_step_up_response env pd peer dec pub gs) (\<lambda>dec' gs1.
      run_then (acknowledge pub gs1) (\<lambda>_ gs2. if dc_action dec' \<in> set REFUSING_ACTIONS
        then (Inr Leave, terminate dec' gs2) else (Inr (Again dec'), gs2)))))"
    by (auto intro!: ok_run_then ok_step_up [OF assms] ok_acknowledge ok_terminate)
  have plain: "ok (snd (run_then (refresh_if_needed env pd (sn_device_id (gs_stats gs)) peer (pb_topic pub) dec gs) f))"
    if "\<And>dec' gs1. ok gs1 \<Longrightarrow> ok (snd (f dec' gs1))" for f :: "decision \<Rightarrow> 'st session \<Rightarrow> loop_next result \<times> 'st session"
    using that by (intro ok_run_then ok_refresh assms) simp_all
  from Inr resp show ?thesis
    by (auto simp: handle_publish_def Let_def
        intro!: plain ok_run_then ok_acknowledge ok_terminate ok_denial ok_to_broker ok_stats)
qed (simp add: handle_publish_def assms)

lemma ok_subscribe:
  assumes "ge_client env = client" "ok gs"
  shows "ok (snd (handle_subscribe env pd peer dec p gs))"
proof (cases "decode_subscribe p")
  case (Inr sub)
  show ?thesis
    unfolding handle_subscribe_def Inr
  proof (simp, rule ok_run_then)
    show "ok (snd (refresh_if_needed env pd (sn_device_id (gs_stats gs)) peer (fst (hd (sb_subscriptions sub))) dec gs))"
      by (rule ok_refresh) (simp_all add: assms)
  next
    fix dec' gs1
    assume g: "ok gs1"
    obtain granted codes gs2 where rv: "review pd dec' 0 (sb_subscriptions sub) gs1 = (granted, codes, gs2)"
      by (metis prod_cases3)
    have "ok gs2" using ok_review [OF g, of pd dec' 0 "sb_subscriptions sub"] rv by simp
    then show "ok (snd (if dc_action dec' \<in> set REFUSING_ACTIONS then (Inr Leave, terminate dec' gs1)
        else case review pd dec' 0 (sb_subscriptions sub) gs1 of (granted, codes, gs2) \<Rightarrow>
          if granted \<noteq> [] then
            run_then (to_broker (forward_subscribe (sb_packet_id sub) granted) gs2) (\<lambda>_ gs3.
              run_then (if length granted \<noteq> length (sb_subscriptions sub)
                        then to_client (build_suback (sb_packet_id sub) codes) gs3 else (Inr (), gs3))
                (\<lambda>_ gs4. (Inr (Again dec'), gs4)))
          else run_then (to_client (build_suback (sb_packet_id sub) codes) gs2) (\<lambda>_ gs3. (Inr (Again dec'), gs3))))"
      using g rv by (auto intro!: ok_run_then ok_terminate ok_to_broker ok_to_client)
  qed
qed (simp add: handle_subscribe_def assms)

lemma ok_packet:
  "ge_client env = client \<Longrightarrow> ok gs \<Longrightarrow> ok (snd (handle_packet env pd peer dec p gs))"
  by (auto simp: handle_packet_def Let_def intro!: ok_run_then ok_to_broker ok_close ok_publish ok_subscribe)

lemma ok_loop:
  "ge_client env = client \<Longrightarrow> ok gs \<Longrightarrow> client_loop env pds peer n r dec gs = (res, r', gs') \<Longrightarrow> ok gs'"
proof (induction env pds peer n r dec gs arbitrary: res r' gs' rule: client_loop.induct)
  case (1 env pds peer n r dec gs)
  obtain x r1 where rd: "read_packet r = (x, r1)" by fastforce
  show ?case
  proof (cases "\<exists>p. x = Inr (Some p)")
    case False
    with 1(3,4) rd show ?thesis
      by (subst (asm) client_loop.simps) (auto split: sum.splits option.splits if_splits intro: ok_close)
  next
    case True
    then obtain p where p: "x = Inr (Some p)" by blast
    obtain out gs1 where h: "handle_packet env (pds n) peer dec p gs = (out, gs1)" by fastforce
    have g: "ok gs1" by (rule ok_of [OF h ok_packet [OF 1(2,3)]])
    show ?thesis
    proof (cases "\<exists>dec'. out = Inr (Again dec')")
      case False
      with 1(4) rd p h g show ?thesis
        by (subst (asm) client_loop.simps) (auto split: sum.splits loop_next.splits)
    next
      case True
      then obtain dec' where out: "out = Inr (Again dec')" by blast
      have "client_loop env pds peer (Suc n) r1 dec' gs1 = (res, r', gs')"
        using 1(4) rd p h out by (subst (asm) client_loop.simps) simp
      with 1(1) [OF rd [symmetric] p refl h [symmetric] out refl 1(2) g] show ?thesis by blast
    qed
  qed
qed

lemma ok_refuse: "ok gs \<Longrightarrow> refuse_with code gs = (res, gs') \<Longrightarrow> ok gs'"
  unfolding refuse_with_def by (rule ok_of [OF _ ok_to_client])

lemma ok_session_loop:
  assumes "ge_client env = client" "ok gs" "session_loop env cx r br dec gs = (res, r', relayed, gs')"
  shows "ok gs'"
proof -
  let ?peer = "name_or (cx_peer cx) ''0.0.0.0''"
  obtain rl br' where pm: "pump (cx_relayed cx) br = (rl, br')" by fastforce
  let ?gs0 = "with_stats (\<lambda>s. if rl = [] then s else s\<lparr>sn_bytes_from_broker := rd_bytes_read br'\<rparr>) gs"
  let ?intro = "run_then (if dc_action dec \<in> set HELD_ACTIONS then send_challenge env (sn_device_id (gs_stats gs)) ?gs0
      else (Inr (), ?gs0)) (\<lambda>_ gs1. announce_decision env dec ?peer gs1)"
  obtain a gs2 where i: "?intro = (a, gs2)" by fastforce
  have "ok ?gs0" by (rule ok_stats [OF assms(2)]) simp
  then have "ok (snd (if dc_action dec \<in> set HELD_ACTIONS then send_challenge env (sn_device_id (gs_stats gs)) ?gs0
      else (Inr (), ?gs0)))" using ok_challenge [OF assms(1)] by simp
  then have g: "ok gs2" by (intro ok_of [OF i] ok_run_then ok_announce)
  show ?thesis
  proof (cases a)
    case (Inl e)
    with assms(3) pm i g show ?thesis by (simp add: session_loop_def Let_def)
  next
    case (Inr u)
    then have "client_loop env (cx_packets cx) ?peer 0 r dec gs2 = (res, r', gs')"
      using assms(3) pm i by (auto simp: session_loop_def Let_def split: prod.splits)
    then show ?thesis by (rule ok_loop [OF assms(1) g])
  qed
qed

lemma ok_open_broker:
  assumes "ge_client env = client" "ok gs" "open_broker env cx c r dec gs = (res, r', relayed, gs')"
  shows "ok gs'"
proof (cases "cx_broker cx")
  case (Inl failure)
  have "ok (close_with (''BROKER_UNREACHABLE:'' @ failure)
      (with_stats (\<lambda>s. s\<lparr>sn_connack_code := Some (connack_value CA_SERVER_UNAVAILABLE)\<rparr>) gs))"
    by (intro ok_close ok_stats assms(2)) simp
  with assms(3) Inl show ?thesis by (auto simp: open_broker_def dest: ok_refuse split: prod.splits)
next
  case (Inr sent)
  have g0: "ok (gs\<lparr>gs_opened := True\<rparr>)" by (rule ok_same [OF assms(2)]) simp_all
  obtain u gs1 where w: "to_broker (build_connect (cp_client_id c) (Some (sn_device_id (gs_stats gs))) None
      (cp_keep_alive c) (cp_clean_session c)) (gs\<lparr>gs_opened := True\<rparr>) = (u, gs1)" by fastforce
  have g1: "ok gs1" by (rule ok_of [OF w ok_to_broker [OF g0]])
  obtain a br where rd: "read_packet (new_reader sent) = (a, br)" by fastforce
  have loop: "ok g" if "to_client (Inr raw) (with_stats (\<lambda>s. s\<lparr>sn_connack_code := connack_seen ack\<rparr>) gs1) = (w', g0)"
    "session_loop env cx r br dec g0 = (x, y, z, g)" for raw ack w' g0 x y z g
    by (rule ok_session_loop [OF assms(1) ok_of [OF that(1) ok_to_client] that(2)]) (rule ok_stats [OF g1], simp)
  from assms(3) Inr w rd g1 show ?thesis
    by (auto simp: open_broker_def Let_def split: sum.splits option.splits prod.splits if_splits
        dest: ok_refuse [OF ok_close [OF g1]] intro: loop)
qed

lemma ok_admit:
  assumes "ge_client env = client" "kept (gs_state gs)" "gs_decisions gs = []"
    and "admit env cx c r gs = (res, r', relayed, gs')"
  shows "ok gs'"
proof -
  let ?d = "name_or (cp_username c) (cp_client_id c)"
  let ?gs0 = "with_stats (\<lambda>s. s\<lparr>sn_device_id := ?d, sn_connected_at := Some (cx_connected_at cx)\<rparr>) gs"
  obtain a gs1 where dec: "gw_decide env (cx_connect_ns cx) ?d (name_or (cx_peer cx) ''0.0.0.0'') (Some (cp_client_id c))
      (parse_proof ?d (cp_password c)) None ?gs0 = (a, gs1)" by fastforce
  have "ok ?gs0" using assms(2,3) by (simp add: session_inv_def with_stats_def)
  then have g1: "ok gs1" by (intro ok_of [OF dec] ok_decide [OF assms(1)]) (simp_all add: with_stats_def)
  have refused: "ok g" if "refuse_with CA_NOT_AUTHORIZED (close_with why
      (with_stats (\<lambda>s. s\<lparr>sn_connack_code := Some (connack_value CA_NOT_AUTHORIZED)\<rparr>) gs1)) = (x, g)" for why x g
    by (rule ok_refuse [OF _ that]) (intro ok_close ok_stats g1, simp)
  from assms(4) dec g1 show ?thesis
    by (auto simp: admit_def Let_def split: sum.splits prod.splits if_splits
        intro: refused ok_open_broker [OF assms(1) g1])
qed

lemma ok_exception: "ok gs \<Longrightarrow> ok (snd (handle_exception e gs))"
  by (cases e) (auto simp: handle_exception_def refuse_with_def intro!: ok_to_client ok_close)

lemma session_keeps_contract:
  assumes "ge_client env = client" "kept st"
  shows "ok (se_session (handle_client env cx st))"
proof -
  let ?gs = "new_session (cx_id cx) st"
  have g: "ok ?gs" using assms(2) by (simp add: session_inv_def new_session_def)
  obtain res r relayed gs where s: "serve env cx st = (res, r, relayed, gs)" by (metis prod_cases4)
  have admitted: "ok g" if "admit env cx c r ?gs = (x, y, z, g)" for c r x y z g
    by (rule ok_admit [OF assms(1) _ _ that]) (simp_all add: new_session_def assms(2))
  have "ok gs"
    using s g
    by (auto simp: serve_def Let_def split: sum.splits option.splits prod.splits if_splits
        dest: ok_refuse [OF ok_close [OF g]] intro: ok_close admitted)
  then have "ok (snd (case res of Inr u \<Rightarrow> (None, gs) | Inl e \<Rightarrow> handle_exception e gs))"
    by (simp add: ok_exception split: sum.split)
  with s show ?thesis by (auto simp: handle_client_def split: prod.splits)
qed

end

section \<open>The in-process client\<close>

text \<open>
  \<open>LocalDecisionClient\<close> on the service's state, which carries how often it was called: each call has its
  own draws.
\<close>

definition local_client ::
  "'k crypto \<Rightarrow> string \<Rightarrow> (nat \<Rightarrow> app_draws) \<Rightarrow> (nat \<Rightarrow> instant \<times> bytes) \<Rightarrow> (app_state \<times> nat) decision_client" where
  "local_client cr dflt ads nds =
     \<lparr>cl_decide = (\<lambda>(st, k) r. case local_decide cr dflt (ads k) st r of (x, st') \<Rightarrow> (x, (st', Suc k))),
      cl_issue_nonce = (\<lambda>(st, k) d. case local_issue_nonce (fst (nds k)) (snd (nds k)) st d of
                          (x, st') \<Rightarrow> (x, (st', Suc k)))\<rparr>"

text \<open>The law: a decision is about the requesting device and is the shipped matrix's answer.\<close>

definition lawful :: "string \<Rightarrow> string \<Rightarrow> decision \<Rightarrow> bool" where
  "lawful h d dec \<longleftrightarrow> dc_device_id dec = d \<and> from_matrix (shipped_matrix h) dec"

lemma enforced_lawful:
  assumes "reachable cr (shipped_settings h) st"
    and "fst (decide_and_enforce cr def ad extra st (to_access_request clk (ap_services st) r)) = Inr so"
  shows "lawful h (dr_device_id r) (so_decision so)"
proof -
  obtain m where m: "new_policy_matrix (shipped_settings h) = Inr m" "holds_matrix (shipped_settings h) m st"
    using reachable_holds [OF assms(1)] by blast
  then have sy: "sy_settings (ap_services st) = shipped_settings h" "sy_matrix (ap_services st) = shipped_matrix h"
    using shipped_matrix_loads [of h] by (simp_all add: holds_matrix_def)
  let ?toks = "case dget (ap_tokens st) (sd_name def) of None \<Rightarrow> [] | Some t \<Rightarrow> t"
  have d: "fst (decide cr def (ad_strategy ad) ?toks (ap_services st)
      (to_access_request clk (ap_services st) r)) = Inr so"
    using assms(2) by (simp add: decide_and_enforce_result run_strategy_eq Let_def)
  have "from_matrix (shipped_matrix h) (so_decision so)"
    using decide_from_matrix [OF d] by (simp add: sy)
  moreover have "dc_device_id (so_decision so) = dr_device_id r"
    using decide_device [OF d] by (simp add: sy to_access_request_def)
  ultimately show ?thesis by (simp add: lawful_def)
qed

lemma local_decide_lawful:
  assumes "reachable cr (shipped_settings h) st" "fst (local_decide cr dflt ad st r) = Inr dec"
  shows "lawful h (dr_device_id r) dec"
proof -
  from assms(2) obtain def extra so where
    "fst (decide_and_enforce cr def ad extra st (to_access_request (ad_clk_domain ad) (ap_services st) r)) = Inr so"
    "dec = so_decision so"
    by (auto simp: local_decide_def split: sum.splits prod.splits) (metis fst_conv)
  with enforced_lawful [OF assms(1)] show ?thesis by blast
qed

interpretation in_process: decision_source "local_client cr dflt ads nds"
  "\<lambda>s :: app_state \<times> nat. reachable cr (shipped_settings h) (fst s)" "lawful h" for cr dflt ads nds h
proof
  fix s :: "app_state \<times> nat" and r
  assume s: "reachable cr (shipped_settings h) (fst s)"
  obtain st k where sk: "s = (st, k)" by fastforce
  have "reachable cr (shipped_settings h) (snd (local_decide cr dflt (ads k) st r))"
    using s sk by (auto intro: reachable.step app_step.local_decide)
  then show "reachable cr (shipped_settings h) (fst (snd (cl_decide (local_client cr dflt ads nds) s r)))"
    by (auto simp: local_client_def sk split: prod.splits)
next
  fix s :: "app_state \<times> nat" and d
  assume s: "reachable cr (shipped_settings h) (fst s)"
  obtain st k where sk: "s = (st, k)" by fastforce
  have "reachable cr (shipped_settings h) (snd (local_issue_nonce (fst (nds k)) (snd (nds k)) st d))"
    using s sk by (auto intro: reachable.step app_step.local_nonce)
  then show "reachable cr (shipped_settings h) (fst (snd (cl_issue_nonce (local_client cr dflt ads nds) s d)))"
    by (auto simp: local_client_def sk split: prod.splits)
next
  fix s :: "app_state \<times> nat" and r dec
  assume s: "reachable cr (shipped_settings h) (fst s)"
    and d: "fst (cl_decide (local_client cr dflt ads nds) s r) = Inr dec"
  obtain st k where sk: "s = (st, k)" by fastforce
  have "fst (local_decide cr dflt (ads k) st r) = Inr dec"
    using d by (auto simp: local_client_def sk split: prod.splits)
  then show "lawful h (dr_device_id r) dec"
    using local_decide_lawful s by (simp add: sk)
qed

section \<open>The gateway on the shipped service\<close>

text \<open>
  Every packet after the CONNECT is unprotected, or a PUBLISH or SUBSCRIBE whose topics lie in the scope
  the policy table gives for a trust state and transition context decided for this device.
\<close>

definition within_policy :: "string \<Rightarrow> decision \<Rightarrow> string \<Rightarrow> bool" where
  "within_policy d dec topic \<longleftrightarrow>
     (let answer = policy_table (dc_trust_state dec) (dc_transition_context dec);
          sp = resolve (shipped_scope (snd answer)) d
      in fst answer \<notin> set REFUSING_ACTIONS
         \<and> (\<exists>q \<in> set (sp_allow sp). topic_matches q topic) \<and> (\<forall>q \<in> set (sp_deny sp). \<not> topic_matches q topic))"

lemma lawful_permits:
  assumes "lawful h d dec" "permits dec topic"
  shows "within_policy d dec topic"
proof -
  have f: "from_matrix (shipped_matrix h) dec" "dc_device_id dec = d" using assms(1) by (simp_all add: lawful_def)
  show ?thesis
    using assms(2) from_shipped_matrix(1,2) [OF f(1)] f(2)
    by (simp add: permits_def within_policy_def Let_def gateway_scope.permitted_iff)
qed

definition packet_within :: "'st session \<Rightarrow> packet \<Rightarrow> bool" where
  "packet_within e p \<longleftrightarrow>
     pk_type p \<in> set unprotected
     \<or> (\<exists>pub dec. pk_type p = PT_PUBLISH \<and> decode_publish p = Inr pub
          \<and> pb_topic pub \<noteq> RESPONSE_TOPIC (sn_device_id (gs_stats e)) \<and> dec \<in> set (gs_decisions e)
          \<and> within_policy (sn_device_id (gs_stats e)) dec (pb_topic pub))
     \<or> (\<exists>sub dec. pk_type p = PT_SUBSCRIBE \<and> decode_subscribe p = Inr sub \<and> dec \<in> set (gs_decisions e)
          \<and> (\<forall>(f, q) \<in> set (sb_subscriptions sub). within_policy (sn_device_id (gs_stats e)) dec f))"

text \<open>Whatever the client, if its law confines what its decisions permit, it confines the gateway.\<close>

context decision_source
begin

lemma packets_within:
  assumes "ge_client env = client" "kept st"
    and law: "\<And>d dec topic. good d dec \<Longrightarrow> permits dec topic \<Longrightarrow> within_policy d dec topic"
    and e: "e = se_session (handle_client env cx st)" "raw \<in> set (tl (cw_sent (gs_broker e)))"
  shows "\<exists>p. parses_as raw p \<and> packet_within e p"
proof -
  have v: "broker_view e" unfolding e(1) by (rule handle_client_view)
  have "session_inv kept good e" unfolding e(1) by (rule session_keeps_contract [OF assms(1,2)])
  then have l: "dec \<in> set (gs_decisions e) \<Longrightarrow> good (sn_device_id (gs_stats e)) dec" for dec
    by (simp add: session_inv_def)
  from v e(2) have f: "forwardable (sn_device_id (gs_stats e)) (gs_decisions e) raw" by (simp add: broker_view_def)
  have w: "within_policy (sn_device_id (gs_stats e)) dec t"
    if "dec \<in> set (gs_decisions e)" "permits dec t" for dec t
    using law [OF l] that by blast
  have ws: "\<forall>(f, q) \<in> set subs. within_policy (sn_device_id (gs_stats e)) dec f"
    if "dec \<in> set (gs_decisions e)" "\<forall>(f, q) \<in> set subs. permits dec f" for dec subs
    using w that by fast
  show ?thesis
    using f unfolding forwardable_def packet_within_def by (elim exE conjE disjE) (blast, (blast intro: w ws)+)
qed

end

lemma gateway_within_policy:
  assumes "ge_client env = local_client cr dflt ads nds" "reachable cr (shipped_settings h) st"
    and "e = se_session (handle_client env cx (st, k))" "raw \<in> set (tl (cw_sent (gs_broker e)))"
  shows "\<exists>p. parses_as raw p \<and> packet_within e p"
  by (rule in_process.packets_within [OF assms(1) _ lawful_permits assms(3,4)]) (use assms(2) in simp_all)

end
