(* ===== verification/Sample_Gateway.thy ===== *)
theory Sample_Gateway
  imports Sample_Run Gateway_Runs
begin

text \<open>
  One connection to the gateway, on which the hypotheses of its theorems hold: a client that always
  gives the sample decision, or always refuses, and the in-process client on the sample deployment.
\<close>

definition sample_client :: "decision \<Rightarrow> unit decision_client" where
  "sample_client dec =
     \<lparr>cl_decide = (\<lambda>st r. (Inr dec, st)), cl_issue_nonce = (\<lambda>st d. (Inr (''n'', 0), st))\<rparr>"

definition sample_env :: "'st decision_client \<Rightarrow> 'st gateway_env" where
  "sample_env client =
     \<lparr>ge_config = \<lparr>gc_declared_domain = None, gc_strategy = None\<rparr>, ge_client = client,
      ge_loads = (\<lambda>_. None), ge_dumps = (\<lambda>_. ''{}''), ge_repr = (\<lambda>_. [])\<rparr>"

definition sample_packet_draws :: packet_draws where
  "sample_packet_draws = \<lparr>pd_now = seconds 101, pd_denied_at = (\<lambda>_. seconds 101), pd_elapsed_ns = 5\<rparr>"

definition sample_connection :: connection where
  "sample_connection =
     \<lparr>cx_id = ''con-1'', cx_peer = Some ''10.0.0.2'', cx_input = [0xE0, 0x00], cx_times_out = False,
      cx_connected_at = seconds 100, cx_connect_ns = 7, cx_broker = Inr [0x20, 0x02, 0x00, 0x00],
      cx_relayed = 1, cx_packets = (\<lambda>_. sample_packet_draws)\<rparr>"

definition refusing_decision :: decision where
  "refusing_decision = sample_decision\<lparr>dc_action := DENY, dc_ttl_ms := 0\<rparr>"

definition sample_publish :: packet where
  "sample_publish = \<lparr>pk_type = PT_PUBLISH, pk_flags = 0, pk_payload = be16 1 @ str_encode ''t'' @ [1],
     pk_raw = 0x30 # varint 4 @ be16 1 @ str_encode ''t'' @ [1]\<rparr>"

lemma sample_publish_decodes:
  "decode_publish sample_publish = Inr \<lparr>pb_topic = ''t'', pb_packet_id = None, pb_payload = [1], pb_qos = 0,
     pb_retain = False, pb_dup = False\<rparr>"
  by (rule decode_publish_build [where q = 0 and pid = None and rt = False and
        raw = "0x30 # varint 4 @ be16 1 @ str_encode ''t'' @ [1]", simplified])
    (simp_all add: sample_publish_def pk_qos_def pk_retain_def pk_dup_def build_publish_def encode_string_def
      encode_field_def build_packet_Inr MAX_REMAINING_LENGTH_def py_text_def str_encode_def)

end
