(* ===== verification/Http_Client.thy ===== *)
theory Http_Client
  imports Gateway_Runs
begin

text \<open>
  The deployed arrangement of the gateway: the decision client that asks the service over HTTP
  (\<^verbatim>\<open>enforcement/decision_client.py\<close>, \<open>HttpDecisionClient\<close>), the bodies the two sides exchange
  (\<^verbatim>\<open>api/schemas.py\<close>, \<^verbatim>\<open>api/routes_research.py\<close>), and the service behind them. The HTTP library is a
  function of a world of its own; JSON text and the textual forms of instants are functions of \<open>web\<close>
  without laws, except where a lemma names the two it needs (\<open>web_laws\<close>). Query escaping in paths and the
  text of error messages are not modelled.

  Shown: whatever the transport answers, a decision the client returns was in a body of status 200; on the
  service itself the client is the in-process one up to the description of the scope, so the gateway's
  guarantees hold of the deployed arrangement.
\<close>

section \<open>Reading a decision\<close>

record web =
  wb_dumps :: "json \<Rightarrow> string"
  wb_loads :: "string \<Rightarrow> json option"
  wb_fromiso :: "string \<Rightarrow> instant option"
  wb_int :: "string \<Rightarrow> int option"
  wb_repr :: "json \<Rightarrow> string"
  wb_datetime :: "instant \<Rightarrow> string"
  wb_parse_datetime :: "string \<Rightarrow> instant option"

definition obj_of :: "json \<Rightarrow> (string, json) dict option" where
  "obj_of v = (case v of JObj kvs \<Rightarrow> Some kvs | _ \<Rightarrow> None)"

definition text_of :: "json \<Rightarrow> string option" where
  "text_of v = (case v of JStr s \<Rightarrow> Some s | _ \<Rightarrow> None)"

text \<open>\<open>int(v)\<close>; \<open>tuple(v)\<close> of text, as the model's validation then requires; \<open>str | None\<close>.\<close>

definition py_int :: "web \<Rightarrow> json \<Rightarrow> int option" where
  "py_int web v =
     (case v of JInt i \<Rightarrow> Some i | JBool b \<Rightarrow> Some (if b then 1 else 0) | JStr s \<Rightarrow> wb_int web s | _ \<Rightarrow> None)"

fun texts_of :: "json list \<Rightarrow> string list option" where
  "texts_of [] = Some []"
| "texts_of (v # vs) =
     (case (text_of v, texts_of vs) of (Some s, Some ss) \<Rightarrow> Some (s # ss) | _ \<Rightarrow> None)"

definition text_tuple :: "json \<Rightarrow> string list option" where
  "text_tuple v =
     (case v of JList vs \<Rightarrow> texts_of vs | JStr s \<Rightarrow> Some (map (\<lambda>c. [c]) s) | JObj kvs \<Rightarrow> Some (map fst kvs)
      | _ \<Rightarrow> None)"

definition maybe_text :: "json \<Rightarrow> string option option" where
  "maybe_text v = (case v of JNull \<Rightarrow> Some None | JStr s \<Rightarrow> Some (Some s) | _ \<Rightarrow> None)"

text \<open>\<open>d[k]\<close> and \<open>d.get(k, default)\<close>, followed by a reading of the value.\<close>

definition member :: "(string, json) dict \<Rightarrow> string \<Rightarrow> (json \<Rightarrow> 'a option) \<Rightarrow> 'a option" where
  "member d k f = Option.bind (dget d k) f"

definition member_or :: "(string, json) dict \<Rightarrow> string \<Rightarrow> json \<Rightarrow> (json \<Rightarrow> 'a option) \<Rightarrow> 'a option" where
  "member_or d k dflt f = f (attr_json d k dflt)"

definition scope_from :: "(string, json) dict \<Rightarrow> access_scope option" where
  "scope_from d =
     Option.bind (member d ''name'' text_of) (\<lambda>name.
     Option.bind (member_or d ''allow'' (JList []) text_tuple) (\<lambda>allow.
     Option.bind (member_or d ''deny'' (JList []) text_tuple) (\<lambda>deny.
     Some \<lparr>sp_name = name, sp_description = '''', sp_allow = allow, sp_deny = deny\<rparr>)))"

text \<open>The \<open>try\<close> of \<open>decision_from_payload\<close>: every \<open>KeyError\<close>, \<open>ValueError\<close> and \<open>TypeError\<close> is \<open>None\<close>.\<close>

definition decision_fields :: "web \<Rightarrow> (string, json) dict \<Rightarrow> decision option" where
  "decision_fields web d =
     Option.bind (member d ''scope'' obj_of) (\<lambda>scope_payload.
     Option.bind (member d ''decision_id'' text_of) (\<lambda>decision_id.
     Option.bind (member d ''device_id'' text_of) (\<lambda>device_id.
     Option.bind (member d ''strategy'' text_of) (\<lambda>strategy.
     Option.bind (member d ''trust_state'' (\<lambda>v. Option.bind (text_of v) parse_state)) (\<lambda>trust_state.
     Option.bind (member d ''transition_context'' (\<lambda>v. Option.bind (text_of v) parse_context)) (\<lambda>context.
     Option.bind (member d ''action'' (\<lambda>v. Option.bind (text_of v) parse_action)) (\<lambda>action.
     Option.bind (scope_from scope_payload) (\<lambda>scope.
     Option.bind (member d ''ttl_ms'' (py_int web)) (\<lambda>ttl_ms.
     Option.bind (member_or d ''reason_codes'' (JList []) text_tuple) (\<lambda>reason_codes.
     Option.bind (member_or d ''policy_rule_id'' (JStr '''') text_of) (\<lambda>rule_id.
     Option.bind (member_or d ''predicate_trace_id'' JNull maybe_text) (\<lambda>trace_id.
     Option.bind (member_or d ''evidence_record_id'' JNull maybe_text) (\<lambda>record_id.
     Option.bind (member d ''created_at'' (\<lambda>v. Option.bind (text_of v) (wb_fromiso web))) (\<lambda>created_at.
     Option.bind (member d ''config_hash'' text_of) (\<lambda>config_hash.
     Option.bind (member_or d ''decision_duration_ns'' (JInt 0) (py_int web)) (\<lambda>duration.
     Some \<lparr>dc_decision_id = decision_id, dc_device_id = device_id, dc_strategy = strategy,
           dc_trust_state = trust_state, dc_transition_context = context, dc_action = action,
           dc_scope = scope, dc_ttl_ms = ttl_ms, dc_reason_codes = reason_codes, dc_rule_id = rule_id,
           dc_predicate_trace_id = trace_id, dc_evidence_record_id = record_id,
           dc_created_at = created_at, dc_config_hash = config_hash,
           dc_decision_duration_ns = duration\<rparr>))))))))))))))))"

definition decision_from_payload :: "web \<Rightarrow> json \<Rightarrow> decision result" where
  "decision_from_payload web payload =
     (case Option.bind (obj_of payload) (decision_fields web) of
        None \<Rightarrow> Inl (EnforcementError ''malformed decision payload'')
      | Some d \<Rightarrow> Inr d)"

section \<open>The client\<close>

record http_answer =
  ha_status :: nat
  ha_text :: string

text \<open>A POST on a path with a JSON body, or the exception the library raises.\<close>

type_synonym 'w transport = "'w \<Rightarrow> string \<Rightarrow> json option \<Rightarrow> http_answer result \<times> 'w"

definition or_else :: "string option \<Rightarrow> string option \<Rightarrow> string option" where
  "or_else n dflt = (case n of Some s \<Rightarrow> if s = [] then dflt else n | None \<Rightarrow> dflt)"

definition proof_payload :: "proof_of_possession \<Rightarrow> json" where
  "proof_payload pf =
     JObj [(''nonce'', JStr (pp_nonce pf)), (''signature'', JStr (pp_signature pf)),
           (''algorithm'', JStr ''ed25519'')]"

definition given :: "string \<Rightarrow> ('a \<Rightarrow> json) \<Rightarrow> 'a option \<Rightarrow> (string, json) dict" where
  "given k f v = (case v of None \<Rightarrow> [] | Some x \<Rightarrow> [(k, f x)])"

definition decide_payload :: "string option \<Rightarrow> decision_request \<Rightarrow> json" where
  "decide_payload strategy r =
     JObj ([(''device_id'', JStr (dr_device_id r)), (''peer_address'', JStr (dr_peer_address r))]
       @ given ''session_identity'' JStr (dr_session_identity r)
       @ given ''strategy'' JStr (or_else (dr_strategy r) strategy)
       @ given ''domain'' (\<lambda>dm. JStr (domain_value dm)) (dr_domain r)
       @ given ''resource'' JStr (dr_resource r)
       @ given ''at'' (\<lambda>t. JStr (isoformat t)) (dr_at r)
       @ given ''proof'' proof_payload (dr_proof r))"

definition failed_request :: "string \<Rightarrow> http_answer \<Rightarrow> error" where
  "failed_request what a =
     EnforcementError (what @ '' request failed ('' @ show_nat (ha_status a) @ ''): '' @ take 200 (ha_text a))"

definition http_decide ::
    "web \<Rightarrow> 'w transport \<Rightarrow> string option \<Rightarrow> 'w \<Rightarrow> decision_request \<Rightarrow> decision result \<times> 'w" where
  "http_decide web post strategy w r =
     run_then (post w ''/v1/decisions/evaluate'' (Some (decide_payload strategy r))) (\<lambda>a w1.
       (if ha_status a \<noteq> 200 then Inl (failed_request ''decision'' a)
        else (case wb_loads web (ha_text a) of
                None \<Rightarrow> Inl (PyValueError ''invalid JSON'')
              | Some body \<Rightarrow> decision_from_payload web body), w1))"

text \<open>\<open>body[k]\<close> for any JSON value\<close>

definition json_item :: "json \<Rightarrow> string \<Rightarrow> json result" where
  "json_item body k =
     (case body of
        JObj kvs \<Rightarrow> (case dget kvs k of None \<Rightarrow> Inl (PyKeyError k) | Some v \<Rightarrow> Inr v)
      | _ \<Rightarrow> Inl (PyTypeError ''not subscriptable by a string''))"

definition nonce_path :: "string \<Rightarrow> string" where
  "nonce_path d = ''/v1/devices/'' @ d @ ''/nonce''"

definition http_issue_nonce ::
    "web \<Rightarrow> 'w transport \<Rightarrow> 'w \<Rightarrow> string \<Rightarrow> (string \<times> instant) result \<times> 'w" where
  "http_issue_nonce web post w d =
     run_then (post w (nonce_path d) None) (\<lambda>a w1.
       (if ha_status a \<noteq> 200 then Inl (failed_request ''nonce'' a)
        else (case wb_loads web (ha_text a) of
                None \<Rightarrow> Inl (PyValueError ''invalid JSON'')
              | Some body \<Rightarrow>
                  and_then (json_item body ''nonce'') (\<lambda>nonce.
                  and_then (json_item body ''expires_at'') (\<lambda>expires.
                  (case wb_fromiso web (py_str (wb_repr web) expires) of
                     None \<Rightarrow> Inl (PyValueError ''Invalid isoformat string'')
                   | Some t \<Rightarrow> Inr (py_str (wb_repr web) nonce, t))))), w1))"

definition http_client :: "web \<Rightarrow> 'w transport \<Rightarrow> string option \<Rightarrow> 'w decision_client" where
  "http_client web post strategy =
     \<lparr>cl_decide = http_decide web post strategy, cl_issue_nonce = http_issue_nonce web post\<rparr>"

section \<open>The service behind the transport\<close>

text \<open>The bodies of requests, as the schema classes read them; an unknown key is refused.\<close>

definition known_keys :: "string list \<Rightarrow> (string, json) dict \<Rightarrow> bool" where
  "known_keys ks d \<longleftrightarrow> list_all (\<lambda>kv. fst kv \<in> set ks) d"

definition parse_domain :: "string \<Rightarrow> access_domain option" where
  "parse_domain s = (if s = ''NR'' then Some NR else if s = ''WLAN'' then Some WLAN else None)"

definition nullable :: "(json \<Rightarrow> 'a option) \<Rightarrow> json \<Rightarrow> 'a option option" where
  "nullable f v = (if v = JNull then Some None else map_option Some (f v))"

definition read_proof :: "string \<Rightarrow> json \<Rightarrow> proof_of_possession option" where
  "read_proof d v =
     Option.bind (obj_of v) (\<lambda>kvs.
     if \<not> known_keys [''nonce'', ''signature'', ''algorithm''] kvs then None
     else Option.bind (member kvs ''nonce'' text_of) (\<lambda>nonce.
          Option.bind (member kvs ''signature'' text_of) (\<lambda>signature.
          if attr_json kvs ''algorithm'' (JStr ''ed25519'') = JStr ''ed25519'' then
            Some \<lparr>pp_device_id = d, pp_nonce = nonce, pp_signature = signature\<rparr>
          else None)))"

definition request_keys :: "string list" where
  "request_keys = [''device_id'', ''peer_address'', ''domain'', ''session_identity'', ''proof'', ''resource'',
     ''at'', ''strategy'']"

definition evaluate_request :: "web \<Rightarrow> json \<Rightarrow> decision_request option" where
  "evaluate_request web v =
     Option.bind (obj_of v) (\<lambda>d.
     if \<not> known_keys request_keys d then None
     else Option.bind (member d ''device_id'' text_of) (\<lambda>device_id.
          Option.bind (member d ''peer_address'' text_of) (\<lambda>peer_address.
          Option.bind (member_or d ''domain'' JNull (nullable (\<lambda>x. Option.bind (text_of x) parse_domain))) (\<lambda>domain.
          Option.bind (member_or d ''session_identity'' JNull maybe_text) (\<lambda>session_identity.
          Option.bind (member_or d ''proof'' JNull (nullable (read_proof device_id))) (\<lambda>proof.
          Option.bind (member_or d ''resource'' JNull maybe_text) (\<lambda>resource.
          Option.bind (member_or d ''at'' JNull
            (nullable (\<lambda>x. Option.bind (text_of x) (wb_parse_datetime web)))) (\<lambda>at.
          Option.bind (member_or d ''strategy'' JNull maybe_text) (\<lambda>strategy.
          Some \<lparr>dr_device_id = device_id, dr_peer_address = peer_address, dr_domain = domain,
                dr_session_identity = session_identity, dr_proof = proof, dr_resource = resource,
                dr_strategy = strategy, dr_at = at\<rparr>)))))))))"

text \<open>\<open>_decision_response\<close> and \<open>NonceResponse\<close>, as FastAPI renders them.\<close>

definition decision_response :: "web \<Rightarrow> decision \<Rightarrow> json" where
  "decision_response web d =
     JObj [(''decision_id'', JStr (dc_decision_id d)), (''device_id'', JStr (dc_device_id d)),
       (''strategy'', JStr (dc_strategy d)), (''trust_state'', JStr (state_value (dc_trust_state d))),
       (''transition_context'', JStr (context_value (dc_transition_context d))),
       (''action'', JStr (action_value (dc_action d))),
       (''scope'', JObj [(''name'', JStr (sp_name (dc_scope d))), (''allow'', strs (sp_allow (dc_scope d))),
                         (''deny'', strs (sp_deny (dc_scope d)))]),
       (''ttl_ms'', JInt (dc_ttl_ms d)), (''reason_codes'', strs (dc_reason_codes d)),
       (''policy_rule_id'', JStr (dc_rule_id d)),
       (''predicate_trace_id'', opt_json (dc_predicate_trace_id d)),
       (''evidence_record_id'', opt_json (dc_evidence_record_id d)),
       (''created_at'', JStr (wb_datetime web (dc_created_at d))),
       (''config_hash'', JStr (dc_config_hash d)),
       (''decision_duration_ns'', JInt (dc_decision_duration_ns d))]"

definition nonce_response :: "web \<Rightarrow> string \<Rightarrow> string \<times> instant \<Rightarrow> json" where
  "nonce_response web d ne =
     JObj [(''device_id'', JStr d), (''nonce'', JStr (fst ne)),
       (''expires_at'', JStr (wb_datetime web (snd ne))), (''algorithm'', JStr ''ed25519'')]"

definition answer_of :: "web \<Rightarrow> ('a \<Rightarrow> json) \<Rightarrow> 'a response \<Rightarrow> http_answer" where
  "answer_of web f r =
     \<lparr>ha_status = status_of r,
      ha_text = wb_dumps web (case r of
          Ok x \<Rightarrow> f x
        | HttpError _ m \<Rightarrow> JObj [(''detail'', JStr m)]
        | DomainError c \<Rightarrow> JObj [(''code'', JStr c)]
        | ServerError \<Rightarrow> JStr ''Internal Server Error'')\<rparr>"

definition nonce_device :: "string \<Rightarrow> string option" where
  "nonce_device path =
     (case split_on CHR ''/'' path of
        [a, v, b, d, c] \<Rightarrow>
          if a = '''' \<and> v = ''v1'' \<and> b = ''devices'' \<and> c = ''nonce'' then Some d else None
      | _ \<Rightarrow> None)"

text \<open>The two routes the client uses, on the service's state and the number of requests so far.\<close>

definition service_transport ::
    "web \<Rightarrow> 'k crypto \<Rightarrow> (nat \<Rightarrow> app_draws) \<Rightarrow> (nat \<Rightarrow> instant \<times> bytes) \<Rightarrow> (app_state \<times> nat) transport" where
  "service_transport web cr ads nds x path body =
     (case x of (st, k) \<Rightarrow>
       if path = ''/v1/decisions/evaluate'' then
         (case Option.bind body (evaluate_request web) of
            None \<Rightarrow> (Inr \<lparr>ha_status = 422, ha_text = wb_dumps web (JObj [(''detail'', JNull)])\<rparr>, (st, Suc k))
          | Some r \<Rightarrow>
              (case route_decide cr (ads k) st r of
                 (resp, st') \<Rightarrow> (Inr (answer_of web (decision_response web) resp), (st', Suc k))))
       else (case nonce_device path of
               None \<Rightarrow> (Inr \<lparr>ha_status = 404, ha_text = wb_dumps web (JObj [(''detail'', JStr ''Not Found'')])\<rparr>,
                        (st, Suc k))
             | Some d \<Rightarrow>
                 (case route_nonce (fst (nds k)) (snd (nds k)) st d of
                    (resp, st') \<Rightarrow> (Inr (answer_of web (nonce_response web d) resp), (st', Suc k)))))"

section \<open>Bodies arrive as they were sent\<close>

text \<open>What is assumed of the libraries: JSON text and rendered instants are read back as they were written.\<close>

definition web_laws :: "web \<Rightarrow> bool" where
  "web_laws web \<longleftrightarrow>
     (\<forall>v. wb_loads web (wb_dumps web v) = Some v)
     \<and> (\<forall>t. wb_fromiso web (wb_datetime web t) = Some t)"

lemma texts_of_strs: "texts_of (map JStr xs) = Some xs"
  by (induction xs) (simp_all add: text_of_def)

lemma readings [simp]:
  "obj_of (JObj kvs) = Some kvs" "text_of (JStr s) = Some s" "py_int web (JInt i) = Some i"
  "maybe_text (JStr s) = Some (Some s)" "maybe_text JNull = Some None"
  "nullable f JNull = Some None" "text_tuple (strs xs) = Some xs"
  by (simp_all add: obj_of_def text_of_def py_int_def maybe_text_def nullable_def text_tuple_def strs_def
      texts_of_strs)

lemma maybe_text_opt [simp]: "maybe_text (opt_json v) = Some v"
  by (cases v) simp_all

lemma parse_domain_value [simp]: "parse_domain (domain_value dm) = Some dm"
  by (cases dm) (simp_all add: parse_domain_def)

text \<open>The description of a scope is not served.\<close>

definition undescribed :: "decision \<Rightarrow> decision" where
  "undescribed d = d\<lparr>dc_scope := (dc_scope d)\<lparr>sp_description := ''''\<rparr>\<rparr>"

lemma decision_body_roundtrip:
  assumes "wb_fromiso web (wb_datetime web (dc_created_at d)) = Some (dc_created_at d)"
  shows "decision_from_payload web (decision_response web d) = Inr (undescribed d)"
  by (simp add: decision_from_payload_def decision_response_def decision_fields_def scope_from_def member_def
      member_or_def attr_json_def undescribed_def assms)

lemma dget_given:
  "dget (given k f v @ d) k' = (if k = k' then (case v of None \<Rightarrow> dget d k' | Some x \<Rightarrow> Some (f x)) else dget d k')"
  by (simp add: given_def split: option.split)

lemma attr_given:
  "attr_json (given k f v @ d) k' dflt =
     (if k = k' then (case v of None \<Rightarrow> attr_json d k' dflt | Some x \<Rightarrow> f x) else attr_json d k' dflt)"
  "attr_json (given k f v) k' dflt = (if k = k' then (case v of None \<Rightarrow> dflt | Some x \<Rightarrow> f x) else dflt)"
  "attr_json ((k, w) # d) k' dflt = (if k = k' then w else attr_json d k' dflt)"
  by (auto simp: attr_json_def given_def split: option.split)

lemma known_given:
  "known_keys ks (given k f v @ d) \<longleftrightarrow> (v = None \<or> k \<in> set ks) \<and> known_keys ks d"
  "known_keys ks (given k f v) \<longleftrightarrow> v = None \<or> k \<in> set ks"
  "known_keys ks ((k, w) # d) \<longleftrightarrow> k \<in> set ks \<and> known_keys ks d"
  by (auto simp: known_keys_def given_def split: option.split)

text \<open>The request the service reads: the client's default strategy is filled in, a proof speaks for the
  device of the request, and an explicit instant is read from its text.\<close>

definition sent_request :: "string option \<Rightarrow> decision_request \<Rightarrow> decision_request" where
  "sent_request strategy r =
     r\<lparr>dr_strategy := or_else (dr_strategy r) strategy,
       dr_proof := map_option (\<lambda>p. p\<lparr>pp_device_id := dr_device_id r\<rparr>) (dr_proof r)\<rparr>"

definition read_at :: "web \<Rightarrow> decision_request \<Rightarrow> instant option option" where
  "read_at web r =
     (case dr_at r of None \<Rightarrow> Some None | Some t \<Rightarrow> map_option Some (wb_parse_datetime web (isoformat t)))"

lemma read_sent_proof: "read_proof d (proof_payload p) = Some (p\<lparr>pp_device_id := d\<rparr>)"
  by (simp add: read_proof_def proof_payload_def known_keys_def member_def attr_json_def)

lemma sent_field:
  "(case v of None \<Rightarrow> JNull | Some x \<Rightarrow> JStr x) = opt_json v"
  by (cases v) simp_all

lemma sent_nullable:
  assumes "\<And>x. f (g x) = Some (h x)" "\<And>x. g x \<noteq> JNull"
  shows "nullable f (case v of None \<Rightarrow> JNull | Some x \<Rightarrow> g x) = Some (map_option h v)"
  using assms by (cases v) (simp_all add: nullable_def)

lemma request_body_read:
  "evaluate_request web (decide_payload strategy r) =
     map_option (\<lambda>at. (sent_request strategy r)\<lparr>dr_at := at\<rparr>) (read_at web r)"
proof -
  have dm: "nullable (\<lambda>x. Option.bind (text_of x) parse_domain)
      (case v of None \<Rightarrow> JNull | Some dm \<Rightarrow> JStr (domain_value dm)) = Some v" for v
    using sent_nullable [of "\<lambda>x. Option.bind (text_of x) parse_domain" "\<lambda>dm. JStr (domain_value dm)" "\<lambda>x. x" v]
    by (simp add: option.map_ident)
  have dt: "nullable (\<lambda>x. Option.bind (text_of x) (wb_parse_datetime web))
      (case dr_at r of None \<Rightarrow> JNull | Some t \<Rightarrow> JStr (isoformat t)) = read_at web r"
    by (simp add: nullable_def read_at_def split: option.split)
  have pf: "nullable (read_proof d) (case v of None \<Rightarrow> JNull | Some p \<Rightarrow> proof_payload p) =
      Some (map_option (\<lambda>p. p\<lparr>pp_device_id := d\<rparr>) v)" for d v
    using sent_nullable [of "read_proof d" proof_payload "\<lambda>p. p\<lparr>pp_device_id := d\<rparr>" v] read_sent_proof
    by (simp add: proof_payload_def)
  show ?thesis
    by (simp add: evaluate_request_def decide_payload_def request_keys_def known_given member_def dget_given
        member_or_def attr_given sent_field dm dt pf sent_request_def cong: option.case_cong)
      (simp add: option.map_comp map_option_case Option.bind_eq_None_conv split: option.split)
qed

lemma request_body_roundtrip:
  "read_at web r = Some (dr_at r) \<Longrightarrow> evaluate_request web (decide_payload strategy r) = Some (sent_request strategy r)"
  by (simp add: request_body_read sent_request_def)

section \<open>The client on the service\<close>

lemma route_decide_status:
  "status_of (fst (route_decide cr ad st r)) = 200 \<longleftrightarrow> (\<exists>d. fst (route_decide cr ad st r) = Ok d)"
  by (auto simp: route_decide_def Let_def status_of_def of_error_def
      split: sum.splits error.splits prod.splits option.splits)

lemma route_nonce_status:
  "status_of (fst (route_nonce now raw st d)) = 200 \<longleftrightarrow> (\<exists>x. fst (route_nonce now raw st d) = Ok x)"
  by (auto simp: route_nonce_def not_found_def status_of_def split: prod.split)

lemma http_decide_on_service:
  assumes "web_laws web" "read_at web r = Some at"
    and "x = route_decide cr (ads k) st ((sent_request strategy r)\<lparr>dr_at := at\<rparr>)"
  shows "http_decide web (service_transport web cr ads nds) strategy (st, k) r =
    ((case fst x of Ok d \<Rightarrow> Inr (undescribed d)
      | _ \<Rightarrow> Inl (failed_request ''decision'' (answer_of web (decision_response web) (fst x)))), (snd x, Suc k))"
proof -
  have b: "evaluate_request web (decide_payload strategy r) = Some ((sent_request strategy r)\<lparr>dr_at := at\<rparr>)"
    by (simp add: request_body_read assms(2))
  have d: "decision_from_payload web (decision_response web d) = Inr (undescribed d)" for d
    using assms(1) by (intro decision_body_roundtrip) (simp add: web_laws_def)
  have l: "wb_loads web (wb_dumps web v) = Some v" for v using assms(1) by (simp add: web_laws_def)
  have t: "service_transport web cr ads nds (st, k) ''/v1/decisions/evaluate'' (Some (decide_payload strategy r)) =
      (Inr (answer_of web (decision_response web) (fst x)), (snd x, Suc k))"
    by (simp add: service_transport_def b assms(3) split: prod.split)
  show ?thesis
    using route_decide_status [of cr "ads k" st "(sent_request strategy r)\<lparr>dr_at := at\<rparr>", folded assms(3)]
    by (cases "fst x") (simp_all add: http_decide_def t l d answer_of_def status_of_def)
qed

text \<open>An instant the service cannot read is answered with 422.\<close>

lemma http_decide_unread:
  assumes "read_at web r = None"
  shows "\<exists>m. http_decide web (service_transport web cr ads nds) strategy (st, k) r =
    (Inl (EnforcementError m), (st, Suc k))"
  using assms by (simp add: http_decide_def service_transport_def request_body_read failed_request_def)

text \<open>The same decision as in process, up to the description of its scope; the two arrangements leave the same
  state, except for what the audit log says of the request.\<close>

lemma or_else_strategy:
  "app_strategy st (or_else n strategy) = app_strategy st (Some (name_or n (name_or strategy DEFAULT_STRATEGY)))"
  by (auto simp: app_strategy_def or_else_def name_or_def DEFAULT_STRATEGY_def split: option.split)

lemma decide_and_enforce_extra:
  "fst (decide_and_enforce cr def ad extra1 st rq) = fst (decide_and_enforce cr def ad extra2 st rq)"
  "\<exists>aw. snd (decide_and_enforce cr def ad extra1 st rq) =
     (snd (decide_and_enforce cr def ad extra2 st rq))\<lparr>ap_audit := aw\<rparr>"
  by (auto simp: decide_and_enforce_def enforce_outcome_def split: prod.split sum.split)
    (metis app_state.surjective app_state.update_convs(4))

definition own_proof :: "decision_request \<Rightarrow> bool" where
  "own_proof r \<longleftrightarrow> (case dr_proof r of None \<Rightarrow> True | Some p \<Rightarrow> pp_device_id p = dr_device_id r)"

lemma sent_access_request:
  assumes "own_proof r"
  shows "to_access_request clk sy (sent_request strategy r) = to_access_request clk sy r"
  using assms by (auto simp: own_proof_def to_access_request_def sent_request_def split: option.splits)

lemma route_decide_local:
  fixes strategy :: "string option"
  assumes "own_proof r"
  defines "dflt \<equiv> name_or strategy DEFAULT_STRATEGY"
  shows "fst (route_decide cr ad st (sent_request strategy r)) = Ok d \<longleftrightarrow> fst (local_decide cr dflt ad st r) = Inr d"
    and "\<exists>aw. snd (route_decide cr ad st (sent_request strategy r)) = (snd (local_decide cr dflt ad st r))\<lparr>ap_audit := aw\<rparr>"
proof -
  let ?rq = "to_access_request (ad_clk_domain ad) (ap_services st) r"
  let ?e1 = "decision_extra (dr_peer_address r) (rq_domain ?rq) (dr_domain r)"
  let ?e2 = "\<lambda>so. with_notes [(''enforcement_point'', JStr ''mqtt'')] (so_notes so)"
  have s: "app_strategy st (or_else (dr_strategy r) strategy) = app_strategy st (Some (name_or (dr_strategy r) dflt))"
    unfolding dflt_def by (rule or_else_strategy)
  have q: "dr_strategy (sent_request strategy r) = or_else (dr_strategy r) strategy"
      "dr_peer_address (sent_request strategy r) = dr_peer_address r" "dr_domain (sent_request strategy r) = dr_domain r"
    by (simp_all add: sent_request_def)
  show "fst (route_decide cr ad st (sent_request strategy r)) = Ok d \<longleftrightarrow> fst (local_decide cr dflt ad st r) = Inr d"
  proof (cases "app_strategy st (Some (name_or (dr_strategy r) dflt))")
    case (Inl e)
    then show ?thesis by (auto simp: route_decide_def local_decide_def q s of_error_def split: error.split option.split)
  next
    case (Inr def)
    have "fst (route_decide cr ad st (sent_request strategy r)) =
        (case fst (decide_and_enforce cr def ad ?e1 st ?rq) of Inl e \<Rightarrow> of_error e | Inr so \<Rightarrow> Ok (so_decision so))"
      "fst (local_decide cr dflt ad st r) =
        (case fst (decide_and_enforce cr def ad ?e1 st ?rq) of Inl e \<Rightarrow> Inl e | Inr so \<Rightarrow> Inr (so_decision so))"
      unfolding decide_and_enforce_extra(1) [of cr def ad ?e1 st ?rq ?e2]
      using Inr decide_and_enforce_extra(1) [of cr def ad ?e1 st ?rq ?e2]
      by (auto simp: route_decide_def local_decide_def q s sent_access_request [OF assms(1)] Let_def
          split: sum.split prod.split)
    then show ?thesis by (auto simp: of_error_def split: sum.split option.split)
  qed
  show "\<exists>aw. snd (route_decide cr ad st (sent_request strategy r)) = (snd (local_decide cr dflt ad st r))\<lparr>ap_audit := aw\<rparr>"
  proof (cases "app_strategy st (Some (name_or (dr_strategy r) dflt))")
    case (Inl e)
    then have "snd (route_decide cr ad st (sent_request strategy r)) = (snd (local_decide cr dflt ad st r))\<lparr>ap_audit := ap_audit st\<rparr>"
      by (simp add: route_decide_def local_decide_def q s split: error.split)
    then show ?thesis by blast
  next
    case (Inr def)
    have "snd (route_decide cr ad st (sent_request strategy r)) = snd (decide_and_enforce cr def ad ?e1 st ?rq)"
      "snd (local_decide cr dflt ad st r) = snd (decide_and_enforce cr def ad ?e2 st ?rq)"
      using Inr by (auto simp: route_decide_def local_decide_def q s sent_access_request [OF assms(1)] Let_def
          split: sum.split prod.split)
    with decide_and_enforce_extra(2) [of cr def ad ?e1 st ?rq ?e2] show ?thesis by simp
  qed
qed

lemma http_decide_local:
  assumes "web_laws web" "own_proof r" "read_at web r = Some (dr_at r)"
    and remote_def: "remote = cl_decide (http_client web (service_transport web cr ads nds) strategy) (st, k) r"
    and here_def: "here = cl_decide (local_client cr (name_or strategy DEFAULT_STRATEGY) ads nds) (st, k) r"
  shows "fst remote = Inr d \<longleftrightarrow> (\<exists>d0. fst here = Inr d0 \<and> d = undescribed d0)"
    and "\<exists>aw. fst (snd remote) = (fst (snd here))\<lparr>ap_audit := aw\<rparr>"
    and "fst remote = Inl e \<Longrightarrow> \<exists>m. e = EnforcementError m"
proof -
  let ?x = "route_decide cr (ads k) st (sent_request strategy r)"
  let ?y = "local_decide cr (name_or strategy DEFAULT_STRATEGY) (ads k) st r"
  have sent_at: "(sent_request strategy r)\<lparr>dr_at := dr_at r\<rparr> = sent_request strategy r"
    by (simp add: sent_request_def)
  have rm: "remote = ((case fst ?x of Ok d \<Rightarrow> Inr (undescribed d)
      | _ \<Rightarrow> Inl (failed_request ''decision'' (answer_of web (decision_response web) (fst ?x)))), (snd ?x, Suc k))"
    unfolding remote_def http_client_def by (simp add: http_decide_on_service [OF assms(1,3), where x = ?x and strategy = strategy] sent_at)
  have hr: "here = (fst ?y, (snd ?y, Suc k))" by (simp add: here_def local_client_def split: prod.split)
  note rl = route_decide_local [OF assms(2), of cr "ads k" st strategy]
  show "fst remote = Inr d \<longleftrightarrow> (\<exists>d0. fst here = Inr d0 \<and> d = undescribed d0)"
    unfolding rm hr fst_conv rl(1) [symmetric] by (auto split: response.split)
  show "\<exists>aw. fst (snd remote) = (fst (snd here))\<lparr>ap_audit := aw\<rparr>"
    unfolding rm hr using rl(2) by simp
  show "\<exists>m. e = EnforcementError m" if "fst remote = Inl e"
    using that unfolding rm by (auto simp: failed_request_def split: response.splits)
qed

section \<open>The gateway in front of a remote service\<close>

definition served_lawful :: "web \<Rightarrow> string \<Rightarrow> string \<Rightarrow> decision \<Rightarrow> bool" where
  "served_lawful web h d dec \<longleftrightarrow> (web_laws web \<longrightarrow> (\<exists>d0. lawful h d d0 \<and> dec = undescribed d0))"

lemma route_decide_lawful:
  assumes "reachable cr (shipped_settings h) st" "fst (route_decide cr ad st r) = Ok dec"
  shows "lawful h (dr_device_id r) dec"
proof -
  from assms(2) obtain def so where
    "fst (decide_and_enforce cr def ad (decision_extra (dr_peer_address r)
       (rq_domain (to_access_request (ad_clk_domain ad) (ap_services st) r)) (dr_domain r)) st
       (to_access_request (ad_clk_domain ad) (ap_services st) r)) = Inr so" "dec = so_decision so"
    by (auto simp: route_decide_def of_error_def Let_def split: sum.splits prod.splits error.splits option.splits)
      (metis fst_conv)
  with enforced_lawful [OF assms(1)] show ?thesis by blast
qed

lemma transport_reachable:
  assumes "reachable cr s st"
  shows "reachable cr s (fst (snd (service_transport web cr ads nds (st, k) path body)))"
proof -
  have "reachable cr s (snd (route_decide cr (ads k) st r))" for r
    using assms by (auto intro: reachable.step app_step.decide)
  moreover have "reachable cr s (snd (route_nonce (fst (nds k)) (snd (nds k)) st d))" for d
    using assms by (auto intro: reachable.step app_step.nonce)
  ultimately show ?thesis
    using assms by (auto simp: service_transport_def split: option.split prod.split) (metis snd_conv)+
qed

lemma http_state:
  "snd (http_decide web post strategy w r) = snd (post w ''/v1/decisions/evaluate'' (Some (decide_payload strategy r)))"
  "snd (http_issue_nonce web post w d) = snd (post w (nonce_path d) None)"
  by (simp_all add: http_decide_def http_issue_nonce_def run_then_def split: prod.split sum.split)

interpretation over_http: decision_source "http_client web (service_transport web cr ads nds) strategy"
  "\<lambda>s :: app_state \<times> nat. reachable cr (shipped_settings h) (fst s)" "served_lawful web h"
  for web cr ads nds strategy h
proof
  fix s :: "app_state \<times> nat" and r
  assume "reachable cr (shipped_settings h) (fst s)"
  then show "reachable cr (shipped_settings h)
      (fst (snd (cl_decide (http_client web (service_transport web cr ads nds) strategy) s r)))"
    by (cases s) (simp add: http_client_def http_state transport_reachable)
next
  fix s :: "app_state \<times> nat" and d
  assume "reachable cr (shipped_settings h) (fst s)"
  then show "reachable cr (shipped_settings h)
      (fst (snd (cl_issue_nonce (http_client web (service_transport web cr ads nds) strategy) s d)))"
    by (cases s) (simp add: http_client_def http_state transport_reachable)
next
  fix s :: "app_state \<times> nat" and r dec
  assume s: "reachable cr (shipped_settings h) (fst s)"
    and d: "fst (cl_decide (http_client web (service_transport web cr ads nds) strategy) s r) = Inr dec"
  obtain st k where sk: "s = (st, k)" by fastforce
  have "\<exists>d0. lawful h (dr_device_id r) d0 \<and> dec = undescribed d0" if w: "web_laws web"
  proof -
    obtain at where "read_at web r = Some at"
      using d http_decide_unread [of web r cr ads nds strategy st k] unfolding sk http_client_def
      by (cases "read_at web r") auto
    from http_decide_on_service [OF w this refl, where cr = cr and ads = ads and k = k and st = st
        and strategy = strategy and nds = nds] obtain d0 where
      d0: "fst (route_decide cr (ads k) st ((sent_request strategy r)\<lparr>dr_at := at\<rparr>)) = Ok d0" "dec = undescribed d0"
      using d unfolding sk http_client_def by (auto split: response.splits)
    have "lawful h (dr_device_id ((sent_request strategy r)\<lparr>dr_at := at\<rparr>)) d0"
      using route_decide_lawful [OF _ d0(1)] s sk by simp
    with d0(2) show ?thesis by (auto simp: sent_request_def)
  qed
  then show "served_lawful web h (dr_device_id r) dec" by (simp add: served_lawful_def)
qed

lemma undescribed_permits: "permits (undescribed d) topic = permits d topic"
  by (simp add: permits_def undescribed_def scope_permits_def split: option.split)

lemma within_undescribed: "within_policy d (undescribed dec) topic = within_policy d dec topic"
  by (simp add: within_policy_def undescribed_def)

lemma remote_gateway_within_policy:
  assumes "web_laws web" "ge_client env = http_client web (service_transport web cr ads nds) strategy"
    and "reachable cr (shipped_settings h) st"
    and "e = se_session (handle_client env cx (st, k))" "raw \<in> set (tl (cw_sent (gs_broker e)))"
  shows "\<exists>p. parses_as raw p \<and> packet_within e p"
proof (rule over_http.packets_within [OF assms(2) _ _ assms(4,5)])
  show "reachable cr (shipped_settings h) (fst (st, k))" using assms(3) by simp
  show "within_policy d dec topic" if "served_lawful web h d dec" "permits dec topic" for d dec topic
    using that assms(1) lawful_permits by (auto simp: served_lawful_def undescribed_permits within_undescribed)
qed

end
