(* ===== verification/Device_Agent.thy ===== *)
theory Device_Agent
  imports Gateway_Runs
begin

text \<open>
  The device's side of the wire (\<^verbatim>\<open>device/agent.py\<close>, \<^verbatim>\<open>device/keys.py\<close>): an MQTT client that connects with a
  credential, publishes, subscribes, answers challenges and switches its access context. The stream it
  receives is given when the connection opens; a call that waits takes the number of packets that arrive
  before its deadline, and whether the wait that ends it times out. JSON text, event identifiers and
  clock readings are functions of \<open>agent_env\<close> without laws, read by the number of events recorded so far.

  Shown: packet identifiers stay in the range of the protocol, the two halves of a connection come and go
  together, and the credential and the answers to challenges are read by the gateway as the proof the
  device signed.
\<close>

section \<open>State\<close>

record agent_event =
  aev_event_id :: string
  aev_device_id :: string
  aev_kind :: string
  aev_at :: instant
  aev_monotonic_ns :: nat
  aev_detail :: "(string, json) dict"

definition event_dict :: "agent_event \<Rightarrow> (string, json) dict" where
  "event_dict e =
     fold (\<lambda>(k, v). dset k v) (aev_detail e)
       [(''event_id'', JStr (aev_event_id e)), (''device_id'', JStr (aev_device_id e)),
        (''kind'', JStr (aev_kind e)), (''at'', JStr (isoformat (aev_at e))),
        (''monotonic_ns'', JInt (int (aev_monotonic_ns e)))]"

record agent_config =
  agc_device_id :: string
  agc_client_id :: "string option"
  agc_keep_alive :: nat
  agc_source_address :: "string option"
  agc_domain :: access_domain

record agent =
  ag_config :: agent_config
  ag_sign :: "bytes \<Rightarrow> bytes"
  ag_reader :: "packet_reader option"
  ag_writer :: "counting_writer option"
  ag_packet_id :: nat
  ag_events :: "agent_event list"
  ag_connack_code :: "nat option"
  ag_last_decision :: "json option"
  ag_challenges_answered :: nat
  ag_subscription_results :: "(string, nat) dict"
  ag_recorded :: nat

record agent_env =
  ae_event :: "nat \<Rightarrow> string \<times> instant \<times> nat"
  ae_duration_ns :: "nat \<Rightarrow> nat"
  ae_loads :: "string \<Rightarrow> json option"
  ae_dumps :: "json \<Rightarrow> string"
  ae_compact :: "json \<Rightarrow> string"
  ae_repr :: "json \<Rightarrow> string"

definition new_agent :: "agent_config \<Rightarrow> (bytes \<Rightarrow> bytes) \<Rightarrow> agent" where
  "new_agent config sign =
     \<lparr>ag_config = config, ag_sign = sign, ag_reader = None, ag_writer = None, ag_packet_id = 0,
      ag_events = [], ag_connack_code = None, ag_last_decision = None, ag_challenges_answered = 0,
      ag_subscription_results = [], ag_recorded = 0\<rparr>"

abbreviation agent_id :: "agent \<Rightarrow> string" where
  "agent_id ag \<equiv> agc_device_id (ag_config ag)"

definition record_event :: "agent_env \<Rightarrow> string \<Rightarrow> (string, json) dict \<Rightarrow> agent \<Rightarrow> agent" where
  "record_event env kind detail ag =
     (case ae_event env (ag_recorded ag) of (i, at, ns) \<Rightarrow>
        ag\<lparr>ag_events := ag_events ag @
             [\<lparr>aev_event_id = i, aev_device_id = agent_id ag, aev_kind = kind, aev_at = at,
               aev_monotonic_ns = ns, aev_detail = detail\<rparr>],
           ag_recorded := Suc (ag_recorded ag)\<rparr>)"

definition drain_events :: "agent \<Rightarrow> (string, json) dict list \<times> agent" where
  "drain_events ag = (map event_dict (ag_events ag), ag\<lparr>ag_events := []\<rparr>)"

definition agent_client_id :: "agent \<Rightarrow> string" where
  "agent_client_id ag = name_or (agc_client_id (ag_config ag)) (agent_id ag)"

definition next_packet_id :: "agent \<Rightarrow> nat \<times> agent" where
  "next_packet_id ag =
     (let i = ag_packet_id ag mod 65535 + 1 in (i, ag\<lparr>ag_packet_id := i\<rparr>))"

definition elapsed :: "agent_env \<Rightarrow> agent \<Rightarrow> json" where
  "elapsed env ag = JInt (int (ae_duration_ns env (ag_recorded ag)))"

section \<open>Connecting\<close>

text \<open>Writing what a builder built, and reading the next packet; without a connection both raise.\<close>

definition agent_write :: "bytes result \<Rightarrow> agent \<Rightarrow> unit result \<times> agent" where
  "agent_write built ag =
     (case built of
        Inl e \<Rightarrow> (Inl e, ag)
      | Inr raw \<Rightarrow>
          (case ag_writer ag of
             None \<Rightarrow> (Inl (PyAttributeError ''write''), ag)
           | Some w \<Rightarrow> (Inr (), ag\<lparr>ag_writer := Some (cw_write w raw)\<rparr>)))"

definition agent_read :: "agent \<Rightarrow> packet option result \<times> agent" where
  "agent_read ag =
     (case ag_reader ag of
        None \<Rightarrow> (Inl (PyAttributeError ''read_packet''), ag)
      | Some r \<Rightarrow> (case read_packet r of (x, r') \<Rightarrow> (x, ag\<lparr>ag_reader := Some r'\<rparr>)))"

definition connect_credential :: "agent \<Rightarrow> string option \<Rightarrow> bytes option result" where
  "connect_credential ag nonce =
     (case nonce of
        None \<Rightarrow> Inr None
      | Some n \<Rightarrow>
          if n = [] then Inr None
          else and_then (credential (ag_sign ag) n) (\<lambda>c. Inr (Some (str_encode c))))"

definition connack_code :: "packet \<Rightarrow> nat option" where
  "connack_code p = (if length (pk_payload p) > 1 then Some (unat (pk_payload p ! 1)) else None)"

definition opt_code :: "nat option \<Rightarrow> json" where
  "opt_code c = (case c of None \<Rightarrow> JNull | Some n \<Rightarrow> JInt (int n))"

text \<open>\<open>opened\<close>: why the gateway cannot be reached, or what it will send; \<open>timely\<close>: it answers in time.\<close>

definition agent_connect ::
    "agent_env \<Rightarrow> string + bytes \<Rightarrow> bool \<Rightarrow> string option \<Rightarrow> agent \<Rightarrow> nat result \<times> agent" where
  "agent_connect env opened timely nonce ag =
     (case opened of
        Inl exc \<Rightarrow>
          (Inl (DeviceAgentError (''cannot reach the enforcement point: '' @ exc)),
           record_event env ''connect_failed'' [(''error'', JStr exc)] ag)
      | Inr input \<Rightarrow>
          run_then (connect_credential ag nonce,
                    ag\<lparr>ag_reader := Some (new_reader input), ag_writer := Some new_writer\<rparr>) (\<lambda>cred ag1.
          run_then (agent_write (build_connect (agent_client_id ag1) (Some (agent_id ag1)) cred
                      (agc_keep_alive (ag_config ag1)) True) ag1) (\<lambda>_ ag2.
          if \<not> timely then (Inl PyTimeoutError, ag2)
          else run_then (agent_read ag2) (\<lambda>answer ag3.
            (case answer of
               None \<Rightarrow> (Inl (DeviceAgentError ''no CONNACK received''), record_event env ''connack_missing'' [] ag3)
             | Some p \<Rightarrow>
                 if pk_type p \<noteq> PT_CONNACK then
                   (Inl (DeviceAgentError ''no CONNACK received''), record_event env ''connack_missing'' [] ag3)
                 else
                   (Inr (case connack_code p of None \<Rightarrow> 0 | Some c \<Rightarrow> c),
                    record_event env ''connected''
                      [(''connack_code'', opt_code (connack_code p)), (''duration_ns'', elapsed env ag3),
                       (''source_address'', opt_json (agc_source_address (ag_config ag3))),
                       (''domain'', JStr (domain_value (agc_domain (ag_config ag3)))),
                       (''proof_presented'', JBool (cred \<noteq> None))]
                      (ag3\<lparr>ag_connack_code := connack_code p\<rparr>)))))))"

definition agent_disconnect :: "agent_env \<Rightarrow> agent \<Rightarrow> agent" where
  "agent_disconnect env ag =
     record_event env ''disconnected'' []
       ((snd (agent_write build_disconnect ag))\<lparr>ag_reader := None, ag_writer := None\<rparr>)"

definition agent_connected :: "agent \<Rightarrow> bool" where
  "agent_connected ag \<longleftrightarrow> ag_writer ag \<noteq> None \<and> ag_connack_code ag = Some 0"

section \<open>Inbound packets\<close>

definition ends_with :: "string \<Rightarrow> string \<Rightarrow> bool" where
  "ends_with ending s \<longleftrightarrow> length ending \<le> length s \<and> drop (length s - length ending) s = ending"

text \<open>\<open>json.loads(payload.decode("utf-8"))\<close>\<close>

definition agent_body :: "agent_env \<Rightarrow> bytes \<Rightarrow> json result" where
  "agent_body env payload =
     (if \<not> utf8_valid payload then Inl (PyValueError ''payload is not UTF-8'')
      else (case ae_loads env (str_decode payload) of
              None \<Rightarrow> Inl (PyValueError ''payload is not JSON'')
            | Some v \<Rightarrow> Inr v))"

definition body_item :: "json \<Rightarrow> string \<Rightarrow> json result" where
  "body_item body k =
     (case body of
        JObj kvs \<Rightarrow> (case dget kvs k of None \<Rightarrow> Inl (PyKeyError k) | Some v \<Rightarrow> Inr v)
      | _ \<Rightarrow> Inl (PyTypeError ''body is not an object''))"

definition challenge_answer :: "agent_env \<Rightarrow> string \<Rightarrow> string \<Rightarrow> bytes" where
  "challenge_answer env nonce signature =
     str_encode (ae_dumps env (JObj [(''nonce'', JStr nonce), (''signature'', JStr signature),
       (''algorithm'', JStr ''ed25519'')]))"

definition answer_challenge :: "agent_env \<Rightarrow> bytes \<Rightarrow> agent \<Rightarrow> unit result \<times> agent" where
  "answer_challenge env payload ag =
     (case and_then (agent_body env payload) (\<lambda>body. body_item body ''nonce'') of
        Inl (PyValueError m) \<Rightarrow> (Inr (), record_event env ''challenge_malformed'' [] ag)
      | Inl (PyKeyError m) \<Rightarrow> (Inr (), record_event env ''challenge_malformed'' [] ag)
      | Inl e \<Rightarrow> (Inl e, ag)
      | Inr v \<Rightarrow>
          (let nonce = py_str (ae_repr env) v
           in if ag_writer ag = None then (Inr (), ag)
              else run_then (sign_nonce (ag_sign ag) nonce, ag) (\<lambda>signature ag1.
                   run_then (agent_write (build_publish (ctl_topic (agent_id ag1) ''response'')
                       (challenge_answer env nonce signature) 0 None False) ag1) (\<lambda>_ ag2.
                   (Inr (), record_event env ''challenge_answered'' [(''duration_ns'', elapsed env ag2)]
                      (ag2\<lparr>ag_challenges_answered := ag_challenges_answered ag2 + 1\<rparr>))))))"

text \<open>
  \<open>record("decision_received", **dict(body or {}))\<close>: a list is read as pairs, whose keys must be hashable,
  and then text; text of more than nothing is no sequence of pairs; \<open>kind\<close> and \<open>self\<close> are taken.
\<close>

fun pair_items :: "json list \<Rightarrow> (json \<times> json) list result" where
  "pair_items [] = Inr []"
| "pair_items (v # vs) =
     and_then
       (case v of
          JList [a, b] \<Rightarrow> (case a of JList _ \<Rightarrow> Inl (PyTypeError ''unhashable'') | JObj _ \<Rightarrow> Inl (PyTypeError ''unhashable'')
                          | _ \<Rightarrow> Inr (a, b))
        | JList _ \<Rightarrow> Inl (PyValueError ''2 is required'')
        | JStr [a, b] \<Rightarrow> Inr (JStr [a], JStr [b])
        | JStr _ \<Rightarrow> Inl (PyValueError ''2 is required'')
        | JObj [(a, _), (b, _)] \<Rightarrow> Inr (JStr a, JStr b)
        | JObj _ \<Rightarrow> Inl (PyValueError ''2 is required'')
        | _ \<Rightarrow> Inl (PyTypeError ''not a sequence''))
       (\<lambda>p. and_then (pair_items vs) (\<lambda>ps. Inr (p # ps)))"

fun text_keys :: "(json \<times> json) list \<Rightarrow> (string, json) dict result" where
  "text_keys [] = Inr []"
| "text_keys ((JStr k, v) # ps) = and_then (text_keys ps) (\<lambda>d. Inr ((k, v) # d))"
| "text_keys (_ # ps) = Inl (PyTypeError ''keywords must be strings'')"

definition keywords_of :: "json \<Rightarrow> (string, json) dict result" where
  "keywords_of body =
     and_then
       (if \<not> truthy body then Inr []
        else (case body of
                JObj kvs \<Rightarrow> Inr kvs
              | JList vs \<Rightarrow> and_then (pair_items vs) text_keys
              | JStr s \<Rightarrow> Inl (PyValueError ''2 is required'')
              | _ \<Rightarrow> Inl (PyTypeError ''not iterable'')))
       (\<lambda>d. if dget d ''kind'' \<noteq> None \<or> dget d ''self'' \<noteq> None
            then Inl (PyTypeError ''multiple values for an argument'') else Inr (fold (\<lambda>(k, v). dset k v) d []))"

definition take_decision_message :: "agent_env \<Rightarrow> bytes \<Rightarrow> agent \<Rightarrow> unit result \<times> agent" where
  "take_decision_message env payload ag =
     (case agent_body env payload of
        Inl e \<Rightarrow> (Inr (), ag)
      | Inr body \<Rightarrow>
          (let ag1 = ag\<lparr>ag_last_decision := Some body\<rparr>
           in case keywords_of body of
                Inl (PyValueError m) \<Rightarrow> (Inr (), ag1)
              | Inl e \<Rightarrow> (Inl e, ag1)
              | Inr detail \<Rightarrow> (Inr (), record_event env ''decision_received'' detail ag1)))"

definition dispatch :: "agent_env \<Rightarrow> packet \<Rightarrow> agent \<Rightarrow> unit result \<times> agent" where
  "dispatch env p ag =
     (if pk_type p \<noteq> PT_PUBLISH then (Inr (), ag)
      else (case decode_publish p of
              Inl e \<Rightarrow> (Inl e, ag)
            | Inr pub \<Rightarrow>
                run_then (if pb_qos pub = 1 \<and> ag_writer ag \<noteq> None then
                            (case pb_packet_id pub of None \<Rightarrow> (Inr (), ag) | Some i \<Rightarrow> agent_write (build_puback i) ag)
                          else (Inr (), ag)) (\<lambda>_ ag1.
                  if ends_with ''/challenge'' (pb_topic pub) then answer_challenge env (pb_payload pub) ag1
                  else if ends_with ''/decision'' (pb_topic pub) then take_decision_message env (pb_payload pub) ag1
                  else (Inr (), record_event env ''message_received''
                         [(''topic'', JStr (pb_topic pub)), (''bytes'', JInt (int (length (pb_payload pub))))] ag1))))"

section \<open>Operations\<close>

definition agent_publish ::
    "agent_env \<Rightarrow> string \<Rightarrow> json \<Rightarrow> nat \<Rightarrow> agent \<Rightarrow> nat option result \<times> agent" where
  "agent_publish env topic payload qos ag =
     (if ag_writer ag = None then (Inl (DeviceAgentError ''publish attempted while not connected''), ag)
      else (case (if qos > 0 then (case next_packet_id ag of (i, ag1) \<Rightarrow> (Some i, ag1)) else (None, ag)) of
              (pid, ag1) \<Rightarrow>
                run_then (agent_write (build_publish topic (str_encode (ae_compact env payload)) qos pid False) ag1)
                  (\<lambda>_ ag2.
                    (Inr pid, record_event env ''published''
                       [(''topic'', JStr topic), (''qos'', JInt (int qos)), (''packet_id'', opt_code pid),
                        (''duration_ns'', elapsed env ag2)] ag2))))"

fun subscribe_entries :: "string list \<Rightarrow> nat \<Rightarrow> bytes result" where
  "subscribe_entries [] qos = Inr []"
| "subscribe_entries (topic # topics) qos =
     and_then (encode_string topic) (\<lambda>t.
     if qos > 255 then Inl (PyValueError ''bytes must be in range(0, 256)'')
     else and_then (subscribe_entries topics qos) (\<lambda>rest. Inr (t @ [of_nat qos] @ rest)))"

definition subscribe_packet_of :: "nat \<Rightarrow> string list \<Rightarrow> nat \<Rightarrow> bytes result" where
  "subscribe_packet_of pid topics qos =
     and_then (to_bytes2 pid) (\<lambda>i. and_then (subscribe_entries topics qos) (\<lambda>b. build_packet PT_SUBSCRIBE 0x02 (i @ b)))"

text \<open>The loop that waits for the SUBACK: \<open>k\<close> packets arrive before the deadline, then the wait raises
  \<open>TimeoutError\<close> (\<open>stalls\<close>) or the deadline is noticed.\<close>

fun await_suback ::
    "agent_env \<Rightarrow> string list \<Rightarrow> bool \<Rightarrow> nat \<Rightarrow> agent \<Rightarrow> (string, nat) dict result \<times> agent" where
  "await_suback env topics stalls 0 ag =
     (Inl (if stalls then PyTimeoutError else DeviceAgentError ''timed out awaiting SUBACK''), ag)"
| "await_suback env topics stalls (Suc k) ag =
     run_then (agent_read ag) (\<lambda>answer ag1.
       case answer of
         None \<Rightarrow> (Inl (DeviceAgentError ''stream closed while awaiting SUBACK''), ag1)
       | Some p \<Rightarrow>
           if pk_type p = PT_SUBACK then
             (let codes = map unat (drop 2 (pk_payload p));
                  results = fold (\<lambda>(t, c). dset t c) (zip topics codes) []
              in (Inr results,
                  record_event env ''subscribed''
                    [(''topics'', strs topics), (''return_codes'', JList (map (\<lambda>c. JInt (int c)) codes))]
                    (ag1\<lparr>ag_subscription_results :=
                           fold (\<lambda>(t, c). dset t c) results (ag_subscription_results ag1)\<rparr>)))
           else run_then (dispatch env p ag1) (\<lambda>_ ag2. await_suback env topics stalls k ag2))"

definition agent_subscribe ::
    "agent_env \<Rightarrow> string list \<Rightarrow> nat \<Rightarrow> bool \<Rightarrow> nat \<Rightarrow> agent \<Rightarrow> (string, nat) dict result \<times> agent" where
  "agent_subscribe env topics qos stalls k ag =
     (if ag_writer ag = None \<or> ag_reader ag = None then
        (Inl (DeviceAgentError ''subscribe attempted while not connected''), ag)
      else (case next_packet_id ag of (i, ag1) \<Rightarrow>
              run_then (agent_write (subscribe_packet_of i topics qos) ag1) (\<lambda>_ ag2.
                await_suback env topics stalls k ag2)))"

definition agent_ping :: "agent_env \<Rightarrow> bool \<Rightarrow> agent \<Rightarrow> bool result \<times> agent" where
  "agent_ping env timely ag =
     (if ag_writer ag = None \<or> ag_reader ag = None then
        (Inl (DeviceAgentError ''ping attempted while not connected''), ag)
      else run_then (agent_write (build_packet PT_PINGREQ 0 []) ag) (\<lambda>_ ag1.
           if \<not> timely then (Inl PyTimeoutError, ag1)
           else run_then (agent_read ag1) (\<lambda>answer ag2.
             case answer of
               None \<Rightarrow> (Inr False, ag2)
             | Some p \<Rightarrow>
                 if pk_type p = PT_PINGRESP then (Inr True, record_event env ''ping_ok'' [] ag2)
                 else run_then (dispatch env p ag2) (\<lambda>_ ag3. (Inr False, ag3)))))"

text \<open>\<open>pump\<close>: \<open>k\<close> packets arrive before the time is over; a stream that ends inside a packet ends it too.\<close>

fun agent_pump :: "agent_env \<Rightarrow> nat \<Rightarrow> agent \<Rightarrow> unit result \<times> agent" where
  "agent_pump env 0 ag = (Inr (), ag)"
| "agent_pump env (Suc k) ag =
     (if ag_reader ag = None then (Inr (), ag)
      else (case agent_read ag of
              (Inl IncompleteReadError, ag1) \<Rightarrow> (Inr (), ag1)
            | (Inl e, ag1) \<Rightarrow> (Inl e, ag1)
            | (Inr None, ag1) \<Rightarrow> (Inr (), ag1)
            | (Inr (Some p), ag1) \<Rightarrow> run_then (dispatch env p ag1) (\<lambda>_ ag2. agent_pump env k ag2)))"

definition switch_access_context ::
    "agent_env \<Rightarrow> access_domain \<Rightarrow> string option \<Rightarrow> agent \<Rightarrow> agent" where
  "switch_access_context env dm address ag =
     record_event env ''access_context_switched''
       [(''from_domain'', JStr (domain_value (agc_domain (ag_config ag)))), (''to_domain'', JStr (domain_value dm)),
        (''from_address'', opt_json (agc_source_address (ag_config ag))), (''to_address'', opt_json address)]
       (ag\<lparr>ag_config := (ag_config ag)\<lparr>agc_domain := dm, agc_source_address := address\<rparr>\<rparr>)"

definition agent_bytes_sent :: "agent \<Rightarrow> nat" where
  "agent_bytes_sent ag = (case ag_writer ag of None \<Rightarrow> 0 | Some w \<Rightarrow> cw_bytes_written w)"

definition agent_bytes_received :: "agent \<Rightarrow> nat" where
  "agent_bytes_received ag = (case ag_reader ag of None \<Rightarrow> 0 | Some r \<Rightarrow> rd_bytes_read r)"

section \<open>What every operation keeps\<close>

definition agent_ok :: "agent \<Rightarrow> bool" where
  "agent_ok ag \<longleftrightarrow>
     ag_packet_id ag \<le> 65535
     \<and> (ag_reader ag = None \<longleftrightarrow> ag_writer ag = None)
     \<and> (case ag_writer ag of None \<Rightarrow> True | Some w \<Rightarrow> writer_ok w)
     \<and> list_all (\<lambda>e. aev_device_id e = agent_id ag) (ag_events ag)
     \<and> length (ag_events ag) \<le> ag_recorded ag"

named_theorems agent_keeps
  "the operations of the agent keep its invariant"

lemma agent_ok_new: "agent_ok (new_agent config sign)"
  by (simp add: agent_ok_def new_agent_def)

lemma record_ok [agent_keeps]: "agent_ok ag \<Longrightarrow> agent_ok (record_event env kind detail ag)"
  by (auto simp: agent_ok_def record_event_def split: prod.split)

lemma drain_ok: "agent_ok ag \<Longrightarrow> agent_ok (snd (drain_events ag))"
  by (simp add: agent_ok_def drain_events_def)

lemma next_packet_id_ok:
  "agent_ok ag \<Longrightarrow> agent_ok (snd (next_packet_id ag)) \<and> 1 \<le> fst (next_packet_id ag) \<and> fst (next_packet_id ag) \<le> 65535"
  by (simp add: agent_ok_def next_packet_id_def Let_def Suc_le_eq)

lemma write_ok [agent_keeps]: "agent_ok ag \<Longrightarrow> agent_ok (snd (agent_write built ag))"
  by (auto simp: agent_ok_def agent_write_def writer_ok_def cw_write_def split: sum.split option.splits)

lemma read_ok [agent_keeps]: "agent_ok ag \<Longrightarrow> agent_ok (snd (agent_read ag))"
  by (auto simp: agent_ok_def agent_read_def split: option.splits prod.split)

lemma agent_ok_fields [agent_keeps]:
  "agent_ok ag \<Longrightarrow> agent_ok (ag\<lparr>ag_connack_code := c\<rparr>)"
  "agent_ok ag \<Longrightarrow> agent_ok (ag\<lparr>ag_last_decision := v\<rparr>)"
  "agent_ok ag \<Longrightarrow> agent_ok (ag\<lparr>ag_challenges_answered := n\<rparr>)"
  "agent_ok ag \<Longrightarrow> agent_ok (ag\<lparr>ag_subscription_results := rs\<rparr>)"
  "agent_ok ag \<Longrightarrow> agent_ok (ag\<lparr>ag_reader := Some r, ag_writer := Some new_writer\<rparr>)"
  "agent_ok ag \<Longrightarrow> agent_ok (ag\<lparr>ag_reader := None, ag_writer := None\<rparr>)"
  by (simp_all add: agent_ok_def)

lemma then_ok [agent_keeps]:
  "agent_ok (snd x) \<Longrightarrow> (\<And>a s. x = (Inr a, s) \<Longrightarrow> agent_ok s \<Longrightarrow> agent_ok (snd (f a s))) \<Longrightarrow> agent_ok (snd (run_then x f))"
  by (rule run_then_state [where P = agent_ok]) auto

lemma answer_ok [agent_keeps]: "agent_ok ag \<Longrightarrow> agent_ok (snd (answer_challenge env payload ag))"
  by (auto simp: answer_challenge_def Let_def intro!: agent_keeps split: sum.split error.split)

lemma decision_message_ok [agent_keeps]: "agent_ok ag \<Longrightarrow> agent_ok (snd (take_decision_message env payload ag))"
  by (auto simp: take_decision_message_def Let_def intro!: agent_keeps split: sum.split error.split)

lemma dispatch_ok [agent_keeps]: "agent_ok ag \<Longrightarrow> agent_ok (snd (dispatch env p ag))"
  by (auto simp: dispatch_def intro!: agent_keeps split: sum.split option.split)

lemma connect_ok: "agent_ok ag \<Longrightarrow> agent_ok (snd (agent_connect env opened timely nonce ag))"
  by (auto simp: agent_connect_def intro!: agent_keeps split: sum.split option.split)

lemma disconnect_ok: "agent_ok ag \<Longrightarrow> agent_ok (agent_disconnect env ag)"
  unfolding agent_disconnect_def by (intro agent_keeps)

lemma publish_ok: "agent_ok ag \<Longrightarrow> agent_ok (snd (agent_publish env topic payload qos ag))"
  using next_packet_id_ok [of ag]
  by (cases "next_packet_id ag") (auto simp: agent_publish_def intro!: agent_keeps)

lemma await_ok: "agent_ok ag \<Longrightarrow> agent_ok (snd (await_suback env topics stalls k ag))"
  by (induction env topics stalls k ag rule: await_suback.induct)
    (auto simp: Let_def intro!: agent_keeps split: option.split)

lemma subscribe_ok: "agent_ok ag \<Longrightarrow> agent_ok (snd (agent_subscribe env topics qos stalls k ag))"
  using next_packet_id_ok [of ag]
  by (cases "next_packet_id ag") (auto simp: agent_subscribe_def intro!: agent_keeps await_ok)

lemma ping_ok: "agent_ok ag \<Longrightarrow> agent_ok (snd (agent_ping env timely ag))"
  by (auto simp: agent_ping_def intro!: agent_keeps split: option.split)

lemma pump_ok: "agent_ok ag \<Longrightarrow> agent_ok (snd (agent_pump env k ag))"
proof (induction env k ag rule: agent_pump.induct)
  case (2 env k ag)
  then show ?case
    using read_ok [OF 2(2)]
    by (cases "agent_read ag") (auto intro!: agent_keeps split: sum.split error.split option.split)
qed simp

lemma switch_ok: "agent_ok ag \<Longrightarrow> agent_ok (switch_access_context env dm address ag)"
  unfolding switch_access_context_def by (rule record_ok) (simp add: agent_ok_def)

section \<open>What the gateway reads of it\<close>

lemma built_connect_reads:
  assumes "build_connect cid un pw ka cs = Inr raw" "py_text cid" "\<forall>u. un = Some u \<longrightarrow> py_text u"
  shows "\<exists>p r. read_packet (new_reader (raw @ rest)) = (Inr (Some p), r) \<and> rd_input r = rest \<and> pk_type p = PT_CONNECT
    \<and> (\<exists>c. decode_connect p = Inr c \<and> cp_client_id c = cid \<and> cp_username c = un \<and> cp_password c = pw \<and> cp_keep_alive c = ka)"
proof -
  note b = build_connect_Inr(1) [OF assms(1)]
  let ?p = "\<lparr>pk_type = PT_CONNECT, pk_flags = 0,
      pk_payload = be16 4 @ str_encode ''MQTT'' @ [4, connect_flags un pw cs] @ be16 ka
        @ be16 (length cid) @ str_encode cid @ opt_field (map_option str_encode un) @ opt_field pw, pk_raw = raw\<rparr>"
  have "read_packet (new_reader (raw @ rest)) = (Inr (Some ?p), (new_reader (raw @ rest))
      \<lparr>rd_input := rest, rd_bytes_read := length raw, rd_packets_read := 1\<rparr>)"
    using read_packet_build [OF b, of "new_reader (raw @ rest)" rest] by (simp add: new_reader_def)
  moreover have "decode_connect ?p = Inr \<lparr>cp_protocol_name = ''MQTT'', cp_protocol_level = 4,
     cp_connect_flags = connect_flags un pw cs, cp_keep_alive = ka, cp_client_id = cid,
     cp_will_topic = None, cp_will_payload = None, cp_username = un, cp_password = pw\<rparr>"
    by (rule decode_connect_build [OF assms]) simp
  ultimately show ?thesis by (intro exI [of _ ?p]) (simp add: new_reader_def)
qed

lemma built_publish_reads:
  assumes "build_publish topic payload q pid retain = Inr raw" "q < 4" "py_text topic"
  shows "\<exists>p r. read_packet (new_reader (raw @ rest)) = (Inr (Some p), r) \<and> rd_input r = rest \<and> pk_type p = PT_PUBLISH
     \<and> decode_publish p = Inr \<lparr>pb_topic = topic, pb_packet_id = (if q > 0 then pid else None),
          pb_payload = payload, pb_qos = q, pb_retain = retain, pb_dup = False\<rparr>"
proof -
  note b = build_publish_Inr(3) [OF assms(1)]
  let ?flags = "push_bit 1 (q AND 0x03) OR (if retain then 0x01 else 0x00)"
  let ?p = "\<lparr>pk_type = PT_PUBLISH, pk_flags = ?flags mod 16,
      pk_payload = be16 (length topic) @ str_encode topic @ (if q > 0 then be16 (the pid) else []) @ payload,
      pk_raw = raw\<rparr>"
  have "read_packet (new_reader (raw @ rest)) = (Inr (Some ?p), (new_reader (raw @ rest))
      \<lparr>rd_input := rest, rd_bytes_read := length raw, rd_packets_read := 1\<rparr>)"
    using read_packet_build [OF b, of "new_reader (raw @ rest)" rest] by (simp add: new_reader_def)
  moreover have "decode_publish ?p = Inr \<lparr>pb_topic = topic, pb_packet_id = (if q > 0 then pid else None),
          pb_payload = payload, pb_qos = q, pb_retain = retain, pb_dup = False\<rparr>"
    using publish_flag_bits [OF assms(2)] by (intro decode_publish_build [OF assms]) simp_all
  ultimately show ?thesis by (intro exI [of _ ?p]) (simp add: new_reader_def)
qed

text \<open>The proof a device gives for a nonce the service issued, and when it is accepted.\<close>

definition signed_proof :: "(bytes \<Rightarrow> bytes) \<Rightarrow> string \<Rightarrow> bytes \<Rightarrow> proof_of_possession" where
  "signed_proof sign d raw =
     \<lparr>pp_device_id = d, pp_nonce = b64url_encode raw, pp_signature = b64url_encode (sign raw)\<rparr>"

lemma sign_issued_nonce: "sign_nonce sign (b64url_encode raw) = Inr (b64url_encode (sign raw))"
  by (simp add: sign_nonce_def b64url_decode_encode)

lemma device_proof_signed: "device_proof sign d (b64url_encode raw) = Inr (signed_proof sign d raw)"
  by (simp add: device_proof_def sign_issued_nonce signed_proof_def)

lemma signed_proof_accepted:
  "pr_valid (fst (verify cr now ni i (signed_proof sign d raw))) \<longleftrightarrow>
     d = di_device_id i \<and> fst (consume now ni (b64url_encode raw) d)
     \<and> (\<exists>k. load_pem cr (di_public_key_pem i) = Some (Ed25519Key k) \<and> ed_verify cr k (sign raw) raw)"
  by (auto simp: verify_valid_iff consume_accepts_iff signed_proof_def b64url_decode_encode)

lemma ascii_bytes: "ascii_only s \<Longrightarrow> \<not> list_ex (\<lambda>b. b \<ge> 0x80) (str_encode s)"
  by (auto simp: ascii_only_def str_encode_def list_all_iff list_ex_iff word_le_nat_alt unat_of_char)

lemma partition_at:
  "c \<notin> set a \<Longrightarrow> takeWhile (\<lambda>x. x \<noteq> c) (a @ c # b) = a" "c \<notin> set a \<Longrightarrow> dropWhile (\<lambda>x. x \<noteq> c) (a @ c # b) = c # b"
  by (induction a) auto

lemma credential_parses:
  assumes "raw \<noteq> []" "sign raw \<noteq> []" "credential sign (b64url_encode raw) = Inr c"
  shows "parse_proof d (Some (str_encode c)) = Some (signed_proof sign d raw)"
proof -
  let ?n = "b64url_encode raw" and ?s = "b64url_encode (sign raw)"
  have c: "c = ?n @ CHR ''.'' # ?s" using assms(3) by (simp add: credential_def sign_issued_nonce)
  have "ascii_only c"
    using b64url_encode_ascii [of raw] b64url_encode_ascii [of "sign raw"] by (simp add: c ascii_only_def)
  from ascii_bytes [OF this] show ?thesis
    using partition_at [OF b64url_encode_no_dot [of raw], of ?s]
      b64url_encode_nonempty [OF assms(1)] b64url_encode_nonempty [OF assms(2)]
    by (auto simp: parse_proof_def Let_def signed_proof_def simp flip: c) (auto simp: c str_encode_def)
qed

lemma write_sent:
  assumes "agent_write built ag = (x, ag')" "ag_writer ag = Some w"
  shows "(\<exists>raw. built = Inr raw \<and> x = Inr () \<and> ag' = ag\<lparr>ag_writer := Some (cw_write w raw)\<rparr>)
    \<or> (\<exists>e. built = Inl e \<and> x = Inl e \<and> ag' = ag)"
  using assms by (cases built) (auto simp: agent_write_def)

lemma record_frame [simp]:
  "ag_writer (record_event env kind detail ag) = ag_writer ag" "ag_reader (record_event env kind detail ag) = ag_reader ag"
  "ag_config (record_event env kind detail ag) = ag_config ag" "ag_sign (record_event env kind detail ag) = ag_sign ag"
  "ag_challenges_answered (record_event env kind detail ag) = ag_challenges_answered ag"
  by (simp_all add: record_event_def split: prod.split)

lemma read_frame: "ag_writer (snd (agent_read ag)) = ag_writer ag"
  by (simp add: agent_read_def split: option.split prod.split)

text \<open>What has been sent once the connection is open.\<close>

lemma connect_sends:
  assumes "agent_connect env (Inr input) timely nonce ag = (x, ag')" "ag_writer ag' = Some w" "cw_sent w \<noteq> []"
  shows "\<exists>cred raw. connect_credential ag nonce = Inr cred \<and> cw_sent w = [raw]
    \<and> build_connect (agent_client_id ag) (Some (agent_id ag)) cred (agc_keep_alive (ag_config ag)) True = Inr raw"
proof -
  let ?ag1 = "ag\<lparr>ag_reader := Some (new_reader input), ag_writer := Some new_writer\<rparr>"
  have id: "agent_client_id ?ag1 = agent_client_id ag" by (simp add: agent_client_id_def)
  show ?thesis
  proof (cases "connect_credential ag nonce")
    case (Inl e)
    with assms show ?thesis by (auto simp: agent_connect_def new_writer_def)
  next
    case (Inr cred)
    let ?b = "build_connect (agent_client_id ag) (Some (agent_id ag)) cred (agc_keep_alive (ag_config ag)) True"
    obtain u ag2 where wr: "agent_write ?b ?ag1 = (u, ag2)" by fastforce
    from write_sent [OF wr, of new_writer] consider
      (raw) raw where "?b = Inr raw" "u = Inr ()" "ag2 = ?ag1\<lparr>ag_writer := Some (cw_write new_writer raw)\<rparr>"
      | (fails) e where "u = Inl e" "ag2 = ?ag1" by auto
    then show ?thesis
    proof cases
      case raw
      have "ag_writer ag' = Some (cw_write new_writer raw)"
        using assms(1) Inr wr raw(2) read_frame [of ag2]
        by (auto simp: agent_connect_def id raw(3) run_then_def split: if_splits prod.splits sum.splits option.splits)
      then have "w = cw_write new_writer raw" using assms(2) by simp
      then have "cw_sent w = [raw]" by (simp add: cw_write_def new_writer_def)
      with Inr raw(1) show ?thesis by blast
    next
      case fails
      then have "ag_writer ag' = Some new_writer" using assms(1) Inr wr by (auto simp: agent_connect_def id)
      with assms(2,3) show ?thesis by (auto simp: new_writer_def)
    qed
  qed
qed

lemma credential_reaches_gateway:
  assumes "agent_connect env (Inr input) timely (Some (b64url_encode raw)) ag = (x, ag')"
    and "ag_writer ag' = Some w" "cw_sent w \<noteq> []"
    and "raw \<noteq> []" "ag_sign ag raw \<noteq> []" "py_text (agent_client_id ag)" "py_text (agent_id ag)"
  shows "\<exists>p r c. read_packet (new_reader (concat (cw_sent w) @ rest)) = (Inr (Some p), r) \<and> rd_input r = rest
    \<and> pk_type p = PT_CONNECT \<and> decode_connect p = Inr c \<and> cp_username c = Some (agent_id ag)
    \<and> parse_proof (agent_id ag) (cp_password c) = Some (signed_proof (ag_sign ag) (agent_id ag) raw)"
proof -
  obtain cred sent where s: "connect_credential ag (Some (b64url_encode raw)) = Inr cred" "cw_sent w = [sent]"
    "build_connect (agent_client_id ag) (Some (agent_id ag)) cred (agc_keep_alive (ag_config ag)) True = Inr sent"
    using connect_sends [OF assms(1-3)] by blast
  obtain c0 where c0: "credential (ag_sign ag) (b64url_encode raw) = Inr c0" "cred = Some (str_encode c0)"
    using s(1) b64url_encode_nonempty [OF assms(4)] by (auto simp: connect_credential_def and_then_Inr_iff)
  from built_connect_reads [OF s(3) assms(6), of rest] assms(7) obtain p r c where
    "read_packet (new_reader (sent @ rest)) = (Inr (Some p), r)" "rd_input r = rest" "pk_type p = PT_CONNECT"
    "decode_connect p = Inr c" "cp_username c = Some (agent_id ag)" "cp_password c = cred"
    by auto
  then show ?thesis
    using credential_parses [OF assms(4,5) c0(1)] by (intro exI [of _ p] exI [of _ r] exI [of _ c]) (simp add: s(2) c0(2))
qed

text \<open>The answer to a challenge. The two sides print and read JSON each in its own way; of that it is assumed
  that each reads what the other prints, and that what they print is text.\<close>

definition same_json :: "'st gateway_env \<Rightarrow> agent_env \<Rightarrow> bool" where
  "same_json genv env \<longleftrightarrow>
     (\<forall>v. ae_loads env (ge_dumps genv v) = Some v \<and> py_text (ge_dumps genv v))
     \<and> (\<forall>v. ge_loads genv (ae_dumps env v) = Some v \<and> py_text (ae_dumps env v))"

lemma utf8_append:
  assumes "utf8_valid x"
  shows "utf8_valid (x @ y) = utf8_valid y"
  using assms
proof (induction x rule: utf8_valid.induct)
  case (2 a bs)
  then show ?case by (auto split: if_splits list.splits)
qed simp

lemma ctl_topic_text: "py_text d \<Longrightarrow> py_text (ctl_topic d leaf) = py_text leaf"
proof -
  assume d: "py_text d"
  have "utf8_valid (str_encode ''ctl/'')" "utf8_valid (str_encode ''/'')" by (simp_all add: str_encode_def)
  moreover have "str_encode (ctl_topic d leaf) = str_encode ''ctl/'' @ str_encode d @ str_encode ''/'' @ str_encode leaf"
    by (simp add: str_encode_def ctl_topic_def)
  ultimately show ?thesis using d by (simp only: py_text_def utf8_append)
qed

lemma ends_with_leaf: "ends_with (''/'' @ leaf) (ctl_topic d leaf)"
proof -
  have "ends_with e (x @ e)" for e x by (simp add: ends_with_def)
  from this [of "''/'' @ leaf" "''ctl/'' @ d"] show ?thesis by (simp add: ctl_topic_def)
qed

definition challenge_body :: "'st gateway_env \<Rightarrow> string \<Rightarrow> instant \<Rightarrow> bytes" where
  "challenge_body genv nonce expires_at =
     str_encode (ge_dumps genv (JObj [(''nonce'', JStr nonce), (''expires_at'', JStr (isoformat expires_at)),
       (''algorithm'', JStr ''ed25519'')]))"

lemma challenge_answered:
  assumes "same_json genv env" "py_text (agent_id ag)" "ag_writer ag = Some w"
    and "build_publish (CHALLENGE_TOPIC (agent_id ag)) (challenge_body genv (b64url_encode raw) expires_at) 0 None False = Inr sent"
    and "build_publish (RESPONSE_TOPIC (agent_id ag))
      (challenge_answer env (b64url_encode raw) (b64url_encode (ag_sign ag raw))) 0 None False = Inr answer"
  shows "\<exists>p r. read_packet (new_reader sent) = (Inr (Some p), r) \<and> fst (dispatch env p ag) = Inr ()
      \<and> ag_writer (snd (dispatch env p ag)) = Some (cw_write w answer)
      \<and> ag_challenges_answered (snd (dispatch env p ag)) = ag_challenges_answered ag + 1"
    and "\<exists>p r pub. read_packet (new_reader (answer @ rest)) = (Inr (Some p), r) \<and> rd_input r = rest
      \<and> decode_publish p = Inr pub \<and> pb_topic pub = RESPONSE_TOPIC (agent_id ag)
      \<and> step_up_proof genv (agent_id ag) (pb_payload pub) = Inr (signed_proof (ag_sign ag) (agent_id ag) raw)"
proof -
  let ?d = "agent_id ag" and ?n = "b64url_encode raw" and ?s = "b64url_encode (ag_sign ag raw)"
  have t: "py_text (CHALLENGE_TOPIC ?d)" "py_text (RESPONSE_TOPIC ?d)"
    unfolding ctl_topic_text [OF assms(2)] by code_simp+
  have js: "ae_loads env (ge_dumps genv v) = Some v" "py_text (ge_dumps genv v)"
      "ge_loads genv (ae_dumps env v) = Some v" "py_text (ae_dumps env v)" for v
    using assms(1) by (simp_all add: same_json_def)
  let ?body = "challenge_body genv ?n expires_at"
  from built_publish_reads [OF assms(4) _ t(1), of "[]"] obtain p r where
    p: "read_packet (new_reader sent) = (Inr (Some p), r)" "pk_type p = PT_PUBLISH"
    "decode_publish p = Inr \<lparr>pb_topic = CHALLENGE_TOPIC ?d, pb_packet_id = None, pb_payload = ?body,
       pb_qos = 0, pb_retain = False, pb_dup = False\<rparr>" by auto
  have ew: "ends_with ''/challenge'' (CHALLENGE_TOPIC ?d)" using ends_with_leaf [of "''challenge''"] by simp
  have body: "and_then (agent_body env ?body) (\<lambda>body. body_item body ''nonce'') = Inr (JStr ?n)"
    using js(2) by (simp add: agent_body_def challenge_body_def js(1) body_item_def py_text_def)
  have wr: "agent_write (Inr answer) ag = (Inr (), ag\<lparr>ag_writer := Some (cw_write w answer)\<rparr>)"
    by (simp add: agent_write_def assms(3))
  have disp: "dispatch env p ag = run_then (agent_write (Inr answer) ag) (\<lambda>_ ag2.
      (Inr (), record_event env ''challenge_answered'' [(''duration_ns'', elapsed env ag2)]
         (ag2\<lparr>ag_challenges_answered := ag_challenges_answered ag2 + 1\<rparr>)))"
    using p ew body assms(3,5)
    by (simp add: dispatch_def answer_challenge_def Let_def py_str_def sign_issued_nonce)
  show "\<exists>p r. read_packet (new_reader sent) = (Inr (Some p), r) \<and> fst (dispatch env p ag) = Inr ()
      \<and> ag_writer (snd (dispatch env p ag)) = Some (cw_write w answer)
      \<and> ag_challenges_answered (snd (dispatch env p ag)) = ag_challenges_answered ag + 1"
    using p(1) by (intro exI [of _ p] exI [of _ r]) (simp add: disp wr)
  from built_publish_reads [OF assms(5) _ t(2), of rest] obtain p2 r2 where
    r2: "read_packet (new_reader (answer @ rest)) = (Inr (Some p2), r2)" "rd_input r2 = rest"
    "decode_publish p2 = Inr \<lparr>pb_topic = RESPONSE_TOPIC ?d, pb_packet_id = None,
       pb_payload = challenge_answer env ?n ?s, pb_qos = 0, pb_retain = False, pb_dup = False\<rparr>" by auto
  have "step_up_proof genv ?d (challenge_answer env ?n ?s) = Inr (signed_proof (ag_sign ag) ?d raw)"
    using js(4) by (simp add: step_up_proof_def challenge_answer_def js(3) py_text_def py_str_def signed_proof_def)
  with r2 show "\<exists>p r pub. read_packet (new_reader (answer @ rest)) = (Inr (Some p), r) \<and> rd_input r = rest
      \<and> decode_publish p = Inr pub \<and> pb_topic pub = RESPONSE_TOPIC (agent_id ag)
      \<and> step_up_proof genv (agent_id ag) (pb_payload pub) = Inr (signed_proof (ag_sign ag) (agent_id ag) raw)"
    by (intro exI [of _ p2] exI [of _ r2]) auto
qed

end
