(* ===== verification/Log_Patterns.thy ===== *)
theory Log_Patterns
  imports Access_Collectors
begin

text \<open>
  Python's \<open>re.search\<close> for the patterns the live collectors use on log lines: literals, bounded and
  greedy repetition of a character class, sequence, alternatives, options and named groups. A matcher
  lists the ways to match a prefix in the order of Python's backtracking; a search tries the positions
  from the left and takes the first way. Character classes and case folding are those of ASCII.

  Shown: what is matched is a part of the line, and a group holds only characters its class allows.
\<close>

section \<open>Patterns\<close>

datatype pattern =
    Lit string
  | Exactly nat "char \<Rightarrow> bool"
  | AtLeast nat "char \<Rightarrow> bool"
  | Then pattern pattern
  | Alt pattern pattern
  | Optional pattern
  | Group string pattern

type_synonym captures = "(string \<times> string) list"

definition same_char :: "bool \<Rightarrow> char \<Rightarrow> char \<Rightarrow> bool" where
  "same_char ignore_case a b \<longleftrightarrow> a = b \<or> ignore_case \<and> lower_char a = lower_char b"

text \<open>What was matched, what is left, and the groups set on the way.\<close>

fun ways :: "bool \<Rightarrow> pattern \<Rightarrow> string \<Rightarrow> (string \<times> string \<times> captures) list" where
  "ways ic (Lit s) xs =
     (if length s \<le> length xs \<and> list_all2 (same_char ic) s (take (length s) xs)
      then [(take (length s) xs, drop (length s) xs, [])] else [])"
| "ways ic (Exactly n p) xs =
     (if n \<le> length xs \<and> list_all p (take n xs) then [(take n xs, drop n xs, [])] else [])"
| "ways ic (AtLeast n p) xs =
     map (\<lambda>i. (take i xs, drop i xs, [])) (rev [n ..< Suc (length (takeWhile p xs))])"
| "ways ic (Then a b) xs =
     concat (map (\<lambda>(m, rest, c). map (\<lambda>(m', rest', c'). (m @ m', rest', c @ c')) (ways ic b rest))
       (ways ic a xs))"
| "ways ic (Alt a b) xs = ways ic a xs @ ways ic b xs"
| "ways ic (Optional a) xs = ways ic a xs @ [([], xs, [])]"
| "ways ic (Group n a) xs = map (\<lambda>(m, rest, c). (m, rest, (n, m) # c)) (ways ic a xs)"

fun search :: "bool \<Rightarrow> pattern \<Rightarrow> string \<Rightarrow> captures option" where
  "search ic p xs =
     (case ways ic p xs of
        (m, rest, c) # _ \<Rightarrow> Some c
      | [] \<Rightarrow> (case xs of [] \<Rightarrow> None | x # xs' \<Rightarrow> search ic p xs'))"

declare search.simps [simp del]

text \<open>\<open>match.group(name)\<close>\<close>

definition grp :: "string \<Rightarrow> captures \<Rightarrow> string option" where
  "grp n c = map_of c n"

fun sequence :: "pattern list \<Rightarrow> pattern" where
  "sequence [] = Lit []"
| "sequence [p] = p"
| "sequence (p # ps) = Then p (sequence ps)"

section \<open>Character classes\<close>

definition digit :: "char \<Rightarrow> bool" where
  "digit c \<longleftrightarrow> 48 \<le> (of_char c :: nat) \<and> (of_char c :: nat) \<le> 57"

definition digit_or_dot :: "char \<Rightarrow> bool" where
  "digit_or_dot c \<longleftrightarrow> digit c \<or> c = CHR ''.''"

definition not_bracket :: "char \<Rightarrow> bool" where
  "not_bracket c \<longleftrightarrow> c \<noteq> CHR '']''"

definition not_newline :: "char \<Rightarrow> bool" where
  "not_newline c \<longleftrightarrow> c \<noteq> CHR 0x0A"

definition word_char :: "char \<Rightarrow> bool" where
  "word_char c \<longleftrightarrow> digit c \<or> c = CHR ''_'' \<or> 65 \<le> (of_char c :: nat) \<and> (of_char c :: nat) \<le> 90
     \<or> 97 \<le> (of_char c :: nat) \<and> (of_char c :: nat) \<le> 122"

text \<open>\<open>[0-9a-fA-F:]\<close>\<close>

definition mac_char :: "char \<Rightarrow> bool" where
  "mac_char c \<longleftrightarrow> digit c \<or> c = CHR '':'' \<or> 65 \<le> (of_char c :: nat) \<and> (of_char c :: nat) \<le> 70
     \<or> 97 \<le> (of_char c :: nat) \<and> (of_char c :: nat) \<le> 102"

section \<open>Facts\<close>

lemma ways_split: "(m, rest, c) \<in> set (ways ic p xs) \<Longrightarrow> xs = m @ rest"
  by (induction p arbitrary: xs m rest c) (fastforce split: if_splits)+

text \<open>A property of every group of a pattern, and that matching respects it.\<close>

fun groups_satisfy :: "(string \<Rightarrow> string \<Rightarrow> bool) \<Rightarrow> bool \<Rightarrow> pattern \<Rightarrow> bool" where
  "groups_satisfy P ic (Then a b) \<longleftrightarrow> groups_satisfy P ic a \<and> groups_satisfy P ic b"
| "groups_satisfy P ic (Alt a b) \<longleftrightarrow> groups_satisfy P ic a \<and> groups_satisfy P ic b"
| "groups_satisfy P ic (Optional a) \<longleftrightarrow> groups_satisfy P ic a"
| "groups_satisfy P ic (Group n a) \<longleftrightarrow>
     groups_satisfy P ic a \<and> (\<forall>xs m rest c. (m, rest, c) \<in> set (ways ic a xs) \<longrightarrow> P n m)"
| "groups_satisfy P ic _ \<longleftrightarrow> True"

lemma ways_groups:
  "groups_satisfy P ic p \<Longrightarrow> (m, rest, c) \<in> set (ways ic p xs) \<Longrightarrow> (n, s) \<in> set c \<Longrightarrow> P n s"
  by (induction p arbitrary: xs m rest c) (fastforce split: if_splits)+

lemma search_here: "ways ic p xs = w # ws \<Longrightarrow> search ic p xs = Some (snd (snd w))"
  by (subst search.simps) (simp split: prod.split)

lemma search_later:
  "ways ic p xs = [] \<Longrightarrow> search ic p xs = (case xs of [] \<Rightarrow> None | x # xs' \<Rightarrow> search ic p xs')"
  by (subst search.simps) simp

lemma search_ways: "search ic p xs = Some c \<Longrightarrow> \<exists>ys m rest. (m, rest, c) \<in> set (ways ic p ys)"
proof (induction xs)
  case Nil
  then show ?case
    by (cases "ways ic p []") (auto simp: search_later search_here, metis list.set_intros(1))
next
  case (Cons x xs)
  show ?case
  proof (cases "ways ic p (x # xs)")
    case Nil
    with Cons show ?thesis by (simp add: search_later)
  next
    case (Cons w ws)
    with \<open>search ic p (x # xs) = Some c\<close> have "(fst w, fst (snd w), c) \<in> set (ways ic p (x # xs))"
      by (auto simp: search_here)
    then show ?thesis by blast
  qed
qed

lemma search_groups:
  assumes "groups_satisfy P ic p" "search ic p xs = Some c" "grp n c = Some s"
  shows "P n s"
  using search_ways [OF assms(2)] ways_groups [OF assms(1)] assms(3)
  by (auto simp: grp_def dest!: map_of_SomeD)

lemma ways_Exactly: "(m, rest, c) \<in> set (ways ic (Exactly n p) xs) \<Longrightarrow> length m = n \<and> list_all p m"
  by (auto split: if_splits)

lemma ways_AtLeast: "(m, rest, c) \<in> set (ways ic (AtLeast n p) xs) \<Longrightarrow> n \<le> length m \<and> list_all p m"
proof -
  assume "(m, rest, c) \<in> set (ways ic (AtLeast n p) xs)"
  then obtain i where i: "m = take i xs" "n \<le> i" "i \<le> length (takeWhile p xs)"
    by (auto simp: less_Suc_eq_le)
  have "take i (take (length (takeWhile p xs)) xs) = take i xs" using i(3) by (simp add: min_absorb1)
  then have m: "m = take i (takeWhile p xs)" using i(1) by (metis takeWhile_eq_take)
  then have "length m = i" using i(3) by simp
  with i(2) m show ?thesis
    by (auto simp: list_all_iff dest: in_set_takeD set_takeWhileD)
qed

text \<open>The groups every match sets.\<close>

fun sets_group :: "string \<Rightarrow> pattern \<Rightarrow> bool" where
  "sets_group n (Then a b) \<longleftrightarrow> sets_group n a \<or> sets_group n b"
| "sets_group n (Alt a b) \<longleftrightarrow> sets_group n a \<and> sets_group n b"
| "sets_group n (Group m a) \<longleftrightarrow> n = m \<or> sets_group n a"
| "sets_group n _ \<longleftrightarrow> False"

lemma ways_sets_group: "sets_group n p \<Longrightarrow> (m, rest, c) \<in> set (ways ic p xs) \<Longrightarrow> n \<in> fst ` set c"
  by (induction p arbitrary: xs m rest c) (fastforce split: if_splits)+

lemma search_sets_group:
  assumes "sets_group n p" "search ic p xs = Some c"
  shows "\<exists>s. grp n c = Some s"
  using search_ways [OF assms(2)] ways_sets_group [OF assms(1)]
  by (auto simp: grp_def) (metis option.exhaust map_of_eq_None_iff)

lemma search_group:
  assumes "search ic p xs = Some c" "sets_group n p" "groups_satisfy (\<lambda>k s. k = n \<longrightarrow> P s) ic p"
  obtains s where "grp n c = Some s" "P s"
  using search_sets_group [OF assms(2,1)] search_groups [OF assms(3,1)] by blast

end
