(* ===== verification/Live_Collectors.thy ===== *)
theory Live_Collectors
  imports Log_Patterns Service_Api
begin

text \<open>
  The collectors that read a testbed's own output: Open5GS (\<^verbatim>\<open>collectors/nr_open5gs.py\<close>), hostapd over
  virtual radios (\<^verbatim>\<open>collectors/wlan_hwsim.py\<close>) and the Tier-1 authentication path
  (\<^verbatim>\<open>collectors/wlan_hostapd.py\<close>). A stream is the list of its lines, \<open>None\<close> when the file is absent;
  a line is a JSON record or a log line. JSON parsing, Python's text of a JSON value and
  \<open>datetime.fromisoformat\<close> are the fields of \<open>line_reader\<close>; a clock read is an argument, one per line.

  Shown: the three refuse records of another provenance, and every event they map onto a collector's
  schema carries their own source mode; a station address taken from a log line has the form of a
  hardware address; consecutive reads of a growing stream deliver each line's event once. Also where they
  fall short: the Tier-1 reader takes a refused record as a log line, one refused record stops the two
  live readers for good, and a release read from a log line carries no address.
\<close>

section \<open>Parameters\<close>

datatype parsed_line = NotJson | JsonObject "(string, json) dict" | JsonOther

text \<open>\<open>lr_fromiso\<close> is \<open>None\<close> where \<open>fromisoformat\<close> raises \<open>ValueError\<close>; a naive result counts as UTC.\<close>

record line_reader =
  lr_loads :: "string \<Rightarrow> parsed_line"
  lr_repr :: "json \<Rightarrow> string"
  lr_fromiso :: "string \<Rightarrow> instant option"

definition parse_timestamp :: "line_reader \<Rightarrow> instant \<Rightarrow> json \<Rightarrow> instant result" where
  "parse_timestamp lr now raw =
     (if \<not> truthy raw then Inr now
      else (case raw of
              JStr s \<Rightarrow> Inr (case lr_fromiso lr (py_replace ''Z'' ''+00:00'' s) of None \<Rightarrow> now | Some t \<Rightarrow> t)
            | _ \<Rightarrow> Inl (PyAttributeError ''object has no attribute replace'')))"

text \<open>\<open>str(record.get(k, default))\<close> and \<open>str(record[k]) if record.get(k) else None\<close>\<close>

definition text_field :: "line_reader \<Rightarrow> (string, json) dict \<Rightarrow> string \<Rightarrow> string \<Rightarrow> string" where
  "text_field lr rec k dflt = py_str (lr_repr lr) (attr_json rec k (JStr dflt))"

definition opt_field :: "line_reader \<Rightarrow> (string, json) dict \<Rightarrow> string \<Rightarrow> string option" where
  "opt_field lr rec k =
     (case dget rec k of
        None \<Rightarrow> None
      | Some v \<Rightarrow> if truthy v then Some (py_str (lr_repr lr) v) else None)"

definition SOFTWARE_BASED :: string where
  "SOFTWARE_BASED = ''software_based''"

definition UERANSIM :: string where
  "UERANSIM = ''ueransim''"

definition MAC80211_HWSIM :: string where
  "MAC80211_HWSIM = ''mac80211_hwsim''"

text \<open>\<open>a or b\<close> for text, and \<open>x or None\<close>.\<close>

definition or_text :: "string option \<Rightarrow> string \<Rightarrow> string" where
  "or_text a b = (case a of Some (c # cs) \<Rightarrow> c # cs | _ \<Rightarrow> b)"

definition nonempty :: "string \<Rightarrow> string option" where
  "nonempty s = (if s = [] then None else Some s)"

section \<open>Open5GS\<close>

definition supi_pattern :: pattern where
  "supi_pattern = Group ''supi'' (Then (Lit ''imsi-'') (AtLeast 1 digit))"

definition SMF_SESSION :: pattern where
  "SMF_SESSION = sequence
     [Lit ''UE SUPI['', supi_pattern, Lit '']'', AtLeast 1 ascii_space,
      Lit ''DNN['', Group ''dnn'' (AtLeast 0 not_bracket), Lit '']'', AtLeast 1 ascii_space,
      Lit ''IPv4['', Group ''ip'' (AtLeast 0 digit_or_dot), Lit '']'']"

definition UPF_SESSION :: pattern where
  "UPF_SESSION = sequence
     [Lit ''APN['', Group ''dnn'' (AtLeast 0 not_bracket), Lit '']'', AtLeast 1 ascii_space,
      Lit ''PDN-Type['', AtLeast 1 digit, Lit '']'', AtLeast 1 ascii_space,
      Lit ''IPv4['', Group ''ip'' (AtLeast 1 digit_or_dot), Lit '']'']"

definition REGISTRATION :: pattern where
  "REGISTRATION = sequence
     [Lit ''['', supi_pattern, Lit '']'', AtLeast 0 not_newline, Lit ''Registration complete'']"

definition AMF_CONTEXT :: pattern where
  "AMF_CONTEXT = sequence
     [Lit ''['', supi_pattern, Lit '':'', Group ''psi'' (AtLeast 1 digit), Lit '':'',
      Group ''ctx'' (AtLeast 1 digit), Lit '']'']"

definition SNSSAI :: pattern where
  "SNSSAI = sequence
     [Lit ''S_NSSAI[SST:'', Group ''sst'' (AtLeast 1 digit),
      Optional (sequence [AtLeast 1 ascii_space, Lit ''SD:'', Group ''sd'' (AtLeast 1 not_bracket)]),
      Lit '']'']"

definition SESSION_RELEASE :: pattern where
  "SESSION_RELEASE = sequence
     [Lit ''['', supi_pattern, AtLeast 0 not_bracket, Lit '']'', AtLeast 0 not_newline,
      Alt (Lit ''Release'') (Alt (Lit ''Deregistr'') (Lit ''De-registr''))]"

definition SERVING_NODE :: pattern where
  "SERVING_NODE = sequence [Lit ''gNB-N2['', Group ''addr'' (AtLeast 1 not_bracket), Lit '']'']"

record open5gs_event =
  og_event_type :: string
  og_supi :: "string option"
  og_observed_at :: instant
  og_peer_address :: "string option"
  og_dnn :: "string option"
  og_serving_node :: "string option"
  og_pdu_session_id :: "string option"
  og_snssai :: "string option"
  og_registration_state :: string
  og_pdu_session_active :: bool
  og_raw :: string

definition og_is_release :: "open5gs_event \<Rightarrow> bool" where
  "og_is_release e \<longleftrightarrow> og_event_type e \<in> set [''SESSION_RELEASED'', ''DEREGISTERED'']"

definition open5gs_record ::
  "line_reader \<Rightarrow> instant \<Rightarrow> (string, json) dict \<Rightarrow> open5gs_event result" where
  "open5gs_record lr now rec =
     (let source_mode = text_field lr rec ''source_mode'' (source_mode_value LIVE_TESTBED);
          implementation = text_field lr rec ''access_implementation'' UERANSIM;
          testbed = text_field lr rec ''testbed_type'' SOFTWARE_BASED
      in if source_mode \<noteq> source_mode_value LIVE_TESTBED then
           Inl (CollectorError (''the live 5G collector refuses an event claiming source_mode ''
             @ quoted source_mode @ ''; it only accepts '' @ quoted (source_mode_value LIVE_TESTBED)))
         else if implementation \<noteq> UERANSIM then
           Inl (CollectorError (''the live 5G collector refuses an event claiming access_implementation ''
             @ quoted implementation @ ''; this collector only observes UERANSIM''))
         else if testbed \<noteq> SOFTWARE_BASED then
           Inl (CollectorError (''Tier-2 events must declare testbed_type '' @ quoted SOFTWARE_BASED
             @ ''; this testbed has no physical radio and must never claim one, got '' @ quoted testbed))
         else and_then (parse_timestamp lr now (attr_json rec ''observed_at'' JNull)) (\<lambda>t.
           Inr \<lparr>og_event_type = text_field lr rec ''event_type'' ''UNKNOWN'',
                og_supi = opt_field lr rec ''supi'', og_observed_at = t,
                og_peer_address = opt_field lr rec ''peer_address'', og_dnn = opt_field lr rec ''dnn'',
                og_serving_node = (case opt_field lr rec ''serving_node'' of
                    Some s \<Rightarrow> Some s | None \<Rightarrow> opt_field lr rec ''gnb_id''),
                og_pdu_session_id = opt_field lr rec ''pdu_session_id'',
                og_snssai = opt_field lr rec ''snssai'',
                og_registration_state = text_field lr rec ''registration_state'' ''REGISTERED'',
                og_pdu_session_active = truthy (attr_json rec ''pdu_session_active'' (JBool True)),
                og_raw = text_field lr rec ''raw'' []\<rparr>))"

text \<open>\<open>SST:1 SD:...\<close>\<close>

definition slice_text :: "string \<Rightarrow> string option" where
  "slice_text line =
     (case search True SNSSAI line of
        None \<Rightarrow> None
      | Some c \<Rightarrow> Some (''SST:'' @ or_text (grp ''sst'' c) [] @
          (case grp ''sd'' c of None \<Rightarrow> [] | Some sd \<Rightarrow> if sd = [] then [] else '' SD:'' @ sd)))"

definition group_of :: "captures option \<Rightarrow> string \<Rightarrow> string option" where
  "group_of m n = (case m of None \<Rightarrow> None | Some c \<Rightarrow> grp n c)"

definition open5gs_line :: "instant \<Rightarrow> string \<Rightarrow> open5gs_event option" where
  "open5gs_line at line =
     (let snssai = slice_text line;
          serving = search True SERVING_NODE line;
          ctx = search False AMF_CONTEXT line
      in case search True SESSION_RELEASE line of
           Some m \<Rightarrow> Some
             \<lparr>og_event_type = ''SESSION_RELEASED'', og_supi = grp ''supi'' m, og_observed_at = at,
              og_peer_address = None, og_dnn = None, og_serving_node = group_of serving ''addr'',
              og_pdu_session_id = group_of ctx ''psi'', og_snssai = snssai,
              og_registration_state = ''DEREGISTERED'', og_pdu_session_active = False,
              og_raw = py_strip line\<rparr>
         | None \<Rightarrow>
        (case search True SMF_SESSION line of
           Some m \<Rightarrow> Some
             \<lparr>og_event_type = ''SESSION_ESTABLISHED'', og_supi = grp ''supi'' m, og_observed_at = at,
              og_peer_address = nonempty (or_text (grp ''ip'' m) []),
              og_dnn = nonempty (or_text (grp ''dnn'' m) []),
              og_serving_node = group_of serving ''addr'', og_pdu_session_id = group_of ctx ''psi'',
              og_snssai = snssai, og_registration_state = ''REGISTERED'', og_pdu_session_active = True,
              og_raw = py_strip line\<rparr>
         | None \<Rightarrow>
        (case search True UPF_SESSION line of
           Some m \<Rightarrow> Some
             \<lparr>og_event_type = ''SESSION_ESTABLISHED'', og_supi = None, og_observed_at = at,
              og_peer_address = grp ''ip'' m, og_dnn = nonempty (or_text (grp ''dnn'' m) []),
              og_serving_node = None, og_pdu_session_id = None, og_snssai = snssai,
              og_registration_state = ''REGISTERED'', og_pdu_session_active = True, og_raw = py_strip line\<rparr>
         | None \<Rightarrow>
        (case search True REGISTRATION line of
           Some m \<Rightarrow> Some
             \<lparr>og_event_type = ''REGISTERED'', og_supi = grp ''supi'' m, og_observed_at = at,
              og_peer_address = None, og_dnn = None, og_serving_node = group_of serving ''addr'',
              og_pdu_session_id = None, og_snssai = snssai, og_registration_state = ''REGISTERED'',
              og_pdu_session_active = True, og_raw = py_strip line\<rparr>
         | None \<Rightarrow> None))))"

text \<open>\<open>peer_address or event.peer_address\<close>; the default lifetime is 120 seconds.\<close>

definition to_nr_access_event ::
  "open5gs_event \<Rightarrow> string option \<Rightarrow> int option \<Rightarrow> nr_access_event option" where
  "to_nr_access_event e peer lifetime =
     (case str_or peer (og_peer_address e) of
        None \<Rightarrow> None
      | Some address \<Rightarrow>
          (case (if og_is_release e then Some SESSION_RELEASED
                 else if og_event_type e \<in> set [''SESSION_ESTABLISHED'', ''REGISTERED''] then Some SESSION_ESTABLISHED
                 else if og_event_type e = ''SESSION_REFRESHED'' then Some SESSION_REFRESHED
                 else None) of
             None \<Rightarrow> None
           | Some et \<Rightarrow> Some
               \<lparr>ne_event_type = et, ne_peer_address = address, ne_observed_at = og_observed_at e,
                ne_source_mode = LIVE_TESTBED, ne_subscriber_ref = og_supi e,
                ne_pdu_session_id = Some (or_text (og_pdu_session_id e) ''1''),
                ne_dnn = Some (or_text (og_dnn e) ''internet''),
                ne_gnb_id = Some (or_text (og_serving_node e) ''ueransim-gnb-n2''),
                ne_rat_type = ''NR'', ne_registration_state = og_registration_state e,
                ne_pdu_session_active = og_pdu_session_active e, ne_binding_lifetime_s = lifetime\<rparr>))"

section \<open>hostapd over virtual radios\<close>

definition mac_pattern :: pattern where
  "mac_pattern = Group ''mac'' (Exactly 17 mac_char)"

definition AP_STA_CONNECTED :: pattern where
  "AP_STA_CONNECTED = sequence [Lit ''AP-STA-CONNECTED'', AtLeast 1 ascii_space, mac_pattern]"

definition AP_STA_DISCONNECTED :: pattern where
  "AP_STA_DISCONNECTED = sequence [Lit ''AP-STA-DISCONNECTED'', AtLeast 1 ascii_space, mac_pattern]"

definition AUTHENTICATED :: pattern where
  "AUTHENTICATED = sequence
     [Lit ''STA '', mac_pattern, Lit '' IEEE 802.1X: authenticated - EAP type: '', AtLeast 1 digit,
      Lit '' ('', Group ''method'' (AtLeast 1 word_char), Lit '')'']"

definition ASSOCIATED :: pattern where
  "ASSOCIATED = sequence [Lit ''STA '', mac_pattern, Lit '' IEEE 802.11: associated'']"

definition HWSIM_EAP_FAILURE :: pattern where
  "HWSIM_EAP_FAILURE =
     Alt (Lit ''CTRL-EVENT-EAP-FAILURE'') (Alt (Lit ''EAP-Failure'') (Lit ''authentication failed''))"

record hwsim_event =
  hw_event_type :: string
  hw_outcome :: string
  hw_sta_mac :: string
  hw_observed_at :: instant
  hw_eap_identity :: "string option"
  hw_eap_method :: string
  hw_akm :: string
  hw_ssid :: "string option"
  hw_ap_bssid :: "string option"
  hw_peer_address :: "string option"
  hw_raw :: string

definition hw_succeeded :: "hwsim_event \<Rightarrow> bool" where
  "hw_succeeded e \<longleftrightarrow> py_upper (hw_outcome e) = ''SUCCESS''"

definition hwsim_record ::
  "line_reader \<Rightarrow> instant \<Rightarrow> (string, json) dict \<Rightarrow> hwsim_event result" where
  "hwsim_record lr now rec =
     (let source_mode = text_field lr rec ''source_mode'' (source_mode_value LIVE_TESTBED);
          implementation = text_field lr rec ''access_implementation'' MAC80211_HWSIM;
          testbed = text_field lr rec ''testbed_type'' SOFTWARE_BASED
      in if source_mode \<noteq> source_mode_value LIVE_TESTBED then
           Inl (CollectorError (''the live WLAN collector refuses an event claiming source_mode ''
             @ quoted source_mode @ ''; it only accepts '' @ quoted (source_mode_value LIVE_TESTBED)))
         else if implementation \<noteq> MAC80211_HWSIM then
           Inl (CollectorError (''the live WLAN collector refuses access_implementation ''
             @ quoted implementation @ ''; it only observes mac80211_hwsim virtual radios''))
         else if testbed \<noteq> SOFTWARE_BASED then
           Inl (CollectorError (''Tier-2 WLAN events must declare testbed_type '' @ quoted SOFTWARE_BASED
             @ '': mac80211_hwsim has no physical radio, got '' @ quoted testbed))
         else and_then (parse_timestamp lr now (attr_json rec ''observed_at'' JNull)) (\<lambda>t.
           Inr \<lparr>hw_event_type = text_field lr rec ''event_type'' ''UNKNOWN'',
                hw_outcome = text_field lr rec ''outcome'' ''UNKNOWN'',
                hw_sta_mac = text_field lr rec ''sta_mac'' [], hw_observed_at = t,
                hw_eap_identity = opt_field lr rec ''eap_identity'',
                hw_eap_method = text_field lr rec ''eap_method'' ''TLS'',
                hw_akm = text_field lr rec ''akm'' ''WPA2-EAP'', hw_ssid = opt_field lr rec ''ssid'',
                hw_ap_bssid = opt_field lr rec ''ap_bssid'',
                hw_peer_address = opt_field lr rec ''peer_address'',
                hw_raw = text_field lr rec ''raw'' []\<rparr>))"

text \<open>An event made from a log line: the defaults of the class elsewhere.\<close>

definition hwsim_observed :: "string \<Rightarrow> string \<Rightarrow> string \<Rightarrow> string \<Rightarrow> instant \<Rightarrow> string \<Rightarrow> hwsim_event" where
  "hwsim_observed et outcome mac method at line =
     \<lparr>hw_event_type = et, hw_outcome = outcome, hw_sta_mac = mac, hw_observed_at = at,
      hw_eap_identity = None, hw_eap_method = method, hw_akm = ''WPA2-EAP'', hw_ssid = None,
      hw_ap_bssid = None, hw_peer_address = None, hw_raw = py_strip line\<rparr>"

definition hwsim_line :: "instant \<Rightarrow> string \<Rightarrow> hwsim_event option" where
  "hwsim_line at line =
     (case search False AUTHENTICATED line of
        Some m \<Rightarrow> Some (hwsim_observed ''EAP_SUCCESS'' ''SUCCESS'' (or_text (grp ''mac'' m) [])
                    (or_text (grp ''method'' m) []) at line)
      | None \<Rightarrow>
     (case search False AP_STA_CONNECTED line of
        Some m \<Rightarrow> Some (hwsim_observed ''STA_AUTHENTICATED'' ''SUCCESS'' (or_text (grp ''mac'' m) []) ''TLS'' at line)
      | None \<Rightarrow>
     (case search False ASSOCIATED line of
        Some m \<Rightarrow> Some (hwsim_observed ''STA_ASSOCIATED'' ''SUCCESS'' (or_text (grp ''mac'' m) []) ''TLS'' at line)
      | None \<Rightarrow>
     (case search False AP_STA_DISCONNECTED line of
        Some m \<Rightarrow> Some (hwsim_observed ''STA_DISCONNECTED'' ''SUCCESS'' (or_text (grp ''mac'' m) []) ''TLS'' at line)
      | None \<Rightarrow>
          if search True HWSIM_EAP_FAILURE line \<noteq> None then
            Some (hwsim_observed ''EAP_FAILURE'' ''FAILURE'' [] ''TLS'' at line)
          else None))))"

definition hwsim_to_wlan ::
  "hwsim_event \<Rightarrow> string option \<Rightarrow> string \<Rightarrow> string \<Rightarrow> int option \<Rightarrow> wlan_access_event option" where
  "hwsim_to_wlan e peer ssid ap_bssid lifetime =
     (case str_or peer (hw_peer_address e) of
        None \<Rightarrow> None
      | Some address \<Rightarrow>
          (case (if hw_event_type e \<in> set [''EAP_SUCCESS'', ''STA_AUTHENTICATED'', ''STA_ASSOCIATED'']
                 then Some (STA_AUTHENTICATED, True)
                 else if hw_event_type e = ''STA_DISCONNECTED'' then Some (STA_DISCONNECTED, False)
                 else if hw_event_type e = ''EAP_FAILURE'' then Some (STA_AUTHENTICATED, False)
                 else None) of
             None \<Rightarrow> None
           | Some (et, success) \<Rightarrow> Some
               \<lparr>we_event_type = et, we_peer_address = address, we_observed_at = hw_observed_at e,
                we_source_mode = LIVE_TESTBED, we_sta_mac = nonempty (hw_sta_mac e),
                we_eap_identity = hw_eap_identity e, we_eap_success = success, we_akm = hw_akm e,
                we_ssid = Some (or_text (hw_ssid e) ssid),
                we_ap_bssid = Some (or_text (hw_ap_bssid e) ap_bssid), we_binding_lifetime_s = lifetime\<rparr>))"

section \<open>hostapd on the Tier-1 authentication path\<close>

definition TIER1_EAP_SUCCESS :: pattern where
  "TIER1_EAP_SUCCESS = Lit ''CTRL-EVENT-EAP-SUCCESS''"

definition TIER1_EAP_FAILURE :: pattern where
  "TIER1_EAP_FAILURE = Alt (Lit ''CTRL-EVENT-EAP-FAILURE'') (Lit ''EAP-Failure'')"

record tier1_event =
  ta_event_type :: string
  ta_outcome :: string
  ta_sta_mac :: string
  ta_observed_at :: instant
  ta_scenario :: string
  ta_eap_identity :: "string option"
  ta_eap_method :: string
  ta_authenticator :: string
  ta_supplicant :: string

definition ta_succeeded :: "tier1_event \<Rightarrow> bool" where
  "ta_succeeded e \<longleftrightarrow> py_upper (ta_outcome e) = ''SUCCESS''"

definition tier1_record ::
  "line_reader \<Rightarrow> instant \<Rightarrow> (string, json) dict \<Rightarrow> tier1_event result" where
  "tier1_record lr now rec =
     (let source_mode = text_field lr rec ''source_mode'' (source_mode_value TIER1_WLAN_AUTH_EMULATION)
      in if source_mode \<noteq> source_mode_value TIER1_WLAN_AUTH_EMULATION then
           Inl (CollectorError (''Tier-1 WLAN collector refuses an event claiming source_mode ''
             @ quoted source_mode @ ''; only '' @ quoted (source_mode_value TIER1_WLAN_AUTH_EMULATION)
             @ '' is permitted here''))
         else and_then (parse_timestamp lr now (attr_json rec ''observed_at'' JNull)) (\<lambda>t.
           Inr \<lparr>ta_event_type = text_field lr rec ''event_type'' ''UNKNOWN'',
                ta_outcome = text_field lr rec ''outcome'' ''UNKNOWN'',
                ta_sta_mac = text_field lr rec ''sta_mac'' [], ta_observed_at = t,
                ta_scenario = text_field lr rec ''scenario'' [],
                ta_eap_identity = opt_field lr rec ''eap_identity'',
                ta_eap_method = text_field lr rec ''eap_method'' ''TLS'',
                ta_authenticator = ''hostapd-driver-wired'', ta_supplicant = ''wpa_supplicant-Dwired''\<rparr>))"

definition tier1_observed :: "string \<Rightarrow> string \<Rightarrow> string \<Rightarrow> string \<Rightarrow> instant \<Rightarrow> tier1_event" where
  "tier1_observed et outcome mac method at =
     \<lparr>ta_event_type = et, ta_outcome = outcome, ta_sta_mac = mac, ta_observed_at = at, ta_scenario = [],
      ta_eap_identity = None, ta_eap_method = method, ta_authenticator = ''hostapd-driver-wired'',
      ta_supplicant = ''wpa_supplicant-Dwired''\<rparr>"

definition tier1_line :: "instant \<Rightarrow> string \<Rightarrow> tier1_event option" where
  "tier1_line at line =
     (case search False AUTHENTICATED line of
        Some m \<Rightarrow> Some (tier1_observed ''EAP_SUCCESS'' ''SUCCESS'' (or_text (grp ''mac'' m) [])
                    (or_text (grp ''method'' m) []) at)
      | None \<Rightarrow>
     (case search False AP_STA_CONNECTED line of
        Some m \<Rightarrow> Some (tier1_observed ''STA_AUTHENTICATED'' ''SUCCESS'' (or_text (grp ''mac'' m) []) ''TLS'' at)
      | None \<Rightarrow>
     (case search False AP_STA_DISCONNECTED line of
        Some m \<Rightarrow> Some (tier1_observed ''STA_DISCONNECTED'' ''SUCCESS'' (or_text (grp ''mac'' m) []) ''TLS'' at)
      | None \<Rightarrow>
          if search False TIER1_EAP_SUCCESS line \<noteq> None then
            Some (tier1_observed ''EAP_SUCCESS'' ''SUCCESS'' [] ''TLS'' at)
          else if search False TIER1_EAP_FAILURE line \<noteq> None then
            Some (tier1_observed ''EAP_FAILURE'' ''FAILURE'' [] ''TLS'' at)
          else None)))"

definition tier1_to_wlan ::
  "tier1_event \<Rightarrow> string \<Rightarrow> string \<Rightarrow> string \<Rightarrow> string \<Rightarrow> int option \<Rightarrow> wlan_access_event option" where
  "tier1_to_wlan e peer ssid ap_bssid akm lifetime =
     (case (if ta_event_type e \<in> set [''EAP_SUCCESS'', ''STA_AUTHENTICATED''] then Some (STA_AUTHENTICATED, True)
            else if ta_event_type e = ''STA_DISCONNECTED'' then Some (STA_DISCONNECTED, False)
            else if ta_event_type e = ''EAP_FAILURE'' then Some (STA_AUTHENTICATED, False)
            else None) of
        None \<Rightarrow> None
      | Some (et, success) \<Rightarrow> Some
          \<lparr>we_event_type = et, we_peer_address = peer, we_observed_at = ta_observed_at e,
           we_source_mode = TIER1_WLAN_AUTH_EMULATION, we_sta_mac = nonempty (ta_sta_mac e),
           we_eap_identity = ta_eap_identity e, we_eap_success = success, we_akm = akm,
           we_ssid = Some ssid, we_ap_bssid = Some ap_bssid, we_binding_lifetime_s = lifetime\<rparr>)"

section \<open>Event sources\<close>

text \<open>One line of \<open>read_all\<close>: \<open>None\<close> when it yields nothing.\<close>

definition open5gs_read :: "line_reader \<Rightarrow> instant \<Rightarrow> string \<Rightarrow> open5gs_event option result" where
  "open5gs_read lr now line =
     (case lr_loads lr line of
        NotJson \<Rightarrow> Inr (open5gs_line now line)
      | JsonOther \<Rightarrow> Inl (PyAttributeError ''object has no attribute get'')
      | JsonObject rec \<Rightarrow> and_then (open5gs_record lr now rec) (\<lambda>e. Inr (Some e)))"

definition hwsim_read :: "line_reader \<Rightarrow> instant \<Rightarrow> string \<Rightarrow> hwsim_event option result" where
  "hwsim_read lr now line =
     (case lr_loads lr line of
        NotJson \<Rightarrow> Inr (hwsim_line now line)
      | JsonOther \<Rightarrow> Inl (PyAttributeError ''object has no attribute get'')
      | JsonObject rec \<Rightarrow> and_then (hwsim_record lr now rec) (\<lambda>e. Inr (Some e)))"

text \<open>Here a refused record, a \<open>CollectorError\<close>, is also read as a log line.\<close>

definition tier1_read :: "line_reader \<Rightarrow> instant \<Rightarrow> string \<Rightarrow> tier1_event option result" where
  "tier1_read lr now line =
     (case lr_loads lr line of
        NotJson \<Rightarrow> Inr (tier1_line now line)
      | JsonOther \<Rightarrow> Inl (PyAttributeError ''object has no attribute get'')
      | JsonObject rec \<Rightarrow>
          (case tier1_record lr now rec of
             Inr e \<Rightarrow> Inr (Some e)
           | Inl (CollectorError m) \<Rightarrow> Inr (tier1_line now line)
           | Inl e \<Rightarrow> Inl e))"

fun read_lines :: "(instant \<Rightarrow> string \<Rightarrow> 'e option result) \<Rightarrow> (nat \<Rightarrow> instant) \<Rightarrow> nat \<Rightarrow> string list \<Rightarrow> 'e list result" where
  "read_lines read_line now i [] = Inr []"
| "read_lines read_line now i (l # ls) =
     (let stripped = py_strip l
      in if stripped = [] then read_lines read_line now (Suc i) ls
         else and_then (read_line (now i) stripped) (\<lambda>oe.
              and_then (read_lines read_line now (Suc i) ls) (\<lambda>es.
                Inr (case oe of None \<Rightarrow> es | Some e \<Rightarrow> e # es))))"

definition read_all ::
  "(instant \<Rightarrow> string \<Rightarrow> 'e option result) \<Rightarrow> (nat \<Rightarrow> instant) \<Rightarrow> string list option \<Rightarrow> 'e list result" where
  "read_all read_line now stream =
     (case stream of None \<Rightarrow> Inr [] | Some lines \<Rightarrow> read_lines read_line now 0 lines)"

text \<open>\<open>read_new\<close>: the state is the offset; an exception leaves it.\<close>

definition read_new ::
  "(instant \<Rightarrow> string \<Rightarrow> 'e option result) \<Rightarrow> (nat \<Rightarrow> instant) \<Rightarrow> string list option \<Rightarrow> nat
     \<Rightarrow> 'e list result \<times> nat" where
  "read_new read_line now stream offset =
     (case read_all read_line now stream of
        Inl e \<Rightarrow> (Inl e, offset)
      | Inr events \<Rightarrow> (Inr (drop offset events), length events))"

section \<open>Provenance\<close>

lemma to_nr_live: "to_nr_access_event e peer lifetime = Some ev \<Longrightarrow>
    ne_source_mode ev = LIVE_TESTBED \<and> ne_observed_at ev = og_observed_at e
    \<and> Some (ne_peer_address ev) = str_or peer (og_peer_address e)
    \<and> (ne_event_type ev = SESSION_RELEASED \<longleftrightarrow> og_is_release e)"
  by (auto simp: to_nr_access_event_def split: option.splits if_splits)

lemma hwsim_to_wlan_live: "hwsim_to_wlan e peer ssid bssid lifetime = Some ev \<Longrightarrow>
    we_source_mode ev = LIVE_TESTBED \<and> we_observed_at ev = hw_observed_at e
    \<and> Some (we_peer_address ev) = str_or peer (hw_peer_address e)
    \<and> (we_eap_success ev \<longleftrightarrow> hw_event_type e \<in> set [''EAP_SUCCESS'', ''STA_AUTHENTICATED'', ''STA_ASSOCIATED''])"
  by (auto simp: hwsim_to_wlan_def split: option.splits if_splits)

lemma tier1_to_wlan_tier1: "tier1_to_wlan e peer ssid bssid akm lifetime = Some ev \<Longrightarrow>
    we_source_mode ev = TIER1_WLAN_AUTH_EMULATION \<and> we_peer_address ev = peer
    \<and> (we_eap_success ev \<longleftrightarrow> ta_event_type e \<in> set [''EAP_SUCCESS'', ''STA_AUTHENTICATED''])"
  by (auto simp: tier1_to_wlan_def split: option.splits if_splits)

text \<open>What each reader accepts of a record's own claims.\<close>

lemma open5gs_record_claims:
  assumes "open5gs_record lr now rec = Inr e"
  shows "text_field lr rec ''source_mode'' (source_mode_value LIVE_TESTBED) = source_mode_value LIVE_TESTBED"
    "text_field lr rec ''access_implementation'' UERANSIM = UERANSIM"
    "text_field lr rec ''testbed_type'' SOFTWARE_BASED = SOFTWARE_BASED"
  using assms by (simp_all add: open5gs_record_def Let_def split: if_splits)

lemma hwsim_record_claims:
  assumes "hwsim_record lr now rec = Inr e"
  shows "text_field lr rec ''source_mode'' (source_mode_value LIVE_TESTBED) = source_mode_value LIVE_TESTBED"
    "text_field lr rec ''access_implementation'' MAC80211_HWSIM = MAC80211_HWSIM"
    "text_field lr rec ''testbed_type'' SOFTWARE_BASED = SOFTWARE_BASED"
  using assms by (simp_all add: hwsim_record_def Let_def split: if_splits)

section \<open>Reading a growing stream\<close>

text \<open>What a reader's clock may influence: time stamps, not which lines yield an event or raise.\<close>

locale line_source =
  fixes read_line :: "instant \<Rightarrow> string \<Rightarrow> 'e option result"
  assumes raises: "read_line t l = Inl e \<Longrightarrow> read_line t' l = Inl e"
    and yields: "read_line t l = Inr None \<Longrightarrow> read_line t' l = Inr None"
begin

lemma same_kind:
  assumes "read_line t l = Inr oe"
  obtains oe' where "read_line t' l = Inr oe'" "oe' = None \<longleftrightarrow> oe = None"
  using assms raises [of t' l _ t] yields [of t l t'] yields [of t' l t]
  by (cases "read_line t' l") (auto simp del: not_None_eq)

lemma read_lines_length:
  "read_lines read_line now i ls = Inr es \<Longrightarrow>
     \<exists>es'. read_lines read_line now' j ls = Inr es' \<and> length es' = length es"
proof (induction ls arbitrary: i j es)
  case Nil
  then show ?case by simp
next
  case (Cons l ls)
  show ?case
  proof (cases "py_strip l = []")
    case True
    with Cons show ?thesis by simp
  next
    case False
    with Cons.prems obtain oe es1 where o: "read_line (now i) (py_strip l) = Inr oe"
        "read_lines read_line now (Suc i) ls = Inr es1" "es = (case oe of None \<Rightarrow> es1 | Some e \<Rightarrow> e # es1)"
      by (auto simp: Let_def and_then_Inr_iff)
    obtain oe' where "read_line (now' j) (py_strip l) = Inr oe'" "oe' = None \<longleftrightarrow> oe = None"
      using same_kind [OF o(1)] by blast
    moreover obtain es2 where "read_lines read_line now' (Suc j) ls = Inr es2" "length es2 = length es1"
      using Cons.IH [OF o(2)] by blast
    ultimately show ?thesis using False o(3) by (auto simp: Let_def split: option.splits)
  qed
qed

lemma read_lines_append:
  "read_lines read_line now i (ls @ ms) =
     and_then (read_lines read_line now i ls) (\<lambda>es.
       and_then (read_lines read_line now (i + length ls) ms) (\<lambda>fs. Inr (es @ fs)))"
proof (induction ls arbitrary: i)
  case Nil
  then show ?case by (cases "read_lines read_line now i ms") simp_all
next
  case (Cons l ls)
  then show ?case
    by (cases "read_line (now i) (py_strip l)"; cases "read_lines read_line now (Suc i) ls";
        cases "read_lines read_line now (Suc (i + length ls)) ms")
      (auto simp: Let_def split: option.splits)
qed

text \<open>After a read of \<open>ls\<close>, the next read of \<open>ls @ ms\<close> gives the events of \<open>ms\<close> and no other.\<close>

lemma reads_each_line_once:
  assumes "read_new read_line now (Some ls) k = (Inr old, off)"
    and "read_lines read_line now' (length ls) ms = Inr fresh"
  shows "read_new read_line now' (Some (ls @ ms)) off = (Inr fresh, off + length fresh)"
proof -
  obtain es where es: "read_lines read_line now 0 ls = Inr es" "off = length es"
    using assms(1) by (auto simp: read_new_def read_all_def split: sum.splits)
  obtain es' where "read_lines read_line now' 0 ls = Inr es'" "length es' = length es"
    using read_lines_length [OF es(1)] by blast
  with assms(2) es show ?thesis by (simp add: read_new_def read_all_def read_lines_append)
qed

text \<open>A line that raises blocks the stream for good, with its offset.\<close>

lemma refused_line_blocks:
  assumes "read_line t (py_strip l) = Inl e" "py_strip l \<noteq> []" "l \<in> set ls"
  shows "\<exists>e'. read_new read_line now (Some ls) off = (Inl e', off)"
proof -
  have "\<exists>e'. read_lines read_line now i ls = Inl e'" for i
    using assms(3)
  proof (induction ls arbitrary: i)
    case Nil
    then show ?case by simp
  next
    case (Cons x xs)
    show ?case
    proof (cases "x = l")
      case True
      with assms(1,2) raises [OF assms(1)] show ?thesis by (simp add: Let_def)
    next
      case False
      with Cons obtain e' where "read_lines read_line now (Suc i) xs = Inl e'" by auto
      then show ?thesis
        by (cases "read_line (now i) (py_strip x)") (simp_all add: Let_def)
    qed
  qed
  from this [of 0] show ?thesis by (auto simp: read_new_def read_all_def)
qed

end

lemma timestamp_raises: "parse_timestamp lr t v = Inl e \<Longrightarrow> parse_timestamp lr t' v = Inl e"
  by (auto simp: parse_timestamp_def split: if_splits json.splits)

lemma and_then_pure_Inl [simp]: "and_then r (\<lambda>x. Inr (f x)) = Inl e \<longleftrightarrow> r = Inl e"
  by (cases r) auto

lemma record_raises:
  "open5gs_record lr t rec = Inl e \<Longrightarrow> open5gs_record lr t' rec = Inl e"
  "hwsim_record lr t rec = Inl e \<Longrightarrow> hwsim_record lr t' rec = Inl e"
  "tier1_record lr t rec = Inl e \<Longrightarrow> tier1_record lr t' rec = Inl e"
  by (auto simp: open5gs_record_def hwsim_record_def tier1_record_def Let_def
      split: if_splits dest: timestamp_raises)

lemma open5gs_line_kind: "open5gs_line t l = None \<longleftrightarrow> open5gs_line t' l = None"
  by (simp add: open5gs_line_def Let_def split: option.split)

lemma hwsim_line_kind: "hwsim_line t l = None \<longleftrightarrow> hwsim_line t' l = None"
  by (cases "search False AUTHENTICATED l"; cases "search False AP_STA_CONNECTED l";
      cases "search False ASSOCIATED l"; cases "search False AP_STA_DISCONNECTED l")
    (simp_all add: hwsim_line_def)

lemma tier1_line_kind: "tier1_line t l = None \<longleftrightarrow> tier1_line t' l = None"
  by (cases "search False AUTHENTICATED l"; cases "search False AP_STA_CONNECTED l";
      cases "search False AP_STA_DISCONNECTED l")
    (simp_all add: tier1_line_def)

lemma tier1_read_eq:
  "tier1_read lr now line =
     (case lr_loads lr line of
        NotJson \<Rightarrow> Inr (tier1_line now line)
      | JsonOther \<Rightarrow> Inl (PyAttributeError ''object has no attribute get'')
      | JsonObject rec \<Rightarrow>
          (case tier1_record lr now rec of
             Inr e \<Rightarrow> Inr (Some e)
           | Inl e \<Rightarrow> if \<exists>m. e = CollectorError m then Inr (tier1_line now line) else Inl e))"
  unfolding tier1_read_def by (auto split: parsed_line.split sum.split error.split)

lemma read_raises:
  "open5gs_read lr t l = Inl e \<Longrightarrow> open5gs_read lr t' l = Inl e"
  "hwsim_read lr t l = Inl e \<Longrightarrow> hwsim_read lr t' l = Inl e"
  "tier1_read lr t l = Inl e \<Longrightarrow> tier1_read lr t' l = Inl e"
  by (auto simp: open5gs_read_def hwsim_read_def tier1_read_eq
      split: parsed_line.splits sum.splits if_splits dest: record_raises [where t' = t'])

lemma read_yields:
  "open5gs_read lr t l = Inr None \<Longrightarrow> open5gs_read lr t' l = Inr None"
  "hwsim_read lr t l = Inr None \<Longrightarrow> hwsim_read lr t' l = Inr None"
  using open5gs_line_kind [of t l t'] hwsim_line_kind [of t l t']
  by (auto simp: open5gs_read_def hwsim_read_def and_then_Inr_iff split: parsed_line.splits)

lemma tier1_read_yields: "tier1_read lr t l = Inr None \<Longrightarrow> tier1_read lr t' l = Inr None"
  using tier1_line_kind [of t l t']
  by (auto simp: tier1_read_eq split: parsed_line.splits sum.splits if_splits
      dest: record_raises(3) [of lr t _ _ t'] record_raises(3) [of lr t' _ _ t])

interpretation open5gs: line_source "open5gs_read lr"
  by unfold_locales (fact read_raises read_yields)+

interpretation hwsim: line_source "hwsim_read lr"
  by unfold_locales (fact read_raises read_yields)+

interpretation tier1: line_source "tier1_read lr"
  by unfold_locales (fact read_raises tier1_read_yields)+

section \<open>What the patterns extract\<close>

definition mac_form :: "string \<Rightarrow> bool" where
  "mac_form s \<longleftrightarrow> length s = 17 \<and> list_all mac_char s"

lemma mac_groups:
  "p \<in> {AUTHENTICATED, AP_STA_CONNECTED, AP_STA_DISCONNECTED, ASSOCIATED} \<Longrightarrow>
     sets_group ''mac'' p \<and> groups_satisfy (\<lambda>k s. k = ''mac'' \<longrightarrow> mac_form s) ic p"
  by (auto simp: AUTHENTICATED_def AP_STA_CONNECTED_def AP_STA_DISCONNECTED_def ASSOCIATED_def
      mac_pattern_def mac_form_def split: if_splits)

lemma matched_mac:
  assumes "search ic p l = Some c" "p \<in> {AUTHENTICATED, AP_STA_CONNECTED, AP_STA_DISCONNECTED, ASSOCIATED}"
  shows "mac_form (or_text (grp ''mac'' c) [])"
proof -
  obtain s where "grp ''mac'' c = Some s" "mac_form s"
    using search_group [OF assms(1)] mac_groups [OF assms(2), of ic] by blast
  then show ?thesis by (cases s) (simp_all add: or_text_def mac_form_def)
qed

lemma hwsim_line_mac:
  "hwsim_line t l = Some e \<Longrightarrow> hw_event_type e = ''EAP_FAILURE'' \<and> hw_sta_mac e = [] \<or> mac_form (hw_sta_mac e)"
  by (auto simp: hwsim_line_def hwsim_observed_def matched_mac split: option.splits if_splits)

lemma tier1_line_mac:
  "tier1_line t l = Some e \<Longrightarrow> ta_sta_mac e = [] \<or> mac_form (ta_sta_mac e)"
  by (auto simp: tier1_line_def tier1_observed_def matched_mac split: option.splits if_splits)

section \<open>Where the readers fall short\<close>

text \<open>A release read from a log line names no address.\<close>

lemma release_line_has_no_address:
  "open5gs_line t l = Some e \<Longrightarrow> og_is_release e \<Longrightarrow> og_peer_address e = None"
  by (auto simp: open5gs_line_def og_is_release_def Let_def split: option.splits)

text \<open>A disconnection counts as a success.\<close>

lemma disconnection_succeeds:
  "hwsim_line t l = Some e \<Longrightarrow> hw_event_type e = ''STA_DISCONNECTED'' \<Longrightarrow> hw_succeeded e"
  by (auto simp: hwsim_line_def hwsim_observed_def hw_succeeded_def py_upper_def upper_char_def
      split: option.splits if_splits)

text \<open>A record the Tier-1 collector refuses for its provenance is read again, as a log line.\<close>

lemma tier1_refused_record_is_read:
  assumes "lr_loads lr line = JsonObject rec"
    and "text_field lr rec ''source_mode'' (source_mode_value TIER1_WLAN_AUTH_EMULATION)
           \<noteq> source_mode_value TIER1_WLAN_AUTH_EMULATION"
  shows "tier1_read lr now line = Inr (tier1_line now line)"
  using assms by (simp add: tier1_read_def tier1_record_def Let_def)

end
