(* ===== verification/Scenario.thy ===== *)
theory Scenario
  imports Complex_Main Enforcement Audit_Log
begin

text \<open>
  What an experiment declares before it runs (\<^verbatim>\<open>experiments/schemas/scenario.py\<close>): the kinds of
  steps, the ground-truth labels with the actions that satisfy each of them, scenarios with the
  checks pydantic runs on them, and the scenario clock (\<^verbatim>\<open>src/ca_ztcf/clock.py\<close>).

  A field constrained by \<open>ge=0\<close> is a natural number; seconds of scenario time are whole microseconds,
  as in the rest of the development; a fraction is an exact rational. Reading YAML is not modelled: a
  scenario is taken as parsed, and \<open>scenario_check\<close> is the validation of the parsed value.

  Shown: what a validated scenario guarantees to the runner, and that the satisfying actions follow the
  labels (a legitimate label accepts everything at least as permissive, an adversarial one nothing that
  lets the device proceed).
\<close>

section \<open>Steps\<close>

datatype event_kind =
    NR_SESSION
  | WLAN_SESSION
  | MQTT_CONNECT
  | MQTT_PUBLISH
  | MQTT_SUBSCRIBE
  | MQTT_DISCONNECT
  | TRANSITION
  | ADVANCE_TIME
  | EXPECT_DECISION
  | COLLECTOR_OUTAGE
  | COLLECTOR_RECOVERY
  | IDENTITY_MISMATCH
  | UNAUTHORIZED_CONTEXT
  | SESSION_MISMATCH
  | STALE_EVIDENCE
  | RAPID_TRANSITIONS
  | CONCURRENT_TRANSITION
  | DEVICE_SWEEP
  | MIXED_WORKLOAD

fun kind_value :: "event_kind \<Rightarrow> string" where
  "kind_value NR_SESSION = ''nr_session''"
| "kind_value WLAN_SESSION = ''wlan_session''"
| "kind_value MQTT_CONNECT = ''mqtt_connect''"
| "kind_value MQTT_PUBLISH = ''mqtt_publish''"
| "kind_value MQTT_SUBSCRIBE = ''mqtt_subscribe''"
| "kind_value MQTT_DISCONNECT = ''mqtt_disconnect''"
| "kind_value TRANSITION = ''transition''"
| "kind_value ADVANCE_TIME = ''advance_time''"
| "kind_value EXPECT_DECISION = ''expect_decision''"
| "kind_value COLLECTOR_OUTAGE = ''collector_outage''"
| "kind_value COLLECTOR_RECOVERY = ''collector_recovery''"
| "kind_value IDENTITY_MISMATCH = ''identity_mismatch''"
| "kind_value UNAUTHORIZED_CONTEXT = ''unauthorized_context''"
| "kind_value SESSION_MISMATCH = ''session_mismatch''"
| "kind_value STALE_EVIDENCE = ''stale_evidence''"
| "kind_value RAPID_TRANSITIONS = ''rapid_transitions''"
| "kind_value CONCURRENT_TRANSITION = ''concurrent_transition''"
| "kind_value DEVICE_SWEEP = ''device_sweep''"
| "kind_value MIXED_WORKLOAD = ''mixed_workload''"

section \<open>Ground truth\<close>

datatype ground_truth_label =
    LEGITIMATE_ALLOW
  | LEGITIMATE_RESTRICT
  | LEGITIMATE_STEP_UP
  | MALICIOUS_REJECT
  | MALICIOUS_QUARANTINE
  | NOT_APPLICABLE

fun label_value :: "ground_truth_label \<Rightarrow> string" where
  "label_value LEGITIMATE_ALLOW = ''LEGITIMATE_ALLOW''"
| "label_value LEGITIMATE_RESTRICT = ''LEGITIMATE_RESTRICT''"
| "label_value LEGITIMATE_STEP_UP = ''LEGITIMATE_STEP_UP''"
| "label_value MALICIOUS_REJECT = ''MALICIOUS_REJECT''"
| "label_value MALICIOUS_QUARANTINE = ''MALICIOUS_QUARANTINE''"
| "label_value NOT_APPLICABLE = ''NOT_APPLICABLE''"

definition ground_truth_labels :: "ground_truth_label list" where
  "ground_truth_labels =
     [LEGITIMATE_ALLOW, LEGITIMATE_RESTRICT, LEGITIMATE_STEP_UP, MALICIOUS_REJECT,
      MALICIOUS_QUARANTINE, NOT_APPLICABLE]"

text \<open>\<open>GroundTruthLabel(label)\<close>; \<open>None\<close> is the \<open>ValueError\<close> of an unknown value.\<close>

definition parse_label :: "string \<Rightarrow> ground_truth_label option" where
  "parse_label s = List.find (\<lambda>l. label_value l = s) ground_truth_labels"

definition LEGITIMATE_LABELS :: "ground_truth_label list" where
  "LEGITIMATE_LABELS = [LEGITIMATE_ALLOW, LEGITIMATE_RESTRICT, LEGITIMATE_STEP_UP]"

definition ADVERSARIAL_LABELS :: "ground_truth_label list" where
  "ADVERSARIAL_LABELS = [MALICIOUS_REJECT, MALICIOUS_QUARANTINE]"

definition is_legitimate :: "ground_truth_label \<Rightarrow> bool" where
  "is_legitimate l \<longleftrightarrow> l \<in> set LEGITIMATE_LABELS"

definition is_adversarial :: "ground_truth_label \<Rightarrow> bool" where
  "is_adversarial l \<longleftrightarrow> l \<in> set ADVERSARIAL_LABELS"

definition scored :: "ground_truth_label \<Rightarrow> bool" where
  "scored l \<longleftrightarrow> l \<noteq> NOT_APPLICABLE"

definition ACCEPTABLE_ACTIONS :: "(ground_truth_label, string list) dict" where
  "ACCEPTABLE_ACTIONS =
     [(LEGITIMATE_ALLOW, [''ALLOW'']),
      (LEGITIMATE_RESTRICT, [''ALLOW'', ''ALLOW_WITH_RESTRICTIONS'']),
      (LEGITIMATE_STEP_UP, [''ALLOW'', ''ALLOW_WITH_RESTRICTIONS'', ''STEP_UP_AUTHENTICATION'']),
      (MALICIOUS_REJECT, [''DENY'', ''REAUTHENTICATE'', ''QUARANTINE'']),
      (MALICIOUS_QUARANTINE, [''QUARANTINE'', ''DENY'', ''REAUTHENTICATE''])]"

text \<open>\<open>action in ACCEPTABLE_ACTIONS.get(label, frozenset())\<close>\<close>

definition acceptable :: "ground_truth_label \<Rightarrow> string \<Rightarrow> bool" where
  "acceptable l a \<longleftrightarrow> a \<in> set (case dget ACCEPTABLE_ACTIONS l of None \<Rightarrow> [] | Some as \<Rightarrow> as)"

section \<open>Scenarios\<close>

record scenario_event =
  sev_step :: nat
  sev_kind :: event_kind
  sev_device_index :: nat
  sev_other_device_index :: "nat option"
  sev_domain :: "access_domain option"
  sev_topic :: "string option"
  sev_payload :: "(string, json) dict"
  sev_advance :: int
  sev_repeat :: nat
  sev_interval :: int
  sev_device_range :: "(int \<times> int) option"
  sev_session_identity :: "string option"
  sev_posture_override :: "(string, string) dict"
  sev_legitimate_fraction :: "rat option"
  sev_adversarial_kinds :: "string list"
  sev_ground_truth :: ground_truth_label
  sev_expected_trust_state :: "trust_state option"
  sev_expected_action :: "policy_action option"
  sev_expected_actions :: "policy_action list"
  sev_expect_permitted :: "bool option"
  sev_note :: string

text \<open>The field bounds, then the model validator \<open>_expectation_is_single_valued\<close>.\<close>

definition event_fields_valid :: "scenario_event \<Rightarrow> bool" where
  "event_fields_valid e \<longleftrightarrow>
     0 \<le> sev_advance e \<and> 1 \<le> sev_repeat e \<and> 0 \<le> sev_interval e
     \<and> (case sev_legitimate_fraction e of None \<Rightarrow> True | Some f \<Rightarrow> 0 \<le> f \<and> f \<le> 1)"

definition event_check :: "scenario_event \<Rightarrow> unit result" where
  "event_check e =
     (if \<not> event_fields_valid e then Inl (PyValueError ''validation error for ScenarioEvent'')
      else if sev_expected_action e \<noteq> None \<and> sev_expected_actions e \<noteq> [] then
        Inl (PyValueError ''declare either expected_action or expected_actions, not both'')
      else if sev_kind e \<in> set [MQTT_PUBLISH, MQTT_SUBSCRIBE] \<and> scored (sev_ground_truth e)
              \<and> sev_expect_permitted e = None then
        Inl (PyValueError (''step '' @ show_nat (sev_step e) @ '': a scored '' @ kind_value (sev_kind e)
          @ '' must declare expect_permitted, so the expectation cannot be inferred after the fact''))
      else Inr ())"

record scenario_setup =
  sup_register_devices :: bool
  sup_nr_address_prefix :: string
  sup_wlan_address_prefix :: string
  sup_address_offset :: nat
  sup_address_stride :: nat
  sup_initial_domain :: access_domain
  sup_telemetry_topic :: string
  sup_command_topic :: string
  sup_nr_source_mode :: source_mode
  sup_wlan_source_mode :: source_mode

definition default_setup :: scenario_setup where
  "default_setup =
     \<lparr>sup_register_devices = True, sup_nr_address_prefix = ''10.45.0.'',
      sup_wlan_address_prefix = ''192.168.60.'', sup_address_offset = 2, sup_address_stride = 1,
      sup_initial_domain = NR, sup_telemetry_topic = ''dev/{device_id}/telemetry/reading'',
      sup_command_topic = ''cmd/{device_id}/set'', sup_nr_source_mode = SYNTHETIC_FIXTURE,
      sup_wlan_source_mode = TIER1_WLAN_AUTH_EMULATION\<rparr>"

definition setup_valid :: "scenario_setup \<Rightarrow> bool" where
  "setup_valid s \<longleftrightarrow> 1 \<le> sup_address_offset s \<and> 1 \<le> sup_address_stride s
     \<and> sup_nr_source_mode s = SYNTHETIC_FIXTURE \<and> sup_wlan_source_mode s = TIER1_WLAN_AUTH_EMULATION"

datatype measurement_tier = TIER1 | TIER2

fun tier_value :: "measurement_tier \<Rightarrow> string" where
  "tier_value TIER1 = ''tier1''"
| "tier_value TIER2 = ''tier2''"

record scenario_truth =
  gtr_description :: string
  gtr_legitimate_transitions :: nat
  gtr_illegitimate_transitions :: nat
  gtr_device_is_legitimate :: bool
  gtr_adversarial :: bool
  gtr_threat_ids :: "string list"

record expected_policy_behavior =
  epb_description :: string
  epb_must_contain_actions :: "policy_action list"
  epb_must_not_contain_actions :: "policy_action list"
  epb_must_contain_states :: "trust_state list"
  epb_must_not_contain_states :: "trust_state list"
  epb_strategy_specific :: "(string, (string, json) dict) dict"

datatype strategy_choice = OneStrategy string | StrategyList "string list"

record scenario =
  scn_scenario_id :: string
  scn_name :: string
  scn_description :: string
  scn_strategy :: strategy_choice
  scn_device_count :: nat
  scn_seed :: nat
  scn_measurement_tier :: measurement_tier
  scn_supported_tiers :: "measurement_tier list"
  scn_device_counts :: "int list"
  scn_transition_rates_per_s :: "rat list"
  scn_setup :: scenario_setup
  scn_event_sequence :: "scenario_event list"
  scn_ground_truth :: scenario_truth
  scn_expected_policy_behavior :: expected_policy_behavior
  scn_metrics_to_collect :: "string list"

text \<open>The pattern \<open>E\<close> and two decimal digits.\<close>

definition is_digit :: "char \<Rightarrow> bool" where
  "is_digit c \<longleftrightarrow> 48 \<le> (of_char c :: nat) \<and> (of_char c :: nat) \<le> 57"

definition scenario_id_valid :: "string \<Rightarrow> bool" where
  "scenario_id_valid s \<longleftrightarrow> length s = 3 \<and> hd s = CHR ''E'' \<and> list_all is_digit (tl s)"

text \<open>One event of the loop of \<open>_steps_are_ordered\<close>.\<close>

definition event_targets_check :: "nat \<Rightarrow> scenario_event \<Rightarrow> unit result" where
  "event_targets_check n e =
     (if n \<le> sev_device_index e then
        Inl (PyValueError (''step '' @ show_nat (sev_step e) @ '' targets device_index ''
          @ show_nat (sev_device_index e) @ '' but the scenario declares only '' @ show_nat n @ '' device(s)''))
      else (case sev_other_device_index e of
              None \<Rightarrow> Inr ()
            | Some i \<Rightarrow>
                if n \<le> i then
                  Inl (PyValueError (''step '' @ show_nat (sev_step e) @ '' targets other_device_index ''
                    @ show_nat i @ '' beyond device_count '' @ show_nat n))
                else Inr ()))"

fun each :: "('a \<Rightarrow> unit result) \<Rightarrow> 'a list \<Rightarrow> unit result" where
  "each f [] = Inr ()"
| "each f (x # xs) = and_then (f x) (\<lambda>_. each f xs)"

definition scenario_check :: "scenario \<Rightarrow> unit result" where
  "scenario_check s =
     and_then (each event_check (scn_event_sequence s)) (\<lambda>_.
     (if \<not> (scenario_id_valid (scn_scenario_id s) \<and> 1 \<le> scn_device_count s \<and> setup_valid (scn_setup s)) then
        Inl (PyValueError ''validation error for Scenario'')
      else if map sev_step (scn_event_sequence s) \<noteq> sort (map sev_step (scn_event_sequence s)) then
        Inl (PyValueError ''event_sequence steps must be in ascending order'')
      else if scn_event_sequence s = [] then
        Inl (PyValueError ''a scenario must declare at least one event'')
      else and_then (each (event_targets_check (scn_device_count s)) (scn_event_sequence s)) (\<lambda>_.
        if scn_device_counts s \<noteq> [] \<and> Max (set (scn_device_counts s)) < int (scn_device_count s) then
          Inl (PyValueError ''device_counts must cover at least device_count'')
        else Inr ())))"

definition scored_events :: "scenario \<Rightarrow> scenario_event list" where
  "scored_events s = filter (\<lambda>e. scored (sev_ground_truth e)) (scn_event_sequence s)"

definition scenario_strategies :: "scenario \<Rightarrow> string list \<Rightarrow> string list" where
  "scenario_strategies s available =
     (case scn_strategy s of
        OneStrategy n \<Rightarrow> if n = ''all'' then available else [n]
      | StrategyList ns \<Rightarrow> ns)"

text \<open>
  \<open>load_scenarios\<close> on the parsed files in the order of their names: the first that fails to validate
  raises, and so does a repeated identifier.
\<close>

fun unique_ids :: "string list \<Rightarrow> scenario list \<Rightarrow> scenario list result" where
  "unique_ids seen [] = Inr []"
| "unique_ids seen (s # ss) =
     (if scn_scenario_id s \<in> set seen then
        Inl (PyValueError (''duplicate scenario_id '' @ quoted (scn_scenario_id s)))
      else and_then (unique_ids (scn_scenario_id s # seen) ss) (\<lambda>rest. Inr (s # rest)))"

definition load_scenarios :: "scenario list \<Rightarrow> scenario list result" where
  "load_scenarios parsed = and_then (each scenario_check parsed) (\<lambda>_. unique_ids [] parsed)"

section \<open>The scenario clock\<close>

record frozen_clock =
  fc_now :: instant
  fc_monotonic_ns :: int

definition new_frozen_clock :: "instant option \<Rightarrow> frozen_clock" where
  "new_frozen_clock start =
     \<lparr>fc_now = (case start of Some t \<Rightarrow> t | None \<Rightarrow> 1767225600000000), fc_monotonic_ns = 0\<rparr>"

text \<open>
  \<open>advance\<close>, with the total in microseconds. A \<open>datetime\<close> ends with the year 9999: a sum past its last
  microsecond raises, and neither counter has moved then.
\<close>

definition datetime_max :: instant where
  "datetime_max = 253402300799999999"

definition clock_advance :: "frozen_clock \<Rightarrow> int \<Rightarrow> frozen_clock result" where
  "clock_advance c us =
     (if us < 0 then Inl (PyValueError ''FrozenClock cannot move backwards'')
      else if datetime_max < fc_now c + us then Inl (PyOverflowError ''date value out of range'')
      else Inr (c\<lparr>fc_now := fc_now c + us, fc_monotonic_ns := fc_monotonic_ns c + us * 1000\<rparr>))"

definition clock_set :: "frozen_clock \<Rightarrow> instant \<Rightarrow> frozen_clock" where
  "clock_set c t = c\<lparr>fc_now := t\<rparr>"

section \<open>Facts\<close>

lemma parse_label_value [simp]: "parse_label (label_value l) = Some l"
  by (cases l) (simp_all add: parse_label_def ground_truth_labels_def)

lemma label_value_inject [simp]: "label_value a = label_value b \<longleftrightarrow> a = b"
  by (metis parse_label_value option.inject)

lemma label_cases: "is_legitimate l \<and> \<not> is_adversarial l \<and> scored l
    \<or> \<not> is_legitimate l \<and> is_adversarial l \<and> scored l
    \<or> l = NOT_APPLICABLE \<and> \<not> is_legitimate l \<and> \<not> is_adversarial l \<and> \<not> scored l"
  by (cases l) (simp_all add: is_legitimate_def is_adversarial_def scored_def LEGITIMATE_LABELS_def
      ADVERSARIAL_LABELS_def)

lemma each_Inr: "each f xs = Inr () \<longleftrightarrow> (\<forall>x \<in> set xs. f x = Inr ())"
  by (induction xs) (auto simp: and_then_Inr_iff)

text \<open>What the runner may rely on.\<close>

definition runnable :: "scenario \<Rightarrow> bool" where
  "runnable s \<longleftrightarrow> scn_event_sequence s \<noteq> [] \<and> sorted (map sev_step (scn_event_sequence s))
     \<and> 1 \<le> scn_device_count s \<and> setup_valid (scn_setup s)
     \<and> list_all (\<lambda>e. event_check e = Inr () \<and> sev_device_index e < scn_device_count s
         \<and> (case sev_other_device_index e of None \<Rightarrow> True | Some i \<Rightarrow> i < scn_device_count s))
         (scn_event_sequence s)"

lemma event_targets_Inr: "event_targets_check n e = Inr () \<longleftrightarrow> sev_device_index e < n
    \<and> (case sev_other_device_index e of None \<Rightarrow> True | Some i \<Rightarrow> i < n)"
  by (auto simp: event_targets_check_def split: option.splits)

lemma scenario_check_runnable:
  assumes "scenario_check s = Inr ()"
  shows "runnable s"
proof -
  have "map sev_step (scn_event_sequence s) = sort (map sev_step (scn_event_sequence s))"
    using assms by (simp add: scenario_check_def and_then_Inr_iff split: if_splits)
  then have "sorted (map sev_step (scn_event_sequence s))" by (metis sorted_sort)
  with assms show ?thesis
    by (simp add: scenario_check_def runnable_def and_then_Inr_iff each_Inr event_targets_Inr
        list_all_iff split: if_splits)
qed

lemma unique_ids_Inr: "unique_ids seen ss = Inr rs \<Longrightarrow>
    rs = ss \<and> distinct (map scn_scenario_id ss) \<and> set (map scn_scenario_id ss) \<inter> set seen = {}"
  by (induction ss arbitrary: seen rs) (force simp: and_then_Inr_iff split: if_splits)+

lemma clock_advance_forward: "clock_advance c us = Inr c' \<Longrightarrow> fc_now c \<le> fc_now c'"
  by (auto simp: clock_advance_def split: if_splits)

text \<open>Permissiveness of actions, most permissive first.\<close>

definition action_rank :: "policy_action \<Rightarrow> nat" where
  "action_rank a = (case a of ALLOW \<Rightarrow> 0 | ALLOW_WITH_RESTRICTIONS \<Rightarrow> 1 | STEP_UP_AUTHENTICATION \<Rightarrow> 2
     | QUARANTINE \<Rightarrow> 3 | REAUTHENTICATE \<Rightarrow> 4 | DENY \<Rightarrow> 5)"

lemma acceptable_by_rank:
  "acceptable l (action_value a) \<longleftrightarrow>
     (case l of LEGITIMATE_ALLOW \<Rightarrow> action_rank a = 0 | LEGITIMATE_RESTRICT \<Rightarrow> action_rank a \<le> 1
      | LEGITIMATE_STEP_UP \<Rightarrow> action_rank a \<le> 2 | MALICIOUS_REJECT \<Rightarrow> 3 \<le> action_rank a
      | MALICIOUS_QUARANTINE \<Rightarrow> 3 \<le> action_rank a | NOT_APPLICABLE \<Rightarrow> False)"
  by (cases l; cases a) (simp_all add: acceptable_def ACCEPTABLE_ACTIONS_def action_rank_def)

end
