(* ===== verification/Run_Metrics.thy ===== *)
theory Run_Metrics
  imports Scenario
begin

text \<open>
  What an experiment run measures (\<^verbatim>\<open>experiments/runner/metrics.py\<close>): the table of metrics, the
  collector of samples, counters and scored steps, the confusion counts, and the descriptive
  statistics of a series of samples. A sample is an exact rational where the code holds a float.

  Shown: the counters of false acceptances, false rejections and correct decisions are exactly those of
  the list of scored steps, the confusion counts split the labelled steps, every counter derived from
  decisions agrees with the decisions, and the statistics come in order.
\<close>

section \<open>The table of metrics\<close>

datatype measurement_subject =
    S_APPLICATION
  | S_CA_ZTCF
  | S_EAP_AUTH_PATH
  | S_SYNTHETIC_NR_CONTEXT
  | S_LIVE_NR_CONTEXT
  | S_LIVE_WLAN_CONTEXT
  | S_TRANSITION_ORCHESTRATION
  | S_RESOURCE

fun subject_value :: "measurement_subject \<Rightarrow> string" where
  "subject_value S_APPLICATION = ''application''"
| "subject_value S_CA_ZTCF = ''ca_ztcf''"
| "subject_value S_EAP_AUTH_PATH = ''eap_authentication_path''"
| "subject_value S_SYNTHETIC_NR_CONTEXT = ''synthetic_nr_context''"
| "subject_value S_LIVE_NR_CONTEXT = ''live_nr_context''"
| "subject_value S_LIVE_WLAN_CONTEXT = ''live_wlan_context''"
| "subject_value S_TRANSITION_ORCHESTRATION = ''transition_orchestration''"
| "subject_value S_RESOURCE = ''resource''"

record metric_def =
  md_metric_id :: string
  md_name :: string
  md_unit :: string
  md_subject :: measurement_subject
  md_definition :: string

definition metric_definition ::
  "string \<Rightarrow> string \<Rightarrow> string \<Rightarrow> measurement_subject \<Rightarrow> string \<Rightarrow> string \<times> metric_def" where
  "metric_definition i n u s d =
     (i, \<lparr>md_metric_id = i, md_name = n, md_unit = u, md_subject = s, md_definition = d\<rparr>)"

definition METRIC_DEFINITIONS :: "(string, metric_def) dict" where
  "METRIC_DEFINITIONS = [
     metric_definition ''M1'' ''authentication_latency'' ''ms'' S_APPLICATION
       (''Authentication latency. At the application this is CONNECT to CONNACK; on the WLAN '' @
        ''path it is the EAP-TLS exchange. The subject is recorded per sample so the two are '' @
        ''never conflated.''),
     metric_definition ''M2'' ''transition_duration'' ''ms'' S_TRANSITION_ORCHESTRATION
       (''Access-context switch initiated to the first decision under the new context. '' @
        ''Orchestration time; NOT an 802.11 handover latency.''),
     metric_definition ''M3'' ''decision_latency'' ''ms'' S_CA_ZTCF
       (''Decision request issued to decision returned, measured at the caller.''),
     metric_definition ''M4'' ''application_transition_completion'' ''ms'' S_APPLICATION
       (''Transition initiated to the device regaining its full access scope.''),
     metric_definition ''M5'' ''reauthentication_count'' ''count'' S_CA_ZTCF
       (''Number of REAUTHENTICATE actions issued.''),
     metric_definition ''M6'' ''step_up_count'' ''count'' S_CA_ZTCF
       (''Number of STEP_UP_AUTHENTICATION actions issued.''),
     metric_definition ''M7'' ''trust_state_transitions'' ''count'' S_CA_ZTCF
       (''Count of trust-state changes, by (from, to) pair.''),
     metric_definition ''M8'' ''messages_exchanged'' ''count'' S_APPLICATION
       (''MQTT control packets exchanged between device and enforcement point.''),
     metric_definition ''M9'' ''bytes_exchanged'' ''bytes'' S_APPLICATION
       (''Bytes on the device-to-enforcement-point socket, by direction.''),
     metric_definition ''M10'' ''ca_ztcf_cpu'' ''percent'' S_RESOURCE
       (''CPU utilisation of the measured subject: a container where a container deployment is '' @
        ''measured, otherwise the experiment process, as CPU seconds over wall time. NEVER an '' @
        ''IoT device. Each run records which subject it measured.''),
     metric_definition ''M11'' ''ca_ztcf_memory'' ''MiB'' S_RESOURCE
       (''Resident memory of the measured subject: a container where a container deployment is '' @
        ''measured, otherwise the experiment process's peak resident set. NEVER an IoT device. '' @
        ''Each run records which subject it measured.''),
     metric_definition ''M12'' ''engine_evaluation_time'' ''us'' S_CA_ZTCF
       (''Pure predicate evaluation and state derivation, excluding transport.''),
     metric_definition ''M13'' ''successful_legitimate_transitions'' ''count'' S_CA_ZTCF
       (''Transitions labelled legitimate that completed without denial or quarantine.''),
     metric_definition ''M14'' ''denied_restricted_transitions'' ''count'' S_CA_ZTCF
       (''Transitions that received DENY, QUARANTINE or a blocking step-up.''),
     metric_definition ''M15'' ''false_acceptance_raw'' ''count'' S_CA_ZTCF
       (''Steps labelled illegitimate that were allowed. Raw count, always reported with its '' @
        ''denominator.''),
     metric_definition ''M16'' ''false_rejection_raw'' ''count'' S_CA_ZTCF
       (''Steps labelled legitimate that were denied or quarantined. Raw count, always '' @
        ''reported with its denominator.''),
     metric_definition ''M17'' ''correct_decisions_raw'' ''count'' S_CA_ZTCF
       (''Correct acceptances and correct rejections, as raw counts.''),
     metric_definition ''M18'' ''policy_action_distribution'' ''count'' S_CA_ZTCF
       (''Count of decisions per policy action.''),
     metric_definition ''M19'' ''mqtt_operation_outcomes'' ''count'' S_APPLICATION
       (''MQTT publishes and subscriptions, split by permitted and refused.''),
     metric_definition ''M20'' ''run_metadata'' ''n/a'' S_CA_ZTCF
       (''Device count, seed, durations and environment metadata for the run.''),
     metric_definition ''M1_EAP'' ''eap_authentication_latency'' ''ms'' S_EAP_AUTH_PATH
       (''Time to obtain the WLAN access context. On Tier 1 this is an 802.1X/EAP-TLS '' @
        ''authentication-path exchange over a wired driver; on Tier 2 it is an observation '' @
        ''read from hostapd's own log of a real 802.11 association and EAP-TLS exchange over a '' @
        ''simulated PHY. Each run records which. NOT a radio measurement in either case.''),
     metric_definition ''M1_NR'' ''nr_context_latency'' ''ms'' S_SYNTHETIC_NR_CONTEXT
       (''Time to obtain the 5G access context. On Tier 1 this is a synthetic fixture and '' @
        ''costs nothing to establish; on Tier 2 it is an observation read from a live Open5GS '' @
        ''core. Each run records which. It is the cost of obtaining the context, NOT a radio '' @
        ''measurement in either case.'')]"

section \<open>Counters and grouped lists\<close>

text \<open>A Python \<open>Counter\<close>: an absent key counts zero.\<close>

definition count_of :: "(string, int) dict \<Rightarrow> string \<Rightarrow> int" where
  "count_of d k = (case dget d k of None \<Rightarrow> 0 | Some n \<Rightarrow> n)"

definition counter_add :: "string \<Rightarrow> int \<Rightarrow> (string, int) dict \<Rightarrow> (string, int) dict" where
  "counter_add k n d = dset k (count_of d k + n) d"

definition counter_total :: "(string, int) dict \<Rightarrow> int" where
  "counter_total d = sum_list (map snd d)"

text \<open>\<open>Counter(xs)\<close>\<close>

definition counter_of :: "string list \<Rightarrow> (string, int) dict" where
  "counter_of xs = fold (\<lambda>x. counter_add x 1) xs []"

text \<open>\<open>d.setdefault(k, []).append(v)\<close> and \<open>d.setdefault(k, v)\<close>\<close>

definition append_at :: "string \<Rightarrow> 'a \<Rightarrow> (string, 'a list) dict \<Rightarrow> (string, 'a list) dict" where
  "append_at k v d = dset k ((case dget d k of None \<Rightarrow> [] | Some xs \<Rightarrow> xs) @ [v]) d"

definition setdefault :: "string \<Rightarrow> 'a \<Rightarrow> (string, 'a) dict \<Rightarrow> (string, 'a) dict" where
  "setdefault k v d = (case dget d k of None \<Rightarrow> dset k v d | Some _ \<Rightarrow> d)"

text \<open>\<open>dict(sorted(d.items()))\<close>: by key, the keys being distinct.\<close>

definition sorted_items :: "(string, 'a) dict \<Rightarrow> (string, 'a) dict" where
  "sorted_items d = sort_key fst d"

section \<open>Descriptive statistics\<close>

record stats =
  sta_count :: nat
  sta_median :: rat
  sta_q1 :: rat
  sta_q3 :: rat
  sta_iqr :: rat
  sta_p95 :: rat
  sta_min :: rat
  sta_max :: rat
  sta_mean :: rat

datatype description = NoSamples | Described stats

definition percentile :: "rat list \<Rightarrow> rat \<Rightarrow> rat" where
  "percentile ordered fraction =
     (if length ordered = 1 then ordered ! 0
      else (let position = fraction * of_nat (length ordered - 1);
                lower = nat \<lfloor>position\<rfloor>;
                upper = min (lower + 1) (length ordered - 1);
                weight = position - of_nat lower
            in ordered ! lower * (1 - weight) + ordered ! upper * weight))"

text \<open>\<open>statistics.median\<close> of a sorted list\<close>

definition py_median :: "rat list \<Rightarrow> rat" where
  "py_median xs =
     (let n = length xs
      in if odd n then xs ! (n div 2) else (xs ! (n div 2 - 1) + xs ! (n div 2)) / 2)"

definition describe :: "rat list \<Rightarrow> description" where
  "describe values =
     (if values = [] then NoSamples
      else (let ordered = sort values
            in Described
              \<lparr>sta_count = length ordered, sta_median = py_median ordered,
               sta_q1 = percentile ordered (1 / 4), sta_q3 = percentile ordered (3 / 4),
               sta_iqr = percentile ordered (3 / 4) - percentile ordered (1 / 4),
               sta_p95 = percentile ordered (95 / 100),
               sta_min = ordered ! 0, sta_max = last ordered,
               sta_mean = sum_list ordered / of_nat (length ordered)\<rparr>))"

section \<open>The collector\<close>

record scored_outcome =
  sco_step :: nat
  sco_ground_truth :: string
  sco_action :: string
  sco_trust_state :: string
  sco_permitted :: bool
  sco_satisfied :: bool
  sco_outcome :: string

record metrics_collector =
  mc_run_id :: string
  mc_scenario_id :: string
  mc_strategy :: string
  mc_seed :: int
  mc_measurement_tier :: measurement_tier
  mc_samples :: "(string, rat list) dict"
  mc_counters :: "(string, int) dict"
  mc_action_counts :: "(string, int) dict"
  mc_state_counts :: "(string, int) dict"
  mc_state_transitions :: "(string, int) dict"
  mc_outcomes :: "scored_outcome list"
  mc_subjects :: "(string, string) dict"
  mc_sample_subjects :: "(string, string list) dict"

definition new_metrics :: "string \<Rightarrow> string \<Rightarrow> string \<Rightarrow> int \<Rightarrow> measurement_tier \<Rightarrow> metrics_collector" where
  "new_metrics run_id scenario_id strategy seed tier =
     \<lparr>mc_run_id = run_id, mc_scenario_id = scenario_id, mc_strategy = strategy, mc_seed = seed,
      mc_measurement_tier = tier, mc_samples = [], mc_counters = [], mc_action_counts = [],
      mc_state_counts = [], mc_state_transitions = [], mc_outcomes = [], mc_subjects = [],
      mc_sample_subjects = []\<rparr>"

definition observe_sample ::
  "string \<Rightarrow> rat \<Rightarrow> measurement_subject option \<Rightarrow> metrics_collector \<Rightarrow> metrics_collector" where
  "observe_sample mid v subject mc =
     (let mc1 = mc\<lparr>mc_samples := append_at mid v (mc_samples mc)\<rparr>;
          resolved = (case subject of Some s \<Rightarrow> Some s
                      | None \<Rightarrow> map_option md_subject (dget METRIC_DEFINITIONS mid))
      in case resolved of
           None \<Rightarrow> mc1
         | Some s \<Rightarrow> mc1\<lparr>mc_subjects := setdefault mid (subject_value s) (mc_subjects mc1),
                        mc_sample_subjects := append_at mid (subject_value s) (mc_sample_subjects mc1)\<rparr>)"

definition increment :: "string \<Rightarrow> int \<Rightarrow> metrics_collector \<Rightarrow> metrics_collector" where
  "increment mid amount mc =
     (let mc1 = mc\<lparr>mc_counters := counter_add mid amount (mc_counters mc)\<rparr>
      in case dget METRIC_DEFINITIONS mid of
           None \<Rightarrow> mc1
         | Some d \<Rightarrow> mc1\<lparr>mc_subjects := dset mid (subject_value (md_subject d)) (mc_subjects mc1)\<rparr>)"

definition record_decision ::
  "string \<Rightarrow> string \<Rightarrow> string option \<Rightarrow> metrics_collector \<Rightarrow> metrics_collector" where
  "record_decision action trust_state previous_state mc =
     (let mc1 = mc\<lparr>mc_action_counts := counter_add action 1 (mc_action_counts mc),
                  mc_state_counts := counter_add trust_state 1 (mc_state_counts mc)\<rparr>;
          mc2 = (case previous_state of
                   None \<Rightarrow> mc1
                 | Some p \<Rightarrow>
                     if p \<noteq> trust_state then
                       increment ''M7'' 1 (mc1\<lparr>mc_state_transitions :=
                         counter_add (p @ ''->'' @ trust_state) 1 (mc_state_transitions mc1)\<rparr>)
                     else mc1)
      in if action = ''REAUTHENTICATE'' then increment ''M5'' 1 mc2
         else if action = ''STEP_UP_AUTHENTICATION'' then increment ''M6'' 1 mc2
         else mc2)"

definition declared_label :: "string \<Rightarrow> ground_truth_label" where
  "declared_label s = (case parse_label s of None \<Rightarrow> NOT_APPLICABLE | Some l \<Rightarrow> l)"

definition outcome_of :: "ground_truth_label \<Rightarrow> bool \<Rightarrow> string" where
  "outcome_of declared satisfied =
     (if is_legitimate declared then (if satisfied then ''correct_acceptance'' else ''false_rejection'')
      else if is_adversarial declared then (if satisfied then ''correct_rejection'' else ''false_acceptance'')
      else ''NOT_APPLICABLE'')"

definition record_ground_truth ::
  "nat \<Rightarrow> string \<Rightarrow> string \<Rightarrow> string \<Rightarrow> bool \<Rightarrow> bool option \<Rightarrow> metrics_collector \<Rightarrow> metrics_collector" where
  "record_ground_truth step label action trust_state permitted satisfied mc =
     (let declared = declared_label label;
          sat = (case satisfied of Some b \<Rightarrow> b | None \<Rightarrow> acceptable declared action);
          outcome = outcome_of declared sat;
          mc1 = mc\<lparr>mc_outcomes := mc_outcomes mc @
                   [\<lparr>sco_step = step, sco_ground_truth = label_value declared, sco_action = action,
                     sco_trust_state = trust_state, sco_permitted = permitted, sco_satisfied = sat,
                     sco_outcome = outcome\<rparr>]\<rparr>
      in if outcome = ''false_acceptance'' then increment ''M15'' 1 mc1
         else if outcome = ''false_rejection'' then increment ''M16'' 1 mc1
         else if outcome \<in> set [''correct_acceptance'', ''correct_rejection''] then increment ''M17'' 1 mc1
         else mc1)"

record confusion_counts =
  cf_true_positive :: int
  cf_false_negative :: int
  cf_true_negative :: int
  cf_false_positive :: int
  cf_correct_acceptance :: int
  cf_false_rejection :: int
  cf_correct_rejection :: int
  cf_false_acceptance :: int
  cf_legitimate_total :: int
  cf_adversarial_total :: int
  cf_illegitimate_total :: int
  cf_labelled_total :: int
  cf_correct_total :: int

text \<open>The loop over the scored steps: a label that does not parse is skipped.\<close>

fun label_totals :: "scored_outcome list \<Rightarrow> int \<times> int \<Rightarrow> int \<times> int" where
  "label_totals [] t = t"
| "label_totals (o1 # os) (legitimate, adversarial) =
     (case parse_label (sco_ground_truth o1) of
        None \<Rightarrow> label_totals os (legitimate, adversarial)
      | Some l \<Rightarrow>
          if is_legitimate l then label_totals os (legitimate + 1, adversarial)
          else if is_adversarial l then label_totals os (legitimate, adversarial + 1)
          else label_totals os (legitimate, adversarial))"

definition confusion :: "metrics_collector \<Rightarrow> confusion_counts" where
  "confusion mc =
     (let tally = counter_of (map sco_outcome (mc_outcomes mc));
          (legitimate, adversarial) = label_totals (mc_outcomes mc) (0, 0);
          true_positive = count_of tally ''correct_rejection'';
          false_negative = count_of tally ''false_acceptance'';
          true_negative = count_of tally ''correct_acceptance'';
          false_positive = count_of tally ''false_rejection''
      in \<lparr>cf_true_positive = true_positive, cf_false_negative = false_negative,
          cf_true_negative = true_negative, cf_false_positive = false_positive,
          cf_correct_acceptance = true_negative, cf_false_rejection = false_positive,
          cf_correct_rejection = true_positive, cf_false_acceptance = false_negative,
          cf_legitimate_total = legitimate, cf_adversarial_total = adversarial,
          cf_illegitimate_total = adversarial, cf_labelled_total = legitimate + adversarial,
          cf_correct_total = true_positive + true_negative\<rparr>)"

definition label_distribution :: "metrics_collector \<Rightarrow> (string, int) dict" where
  "label_distribution mc = sorted_items (counter_of (map sco_ground_truth (mc_outcomes mc)))"

record run_summary =
  rsu_run_id :: string
  rsu_scenario_id :: string
  rsu_strategy :: string
  rsu_seed :: int
  rsu_measurement_tier :: string
  rsu_metric_subjects :: "(string, string) dict"
  rsu_sample_subjects :: "(string, string list) dict"
  rsu_distributions :: "(string, description \<times> string \<times> string) dict"
  rsu_counters :: "(string, int) dict"
  rsu_policy_action_distribution :: "(string, int) dict"
  rsu_trust_state_distribution :: "(string, int) dict"
  rsu_trust_state_transitions :: "(string, int) dict"
  rsu_confusion_raw :: confusion_counts
  rsu_ground_truth_labels :: "(string, int) dict"
  rsu_ground_truth_outcomes :: "scored_outcome list"

definition summary :: "metrics_collector \<Rightarrow> run_summary" where
  "summary mc =
     \<lparr>rsu_run_id = mc_run_id mc, rsu_scenario_id = mc_scenario_id mc, rsu_strategy = mc_strategy mc,
      rsu_seed = mc_seed mc, rsu_measurement_tier = tier_value (mc_measurement_tier mc),
      rsu_metric_subjects = mc_subjects mc,
      rsu_sample_subjects =
        map (\<lambda>(k, v). (k, sort (remdups v))) (sorted_items (mc_sample_subjects mc)),
      rsu_distributions =
        map (\<lambda>(k, vs). (k, describe vs,
            case dget METRIC_DEFINITIONS k of Some d \<Rightarrow> md_unit d | None \<Rightarrow> ''unknown'',
            case dget (mc_subjects mc) k of Some s \<Rightarrow> s | None \<Rightarrow> ''unknown''))
          (sorted_items (mc_samples mc)),
      rsu_counters = sorted_items (mc_counters mc),
      rsu_policy_action_distribution = sorted_items (mc_action_counts mc),
      rsu_trust_state_distribution = sorted_items (mc_state_counts mc),
      rsu_trust_state_transitions = sorted_items (mc_state_transitions mc),
      rsu_confusion_raw = confusion mc,
      rsu_ground_truth_labels = label_distribution mc,
      rsu_ground_truth_outcomes = mc_outcomes mc\<rparr>"

section \<open>Facts on counters\<close>

lemma count_of_add [simp]: "count_of (counter_add k n d) k' = (if k' = k then count_of d k + n else count_of d k')"
  by (simp add: counter_add_def count_of_def)

lemma count_of_Nil [simp]: "count_of [] k = 0"
  by (simp add: count_of_def)

lemma dict_ok_counter_add [simp]: "dict_ok d \<Longrightarrow> dict_ok (counter_add k n d)"
  by (simp add: counter_add_def)

lemma total_update: "dict_ok d \<Longrightarrow> sum_list (map snd (dset k v d)) = sum_list (map snd d) - count_of d k + v"
proof (induction d)
  case Nil
  then show ?case by (simp add: count_of_def)
next
  case (Cons p d)
  obtain a b where p: "p = (a, b)" by (cases p)
  show ?case
  proof (cases "a = k")
    case True
    then show ?thesis by (simp add: p count_of_def)
  next
    case False
    with Cons show ?thesis by (simp add: p count_of_def)
  qed
qed

lemma counter_total_add [simp]: "dict_ok d \<Longrightarrow> counter_total (counter_add k n d) = counter_total d + n"
  by (simp add: counter_total_def counter_add_def total_update)

lemma counter_total_Nil [simp]: "counter_total [] = 0"
  by (simp add: counter_total_def)

lemma count_fold_add: "count_of (fold (\<lambda>x. counter_add x 1) xs d) k = count_of d k + int (count_list xs k)"
  by (induction xs arbitrary: d) simp_all

lemma count_counter_of [simp]: "count_of (counter_of xs) k = int (count_list xs k)"
  by (simp add: counter_of_def count_fold_add)

section \<open>Frames\<close>

lemma increment_fields [simp]:
  "mc_counters (increment m a mc) = counter_add m a (mc_counters mc)"
  "mc_action_counts (increment m a mc) = mc_action_counts mc"
  "mc_state_counts (increment m a mc) = mc_state_counts mc"
  "mc_state_transitions (increment m a mc) = mc_state_transitions mc"
  "mc_outcomes (increment m a mc) = mc_outcomes mc"
  "mc_samples (increment m a mc) = mc_samples mc"
  by (simp_all add: increment_def Let_def split: option.split)

lemma observe_sample_fields [simp]:
  "mc_counters (observe_sample m v s mc) = mc_counters mc"
  "mc_action_counts (observe_sample m v s mc) = mc_action_counts mc"
  "mc_state_counts (observe_sample m v s mc) = mc_state_counts mc"
  "mc_state_transitions (observe_sample m v s mc) = mc_state_transitions mc"
  "mc_outcomes (observe_sample m v s mc) = mc_outcomes mc"
  "mc_samples (observe_sample m v s mc) = append_at m v (mc_samples mc)"
  by (simp_all add: observe_sample_def Let_def split: option.split)

lemma record_decision_fields [simp]:
  "mc_action_counts (record_decision a s p mc) = counter_add a 1 (mc_action_counts mc)"
  "mc_state_counts (record_decision a s p mc) = counter_add s 1 (mc_state_counts mc)"
  "mc_state_transitions (record_decision a s p mc) =
     (case p of None \<Rightarrow> mc_state_transitions mc
      | Some q \<Rightarrow> if q = s then mc_state_transitions mc
                 else counter_add (q @ ''->'' @ s) 1 (mc_state_transitions mc))"
  "mc_outcomes (record_decision a s p mc) = mc_outcomes mc"
  by (simp_all add: record_decision_def Let_def split: option.split)

lemma record_decision_counts [simp]:
  "count_of (mc_counters (record_decision a s p mc)) m =
     count_of (mc_counters mc) m
     + (if m = ''M7'' \<and> p \<noteq> None \<and> p \<noteq> Some s then 1 else 0)
     + (if m = ''M5'' \<and> a = ''REAUTHENTICATE'' then 1 else 0)
     + (if m = ''M6'' \<and> a = ''STEP_UP_AUTHENTICATION'' then 1 else 0)"
  by (simp add: record_decision_def Let_def split: option.split)

lemma record_ground_truth_fields [simp]:
  "mc_action_counts (record_ground_truth n l a s p sat mc) = mc_action_counts mc"
  "mc_state_counts (record_ground_truth n l a s p sat mc) = mc_state_counts mc"
  "mc_state_transitions (record_ground_truth n l a s p sat mc) = mc_state_transitions mc"
  by (simp_all add: record_ground_truth_def Let_def)

lemma record_ground_truth_outcomes:
  "mc_outcomes (record_ground_truth n l a s p sat mc) = mc_outcomes mc @
     [\<lparr>sco_step = n, sco_ground_truth = label_value (declared_label l), sco_action = a,
       sco_trust_state = s, sco_permitted = p,
       sco_satisfied = (case sat of Some b \<Rightarrow> b | None \<Rightarrow> acceptable (declared_label l) a),
       sco_outcome = outcome_of (declared_label l)
         (case sat of Some b \<Rightarrow> b | None \<Rightarrow> acceptable (declared_label l) a)\<rparr>]"
  by (simp add: record_ground_truth_def Let_def)

lemma declared_label_value [simp]: "declared_label (label_value l) = l"
  by (simp add: declared_label_def)

section \<open>The accounting invariant\<close>

definition outcome_ok :: "scored_outcome \<Rightarrow> bool" where
  "outcome_ok o1 \<longleftrightarrow> (\<exists>l. sco_ground_truth o1 = label_value l \<and> sco_outcome o1 = outcome_of l (sco_satisfied o1))"

definition count_outcome :: "string \<Rightarrow> metrics_collector \<Rightarrow> int" where
  "count_outcome s mc = int (count_list (map sco_outcome (mc_outcomes mc)) s)"

definition metrics_ok :: "metrics_collector \<Rightarrow> bool" where
  "metrics_ok mc \<longleftrightarrow>
     dict_ok (mc_action_counts mc) \<and> dict_ok (mc_state_counts mc) \<and> dict_ok (mc_state_transitions mc)
     \<and> list_all outcome_ok (mc_outcomes mc)
     \<and> count_of (mc_counters mc) ''M15'' = count_outcome ''false_acceptance'' mc
     \<and> count_of (mc_counters mc) ''M16'' = count_outcome ''false_rejection'' mc
     \<and> count_of (mc_counters mc) ''M17'' =
         count_outcome ''correct_acceptance'' mc + count_outcome ''correct_rejection'' mc
     \<and> count_of (mc_counters mc) ''M5'' = count_of (mc_action_counts mc) ''REAUTHENTICATE''
     \<and> count_of (mc_counters mc) ''M6'' = count_of (mc_action_counts mc) ''STEP_UP_AUTHENTICATION''
     \<and> count_of (mc_counters mc) ''M7'' = counter_total (mc_state_transitions mc)
     \<and> counter_total (mc_action_counts mc) = counter_total (mc_state_counts mc)"

lemma metrics_ok_new: "metrics_ok (new_metrics i sc st seed tier)"
  by (simp add: metrics_ok_def new_metrics_def count_outcome_def)

lemma metrics_ok_observe: "metrics_ok mc \<Longrightarrow> metrics_ok (observe_sample m v s mc)"
  by (simp add: metrics_ok_def count_outcome_def)

lemma metrics_ok_increment:
  "metrics_ok mc \<Longrightarrow> m \<notin> set [''M5'', ''M6'', ''M7'', ''M15'', ''M16'', ''M17''] \<Longrightarrow> metrics_ok (increment m n mc)"
  by (auto simp: metrics_ok_def count_outcome_def)

lemma metrics_ok_decision: "metrics_ok mc \<Longrightarrow> metrics_ok (record_decision a s p mc)"
  by (auto simp: metrics_ok_def count_outcome_def split: option.split)

lemma outcome_of_cases: "outcome_of l b \<in> {''correct_acceptance'', ''false_rejection'', ''correct_rejection'',
    ''false_acceptance'', ''NOT_APPLICABLE''}"
  by (simp add: outcome_of_def)

lemma record_ground_truth_counts:
  "count_of (mc_counters (record_ground_truth n l a s p sat mc)) m =
     count_of (mc_counters mc) m
     + (let o1 = outcome_of (declared_label l)
              (case sat of Some b \<Rightarrow> b | None \<Rightarrow> acceptable (declared_label l) a)
        in if m = ''M15'' \<and> o1 = ''false_acceptance'' \<or> m = ''M16'' \<and> o1 = ''false_rejection''
             \<or> m = ''M17'' \<and> o1 \<in> {''correct_acceptance'', ''correct_rejection''} then 1 else 0)"
  by (simp add: record_ground_truth_def Let_def)

lemma metrics_ok_ground_truth:
  assumes "metrics_ok mc"
  shows "metrics_ok (record_ground_truth n l a s p sat mc)"
proof -
  have "outcome_ok \<lparr>sco_step = n, sco_ground_truth = label_value (declared_label l), sco_action = a,
       sco_trust_state = s, sco_permitted = p, sco_satisfied = b,
       sco_outcome = outcome_of (declared_label l) b\<rparr>" for b
    by (auto simp: outcome_ok_def)
  with assms show ?thesis
    using outcome_of_cases [of "declared_label l"
        "case sat of Some b \<Rightarrow> b | None \<Rightarrow> acceptable (declared_label l) a"]
    by (auto simp: metrics_ok_def count_outcome_def record_ground_truth_outcomes record_ground_truth_counts
        Let_def)
qed

section \<open>Confusion counts\<close>

lemma label_totals_sum:
  "label_totals os (x, y) = (x + int (length (filter (\<lambda>q. is_legitimate (declared_label (sco_ground_truth q))) os)),
     y + int (length (filter (\<lambda>q. is_adversarial (declared_label (sco_ground_truth q))) os)))"
proof (induction os arbitrary: x y)
  case Nil
  then show ?case by simp
next
  case (Cons q os)
  have "\<not> is_legitimate NOT_APPLICABLE" "\<not> is_adversarial NOT_APPLICABLE"
    using label_cases [of NOT_APPLICABLE] by (auto simp: scored_def)
  with Cons label_cases show ?case
    by (auto simp: declared_label_def split: option.split)
qed

lemma outcome_classes:
  assumes "list_all outcome_ok os"
  shows "int (length (filter (\<lambda>q. is_legitimate (declared_label (sco_ground_truth q))) os)) =
      int (count_list (map sco_outcome os) ''correct_acceptance'') + int (count_list (map sco_outcome os) ''false_rejection'')"
    and "int (length (filter (\<lambda>q. is_adversarial (declared_label (sco_ground_truth q))) os)) =
      int (count_list (map sco_outcome os) ''correct_rejection'') + int (count_list (map sco_outcome os) ''false_acceptance'')"
  using assms
proof (induction os)
  case Nil
  {
    case 1
    then show ?case by simp
  next
    case 2
    then show ?case by simp
  }
next
  case (Cons q os)
  have q: "sco_outcome q = outcome_of (declared_label (sco_ground_truth q)) (sco_satisfied q)"
    if "outcome_ok q" using that by (auto simp: outcome_ok_def)
  note lc = label_cases [of "declared_label (sco_ground_truth q)"]
  {
    case 1
    with q lc Cons.IH(1) show ?case by (auto simp: outcome_of_def)
  next
    case 2
    with q lc Cons.IH(2) show ?case by (auto simp: outcome_of_def)
  }
qed

lemma confusion_exact:
  assumes "metrics_ok mc"
  shows "cf_true_positive (confusion mc) + cf_false_negative (confusion mc) = cf_adversarial_total (confusion mc)"
    and "cf_true_negative (confusion mc) + cf_false_positive (confusion mc) = cf_legitimate_total (confusion mc)"
    and "cf_false_acceptance (confusion mc) = count_of (mc_counters mc) ''M15''"
    and "cf_false_rejection (confusion mc) = count_of (mc_counters mc) ''M16''"
    and "cf_correct_total (confusion mc) = count_of (mc_counters mc) ''M17''"
  using assms outcome_classes [of "mc_outcomes mc"]
  by (auto simp: confusion_def Let_def label_totals_sum metrics_ok_def count_outcome_def split: prod.split)

section \<open>Order of the statistics\<close>

lemma percentile_parts:
  fixes f :: rat
  assumes "2 \<le> length xs" "0 \<le> f" "f \<le> 1"
  defines "p \<equiv> f * of_nat (length xs - 1)"
  defines "k \<equiv> nat \<lfloor>p\<rfloor>"
  shows "percentile xs f = xs ! k * (1 - (p - of_nat k)) + xs ! min (k + 1) (length xs - 1) * (p - of_nat k)"
    and "k \<le> length xs - 1" and "0 \<le> p - of_nat k" and "p - of_nat k < 1"
proof -
  show "percentile xs f = xs ! k * (1 - (p - of_nat k)) + xs ! min (k + 1) (length xs - 1) * (p - of_nat k)"
    using assms(1) by (simp add: percentile_def Let_def p_def k_def)
  have p0: "0 \<le> p" using assms(2) by (simp add: p_def)
  have p1: "p \<le> of_nat (length xs - 1)"
    unfolding p_def using mult_right_mono [OF assms(3), of "of_nat (length xs - 1)"] by simp
  have k: "of_nat k = of_int \<lfloor>p\<rfloor>" using p0 by (simp add: k_def)
  show "0 \<le> p - of_nat k" "p - of_nat k < 1" unfolding k by linarith+
  show "k \<le> length xs - 1" using p0 p1 by (simp add: k_def) linarith
qed

lemma between_weighted:
  fixes a b w :: rat
  assumes "a \<le> b" "0 \<le> w" "w \<le> 1"
  shows "a \<le> a * (1 - w) + b * w" and "a * (1 - w) + b * w \<le> b"
proof -
  have "a * (1 - w) + b * w = a + (b - a) * w" by (simp add: algebra_simps)
  moreover have "0 \<le> (b - a) * w" "(b - a) * w \<le> b - a"
    using assms by (simp_all add: mult_left_le)
  ultimately show "a \<le> a * (1 - w) + b * w" "a * (1 - w) + b * w \<le> b" by linarith+
qed

lemma percentile_mono:
  assumes "sorted xs" "2 \<le> length xs" "0 \<le> f" "f \<le> g" "g \<le> 1"
  shows "percentile xs f \<le> percentile xs g"
proof -
  define p where "p = f * of_nat (length xs - 1)"
  define q where "q = g * of_nat (length xs - 1)"
  define k where "k = nat \<lfloor>p\<rfloor>"
  define l where "l = nat \<lfloor>q\<rfloor>"
  have F: "percentile xs f = xs ! k * (1 - (p - of_nat k)) + xs ! min (k + 1) (length xs - 1) * (p - of_nat k)"
      "k \<le> length xs - 1" "0 \<le> p - of_nat k" "p - of_nat k < 1"
    using percentile_parts [of xs f] assms unfolding p_def [symmetric] k_def [symmetric] by auto
  have G: "percentile xs g = xs ! l * (1 - (q - of_nat l)) + xs ! min (l + 1) (length xs - 1) * (q - of_nat l)"
      "l \<le> length xs - 1" "0 \<le> q - of_nat l" "q - of_nat l < 1"
    using percentile_parts [of xs g] assms unfolding q_def [symmetric] l_def [symmetric] by auto
  have pq: "p \<le> q" unfolding p_def q_def using assms(4) by (intro mult_right_mono) simp_all
  then have kl: "k \<le> l" unfolding k_def l_def by (intro nat_mono floor_mono)
  have nth: "i \<le> j \<Longrightarrow> j \<le> length xs - 1 \<Longrightarrow> xs ! i \<le> xs ! j" for i j
    using assms(1,2) by (intro sorted_nth_mono) auto
  show ?thesis
  proof (cases "k = l")
    case True
    have "0 \<le> xs ! min (l + 1) (length xs - 1) - xs ! l" using nth [of l "min (l + 1) (length xs - 1)"] G(2) by simp
    then have "(xs ! min (l + 1) (length xs - 1) - xs ! l) * (p - of_nat l)
        \<le> (xs ! min (l + 1) (length xs - 1) - xs ! l) * (q - of_nat l)"
      using pq by (intro mult_left_mono) simp_all
    then show ?thesis unfolding F(1) G(1) True by (simp add: algebra_simps)
  next
    case False
    with kl G(2) have m: "min (k + 1) (length xs - 1) = k + 1" "k + 1 \<le> l" by simp_all
    have "percentile xs f \<le> xs ! (k + 1)"
      unfolding F(1) m(1) using F(3,4) m(2) G(2) by (intro between_weighted(2) nth) auto
    also have "\<dots> \<le> xs ! l" using m(2) G(2) by (rule nth)
    also have "\<dots> \<le> percentile xs g"
      unfolding G(1) using G by (intro between_weighted(1) nth) auto
    finally show ?thesis .
  qed
qed

lemma percentile_half: "xs \<noteq> [] \<Longrightarrow> percentile xs (1 / 2) = py_median xs"
proof (cases "even (length xs)")
  case True
  assume "xs \<noteq> []"
  with True obtain m where m: "length xs = 2 * Suc m" by (metis evenE length_0_conv mult_0_right not0_implies_Suc)
  have "(1 / 2 :: rat) * of_nat (2 * m + 1) = of_nat m + 1 / 2" by simp
  moreover have "\<lfloor>of_nat m + 1 / 2 :: rat\<rfloor> = int m" by (rule floor_unique) simp_all
  ultimately show ?thesis using m True
    by (simp add: percentile_def py_median_def Let_def field_simps)
next
  case False
  assume "xs \<noteq> []"
  from False obtain m where m: "length xs = 2 * m + 1" by (rule oddE)
  have "(1 / 2 :: rat) * of_nat (2 * m) = of_nat m" by simp
  with m False show ?thesis
    by (cases "m = 0") (simp_all add: percentile_def py_median_def Let_def)
qed

lemma percentile_one: "xs \<noteq> [] \<Longrightarrow> percentile xs 1 = last xs"
  by (cases "length xs = 1") (simp_all add: percentile_def Let_def last_conv_nth)

lemma percentile_zero: "xs \<noteq> [] \<Longrightarrow> percentile xs 0 = xs ! 0"
  by (simp add: percentile_def Let_def)

lemma percentile_ordered:
  assumes "sorted xs" "xs \<noteq> []" "0 \<le> f" "f \<le> g" "g \<le> 1"
  shows "percentile xs f \<le> percentile xs g"
proof (cases "length xs = 1")
  case True
  then show ?thesis by (simp add: percentile_def)
next
  case False
  with assms have "2 \<le> length xs" by (cases xs; cases "tl xs") auto
  with assms show ?thesis by (intro percentile_mono)
qed

lemma describe_ordered:
  assumes "describe values = Described s"
  shows "sta_min s \<le> sta_q1 s" "sta_q1 s \<le> sta_median s" "sta_median s \<le> sta_q3 s"
    "sta_q3 s \<le> sta_p95 s" "sta_p95 s \<le> sta_max s" "sta_count s = length values" "0 \<le> sta_iqr s"
proof -
  let ?xs = "sort values"
  from assms have ne: "?xs \<noteq> []"
    by (auto simp: describe_def split: if_splits) (metis length_0_conv length_sort)
  from assms have s: "s = \<lparr>sta_count = length ?xs, sta_median = percentile ?xs (1 / 2),
      sta_q1 = percentile ?xs (1 / 4), sta_q3 = percentile ?xs (3 / 4),
      sta_iqr = percentile ?xs (3 / 4) - percentile ?xs (1 / 4), sta_p95 = percentile ?xs (95 / 100),
      sta_min = percentile ?xs 0, sta_max = percentile ?xs 1,
      sta_mean = sum_list ?xs / of_nat (length ?xs)\<rparr>"
    using ne by (auto simp: describe_def Let_def percentile_half percentile_one percentile_zero split: if_splits)
  note po = percentile_ordered [OF sorted_sort ne]
  show "sta_min s \<le> sta_q1 s" "sta_q1 s \<le> sta_median s" "sta_median s \<le> sta_q3 s"
    "sta_q3 s \<le> sta_p95 s" "sta_p95 s \<le> sta_max s" "sta_count s = length values" "0 \<le> sta_iqr s"
    unfolding s using po [of "1 / 4" "3 / 4"] by (simp_all add: po)
qed

end
