(* ===== verification/Access_Sources.thy ===== *)
theory Access_Sources
  imports Live_Collectors Run_Metrics
begin

text \<open>
  Where an experiment's access evidence comes from (\<^verbatim>\<open>experiments/runner/access_sources.py\<close>): the
  interface of a source as a record of functions, the Tier-1 fixtures, and the snapshot of the live
  testbed. The output of the commands that inspect the testbed is the argument \<open>testbed\<close> (lists of lines);
  the streams are read by the readers of \<open>Live_Collectors\<close>.

  Shown: both sources make evidence of their own tier, at the requested instant, from the device's own
  address (the locale \<open>access_evidence\<close>); Tier-1 addresses are distinct per device and domain; the live
  source raises rather than inventing evidence, and where its notion of a live session falls short.
\<close>

section \<open>The interface\<close>

record access_source =
  acs_name :: string
  acs_provenance :: "(string, string) dict"
  acs_address :: "nat \<Rightarrow> access_domain \<Rightarrow> string result"
  acs_subject :: "access_domain \<Rightarrow> measurement_subject"
  acs_event_stamp :: "access_domain \<Rightarrow> (string, string) dict"
  acs_nr_event :: "string \<Rightarrow> nat \<Rightarrow> instant \<Rightarrow> (string, string) dict \<Rightarrow> nr_access_event result"
  acs_wlan_event :: "string \<Rightarrow> nat \<Rightarrow> instant \<Rightarrow> (string, string) dict \<Rightarrow> wlan_access_event result"

text \<open>\<open>overrides.get(k, default)\<close>\<close>

definition get_or :: "(string, string) dict \<Rightarrow> string \<Rightarrow> string \<Rightarrow> string" where
  "get_or d k dflt = (case dget d k of None \<Rightarrow> dflt | Some v \<Rightarrow> v)"

section \<open>Tier 1\<close>

record fixture_source =
  fx_nr_address_prefix :: string
  fx_wlan_address_prefix :: string
  fx_address_offset :: nat
  fx_address_stride :: nat

definition fixture_provenance :: "(string, string) dict" where
  "fixture_provenance =
     [(''nr_source_mode'', source_mode_value SYNTHETIC_FIXTURE),
      (''wlan_source_mode'', source_mode_value TIER1_WLAN_AUTH_EMULATION),
      (''measurement_tier'', ''tier1''),
      (''note'', ''synthetic 5G development fixture and 802.1X/EAP-TLS '' @
        ''authentication-path emulation; neither is a radio measurement'')]"

definition fixture_address :: "fixture_source \<Rightarrow> nat \<Rightarrow> access_domain \<Rightarrow> string" where
  "fixture_address fx index dm =
     (if dm = NR then fx_nr_address_prefix fx else fx_wlan_address_prefix fx)
       @ show_nat (fx_address_offset fx + index * fx_address_stride fx)"

text \<open>\<open>f"{n:02x}"\<close>\<close>

definition hex_digit :: "nat \<Rightarrow> char" where
  "hex_digit d = (if d < 10 then char_of (48 + d) else char_of (87 + d))"

fun show_hex :: "nat \<Rightarrow> string" where
  "show_hex n = (if n < 16 then [hex_digit n] else show_hex (n div 16) @ [hex_digit (n mod 16)])"

declare show_hex.simps [simp del]

definition fixture_nr_event ::
  "fixture_source \<Rightarrow> string \<Rightarrow> nat \<Rightarrow> instant \<Rightarrow> (string, string) dict \<Rightarrow> nr_access_event" where
  "fixture_nr_event fx d index t ov =
     \<lparr>ne_event_type = SESSION_ESTABLISHED, ne_peer_address = fixture_address fx index NR,
      ne_observed_at = t, ne_source_mode = SYNTHETIC_FIXTURE,
      ne_subscriber_ref = Some (''fixture-sub-'' @ d), ne_pdu_session_id = Some ''1'',
      ne_dnn = Some ''internet'', ne_gnb_id = Some (get_or ov ''gnb_id'' ''gnb-001''),
      ne_rat_type = get_or ov ''rat_type'' ''NR'',
      ne_registration_state = get_or ov ''registration_state'' ''REGISTERED'',
      ne_pdu_session_active = (get_or ov ''pdu_session_active'' ''true'' = ''true''),
      ne_binding_lifetime_s = Some 120\<rparr>"

definition fixture_wlan_event ::
  "fixture_source \<Rightarrow> string \<Rightarrow> nat \<Rightarrow> instant \<Rightarrow> (string, string) dict \<Rightarrow> wlan_access_event" where
  "fixture_wlan_event fx d index t ov =
     \<lparr>we_event_type = STA_AUTHENTICATED, we_peer_address = fixture_address fx index WLAN,
      we_observed_at = t, we_source_mode = TIER1_WLAN_AUTH_EMULATION,
      we_sta_mac = Some (''02:00:00:00:'' @ pad_left 2 (show_hex index) @ '':11''),
      we_eap_identity = Some (d @ ''@lab.invalid''),
      we_eap_success = (get_or ov ''eap_success'' ''true'' = ''true''),
      we_akm = get_or ov ''akm'' ''WPA2-EAP'', we_ssid = Some (get_or ov ''ssid'' ''ca-ztcf-tier1''),
      we_ap_bssid = Some (get_or ov ''ap_bssid'' ''02:00:00:00:0a:01''), we_binding_lifetime_s = Some 120\<rparr>"

definition fixture_access :: "fixture_source \<Rightarrow> access_source" where
  "fixture_access fx =
     \<lparr>acs_name = ''tier1_fixture'', acs_provenance = fixture_provenance,
      acs_address = (\<lambda>index dm. Inr (fixture_address fx index dm)),
      acs_subject = (\<lambda>dm. if dm = NR then S_SYNTHETIC_NR_CONTEXT else S_EAP_AUTH_PATH),
      acs_event_stamp = (\<lambda>_. []),
      acs_nr_event = (\<lambda>d index t ov. Inr (fixture_nr_event fx d index t ov)),
      acs_wlan_event = (\<lambda>d index t ov. Inr (fixture_wlan_event fx d index t ov))\<rparr>"

section \<open>Reading the live testbed\<close>

text \<open>\<open>s.split()\<close>, and \<open>int(s)\<close> of a word: a sign, decimal digits, single underscores between them\<close>

function words :: "string \<Rightarrow> string list" where
  "words s =
     (case dropWhile ascii_space s of
        [] \<Rightarrow> []
      | c # cs \<Rightarrow> takeWhile (\<lambda>x. \<not> ascii_space x) (c # cs) #
                 words (dropWhile (\<lambda>x. \<not> ascii_space x) (c # cs)))"
  by pat_completeness auto
termination
proof (relation "measure length")
  fix s c cs
  assume d: "dropWhile ascii_space s = c # cs"
  then have "\<not> ascii_space c" by (metis hd_dropWhile list.distinct(1) list.sel(1))
  then have "length (dropWhile (\<lambda>x. \<not> ascii_space x) (c # cs)) \<le> length cs"
    by (simp add: length_dropWhile_le)
  also have "length cs < length s" using length_dropWhile_le [of ascii_space s] d by simp
  finally show "(dropWhile (\<lambda>x. \<not> ascii_space x) (c # cs), s) \<in> measure length" by simp
qed simp

declare words.simps [simp del]

definition digits_value :: "string \<Rightarrow> int" where
  "digits_value ds = foldl (\<lambda>n c. 10 * n + (int (of_char c) - 48)) 0 ds"

definition parse_int :: "string \<Rightarrow> int result" where
  "parse_int s =
     (let (sign, ds) = (case s of [] \<Rightarrow> (1, []) | c # r \<Rightarrow>
            if c = CHR ''-'' then (-1, r) else if c = CHR ''+'' then (1, r) else (1, s));
          parts = split_on (CHR ''_'') ds
      in if list_all (\<lambda>p. p \<noteq> [] \<and> list_all digit p) parts then Inr (sign * digits_value (concat parts))
         else Inl (PyValueError (''invalid literal for int() with base 10: '' @ quoted s)))"

text \<open>\<open>netns_interface_addresses\<close>: the first address of each interface with the prefix.\<close>

definition address_part :: "string \<Rightarrow> string" where
  "address_part s = hd (split_on (CHR ''/'') s)"

definition interface_address :: "string \<Rightarrow> string \<Rightarrow> (string, string) dict \<Rightarrow> (string, string) dict" where
  "interface_address pre line found =
     (let parts = words line
      in if length parts < 4 \<or> parts ! 2 \<noteq> ''inet'' then found
         else if prefix pre (parts ! 1) then setdefault (parts ! 1) (address_part (parts ! 3)) found
         else found)"

definition netns_interface_addresses :: "string list \<Rightarrow> string \<Rightarrow> (string, string) dict" where
  "netns_interface_addresses out pre = fold (interface_address pre) out []"

fun netns_address_list :: "string list \<Rightarrow> string list result" where
  "netns_address_list [] = Inr []"
| "netns_address_list (l # ls) =
     (if str_contains '' inet '' l then
        (if length (words l) < 4 then Inl (PyIndexError ''list index out of range'')
         else and_then (netns_address_list ls) (\<lambda>r. Inr (address_part (words l ! 3) # r)))
      else netns_address_list ls)"

text \<open>What inspecting the testbed returns.\<close>

record testbed =
  tb_ue_interfaces :: "string list"
  tb_sta_interface :: "string list"
  tb_sta_mac :: string
  tb_nr_stream :: "string list option"
  tb_wlan_stream :: "string list option"

record live_source =
  lv_nr_stream :: string
  lv_wlan_stream :: string
  lv_ue_namespace :: string
  lv_sta_namespace :: string
  lv_ssid :: string
  lv_nr_addresses :: "string list"
  lv_wlan_addresses :: "string list"
  lv_nr_by_address :: "(string, open5gs_event) dict"
  lv_wlan_events :: "hwsim_event list"
  lv_sta_mac :: string

definition new_live_source :: live_source where
  "new_live_source =
     \<lparr>lv_nr_stream = ''/var/lib/ca-ztcf/tier2/open5gs-events.log'',
      lv_wlan_stream = ''/var/lib/ca-ztcf/tier2/hostapd.log'', lv_ue_namespace = ''ca-ztcf-ue'',
      lv_sta_namespace = ''ca-ztcf-sta'', lv_ssid = ''ca-ztcf-tier2'', lv_nr_addresses = [],
      lv_wlan_addresses = [], lv_nr_by_address = [], lv_wlan_events = [], lv_sta_mac = []\<rparr>"

fun tunnel_numbers :: "(string, string) dict \<Rightarrow> (int \<times> string) list result" where
  "tunnel_numbers [] = Inr []"
| "tunnel_numbers ((name, addr) # rest) =
     and_then (parse_int (drop (length ''uesimtun'') name)) (\<lambda>n.
     and_then (tunnel_numbers rest) (\<lambda>ns. Inr ((n, addr) # ns)))"

text \<open>The last observation with an address wins.\<close>

definition by_address :: "open5gs_event list \<Rightarrow> (string, open5gs_event) dict \<Rightarrow> (string, open5gs_event) dict" where
  "by_address events d =
     fold (\<lambda>e d. case og_peer_address e of Some (c # cs) \<Rightarrow> dset (c # cs) e d | _ \<Rightarrow> d) events d"

definition load_live ::
  "line_reader \<Rightarrow> (nat \<Rightarrow> instant) \<Rightarrow> testbed \<Rightarrow> live_source \<Rightarrow> live_source result" where
  "load_live lr now tb lv =
     and_then (tunnel_numbers (netns_interface_addresses (tb_ue_interfaces tb) ''uesimtun'')) (\<lambda>ns.
     and_then (netns_address_list (tb_sta_interface tb)) (\<lambda>wlan.
       (let nr = map snd (sort_key fst ns)
        in if nr = [] then
             Inl (AccessSourceError (''no UE tunnels in namespace '' @ lv_ue_namespace lv @ '': the 5G path is not live''))
           else if wlan = [] then
             Inl (AccessSourceError (''no station addresses in namespace '' @ lv_sta_namespace lv
               @ '': the WLAN path is not live''))
           else if tb_nr_stream tb = None then
             Inl (AccessSourceError (''5G event stream not present: '' @ lv_nr_stream lv))
           else and_then (read_all (open5gs_read lr) now (tb_nr_stream tb)) (\<lambda>nr_events.
             if tb_wlan_stream tb = None then
               Inl (AccessSourceError (''WLAN event stream not present: '' @ lv_wlan_stream lv))
             else and_then (read_all (hwsim_read lr) now (tb_wlan_stream tb)) (\<lambda>wlan_events.
               if filter hw_succeeded wlan_events = [] then
                 Inl (AccessSourceError (''no successful WLAN association in '' @ lv_wlan_stream lv
                   @ '': the station has not authenticated''))
               else Inr (lv\<lparr>lv_nr_addresses := nr, lv_wlan_addresses := wlan, lv_sta_mac := tb_sta_mac tb,
                            lv_nr_by_address := by_address nr_events (lv_nr_by_address lv),
                            lv_wlan_events := filter hw_succeeded wlan_events\<rparr>))))))"

section \<open>Tier 2\<close>

definition live_provenance :: "live_source \<Rightarrow> (string, string) dict" where
  "live_provenance lv =
     [(''nr_source_mode'', source_mode_value LIVE_TESTBED),
      (''wlan_source_mode'', source_mode_value LIVE_TESTBED), (''measurement_tier'', ''tier2''),
      (''testbed_type'', ''software_based''), (''access_implementation_5g'', ''ueransim''),
      (''wifi_radio_mode'', ''mac80211_hwsim''), (''nr_stream'', lv_nr_stream lv),
      (''wlan_stream'', lv_wlan_stream lv), (''ue_namespace'', lv_ue_namespace lv),
      (''sta_namespace'', lv_sta_namespace lv),
      (''live_ue_sessions'', show_nat (length (lv_nr_addresses lv))),
      (''live_station_addresses'', show_nat (length (lv_wlan_addresses lv))),
      (''note'', ''live software-based testbed: real 5G NAS/NGAP/GTP-U and a real '' @
        ''802.11/EAP-TLS stack over simulated radios; not an RF, '' @
        ''propagation, interference, channel-quality or physical-handover measurement'')]"

definition live_pool :: "live_source \<Rightarrow> access_domain \<Rightarrow> string list" where
  "live_pool lv dm = (if dm = NR then lv_nr_addresses lv else lv_wlan_addresses lv)"

definition live_capacity :: "live_source \<Rightarrow> access_domain \<Rightarrow> nat" where
  "live_capacity lv dm = length (live_pool lv dm)"

definition live_address :: "live_source \<Rightarrow> nat \<Rightarrow> access_domain \<Rightarrow> string result" where
  "live_address lv index dm =
     (if length (live_pool lv dm) \<le> index then
        Inl (AccessSourceError (''device index '' @ show_nat index @ '' has no live '' @ domain_value dm
          @ '' access path: the testbed provides '' @ show_nat (length (live_pool lv dm))
          @ ''. Start more UEs or station addresses; the source will not substitute a fixture.''))
      else Inr (live_pool lv dm ! index))"

definition live_event_stamp :: "access_domain \<Rightarrow> (string, string) dict" where
  "live_event_stamp dm =
     (if dm = NR then
        [(''testbed_type'', ''software_based''), (''access_implementation'', ''ueransim''),
         (''5g_access_mode'', ''ueransim'')]
      else
        [(''testbed_type'', ''software_based''), (''access_implementation'', ''mac80211_hwsim''),
         (''wifi_radio_mode'', ''mac80211_hwsim'')])"

text \<open>\<open>overrides[k] == "true" if k in overrides else observed\<close>\<close>

definition flag_or :: "(string, string) dict \<Rightarrow> string \<Rightarrow> bool \<Rightarrow> bool" where
  "flag_or ov k observed = (case dget ov k of None \<Rightarrow> observed | Some v \<Rightarrow> v = ''true'')"

definition override :: "(string, string) dict \<Rightarrow> string \<Rightarrow> string option \<Rightarrow> string option" where
  "override ov k observed = (case dget ov k of None \<Rightarrow> observed | Some v \<Rightarrow> Some v)"

definition live_nr_event ::
  "live_source \<Rightarrow> string \<Rightarrow> nat \<Rightarrow> instant \<Rightarrow> (string, string) dict \<Rightarrow> nr_access_event result" where
  "live_nr_event lv d index t ov =
     and_then (live_address lv index NR) (\<lambda>address.
       (case dget (lv_nr_by_address lv) address of
          None \<Rightarrow> Inl (AccessSourceError (''no live Open5GS session observed for '' @ address
                    @ ''; refusing to substitute a synthetic fixture''))
        | Some observed \<Rightarrow>
            (case to_nr_access_event observed (Some address) (Some 120) of
               None \<Rightarrow> Inl (AccessSourceError (''live 5G observation for '' @ address @ '' carries no binding''))
             | Some e \<Rightarrow> Inr
                 \<lparr>ne_event_type = ne_event_type e, ne_peer_address = ne_peer_address e, ne_observed_at = t,
                  ne_source_mode = LIVE_TESTBED, ne_subscriber_ref = ne_subscriber_ref e,
                  ne_pdu_session_id = ne_pdu_session_id e, ne_dnn = ne_dnn e,
                  ne_gnb_id = override ov ''gnb_id'' (ne_gnb_id e),
                  ne_rat_type = get_or ov ''rat_type'' (ne_rat_type e),
                  ne_registration_state = get_or ov ''registration_state'' (ne_registration_state e),
                  ne_pdu_session_active = flag_or ov ''pdu_session_active'' (ne_pdu_session_active e),
                  ne_binding_lifetime_s = Some 120\<rparr>)))"

text \<open>\<open>self._wlan_events[-1]\<close> raises on an empty list.\<close>

definition live_wlan_event ::
  "live_source \<Rightarrow> string \<Rightarrow> nat \<Rightarrow> instant \<Rightarrow> (string, string) dict \<Rightarrow> wlan_access_event result" where
  "live_wlan_event lv d index t ov =
     and_then (live_address lv index WLAN) (\<lambda>address.
       if lv_wlan_events lv = [] then Inl (PyIndexError ''list index out of range'')
       else (case hwsim_to_wlan (last (lv_wlan_events lv)) (Some address) (lv_ssid lv)
                    ''02:00:00:00:00:00'' (Some 120) of
               None \<Rightarrow> Inl (AccessSourceError ''live WLAN observation carries no binding'')
             | Some e \<Rightarrow> Inr
                 \<lparr>we_event_type = we_event_type e, we_peer_address = address, we_observed_at = t,
                  we_source_mode = LIVE_TESTBED, we_sta_mac = str_or (Some (lv_sta_mac lv)) (we_sta_mac e),
                  we_eap_identity = Some (d @ ''@lab.invalid''),
                  we_eap_success = flag_or ov ''eap_success'' (we_eap_success e),
                  we_akm = get_or ov ''akm'' (we_akm e),
                  we_ssid = override ov ''ssid'' (str_or (we_ssid e) (Some (lv_ssid lv))),
                  we_ap_bssid = override ov ''ap_bssid'' (we_ap_bssid e),
                  we_binding_lifetime_s = Some 120\<rparr>))"

definition live_access :: "live_source \<Rightarrow> access_source" where
  "live_access lv =
     \<lparr>acs_name = ''tier2_live'', acs_provenance = live_provenance lv, acs_address = live_address lv,
      acs_subject = (\<lambda>dm. if dm = NR then S_LIVE_NR_CONTEXT else S_LIVE_WLAN_CONTEXT),
      acs_event_stamp = live_event_stamp, acs_nr_event = live_nr_event lv,
      acs_wlan_event = live_wlan_event lv\<rparr>"

definition build_access_source ::
  "line_reader \<Rightarrow> (nat \<Rightarrow> instant) \<Rightarrow> testbed \<Rightarrow> string \<Rightarrow> fixture_source \<Rightarrow> access_source result" where
  "build_access_source lr now tb kind fx =
     (if kind = ''tier1'' then Inr (fixture_access fx)
      else if kind = ''tier2'' then
        and_then (load_live lr now tb new_live_source) (\<lambda>lv. Inr (live_access lv))
      else Inl (AccessSourceError (''unknown access source: '' @ kind)))"

section \<open>Addresses\<close>

lemma digits_value_snoc: "digits_value (ds @ [c]) = 10 * digits_value ds + (int (of_char c) - 48)"
  by (simp add: digits_value_def)

lemma digits_value_show_nat: "digits_value (show_nat n) = int n"
proof (induction n rule: show_nat.induct)
  case (1 n)
  have d: "int (of_char (digit_char k)) - 48 = int k" if "k < 10" for k
    using that by (simp add: digit_char_def)
  show ?case
  proof (cases "n < 10")
    case True
    with d show ?thesis
      by (subst show_nat.simps) (simp add: digits_value_def)
  next
    case False
    have "digits_value (show_nat n) = 10 * int (n div 10) + int (n mod 10)"
      using False 1 d [of "n mod 10"] by (subst show_nat.simps) (simp add: digits_value_snoc)
    also have "\<dots> = int n" by (metis mult_div_mod_eq of_nat_add of_nat_mult of_nat_numeral)
    finally show ?thesis .
  qed
qed

lemma show_nat_inject [simp]: "show_nat a = show_nat b \<longleftrightarrow> a = b"
  by (metis digits_value_show_nat of_nat_eq_iff)

lemma fixture_address_device:
  assumes "1 \<le> fx_address_stride fx"
  shows "fixture_address fx i dm = fixture_address fx j dm \<longleftrightarrow> i = j"
  using assms by (simp add: fixture_address_def)

lemma fixture_address_domain:
  assumes "fx_nr_address_prefix fx \<parallel> fx_wlan_address_prefix fx"
  shows "fixture_address fx i NR \<noteq> fixture_address fx j WLAN"
  using parallel_append [OF assms, of "show_nat (fx_address_offset fx + i * fx_address_stride fx)"
      "show_nat (fx_address_offset fx + j * fx_address_stride fx)"]
  by (auto simp: fixture_address_def)

section \<open>The contract\<close>

definition tier2_name :: "access_source \<Rightarrow> bool" where
  "tier2_name src \<longleftrightarrow> prefix ''tier2'' (acs_name src)"

locale access_evidence =
  fixes src :: access_source
  assumes nr_evidence: "acs_nr_event src d i t ov = Inr e \<Longrightarrow>
      ne_observed_at e = t \<and> (ne_source_mode e = LIVE_TESTBED \<longleftrightarrow> tier2_name src)
      \<and> (acs_address src i NR = Inr [] \<or> acs_address src i NR = Inr (ne_peer_address e))"
    and wlan_evidence: "acs_wlan_event src d i t ov = Inr w \<Longrightarrow>
      we_observed_at w = t \<and> (we_source_mode w = LIVE_TESTBED \<longleftrightarrow> tier2_name src)
      \<and> acs_address src i WLAN = Inr (we_peer_address w)"
    and stamp_adds: "''source_mode'' \<notin> fst ` set (acs_event_stamp src dm)"
begin

definition truthful_mode :: "source_mode \<Rightarrow> bool" where
  "truthful_mode m \<longleftrightarrow> (m = LIVE_TESTBED \<longleftrightarrow> tier2_name src)"

lemma evidence_is_truthful:
  "acs_nr_event src d i t ov = Inr e \<Longrightarrow> truthful_mode (ne_source_mode e)"
  "acs_wlan_event src d i t ov = Inr w \<Longrightarrow> truthful_mode (we_source_mode w)"
  using nr_evidence wlan_evidence by (auto simp: truthful_mode_def)

end

interpretation fixture_evidence: access_evidence "fixture_access fx"
  by unfold_locales
    (auto simp: fixture_access_def fixture_nr_event_def fixture_wlan_event_def tier2_name_def)

lemma live_nr_event_cases:
  assumes "live_nr_event lv d i t ov = Inr e"
  obtains a observed n where "live_address lv i NR = Inr a" "dget (lv_nr_by_address lv) a = Some observed"
    "to_nr_access_event observed (Some a) (Some 120) = Some n" "ne_event_type e = ne_event_type n"
    "ne_peer_address e = ne_peer_address n" "ne_observed_at e = t" "ne_source_mode e = LIVE_TESTBED"
proof -
  obtain a where a: "live_address lv i NR = Inr a"
    using assms by (auto simp: live_nr_event_def and_then_Inr_iff)
  moreover obtain obs where o: "dget (lv_nr_by_address lv) a = Some obs"
    using assms a by (cases "dget (lv_nr_by_address lv) a") (simp_all add: live_nr_event_def)
  moreover obtain n where n: "to_nr_access_event obs (Some a) (Some 120) = Some n"
    using assms a o by (cases "to_nr_access_event obs (Some a) (Some 120)") (simp_all add: live_nr_event_def)
  moreover have "ne_event_type e = ne_event_type n" "ne_peer_address e = ne_peer_address n"
      "ne_observed_at e = t" "ne_source_mode e = LIVE_TESTBED"
    using assms a o n by (auto simp: live_nr_event_def)
  ultimately show ?thesis by (rule that)
qed

interpretation live_evidence: access_evidence "live_access lv"
proof
  fix d i t ov e
  assume "acs_nr_event (live_access lv) d i t ov = Inr e"
  then have l: "live_nr_event lv d i t ov = Inr e" by (simp add: live_access_def)
  then show "ne_observed_at e = t \<and> (ne_source_mode e = LIVE_TESTBED \<longleftrightarrow> tier2_name (live_access lv))
      \<and> (acs_address (live_access lv) i NR = Inr [] \<or> acs_address (live_access lv) i NR = Inr (ne_peer_address e))"
  proof (cases rule: live_nr_event_cases)
    case (1 a observed n)
    have "a = [] \<or> a = ne_peer_address e"
      using to_nr_live [OF 1(3)] 1(5) by (cases a) (simp_all add: str_or_def)
    with 1 show ?thesis by (auto simp: live_access_def tier2_name_def)
  qed
next
  fix d i t ov e
  assume "acs_wlan_event (live_access lv) d i t ov = Inr e"
  then show "we_observed_at e = t \<and> (we_source_mode e = LIVE_TESTBED \<longleftrightarrow> tier2_name (live_access lv))
      \<and> acs_address (live_access lv) i WLAN = Inr (we_peer_address e)"
    by (auto simp: live_access_def live_wlan_event_def tier2_name_def and_then_Inr_iff
        split: if_splits option.splits)
next
  fix dm
  show "''source_mode'' \<notin> fst ` set (acs_event_stamp (live_access lv) dm)"
    by (cases dm) (simp_all add: live_access_def live_event_stamp_def)
qed

section \<open>Where the live source falls short\<close>

text \<open>A release read from a log line leaves the session it ends in place.\<close>

lemma logged_release_is_ignored:
  assumes "open5gs_line t l = Some r" "og_is_release r"
  shows "by_address (es @ [r]) d = by_address es d"
  using release_line_has_no_address [OF assms] by (simp add: by_address_def)

text \<open>A loaded source has addresses in both domains, and an association of which it has no proof but a
  success line of any kind.\<close>

lemma load_live_Inr:
  assumes "load_live lr now tb lv = Inr lv'"
  shows "lv_nr_addresses lv' \<noteq> [] \<and> lv_wlan_addresses lv' \<noteq> [] \<and> lv_wlan_events lv' \<noteq> []
    \<and> list_all hw_succeeded (lv_wlan_events lv') \<and> tb_nr_stream tb \<noteq> None \<and> tb_wlan_stream tb \<noteq> None"
  using assms by (auto simp: load_live_def and_then_Inr_iff Let_def list_all_iff split: if_splits)

end
