(* ===== verification/Scenario_Runner.thy ===== *)
theory Scenario_Runner
  imports Access_Sources "HOL-Library.Log_Nat"
begin

text \<open>
  The experiment controller (\<^verbatim>\<open>experiments/runner/controller.py\<close>): it builds the core in process,
  registers the scenario's devices, plays the scenario's events against one decision strategy on a
  frozen clock, scores the steps that carry a label, and writes the run's output.

  The runner object is the record \<open>runner\<close>, each method a function on it that returns a result. What
  the code draws from outside is the record \<open>run_env\<close>: generated key pairs, random bytes, identifiers,
  measured durations (a function of how many were drawn before), the access source, the settings as
  loaded, and the seeded random generator as its three operations. An output row is a dictionary of
  JSON values and exact numbers. The sampling of CPU and memory, the git and platform facts of the
  metadata and the encoding of files are not modelled.
\<close>

section \<open>Rows, options, environment\<close>

datatype cell = J json | Num rat

type_synonym row = "(string, cell) dict"

text \<open>A dictionary display: a later entry wins, the first one keeps its place.\<close>

definition mk_row :: "(string \<times> cell) list \<Rightarrow> row" where
  "mk_row kvs = fold (\<lambda>(k, v). dset k v) kvs []"

abbreviation jstr :: "string \<Rightarrow> cell" where
  "jstr s \<equiv> J (JStr s)"

definition opt_jstr :: "string option \<Rightarrow> cell" where
  "opt_jstr v = J (opt_json v)"

record keypair =
  kp_public_key_pem :: string
  kp_sign :: "bytes \<Rightarrow> bytes"

text \<open>\<open>random.Random(seed)\<close>, \<open>random()\<close> and the index \<open>choice\<close> picks below a bound\<close>

record 'g rng =
  rg_seed :: "int \<Rightarrow> 'g"
  rg_random :: "'g \<Rightarrow> rat \<times> 'g"
  rg_below :: "nat \<Rightarrow> 'g \<Rightarrow> nat \<times> 'g"

record ('k, 'g) run_env =
  rv_crypto :: "'k crypto"
  rv_settings :: settings
  rv_nr_salt :: bytes
  rv_wlan_salt :: bytes
  rv_keypair :: "nat \<Rightarrow> keypair"
  rv_nonce :: "nat \<Rightarrow> bytes"
  rv_binding_id :: "nat \<Rightarrow> string"
  rv_draws :: "nat \<Rightarrow> draws"
  rv_elapsed_ns :: "nat \<Rightarrow> nat"
  rv_rng :: "'g rng"
  rv_source :: access_source

record run_options =
  ro_scenario :: scenario
  ro_strategy_name :: string
  ro_seed :: int
  ro_repetition :: nat
  ro_result_class :: string
  ro_start :: "instant option"
  ro_run_id :: string

text \<open>The constructor's seed and start time.\<close>

definition run_seed :: "scenario \<Rightarrow> nat \<Rightarrow> int option \<Rightarrow> int" where
  "run_seed s repetition explicit =
     (case explicit of Some n \<Rightarrow> n | None \<Rightarrow> int (scn_seed s) + int repetition)"

definition default_start :: instant where
  "default_start = 1780304400000000"

definition run_clock :: "run_options \<Rightarrow> frozen_clock" where
  "run_clock opt = new_frozen_clock (Some (case ro_start opt of Some t \<Rightarrow> t | None \<Rightarrow> default_start))"

definition strftime_compact :: "instant \<Rightarrow> string" where
  "strftime_compact t =
     (let us = t mod 1000000;
          sec = t div 1000000;
          sod = sec mod 86400
      in (case civil_from_days (sec div 86400) of (y, m, d) \<Rightarrow>
            pad_left 4 (show_int y) @ pad_left 2 (show_int m) @ pad_left 2 (show_int d) @ ''T''
            @ pad_left 2 (show_int (sod div 3600)) @ pad_left 2 (show_int (sod div 60 mod 60))
            @ pad_left 2 (show_int (sod mod 60)) @ pad_left 6 (show_int us) @ ''Z''))"

definition make_run_id :: "string \<Rightarrow> string \<Rightarrow> int \<Rightarrow> instant \<Rightarrow> string" where
  "make_run_id scenario_id strategy seed moment =
     scenario_id @ ''-'' @ strategy @ ''-'' @ show_int seed @ ''-'' @ strftime_compact moment"

definition PERMITTING_ACTIONS :: "policy_action list" where
  "PERMITTING_ACTIONS = [ALLOW, ALLOW_WITH_RESTRICTIONS]"

section \<open>The runner\<close>

record runner =
  rn_app :: app_state
  rn_clock :: frozen_clock
  rn_keys :: "(string, keypair) dict"
  rn_device_ids :: "string list"
  rn_addresses :: "(string \<times> access_domain, string) dict"
  rn_current_domain :: "(string, access_domain) dict"
  rn_last_state :: "(string, string) dict"
  rn_metrics :: metrics_collector
  rn_events :: "row list"
  rn_decisions :: "row list"
  rn_drawn :: nat

abbreviation rn_now :: "runner \<Rightarrow> instant" where
  "rn_now rn \<equiv> fc_now (rn_clock rn)"

type_synonym 'a run = "runner \<Rightarrow> 'a result \<times> runner"

definition lookup_key :: "('k, 'v) dict \<Rightarrow> 'k \<Rightarrow> 'v result" where
  "lookup_key d k = (case dget d k of None \<Rightarrow> Inl (PyKeyError ''key'') | Some v \<Rightarrow> Inr v)"

text \<open>\<open>xs[i]\<close>, from the end when \<open>i\<close> is negative; \<open>xs.index(x)\<close>\<close>

definition py_nth :: "'a list \<Rightarrow> int \<Rightarrow> 'a result" where
  "py_nth xs i =
     (let j = (if i < 0 then i + int (length xs) else i)
      in if 0 \<le> j \<and> j < int (length xs) then Inr (xs ! nat j)
         else Inl (PyIndexError ''list index out of range''))"

fun index_from :: "nat \<Rightarrow> 'a list \<Rightarrow> 'a \<Rightarrow> nat option" where
  "index_from n [] x = None"
| "index_from n (y # ys) x = (if y = x then Some n else index_from (Suc n) ys x)"

definition py_index :: "'a list \<Rightarrow> 'a \<Rightarrow> nat result" where
  "py_index xs x =
     (case index_from 0 xs x of None \<Rightarrow> Inl (PyValueError ''not in list'') | Some i \<Rightarrow> Inr i)"

text \<open>Changing the state.\<close>

definition log_event :: "(string \<times> cell) list \<Rightarrow> runner \<Rightarrow> runner" where
  "log_event kvs rn = rn\<lparr>rn_events := rn_events rn @ [mk_row kvs]\<rparr>"

definition with_metrics :: "(metrics_collector \<Rightarrow> metrics_collector) \<Rightarrow> runner \<Rightarrow> runner" where
  "with_metrics f rn = rn\<lparr>rn_metrics := f (rn_metrics rn)\<rparr>"

definition set_domain :: "string \<Rightarrow> access_domain \<Rightarrow> runner \<Rightarrow> runner" where
  "set_domain d dm rn = rn\<lparr>rn_current_domain := dset d dm (rn_current_domain rn)\<rparr>"

definition advance_clock :: "int \<Rightarrow> unit run" where
  "advance_clock us rn =
     (case clock_advance (rn_clock rn) us of
        Inl e \<Rightarrow> (Inl e, rn)
      | Inr c \<Rightarrow> (Inr (), rn\<lparr>rn_clock := c\<rparr>))"

definition ms :: "nat \<Rightarrow> rat" where
  "ms ns = of_nat ns / 1000000"

section \<open>Tier and disclaimer\<close>

definition source_tier :: "access_source \<Rightarrow> measurement_tier" where
  "source_tier src = (if prefix ''tier2'' (acs_name src) then TIER2 else TIER1)"

definition disclaimer :: "access_source \<Rightarrow> string \<Rightarrow> string" where
  "disclaimer src result_class =
     (let final = (result_class = ''final'') in
      if tier_value (source_tier src) = ''tier2'' then
        (let scope = ''Tier-2 live software-based testbed. Real 5G NAS/NGAP/GTP-U via '' @
               ''Open5GS and UERANSIM, and a real IEEE 802.11 association and '' @
               ''EAP-TLS exchange via mac80211_hwsim, over simulated radios. Not '' @
               ''an RF, propagation, interference, channel-quality, '' @
               ''spectrum-coexistence or physical-handover measurement.''
         in if final then ''Final thesis experimental evidence. '' @ scope
            else ''Development validation. '' @ scope @ '' Not final thesis experimental evidence.'')
      else
        (let scope = ''Tier-1. The 5G access context is a synthetic fixture and the WLAN '' @
               ''side is 802.1X/EAP-TLS authentication-path emulation. Not a WiFi, '' @
               ''RF, 802.11 or 5G measurement.''
         in if final then ''Final thesis experimental evidence. '' @ scope
            else ''Development validation. '' @ scope @ '' Not final thesis experimental evidence.''))"

section \<open>Feeding access events\<close>

definition fed_row ::
  "access_source \<Rightarrow> string \<Rightarrow> access_domain \<Rightarrow> string \<Rightarrow> instant \<Rightarrow> string \<Rightarrow> source_mode
     \<Rightarrow> (string, string) dict \<Rightarrow> access_binding option \<Rightarrow> (string \<times> cell) list" where
  "fed_row src kind dm d now peer mode overrides binding =
     [(''kind'', jstr kind), (''device_id'', jstr d), (''at'', jstr (isoformat now)),
      (''peer_address'', jstr peer), (''source_mode'', jstr (source_mode_value mode)),
      (''access_source'', jstr (acs_name src))]
     @ map (\<lambda>(k, v). (k, jstr v)) (acs_event_stamp src dm)
     @ [(''measurement_subject'', jstr (subject_value (acs_subject src dm))),
        (''adversarial_override'',
           if overrides = [] then J JNull else J (strs (sort (map fst overrides)))),
        (''binding_id'', opt_jstr (map_option ab_binding_id binding))]"

definition store_bindings :: "binding_store \<Rightarrow> runner \<Rightarrow> runner" where
  "store_bindings bs rn =
     rn\<lparr>rn_app := (rn_app rn)\<lparr>ap_services := (ap_services (rn_app rn))\<lparr>sy_bindings := bs\<rparr>\<rparr>,
        rn_drawn := Suc (rn_drawn rn)\<rparr>"

definition feed_nr :: "('k, 'g) run_env \<Rightarrow> string \<Rightarrow> (string, string) dict \<Rightarrow> unit run" where
  "feed_nr env d overrides rn =
     run_then (py_index (rn_device_ids rn) d, rn) (\<lambda>index rn.
     run_then (acs_nr_event (rv_source env) d index (rn_now rn) overrides, rn) (\<lambda>e rn.
     run_then (nr_ingest (rv_crypto env) (ap_nr_collector (rn_app rn)) (rv_binding_id env (rn_drawn rn))
         (sy_bindings (ap_services (rn_app rn))) (NrEvent e), rn) (\<lambda>(b, bs) rn.
       (Inr (), log_event (fed_row (rv_source env) ''nr_session'' NR d (rn_now rn) (ne_peer_address e)
            (ne_source_mode e) overrides b)
          (with_metrics (observe_sample ''M1_NR'' (ms (rv_elapsed_ns env (rn_drawn rn)))
             (Some (acs_subject (rv_source env) NR))) (store_bindings bs rn))))))"

definition feed_wlan :: "('k, 'g) run_env \<Rightarrow> string \<Rightarrow> (string, string) dict \<Rightarrow> unit run" where
  "feed_wlan env d overrides rn =
     run_then (py_index (rn_device_ids rn) d, rn) (\<lambda>index rn.
     run_then (acs_wlan_event (rv_source env) d index (rn_now rn) overrides, rn) (\<lambda>e rn.
     run_then (wlan_ingest (rv_crypto env) (ap_wlan_collector (rn_app rn)) (rv_binding_id env (rn_drawn rn))
         (sy_bindings (ap_services (rn_app rn))) (WlanEvent e), rn) (\<lambda>(b, bs) rn.
       (Inr (), log_event (fed_row (rv_source env) ''wlan_session'' WLAN d (rn_now rn) (we_peer_address e)
            (we_source_mode e) overrides b)
          (with_metrics (observe_sample ''M1_EAP'' (ms (rv_elapsed_ns env (rn_drawn rn)))
             (Some (acs_subject (rv_source env) WLAN))) (store_bindings bs rn))))))"

text \<open>\<open>if target is NR: feed_nr else: feed_wlan\<close>\<close>

definition feed :: "('k, 'g) run_env \<Rightarrow> access_domain \<Rightarrow> string \<Rightarrow> (string, string) dict \<Rightarrow> unit run" where
  "feed env dm d overrides = (if dm = NR then feed_nr env d overrides else feed_wlan env d overrides)"

section \<open>Decisions\<close>

text \<open>On a frozen clock every reading of the wall clock is the same instant.\<close>

definition frozen_draws :: "instant \<Rightarrow> draws \<Rightarrow> draws" where
  "frozen_draws now dw = dw\<lparr>dw_now := now, dw_clk_verify := now, dw_clk_observe := now,
     dw_clk_claim := now, dw_clk_direct := now\<rparr>"

definition make_proof :: "('k, 'g) run_env \<Rightarrow> string \<Rightarrow> bool \<Rightarrow> proof_of_possession option run" where
  "make_proof env d with_proof rn =
     (if \<not> with_proof then (Inr None, rn)
      else (case issue (rn_now rn) (rv_nonce env (rn_drawn rn)) (sy_nonces (ap_services (rn_app rn))) d of
              (nonce, expires_at, ni) \<Rightarrow>
                run_then (lookup_key (rn_keys rn) d,
                    rn\<lparr>rn_app := (rn_app rn)\<lparr>ap_services := (ap_services (rn_app rn))\<lparr>sy_nonces := ni\<rparr>\<rparr>\<rparr>)
                  (\<lambda>kp rn. run_then (device_proof (kp_sign kp) d nonce, rn) (\<lambda>p rn. (Inr (Some p), rn)))))"

definition decision_row ::
  "string \<Rightarrow> decision \<Rightarrow> string option \<Rightarrow> nat \<Rightarrow> trust_evaluation option \<Rightarrow> access_domain \<Rightarrow> access_source
     \<Rightarrow> measurement_tier \<Rightarrow> instant \<Rightarrow> row" where
  "decision_row d dec previous elapsed evaluation dm src declared now =
     mk_row
      [(''decision_id'', jstr (dc_decision_id dec)), (''device_id'', jstr d),
       (''at'', jstr (isoformat now)), (''strategy'', jstr (dc_strategy dec)),
       (''trust_state'', jstr (state_value (dc_trust_state dec))),
       (''previous_trust_state'', opt_jstr previous),
       (''transition_context'', jstr (context_value (dc_transition_context dec))),
       (''action'', jstr (action_value (dc_action dec))), (''scope'', jstr (sp_name (dc_scope dec))),
       (''ttl_ms'', J (JInt (dc_ttl_ms dec))), (''reason_codes'', J (strs (dc_reason_codes dec))),
       (''policy_rule_id'', jstr (dc_rule_id dec)),
       (''evidence_record_id'', opt_jstr (dc_evidence_record_id dec)),
       (''predicate_trace_id'', opt_jstr (dc_predicate_trace_id dec)),
       (''config_hash'', jstr (dc_config_hash dec)), (''decision_latency_ms'', Num (ms elapsed)),
       (''engine_duration_ns'', case evaluation of None \<Rightarrow> J JNull
          | Some ev \<Rightarrow> J (JInt (tv_engine_duration_ns ev))),
       (''domain'', jstr (domain_value dm)), (''measurement_tier'', jstr (tier_value (source_tier src))),
       (''declared_measurement_tier'', jstr (tier_value declared))]"

text \<open>Measuring and recording a decision that was taken.\<close>

definition record_outcome ::
  "('k, 'g) run_env \<Rightarrow> run_options \<Rightarrow> string \<Rightarrow> access_domain \<Rightarrow> strategy_outcome \<Rightarrow> runner \<Rightarrow> runner" where
  "record_outcome env opt d dm so rn =
     (let dec = so_decision so;
          elapsed = rv_elapsed_ns env (rn_drawn rn);
          previous = dget (rn_last_state rn) d;
          measure = (case so_trust_evaluation so of None \<Rightarrow> (\<lambda>mc. mc)
             | Some ev \<Rightarrow> observe_sample ''M12'' (of_int (tv_engine_duration_ns ev) / 1000) None)
      in rn\<lparr>rn_metrics := record_decision (action_value (dc_action dec)) (state_value (dc_trust_state dec))
               previous (measure (observe_sample ''M3'' (ms elapsed) None (rn_metrics rn))),
            rn_last_state := dset d (state_value (dc_trust_state dec)) (rn_last_state rn),
            rn_decisions := rn_decisions rn @
              [decision_row d dec previous elapsed (so_trust_evaluation so) dm (rv_source env)
                 (scn_measurement_tier (ro_scenario opt)) (rn_now rn)],
            rn_drawn := Suc (rn_drawn rn)\<rparr>)"

definition run_extra :: "run_options \<Rightarrow> (string, json) dict" where
  "run_extra opt = [(''run_id'', JStr (ro_run_id opt)),
                    (''scenario_id'', JStr (scn_scenario_id (ro_scenario opt)))]"

definition take_decision ::
  "('k, 'g) run_env \<Rightarrow> run_options \<Rightarrow> access_request \<Rightarrow> strategy_outcome run" where
  "take_decision env opt rq rn =
     run_then (app_strategy (rn_app rn) (Some (ro_strategy_name opt)), rn) (\<lambda>def rn.
       (case decide_and_enforce (rv_crypto env) def
               \<lparr>ad_clk_domain = rn_now rn, ad_strategy = frozen_draws (rn_now rn) (rv_draws env (rn_drawn rn)),
                ad_recorded_at = rn_now rn\<rparr>
               (\<lambda>_. run_extra opt) (rn_app rn) rq of
          (r, st) \<Rightarrow> (r, rn\<lparr>rn_app := st\<rparr>)))"

definition run_decide ::
  "('k, 'g) run_env \<Rightarrow> run_options \<Rightarrow> string \<Rightarrow> bool \<Rightarrow> string option \<Rightarrow> string option \<Rightarrow> decision run" where
  "run_decide env opt d with_proof session peer rn =
     run_then (lookup_key (rn_current_domain rn) d, rn) (\<lambda>dm rn.
     run_then (case peer of Some (c # cs) \<Rightarrow> Inr (c # cs) | _ \<Rightarrow> lookup_key (rn_addresses rn) (d, dm), rn)
       (\<lambda>address rn.
     run_then (make_proof env d with_proof rn) (\<lambda>pf rn.
     run_then (take_decision env opt
         \<lparr>rq_device_id = d, rq_peer_address = address, rq_domain = dm,
          rq_session_identity = (case session of Some s \<Rightarrow> Some s | None \<Rightarrow> Some d), rq_proof = pf,
          rq_resource = None, rq_at = Some (rn_now rn)\<rparr> rn) (\<lambda>so rn.
       (Inr (so_decision so), record_outcome env opt d dm so rn)))))"

section \<open>Scoring\<close>

definition score :: "scenario_event \<Rightarrow> decision \<Rightarrow> runner \<Rightarrow> runner" where
  "score ev dec rn =
     (if \<not> scored (sev_ground_truth ev) then rn
      else with_metrics (record_ground_truth (sev_step ev) (label_value (sev_ground_truth ev))
             (action_value (dc_action dec)) (state_value (dc_trust_state dec))
             (dc_action dec \<in> set PERMITTING_ACTIONS)
             (Some (acceptable (sev_ground_truth ev) (action_value (dc_action dec))))) rn)"

section \<open>Playing the events\<close>

text \<open>A decision with a proof, its row in the event log, and its score.\<close>

definition decide_and_log ::
  "('k, 'g) run_env \<Rightarrow> run_options \<Rightarrow> string \<Rightarrow> string option \<Rightarrow> string option
     \<Rightarrow> (runner \<Rightarrow> decision \<Rightarrow> (string \<times> cell) list) \<Rightarrow> decision run" where
  "decide_and_log env opt d session peer entry rn =
     run_then (run_decide env opt d True session peer rn) (\<lambda>dec rn.
       (Inr dec, log_event (entry rn dec) rn))"

definition play_advance :: "scenario_event \<Rightarrow> unit run" where
  "play_advance ev rn =
     run_then (advance_clock (sev_advance ev) rn) (\<lambda>_ rn.
       (Inr (), log_event [(''kind'', jstr ''advance_time''), (''at'', jstr (isoformat (rn_now rn))),
          (''advance_s'', Num (of_int (sev_advance ev) / 1000000)),
          (''note'', jstr ''scenario time advanced without sleeping'')] rn))"

definition play_stale :: "string \<Rightarrow> scenario_event \<Rightarrow> unit run" where
  "play_stale d ev rn =
     run_then (advance_clock (sev_advance ev) rn) (\<lambda>_ rn.
       (Inr (), log_event [(''kind'', jstr ''stale_evidence''), (''device_id'', jstr d),
          (''at'', jstr (isoformat (rn_now rn))), (''aged_by_s'', Num (of_int (sev_advance ev) / 1000000)),
          (''note'', jstr ''no refresh; evidence ages past its freshness bound'')] rn))"

definition play_identity_mismatch ::
  "('k, 'g) run_env \<Rightarrow> run_options \<Rightarrow> string \<Rightarrow> scenario_event \<Rightarrow> unit run" where
  "play_identity_mismatch env opt d ev rn =
     (case sev_other_device_index ev of
        None \<Rightarrow> (Inl (PyValueError (''step '' @ show_nat (sev_step ev)
                  @ '': identity_mismatch needs other_device_index'')), rn)
      | Some i \<Rightarrow>
          run_then (py_nth (rn_device_ids rn) (int i), rn) (\<lambda>other rn.
          run_then (lookup_key (rn_current_domain rn) d, rn) (\<lambda>dm rn.
          run_then (lookup_key (rn_addresses rn) (d, dm), rn) (\<lambda>claimed rn.
          run_then (decide_and_log env opt other None (Some claimed)
              (\<lambda>rn dec. [(''kind'', jstr ''identity_mismatch''), (''device_id'', jstr other),
                 (''at'', jstr (isoformat (rn_now rn))), (''claimed_address_of'', jstr d),
                 (''peer_address'', jstr claimed), (''decision_id'', jstr (dc_decision_id dec))]) rn)
            (\<lambda>dec rn. (Inr (), score ev dec rn))))))"

definition play_unauthorized_context ::
  "('k, 'g) run_env \<Rightarrow> run_options \<Rightarrow> string \<Rightarrow> scenario_event \<Rightarrow> unit run" where
  "play_unauthorized_context env opt d ev rn =
     (let overrides = (if sev_posture_override ev = [] then [(''akm'', ''OPEN'')] else sev_posture_override ev);
          target = (case sev_domain ev of None \<Rightarrow> WLAN | Some dm \<Rightarrow> dm)
      in run_then (feed env target d overrides rn) (\<lambda>_ rn.
         run_then (decide_and_log env opt d None None
             (\<lambda>rn dec. [(''kind'', jstr ''unauthorized_context''), (''device_id'', jstr d),
                (''at'', jstr (isoformat (rn_now rn))), (''domain'', jstr (domain_value target)),
                (''overrides'', J (JObj (map (\<lambda>(k, v). (k, JStr v)) overrides))),
                (''decision_id'', jstr (dc_decision_id dec)),
                (''reason_codes'', J (strs (dc_reason_codes dec)))]) (set_domain d target rn))
           (\<lambda>dec rn. (Inr (), score ev dec rn))))"

text \<open>\<open>event.session_identity or f"not-{device_id}"\<close>\<close>

definition bogus_session :: "string \<Rightarrow> scenario_event \<Rightarrow> string" where
  "bogus_session d ev = or_text (sev_session_identity ev) (''not-'' @ d)"

definition play_session_mismatch ::
  "('k, 'g) run_env \<Rightarrow> run_options \<Rightarrow> string \<Rightarrow> scenario_event \<Rightarrow> unit run" where
  "play_session_mismatch env opt d ev rn =
     run_then (decide_and_log env opt d (Some (bogus_session d ev)) None
         (\<lambda>rn dec. [(''kind'', jstr ''session_mismatch''), (''device_id'', jstr d),
            (''at'', jstr (isoformat (rn_now rn))), (''session_identity'', jstr (bogus_session d ev)),
            (''decision_id'', jstr (dc_decision_id dec)),
            (''reason_codes'', J (strs (dc_reason_codes dec)))]) rn)
       (\<lambda>dec rn. (Inr (), score ev dec rn))"

text \<open>\<open>domains[index % 2]\<close>\<close>

definition alternate :: "nat \<Rightarrow> access_domain" where
  "alternate i = (if even i then NR else WLAN)"

text \<open>A zero interval does not move the clock.\<close>

definition pause :: "int \<Rightarrow> unit run" where
  "pause us rn = (if us = 0 then (Inr (), rn) else advance_clock us rn)"

text \<open>\<open>transitions_in_window\<close> prunes the device's history as it counts.\<close>

definition count_transitions :: "string \<Rightarrow> runner \<Rightarrow> nat \<times> runner" where
  "count_transitions d rn =
     (case transitions_in_window (sy_transitions (ap_services (rn_app rn))) d (rn_now rn) of
        (n, tc) \<Rightarrow> (n, rn\<lparr>rn_app := (rn_app rn)\<lparr>ap_services :=
                          (ap_services (rn_app rn))\<lparr>sy_transitions := tc\<rparr>\<rparr>\<rparr>))"

definition rapid_step ::
  "('k, 'g) run_env \<Rightarrow> run_options \<Rightarrow> string \<Rightarrow> scenario_event \<Rightarrow> nat \<Rightarrow> decision run" where
  "rapid_step env opt d ev i rn =
     run_then (feed env (alternate i) d [] rn) (\<lambda>_ rn.
     run_then (run_decide env opt d True None None (set_domain d (alternate i) rn)) (\<lambda>dec rn.
     (case count_transitions d rn of
        (n, rn) \<Rightarrow>
          run_then (pause (sev_interval ev) (log_event
              [(''kind'', jstr ''rapid_transition''), (''device_id'', jstr d),
               (''at'', jstr (isoformat (rn_now rn))), (''iteration'', J (JInt (int i + 1))),
               (''to_domain'', jstr (domain_value (alternate i))),
               (''transitions_in_window'', J (JInt (int n))),
               (''rate_limit'', J (JInt (ts_max_transitions_per_window
                   (st_transition (sy_settings (ap_services (rn_app rn))))))),
               (''decision_id'', jstr (dc_decision_id dec))] rn)) (\<lambda>_ rn. (Inr dec, rn)))))"

text \<open>The loop keeps the last decision: \<open>None\<close> before the first iteration.\<close>

fun rapid_loop ::
  "('k, 'g) run_env \<Rightarrow> run_options \<Rightarrow> string \<Rightarrow> scenario_event \<Rightarrow> nat list \<Rightarrow> decision option \<Rightarrow> decision option run" where
  "rapid_loop env opt d ev [] last_dec rn = (Inr last_dec, rn)"
| "rapid_loop env opt d ev (i # is) last_dec rn =
     run_then (rapid_step env opt d ev i rn) (\<lambda>dec rn. rapid_loop env opt d ev is (Some dec) rn)"

definition play_rapid_transitions ::
  "('k, 'g) run_env \<Rightarrow> run_options \<Rightarrow> string \<Rightarrow> scenario_event \<Rightarrow> unit run" where
  "play_rapid_transitions env opt d ev rn =
     run_then (rapid_loop env opt d ev [0 ..< sev_repeat ev] None rn) (\<lambda>od rn.
       (Inr (), case od of None \<Rightarrow> rn | Some dec \<Rightarrow> score ev dec rn))"

text \<open>\<open>range(start, min(end, len(device_ids) - 1) + 1)\<close>\<close>

definition member_range :: "scenario \<Rightarrow> scenario_event \<Rightarrow> int \<times> int" where
  "member_range s ev =
     (case sev_device_range ev of
        Some r \<Rightarrow> r | None \<Rightarrow> (0, int (scn_device_count s) - 1))"

definition member_indices :: "scenario \<Rightarrow> scenario_event \<Rightarrow> nat \<Rightarrow> int list" where
  "member_indices s ev n =
     [fst (member_range s ev) .. min (snd (member_range s ev)) (int n - 1)]"

definition concurrent_step ::
  "('k, 'g) run_env \<Rightarrow> run_options \<Rightarrow> scenario_event \<Rightarrow> int \<Rightarrow> unit run" where
  "concurrent_step env opt ev i rn =
     (let target = (case sev_domain ev of None \<Rightarrow> WLAN | Some dm \<Rightarrow> dm)
      in run_then (py_nth (rn_device_ids rn) i, rn) (\<lambda>m rn.
         run_then (feed env target m [] rn) (\<lambda>_ rn.
         run_then (decide_and_log env opt m None None
             (\<lambda>rn dec. [(''kind'', jstr ''concurrent_transition''), (''device_id'', jstr m),
                (''at'', jstr (isoformat (rn_now rn))), (''to_domain'', jstr (domain_value target)),
                (''decision_id'', jstr (dc_decision_id dec))]) (set_domain m target rn)) (\<lambda>dec rn.
           pause (sev_interval ev) (score ev dec rn)))))"

text \<open>\<open>event.interval_s or 1\<close>\<close>

definition sweep_interval :: "scenario_event \<Rightarrow> int" where
  "sweep_interval ev = (if sev_interval ev = 0 then seconds 1 else sev_interval ev)"

definition sweep_step ::
  "('k, 'g) run_env \<Rightarrow> run_options \<Rightarrow> scenario_event \<Rightarrow> int \<Rightarrow> unit run" where
  "sweep_step env opt ev i rn =
     run_then (py_nth (rn_device_ids rn) i, rn) (\<lambda>m rn.
     run_then (feed_nr env m [] rn) (\<lambda>_ rn.
     run_then (run_decide env opt m True None None (set_domain m NR rn)) (\<lambda>_ rn.
     run_then (advance_clock (sweep_interval ev) rn) (\<lambda>_ rn.
     run_then (feed_wlan env m [] rn) (\<lambda>_ rn.
     run_then (decide_and_log env opt m None None
         (\<lambda>rn dec. [(''kind'', jstr ''device_sweep''), (''device_id'', jstr m),
            (''at'', jstr (isoformat (rn_now rn))), (''decision_id'', jstr (dc_decision_id dec))])
         (set_domain m WLAN rn)) (\<lambda>dec rn. (Inr (), score ev dec rn)))))))"

text \<open>A loop over a list whose body may raise.\<close>

fun for_each :: "('a \<Rightarrow> unit run) \<Rightarrow> 'a list \<Rightarrow> unit run" where
  "for_each body [] rn = (Inr (), rn)"
| "for_each body (x # xs) rn = run_then (body x rn) (\<lambda>_ rn. for_each body xs rn)"

definition play_concurrent_transition ::
  "('k, 'g) run_env \<Rightarrow> run_options \<Rightarrow> scenario_event \<Rightarrow> unit run" where
  "play_concurrent_transition env opt ev rn =
     for_each (concurrent_step env opt ev) (member_indices (ro_scenario opt) ev (length (rn_device_ids rn))) rn"

definition play_device_sweep ::
  "('k, 'g) run_env \<Rightarrow> run_options \<Rightarrow> scenario_event \<Rightarrow> unit run" where
  "play_device_sweep env opt ev rn =
     run_then (for_each (sweep_step env opt ev) (member_indices (ro_scenario opt) ev (length (rn_device_ids rn))) rn)
       (\<lambda>_ rn. (Inr (), with_metrics (observe_sample ''M20''
          (of_int (snd (member_range (ro_scenario opt) ev) - fst (member_range (ro_scenario opt) ev) + 1)) None) rn))"

text \<open>Outage and recovery set the availability of the domain's collector.\<close>

definition play_availability :: "bool \<Rightarrow> string \<Rightarrow> scenario_event \<Rightarrow> unit run" where
  "play_availability v kind ev rn =
     (let dm = (case sev_domain ev of None \<Rightarrow> NR | Some x \<Rightarrow> x);
          st = rn_app rn;
          st' = (if dm = NR then st\<lparr>ap_nr_collector := set_available (ap_nr_collector st) v\<rparr>
                 else st\<lparr>ap_wlan_collector := set_available (ap_wlan_collector st) v\<rparr>)
      in (Inr (), log_event [(''kind'', jstr kind), (''at'', jstr (isoformat (rn_now rn))),
            (''domain'', jstr (domain_value dm))] (rn\<lparr>rn_app := st'\<rparr>)))"

definition play_transition ::
  "('k, 'g) run_env \<Rightarrow> run_options \<Rightarrow> string \<Rightarrow> scenario_event \<Rightarrow> unit run" where
  "play_transition env opt d ev rn =
     (let target = (case sev_domain ev of None \<Rightarrow> WLAN | Some dm \<Rightarrow> dm)
      in run_then (lookup_key (rn_current_domain rn) d, rn) (\<lambda>previous rn.
         run_then (run_decide env opt d True None None (set_domain d target rn)) (\<lambda>dec rn.
           (Inr (), with_metrics (increment (if dc_action dec \<in> set PERMITTING_ACTIONS then ''M13'' else ''M14'') 1)
              (score ev dec
                (log_event [(''kind'', jstr ''transition''), (''device_id'', jstr d),
                    (''at'', jstr (isoformat (rn_now rn))), (''from_domain'', jstr (domain_value previous)),
                    (''to_domain'', jstr (domain_value target)),
                    (''measurement_subject'', jstr (subject_value S_TRANSITION_ORCHESTRATION)),
                    (''note'', jstr ''access-context switch orchestration; not an 802.11 handover''),
                    (''decision_id'', jstr (dc_decision_id dec))]
                  (with_metrics (observe_sample ''M2'' (ms (rv_elapsed_ns env (rn_drawn rn))) None)
                    (rn\<lparr>rn_drawn := Suc (rn_drawn rn)\<rparr>))))))))"

text \<open>\<open>result.decisions[-1]["decision_latency_ms"]\<close>\<close>

definition last_latency :: "row list \<Rightarrow> rat" where
  "last_latency rows =
     (case rows of [] \<Rightarrow> 0
      | _ \<Rightarrow> (case dget (last rows) ''decision_latency_ms'' of Some (Num x) \<Rightarrow> x | _ \<Rightarrow> 0))"

definition play_decision ::
  "('k, 'g) run_env \<Rightarrow> run_options \<Rightarrow> string \<Rightarrow> scenario_event \<Rightarrow> unit run" where
  "play_decision env opt d ev rn =
     run_then (run_decide env opt d (sev_kind ev = MQTT_CONNECT) None None rn) (\<lambda>dec rn.
       (Inr (), score ev dec
          (if sev_kind ev = MQTT_CONNECT then
             with_metrics (\<lambda>mc. increment ''M8'' 1
               (observe_sample ''M1'' (last_latency (rn_decisions rn)) (Some S_APPLICATION) mc)) rn
           else rn)))"

definition operation_of :: "event_kind \<Rightarrow> resource_operation" where
  "operation_of k = (if k = MQTT_PUBLISH then PUBLISH else SUBSCRIBE)"

definition play_operation :: "string \<Rightarrow> scenario_event \<Rightarrow> unit run" where
  "play_operation d ev rn =
     (let topic = py_replace device_placeholder d (or_text (sev_topic ev) ''dev/{device_id}/telemetry/reading'')
      in (case check (rn_now rn) (ap_pep (rn_app rn))
              \<lparr>eq_device_id = d, eq_operation = operation_of (sev_kind ev), eq_resource = topic\<rparr> of
            (el, p) \<Rightarrow>
              (let rn1 = log_event [(''kind'', jstr (kind_value (sev_kind ev))), (''device_id'', jstr d),
                       (''at'', jstr (isoformat (rn_now rn))), (''topic'', jstr topic),
                       (''permitted'', J (JBool (el_permitted el))), (''reason'', jstr (el_reason el)),
                       (''decision_id'', opt_jstr (el_decision_id el)),
                       (''measurement_subject'', jstr (subject_value S_APPLICATION))]
                     (with_metrics (\<lambda>mc. increment ''M19'' 1 (increment ''M8'' 1 mc))
                       (rn\<lparr>rn_app := (rn_app rn)\<lparr>ap_pep := p\<rparr>\<rparr>))
               in (Inr (),
                   if \<not> scored (sev_ground_truth ev) then rn1
                   else with_metrics (record_ground_truth (sev_step ev) (label_value (sev_ground_truth ev))
                          (case el_action el of None \<Rightarrow> ''NONE'' | Some a \<Rightarrow> action_value a)
                          (case dget (rn_last_state rn) d of None \<Rightarrow> ''UNKNOWN'' | Some s \<Rightarrow> s)
                          (el_permitted el)
                          (map_option (\<lambda>expected. el_permitted el = expected) (sev_expect_permitted ev))) rn1))))"

definition play_disconnect :: "string \<Rightarrow> unit run" where
  "play_disconnect d rn =
     (Inr (), log_event [(''kind'', jstr ''mqtt_disconnect''), (''device_id'', jstr d),
        (''at'', jstr (isoformat (rn_now rn)))]
        (rn\<lparr>rn_app := (rn_app rn)\<lparr>ap_pep := revoke (ap_pep (rn_app rn)) d\<rparr>\<rparr>))"

section \<open>The mixed workload\<close>

text \<open>Binary floating point: the nearest number with 53 significant bits, ties to even.\<close>

definition round_half_even :: "rat \<Rightarrow> int" where
  "round_half_even x =
     (let q = \<lfloor>x\<rfloor>; r = x - of_int q
      in if r < 1 / 2 \<or> (r = 1 / 2 \<and> even q) then q else q + 1)"

definition two_to :: "int \<Rightarrow> rat" where
  "two_to e = (if 0 \<le> e then 2 ^ nat e else 1 / 2 ^ nat (- e))"

definition float_exponent :: "rat \<Rightarrow> int" where
  "float_exponent x =
     (case quotient_of x of (p, q) \<Rightarrow>
        (let k = int (nat (bitlen p)) - int (nat (bitlen q))
         in (if two_to k \<le> x then k else k - 1) - 52))"

definition fl :: "rat \<Rightarrow> rat" where
  "fl x =
     (if x = 0 then 0
      else if x < 0 then - (of_int (round_half_even (- x / two_to (float_exponent (- x)))) * two_to (float_exponent (- x)))
      else of_int (round_half_even (x / two_to (float_exponent x))) * two_to (float_exponent x))"

definition workload_fraction :: "scenario_event \<Rightarrow> rat" where
  "workload_fraction ev = (case sev_legitimate_fraction ev of Some f \<Rightarrow> f | None \<Rightarrow> fl (8 / 10))"

definition workload_kinds :: "scenario_event \<Rightarrow> string list" where
  "workload_kinds ev =
     (if sev_adversarial_kinds ev = [] then
        [''stale_evidence'', ''identity_mismatch'', ''unauthorized_context'', ''rapid_transition'',
         ''session_mismatch'']
      else sev_adversarial_kinds ev)"

text \<open>\<open>max(1, round(device_count * (1.0 - legitimate_fraction)))\<close>\<close>

definition cohort_size :: "nat \<Rightarrow> rat \<Rightarrow> nat" where
  "cohort_size n f = nat (max 1 (round_half_even (fl (of_nat n * fl (1 - f)))))"

definition adversarial_cohort :: "string list \<Rightarrow> rat \<Rightarrow> string list" where
  "adversarial_cohort ids f = drop (length ids - cohort_size (length ids) f) ids"

definition legitimate_cohort :: "string list \<Rightarrow> rat \<Rightarrow> string list" where
  "legitimate_cohort ids f =
     (let xs = take (length ids - cohort_size (length ids) f) ids in if xs = [] then ids else xs)"

record plan_entry =
  pe_index :: nat
  pe_device_id :: string
  pe_class :: string
  pe_cohort :: string
  pe_kind :: string
  pe_label :: ground_truth_label

text \<open>The plan: one draw per entry, and one more to choose the kind of an adversarial one.\<close>

fun build_plan ::
  "'g rng \<Rightarrow> rat \<Rightarrow> string list \<Rightarrow> string list \<Rightarrow> string list \<Rightarrow> nat list \<Rightarrow> 'g \<Rightarrow> plan_entry list" where
  "build_plan rg f kinds legit adv [] g = []"
| "build_plan rg f kinds legit adv (i # is) g =
     (case rg_random rg g of
        (x, g1) \<Rightarrow>
          if x < f then
            \<lparr>pe_index = i, pe_device_id = legit ! (i mod length legit), pe_class = ''legitimate'',
             pe_cohort = ''legitimate'', pe_kind = ''transition'', pe_label = LEGITIMATE_RESTRICT\<rparr>
            # build_plan rg f kinds legit adv is g1
          else
            (case rg_below rg (length kinds) g1 of
               (j, g2) \<Rightarrow>
                 \<lparr>pe_index = i, pe_device_id = adv ! (i mod length adv), pe_class = ''adversarial'',
                  pe_cohort = ''adversarial'', pe_kind = kinds ! j, pe_label = MALICIOUS_REJECT\<rparr>
                 # build_plan rg f kinds legit adv is g2))"

definition workload_plan :: "'g rng \<Rightarrow> int \<Rightarrow> string list \<Rightarrow> scenario_event \<Rightarrow> plan_entry list" where
  "workload_plan rg seed ids ev =
     (let f = workload_fraction ev
      in build_plan rg f (workload_kinds ev) (legitimate_cohort ids f) (adversarial_cohort ids f)
           [0 ..< sev_repeat ev] (rg_seed rg (seed + int (sev_step ev))))"

definition plan_json :: "plan_entry \<Rightarrow> json" where
  "plan_json p =
     JObj [(''index'', JInt (int (pe_index p))), (''device_id'', JStr (pe_device_id p)),
           (''class'', JStr (pe_class p)), (''cohort'', JStr (pe_cohort p)), (''kind'', JStr (pe_kind p)),
           (''label'', JStr (label_value (pe_label p)))]"

definition plan_row :: "int \<Rightarrow> string list \<Rightarrow> scenario_event \<Rightarrow> plan_entry list \<Rightarrow> instant \<Rightarrow> (string \<times> cell) list" where
  "plan_row seed ids ev plan now =
     [(''kind'', jstr ''mixed_workload_plan''), (''at'', jstr (isoformat now)),
      (''seed'', J (JInt (seed + int (sev_step ev)))), (''legitimate_fraction'', Num (workload_fraction ev)),
      (''adversarial_kinds'', J (strs (workload_kinds ev))), (''total'', J (JInt (int (length plan)))),
      (''legitimate'', J (JInt (int (length (filter (\<lambda>p. pe_class p = ''legitimate'') plan))))),
      (''adversarial'', J (JInt (int (length (filter (\<lambda>p. pe_class p = ''adversarial'') plan))))),
      (''legitimate_cohort'', J (strs (legitimate_cohort ids (workload_fraction ev)))),
      (''adversarial_cohort'', J (strs (adversarial_cohort ids (workload_fraction ev)))),
      (''plan'', J (JList (map plan_json plan))),
      (''note'', jstr ''ground truth frozen before execution; never derived from output'')]"

text \<open>One iteration of the burst of a \<open>rapid_transition\<close> entry: no decision is taken inside it.\<close>

definition burst_step :: "('k, 'g) run_env \<Rightarrow> string \<Rightarrow> nat \<Rightarrow> unit run" where
  "burst_step env m i rn =
     run_then (feed env (alternate i) m [] rn) (\<lambda>_ rn. advance_clock (seconds 1) (set_domain m (alternate i) rn))"

definition entry_decision ::
  "('k, 'g) run_env \<Rightarrow> run_options \<Rightarrow> string list \<Rightarrow> plan_entry \<Rightarrow> decision run" where
  "entry_decision env opt legit p rn =
     (let m = pe_device_id p;
          s = sy_settings (ap_services (rn_app rn))
      in if pe_class p = ''legitimate'' then
           run_then (feed env (alternate (pe_index p)) m [] rn) (\<lambda>_ rn.
             run_decide env opt m True None None (set_domain m (alternate (pe_index p)) rn))
         else if pe_kind p = ''stale_evidence'' then
           run_then (advance_clock (seconds (es_binding_freshness_max_s (st_evidence s) + 5)) rn) (\<lambda>_ rn.
             run_decide env opt m False None None rn)
         else if pe_kind p = ''identity_mismatch'' then
           (let victim = legit ! (pe_index p mod length legit)
            in run_then (lookup_key (rn_current_domain rn) victim, rn) (\<lambda>dm rn.
               run_then (lookup_key (rn_addresses rn) (victim, dm), rn) (\<lambda>claimed rn.
                 run_decide env opt m True None (Some claimed) rn)))
         else if pe_kind p = ''unauthorized_context'' then
           run_then (feed_wlan env m [(''akm'', ''OPEN'')] rn) (\<lambda>_ rn.
             run_decide env opt m True None None (set_domain m WLAN rn))
         else if pe_kind p = ''rapid_transition'' then
           run_then (for_each (burst_step env m)
               [0 ..< nat (ts_max_transitions_per_window (st_transition s) + 2)] rn) (\<lambda>_ rn.
             run_decide env opt m True None None rn)
         else run_decide env opt m True (Some (''not-'' @ m)) None rn)"

definition play_entry ::
  "('k, 'g) run_env \<Rightarrow> run_options \<Rightarrow> scenario_event \<Rightarrow> string list \<Rightarrow> plan_entry \<Rightarrow> unit run" where
  "play_entry env opt ev legit p rn =
     run_then (entry_decision env opt legit p rn) (\<lambda>dec rn.
       pause (sev_interval ev)
         (log_event [(''kind'', jstr ''mixed_workload_event''), (''device_id'', jstr (pe_device_id p)),
             (''at'', jstr (isoformat (rn_now rn))), (''class'', jstr (pe_class p)),
             (''generated_kind'', jstr (pe_kind p)), (''ground_truth'', jstr (label_value (pe_label p))),
             (''decision_id'', jstr (dc_decision_id dec)), (''action'', jstr (action_value (dc_action dec)))]
           (with_metrics (record_ground_truth (sev_step ev) (label_value (pe_label p))
               (action_value (dc_action dec)) (state_value (dc_trust_state dec))
               (dc_action dec \<in> set PERMITTING_ACTIONS)
               (Some (acceptable (pe_label p) (action_value (dc_action dec))))) rn)))"

definition play_mixed_workload ::
  "('k, 'g) run_env \<Rightarrow> run_options \<Rightarrow> scenario_event \<Rightarrow> unit run" where
  "play_mixed_workload env opt ev rn =
     (let ids = rn_device_ids rn;
          plan = workload_plan (rv_rng env) (ro_seed opt) ids ev
      in for_each (play_entry env opt ev (legitimate_cohort ids (workload_fraction ev))) plan
           (log_event (plan_row (ro_seed opt) ids ev plan (rn_now rn)) rn))"

section \<open>A run\<close>

definition play_event :: "('k, 'g) run_env \<Rightarrow> run_options \<Rightarrow> scenario_event \<Rightarrow> unit run" where
  "play_event env opt ev rn =
     run_then (py_nth (rn_device_ids rn)
         (min (int (sev_device_index ev)) (int (length (rn_device_ids rn)) - 1)), rn) (\<lambda>d rn.
       (case sev_kind ev of
          ADVANCE_TIME \<Rightarrow> play_advance ev rn
        | NR_SESSION \<Rightarrow> feed_nr env d [] rn
        | WLAN_SESSION \<Rightarrow> feed_wlan env d [] rn
        | STALE_EVIDENCE \<Rightarrow> play_stale d ev rn
        | IDENTITY_MISMATCH \<Rightarrow> play_identity_mismatch env opt d ev rn
        | UNAUTHORIZED_CONTEXT \<Rightarrow> play_unauthorized_context env opt d ev rn
        | SESSION_MISMATCH \<Rightarrow> play_session_mismatch env opt d ev rn
        | RAPID_TRANSITIONS \<Rightarrow> play_rapid_transitions env opt d ev rn
        | CONCURRENT_TRANSITION \<Rightarrow> play_concurrent_transition env opt ev rn
        | DEVICE_SWEEP \<Rightarrow> play_device_sweep env opt ev rn
        | MIXED_WORKLOAD \<Rightarrow> play_mixed_workload env opt ev rn
        | COLLECTOR_RECOVERY \<Rightarrow> play_availability True ''collector_recovery'' ev rn
        | COLLECTOR_OUTAGE \<Rightarrow> play_availability False ''collector_outage'' ev rn
        | TRANSITION \<Rightarrow> play_transition env opt d ev rn
        | MQTT_CONNECT \<Rightarrow> play_decision env opt d ev rn
        | EXPECT_DECISION \<Rightarrow> play_decision env opt d ev rn
        | MQTT_PUBLISH \<Rightarrow> play_operation d ev rn
        | MQTT_SUBSCRIBE \<Rightarrow> play_operation d ev rn
        | MQTT_DISCONNECT \<Rightarrow> play_disconnect d rn))"

definition play_events :: "('k, 'g) run_env \<Rightarrow> run_options \<Rightarrow> unit run" where
  "play_events env opt = for_each (play_event env opt) (scn_event_sequence (ro_scenario opt))"

text \<open>\<open>research_device_id\<close> with the scenario's prefix\<close>

definition research_device_id :: "nat \<Rightarrow> string \<Rightarrow> string" where
  "research_device_id index pre = pre @ ''-'' @ pad_left 4 (show_nat index)"

definition scenario_device_id :: "scenario \<Rightarrow> nat \<Rightarrow> string" where
  "scenario_device_id s index = research_device_id index (''dev-'' @ py_lower (scn_scenario_id s))"

text \<open>\<open>prepare\<close>: the loop body for one device, in the order of the code.\<close>

definition enrol :: "('k, 'g) run_env \<Rightarrow> run_options \<Rightarrow> string \<Rightarrow> nat \<Rightarrow> unit run" where
  "enrol env opt d i rn =
     (if \<not> sup_register_devices (scn_setup (ro_scenario opt)) then (Inr (), rn)
      else (case register (rv_crypto env) (rn_now rn) (app_registry (rn_app rn)) d
                    (kp_public_key_pem (rv_keypair env i))
                    [(''scenario'', scn_scenario_id (ro_scenario opt)), (''index'', show_nat i)] [] ACTIVE of
              Inl e \<Rightarrow> (Inl e, rn)
            | Inr (identity, reg) \<Rightarrow> (Inr (), rn\<lparr>rn_app := update_registry (rn_app rn) reg\<rparr>)))"

definition place :: "('k, 'g) run_env \<Rightarrow> string \<Rightarrow> nat \<Rightarrow> access_domain \<Rightarrow> unit run" where
  "place env d i dm rn =
     run_then (acs_address (rv_source env) i dm, rn) (\<lambda>a rn.
       (Inr (), rn\<lparr>rn_addresses := dset (d, dm) a (rn_addresses rn)\<rparr>))"

definition prepare_device :: "('k, 'g) run_env \<Rightarrow> run_options \<Rightarrow> nat \<Rightarrow> unit run" where
  "prepare_device env opt i rn =
     (let d = scenario_device_id (ro_scenario opt) i
      in run_then (enrol env opt d i
             (rn\<lparr>rn_device_ids := rn_device_ids rn @ [d], rn_keys := dset d (rv_keypair env i) (rn_keys rn)\<rparr>)) (\<lambda>_ rn.
         run_then (place env d i NR rn) (\<lambda>_ rn.
         run_then (place env d i WLAN rn) (\<lambda>_ rn.
           (Inr (), set_domain d (sup_initial_domain (scn_setup (ro_scenario opt))) rn)))))"

definition new_runner :: "('k, 'g) run_env \<Rightarrow> run_options \<Rightarrow> app_state \<Rightarrow> runner" where
  "new_runner env opt st =
     \<lparr>rn_app = st, rn_clock = run_clock opt, rn_keys = [], rn_device_ids = [], rn_addresses = [],
      rn_current_domain = [], rn_last_state = [],
      rn_metrics = new_metrics (ro_run_id opt) (scn_scenario_id (ro_scenario opt)) (ro_strategy_name opt)
         (ro_seed opt) (source_tier (rv_source env)),
      rn_events = [], rn_decisions = [], rn_drawn = 0\<rparr>"

definition prepare_devices :: "('k, 'g) run_env \<Rightarrow> run_options \<Rightarrow> unit run" where
  "prepare_devices env opt = for_each (prepare_device env opt) [0 ..< scn_device_count (ro_scenario opt)]"

text \<open>The protected part of \<open>run\<close>.\<close>

definition prepare_and_play :: "('k, 'g) run_env \<Rightarrow> run_options \<Rightarrow> unit run" where
  "prepare_and_play env opt rn =
     run_then (prepare_devices env opt rn) (\<lambda>_ rn. play_events env opt rn)"

record run_metadata =
  rmd_run_id :: string
  rmd_scenario_id :: string
  rmd_strategy :: string
  rmd_seed :: int
  rmd_scenario_seed :: nat
  rmd_device_count :: nat
  rmd_declared_device_counts :: "int list"
  rmd_transition_rates_per_s :: "rat list"
  rmd_measurement_tier :: string
  rmd_declared_measurement_tier :: string
  rmd_result_class :: string
  rmd_access_source :: string
  rmd_access_source_provenance :: "(string, string) dict"
  rmd_repetition :: nat
  rmd_disclaimer :: string
  rmd_source_modes :: "string list"
  rmd_config_hash :: string
  rmd_clock_start :: string

text \<open>\<open>sorted({str(e.get("source_mode")) for e in events if e.get("source_mode")})\<close>\<close>

definition row_source_mode :: "row \<Rightarrow> string option" where
  "row_source_mode r = (case dget r ''source_mode'' of Some (J (JStr s)) \<Rightarrow> nonempty s | _ \<Rightarrow> None)"

definition source_modes_of :: "row list \<Rightarrow> string list" where
  "source_modes_of rows = sort (remdups (List.map_filter row_source_mode rows))"

definition metadata :: "('k, 'g) run_env \<Rightarrow> run_options \<Rightarrow> runner \<Rightarrow> run_metadata" where
  "metadata env opt rn =
     (let s = ro_scenario opt; src = rv_source env in
      \<lparr>rmd_run_id = ro_run_id opt, rmd_scenario_id = scn_scenario_id s, rmd_strategy = ro_strategy_name opt,
       rmd_seed = ro_seed opt, rmd_scenario_seed = scn_seed s, rmd_device_count = scn_device_count s,
       rmd_declared_device_counts = scn_device_counts s,
       rmd_transition_rates_per_s = scn_transition_rates_per_s s,
       rmd_measurement_tier = tier_value (source_tier src),
       rmd_declared_measurement_tier = tier_value (scn_measurement_tier s),
       rmd_result_class = ro_result_class opt, rmd_access_source = acs_name src,
       rmd_access_source_provenance = acs_provenance src, rmd_repetition = ro_repetition opt,
       rmd_disclaimer = disclaimer src (ro_result_class opt),
       rmd_source_modes = source_modes_of (rn_events rn),
       rmd_config_hash = st_config_hash (sy_settings (ap_services (rn_app rn))),
       rmd_clock_start = isoformat (rn_now rn)\<rparr>)"

record run_result =
  rr_run_id :: string
  rr_scenario_id :: string
  rr_strategy :: string
  rr_seed :: int
  rr_measurement_tier :: measurement_tier
  rr_events :: "row list"
  rr_decisions :: "row list"
  rr_metrics :: run_summary
  rr_metadata :: run_metadata
  rr_errors :: "error list"

definition rr_ok :: "run_result \<Rightarrow> bool" where
  "rr_ok r \<longleftrightarrow> rr_errors r = []"

text \<open>
  \<open>run\<close>: any exception of the protected part is recorded; the metadata needs the state, so when
  building the core raises, the \<open>assert\<close> in \<open>_metadata\<close> is what leaves \<open>run\<close>.
\<close>

definition finish :: "('k, 'g) run_env \<Rightarrow> run_options \<Rightarrow> unit result \<times> runner \<Rightarrow> run_result" where
  "finish env opt x =
     \<lparr>rr_run_id = ro_run_id opt, rr_scenario_id = scn_scenario_id (ro_scenario opt),
      rr_strategy = ro_strategy_name opt, rr_seed = ro_seed opt,
      rr_measurement_tier = source_tier (rv_source env), rr_events = rn_events (snd x),
      rr_decisions = rn_decisions (snd x), rr_metrics = summary (rn_metrics (snd x)),
      rr_metadata = metadata env opt (snd x),
      rr_errors = (case fst x of Inl e \<Rightarrow> [e] | Inr _ \<Rightarrow> [])\<rparr>"

definition run_scenario :: "('k, 'g) run_env \<Rightarrow> run_options \<Rightarrow> run_result result" where
  "run_scenario env opt =
     (case build_app_state (rv_settings env) (rv_nr_salt env) (rv_wlan_salt env) of
        Inl e \<Rightarrow> Inl PyAssertionError
      | Inr st \<Rightarrow> Inr (finish env opt (prepare_and_play env opt (new_runner env opt st))))"

section \<open>Writing a run\<close>

text \<open>The output tree: files by path; JSON Lines are rows, the other files hold one value.\<close>

datatype file_content = Lines "row list" | Summary run_summary | Metadata run_metadata "error list" bool

type_synonym tree = "(string, file_content) dict"

definition raw_file :: "string \<Rightarrow> string \<Rightarrow> string" where
  "raw_file run_id name = ''raw/'' @ run_id @ ''/'' @ name"

definition stamped :: "run_result \<Rightarrow> row \<Rightarrow> row" where
  "stamped r rw = mk_row ([(''run_id'', jstr (rr_run_id r)), (''scenario_id'', jstr (rr_scenario_id r)),
     (''strategy'', jstr (rr_strategy r)), (''seed'', J (JInt (rr_seed r)))] @ rw)"

text \<open>Opened for appending.\<close>

definition append_lines :: "string \<Rightarrow> row list \<Rightarrow> tree \<Rightarrow> tree" where
  "append_lines path rows t =
     dset path (Lines ((case dget t path of Some (Lines old) \<Rightarrow> old | _ \<Rightarrow> []) @ rows)) t"

definition write_run :: "run_result \<Rightarrow> tree \<Rightarrow> tree result" where
  "write_run r t =
     (if dget t (raw_file (rr_run_id r) ''events.jsonl'') \<noteq> None then
        Inl (PyRuntimeError (''run identifier collision: raw/'' @ rr_run_id r @ '' already holds a run's output''))
      else Inr (dset (''metadata/'' @ rr_run_id r @ ''.json'') (Metadata (rr_metadata r) (rr_errors r) (rr_ok r))
          (dset (raw_file (rr_run_id r) ''metrics.json'') (Summary (rr_metrics r))
            (append_lines (raw_file (rr_run_id r) ''decisions.jsonl'') (map (stamped r) (rr_decisions r))
              (append_lines (raw_file (rr_run_id r) ''events.jsonl'') (map (stamped r) (rr_events r)) t)))))"

end
