(* ===== verification/Scenario_Runs.thy ===== *)
theory Scenario_Runs
  imports Scenario_Runner Service_Runs
begin

text \<open>
  What every run of the experiment controller keeps. The handlers are sequences of a few primitive
  steps, collected in the inductive relation \<open>run_step\<close>; each invariant is shown once per primitive step
  and holds along every run. Shown: the core stays well-formed and its enforcement point holds only
  decisions of the policy matrix; the counters, samples and rows of decisions agree; the scenario clock
  never goes back; and the rows of access events carry the provenance of the source that made them.
\<close>

section \<open>Primitive steps\<close>

lemma run_then_keeps:
  "P (snd x) \<Longrightarrow> (\<And>a s. P s \<Longrightarrow> P (snd (f a s))) \<Longrightarrow> P (snd (run_then x f))"
  by (cases x; cases "fst x") auto

text \<open>The counters that only the collector's own operations move; M3 and M12 are sampled by decisions only.\<close>

definition derived_counters :: "string list" where
  "derived_counters = [''M5'', ''M6'', ''M7'', ''M15'', ''M16'', ''M17'']"

inductive run_step :: "('k, 'g) run_env \<Rightarrow> run_options \<Rightarrow> runner \<Rightarrow> runner \<Rightarrow> bool" for env opt where
  feed_nr: "run_step env opt rn (snd (feed_nr env d ov rn))"
| feed_wlan: "run_step env opt rn (snd (feed_wlan env d ov rn))"
| decide: "run_step env opt rn (snd (run_decide env opt d wp ses peer rn))"
| advance: "run_step env opt rn (snd (advance_clock us rn))"
| move: "run_step env opt rn (set_domain d dm rn)"
| count: "run_step env opt rn (snd (count_transitions d rn))"
| check: "run_step env opt rn (rn\<lparr>rn_app := (rn_app rn)\<lparr>ap_pep := snd (check t (ap_pep (rn_app rn)) rq)\<rparr>\<rparr>)"
| revoke: "run_step env opt rn (rn\<lparr>rn_app := (rn_app rn)\<lparr>ap_pep := revoke (ap_pep (rn_app rn)) d\<rparr>\<rparr>)"
| switch_nr: "run_step env opt rn
    (rn\<lparr>rn_app := (rn_app rn)\<lparr>ap_nr_collector := set_available (ap_nr_collector (rn_app rn)) v\<rparr>\<rparr>)"
| switch_wlan: "run_step env opt rn
    (rn\<lparr>rn_app := (rn_app rn)\<lparr>ap_wlan_collector := set_available (ap_wlan_collector (rn_app rn)) v\<rparr>\<rparr>)"
| log: "''source_mode'' \<notin> fst ` set kvs \<Longrightarrow> run_step env opt rn (log_event kvs rn)"
| sample: "m \<noteq> ''M3'' \<Longrightarrow> m \<noteq> ''M12'' \<Longrightarrow> run_step env opt rn (with_metrics (observe_sample m v s) rn)"
| count_up: "m \<notin> set derived_counters \<Longrightarrow> run_step env opt rn (with_metrics (increment m 1) rn)"
| score: "run_step env opt rn (with_metrics (record_ground_truth n l a st p sat) rn)"
| draw: "run_step env opt rn (rn\<lparr>rn_drawn := Suc (rn_drawn rn)\<rparr>)"
| announce: "run_step env opt rn
    (rn\<lparr>rn_device_ids := rn_device_ids rn @ [d], rn_keys := dset d kp (rn_keys rn)\<rparr>)"
| enrol: "run_step env opt rn (snd (enrol env opt d i rn))"
| place: "run_step env opt rn (snd (place env d i dm rn))"

abbreviation run_steps :: "('k, 'g) run_env \<Rightarrow> run_options \<Rightarrow> runner \<Rightarrow> runner \<Rightarrow> bool" where
  "run_steps env opt \<equiv> (run_step env opt)\<^sup>*\<^sup>*"

text \<open>One more primitive step at the end of a sequence.\<close>

lemma then_step: "run_steps env opt r0 rn \<Longrightarrow> run_step env opt rn rn' \<Longrightarrow> run_steps env opt r0 rn'"
  by (rule rtranclp.rtrancl_into_rtrancl)

named_theorems steps \<open>operations that are sequences of primitive steps\<close>

lemmas then_each [steps] = run_step.intros [THEN then_step [rotated]]

lemma pure_step [steps]: "run_steps env opt r0 rn \<Longrightarrow> run_steps env opt r0 (snd (r, rn))"
  by simp

lemma bind_steps [steps]:
  "run_steps env opt r0 (snd x) \<Longrightarrow> (\<And>a s. run_steps env opt r0 s \<Longrightarrow> run_steps env opt r0 (snd (f a s)))
    \<Longrightarrow> run_steps env opt r0 (snd (run_then x f))"
  by (rule run_then_keeps)

lemma with_metrics_twice: "with_metrics (\<lambda>mc. f (g mc)) rn = with_metrics f (with_metrics g rn)"
  by (simp add: with_metrics_def)

lemma feed_steps [steps]: "run_steps env opt r0 rn \<Longrightarrow> run_steps env opt r0 (snd (feed env dm d ov rn))"
  by (simp add: feed_def steps)

lemma score_steps [steps]: "run_steps env opt r0 rn \<Longrightarrow> run_steps env opt r0 (Scenario_Runner.score ev dec rn)"
  by (simp add: Scenario_Runner.score_def steps)

lemma pause_steps [steps]: "run_steps env opt r0 rn \<Longrightarrow> run_steps env opt r0 (snd (pause us rn))"
  by (simp add: pause_def steps)

lemma for_each_steps [steps]:
  "run_steps env opt r0 rn \<Longrightarrow> (\<And>x s. run_steps env opt r0 s \<Longrightarrow> run_steps env opt r0 (snd (body x s)))
    \<Longrightarrow> run_steps env opt r0 (snd (for_each body xs rn))"
  by (induction xs arbitrary: rn) (simp_all add: bind_steps)

section \<open>The handlers are sequences of steps\<close>

lemma decide_and_log_steps [steps]:
  assumes "run_steps env opt r0 rn" "\<And>s dec. ''source_mode'' \<notin> fst ` set (entry s dec)"
  shows "run_steps env opt r0 (snd (decide_and_log env opt d ses peer entry rn))"
  using assms by (auto simp: decide_and_log_def intro!: steps)

lemma play_advance_steps: "run_steps env opt r0 rn \<Longrightarrow> run_steps env opt r0 (snd (play_advance ev rn))"
  by (auto simp: play_advance_def intro!: steps)

lemma play_stale_steps: "run_steps env opt r0 rn \<Longrightarrow> run_steps env opt r0 (snd (play_stale d ev rn))"
  by (auto simp: play_stale_def intro!: steps)

lemma play_identity_mismatch_steps:
  "run_steps env opt r0 rn \<Longrightarrow> run_steps env opt r0 (snd (play_identity_mismatch env opt d ev rn))"
  by (auto simp: play_identity_mismatch_def split: option.split intro!: steps)

lemma play_unauthorized_context_steps:
  "run_steps env opt r0 rn \<Longrightarrow> run_steps env opt r0 (snd (play_unauthorized_context env opt d ev rn))"
  by (auto simp: play_unauthorized_context_def Let_def intro!: steps)

lemma play_session_mismatch_steps:
  "run_steps env opt r0 rn \<Longrightarrow> run_steps env opt r0 (snd (play_session_mismatch env opt d ev rn))"
  by (auto simp: play_session_mismatch_def intro!: steps)

lemma rapid_step_steps: "run_steps env opt r0 rn \<Longrightarrow> run_steps env opt r0 (snd (rapid_step env opt d ev i rn))"
  unfolding rapid_step_def prod.case_eq_if by (intro steps) (auto intro!: steps)

lemma rapid_loop_steps:
  "run_steps env opt r0 rn \<Longrightarrow> run_steps env opt r0 (snd (rapid_loop env opt d ev is od rn))"
  by (induction "is" arbitrary: rn od) (auto intro!: bind_steps rapid_step_steps)

lemma play_rapid_transitions_steps:
  "run_steps env opt r0 rn \<Longrightarrow> run_steps env opt r0 (snd (play_rapid_transitions env opt d ev rn))"
  by (auto simp: play_rapid_transitions_def split: option.split intro!: bind_steps rapid_loop_steps score_steps)

lemma concurrent_step_steps:
  "run_steps env opt r0 rn \<Longrightarrow> run_steps env opt r0 (snd (concurrent_step env opt ev i rn))"
  by (auto simp: concurrent_step_def Let_def intro!: steps)

lemma sweep_step_steps:
  "run_steps env opt r0 rn \<Longrightarrow> run_steps env opt r0 (snd (sweep_step env opt ev i rn))"
  by (auto simp: sweep_step_def intro!: steps)

lemma play_concurrent_transition_steps:
  "run_steps env opt r0 rn \<Longrightarrow> run_steps env opt r0 (snd (play_concurrent_transition env opt ev rn))"
  by (simp add: play_concurrent_transition_def for_each_steps concurrent_step_steps)

lemma play_device_sweep_steps:
  "run_steps env opt r0 rn \<Longrightarrow> run_steps env opt r0 (snd (play_device_sweep env opt ev rn))"
  by (auto simp: play_device_sweep_def intro!: bind_steps for_each_steps sweep_step_steps then_each(12))

lemma play_availability_steps:
  "run_steps env opt r0 rn \<Longrightarrow> run_steps env opt r0 (snd (play_availability v kind ev rn))"
  by (auto simp: play_availability_def Let_def intro!: steps)

lemma transition_counter: "(if b then ''M13'' else ''M14'') \<notin> set derived_counters"
  by (simp add: derived_counters_def)

lemma play_transition_steps:
  "run_steps env opt r0 rn \<Longrightarrow> run_steps env opt r0 (snd (play_transition env opt d ev rn))"
  by (auto simp: play_transition_def Let_def transition_counter intro!: steps)

lemma play_decision_steps:
  "run_steps env opt r0 rn \<Longrightarrow> run_steps env opt r0 (snd (play_decision env opt d ev rn))"
  by (auto simp: play_decision_def with_metrics_twice derived_counters_def intro!: steps)

lemma play_operation_steps:
  "run_steps env opt r0 rn \<Longrightarrow> run_steps env opt r0 (snd (play_operation d ev rn))"
  by (auto simp: play_operation_def prod.case_eq_if Let_def with_metrics_twice derived_counters_def
      intro!: steps)

lemma play_disconnect_steps:
  "run_steps env opt r0 rn \<Longrightarrow> run_steps env opt r0 (snd (play_disconnect d rn))"
  by (auto simp: play_disconnect_def intro!: steps)

lemma burst_step_steps:
  "run_steps env opt r0 rn \<Longrightarrow> run_steps env opt r0 (snd (burst_step env m i rn))"
  by (auto simp: burst_step_def intro!: steps)

lemma entry_decision_steps:
  "run_steps env opt r0 rn \<Longrightarrow> run_steps env opt r0 (snd (entry_decision env opt legit p rn))"
  by (auto simp: entry_decision_def Let_def intro!: steps burst_step_steps)

lemma play_entry_steps:
  "run_steps env opt r0 rn \<Longrightarrow> run_steps env opt r0 (snd (play_entry env opt ev legit p rn))"
  by (auto simp: play_entry_def intro!: steps entry_decision_steps)

lemma play_mixed_workload_steps:
  "run_steps env opt r0 rn \<Longrightarrow> run_steps env opt r0 (snd (play_mixed_workload env opt ev rn))"
  by (auto simp: play_mixed_workload_def Let_def plan_row_def intro!: for_each_steps play_entry_steps then_each(11))

lemmas handler_steps = play_advance_steps play_stale_steps play_identity_mismatch_steps
  play_unauthorized_context_steps play_session_mismatch_steps play_rapid_transitions_steps
  play_concurrent_transition_steps play_device_sweep_steps play_availability_steps
  play_transition_steps play_decision_steps play_operation_steps play_disconnect_steps
  play_mixed_workload_steps then_each(1,2)

lemma play_event_steps:
  "run_steps env opt r0 rn \<Longrightarrow> run_steps env opt r0 (snd (play_event env opt ev rn))"
  unfolding play_event_def
  by (rule bind_steps) (simp_all add: handler_steps split: event_kind.split)

lemma play_events_steps:
  "run_steps env opt r0 rn \<Longrightarrow> run_steps env opt r0 (snd (play_events env opt rn))"
  by (simp add: play_events_def for_each_steps play_event_steps)

lemma prepare_device_steps:
  "run_steps env opt r0 rn \<Longrightarrow> run_steps env opt r0 (snd (prepare_device env opt i rn))"
  by (auto simp: prepare_device_def Let_def intro!: steps)

lemma prepare_and_play_steps:
  "run_steps env opt rn (snd (prepare_and_play env opt rn))"
  unfolding prepare_and_play_def prepare_devices_def
  by (rule bind_steps) (simp_all add: for_each_steps prepare_device_steps play_events_steps)

section \<open>The core\<close>

definition core_ok :: "settings \<Rightarrow> policy_matrix \<Rightarrow> runner \<Rightarrow> bool" where
  "core_ok s m rn \<longleftrightarrow> app_ok (rn_app rn) \<and> holds_matrix s m (rn_app rn)"

text \<open>What the steps do to the core: bindings, nonces, transitions and registry change in place.\<close>

lemma core_ok_logged:
  "core_ok s m (log_event kvs rn) \<longleftrightarrow> core_ok s m rn"
  "core_ok s m (with_metrics f rn) \<longleftrightarrow> core_ok s m rn"
  "core_ok s m (record_outcome env opt d dm so rn) \<longleftrightarrow> core_ok s m rn"
  by (simp_all add: core_ok_def log_event_def with_metrics_def record_outcome_def Let_def)

lemma core_ok_services:
  assumes "core_ok s m rn" "services_ok sy" "sy_settings sy = sy_settings (ap_services (rn_app rn))"
    "sy_matrix sy = sy_matrix (ap_services (rn_app rn))"
  shows "core_ok s m (rn\<lparr>rn_app := (rn_app rn)\<lparr>ap_services := sy\<rparr>\<rparr>)"
  using assms by (simp add: core_ok_def app_ok_def holds_matrix_def)

lemma core_ok_pep:
  assumes "core_ok s m rn" "pep_ok p" "set (mp_decisions p) \<subseteq> set (mp_decisions (ap_pep (rn_app rn)))"
  shows "core_ok s m (rn\<lparr>rn_app := (rn_app rn)\<lparr>ap_pep := p\<rparr>\<rparr>)"
  using assms by (simp add: core_ok_def app_ok_def holds_fewer)

lemma core_ok_parts:
  assumes "core_ok s m rn"
  shows "services_ok (ap_services (rn_app rn))" "pep_ok (ap_pep (rn_app rn))"
  using assms by (simp_all add: core_ok_def app_ok_def)

lemma store_bindings_core:
  "core_ok s m rn \<Longrightarrow> binding_store_ok bs \<Longrightarrow> core_ok s m (store_bindings bs rn)"
  using core_ok_services [of s m rn "(ap_services (rn_app rn))\<lparr>sy_bindings := bs\<rparr>"]
  by (simp add: store_bindings_def core_ok_def app_ok_def services_ok_def holds_matrix_def)

lemma feed_core:
  assumes "core_ok s m rn"
  shows "core_ok s m (snd (feed_nr env d ov rn))" "core_ok s m (snd (feed_wlan env d ov rn))"
proof -
  have b: "binding_store_ok (sy_bindings (ap_services (rn_app rn)))"
    using core_ok_parts(1) [OF assms] by (simp add: services_ok_def)
  have n: "core_ok s m (store_bindings bs rn)"
    if "nr_ingest cr co bid (sy_bindings (ap_services (rn_app rn))) ev = Inr (x, bs)" for cr :: "'a crypto" and co bid ev x bs
    by (rule store_bindings_core [OF assms nr_ingest_ok [OF b that]])
  have w: "core_ok s m (store_bindings bs rn)"
    if "wlan_ingest cr co bid (sy_bindings (ap_services (rn_app rn))) ev = Inr (x, bs)" for cr :: "'a crypto" and co bid ev x bs
    by (rule store_bindings_core [OF assms wlan_ingest_ok [OF b that]])
  show "core_ok s m (snd (feed_nr env d ov rn))"
    using assms n by (fastforce simp: feed_nr_def run_then_def core_ok_logged split: sum.split prod.split)
  show "core_ok s m (snd (feed_wlan env d ov rn))"
    using assms w by (fastforce simp: feed_wlan_def run_then_def core_ok_logged split: sum.split prod.split)
qed

lemma make_proof_core:
  assumes "core_ok s m rn"
  shows "core_ok s m (snd (make_proof env d wp rn))"
proof -
  obtain n x ni where i: "issue (rn_now rn) (rv_nonce env (rn_drawn rn)) (sy_nonces (ap_services (rn_app rn))) d = (n, x, ni)"
    by (metis prod_cases3)
  have "issuer_ok (sy_nonces (ap_services (rn_app rn)))"
    using core_ok_parts(1) [OF assms] by (simp add: services_ok_def)
  then have "issuer_ok ni"
    using issue_ok [of "sy_nonces (ap_services (rn_app rn))" "rn_now rn" "rv_nonce env (rn_drawn rn)" d] i by simp
  then have "core_ok s m (rn\<lparr>rn_app := (rn_app rn)\<lparr>ap_services := (ap_services (rn_app rn))\<lparr>sy_nonces := ni\<rparr>\<rparr>\<rparr>)"
    using core_ok_parts(1) [OF assms] by (intro core_ok_services [OF assms]) (simp_all add: services_ok_def)
  with assms i show ?thesis
    by (auto simp: make_proof_def intro!: run_then_keeps [where P = "core_ok s m"])
qed

lemma take_decision_core:
  "core_ok s m rn \<Longrightarrow> core_ok s m (snd (take_decision env opt rq rn))"
  by (cases "app_strategy (rn_app rn) (Some (ro_strategy_name opt))")
    (simp_all add: take_decision_def core_ok_def prod.case_eq_if decide_and_enforce_ok decide_and_enforce_holds)

lemma run_decide_core:
  "core_ok s m rn \<Longrightarrow> core_ok s m (snd (run_decide env opt d wp ses peer rn))"
  unfolding run_decide_def
  by (auto intro!: run_then_keeps [where P = "core_ok s m"] make_proof_core take_decision_core
      simp: core_ok_logged)

lemma core_step:
  assumes "run_step env opt rn rn'" "core_ok s m rn"
  shows "core_ok s m rn'"
  using assms(1)
proof (cases rule: run_step.cases)
  case (feed_nr d ov)
  then show ?thesis by (simp add: feed_core assms(2))
next
  case (feed_wlan d ov)
  then show ?thesis by (simp add: feed_core assms(2))
next
  case (decide d wp ses peer)
  then show ?thesis by (simp add: run_decide_core assms(2))
next
  case (advance us)
  then show ?thesis using assms(2) by (simp add: advance_clock_def core_ok_def split: sum.split)
next
  case (count d)
  let ?tc = "snd (transitions_in_window (sy_transitions (ap_services (rn_app rn))) d (rn_now rn))"
  have "services_ok ((ap_services (rn_app rn))\<lparr>sy_transitions := ?tc\<rparr>)"
    using core_ok_parts(1) [OF assms(2)] by (simp add: services_ok_def transitions_in_window_ok)
  from core_ok_services [OF assms(2) this] count show ?thesis
    by (simp add: count_transitions_def prod.case_eq_if)
next
  case (check t rq)
  with core_ok_pep [OF assms(2) check_ok [OF core_ok_parts(2) [OF assms(2)]] check_decisions_subset]
  show ?thesis by simp
next
  case (revoke d)
  have "core_ok s m (rn\<lparr>rn_app := (rn_app rn)\<lparr>ap_pep := Enforcement.revoke (ap_pep (rn_app rn)) d\<rparr>\<rparr>)"
    by (intro core_ok_pep [OF assms(2)] revoke_ok core_ok_parts(2) [OF assms(2)])
      (simp add: revoke_def set_dpop_subset)
  with revoke show ?thesis by simp
next
  case (enrol d i)
  show ?thesis
  proof (cases "register (rv_crypto env) (rn_now rn) (app_registry (rn_app rn)) d
      (kp_public_key_pem (rv_keypair env i))
      [(''scenario'', scn_scenario_id (ro_scenario opt)), (''index'', show_nat i)] [] ACTIVE")
    case (Inl e)
    with enrol assms(2) show ?thesis by (simp add: enrol_def)
  next
    case (Inr r)
    obtain x reg where r: "r = (x, reg)" by fastforce
    have "registry_ok (app_registry (rn_app rn))"
      using core_ok_parts(1) [OF assms(2)] by (simp add: services_ok_def app_registry_def)
    with Inr r have "registry_ok reg" using register_ok by blast
    then have "core_ok s m (rn\<lparr>rn_app := update_registry (rn_app rn) reg\<rparr>)"
      using core_ok_services [OF assms(2), of "(ap_services (rn_app rn))\<lparr>sy_registry := reg\<rparr>"]
        core_ok_parts(1) [OF assms(2)]
      by (simp add: services_ok_def update_registry_def)
    with Inr r enrol assms(2) show ?thesis by (simp add: enrol_def)
  qed
next
  case (place d i dm)
  with assms(2) show ?thesis
    by (cases "acs_address (rv_source env) i dm") (simp_all add: place_def core_ok_def)
qed (use assms(2) in \<open>simp_all add: core_ok_def set_domain_def log_event_def with_metrics_def app_ok_def
      holds_matrix_def\<close>)

section \<open>What a decision does\<close>

lemma make_proof_app:
  "\<exists>ni. snd (make_proof env d wp rn) =
     rn\<lparr>rn_app := (rn_app rn)\<lparr>ap_services := (ap_services (rn_app rn))\<lparr>sy_nonces := ni\<rparr>\<rparr>\<rparr>"
proof (cases wp)
  case True
  obtain n x ni where "issue (rn_now rn) (rv_nonce env (rn_drawn rn)) (sy_nonces (ap_services (rn_app rn))) d = (n, x, ni)"
    by (metis prod_cases3)
  with True show ?thesis
    by (cases "lookup_key (rn_keys rn) d") (auto simp: make_proof_def run_then_def split: sum.split)
next
  case False
  then show ?thesis by (auto simp: make_proof_def intro!: exI [of _ "sy_nonces (ap_services (rn_app rn))"])
qed

text \<open>A decision served: enforced, audited and recorded, in that order.\<close>

definition served ::
  "('k, 'g) run_env \<Rightarrow> run_options \<Rightarrow> string \<Rightarrow> runner \<Rightarrow> strategy_outcome \<Rightarrow> app_state \<Rightarrow> bool" where
  "served env opt d rn so st \<longleftrightarrow>
     ap_pep st = apply_decision (ap_pep (rn_app rn)) (so_decision so)
     \<and> ap_audit st = snd (write_decision (ap_audit (rn_app rn)) (so_decision so) (so_trust_evaluation so)
         (Some (rn_now rn)) (run_extra opt))
     \<and> (evidence_valid (st_evidence (sy_settings (ap_services (rn_app rn)))) \<longrightarrow> dc_device_id (so_decision so) = d)"

lemma take_decision_cases:
  assumes "take_decision env opt rq rn = (r, rn')"
  shows "\<exists>st. rn' = rn\<lparr>rn_app := st\<rparr> \<and>
    (case r of Inl e \<Rightarrow> ap_pep st = ap_pep (rn_app rn) \<and> ap_audit st = ap_audit (rn_app rn)
     | Inr so \<Rightarrow> served env opt (rq_device_id rq) rn so st)"
proof (cases "app_strategy (rn_app rn) (Some (ro_strategy_name opt))")
  case (Inl e)
  with assms show ?thesis by (auto simp: take_decision_def intro!: exI [of _ "rn_app rn"])
next
  case (Inr def)
  let ?dw = "frozen_draws (rn_now rn) (rv_draws env (rn_drawn rn))"
  obtain r' st' where rs: "run_strategy (rv_crypto env) def ?dw (rn_app rn) rq = (r', st')" by fastforce
  have f: "ap_pep st' = ap_pep (rn_app rn)" "ap_audit st' = ap_audit (rn_app rn)"
    using run_strategy_frame(1,2) [of "rv_crypto env" def ?dw "rn_app rn" rq] rs by simp_all
  have "dc_device_id (so_decision so) = rq_device_id rq"
    if "r' = Inr so" "evidence_valid (st_evidence (sy_settings (ap_services (rn_app rn))))" for so
    using that rs decide_device by (fastforce simp: run_strategy_eq Let_def)
  with Inr assms rs f show ?thesis
    by (cases r') (auto simp: take_decision_def decide_and_enforce_def enforce_outcome_def served_def)
qed

lemma run_decide_cases:
  obtains (refused) e st where "run_decide env opt d wp ses peer rn = (Inl e, rn\<lparr>rn_app := st\<rparr>)"
      "ap_pep st = ap_pep (rn_app rn)" "ap_audit st = ap_audit (rn_app rn)"
  | (served) dm so st where
      "run_decide env opt d wp ses peer rn = (Inr (so_decision so), record_outcome env opt d dm so (rn\<lparr>rn_app := st\<rparr>))"
      "served env opt d rn so st" "dget (rn_current_domain rn) d = Some dm"
proof -
  note out = that
  show ?thesis
  proof (cases "lookup_key (rn_current_domain rn) d")
    case (Inl e)
    then show ?thesis using out(1) [of e "rn_app rn"] by (simp add: run_decide_def)
  next
    case (Inr dm)
    then have dm: "dget (rn_current_domain rn) d = Some dm" by (auto simp: lookup_key_def split: option.splits)
    define a where "a = (case peer of Some (c # cs) \<Rightarrow> Inr (c # cs) | _ \<Rightarrow> lookup_key (rn_addresses rn) (d, dm))"
    show ?thesis
    proof (cases a)
      case (Inl e)
      with Inr show ?thesis using out(1) [of e "rn_app rn"] by (simp add: run_decide_def a_def)
    next
      case A: (Inr address)
      obtain mr rn1 where mp: "make_proof env d wp rn = (mr, rn1)" by fastforce
      obtain ni where rn1: "rn1 = rn\<lparr>rn_app := (rn_app rn)\<lparr>ap_services := (ap_services (rn_app rn))\<lparr>sy_nonces := ni\<rparr>\<rparr>\<rparr>"
        using make_proof_app [of env d wp rn] mp by auto
      show ?thesis
      proof (cases mr)
        case (Inl e)
        with Inr A mp rn1 show ?thesis using out(1) [of e "rn_app rn1"] by (simp add: run_decide_def a_def)
      next
        case P: (Inr pf)
        define rq where "rq = \<lparr>rq_device_id = d, rq_peer_address = address, rq_domain = dm,
          rq_session_identity = (case ses of Some s \<Rightarrow> Some s | None \<Rightarrow> Some d), rq_proof = pf,
          rq_resource = None, rq_at = Some (rn_now rn1)\<rparr>"
        obtain r rn2 where t: "take_decision env opt rq rn1 = (r, rn2)" by fastforce
        have rd: "rq_device_id rq = d"
          by (simp add: rq_def)
        obtain st where st: "rn2 = rn1\<lparr>rn_app := st\<rparr>"
            "case r of Inl e \<Rightarrow> ap_pep st = ap_pep (rn_app rn1) \<and> ap_audit st = ap_audit (rn_app rn1)
             | Inr so \<Rightarrow> served env opt d rn1 so st"
          using take_decision_cases [OF t, unfolded rd] by blast
        have e: "run_decide env opt d wp ses peer rn =
            run_then (r, rn2) (\<lambda>so rn. (Inr (so_decision so), record_outcome env opt d dm so rn))"
          using Inr A P mp t by (simp add: run_decide_def a_def rq_def)
        show ?thesis
        proof (cases r)
          case (Inl x)
          with e st rn1 show ?thesis using out(1) [of x st] by simp
        next
          case (Inr so)
          with e st rn1 dm show ?thesis using out(2) [of so dm st] by (simp add: served_def)
        qed
      qed
    qed
  qed
qed

end
