(* ===== verification/Run_Ledger.thy ===== *)
theory Run_Ledger
  imports Scenario_Runs
begin

text \<open>
  The books of a run agree. Every decision of the controller is one row of \<^verbatim>\<open>decisions.jsonl\<close>, one sample
  of the decision latency (the one in its row), one count of its action and one count of its state, and one
  state change when the device's last row before it names another state; the counts of scored
  steps are those of the labelled steps; scenario time only moves forward; and an event row that names
  a source mode names the mode of the tier its run was made on.

  A step other than a decision changes no row of decisions (\<open>step_frame\<close>), so each invariant is one
  lemma on \<open>record_outcome\<close> and one on the frame.
\<close>

section \<open>Rows\<close>

lemma dget_fold_dset: "dget (fold (\<lambda>(k, v). dset k v) kvs d) k = (case map_of (rev kvs) k of None \<Rightarrow> dget d k | Some v \<Rightarrow> Some v)"
  by (induction kvs arbitrary: d) (auto simp: map_add_def split: option.split)

text \<open>The entry of a key in a dictionary display is the last one written.\<close>

lemma dget_mk_row: "dget (mk_row kvs) k = map_of (rev kvs) k"
  by (simp add: mk_row_def dget_fold_dset split: option.split)

lemma dget_mk_row_absent: "k \<notin> fst ` set kvs \<Longrightarrow> dget (mk_row kvs) k = None"
  by (simp add: dget_mk_row map_of_eq_None_iff)

definition rows_with :: "string \<Rightarrow> string \<Rightarrow> row list \<Rightarrow> nat" where
  "rows_with k v rows = length (filter (\<lambda>r. dget r k = Some (jstr v)) rows)"

lemma rows_with_snoc [simp]:
  "rows_with k v (rows @ [r]) = rows_with k v rows + (if dget r k = Some (jstr v) then 1 else 0)"
  by (simp add: rows_with_def)

lemma rows_with_Nil [simp]: "rows_with k v [] = 0"
  by (simp add: rows_with_def)

lemma decision_row_fields:
  "dget (decision_row d dec p el ev dm src t now) ''action'' = Some (jstr (action_value (dc_action dec)))"
  "dget (decision_row d dec p el ev dm src t now) ''trust_state'' = Some (jstr (state_value (dc_trust_state dec)))"
  "dget (decision_row d dec p el ev dm src t now) ''device_id'' = Some (jstr d)"
  "dget (decision_row d dec p el ev dm src t now) ''decision_id'' = Some (jstr (dc_decision_id dec))"
  "dget (decision_row d dec p el ev dm src t now) ''at'' = Some (jstr (isoformat now))"
  "dget (decision_row d dec p el ev dm src t now) ''measurement_tier'' = Some (jstr (tier_value (source_tier src)))"
  "dget (decision_row d dec p el ev dm src t now) ''policy_rule_id'' = Some (jstr (dc_rule_id dec))"
  by (simp_all add: decision_row_def dget_mk_row)

text \<open>
  The latency a row tells; and, from the rows alone, how often a device was judged otherwise than the time
  before. The rows are taken newest first.
\<close>

definition row_latency :: "row \<Rightarrow> rat" where
  "row_latency r = (case dget r ''decision_latency_ms'' of Some (Num x) \<Rightarrow> x | _ \<Rightarrow> 0)"

lemma decision_row_latency [simp]: "row_latency (decision_row d dec p el ev dm src t now) = ms el"
  by (simp add: row_latency_def decision_row_def dget_mk_row)

text \<open>The evaluation times of the rows that tell one, in microseconds.\<close>

definition row_engine_us :: "row \<Rightarrow> rat option" where
  "row_engine_us r = (case dget r ''engine_duration_ns'' of Some (J (JInt n)) \<Rightarrow> Some (of_int n / 1000) | _ \<Rightarrow> None)"

lemma decision_row_engine [simp]:
  "row_engine_us (decision_row d dec p el ev dm src t now) =
     map_option (\<lambda>e. of_int (tv_engine_duration_ns e) / 1000) ev"
  by (cases ev) (simp_all add: row_engine_us_def decision_row_def dget_mk_row)

definition engine_times :: "row list \<Rightarrow> rat list" where
  "engine_times rows = List.map_filter row_engine_us rows"

lemma engine_times_snoc [simp]:
  "engine_times (rows @ [r]) = engine_times rows @ (case row_engine_us r of None \<Rightarrow> [] | Some x \<Rightarrow> [x])"
  by (induction rows) (auto simp: engine_times_def map_filter_simps split: option.split)

definition row_before :: "cell option \<Rightarrow> row list \<Rightarrow> row option" where
  "row_before dev earlier = List.find (\<lambda>e. dget e ''device_id'' = dev) earlier"

fun changes_back :: "row list \<Rightarrow> nat" where
  "changes_back [] = 0"
| "changes_back (r # earlier) =
     (case row_before (dget r ''device_id'') earlier of
        None \<Rightarrow> 0
      | Some e \<Rightarrow> if dget e ''trust_state'' = dget r ''trust_state'' then 0 else 1)
     + changes_back earlier"

definition state_changes :: "row list \<Rightarrow> nat" where
  "state_changes rows = changes_back (rev rows)"

section \<open>Only a decision writes a row of decisions\<close>

definition samples_of :: "string \<Rightarrow> metrics_collector \<Rightarrow> rat list option" where
  "samples_of m mc = dget (mc_samples mc) m"

lemma samples_of_observe [simp]:
  "samples_of m (observe_sample m' v s mc) =
     (if m = m' then Some ((case samples_of m mc of None \<Rightarrow> [] | Some xs \<Rightarrow> xs) @ [v]) else samples_of m mc)"
  by (simp add: samples_of_def append_at_def)

lemma samples_of_counters [simp]:
  "samples_of m (increment c amount mc) = samples_of m mc"
  "samples_of m (record_decision a s p mc) = samples_of m mc"
  "samples_of m (record_ground_truth n l a s b sat mc) = samples_of m mc"
  by (simp_all add: samples_of_def record_decision_def record_ground_truth_def Let_def split: option.split)

text \<open>The changes of the collector that are not decisions.\<close>

inductive books_kept :: "metrics_collector \<Rightarrow> metrics_collector \<Rightarrow> bool" where
  same: "books_kept mc mc"
| sampled: "m \<noteq> ''M3'' \<Longrightarrow> m \<noteq> ''M12'' \<Longrightarrow> books_kept mc (observe_sample m v s mc)"
| counted: "m \<notin> set derived_counters \<Longrightarrow> books_kept mc (increment m 1 mc)"
| scored: "books_kept mc (record_ground_truth n l a st p sat mc)"

lemma feed_frame:
  "rn_decisions (snd (feed_nr env d ov rn)) = rn_decisions rn"
  "books_kept (rn_metrics rn) (rn_metrics (snd (feed_nr env d ov rn)))"
  "rn_decisions (snd (feed_wlan env d ov rn)) = rn_decisions rn"
  "books_kept (rn_metrics rn) (rn_metrics (snd (feed_wlan env d ov rn)))"
  "rn_last_state (snd (feed_nr env d ov rn)) = rn_last_state rn"
  "rn_last_state (snd (feed_wlan env d ov rn)) = rn_last_state rn"
  by (auto simp: feed_nr_def feed_wlan_def run_then_def log_event_def with_metrics_def store_bindings_def
      intro: books_kept.intros split: sum.split prod.split)

lemma advance_frame:
  "rn_decisions (snd (advance_clock us rn)) = rn_decisions rn"
  "rn_metrics (snd (advance_clock us rn)) = rn_metrics rn"
  "rn_events (snd (advance_clock us rn)) = rn_events rn"
  "rn_last_state (snd (advance_clock us rn)) = rn_last_state rn"
  by (simp_all add: advance_clock_def split: sum.split)

text \<open>Enrolling and placing a device leave the books and the clock alone.\<close>

lemma prepare_frame:
  "rn_decisions (snd (enrol env opt d i rn)) = rn_decisions rn"
  "rn_metrics (snd (enrol env opt d i rn)) = rn_metrics rn"
  "rn_clock (snd (enrol env opt d i rn)) = rn_clock rn"
  "rn_events (snd (enrol env opt d i rn)) = rn_events rn"
  "rn_decisions (snd (place env d i dm rn)) = rn_decisions rn"
  "rn_metrics (snd (place env d i dm rn)) = rn_metrics rn"
  "rn_clock (snd (place env d i dm rn)) = rn_clock rn"
  "rn_events (snd (place env d i dm rn)) = rn_events rn"
  "rn_last_state (snd (enrol env opt d i rn)) = rn_last_state rn"
  "rn_last_state (snd (place env d i dm rn)) = rn_last_state rn"
  by (auto simp: enrol_def place_def run_then_def split: sum.split prod.split)

lemma step_frame:
  assumes "run_step env opt rn rn'"
  obtains d wp ses peer where "rn' = snd (run_decide env opt d wp ses peer rn)"
  | "rn_decisions rn' = rn_decisions rn" "rn_last_state rn' = rn_last_state rn"
    "books_kept (rn_metrics rn) (rn_metrics rn')"
  using assms
proof (cases rule: run_step.cases)
  case (decide d wp ses peer)
  then show ?thesis using that(1) by blast
qed (use that(2) in \<open>auto simp: feed_frame prepare_frame advance_frame set_domain_def count_transitions_def log_event_def
      with_metrics_def prod.case_eq_if intro: books_kept.intros split: sum.split\<close>)

lemma metrics_ok_kept: "books_kept mc mc' \<Longrightarrow> metrics_ok mc \<Longrightarrow> metrics_ok mc'"
  by (cases rule: books_kept.cases, assumption)
    (auto intro: metrics_ok_observe metrics_ok_increment metrics_ok_ground_truth simp: derived_counters_def)

lemma books_kept_counts:
  assumes "books_kept mc mc'"
  shows "mc_action_counts mc' = mc_action_counts mc" "mc_state_counts mc' = mc_state_counts mc"
    "samples_of ''M3'' mc' = samples_of ''M3'' mc" "samples_of ''M12'' mc' = samples_of ''M12'' mc" "count_of (mc_counters mc') ''M7'' = count_of (mc_counters mc) ''M7''"
  using assms
  by (induction rule: books_kept.induct) (auto simp: derived_counters_def record_ground_truth_counts Let_def)

section \<open>The ledger\<close>

definition ledger_ok :: "runner \<Rightarrow> bool" where
  "ledger_ok rn \<longleftrightarrow> metrics_ok (rn_metrics rn)
     \<and> (\<forall>a. count_of (mc_action_counts (rn_metrics rn)) a = int (rows_with ''action'' a (rn_decisions rn)))
     \<and> (\<forall>s. count_of (mc_state_counts (rn_metrics rn)) s = int (rows_with ''trust_state'' s (rn_decisions rn)))
     \<and> samples_of ''M3'' (rn_metrics rn) =
         (if rn_decisions rn = [] then None else Some (map row_latency (rn_decisions rn)))
     \<and> samples_of ''M12'' (rn_metrics rn) =
         (if engine_times (rn_decisions rn) = [] then None else Some (engine_times (rn_decisions rn)))
     \<and> (\<forall>d. map_option (\<lambda>e. dget e ''trust_state'') (row_before (Some (jstr d)) (rev (rn_decisions rn)))
              = map_option (\<lambda>s. Some (jstr s)) (dget (rn_last_state rn) d))
     \<and> count_of (mc_counters (rn_metrics rn)) ''M7'' = int (state_changes (rn_decisions rn))
     \<and> counter_total (mc_action_counts (rn_metrics rn)) = int (length (rn_decisions rn))"

lemma ledger_new: "ledger_ok (new_runner env opt st)"
  by (simp add: ledger_ok_def new_runner_def metrics_ok_new)
    (simp add: new_metrics_def samples_of_def row_before_def state_changes_def engine_times_def map_filter_simps)

lemma ledger_kept:
  assumes "ledger_ok rn" "rn_decisions rn' = rn_decisions rn" "rn_last_state rn' = rn_last_state rn"
    and "books_kept (rn_metrics rn) (rn_metrics rn')"
  shows "ledger_ok rn'"
  using assms metrics_ok_kept [OF assms(4)] by (simp add: ledger_ok_def books_kept_counts [OF assms(4)])

text \<open>A decision changes the state exactly when the device's last row names another one.\<close>

lemma changed_state:
  assumes "map_option (\<lambda>e. dget e ''trust_state'') (row_before (Some (jstr d)) (rev rows))
      = map_option (\<lambda>s. Some (jstr s)) last_state"
    and "dget r ''device_id'' = Some (jstr d)" "dget r ''trust_state'' = Some (jstr s)"
  shows "state_changes (rows @ [r]) = (case last_state of None \<Rightarrow> 0 | Some p \<Rightarrow> if p = s then 0 else 1) + state_changes rows"
  using assms by (cases last_state; cases "row_before (Some (jstr d)) (rev rows)") (auto simp: state_changes_def)

lemma decision_changes:
  "count_of (mc_counters (record_decision a s p mc)) ''M7'' =
     count_of (mc_counters mc) ''M7'' + (case p of None \<Rightarrow> 0 | Some q \<Rightarrow> if q = s then 0 else 1)"
  by (simp add: record_decision_def Let_def split: option.split)

lemma ledger_outcome:
  assumes "ledger_ok rn"
  shows "ledger_ok (record_outcome env opt d dm so rn)"
proof -
  let ?rn = "record_outcome env opt d dm so rn" and ?s = "state_value (dc_trust_state (so_decision so))"
  let ?r = "decision_row d (so_decision so) (dget (rn_last_state rn) d) (rv_elapsed_ns env (rn_drawn rn))
      (so_trust_evaluation so) dm (rv_source env) (scn_measurement_tier (ro_scenario opt)) (rn_now rn)"
  have d: "dict_ok (mc_action_counts (rn_metrics rn))"
    using assms by (simp add: ledger_ok_def metrics_ok_def)
  have rows: "rn_decisions ?rn = rn_decisions rn @ [?r]" "rn_last_state ?rn = dset d ?s (rn_last_state rn)"
    by (simp_all add: record_outcome_def Let_def)
  have ch: "state_changes (rn_decisions rn @ [?r]) =
      (case dget (rn_last_state rn) d of None \<Rightarrow> 0 | Some p \<Rightarrow> if p = ?s then 0 else 1) + state_changes (rn_decisions rn)"
    using assms by (intro changed_state) (simp_all add: ledger_ok_def decision_row_fields)
  have "count_of (mc_counters (rn_metrics ?rn)) ''M7'' = int (state_changes (rn_decisions ?rn))"
    using assms unfolding rows(1) ch
    by (simp add: ledger_ok_def record_outcome_def Let_def decision_changes split: option.split)
  moreover have "map_option (\<lambda>e. dget e ''trust_state'') (row_before (Some (jstr d')) (rev (rn_decisions ?rn)))
      = map_option (\<lambda>s. Some (jstr s)) (dget (rn_last_state ?rn) d')" for d'
    using assms unfolding rows by (simp add: ledger_ok_def row_before_def decision_row_fields)
  moreover have "samples_of ''M3'' (rn_metrics ?rn) = Some (map row_latency (rn_decisions ?rn))"
    using assms by (auto simp: ledger_ok_def record_outcome_def Let_def split: option.split)
  moreover have "samples_of ''M12'' (rn_metrics ?rn) =
      (if engine_times (rn_decisions ?rn) = [] then None else Some (engine_times (rn_decisions ?rn)))"
    unfolding rows using assms
    by (cases "so_trust_evaluation so") (auto simp: ledger_ok_def record_outcome_def Let_def)
  moreover have "metrics_ok (rn_metrics ?rn)"
    using assms by (simp add: ledger_ok_def record_outcome_def Let_def metrics_ok_decision metrics_ok_observe split: option.split)
  moreover have "count_of (mc_action_counts (rn_metrics ?rn)) a = int (rows_with ''action'' a (rn_decisions ?rn))"
    "count_of (mc_state_counts (rn_metrics ?rn)) s = int (rows_with ''trust_state'' s (rn_decisions ?rn))"
    "counter_total (mc_action_counts (rn_metrics ?rn)) = int (length (rn_decisions ?rn))" for a s
    using assms d by (auto simp: ledger_ok_def record_outcome_def Let_def decision_row_fields split: option.split)
  moreover have "rn_decisions ?rn \<noteq> []" unfolding rows by simp
  ultimately show ?thesis unfolding ledger_ok_def by simp
qed

lemma ledger_app: "ledger_ok (rn\<lparr>rn_app := st\<rparr>) \<longleftrightarrow> ledger_ok rn"
  by (simp add: ledger_ok_def)

lemma ledger_step: "run_step env opt rn rn' \<Longrightarrow> ledger_ok rn \<Longrightarrow> ledger_ok rn'"
proof (erule step_frame)
  fix d wp ses peer
  assume "ledger_ok rn" "rn' = snd (run_decide env opt d wp ses peer rn)"
  then show "ledger_ok rn'"
    by (cases rule: run_decide_cases [of env opt d wp ses peer rn]) (simp_all add: ledger_app ledger_outcome)
qed (rule ledger_kept)

section \<open>Scenario time\<close>

lemma clock_step: "run_step env opt rn rn' \<Longrightarrow> rn_now rn \<le> rn_now rn'"
proof (cases rule: run_step.cases, assumption)
  fix d wp ses peer
  assume "rn' = snd (run_decide env opt d wp ses peer rn)"
  then show "rn_now rn \<le> rn_now rn'"
    by (cases rule: run_decide_cases [of env opt d wp ses peer rn])
      (simp_all add: record_outcome_def Let_def)
next
  fix us
  assume "rn' = snd (advance_clock us rn)"
  then show "rn_now rn \<le> rn_now rn'"
    by (auto simp: advance_clock_def clock_advance_forward split: sum.split)
qed (auto simp: prepare_frame feed_nr_def feed_wlan_def run_then_def set_domain_def count_transitions_def log_event_def
      with_metrics_def store_bindings_def prod.case_eq_if split: sum.split)

section \<open>Provenance of the event rows\<close>

lemma fed_row_mode:
  assumes "''source_mode'' \<notin> fst ` set (acs_event_stamp src dm)"
  shows "dget (mk_row (fed_row src kind dm d now peer mode ov b)) ''source_mode'' = Some (jstr (source_mode_value mode))"
proof -
  have "map_of (rev (map (\<lambda>(k, v). (k, jstr v)) (acs_event_stamp src dm))) ''source_mode'' = None"
    using assms by (force simp: map_of_eq_None_iff)
  then show ?thesis by (simp add: dget_mk_row fed_row_def map_add_def)
qed

text \<open>Rows other than those of access events name no source mode.\<close>

lemma rows_step:
  assumes "run_step env opt rn rn'"
  obtains d ov where "rn' = snd (feed_nr env d ov rn)" | d ov where "rn' = snd (feed_wlan env d ov rn)"
  | rows where "rn_events rn' = rn_events rn @ rows" "\<And>r. r \<in> set rows \<Longrightarrow> dget r ''source_mode'' = None"
  using assms
proof (cases rule: run_step.cases)
  case (feed_nr d ov)
  then show ?thesis using that(1) by blast
next
  case (feed_wlan d ov)
  then show ?thesis using that(2) by blast
next
  case (decide d wp ses peer)
  then show ?thesis using that(3) [of "[]"]
    by (cases rule: run_decide_cases [of env opt d wp ses peer rn]) (simp_all add: record_outcome_def Let_def)
next
  case (log kvs)
  then show ?thesis using that(3) [of "[mk_row kvs]"] by (simp add: log_event_def dget_mk_row_absent)
qed (use that(3) [of "[]"] in \<open>simp_all add: prepare_frame advance_frame set_domain_def count_transitions_def
      with_metrics_def prod.case_eq_if\<close>)

context access_evidence
begin

definition row_truthful :: "row \<Rightarrow> bool" where
  "row_truthful r \<longleftrightarrow> (\<forall>c. dget r ''source_mode'' = Some c \<longrightarrow>
     (\<exists>m. c = jstr (source_mode_value m) \<and> truthful_mode m))"

definition events_truthful :: "runner \<Rightarrow> bool" where
  "events_truthful rn \<longleftrightarrow> list_all row_truthful (rn_events rn)"

lemma truthful_row:
  "truthful_mode mode \<Longrightarrow> row_truthful (mk_row (fed_row src kind dm d now peer mode ov b))"
  by (auto simp: row_truthful_def fed_row_mode [OF stamp_adds])

lemma truthful_logged:
  "events_truthful rn \<Longrightarrow> truthful_mode mode \<Longrightarrow>
     events_truthful (log_event (fed_row src kind dm d now peer mode ov b) (with_metrics f (store_bindings bs rn)))"
  by (simp add: events_truthful_def log_event_def with_metrics_def store_bindings_def truthful_row)

lemma truthful_feed:
  assumes "events_truthful rn" "rv_source env = src"
  shows "events_truthful (snd (feed_nr env d ov rn))" "events_truthful (snd (feed_wlan env d ov rn))"
  using assms(1)
  by (auto simp: feed_nr_def feed_wlan_def run_then_def assms(2) truthful_logged evidence_is_truthful
      split: sum.split prod.split)

lemma truthful_step:
  assumes "run_step env opt rn rn'" "events_truthful rn" "rv_source env = src"
  shows "events_truthful rn'"
  using assms(1)
proof (cases rule: rows_step)
  case (3 rows)
  then show ?thesis using assms(2) by (auto simp: events_truthful_def list_all_iff row_truthful_def)
qed (use truthful_feed [OF assms(2,3)] in auto)

end

section \<open>Every run\<close>

text \<open>An invariant of the primitive steps holds of the state a run ends in.\<close>

lemma run_keeps:
  assumes "P rn" "\<And>rn rn'. run_step env opt rn rn' \<Longrightarrow> P rn \<Longrightarrow> P rn'"
  shows "P (snd (prepare_and_play env opt rn))"
  using prepare_and_play_steps [of env opt rn] assms(1)
  by (induction rule: rtranclp_induct) (auto intro: assms(2))

lemma run_scenario_Inr:
  assumes "run_scenario env opt = Inr rr"
  obtains st where "build_app_state (rv_settings env) (rv_nr_salt env) (rv_wlan_salt env) = Inr st"
    "rr = finish env opt (prepare_and_play env opt (new_runner env opt st))"
  using assms by (auto simp: run_scenario_def split: sum.splits)

end
