(* ===== verification/Run_Labels.thy ===== *)
theory Run_Labels
  imports Run_Ledger
begin

text \<open>
  The ground truth of a run is declared before it is played. Which steps are scored, and with which
  label, is a function of the scenario, the seed and the random generator alone (\<open>declared_labels\<close>): the
  outcomes of a run carry exactly those labels in that order, or an initial part of them when the run
  stops with an exception. Nothing that a strategy decides reaches a label, so the confusion counts of
  two strategies on one scenario have the same denominators.
\<close>

section \<open>The labels a scenario declares\<close>

definition own_label :: "scenario_event \<Rightarrow> (nat \<times> string) list" where
  "own_label ev =
     (if scored (sev_ground_truth ev) then [(sev_step ev, label_value (sev_ground_truth ev))] else [])"

definition device_ids_of :: "scenario \<Rightarrow> string list" where
  "device_ids_of s = map (scenario_device_id s) [0 ..< scn_device_count s]"

definition event_labels :: "'g rng \<Rightarrow> scenario \<Rightarrow> int \<Rightarrow> scenario_event \<Rightarrow> (nat \<times> string) list" where
  "event_labels rg s seed ev =
     (let ids = device_ids_of s in
      case sev_kind ev of
        ADVANCE_TIME \<Rightarrow> []
      | NR_SESSION \<Rightarrow> []
      | WLAN_SESSION \<Rightarrow> []
      | STALE_EVIDENCE \<Rightarrow> []
      | COLLECTOR_RECOVERY \<Rightarrow> []
      | COLLECTOR_OUTAGE \<Rightarrow> []
      | MQTT_DISCONNECT \<Rightarrow> []
      | RAPID_TRANSITIONS \<Rightarrow> if sev_repeat ev = 0 then [] else own_label ev
      | CONCURRENT_TRANSITION \<Rightarrow> concat (map (\<lambda>_. own_label ev) (member_indices s ev (length ids)))
      | DEVICE_SWEEP \<Rightarrow> concat (map (\<lambda>_. own_label ev) (member_indices s ev (length ids)))
      | MIXED_WORKLOAD \<Rightarrow>
          map (\<lambda>p. (sev_step ev, label_value (pe_label p))) (workload_plan rg seed ids ev)
      | _ \<Rightarrow> own_label ev)"

definition declared_labels :: "'g rng \<Rightarrow> scenario \<Rightarrow> int \<Rightarrow> (nat \<times> string) list" where
  "declared_labels rg s seed = concat (map (event_labels rg s seed) (scn_event_sequence s))"

text \<open>The labels of the outcomes recorded so far.\<close>

definition outcome_labels :: "runner \<Rightarrow> (nat \<times> string) list" where
  "outcome_labels rn = map (\<lambda>q. (sco_step q, sco_ground_truth q)) (mc_outcomes (rn_metrics rn))"

section \<open>Operations that add labels\<close>

text \<open>Started with the labels \<open>b\<close> and the devices \<open>ids\<close>, the operation adds \<open>L\<close>, or an initial part of \<open>L\<close> when
  it raises.\<close>

definition adds :: "(nat \<times> string) list \<Rightarrow> string list \<Rightarrow> (nat \<times> string) list \<Rightarrow> 'a result \<times> runner \<Rightarrow> bool" where
  "adds b ids L x \<longleftrightarrow> rn_device_ids (snd x) = ids
     \<and> (\<exists>L1. prefix L1 L \<and> outcome_labels (snd x) = b @ L1 \<and> (\<forall>a. fst x = Inr a \<longrightarrow> L1 = L))"

lemma adds_nothing: "outcome_labels rn = b \<Longrightarrow> rn_device_ids rn = ids \<Longrightarrow> adds b ids [] (r, rn)"
  by (simp add: adds_def)

lemma adds_done: "outcome_labels rn = b @ L \<Longrightarrow> rn_device_ids rn = ids \<Longrightarrow> adds b ids L (Inr a, rn)"
  by (auto simp: adds_def)

lemma adds_raised: "outcome_labels rn = b \<Longrightarrow> rn_device_ids rn = ids \<Longrightarrow> adds b ids L (Inl e, rn)"
  by (auto simp: adds_def)

lemma adds_then:
  assumes "adds b ids L1 x"
    and "\<And>a s. outcome_labels s = b @ L1 \<Longrightarrow> rn_device_ids s = ids \<Longrightarrow> adds (b @ L1) ids L2 (f a s)"
  shows "adds b ids (L1 @ L2) (run_then x f)"
proof (cases "fst x")
  case (Inl e)
  then obtain s where "x = (Inl e, s)" by (cases x) simp
  with assms(1) show ?thesis by (auto simp: adds_def)
next
  case (Inr a)
  then obtain s where x: "x = (Inr a, s)" by (cases x) simp
  with assms(1) have "adds (b @ L1) ids L2 (f a s)" by (intro assms(2)) (auto simp: adds_def)
  with x show ?thesis by (auto simp: adds_def)
qed

text \<open>An operation that scores nothing, followed by the rest.\<close>

lemma labels_after:
  "adds b ids [] x \<Longrightarrow> (\<And>a s. outcome_labels s = b \<Longrightarrow> rn_device_ids s = ids \<Longrightarrow> adds b ids L (f a s))
    \<Longrightarrow> adds b ids L (run_then x f)"
  using adds_then [of b ids "[]" x L f] by simp

lemma adds_for_each:
  "outcome_labels rn = b \<Longrightarrow> rn_device_ids rn = ids \<Longrightarrow>
   (\<And>x b s. x \<in> set xs \<Longrightarrow> outcome_labels s = b \<Longrightarrow> rn_device_ids s = ids \<Longrightarrow> adds b ids (g x) (body x s))
    \<Longrightarrow> adds b ids (concat (map g xs)) (for_each body xs rn)"
proof (induction xs arbitrary: b rn)
  case Nil
  then show ?case by (simp add: adds_nothing)
next
  case (Cons x xs)
  have "adds b ids (g x @ concat (map g xs)) (run_then (body x rn) (\<lambda>_ s. for_each body xs s))"
    using Cons.prems by (intro adds_then Cons.IH) auto
  then show ?case by simp
qed

section \<open>What the runner's operations add\<close>

lemma labels_frame [simp]:
  "outcome_labels (log_event kvs rn) = outcome_labels rn"
  "outcome_labels (set_domain d dm rn) = outcome_labels rn"
  "outcome_labels (with_metrics (observe_sample m v sub) rn) = outcome_labels rn"
  "outcome_labels (with_metrics (increment c amount) rn) = outcome_labels rn"
  "outcome_labels (rn\<lparr>rn_app := st\<rparr>) = outcome_labels rn"
  "outcome_labels (rn\<lparr>rn_drawn := k\<rparr>) = outcome_labels rn"
  "outcome_labels (rn\<lparr>rn_clock := cl\<rparr>) = outcome_labels rn"
  "outcome_labels (store_bindings bs rn) = outcome_labels rn"
  "outcome_labels (snd (count_transitions d rn)) = outcome_labels rn"
  "outcome_labels (record_outcome env opt d dm so rn) = outcome_labels rn"
  by (simp_all add: outcome_labels_def log_event_def set_domain_def with_metrics_def store_bindings_def
      count_transitions_def record_outcome_def Let_def prod.case_eq_if split: option.split)

lemma devices_frame [simp]:
  "rn_device_ids (log_event kvs rn) = rn_device_ids rn"
  "rn_device_ids (set_domain d dm rn) = rn_device_ids rn"
  "rn_device_ids (with_metrics f rn) = rn_device_ids rn"
  "rn_device_ids (store_bindings bs rn) = rn_device_ids rn"
  "rn_device_ids (snd (count_transitions d rn)) = rn_device_ids rn"
  "rn_device_ids (record_outcome env opt d dm so rn) = rn_device_ids rn"
  "rn_device_ids (Scenario_Runner.score ev dec rn) = rn_device_ids rn"
  by (simp_all add: log_event_def set_domain_def with_metrics_def store_bindings_def
      count_transitions_def record_outcome_def Scenario_Runner.score_def Let_def prod.case_eq_if)

lemma labels_scored [simp]:
  "outcome_labels (with_metrics (record_ground_truth n (label_value l) a st p sat) rn) =
     outcome_labels rn @ [(n, label_value l)]"
  by (simp add: outcome_labels_def with_metrics_def record_ground_truth_outcomes)

lemma labels_score [simp]:
  "outcome_labels (Scenario_Runner.score ev dec rn) = outcome_labels rn @ own_label ev"
  by (simp add: Scenario_Runner.score_def own_label_def)

named_theorems labelled \<open>what an operation adds to the labels\<close>

lemma pure_labels [labelled]:
  "outcome_labels rn = b \<Longrightarrow> rn_device_ids rn = ids \<Longrightarrow> adds b ids [] (r, rn)"
  by (rule adds_nothing)

lemma feed_labels [labelled]:
  assumes "outcome_labels rn = b" "rn_device_ids rn = ids"
  shows "adds b ids [] (feed_nr env d ov rn)" "adds b ids [] (feed_wlan env d ov rn)"
    "adds b ids [] (feed env dm d ov rn)"
proof -
  show n: "adds b ids [] (feed_nr env d ov rn)"
    using assms by (auto simp: feed_nr_def intro!: labels_after labelled split: prod.split)
  show w: "adds b ids [] (feed_wlan env d ov rn)"
    using assms by (auto simp: feed_wlan_def intro!: labels_after labelled split: prod.split)
  show "adds b ids [] (feed env dm d ov rn)"
    using n w by (simp add: feed_def)
qed

lemma decide_labels [labelled]:
  assumes "outcome_labels rn = b" "rn_device_ids rn = ids"
  shows "adds b ids [] (run_decide env opt d wp ses peer rn)"
  using assms by (cases rule: run_decide_cases [of env opt d wp ses peer rn]) (simp_all add: adds_nothing)

lemma advance_labels [labelled]:
  "outcome_labels rn = b \<Longrightarrow> rn_device_ids rn = ids \<Longrightarrow> adds b ids [] (advance_clock us rn)"
  "outcome_labels rn = b \<Longrightarrow> rn_device_ids rn = ids \<Longrightarrow> adds b ids [] (pause us rn)"
  by (simp_all add: advance_clock_def pause_def adds_nothing split: sum.split)

lemma decide_and_log_labels [labelled]:
  assumes "outcome_labels rn = b" "rn_device_ids rn = ids"
  shows "adds b ids [] (decide_and_log env opt d ses peer entry rn)"
  using assms unfolding decide_and_log_def by (intro labels_after labelled) simp_all

section \<open>What the events add\<close>

lemma score_done:
  "outcome_labels rn = b \<Longrightarrow> rn_device_ids rn = ids \<Longrightarrow>
     adds b ids (own_label ev) (Inr a, Scenario_Runner.score ev dec rn)"
  by (simp add: adds_done)

lemma quiet_event_labels:
  assumes "outcome_labels rn = b" "rn_device_ids rn = ids"
  shows "adds b ids [] (play_advance ev rn)" "adds b ids [] (play_stale d ev rn)"
    "adds b ids [] (play_availability v kind ev rn)" "adds b ids [] (play_disconnect d rn)"
  using assms unfolding play_advance_def play_stale_def
  by (auto simp: play_availability_def play_disconnect_def Let_def intro!: labels_after labelled)

lemma play_identity_mismatch_labels:
  assumes "outcome_labels rn = b" "rn_device_ids rn = ids"
  shows "adds b ids (own_label ev) (play_identity_mismatch env opt d ev rn)"
  using assms
  by (auto simp: play_identity_mismatch_def intro!: labels_after labelled score_done adds_raised split: option.split)

lemma play_unauthorized_context_labels:
  assumes "outcome_labels rn = b" "rn_device_ids rn = ids"
  shows "adds b ids (own_label ev) (play_unauthorized_context env opt d ev rn)"
  using assms by (auto simp: play_unauthorized_context_def Let_def intro!: labels_after labelled score_done)

lemma play_session_mismatch_labels:
  assumes "outcome_labels rn = b" "rn_device_ids rn = ids"
  shows "adds b ids (own_label ev) (play_session_mismatch env opt d ev rn)"
  using assms by (auto simp: play_session_mismatch_def intro!: labels_after labelled score_done)

lemma rapid_step_labels:
  assumes "outcome_labels rn = b" "rn_device_ids rn = ids"
  shows "adds b ids [] (rapid_step env opt d ev i rn)"
  using assms unfolding rapid_step_def prod.case_eq_if by (intro labels_after labelled) simp_all

lemma rapid_loop_labels:
  "outcome_labels rn = b \<Longrightarrow> rn_device_ids rn = ids \<Longrightarrow> adds b ids [] (rapid_loop env opt d ev is od rn)"
proof (induction "is" arbitrary: rn od)
  case (Cons i "is")
  then show ?case by (auto intro!: labels_after rapid_step_labels)
qed (simp add: adds_nothing)

text \<open>After at least one iteration the loop holds a decision.\<close>

lemma rapid_loop_decides:
  "fst (rapid_loop env opt d ev is od rn) = Inr r \<Longrightarrow> is \<noteq> [] \<or> od \<noteq> None \<Longrightarrow> r \<noteq> None"
proof (induction "is" arbitrary: rn od)
  case (Cons i "is")
  obtain x s where x: "rapid_step env opt d ev i rn = (x, s)" by fastforce
  with Cons show ?case by (cases x) auto
qed simp

lemma play_rapid_transitions_labels:
  assumes "outcome_labels rn = b" "rn_device_ids rn = ids"
  shows "adds b ids (if sev_repeat ev = 0 then [] else own_label ev) (play_rapid_transitions env opt d ev rn)"
proof -
  obtain r s where l: "rapid_loop env opt d ev [0 ..< sev_repeat ev] None rn = (r, s)" by fastforce
  have a: "adds b ids [] (r, s)" unfolding l [symmetric] using assms by (rule rapid_loop_labels)
  then have f: "outcome_labels s = b" "rn_device_ids s = ids" by (simp_all add: adds_def)
  show ?thesis
  proof (cases r)
    case (Inl e)
    with l f show ?thesis by (simp add: play_rapid_transitions_def adds_raised)
  next
    case (Inr od)
    have "od \<noteq> None" if "sev_repeat ev \<noteq> 0"
      using rapid_loop_decides [of env opt d ev "[0 ..< sev_repeat ev]" None rn od] l Inr that by simp
    moreover have "od = None" if "sev_repeat ev = 0"
      using l Inr that by simp
    ultimately show ?thesis
      using l Inr f by (auto simp: play_rapid_transitions_def adds_done split: option.split)
  qed
qed

lemma concurrent_step_labels:
  assumes "outcome_labels rn = b" "rn_device_ids rn = ids"
  shows "adds b ids (own_label ev) (concurrent_step env opt ev i rn)"
proof -
  have p: "adds b ids (own_label ev) (pause us (Scenario_Runner.score ev dec s))"
    if "outcome_labels s = b" "rn_device_ids s = ids" for us dec s
    using that by (auto simp: pause_def advance_clock_def intro!: adds_done split: sum.split)
      (auto simp: adds_def)
  then show ?thesis
    using assms by (auto simp: concurrent_step_def Let_def intro!: labels_after labelled)
qed

lemma sweep_step_labels:
  assumes "outcome_labels rn = b" "rn_device_ids rn = ids"
  shows "adds b ids (own_label ev) (sweep_step env opt ev i rn)"
  using assms by (auto simp: sweep_step_def intro!: labels_after labelled score_done)

lemma play_concurrent_transition_labels:
  assumes "outcome_labels rn = b" "rn_device_ids rn = ids"
  shows "adds b ids (concat (map (\<lambda>_. own_label ev) (member_indices (ro_scenario opt) ev (length ids))))
    (play_concurrent_transition env opt ev rn)"
  using assms by (simp add: play_concurrent_transition_def adds_for_each concurrent_step_labels)

lemma play_device_sweep_labels:
  assumes "outcome_labels rn = b" "rn_device_ids rn = ids"
  shows "adds b ids (concat (map (\<lambda>_. own_label ev) (member_indices (ro_scenario opt) ev (length ids))))
    (play_device_sweep env opt ev rn)"
proof -
  have "adds b ids (concat (map (\<lambda>_. own_label ev) (member_indices (ro_scenario opt) ev (length ids))) @ [])
    (play_device_sweep env opt ev rn)"
    using assms unfolding play_device_sweep_def
    by (intro adds_then) (simp_all add: adds_for_each sweep_step_labels adds_nothing)
  then show ?thesis by simp
qed

lemma play_transition_labels:
  assumes "outcome_labels rn = b" "rn_device_ids rn = ids"
  shows "adds b ids (own_label ev) (play_transition env opt d ev rn)"
  using assms by (auto simp: play_transition_def Let_def intro!: labels_after labelled adds_done)

lemma play_decision_labels:
  assumes "outcome_labels rn = b" "rn_device_ids rn = ids"
  shows "adds b ids (own_label ev) (play_decision env opt d ev rn)"
  using assms by (auto simp: play_decision_def with_metrics_twice intro!: labels_after labelled score_done)

lemma play_operation_labels:
  assumes "outcome_labels rn = b" "rn_device_ids rn = ids"
  shows "adds b ids (own_label ev) (play_operation d ev rn)"
  using assms
  by (auto simp: play_operation_def prod.case_eq_if Let_def with_metrics_twice own_label_def intro!: adds_done)

lemma burst_step_labels:
  assumes "outcome_labels rn = b" "rn_device_ids rn = ids"
  shows "adds b ids [] (burst_step env m i rn)"
  using assms by (auto simp: burst_step_def intro!: labels_after labelled)

lemma burst_labels [labelled]:
  assumes "outcome_labels rn = b" "rn_device_ids rn = ids"
  shows "adds b ids [] (for_each (burst_step env m) is rn)"
proof -
  have "concat (map (\<lambda>_. []) is) = ([] :: (nat \<times> string) list)"
    by simp
  with adds_for_each [of rn b ids "is" "\<lambda>_. []" "burst_step env m"] assms show ?thesis
    by (metis burst_step_labels)
qed

lemma entry_decision_labels [labelled]:
  assumes "outcome_labels rn = b" "rn_device_ids rn = ids"
  shows "adds b ids [] (entry_decision env opt legit p rn)"
  using assms by (auto simp: entry_decision_def Let_def intro!: labels_after labelled)

lemma play_entry_labels:
  assumes "outcome_labels rn = b" "rn_device_ids rn = ids"
  shows "adds b ids [(sev_step ev, label_value (pe_label p))] (play_entry env opt ev legit p rn)"
proof -
  have "adds b ids ([(sev_step ev, label_value (pe_label p))] @ []) (pause us s)"
    if "outcome_labels s = b @ [(sev_step ev, label_value (pe_label p))]" "rn_device_ids s = ids" for us s
    using that by (auto simp: adds_def pause_def advance_clock_def split: sum.split)
  then show ?thesis
    using assms unfolding play_entry_def by (intro labels_after entry_decision_labels) simp_all
qed

lemma play_mixed_workload_labels:
  assumes "outcome_labels rn = b" "rn_device_ids rn = ids"
  shows "adds b ids (map (\<lambda>p. (sev_step ev, label_value (pe_label p))) (workload_plan (rv_rng env) (ro_seed opt) ids ev))
    (play_mixed_workload env opt ev rn)"
proof -
  have m: "map (\<lambda>p. (sev_step ev, label_value (pe_label p))) plan =
      concat (map (\<lambda>p. [(sev_step ev, label_value (pe_label p))]) plan)" for plan
    by (induction plan) simp_all
  show ?thesis
    unfolding m play_mixed_workload_def Let_def assms(2)
    by (rule adds_for_each) (simp_all add: assms play_entry_labels)
qed

section \<open>What a run adds\<close>

lemmas event_label_facts = quiet_event_labels play_identity_mismatch_labels play_unauthorized_context_labels
  play_session_mismatch_labels play_rapid_transitions_labels play_concurrent_transition_labels
  play_device_sweep_labels play_transition_labels play_decision_labels play_operation_labels
  play_mixed_workload_labels feed_labels

lemma play_event_labels:
  assumes "outcome_labels rn = b" "rn_device_ids rn = device_ids_of (ro_scenario opt)"
  shows "adds b (device_ids_of (ro_scenario opt)) (event_labels (rv_rng env) (ro_scenario opt) (ro_seed opt) ev) (play_event env opt ev rn)"
  unfolding play_event_def
proof (rule labels_after)
  fix d s
  assume "outcome_labels s = b" "rn_device_ids s = device_ids_of (ro_scenario opt)"
  note f = event_label_facts [OF this]
  show "adds b (device_ids_of (ro_scenario opt)) (event_labels (rv_rng env) (ro_scenario opt) (ro_seed opt) ev)
      (case sev_kind ev of
          ADVANCE_TIME \<Rightarrow> play_advance ev s
        | NR_SESSION \<Rightarrow> feed_nr env d [] s
        | WLAN_SESSION \<Rightarrow> feed_wlan env d [] s
        | STALE_EVIDENCE \<Rightarrow> play_stale d ev s
        | IDENTITY_MISMATCH \<Rightarrow> play_identity_mismatch env opt d ev s
        | UNAUTHORIZED_CONTEXT \<Rightarrow> play_unauthorized_context env opt d ev s
        | SESSION_MISMATCH \<Rightarrow> play_session_mismatch env opt d ev s
        | RAPID_TRANSITIONS \<Rightarrow> play_rapid_transitions env opt d ev s
        | CONCURRENT_TRANSITION \<Rightarrow> play_concurrent_transition env opt ev s
        | DEVICE_SWEEP \<Rightarrow> play_device_sweep env opt ev s
        | MIXED_WORKLOAD \<Rightarrow> play_mixed_workload env opt ev s
        | COLLECTOR_RECOVERY \<Rightarrow> play_availability True ''collector_recovery'' ev s
        | COLLECTOR_OUTAGE \<Rightarrow> play_availability False ''collector_outage'' ev s
        | TRANSITION \<Rightarrow> play_transition env opt d ev s
        | MQTT_CONNECT \<Rightarrow> play_decision env opt d ev s
        | EXPECT_DECISION \<Rightarrow> play_decision env opt d ev s
        | MQTT_PUBLISH \<Rightarrow> play_operation d ev s
        | MQTT_SUBSCRIBE \<Rightarrow> play_operation d ev s
        | MQTT_DISCONNECT \<Rightarrow> play_disconnect d s)"
    by (cases "sev_kind ev") (use f in \<open>simp_all add: event_labels_def Let_def split del: if_split\<close>)
qed (simp add: adds_nothing assms)

lemma play_events_labels:
  assumes "outcome_labels rn = b" "rn_device_ids rn = device_ids_of (ro_scenario opt)"
  shows "adds b (device_ids_of (ro_scenario opt)) (declared_labels (rv_rng env) (ro_scenario opt) (ro_seed opt)) (play_events env opt rn)"
  unfolding play_events_def declared_labels_def
  using assms by (intro adds_for_each play_event_labels)

text \<open>Preparing adds the devices, one by one, and no label.\<close>

definition prepared :: "runner \<Rightarrow> string list \<Rightarrow> 'a result \<times> runner \<Rightarrow> bool" where
  "prepared rn ids x \<longleftrightarrow> outcome_labels (snd x) = outcome_labels rn
     \<and> (\<forall>a. fst x = Inr a \<longrightarrow> rn_device_ids (snd x) = rn_device_ids rn @ ids)"

lemma enrol_labels: "outcome_labels (snd (enrol env opt d i rn)) = outcome_labels rn"
    "rn_device_ids (snd (enrol env opt d i rn)) = rn_device_ids rn"
  by (simp_all add: outcome_labels_def prepare_frame) (simp add: enrol_def split: sum.split prod.split)

lemma place_labels: "outcome_labels (snd (place env d i dm rn)) = outcome_labels rn"
    "rn_device_ids (snd (place env d i dm rn)) = rn_device_ids rn"
  by (simp_all add: outcome_labels_def prepare_frame) (simp add: place_def run_then_def split: sum.split)

lemma prepare_device_prepared: "prepared rn [scenario_device_id (ro_scenario opt) i] (prepare_device env opt i rn)"
proof -
  define P where "P s \<longleftrightarrow> outcome_labels s = outcome_labels rn
      \<and> rn_device_ids s = rn_device_ids rn @ [scenario_device_id (ro_scenario opt) i]" for s
  have "P (snd (enrol env opt d i s))" "P (snd (place env d i dm s))" "P (set_domain d dm s)"
    if "P s" for d dm s using that by (simp_all add: P_def enrol_labels place_labels)
  moreover have "P (rn\<lparr>rn_device_ids := rn_device_ids rn @ [scenario_device_id (ro_scenario opt) i], rn_keys := ks\<rparr>)"
    for ks by (simp add: P_def outcome_labels_def)
  ultimately have "P (snd (prepare_device env opt i rn))"
    by (auto simp: prepare_device_def Let_def intro!: run_then_keeps [where P = P])
  then show ?thesis by (simp add: prepared_def P_def)
qed

lemma prepare_devices_prepared:
  "prepared rn (map (scenario_device_id (ro_scenario opt)) is) (for_each (prepare_device env opt) is rn)"
proof (induction "is" arbitrary: rn)
  case Nil
  then show ?case by (simp add: prepared_def)
next
  case (Cons i "is")
  obtain r s where d: "prepare_device env opt i rn = (r, s)" by fastforce
  have "prepared rn [scenario_device_id (ro_scenario opt) i] (r, s)"
    unfolding d [symmetric] by (rule prepare_device_prepared)
  then show ?case
    using d Cons [of s] by (cases r) (auto simp: prepared_def)
qed

lemma run_labels:
  assumes "outcome_labels rn = []" "rn_device_ids rn = []"
  shows "prefix (outcome_labels (snd (prepare_and_play env opt rn))) (declared_labels (rv_rng env) (ro_scenario opt) (ro_seed opt))"
    and "fst (prepare_and_play env opt rn) = Inr u \<Longrightarrow>
      outcome_labels (snd (prepare_and_play env opt rn)) = declared_labels (rv_rng env) (ro_scenario opt) (ro_seed opt)"
proof -
  obtain r s where p: "prepare_devices env opt rn = (r, s)" by fastforce
  have "prepared rn (device_ids_of (ro_scenario opt)) (r, s)"
    using prepare_devices_prepared [of rn opt "[0 ..< scn_device_count (ro_scenario opt)]" env] p
    by (simp add: prepare_devices_def device_ids_of_def)
  with assms have s: "outcome_labels s = []" "r = Inr a \<Longrightarrow> rn_device_ids s = device_ids_of (ro_scenario opt)" for a
    by (simp_all add: prepared_def)
  then have a: "adds [] (device_ids_of (ro_scenario opt)) (declared_labels (rv_rng env) (ro_scenario opt) (ro_seed opt)) (play_events env opt s)"
    if "r = Inr x" for x using that by (intro play_events_labels)
  show "prefix (outcome_labels (snd (prepare_and_play env opt rn))) (declared_labels (rv_rng env) (ro_scenario opt) (ro_seed opt))"
    using p s(1) a by (cases r) (auto simp: prepare_and_play_def adds_def)
  show "outcome_labels (snd (prepare_and_play env opt rn)) = declared_labels (rv_rng env) (ro_scenario opt) (ro_seed opt)"
    if "fst (prepare_and_play env opt rn) = Inr u"
    using p s(1) a that by (cases r) (auto simp: prepare_and_play_def adds_def)
qed

end
