(* ===== verification/Run_Completion.thy ===== *)
theory Run_Completion
  imports Run_Labels
begin

text \<open>
  A run comes to its end. Under the shipped settings, with a source that answers, keys that can be read
  and a strategy of the configuration, a scenario that passes its checks and stays within the calendar is
  played to the last event: no operation of the controller raises. The operations are shown one by one to
  return from a state that is \<open>ready\<close> (every device registered with a key, an address in each domain and a
  current domain) and to leave a ready state, with a bound on the scenario clock: a clock that would pass
  the last \<open>datetime\<close> raises.
\<close>

section \<open>Ready states\<close>

definition ready :: "string \<Rightarrow> runner \<Rightarrow> bool" where
  "ready h rn \<longleftrightarrow> core_ok (shipped_settings h) (shipped_matrix h) rn
     \<and> (\<forall>d \<in> set (rn_device_ids rn). dget (rn_keys rn) d \<noteq> None \<and> dget (rn_current_domain rn) d \<noteq> None
          \<and> dget (rn_addresses rn) (d, NR) \<noteq> None \<and> dget (rn_addresses rn) (d, WLAN) \<noteq> None)"

text \<open>Ready, with these devices, and not past an instant.\<close>

definition ready_by :: "string \<Rightarrow> string list \<Rightarrow> instant \<Rightarrow> runner \<Rightarrow> bool" where
  "ready_by h ids t rn \<longleftrightarrow> ready h rn \<and> rn_device_ids rn = ids \<and> rn_now rn \<le> t"

text \<open>The operation returns, and leaves such a state.\<close>

definition returns :: "string \<Rightarrow> string list \<Rightarrow> instant \<Rightarrow> 'a result \<times> runner \<Rightarrow> bool" where
  "returns h ids t x \<longleftrightarrow> (\<exists>a. fst x = Inr a) \<and> ready_by h ids t (snd x)"

definition total_source :: "access_source \<Rightarrow> bool" where
  "total_source src \<longleftrightarrow> (\<forall>i dm. \<exists>a. acs_address src i dm = Inr a)
     \<and> (\<forall>d i t ov. \<exists>e. acs_nr_event src d i t ov = Inr e)
     \<and> (\<forall>d i t ov. \<exists>e. acs_wlan_event src d i t ov = Inr e)"

lemma fixture_total: "total_source (fixture_access fx)"
  by (simp add: total_source_def fixture_access_def)

lemma ready_by_later: "ready_by h ids t rn \<Longrightarrow> t \<le> t' \<Longrightarrow> ready_by h ids t' rn"
  by (simp add: ready_by_def)

lemma returns_later: "returns h ids t x \<Longrightarrow> t \<le> t' \<Longrightarrow> returns h ids t' x"
  by (auto simp: returns_def intro: ready_by_later)

lemma returns_then:
  assumes "returns h ids t x" "\<And>a s. ready_by h ids t s \<Longrightarrow> returns h ids t' (f a s)"
  shows "returns h ids t' (run_then x f)"
proof -
  obtain a s where "x = (Inr a, s)" using assms(1) by (cases x) (auto simp: returns_def)
  with assms show ?thesis by (simp add: returns_def)
qed

lemma returns_pure: "ready_by h ids t rn \<Longrightarrow> returns h ids t (Inr a, rn)"
  by (simp add: returns_def)

text \<open>A loop whose body moves the clock by at most \<open>c x\<close> for the element \<open>x\<close>.\<close>

lemma returns_for_each:
  assumes "\<And>x s t. x \<in> set xs \<Longrightarrow> ready_by h ids t s \<Longrightarrow> t + c x \<le> datetime_max \<Longrightarrow> returns h ids (t + c x) (body x s)"
    and "\<And>x. x \<in> set xs \<Longrightarrow> 0 \<le> c x"
    and "ready_by h ids t rn" "t + sum_list (map c xs) \<le> datetime_max"
  shows "returns h ids (t + sum_list (map c xs)) (for_each body xs rn)"
  using assms
proof (induction xs arbitrary: rn t)
  case Nil
  then show ?case by (simp add: returns_pure)
next
  case (Cons x xs)
  have "0 \<le> sum_list (map c xs)" using Cons.prems(2) by (intro sum_list_nonneg) auto
  then have b: "returns h ids (t + c x) (body x rn)" using Cons.prems by (intro Cons.prems(1)) auto
  have "returns h ids (t + c x + sum_list (map c xs)) (for_each body xs s)" if "ready_by h ids (t + c x) s" for s
    using Cons.prems(1,2,4) that by (intro Cons.IH) auto
  then show ?case by (auto simp: add.assoc intro: returns_then [OF b])
qed

corollary returns_for_each_even:
  assumes "\<And>x s t. x \<in> set xs \<Longrightarrow> ready_by h ids t s \<Longrightarrow> t + k \<le> datetime_max \<Longrightarrow> returns h ids (t + k) (body x s)"
    and "0 \<le> k" "ready_by h ids t rn" "t + int (length xs) * k \<le> datetime_max"
  shows "returns h ids (t + int (length xs) * k) (for_each body xs rn)"
  using returns_for_each [of xs h ids "\<lambda>_. k" body t rn] assms by (simp add: sum_list_triv)

section \<open>Steps that leave a ready state ready\<close>

lemma ready_frame:
  assumes "ready h rn" "core_ok (shipped_settings h) (shipped_matrix h) rn'"
    "rn_device_ids rn' = rn_device_ids rn" "rn_keys rn' = rn_keys rn" "rn_addresses rn' = rn_addresses rn"
    "\<And>d. dget (rn_current_domain rn) d \<noteq> None \<Longrightarrow> dget (rn_current_domain rn') d \<noteq> None"
  shows "ready h rn'"
  using assms by (auto simp: ready_def)

lemma ready_core: "ready h rn \<Longrightarrow> core_ok (shipped_settings h) (shipped_matrix h) rn"
  by (simp add: ready_def)

lemma ready_by_same [simp]:
  "ready_by h ids t (log_event kvs rn) = ready_by h ids t rn"
  "ready_by h ids t (with_metrics f rn) = ready_by h ids t rn"
  "ready_by h ids t (rn\<lparr>rn_drawn := k\<rparr>) = ready_by h ids t rn"
  "ready_by h ids t (record_outcome env opt d dm so rn) = ready_by h ids t rn"
  by (simp_all add: ready_by_def ready_def core_ok_def log_event_def with_metrics_def record_outcome_def Let_def)

lemma ready_by_score [simp]: "ready_by h ids t (Scenario_Runner.score ev dec rn) = ready_by h ids t rn"
  by (simp add: Scenario_Runner.score_def)

lemma ready_by_set_domain: "ready_by h ids t rn \<Longrightarrow> ready_by h ids t (set_domain d dm rn)"
  by (auto simp: ready_by_def ready_def core_ok_def set_domain_def)

lemma ready_by_step:
  assumes "ready_by h ids t rn" "run_step env opt rn rn'" "rn_device_ids rn' = rn_device_ids rn"
    "rn_keys rn' = rn_keys rn" "rn_addresses rn' = rn_addresses rn" "rn_current_domain rn' = rn_current_domain rn"
    "rn_clock rn' = rn_clock rn"
  shows "ready_by h ids t rn'"
proof -
  have r: "ready h rn" using assms(1) by (simp add: ready_by_def)
  have "ready h rn'" by (rule ready_frame [OF r core_step [OF assms(2) ready_core [OF r]]]) (simp_all add: assms)
  with assms show ?thesis by (simp add: ready_by_def)
qed

section \<open>Each operation returns\<close>

lemma index_from_found: "x \<in> set ys \<Longrightarrow> \<exists>i. index_from n ys x = Some i"
  by (induction ys arbitrary: n) auto

lemma py_index_found: "x \<in> set ys \<Longrightarrow> \<exists>i. py_index ys x = Inr i"
  using index_from_found [of x ys 0] by (auto simp: py_index_def)

lemma py_nth_found:
  assumes "- int (length xs) \<le> i" "i < int (length xs)"
  shows "\<exists>x \<in> set xs. py_nth xs i = Inr x"
  using assms by (auto simp: py_nth_def Let_def)

lemma lookup_key_found: "dget d k \<noteq> None \<Longrightarrow> \<exists>v. lookup_key d k = Inr v"
  by (auto simp: lookup_key_def)

lemma advance_returns:
  "ready_by h ids t rn \<Longrightarrow> 0 \<le> us \<Longrightarrow> t + us \<le> datetime_max \<Longrightarrow> returns h ids (t + us) (advance_clock us rn)"
  by (auto simp: advance_clock_def clock_advance_def returns_def ready_by_def ready_def core_ok_def)

lemma pause_returns:
  "ready_by h ids t rn \<Longrightarrow> 0 \<le> us \<Longrightarrow> t + us \<le> datetime_max \<Longrightarrow> returns h ids (t + us) (pause us rn)"
  by (simp add: pause_def advance_returns returns_pure)

lemma nr_ingest_total: "\<exists>b bs. nr_ingest cr co bid s (NrEvent e) = Inr (b, bs)"
  by (simp add: nr_ingest_def split: prod.split)

lemma wlan_ingest_total: "\<exists>b bs. wlan_ingest cr co bid s (WlanEvent e) = Inr (b, bs)"
  by (simp add: wlan_ingest_def split: prod.split)

lemma feed_returns:
  assumes "ready_by h ids t rn" "d \<in> set ids" "total_source (rv_source env)"
  shows "returns h ids t (feed_nr env d ov rn)" "returns h ids t (feed_wlan env d ov rn)" "returns h ids t (feed env dm d ov rn)"
proof -
  obtain i where i: "py_index (rn_device_ids rn) d = Inr i"
    using py_index_found [of d "rn_device_ids rn"] assms(1,2) by (auto simp: ready_by_def)
  obtain e w where ev: "acs_nr_event (rv_source env) d i (rn_now rn) ov = Inr e"
      "acs_wlan_event (rv_source env) d i (rn_now rn) ov = Inr w"
    using assms(3) by (meson total_source_def)
  show n: "returns h ids t (feed_nr env d ov rn)"
  proof -
    obtain b bs where "nr_ingest (rv_crypto env) (ap_nr_collector (rn_app rn)) (rv_binding_id env (rn_drawn rn))
        (sy_bindings (ap_services (rn_app rn))) (NrEvent e) = Inr (b, bs)" using nr_ingest_total by blast
    then have "\<exists>kvs f. feed_nr env d ov rn = (Inr (), log_event kvs (with_metrics f (store_bindings bs rn)))"
      using i ev by (auto simp: feed_nr_def)
    then show ?thesis
      using ready_by_step [OF assms(1) run_step.feed_nr [of env opt rn d ov]]
      by (auto simp: returns_def store_bindings_def log_event_def with_metrics_def)
  qed
  show w: "returns h ids t (feed_wlan env d ov rn)"
  proof -
    obtain b bs where "wlan_ingest (rv_crypto env) (ap_wlan_collector (rn_app rn)) (rv_binding_id env (rn_drawn rn))
        (sy_bindings (ap_services (rn_app rn))) (WlanEvent w) = Inr (b, bs)" using wlan_ingest_total by blast
    then have "\<exists>kvs f. feed_wlan env d ov rn = (Inr (), log_event kvs (with_metrics f (store_bindings bs rn)))"
      using i ev by (auto simp: feed_wlan_def)
    then show ?thesis
      using ready_by_step [OF assms(1) run_step.feed_wlan [of env opt rn d ov]]
      by (auto simp: returns_def store_bindings_def log_event_def with_metrics_def)
  qed
  show "returns h ids t (feed env dm d ov rn)" using n w by (simp add: feed_def)
qed

text \<open>The nonce just issued always decodes, so the device always signs.\<close>

lemma make_proof_returns:
  assumes "dget (rn_keys rn) d \<noteq> None"
  shows "\<exists>pf. fst (make_proof env d wp rn) = Inr pf"
proof -
  obtain kp where "lookup_key (rn_keys rn) d = Inr kp" using lookup_key_found [OF assms] by blast
  then show ?thesis
    by (simp add: make_proof_def issue_def Let_def device_proof_def sign_nonce_def b64url_decode_encode)
qed

definition known_strategy :: "string \<Rightarrow> bool" where
  "known_strategy n \<longleftrightarrow> n \<in> fst ` set shipped_strategies"

lemma known_strategy_found:
  assumes "known_strategy n"
  shows "\<exists>def. dget shipped_strategies n = Some def \<and> n \<noteq> [] \<and> 0 \<le> param_or ''proof_of_possession_ttl_s'' 300 def"
  using assms by (auto simp: known_strategy_def shipped_strategies_def param_or_def)

lemma take_decision_returns:
  assumes "core_ok (shipped_settings h) (shipped_matrix h) rn" "known_strategy (ro_strategy_name opt)"
  shows "\<exists>so. fst (take_decision env opt rq rn) = Inr so"
proof -
  have s: "sy_settings (ap_services (rn_app rn)) = shipped_settings h" "shipped h (ap_services (rn_app rn))"
    using assms(1) by (simp_all add: core_ok_def holds_matrix_def shipped_def)
  obtain def where def: "dget shipped_strategies (ro_strategy_name opt) = Some def" "ro_strategy_name opt \<noteq> []"
      "0 \<le> param_or ''proof_of_possession_ttl_s'' 300 def"
    using known_strategy_found [OF assms(2)] by blast
  then have a: "app_strategy (rn_app rn) (Some (ro_strategy_name opt)) = Inr def"
    by (simp add: app_strategy_def s(1)) (simp add: shipped_settings_def)
  have "\<exists>so. fst (decide_and_enforce (rv_crypto env) def ad ex (rn_app rn) rq) = Inr so" for ad ex
    using shipped_decide_total [OF s(2) def(3)] by (simp add: decide_and_enforce_result run_strategy_eq Let_def)
  then show ?thesis by (simp add: take_decision_def a prod.case_eq_if)
qed

lemma run_decide_result:
  assumes "ready h rn" "d \<in> set (rn_device_ids rn)" "known_strategy (ro_strategy_name opt)"
  shows "\<exists>dec. fst (run_decide env opt d wp ses peer rn) = Inr dec"
proof -
  have k: "dget (rn_keys rn) d \<noteq> None" "dget (rn_current_domain rn) d \<noteq> None"
      "dget (rn_addresses rn) (d, NR) \<noteq> None" "dget (rn_addresses rn) (d, WLAN) \<noteq> None"
    using assms(1,2) by (auto simp: ready_def)
  obtain dm where dm: "lookup_key (rn_current_domain rn) d = Inr dm" using lookup_key_found [OF k(2)] by blast
  have "\<exists>a. lookup_key (rn_addresses rn) (d, dm) = Inr a"
    using lookup_key_found [OF k(3)] lookup_key_found [OF k(4)] by (cases dm) simp_all
  then obtain a where a: "(case peer of Some (c # cs) \<Rightarrow> Inr (c # cs) | _ \<Rightarrow> lookup_key (rn_addresses rn) (d, dm)) = Inr a"
    by (cases peer; cases "the peer") auto
  obtain pf rn1 where mp: "make_proof env d wp rn = (Inr pf, rn1)"
    using make_proof_returns [OF k(1), of env wp] by (metis prod.collapse)
  have "core_ok (shipped_settings h) (shipped_matrix h) rn1"
    using make_proof_core [OF ready_core [OF assms(1)], of env d wp] mp by simp
  then obtain so rn2 where "take_decision env opt \<lparr>rq_device_id = d, rq_peer_address = a, rq_domain = dm,
      rq_session_identity = (case ses of Some s \<Rightarrow> Some s | None \<Rightarrow> Some d), rq_proof = pf,
      rq_resource = None, rq_at = Some (rn_now rn1)\<rparr> rn1 = (Inr so, rn2)"
    using take_decision_returns [OF _ assms(3)] by (metis prod.collapse)
  with dm a mp show ?thesis by (simp add: run_decide_def)
qed

lemma run_decide_frame:
  "rn_device_ids (snd (run_decide env opt d wp ses peer rn)) = rn_device_ids rn"
  "rn_keys (snd (run_decide env opt d wp ses peer rn)) = rn_keys rn"
  "rn_addresses (snd (run_decide env opt d wp ses peer rn)) = rn_addresses rn"
  "rn_current_domain (snd (run_decide env opt d wp ses peer rn)) = rn_current_domain rn"
  "rn_clock (snd (run_decide env opt d wp ses peer rn)) = rn_clock rn"
  by (cases rule: run_decide_cases [of env opt d wp ses peer rn]; simp add: record_outcome_def Let_def)+

text \<open>What the operations of a run need of its environment.\<close>

definition equipped :: "('k, 'g) run_env \<Rightarrow> run_options \<Rightarrow> bool" where
  "equipped env opt \<longleftrightarrow> total_source (rv_source env) \<and> known_strategy (ro_strategy_name opt)"

lemma decide_returns:
  assumes "ready_by h ids t rn" "d \<in> set ids" "equipped env opt"
  shows "returns h ids t (run_decide env opt d wp ses peer rn)"
proof -
  have "\<exists>dec. fst (run_decide env opt d wp ses peer rn) = Inr dec"
    using assms by (intro run_decide_result) (auto simp: ready_by_def equipped_def)
  with ready_by_step [OF assms(1) run_step.decide, of env opt d wp ses peer] show ?thesis
    by (simp add: returns_def run_decide_frame)
qed

lemma decide_and_log_returns:
  assumes "ready_by h ids t rn" "d \<in> set ids" "equipped env opt"
  shows "returns h ids t (decide_and_log env opt d ses peer entry rn)"
  unfolding decide_and_log_def by (rule returns_then [OF decide_returns [OF assms]]) (simp add: returns_pure)

lemma feeding_returns:
  assumes "ready_by h ids t rn" "d \<in> set ids" "equipped env opt"
  shows "returns h ids t (feed_nr env d ov rn)" "returns h ids t (feed_wlan env d ov rn)"
    "returns h ids t (feed env dm d ov rn)"
  using assms(3) by (simp_all add: equipped_def feed_returns [OF assms(1,2)])

lemma count_ready:
  assumes "ready_by h ids t rn"
  shows "ready_by h ids t (snd (count_transitions d rn))"
  by (rule ready_by_step [OF assms run_step.count]) (simp_all add: count_transitions_def prod.case_eq_if)

section \<open>Each event is played to its end\<close>

lemmas returning = returns_pure returns_then feeding_returns decide_returns decide_and_log_returns
  advance_returns pause_returns ready_by_set_domain count_ready

text \<open>The device of an event is known: it has a domain and an address in it.\<close>

lemma device_known:
  assumes "ready_by h ids t rn" "d \<in> set ids"
  obtains dm a where "lookup_key (rn_current_domain rn) d = Inr dm" "lookup_key (rn_addresses rn) (d, dm) = Inr a"
proof -
  have k: "dget (rn_current_domain rn) d \<noteq> None"
      "dget (rn_addresses rn) (d, NR) \<noteq> None" "dget (rn_addresses rn) (d, WLAN) \<noteq> None"
    using assms by (auto simp: ready_by_def ready_def)
  obtain dm where dm: "lookup_key (rn_current_domain rn) d = Inr dm" using lookup_key_found [OF k(1)] by blast
  obtain a where "lookup_key (rn_addresses rn) (d, dm) = Inr a"
    using lookup_key_found [OF k(2)] lookup_key_found [OF k(3)] by (cases dm) auto
  with dm show ?thesis by (rule that)
qed

lemma play_timed_returns:
  assumes "ready_by h ids t rn" "0 \<le> sev_advance ev" "t + sev_advance ev \<le> datetime_max"
  shows "returns h ids (t + sev_advance ev) (play_advance ev rn)" "returns h ids (t + sev_advance ev) (play_stale d ev rn)"
  unfolding play_advance_def play_stale_def
  by (rule returns_then [OF advance_returns [OF assms]]; simp add: returns_pure)+

lemma play_identity_mismatch_returns:
  assumes "ready_by h ids t rn" "d \<in> set ids" "equipped env opt"
    and "sev_other_device_index ev = Some i" "i < length ids"
  shows "returns h ids t (play_identity_mismatch env opt d ev rn)"
proof -
  obtain other where other: "py_nth ids (int i) = Inr other" "other \<in> set ids"
    using py_nth_found [of ids "int i"] assms(5) by auto
  obtain dm a where k: "lookup_key (rn_current_domain rn) d = Inr dm" "lookup_key (rn_addresses rn) (d, dm) = Inr a"
    by (rule device_known [OF assms(1,2)])
  have ids: "rn_device_ids rn = ids" using assms(1) by (simp add: ready_by_def)
  show ?thesis
    unfolding play_identity_mismatch_def assms(4)
    by (simp add: ids other k) (rule returns_then [OF decide_and_log_returns [OF assms(1) other(2) assms(3)]], simp add: returns_pure)
qed

lemma play_contexts_return:
  assumes "ready_by h ids t rn" "d \<in> set ids" "equipped env opt"
  shows "returns h ids t (play_unauthorized_context env opt d ev rn)"
    "returns h ids t (play_session_mismatch env opt d ev rn)"
    "returns h ids t (play_transition env opt d ev rn)" "returns h ids t (play_decision env opt d ev rn)"
proof -
  note dec = decide_and_log_returns [OF _ assms(2,3)] decide_returns [OF _ assms(2,3)]
  note feeds = feeding_returns [OF assms]
  show "returns h ids t (play_unauthorized_context env opt d ev rn)"
    unfolding play_unauthorized_context_def Let_def
    by (rule returns_then [OF feeds(3)], rule returns_then [where t = t, OF dec(1)])
      (auto intro!: returns_pure ready_by_set_domain)
  show "returns h ids t (play_session_mismatch env opt d ev rn)"
    unfolding play_session_mismatch_def by (rule returns_then [OF dec(1) [OF assms(1)]]) (simp add: returns_pure)
  obtain dm a where k: "lookup_key (rn_current_domain rn) d = Inr dm" "lookup_key (rn_addresses rn) (d, dm) = Inr a"
    by (rule device_known [OF assms(1,2)])
  show "returns h ids t (play_transition env opt d ev rn)"
    unfolding play_transition_def Let_def k(1) run_then_simps
    by (rule returns_then [OF dec(2) [OF ready_by_set_domain [OF assms(1)]]]) (simp add: returns_pure)
  show "returns h ids t (play_decision env opt d ev rn)"
    unfolding play_decision_def by (rule returns_then [OF dec(2) [OF assms(1)]]) (simp add: returns_pure)
qed

lemma rapid_step_returns:
  assumes "ready_by h ids t rn" "d \<in> set ids" "equipped env opt" "0 \<le> sev_interval ev" "t + sev_interval ev \<le> datetime_max"
  shows "returns h ids (t + sev_interval ev) (rapid_step env opt d ev i rn)"
  unfolding rapid_step_def prod.case_eq_if
  by (rule returns_then [OF feeding_returns(3) [OF assms(1-3)]],
      rule returns_then [OF decide_returns [OF ready_by_set_domain assms(2,3)]], assumption,
      rule returns_then [OF pause_returns [where t = t]])
    (auto simp: assms(4,5) intro!: count_ready returns_pure)

lemma rapid_loop_returns:
  assumes "d \<in> set ids" "equipped env opt" "0 \<le> sev_interval ev"
    and "ready_by h ids t rn" "t + int (length is) * sev_interval ev \<le> datetime_max"
  shows "returns h ids (t + int (length is) * sev_interval ev) (rapid_loop env opt d ev is od rn)"
  using assms(4,5)
proof (induction "is" arbitrary: rn od t)
  case (Cons i "is")
  have e: "t + int (length (i # is)) * sev_interval ev = t + sev_interval ev + int (length is) * sev_interval ev"
    by (simp add: algebra_simps)
  have b: "returns h ids (t + sev_interval ev) (rapid_step env opt d ev i rn)"
  proof (rule rapid_step_returns [OF Cons.prems(1) assms(1-3)])
    have "0 \<le> int (length is) * sev_interval ev" using assms(3) by simp
    then show "t + sev_interval ev \<le> datetime_max" using Cons.prems(2) unfolding e by linarith
  qed
  show ?case unfolding e rapid_loop.simps by (rule returns_then [OF b], rule Cons.IH) (use Cons.prems(2) e in simp_all)
qed (simp add: returns_pure)

lemma play_rapid_transitions_returns:
  assumes "ready_by h ids t rn" "d \<in> set ids" "equipped env opt" "0 \<le> sev_interval ev"
    and "t + int (sev_repeat ev) * sev_interval ev \<le> datetime_max"
  shows "returns h ids (t + int (sev_repeat ev) * sev_interval ev) (play_rapid_transitions env opt d ev rn)"
  unfolding play_rapid_transitions_def
  using rapid_loop_returns [OF assms(2-4,1), of "[0 ..< sev_repeat ev]" None] assms(5)
  by (auto intro!: returns_then returns_pure split: option.split)

lemma ready_app_steps:
  assumes "ready_by h ids t rn"
  shows "ready_by h ids t (rn\<lparr>rn_app := (rn_app rn)\<lparr>ap_pep := snd (check now (ap_pep (rn_app rn)) rq)\<rparr>\<rparr>)"
    "ready_by h ids t (rn\<lparr>rn_app := (rn_app rn)\<lparr>ap_pep := revoke (ap_pep (rn_app rn)) d\<rparr>\<rparr>)"
    "ready_by h ids t (rn\<lparr>rn_app := (rn_app rn)\<lparr>ap_nr_collector := set_available (ap_nr_collector (rn_app rn)) v\<rparr>\<rparr>)"
    "ready_by h ids t (rn\<lparr>rn_app := (rn_app rn)\<lparr>ap_wlan_collector := set_available (ap_wlan_collector (rn_app rn)) v\<rparr>\<rparr>)"
  by (rule ready_by_step [OF assms run_step.check] ready_by_step [OF assms run_step.revoke]
      ready_by_step [OF assms run_step.switch_nr] ready_by_step [OF assms run_step.switch_wlan]; simp)+

lemma play_gateway_returns:
  assumes "ready_by h ids t rn"
  shows "returns h ids t (play_operation d ev rn)" "returns h ids t (play_disconnect d rn)"
    "returns h ids t (play_availability v kind ev rn)"
  using ready_app_steps [OF assms]
  by (auto simp: play_operation_def play_disconnect_def play_availability_def prod.case_eq_if Let_def
      intro!: returns_pure)

text \<open>The members of an event over several devices.\<close>

definition range_playable :: "run_options \<Rightarrow> scenario_event \<Rightarrow> bool" where
  "range_playable opt ev \<longleftrightarrow> - int (scn_device_count (ro_scenario opt)) \<le> fst (member_range (ro_scenario opt) ev)"

lemma member_found:
  assumes "range_playable opt ev" "length ids = scn_device_count (ro_scenario opt)"
    and "i \<in> set (member_indices (ro_scenario opt) ev (length ids))"
  shows "\<exists>m \<in> set ids. py_nth ids i = Inr m"
  using assms by (intro py_nth_found) (auto simp: range_playable_def member_indices_def)

lemma concurrent_step_returns:
  assumes "ready_by h ids t rn" "equipped env opt" "0 \<le> sev_interval ev" "t + sev_interval ev \<le> datetime_max"
    "py_nth ids i = Inr m" "m \<in> set ids"
  shows "returns h ids (t + sev_interval ev) (concurrent_step env opt ev i rn)"
proof -
  have ids: "rn_device_ids rn = ids" using assms(1) by (simp add: ready_by_def)
  show ?thesis
    unfolding concurrent_step_def Let_def ids assms(5) run_then_simps
    by (rule returns_then [OF feeding_returns(3) [OF assms(1,6,2)]],
        rule returns_then [OF decide_and_log_returns [OF ready_by_set_domain assms(6,2)]])
      (auto simp: assms(3,4) intro!: pause_returns)
qed

lemma sweep_interval_nonneg: "0 \<le> sev_interval ev \<Longrightarrow> 0 \<le> sweep_interval ev"
  by (simp add: sweep_interval_def seconds_def)

lemma sweep_step_returns:
  assumes "ready_by h ids t rn" "equipped env opt" "0 \<le> sev_interval ev" "t + sweep_interval ev \<le> datetime_max"
    "py_nth ids i = Inr m" "m \<in> set ids"
  shows "returns h ids (t + sweep_interval ev) (sweep_step env opt ev i rn)"
proof -
  have ids: "rn_device_ids rn = ids" using assms(1) by (simp add: ready_by_def)
  show ?thesis
    unfolding sweep_step_def ids assms(5) run_then_simps
    by (rule returns_then [OF feeding_returns(1) [OF assms(1,6,2)]],
        rule returns_then [OF decide_returns [OF ready_by_set_domain assms(6,2)]], assumption,
        rule returns_then [OF advance_returns [OF _ sweep_interval_nonneg [OF assms(3)] assms(4)]], assumption,
        rule returns_then [OF feeding_returns(2) [OF _ assms(6,2)]], assumption,
        rule returns_then [OF decide_and_log_returns [OF ready_by_set_domain assms(6,2)]])
      (auto intro!: returns_pure)
qed

lemma play_members_return:
  assumes "ready_by h ids t rn" "equipped env opt" "0 \<le> sev_interval ev"
    "range_playable opt ev" "length ids = scn_device_count (ro_scenario opt)"
  defines "n \<equiv> int (length (member_indices (ro_scenario opt) ev (length ids)))"
  shows "t + n * sev_interval ev \<le> datetime_max \<Longrightarrow>
      returns h ids (t + n * sev_interval ev) (play_concurrent_transition env opt ev rn)"
    "t + n * sweep_interval ev \<le> datetime_max \<Longrightarrow>
      returns h ids (t + n * sweep_interval ev) (play_device_sweep env opt ev rn)"
proof -
  have ids: "rn_device_ids rn = ids" using assms(1) by (simp add: ready_by_def)
  note found = member_found [OF assms(4,5)]
  show "returns h ids (t + n * sev_interval ev) (play_concurrent_transition env opt ev rn)"
    if "t + n * sev_interval ev \<le> datetime_max"
    unfolding play_concurrent_transition_def ids n_def
    by (rule returns_for_each_even [OF _ assms(3,1) that [unfolded n_def]])
      (use found concurrent_step_returns [OF _ assms(2,3)] in blast)
  show "returns h ids (t + n * sweep_interval ev) (play_device_sweep env opt ev rn)"
    if "t + n * sweep_interval ev \<le> datetime_max"
    unfolding play_device_sweep_def ids n_def
    by (rule returns_then [OF returns_for_each_even
            [OF _ sweep_interval_nonneg [OF assms(3)] assms(1) that [unfolded n_def]]])
      (use found sweep_step_returns [OF _ assms(2,3)] in \<open>blast, simp add: returns_pure\<close>)
qed

section \<open>The mixed workload\<close>

lemma length_build_plan: "length (build_plan rg f kinds legit adv is g) = length is"
  by (induction "is" arbitrary: g) (simp_all split: prod.split)

lemma length_workload_plan: "length (workload_plan rg seed ids ev) = sev_repeat ev"
  by (simp add: workload_plan_def Let_def length_build_plan)

lemma build_plan_members:
  assumes "legit \<noteq> []" "adv \<noteq> []" "p \<in> set (build_plan rg f kinds legit adv is g)"
  shows "pe_device_id p \<in> set legit \<union> set adv"
  using assms(3)
proof (induction "is" arbitrary: g)
  case (Cons i "is")
  obtain x g1 where "rg_random rg g = (x, g1)" by fastforce
  moreover obtain j g2 where "rg_below rg (length kinds) g1 = (j, g2)" by fastforce
  ultimately show ?case using Cons assms(1,2) by (auto split: if_splits)
qed simp

lemma cohorts_nonempty:
  assumes "ids \<noteq> []"
  shows "legitimate_cohort ids f \<noteq> []" "adversarial_cohort ids f \<noteq> []"
    "set (legitimate_cohort ids f) \<subseteq> set ids" "set (adversarial_cohort ids f) \<subseteq> set ids"
proof -
  have "1 \<le> cohort_size (length ids) f" by (simp add: cohort_size_def)
  then have "length ids - cohort_size (length ids) f < length ids" using assms by (cases ids) auto
  then show "adversarial_cohort ids f \<noteq> []" by (simp add: adversarial_cohort_def)
  show "legitimate_cohort ids f \<noteq> []" using assms by (simp add: legitimate_cohort_def Let_def)
  show "set (legitimate_cohort ids f) \<subseteq> set ids"
    by (auto simp: legitimate_cohort_def Let_def dest: in_set_takeD)
  show "set (adversarial_cohort ids f) \<subseteq> set ids"
    by (auto simp: adversarial_cohort_def dest: in_set_dropD)
qed

lemma workload_plan_members:
  assumes "ids \<noteq> []" "p \<in> set (workload_plan rg seed ids ev)"
  shows "pe_device_id p \<in> set ids"
proof -
  note c = cohorts_nonempty [OF assms(1), of "workload_fraction ev"]
  have "pe_device_id p \<in> set (legitimate_cohort ids (workload_fraction ev)) \<union> set (adversarial_cohort ids (workload_fraction ev))"
    using assms(2) unfolding workload_plan_def Let_def by (rule build_plan_members [OF c(1,2)])
  then show ?thesis using c(3,4) by blast
qed

lemma burst_step_returns:
  assumes "ready_by h ids t rn" "m \<in> set ids" "equipped env opt" "t + seconds 1 \<le> datetime_max"
  shows "returns h ids (t + seconds 1) (burst_step env m i rn)"
  unfolding burst_step_def
  by (rule returns_then [OF feeding_returns(3) [OF assms(1-3)]], rule advance_returns [OF ready_by_set_domain])
    (assumption, simp add: seconds_def, rule assms(4))

text \<open>The most an entry moves the clock: ageing past the freshness bound, or a burst over the rate limit.\<close>

definition workload_reach :: "settings \<Rightarrow> int" where
  "workload_reach s =
     max (seconds (es_binding_freshness_max_s (st_evidence s) + 5))
       (int (nat (ts_max_transitions_per_window (st_transition s) + 2)) * seconds 1)"

lemma workload_reach_bounds:
  "seconds (es_binding_freshness_max_s (st_evidence s) + 5) \<le> workload_reach s"
  "int (nat (ts_max_transitions_per_window (st_transition s) + 2)) * seconds 1 \<le> workload_reach s"
  "0 \<le> workload_reach s"
proof -
  show b: "seconds (es_binding_freshness_max_s (st_evidence s) + 5) \<le> workload_reach s"
    "int (nat (ts_max_transitions_per_window (st_transition s) + 2)) * seconds 1 \<le> workload_reach s"
    by (simp_all add: workload_reach_def)
  have "0 \<le> int (nat (ts_max_transitions_per_window (st_transition s) + 2)) * seconds 1" by (simp add: seconds_def)
  with b(2) show "0 \<le> workload_reach s" by linarith
qed

lemma entry_decision_returns:
  assumes "ready_by h ids t rn" "pe_device_id p \<in> set ids" "equipped env opt"
    and "legit \<noteq> []" "set legit \<subseteq> set ids" "t + workload_reach (shipped_settings h) \<le> datetime_max"
  shows "returns h ids (t + workload_reach (shipped_settings h)) (entry_decision env opt legit p rn)"
proof -
  let ?s = "shipped_settings h" and ?m = "pe_device_id p"
  have s: "sy_settings (ap_services (rn_app rn)) = ?s"
    using assms(1) by (simp add: ready_by_def ready_def core_ok_def holds_matrix_def)
  note w = workload_reach_bounds [of ?s]
  note decides = decide_returns [OF _ assms(2,3)]
  have dec: "returns h ids (t + workload_reach ?s) (run_decide env opt ?m wp ses peer g)"
    if "ready_by h ids t g" for wp ses peer g
    by (rule returns_later [OF decides [OF that]]) (simp add: w(3))
  have legitimate: "returns h ids (t + workload_reach ?s) (run_then (feed env dm ?m [] rn) (\<lambda>_ rn.
      run_decide env opt ?m True None None (set_domain ?m dm rn)))" for dm
    by (rule returns_then [OF feeding_returns(3) [OF assms(1-3)]]) (simp add: dec ready_by_set_domain)
  have stale: "returns h ids (t + workload_reach ?s)
      (run_then (advance_clock (seconds (es_binding_freshness_max_s (st_evidence ?s) + 5)) rn) (\<lambda>_ rn.
        run_decide env opt ?m False None None rn))"
  proof (rule returns_then [OF advance_returns [OF assms(1)]])
    show "0 \<le> seconds (es_binding_freshness_max_s (st_evidence ?s) + 5)" by (simp add: shipped_settings_def seconds_def)
    show "t + seconds (es_binding_freshness_max_s (st_evidence ?s) + 5) \<le> datetime_max" using w(1) assms(6) by linarith
  next
    fix g assume "ready_by h ids (t + seconds (es_binding_freshness_max_s (st_evidence ?s) + 5)) g"
    from returns_later [OF decides [OF this]] w(1)
    show "returns h ids (t + workload_reach ?s) (run_decide env opt ?m False None None g)" by simp
  qed
  have claims: "returns h ids (t + workload_reach ?s) (run_then (lookup_key (rn_current_domain rn) v, rn) (\<lambda>dm rn.
      run_then (lookup_key (rn_addresses rn) (v, dm), rn) (\<lambda>claimed rn.
        run_decide env opt ?m True None (Some claimed) rn)))" if v: "v \<in> set ids" for v
  proof -
    obtain dm a where "lookup_key (rn_current_domain rn) v = Inr dm" "lookup_key (rn_addresses rn) (v, dm) = Inr a"
      by (rule device_known [OF assms(1) v])
    then show ?thesis by (simp add: dec assms(1))
  qed
  have opens: "returns h ids (t + workload_reach ?s) (run_then (feed_wlan env ?m ov rn) (\<lambda>_ rn.
      run_decide env opt ?m True None None (set_domain ?m WLAN rn)))" for ov
    by (rule returns_then [OF feeding_returns(2) [OF assms(1-3)]]) (simp add: dec ready_by_set_domain)
  have bursts: "returns h ids (t + workload_reach ?s) (run_then (for_each (burst_step env ?m)
      [0 ..< nat (ts_max_transitions_per_window (st_transition ?s) + 2)] rn) (\<lambda>_ rn.
        run_decide env opt ?m True None None rn))"
  proof (rule returns_then [OF returns_for_each_even [OF _ _ assms(1)]])
    show "returns h ids (t' + seconds 1) (burst_step env ?m x g)"
      if "ready_by h ids t' g" "t' + seconds 1 \<le> datetime_max" for x g t'
      by (rule burst_step_returns [OF that(1) assms(2,3) that(2)])
    show "t + int (length [0 ..< nat (ts_max_transitions_per_window (st_transition ?s) + 2)]) * seconds 1 \<le> datetime_max"
      using w(2) assms(6) by simp
    show "0 \<le> seconds 1" by (simp add: seconds_def)
  next
    fix g assume "ready_by h ids (t + int (length [0 ..< nat (ts_max_transitions_per_window (st_transition ?s) + 2)]) * seconds 1) g"
    from returns_later [OF decides [OF this]] w(2)
    show "returns h ids (t + workload_reach ?s) (run_decide env opt ?m True None None g)" by simp
  qed
  have "legit ! (pe_index p mod length legit) \<in> set ids" using assms(4,5) by auto
  note parts = legitimate stale claims [OF this] opens bursts dec [OF assms(1)]
  show ?thesis unfolding entry_decision_def Let_def s using parts by (simp only: split: if_split) blast
qed

lemma play_entry_returns:
  assumes "ready_by h ids t rn" "pe_device_id p \<in> set ids" "equipped env opt"
    and "legit \<noteq> []" "set legit \<subseteq> set ids" "0 \<le> sev_interval ev"
    and "t + (workload_reach (shipped_settings h) + sev_interval ev) \<le> datetime_max"
  shows "returns h ids (t + (workload_reach (shipped_settings h) + sev_interval ev)) (play_entry env opt ev legit p rn)"
proof -
  have d: "returns h ids (t + workload_reach (shipped_settings h)) (entry_decision env opt legit p rn)"
    using assms(6,7) by (intro entry_decision_returns [OF assms(1-5)]) linarith
  show ?thesis
    unfolding play_entry_def add.assoc [symmetric]
    by (rule returns_then [OF d], rule pause_returns) (use assms(6,7) in \<open>simp_all add: add.assoc\<close>)
qed

lemma play_mixed_workload_returns:
  assumes "ready_by h ids t rn" "ids \<noteq> []" "equipped env opt" "0 \<le> sev_interval ev"
    and "t + int (sev_repeat ev) * (workload_reach (shipped_settings h) + sev_interval ev) \<le> datetime_max"
  shows "returns h ids (t + int (sev_repeat ev) * (workload_reach (shipped_settings h) + sev_interval ev))
    (play_mixed_workload env opt ev rn)"
proof -
  have ids: "rn_device_ids rn = ids" using assms(1) by (simp add: ready_by_def)
  let ?k = "workload_reach (shipped_settings h) + sev_interval ev"
  let ?plan = "workload_plan (rv_rng env) (ro_seed opt) ids ev"
  have b: "returns h ids (t' + ?k) (play_entry env opt ev (legitimate_cohort ids (workload_fraction ev)) p s)"
    if "p \<in> set ?plan" "ready_by h ids t' s" "t' + ?k \<le> datetime_max" for p s t'
    using cohorts_nonempty [OF assms(2), of "workload_fraction ev"] workload_plan_members [OF assms(2) that(1)] that
    by (intro play_entry_returns assms(3,4))
  have k: "0 \<le> ?k" using workload_reach_bounds(3) [of "shipped_settings h"] assms(4) by simp
  show ?thesis
    using returns_for_each_even [of ?plan h ids ?k "play_entry env opt ev (legitimate_cohort ids (workload_fraction ev))",
        OF b k, of t "log_event (plan_row (ro_seed opt) ids ev ?plan (rn_now rn)) rn"] assms(1,5)
    unfolding play_mixed_workload_def Let_def ids by (simp add: length_workload_plan)
qed

section \<open>A run\<close>

definition playable :: "run_options \<Rightarrow> scenario_event \<Rightarrow> bool" where
  "playable opt ev \<longleftrightarrow> 0 \<le> sev_advance ev \<and> 0 \<le> sev_interval ev
     \<and> (sev_kind ev = IDENTITY_MISMATCH \<longrightarrow>
          (\<exists>i. sev_other_device_index ev = Some i \<and> i < scn_device_count (ro_scenario opt)))
     \<and> (sev_kind ev \<in> {CONCURRENT_TRANSITION, DEVICE_SWEEP} \<longrightarrow> range_playable opt ev)"

text \<open>
  How far an event moves the scenario clock, at most, and how far a scenario does. A run fits the calendar
  when it ends a day before the last \<open>datetime\<close>, so that no expiry of a nonce, a proof, a token or a decision
  given in it lies past that either.
\<close>

definition event_reach :: "settings \<Rightarrow> scenario \<Rightarrow> scenario_event \<Rightarrow> int" where
  "event_reach s sc ev =
     (let members = int (length (member_indices sc ev (scn_device_count sc)))
      in case sev_kind ev of
           ADVANCE_TIME \<Rightarrow> sev_advance ev
         | STALE_EVIDENCE \<Rightarrow> sev_advance ev
         | RAPID_TRANSITIONS \<Rightarrow> int (sev_repeat ev) * sev_interval ev
         | CONCURRENT_TRANSITION \<Rightarrow> members * sev_interval ev
         | DEVICE_SWEEP \<Rightarrow> members * sweep_interval ev
         | MIXED_WORKLOAD \<Rightarrow> int (sev_repeat ev) * (workload_reach s + sev_interval ev)
         | _ \<Rightarrow> 0)"

definition scenario_reach :: "settings \<Rightarrow> scenario \<Rightarrow> int" where
  "scenario_reach s sc = sum_list (map (event_reach s sc) (scn_event_sequence sc))"

definition fits_calendar :: "settings \<Rightarrow> run_options \<Rightarrow> bool" where
  "fits_calendar s opt \<longleftrightarrow>
     fc_now (run_clock opt) + scenario_reach s (ro_scenario opt) + seconds 86400 \<le> datetime_max"

lemma shipped_workload_reach:
  "workload_reach (shipped_settings h) = workload_reach (shipped_settings h')"
  by (simp add: workload_reach_def shipped_settings_def)

lemma shipped_reach: "scenario_reach (shipped_settings h) sc = scenario_reach (shipped_settings h') sc"
proof -
  have "event_reach (shipped_settings h) sc = event_reach (shipped_settings h') sc"
    unfolding event_reach_def shipped_workload_reach [of h h'] by (rule refl)
  then show ?thesis by (simp add: scenario_reach_def)
qed

lemma event_reach_nonneg:
  assumes "playable opt ev"
  shows "0 \<le> event_reach s sc ev"
  using assms workload_reach_bounds(3) [of s] sweep_interval_nonneg [of ev]
  by (cases "sev_kind ev") (simp_all add: event_reach_def playable_def Let_def)

lemma play_event_returns:
  assumes "ready_by h ids t rn" "length ids = scn_device_count (ro_scenario opt)" "ids \<noteq> []"
    "equipped env opt" "playable opt ev" "t + event_reach (shipped_settings h) (ro_scenario opt) ev \<le> datetime_max"
  shows "returns h ids (t + event_reach (shipped_settings h) (ro_scenario opt) ev) (play_event env opt ev rn)"
proof -
  have ids: "rn_device_ids rn = ids" using assms(1) by (simp add: ready_by_def)
  have n: "0 < length ids" using assms(3) by simp
  obtain d where d: "py_nth ids (min (int (sev_device_index ev)) (int (length ids) - 1)) = Inr d" "d \<in> set ids"
    using py_nth_found [of ids "min (int (sev_device_index ev)) (int (length ids) - 1)"] n by force
  have p: "0 \<le> sev_advance ev" "0 \<le> sev_interval ev" using assms(5) by (simp_all add: playable_def)
  note r = assms(6) [unfolded event_reach_def Let_def]
  note f = play_timed_returns [OF assms(1) p(1)] play_contexts_return [OF assms(1) d(2) assms(4)]
    feeding_returns [OF assms(1) d(2) assms(4)] play_gateway_returns [OF assms(1)]
    play_rapid_transitions_returns [OF assms(1) d(2) assms(4) p(2)]
    play_mixed_workload_returns [OF assms(1,3,4) p(2)]
  have i: "returns h ids t (play_identity_mismatch env opt d ev rn)" if "sev_kind ev = IDENTITY_MISMATCH"
    using assms(2,5) that play_identity_mismatch_returns [OF assms(1) d(2) assms(4)] by (auto simp: playable_def)
  have m: "range_playable opt ev" if "sev_kind ev \<in> {CONCURRENT_TRANSITION, DEVICE_SWEEP}"
    using assms(5) that by (auto simp: playable_def)
  note ms = play_members_return [OF assms(1,4) p(2) m assms(2), unfolded assms(2)]
  show ?thesis
    unfolding play_event_def ids d(1) run_then_simps event_reach_def Let_def
    using r by (cases "sev_kind ev") (simp_all add: f i ms)
qed

lemma play_events_return:
  assumes "ready_by h ids t rn" "length ids = scn_device_count (ro_scenario opt)" "ids \<noteq> []"
    "equipped env opt" "list_all (playable opt) (scn_event_sequence (ro_scenario opt))"
    "t + scenario_reach (shipped_settings h) (ro_scenario opt) \<le> datetime_max"
  shows "returns h ids (t + scenario_reach (shipped_settings h) (ro_scenario opt)) (play_events env opt rn)"
  unfolding play_events_def scenario_reach_def
proof (rule returns_for_each [OF _ _ assms(1) assms(6) [unfolded scenario_reach_def]])
  show "0 \<le> event_reach (shipped_settings h) (ro_scenario opt) ev" if "ev \<in> set (scn_event_sequence (ro_scenario opt))" for ev
    using assms(5) that by (auto simp: list_all_iff intro: event_reach_nonneg)
  show "returns h ids (t' + event_reach (shipped_settings h) (ro_scenario opt) ev) (play_event env opt ev s)"
    if "ev \<in> set (scn_event_sequence (ro_scenario opt))" "ready_by h ids t' s"
      "t' + event_reach (shipped_settings h) (ro_scenario opt) ev \<le> datetime_max" for ev s t'
    using that assms(5) by (intro play_event_returns assms(2-4)) (auto simp: list_all_iff)
qed

section \<open>Preparing the devices\<close>

lemma digits_value_zeros: "digits_value (replicate k (CHR ''0'') @ s) = digits_value s"
proof (induction k)
  case (Suc k)
  have "digits_value (CHR ''0'' # s') = digits_value s'" for s' by (simp add: digits_value_def)
  with Suc show ?case by simp
qed simp

lemma device_id_inject: "scenario_device_id s i = scenario_device_id s j \<longleftrightarrow> i = j"
proof
  assume "scenario_device_id s i = scenario_device_id s j"
  then have "digits_value (pad_left 4 (show_nat i)) = digits_value (pad_left 4 (show_nat j))"
    by (simp add: scenario_device_id_def research_device_id_def)
  then show "i = j" by (simp add: pad_left_def digits_value_zeros digits_value_show_nat)
qed simp

lemma length_show_nat: "n < 10 ^ k \<Longrightarrow> 0 < k \<Longrightarrow> length (show_nat n) \<le> k"
proof (induction n arbitrary: k rule: show_nat.induct)
  case (1 n)
  show ?case
  proof (cases "n < 10")
    case True
    with 1 show ?thesis by (subst show_nat.simps) simp
  next
    case False
    with 1(2,3) obtain k' where k: "k = Suc k'" "0 < k'"
      by (cases k; cases "k - 1") auto
    have "length (show_nat (n div 10)) \<le> k'" using 1(1) [of k'] False 1(2) k by (simp add: div_less_iff_less_mult)
    with False k show ?thesis by (subst show_nat.simps) simp
  qed
qed

lemma digit_chars: "c \<in> set ''0123456789'' \<longleftrightarrow> is_digit c"
proof -
  have e: "''0123456789'' = map char_of [48 ..< (58 :: nat)]"
    by (simp add: upt_rec char_of_def bit_Suc_0_iff)
  have m: "c \<in> set ''0123456789'' \<longleftrightarrow> (\<exists>n. 48 \<le> n \<and> n < (58 :: nat) \<and> c = char_of n)"
    unfolding e set_map set_upt by auto
  show ?thesis
  proof
    assume "c \<in> set ''0123456789''"
    then obtain n :: nat where "48 \<le> n" "n < 58" "c = char_of n" unfolding m by blast
    then show "is_digit c" by (simp add: is_digit_def)
  next
    assume "is_digit c"
    then show "c \<in> set ''0123456789''"
      unfolding m by (intro exI [of _ "of_char c"]) (simp add: is_digit_def)
  qed
qed

lemma show_nat_digits: "list_all is_digit (show_nat n)"
proof (induction n rule: show_nat.induct)
  case (1 n)
  have "is_digit (digit_char k)" if "k < 10" for k
    using that by (simp add: is_digit_def digit_char_def)
  with 1 show ?case by (subst show_nat.simps) simp
qed

text \<open>Identifiers of a checked scenario are valid device identifiers.\<close>

lemma scenario_device_id_valid:
  assumes "scenario_id_valid (scn_scenario_id s)" "i < 10000"
  shows "1 \<le> length (scenario_device_id s i)" "length (scenario_device_id s i) \<le> 128"
    "device_id_charset (scenario_device_id s i)"
proof -
  have l: "length (pad_left 4 (show_nat i)) = 4"
    using length_show_nat [of i 4] assms(2) by (simp add: pad_left_def)
  have "length (scn_scenario_id s) = 3" using assms(1) by (simp add: scenario_id_valid_def)
  with l show "1 \<le> length (scenario_device_id s i)" "length (scenario_device_id s i) \<le> 128"
    by (simp_all add: scenario_device_id_def research_device_id_def py_lower_def)
  obtain b c where s: "scn_scenario_id s = [CHR ''E'', b, c]" "is_digit b" "is_digit c"
    using assms(1) by (auto simp: scenario_id_valid_def numeral_3_eq_3 length_Suc_conv)
  have lower: "lower_char x = x" if "is_digit x" for x
    using that by (simp add: lower_char_def is_digit_def)
  have allowed: "id_char_allowed x" if "is_digit x" for x
    using that unfolding digit_chars [symmetric] by (auto simp: id_char_allowed_def)
  have letter: "id_char_allowed (lower_char (CHR ''E''))" "list_all id_char_allowed ''dev-''"
    by (simp_all add: id_char_allowed_def lower_char_def char_of_def bit_Suc_0_iff)
  have "list_all is_digit (pad_left 4 (show_nat i))"
    using show_nat_digits [of i] by (simp add: pad_left_def) (simp add: list_all_iff is_digit_def)
  then have "list_all id_char_allowed (pad_left 4 (show_nat i))"
    using allowed by (auto simp: list_all_iff)
  moreover have "list_all id_char_allowed (py_lower (scn_scenario_id s))"
    using allowed [OF s(2)] allowed [OF s(3)] letter
    by (simp add: s(1) py_lower_def lower [OF s(2)] lower [OF s(3)])
  ultimately show "device_id_charset (scenario_device_id s i)"
    using letter(2) by (simp add: device_id_charset_def scenario_device_id_def research_device_id_def)
qed

text \<open>A public key the registry accepts.\<close>

definition usable_key :: "'k crypto \<Rightarrow> string \<Rightarrow> bool" where
  "usable_key cr pem \<longleftrightarrow> \<not> rejects_private_key pem
     \<and> (case load_pem cr pem of None \<Rightarrow> False | Some k \<Rightarrow> 16 \<le> length (sha256_hex cr (key_der cr k)))"

definition usable_keys :: "('k, 'g) run_env \<Rightarrow> run_options \<Rightarrow> bool" where
  "usable_keys env opt \<longleftrightarrow> scenario_id_valid (scn_scenario_id (ro_scenario opt))
     \<and> scn_device_count (ro_scenario opt) \<le> 10000
     \<and> (\<forall>i < scn_device_count (ro_scenario opt). usable_key (rv_crypto env) (kp_public_key_pem (rv_keypair env i)))"

definition preparing :: "string \<Rightarrow> run_options \<Rightarrow> nat \<Rightarrow> runner \<Rightarrow> bool" where
  "preparing h opt n rn \<longleftrightarrow> ready h rn \<and> rn_clock rn = run_clock opt
     \<and> rn_device_ids rn = map (scenario_device_id (ro_scenario opt)) [0 ..< n]
     \<and> fst ` set (app_registry (rn_app rn)) \<subseteq> scenario_device_id (ro_scenario opt) ` {0 ..< n}"

lemma register_accepts:
  assumes "\<not> reg_exists r d" "usable_key cr pem" "1 \<le> length d" "length d \<le> 128" "device_id_charset d"
  shows "\<exists>i. register cr now r d pem ls notes st = Inr (i, dset d i r)"
  using assms
  by (auto simp: register_def fingerprint_public_key_pem_def usable_key_def identity_valid_def Let_def
      split: option.splits)

lemma enrol_returns:
  fixes kp :: keypair
  assumes "preparing h opt n rn" "n < scn_device_count (ro_scenario opt)" "usable_keys env opt"
  defines "d \<equiv> scenario_device_id (ro_scenario opt) n"
  defines "rn1 \<equiv> rn\<lparr>rn_device_ids := rn_device_ids rn @ [d], rn_keys := dset d kp (rn_keys rn)\<rparr>"
  obtains rn2 where "enrol env opt d n rn1 = (Inr (), rn2)" "rn_device_ids rn2 = rn_device_ids rn @ [d]"
    "rn_keys rn2 = dset d kp (rn_keys rn)" "rn_addresses rn2 = rn_addresses rn"
    "rn_current_domain rn2 = rn_current_domain rn" "core_ok (shipped_settings h) (shipped_matrix h) rn2"
    "rn_clock rn2 = rn_clock rn"
    "fst ` set (app_registry (rn_app rn2)) \<subseteq> insert d (fst ` set (app_registry (rn_app rn)))"
proof -
  have c: "core_ok (shipped_settings h) (shipped_matrix h) rn1"
    using assms(1) by (simp add: preparing_def ready_def core_ok_def rn1_def)
  note c2 = core_step [OF run_step.enrol c, of env opt d n]
  show ?thesis
  proof (cases "sup_register_devices (scn_setup (ro_scenario opt))")
    case False
    then show ?thesis using that [of rn1] c by (auto simp: enrol_def rn1_def)
  next
    case True
    have "\<not> reg_exists (app_registry (rn_app rn1)) d"
      using assms(1) by (auto simp: preparing_def reg_exists_def rn1_def d_def device_id_inject)
    moreover have "n < 10000" using assms(2,3) by (simp add: usable_keys_def)
    ultimately obtain i where "register (rv_crypto env) (rn_now rn1) (app_registry (rn_app rn1)) d
        (kp_public_key_pem (rv_keypair env n))
        [(''scenario'', scn_scenario_id (ro_scenario opt)), (''index'', show_nat n)] [] ACTIVE
        = Inr (i, dset d i (app_registry (rn_app rn1)))"
      using register_accepts scenario_device_id_valid assms(2,3) unfolding d_def usable_keys_def by blast
    then have e: "enrol env opt d n rn1 =
        (Inr (), rn1\<lparr>rn_app := update_registry (rn_app rn1) (dset d i (app_registry (rn_app rn1)))\<rparr>)"
      using True by (simp add: enrol_def)
    show ?thesis
      by (rule that [OF e])
        (use c2 e set_dset_subset [of d i "app_registry (rn_app rn)"] in
          \<open>auto simp: rn1_def update_registry_def app_registry_def\<close>)
  qed
qed

lemma place_returns:
  assumes "total_source (rv_source env)"
  obtains a where "place env d i dm rn = (Inr (), rn\<lparr>rn_addresses := dset (d, dm) a (rn_addresses rn)\<rparr>)"
  using assms by (auto simp: place_def total_source_def) (metis run_then_simps(2))

lemma prepare_device_returns:
  assumes "preparing h opt n rn" "n < scn_device_count (ro_scenario opt)" "usable_keys env opt"
    "total_source (rv_source env)"
  shows "\<exists>rn'. prepare_device env opt n rn = (Inr (), rn') \<and> preparing h opt (Suc n) rn'"
proof -
  let ?d = "scenario_device_id (ro_scenario opt) n"
  obtain rn2 where e: "enrol env opt ?d n (rn\<lparr>rn_device_ids := rn_device_ids rn @ [?d],
        rn_keys := dset ?d (rv_keypair env n) (rn_keys rn)\<rparr>) = (Inr (), rn2)"
      "rn_device_ids rn2 = rn_device_ids rn @ [?d]" "rn_keys rn2 = dset ?d (rv_keypair env n) (rn_keys rn)"
      "rn_addresses rn2 = rn_addresses rn" "rn_current_domain rn2 = rn_current_domain rn"
      "core_ok (shipped_settings h) (shipped_matrix h) rn2" "rn_clock rn2 = rn_clock rn"
      "fst ` set (app_registry (rn_app rn2)) \<subseteq> insert ?d (fst ` set (app_registry (rn_app rn)))"
    by (rule enrol_returns [OF assms(1-3)])
  obtain a where a: "place env ?d n NR rn2 = (Inr (), rn2\<lparr>rn_addresses := dset (?d, NR) a (rn_addresses rn2)\<rparr>)"
    by (rule place_returns [OF assms(4)])
  define rn3 where "rn3 = rn2\<lparr>rn_addresses := dset (?d, NR) a (rn_addresses rn2)\<rparr>"
  obtain b where b: "place env ?d n WLAN rn3 = (Inr (), rn3\<lparr>rn_addresses := dset (?d, WLAN) b (rn_addresses rn3)\<rparr>)"
    by (rule place_returns [OF assms(4)])
  define rn4 where "rn4 = set_domain ?d (sup_initial_domain (scn_setup (ro_scenario opt)))
      (rn3\<lparr>rn_addresses := dset (?d, WLAN) b (rn_addresses rn3)\<rparr>)"
  have "fst ` set (app_registry (rn_app rn)) \<subseteq> scenario_device_id (ro_scenario opt) ` {0 ..< n}"
    using assms(1) by (simp add: preparing_def)
  with e(8) have reg: "fst ` set (app_registry (rn_app rn2)) \<subseteq> scenario_device_id (ro_scenario opt) ` {0 ..< Suc n}"
    unfolding atLeast0_lessThan_Suc by blast
  have "prepare_device env opt n rn = (Inr (), rn4)"
    using a b by (simp add: prepare_device_def Let_def e(1) rn3_def rn4_def)
  moreover have "preparing h opt (Suc n) rn4"
    using assms(1) e(2-7) reg unfolding preparing_def ready_def rn4_def rn3_def
    by (simp add: set_domain_def core_ok_def)
  ultimately show ?thesis by blast
qed

lemma prepare_devices_return:
  assumes "preparing h opt k rn" "k \<le> n" "n \<le> scn_device_count (ro_scenario opt)" "usable_keys env opt"
    "total_source (rv_source env)"
  shows "\<exists>rn'. for_each (prepare_device env opt) [k ..< n] rn = (Inr (), rn') \<and> preparing h opt n rn'"
  using assms(1,2)
proof (induction "n - k" arbitrary: k rn)
  case 0
  then show ?case by simp
next
  case (Suc m)
  then have "k < n" by simp
  then obtain rn1 where r: "prepare_device env opt k rn = (Inr (), rn1)" "preparing h opt (Suc k) rn1"
    using prepare_device_returns [OF Suc.prems(1) _ assms(4,5)] assms(3) by auto
  with Suc.hyps \<open>k < n\<close> obtain rn' where "for_each (prepare_device env opt) [Suc k ..< n] rn1 = (Inr (), rn')"
      "preparing h opt n rn'" by (metis Suc_diff_Suc Suc_leI diff_Suc_Suc diff_diff_cancel nat.inject)
  with r \<open>k < n\<close> show ?case by (simp add: upt_conv_Cons)
qed

section \<open>Completion\<close>

lemma run_returns:
  assumes "build_app_state (shipped_settings h) x y = Inr st" "usable_keys env opt" "equipped env opt"
    and "1 \<le> scn_device_count (ro_scenario opt)"
    and "list_all (playable opt) (scn_event_sequence (ro_scenario opt))"
    and "fits_calendar (shipped_settings h) opt"
  shows "fst (prepare_and_play env opt (new_runner env opt st)) = Inr ()"
proof -
  obtain m where m: "new_policy_matrix (shipped_settings h) = Inr m" "holds_matrix (shipped_settings h) m st"
    using start_holds [OF assms(1)] by blast
  have "core_ok (shipped_settings h) (shipped_matrix h) (new_runner env opt st)"
    using m shipped_matrix_loads [of h] build_app_state_ok [OF assms(1)] by (simp add: core_ok_def new_runner_def)
  moreover have "app_registry st = []"
    using assms(1) by (auto simp: build_app_state_def build_services_def and_then_Inr_iff Let_def app_registry_def)
  ultimately have "preparing h opt 0 (new_runner env opt st)"
    by (simp add: preparing_def ready_def new_runner_def)
  then obtain rn where rn: "prepare_devices env opt (new_runner env opt st) = (Inr (), rn)"
      "preparing h opt (scn_device_count (ro_scenario opt)) rn"
    using prepare_devices_return [of h opt 0 "new_runner env opt st" "scn_device_count (ro_scenario opt)" env]
      assms(2,3) by (auto simp: prepare_devices_def equipped_def)
  have b: "ready_by h (rn_device_ids rn) (fc_now (run_clock opt)) rn" using rn(2) by (simp add: ready_by_def preparing_def)
  have "fc_now (run_clock opt) + scenario_reach (shipped_settings h) (ro_scenario opt) \<le> datetime_max"
    using assms(6) by (simp add: fits_calendar_def seconds_def)
  from play_events_return [OF b _ _ assms(3,5) this] rn(2) assms(4)
  have "\<exists>u. fst (play_events env opt rn) = Inr u" by (auto simp: returns_def preparing_def)
  then show ?thesis by (simp add: prepare_and_play_def rn(1))
qed

end
