(* ===== verification/Run_Results.thy ===== *)
theory Run_Results
  imports Run_Completion
begin

text \<open>
  What the invariants of runs say of a run's result: the labels and confusion counts of its summary, the
  rows of its decisions, the provenance of its event rows, its completion, and the files it is written to.
\<close>

section \<open>The summary of a run\<close>

text \<open>Sorting by key is stable, so it keeps what a key is mapped to.\<close>

lemma map_of_filter: "map_of d k = (case filter (\<lambda>p. fst p = k) d of [] \<Rightarrow> None | p # _ \<Rightarrow> Some (snd p))"
  by (induction d) auto

lemma dget_sorted_items [simp]: "dget (sorted_items d) k = dget d k"
proof -
  have "map_of (sort_key fst d) k = map_of d k"
    unfolding map_of_filter [of "sort_key fst d"] map_of_filter [of d] by (simp add: sort_key_stable)
  then show ?thesis by (simp add: sorted_items_def)
qed

lemma count_sorted_items [simp]: "count_of (sorted_items d) k = count_of d k"
  by (simp add: count_of_def)

lemma distribution_of:
  "map_option fst (dget (rsu_distributions (summary mc)) k) = map_option describe (samples_of k mc)"
proof -
  have "map_option fst (dget (map (\<lambda>(k, vs). (k, describe vs, f k)) d) k) = map_option describe (dget d k)"
    for f :: "string \<Rightarrow> string \<times> string" and d
    by (induction d) auto
  from this [of "\<lambda>k. (case dget METRIC_DEFINITIONS k of Some d \<Rightarrow> md_unit d | None \<Rightarrow> ''unknown'',
      case dget (mc_subjects mc) k of Some s \<Rightarrow> s | None \<Rightarrow> ''unknown'')" "sorted_items (mc_samples mc)"]
  show ?thesis by (simp add: summary_def samples_of_def)
qed

lemma total_insort: "counter_total (insort_key fst p d) = snd p + counter_total d"
  by (induction d) (auto simp: counter_total_def)

lemma total_sorted_items [simp]: "counter_total (sorted_items d) = counter_total d"
  unfolding sorted_items_def by (induction d) (simp_all add: total_insort, simp add: counter_total_def)

lemma finish_fields [simp]:
  "rr_events (finish env opt x) = rn_events (snd x)" "rr_decisions (finish env opt x) = rn_decisions (snd x)"
  "rr_metrics (finish env opt x) = summary (rn_metrics (snd x))"
  "rr_metadata (finish env opt x) = metadata env opt (snd x)"
  "rr_measurement_tier (finish env opt x) = source_tier (rv_source env)"
  "rr_run_id (finish env opt x) = ro_run_id opt"
  by (simp_all add: finish_def)

lemma rr_ok_finish: "rr_ok (finish env opt x) \<longleftrightarrow> (\<exists>u. fst x = Inr u)"
  by (simp add: rr_ok_def finish_def split: sum.split)

lemma new_runner_start: "outcome_labels (new_runner env opt st) = []" "rn_device_ids (new_runner env opt st) = []"
  by (simp_all add: outcome_labels_def new_runner_def new_metrics_def)

lemma summary_labels:
  "map (\<lambda>q. (sco_step q, sco_ground_truth q)) (rsu_ground_truth_outcomes (summary (rn_metrics rn))) = outcome_labels rn"
  by (simp add: summary_def outcome_labels_def)

lemma run_scenario_labels:
  assumes "run_scenario env opt = Inr rr"
  defines "L \<equiv> map (\<lambda>q. (sco_step q, sco_ground_truth q)) (rsu_ground_truth_outcomes (rr_metrics rr))"
  shows "prefix L (declared_labels (rv_rng env) (ro_scenario opt) (ro_seed opt))"
    and "rr_ok rr \<Longrightarrow> L = declared_labels (rv_rng env) (ro_scenario opt) (ro_seed opt)"
proof -
  obtain st where st: "rr = finish env opt (prepare_and_play env opt (new_runner env opt st))"
    using run_scenario_Inr [OF assms(1)] by blast
  then have L: "L = outcome_labels (snd (prepare_and_play env opt (new_runner env opt st)))"
    by (simp add: L_def summary_labels)
  note r = run_labels [where rn = "new_runner env opt st" and env = env and opt = opt, OF new_runner_start]
  show "prefix L (declared_labels (rv_rng env) (ro_scenario opt) (ro_seed opt))"
    unfolding L by (rule r(1))
  show "L = declared_labels (rv_rng env) (ro_scenario opt) (ro_seed opt)" if "rr_ok rr"
    using that r(2) unfolding L st by (auto simp: rr_ok_finish)
qed

text \<open>The ledger at the end of a run.\<close>

lemma run_scenario_ledger:
  assumes "run_scenario env opt = Inr rr"
  obtains rn where "rr_metrics rr = summary (rn_metrics rn)" "rr_decisions rr = rn_decisions rn" "ledger_ok rn"
proof -
  obtain st where st: "rr = finish env opt (prepare_and_play env opt (new_runner env opt st))"
    using run_scenario_Inr [OF assms(1)] by blast
  have "ledger_ok (snd (prepare_and_play env opt (new_runner env opt st)))"
    by (rule run_keeps [where P = ledger_ok]) (rule ledger_new, rule ledger_step)
  with st that show ?thesis by simp
qed

lemma map_snd_labels:
  "map snd (map (\<lambda>q. (sco_step q, sco_ground_truth q)) os) = map sco_ground_truth os"
  by simp

lemma run_scenario_confusion:
  assumes "run_scenario env opt = Inr rr" "rr_ok rr"
  defines "declared \<equiv> map snd (declared_labels (rv_rng env) (ro_scenario opt) (ro_seed opt))"
  defines "cf \<equiv> rsu_confusion_raw (rr_metrics rr)"
  shows "cf_true_negative cf + cf_false_positive cf = int (length (filter (\<lambda>l. is_legitimate (declared_label l)) declared))"
    and "cf_true_positive cf + cf_false_negative cf = int (length (filter (\<lambda>l. is_adversarial (declared_label l)) declared))"
    and "cf_false_acceptance cf = count_of (rsu_counters (rr_metrics rr)) ''M15''"
    and "cf_false_rejection cf = count_of (rsu_counters (rr_metrics rr)) ''M16''"
    and "cf_correct_total cf = count_of (rsu_counters (rr_metrics rr)) ''M17''"
    and "cf_legitimate_total cf = int (length (filter (\<lambda>l. is_legitimate (declared_label l)) declared))"
    and "cf_illegitimate_total cf = int (length (filter (\<lambda>l. is_adversarial (declared_label l)) declared))"
proof -
  obtain rn where rn: "rr_metrics rr = summary (rn_metrics rn)" "ledger_ok rn"
    using run_scenario_ledger [OF assms(1)] by metis
  then have m: "metrics_ok (rn_metrics rn)" by (simp add: ledger_ok_def)
  have cf: "cf = confusion (rn_metrics rn)" by (simp add: cf_def rn summary_def)
  have "declared = map sco_ground_truth (mc_outcomes (rn_metrics rn))"
    using run_scenario_labels(2) [OF assms(1,2)]
    by (simp add: declared_def rn(1) summary_def flip: map_snd_labels)
  then have f: "length (filter (\<lambda>l. P (declared_label l)) declared) =
      length (filter (\<lambda>q. P (declared_label (sco_ground_truth q))) (mc_outcomes (rn_metrics rn)))" for P
    by (simp add: filter_map comp_def)
  show t: "cf_legitimate_total cf = int (length (filter (\<lambda>l. is_legitimate (declared_label l)) declared))"
      "cf_illegitimate_total cf = int (length (filter (\<lambda>l. is_adversarial (declared_label l)) declared))"
    by (simp_all add: cf f confusion_def Let_def label_totals_sum)
  have t2: "cf_adversarial_total cf = int (length (filter (\<lambda>l. is_adversarial (declared_label l)) declared))"
    by (simp_all add: cf f confusion_def Let_def label_totals_sum)
  have c: "count_of (rsu_counters (rr_metrics rr)) k = count_of (mc_counters (rn_metrics rn)) k" for k
    by (simp add: rn(1) summary_def)
  note e = confusion_exact [OF m, folded cf]
  show "cf_true_negative cf + cf_false_positive cf = int (length (filter (\<lambda>l. is_legitimate (declared_label l)) declared))"
    "cf_true_positive cf + cf_false_negative cf = int (length (filter (\<lambda>l. is_adversarial (declared_label l)) declared))"
    "cf_false_acceptance cf = count_of (rsu_counters (rr_metrics rr)) ''M15''"
    "cf_false_rejection cf = count_of (rsu_counters (rr_metrics rr)) ''M16''"
    "cf_correct_total cf = count_of (rsu_counters (rr_metrics rr)) ''M17''"
    using e t t2 by (simp_all add: c)
qed

lemma run_scenario_books:
  assumes "run_scenario env opt = Inr rr"
  defines "m \<equiv> rr_metrics rr" and "rows \<equiv> rr_decisions rr"
  shows "count_of (rsu_policy_action_distribution m) a = int (rows_with ''action'' a rows)"
    and "count_of (rsu_trust_state_distribution m) s = int (rows_with ''trust_state'' s rows)"
    and "count_of (rsu_counters m) ''M5'' = int (rows_with ''action'' ''REAUTHENTICATE'' rows)"
    and "count_of (rsu_counters m) ''M6'' = int (rows_with ''action'' ''STEP_UP_AUTHENTICATION'' rows)"
    and "counter_total (rsu_trust_state_transitions m) = count_of (rsu_counters m) ''M7''"
    and "count_of (rsu_counters m) ''M7'' = int (state_changes rows)"
    and "map_option fst (dget (rsu_distributions m) ''M3'') =
      (if rows = [] then None else Some (describe (map row_latency rows)))"
    and "map_option fst (dget (rsu_distributions m) ''M12'') =
      (if engine_times rows = [] then None else Some (describe (engine_times rows)))"
    and "counter_total (rsu_policy_action_distribution m) = int (length rows)"
proof -
  obtain rn where rn: "m = summary (rn_metrics rn)" "rows = rn_decisions rn" "ledger_ok rn"
    unfolding m_def rows_def using run_scenario_ledger [OF assms(1)] by metis
  show "count_of (rsu_policy_action_distribution m) a = int (rows_with ''action'' a rows)"
    "count_of (rsu_trust_state_distribution m) s = int (rows_with ''trust_state'' s rows)"
    "count_of (rsu_counters m) ''M5'' = int (rows_with ''action'' ''REAUTHENTICATE'' rows)"
    "count_of (rsu_counters m) ''M6'' = int (rows_with ''action'' ''STEP_UP_AUTHENTICATION'' rows)"
    "counter_total (rsu_trust_state_transitions m) = count_of (rsu_counters m) ''M7''"
    "count_of (rsu_counters m) ''M7'' = int (state_changes rows)"
    "counter_total (rsu_policy_action_distribution m) = int (length rows)"
    using rn(3) by (simp_all add: rn(1,2) summary_def ledger_ok_def metrics_ok_def)
  show "map_option fst (dget (rsu_distributions m) ''M3'') =
      (if rows = [] then None else Some (describe (map row_latency rows)))"
    "map_option fst (dget (rsu_distributions m) ''M12'') =
      (if engine_times rows = [] then None else Some (describe (engine_times rows)))"
    using rn(3) by (simp_all add: rn(1,2) distribution_of ledger_ok_def)
qed

section \<open>Provenance\<close>


text \<open>A source that keeps the contract tells its tier in every row.\<close>

context access_evidence
begin

lemma run_truthful:
  assumes "rv_source env = src"
  shows "events_truthful (snd (prepare_and_play env opt (new_runner env opt st)))"
  by (rule run_keeps [where P = events_truthful])
    (simp add: events_truthful_def new_runner_def, rule truthful_step [OF _ _ assms])

lemma tier_of_source: "source_tier src = TIER2 \<longleftrightarrow> tier2_name src"
  by (simp add: source_tier_def tier2_name_def)

lemma result_truthful:
  assumes "rv_source env = src" "run_scenario env opt = Inr rr"
    and "r \<in> set (rr_events rr)" "dget r ''source_mode'' = Some (jstr (source_mode_value m))"
  shows "m = LIVE_TESTBED \<longleftrightarrow> rr_measurement_tier rr = TIER2"
proof -
  obtain st where st: "rr = finish env opt (prepare_and_play env opt (new_runner env opt st))"
    using run_scenario_Inr [OF assms(2)] by blast
  have "row_truthful r"
    using run_truthful [OF assms(1), of opt st] assms(3) by (simp add: st events_truthful_def list_all_iff)
  then obtain m' where m: "source_mode_value m = source_mode_value m'" "truthful_mode m'"
    using assms(4) by (auto simp: row_truthful_def)
  then have "m = m'" by (cases m; cases m') simp_all
  with m(2) show ?thesis by (simp add: st assms(1) truthful_mode_def tier_of_source)
qed

end

lemma row_source_mode_Some: "row_source_mode r = Some s \<Longrightarrow> dget r ''source_mode'' = Some (jstr s)"
  by (auto simp: row_source_mode_def nonempty_def split: option.splits cell.splits json.splits if_splits)

lemma mode_listed:
  assumes "s \<in> set (source_modes_of rows)"
  shows "\<exists>r \<in> set rows. dget r ''source_mode'' = Some (jstr s)"
proof -
  have "\<exists>r \<in> set rows. row_source_mode r = Some s"
    using assms by (auto simp: source_modes_of_def List.map_filter_def)
  then show ?thesis using row_source_mode_Some by blast
qed

lemma run_scenario_provenance:
  assumes "build_access_source lr now tb kind fx = Inr (rv_source env)" "run_scenario env opt = Inr rr"
  shows "r \<in> set (rr_events rr) \<Longrightarrow> dget r ''source_mode'' = Some (jstr (source_mode_value m)) \<Longrightarrow>
      m = LIVE_TESTBED \<longleftrightarrow> rr_measurement_tier rr = TIER2"
    and "source_mode_value LIVE_TESTBED \<in> set (rmd_source_modes (rr_metadata rr)) \<Longrightarrow>
      rmd_measurement_tier (rr_metadata rr) = ''tier2''"
proof -
  have t: "m = LIVE_TESTBED \<longleftrightarrow> rr_measurement_tier rr = TIER2"
    if "r \<in> set (rr_events rr)" "dget r ''source_mode'' = Some (jstr (source_mode_value m))" for r m
  proof -
    have "fixture_access fx = rv_source env \<or> (\<exists>lv. live_access lv = rv_source env)"
      using assms(1) by (auto simp: build_access_source_def and_then_Inr_iff split: if_splits)
    then consider "rv_source env = fixture_access fx" | lv where "rv_source env = live_access lv"
      by metis
    then show ?thesis
    proof cases
      case 1
      from fixture_evidence.result_truthful [OF this assms(2) that] show ?thesis .
    next
      case 2
      from live_evidence.result_truthful [OF this assms(2) that] show ?thesis .
    qed
  qed
  show "m = LIVE_TESTBED \<longleftrightarrow> rr_measurement_tier rr = TIER2"
    if "r \<in> set (rr_events rr)" "dget r ''source_mode'' = Some (jstr (source_mode_value m))"
    using t [OF that] .
  obtain st where st: "rr = finish env opt (prepare_and_play env opt (new_runner env opt st))"
    using run_scenario_Inr [OF assms(2)] by blast
  show "rmd_measurement_tier (rr_metadata rr) = ''tier2''"
    if l: "source_mode_value LIVE_TESTBED \<in> set (rmd_source_modes (rr_metadata rr))"
  proof -
    obtain r where "r \<in> set (rr_events rr)" "dget r ''source_mode'' = Some (jstr (source_mode_value LIVE_TESTBED))"
      using mode_listed [of _ "rr_events rr"] l by (auto simp: st metadata_def Let_def)
    from t [OF this] show ?thesis by (simp add: st metadata_def Let_def)
  qed
qed

section \<open>Completion\<close>

text \<open>What the validation of a scenario leaves open.\<close>

definition bounded_event :: "scenario \<Rightarrow> scenario_event \<Rightarrow> bool" where
  "bounded_event s ev \<longleftrightarrow>
     (sev_kind ev = IDENTITY_MISMATCH \<longrightarrow> sev_other_device_index ev \<noteq> None)
     \<and> - int (scn_device_count s) \<le> fst (member_range s ev)"

lemma event_check_fields: "event_check e = Inr () \<Longrightarrow> 0 \<le> sev_advance e \<and> 0 \<le> sev_interval e"
  by (auto simp: event_check_def event_fields_valid_def split: if_splits)

lemma checked_run_ok:
  assumes "scenario_check (ro_scenario opt) = Inr ()"
    and "list_all (bounded_event (ro_scenario opt)) (scn_event_sequence (ro_scenario opt))"
    and "scn_device_count (ro_scenario opt) \<le> 10000"
    and "\<And>i. usable_key (rv_crypto env) (kp_public_key_pem (rv_keypair env i))"
    and "ro_strategy_name opt \<in> fst ` set shipped_strategies"
    and "rv_settings env = shipped_settings h" "rv_source env = fixture_access fx"
    and "fits_calendar (shipped_settings h) opt"
  shows "\<exists>rr. run_scenario env opt = Inr rr \<and> rr_ok rr"
proof -
  have r: "runnable (ro_scenario opt)" using assms(1) by (rule scenario_check_runnable)
  have id: "scenario_id_valid (scn_scenario_id (ro_scenario opt))"
    using assms(1) by (simp add: scenario_check_def and_then_Inr_iff split: if_splits)
  have p: "playable opt ev" if "ev \<in> set (scn_event_sequence (ro_scenario opt))" for ev
  proof -
    have e: "event_check ev = Inr ()"
        "case sev_other_device_index ev of None \<Rightarrow> True | Some i \<Rightarrow> i < scn_device_count (ro_scenario opt)"
      using r that by (auto simp: runnable_def list_all_iff)
    moreover have "bounded_event (ro_scenario opt) ev" using assms(2) that by (simp add: list_all_iff)
    ultimately show ?thesis
      using event_check_fields [OF e(1)] by (auto simp: playable_def bounded_event_def range_playable_def)
  qed
  obtain st where st: "build_app_state (rv_settings env) (rv_nr_salt env) (rv_wlan_salt env) = Inr st"
    by (simp add: assms(6) build_app_state_def shipped_matrix_loads Let_def)
  have "fst (prepare_and_play env opt (new_runner env opt st)) = Inr ()"
  proof (rule run_returns)
    show "build_app_state (shipped_settings h) (rv_nr_salt env) (rv_wlan_salt env) = Inr st"
      using st assms(6) by simp
    show "usable_keys env opt" using id assms(3,4) by (simp add: usable_keys_def)
    show "equipped env opt" using assms(5,7) fixture_total by (simp add: equipped_def known_strategy_def)
    show "1 \<le> scn_device_count (ro_scenario opt)" using r by (simp add: runnable_def)
    show "list_all (playable opt) (scn_event_sequence (ro_scenario opt))" using p by (simp add: list_all_iff)
    show "fits_calendar (shipped_settings h) opt" by (rule assms(8))
  qed
  with st show ?thesis by (simp add: run_scenario_def rr_ok_finish)
qed

section \<open>The files of a run\<close>

definition output_files :: "string \<Rightarrow> string list" where
  "output_files run_id =
     [raw_file run_id ''events.jsonl'', raw_file run_id ''decisions.jsonl'', raw_file run_id ''metrics.json'',
      ''metadata/'' @ run_id @ ''.json'']"

lemma output_files_distinct: "distinct (output_files run_id)"
  by (simp add: output_files_def raw_file_def)

lemma write_run_effect:
  assumes "write_run r t = Inr t'"
  shows "dget t (raw_file (rr_run_id r) ''events.jsonl'') = None"
    and "dget t' (raw_file (rr_run_id r) ''events.jsonl'') = Some (Lines (map (stamped r) (rr_events r)))"
    and "p \<notin> set (output_files (rr_run_id r)) \<Longrightarrow> dget t' p = dget t p"
    and "rr_run_id r2 = rr_run_id r \<Longrightarrow> \<exists>e. write_run r2 t' = Inl e"
proof -
  note d = output_files_distinct [of "rr_run_id r", unfolded output_files_def]
  show n: "dget t (raw_file (rr_run_id r) ''events.jsonl'') = None"
    using assms by (simp add: write_run_def split: if_splits)
  show e: "dget t' (raw_file (rr_run_id r) ''events.jsonl'') = Some (Lines (map (stamped r) (rr_events r)))"
    using assms d n by (auto simp: write_run_def append_lines_def split: if_splits)
  show "dget t' p = dget t p" if "p \<notin> set (output_files (rr_run_id r))"
    using assms that by (auto simp: write_run_def append_lines_def output_files_def split: if_splits)
  show "\<exists>e. write_run r2 t' = Inl e" if "rr_run_id r2 = rr_run_id r"
    using e that by (simp add: write_run_def)
qed

section \<open>Where runs fall short of what they describe\<close>

text \<open>An outage does not reach ingestion.\<close>

lemma outage_hash: "hash_identifier cr (set_available co v) = hash_identifier cr co"
  by (rule ext) (simp add: hash_identifier_def set_available_def)

lemma outage_is_ignored:
  "nr_ingest cr (set_available co v) bid s ev = nr_ingest cr co bid s ev"
  "wlan_ingest cr (set_available co v) bid s ev = wlan_ingest cr co bid s ev"
  by (simp_all add: nr_ingest_def wlan_ingest_def nr_binding_def wlan_binding_def nr_attributes_def
      wlan_attributes_def outage_hash split: access_event.split)

text \<open>The cohorts of a mixed workload are disjoint exactly when the adversarial one leaves a device over.\<close>

lemma cohorts_disjoint_iff:
  assumes "ids \<noteq> []" "distinct ids"
  shows "set (legitimate_cohort ids f) \<inter> set (adversarial_cohort ids f) = {} \<longleftrightarrow> cohort_size (length ids) f < length ids"
proof (cases "cohort_size (length ids) f < length ids")
  case True
  let ?k = "length ids - cohort_size (length ids) f"
  have "take ?k ids \<noteq> []" using True assms(1) by (cases ids) auto
  then have "legitimate_cohort ids f = take ?k ids" by (simp add: legitimate_cohort_def Let_def)
  then show ?thesis
    using True set_take_disj_set_drop_if_distinct [OF assms(2), of ?k ?k] by (simp add: adversarial_cohort_def)
next
  case False
  then have "legitimate_cohort ids f = ids" "adversarial_cohort ids f = ids"
    by (simp_all add: legitimate_cohort_def adversarial_cohort_def)
  with False assms(1) show ?thesis by simp
qed

end
