(* ===== verification/Campaign_Statistics.thy ===== *)
theory Campaign_Statistics
  imports Run_Results
begin

text \<open>
  The statistical plan applied to a campaign of runs (\<^verbatim>\<open>experiments/analysis/statistics.py\<close>): the
  descriptive summary of one value per run, the paired bootstrap interval, the Holm correction, the
  matched-pairs effect size, the Friedman and Cochran procedures with their follow-ups, and the rates
  derived from confusion counts.

  A float is an exact rational, rounding to six decimals is written out, and a result of SciPy that may
  be NaN is \<open>None\<close>. SciPy is a record of functions without laws (\<open>scipy\<close>); the random generator is the
  one of the runs. The values of the two optional series are \<open>rat option\<close>, as a missing measurement is
  \<open>None\<close> there; a NaN among them is not modelled.
\<close>

section \<open>Description\<close>

definition ALPHA :: rat where
  "ALPHA = 5 / 100"

definition BOOTSTRAP_RESAMPLES :: nat where
  "BOOTSTRAP_RESAMPLES = 10000"

definition BOOTSTRAP_SEED :: int where
  "BOOTSTRAP_SEED = 20260906"

text \<open>\<open>round(x, 6)\<close>\<close>

definition round6 :: "rat \<Rightarrow> rat" where
  "round6 x = of_int (round_half_even (x * 1000000)) / 1000000"

definition percentile_q :: "rat list \<Rightarrow> rat \<Rightarrow> rat option" where
  "percentile_q values q =
     (if values = [] then None
      else (let ordered = sort values
            in if length ordered = 1 then Some (ordered ! 0)
               else (let position = of_nat (length ordered - 1) * (q / 100);
                         lower = nat \<lfloor>position\<rfloor>;
                         upper = nat \<lceil>position\<rceil>
                     in if lower = upper then Some (ordered ! lower)
                        else (let weight = position - of_nat lower
                              in Some (ordered ! lower * (1 - weight) + ordered ! upper * weight)))))"

text \<open>\<open>x or 0.0\<close>\<close>

definition or_zero :: "rat option \<Rightarrow> rat" where
  "or_zero v = (case v of None \<Rightarrow> 0 | Some x \<Rightarrow> x)"

text \<open>\<open>[float(v) for v in values if v is not None]\<close>\<close>

definition present :: "rat option list \<Rightarrow> rat list" where
  "present values = List.map_filter (\<lambda>v. v) values"

record run_description =
  rde_n :: nat
  rde_median :: "rat option"
  rde_q1 :: "rat option"
  rde_q3 :: "rat option"
  rde_iqr :: "rat option"
  rde_p95 :: "rat option"
  rde_min :: "rat option"
  rde_max :: "rat option"
  rde_mean :: "rat option"

definition describe_runs :: "rat option list \<Rightarrow> run_description" where
  "describe_runs values =
     (let clean_values = present values
      in if clean_values = [] then
           \<lparr>rde_n = 0, rde_median = None, rde_q1 = None, rde_q3 = None, rde_iqr = None,
            rde_p95 = None, rde_min = None, rde_max = None, rde_mean = None\<rparr>
         else (let q1 = percentile_q clean_values 25; q3 = percentile_q clean_values 75
               in \<lparr>rde_n = length clean_values,
                   rde_median = Some (round6 (or_zero (percentile_q clean_values 50))),
                   rde_q1 = Some (round6 (or_zero q1)),
                   rde_q3 = Some (round6 (or_zero q3)),
                   rde_iqr = Some (round6 (or_zero q3 - or_zero q1)),
                   rde_p95 = Some (round6 (or_zero (percentile_q clean_values 95))),
                   rde_min = Some (round6 (Min (set clean_values))),
                   rde_max = Some (round6 (Max (set clean_values))),
                   rde_mean = Some (round6 (sum_list clean_values / of_nat (length clean_values)))\<rparr>))"

text \<open>
  What the code calls in SciPy. A pair is a statistic and a p-value; \<open>None\<close> stands for NaN, the left
  side of a sum for the text of a \<open>ValueError\<close>, and an absent \<open>cochrans_q\<close> for the
  \<open>AttributeError\<close> of builds without it.
\<close>

record scipy =
  sp_shapiro :: "rat list \<Rightarrow> rat \<times> rat"
  sp_rankdata :: "rat list \<Rightarrow> rat list"
  sp_friedman :: "rat list list \<Rightarrow> string + (rat \<times> rat) option"
  sp_wilcoxon :: "rat list \<Rightarrow> rat list \<Rightarrow> string + (rat \<times> rat)"
  sp_cochrans_q :: "(int list list \<Rightarrow> (rat \<times> rat) option) option"
  sp_chi2_sf :: "rat \<Rightarrow> int \<Rightarrow> rat"
  sp_binomtest :: "nat \<Rightarrow> nat \<Rightarrow> rat"

datatype normality =
    Not_testable
  | Shapiro_wilk rat rat bool

definition normality_of :: "scipy \<Rightarrow> rat option list \<Rightarrow> normality" where
  "normality_of sp values =
     (let clean_values = present values
      in if length clean_values < 3 \<or> length (remdups clean_values) = 1 then Not_testable
         else (case sp_shapiro sp clean_values of
                 (statistic, p_value) \<Rightarrow> Shapiro_wilk (round6 statistic) p_value (ALPHA < p_value)))"

section \<open>The paired bootstrap\<close>

definition present_pairs :: "rat option list \<Rightarrow> rat option list \<Rightarrow> (rat \<times> rat) list" where
  "present_pairs a b =
     List.map_filter (\<lambda>p. case p of (Some x, Some y) \<Rightarrow> Some (x, y) | _ \<Rightarrow> None) (zip a b)"

definition point :: "string \<Rightarrow> (rat \<times> rat) list \<Rightarrow> rat" where
  "point statistic sample =
     (let diffs = map (\<lambda>(x, y). x - y) sample
      in if statistic = ''mean_difference'' then sum_list diffs / of_nat (length diffs)
         else or_zero (percentile_q diffs 50))"

text \<open>One resample draws as many pairs as there are; the draws are taken one resample after the other.\<close>

fun resample :: "'g rng \<Rightarrow> 'a list \<Rightarrow> nat \<Rightarrow> 'g \<Rightarrow> 'a list \<times> 'g" where
  "resample rg pairs 0 g = ([], g)"
| "resample rg pairs (Suc k) g =
     (case rg_below rg (length pairs) g of
        (i, g1) \<Rightarrow> (case resample rg pairs k g1 of (xs, g2) \<Rightarrow> (pairs ! i # xs, g2)))"

fun bootstrap_draws :: "'g rng \<Rightarrow> string \<Rightarrow> (rat \<times> rat) list \<Rightarrow> nat \<Rightarrow> 'g \<Rightarrow> rat list" where
  "bootstrap_draws rg statistic pairs 0 g = []"
| "bootstrap_draws rg statistic pairs (Suc k) g =
     (case resample rg pairs (length pairs) g of
        (sample, g1) \<Rightarrow> point statistic sample # bootstrap_draws rg statistic pairs k g1)"

record interval =
  bci_statistic :: string
  bci_n_pairs :: nat
  bci_point_estimate :: rat
  bci_lower_95 :: rat
  bci_upper_95 :: rat
  bci_resamples :: nat
  bci_seed :: int

datatype bootstrap =
    No_interval string nat
  | Interval interval

definition paired_bootstrap_ci ::
    "'g rng \<Rightarrow> rat option list \<Rightarrow> rat option list \<Rightarrow> string \<Rightarrow> nat \<Rightarrow> int \<Rightarrow> bootstrap" where
  "paired_bootstrap_ci rg a b statistic resamples seed =
     (let pairs = present_pairs a b
      in if length pairs < 2 then No_interval statistic (length pairs)
         else (let draws = bootstrap_draws rg statistic pairs resamples (rg_seed rg seed)
               in Interval
                    \<lparr>bci_statistic = statistic, bci_n_pairs = length pairs,
                     bci_point_estimate = round6 (point statistic pairs),
                     bci_lower_95 = round6 (or_zero (percentile_q draws (25 / 10))),
                     bci_upper_95 = round6 (or_zero (percentile_q draws (975 / 10))),
                     bci_resamples = resamples, bci_seed = seed\<rparr>))"

section \<open>The Holm correction\<close>

fun holm_steps :: "nat \<Rightarrow> nat \<Rightarrow> rat \<Rightarrow> (string, rat) dict \<Rightarrow> (string, rat) dict \<Rightarrow> (string, rat) dict" where
  "holm_steps m i running [] adjusted = adjusted"
| "holm_steps m i running ((key, raw) # ordered) adjusted =
     (let candidate = min 1 ((of_nat m - of_nat i) * raw);
          running1 = max running candidate
      in holm_steps m (i + 1) running1 ordered (dset key running1 adjusted))"

definition holm :: "(string, rat) dict \<Rightarrow> (string, rat) dict" where
  "holm p_values =
     (if p_values = [] then []
      else (let ordered = sort_key snd p_values in holm_steps (length ordered) 0 0 ordered []))"

section \<open>Effect size\<close>

record effect =
  eff_value :: rat
  eff_n_pairs :: nat
  eff_n_non_tied :: nat
  eff_magnitude :: string
  eff_direction :: string

datatype effect_size =
    All_tied nat
  | Effect effect

definition magnitude_name :: "rat \<Rightarrow> string" where
  "magnitude_name magnitude =
     (if magnitude < 1 / 10 then ''negligible''
      else if magnitude < 3 / 10 then ''small''
      else if magnitude < 5 / 10 then ''medium''
      else ''large'')"

definition direction_name :: "rat \<Rightarrow> string" where
  "direction_name v =
     (if v > 0 then ''first exceeds second''
      else if v < 0 then ''second exceeds first''
      else ''no direction'')"

definition rank_biserial :: "scipy \<Rightarrow> rat option list \<Rightarrow> rat option list \<Rightarrow> effect_size" where
  "rank_biserial sp a b =
     (let pairs = present_pairs a b;
          diffs = map (\<lambda>(x, y). x - y) pairs;
          non_zero = filter (\<lambda>d. d \<noteq> 0) diffs
      in if non_zero = [] then All_tied (length pairs)
         else (let ranks = sp_rankdata sp (map abs non_zero);
                   positive = sum_list (map fst (filter (\<lambda>(r, d). d > 0) (zip ranks non_zero)));
                   negative = sum_list (map fst (filter (\<lambda>(r, d). d < 0) (zip ranks non_zero)));
                   total = positive + negative;
                   v = (if total \<noteq> 0 then (positive - negative) / total else 0)
               in Effect \<lparr>eff_value = round6 v, eff_n_pairs = length pairs,
                          eff_n_non_tied = length non_zero, eff_magnitude = magnitude_name \<bar>v\<bar>,
                          eff_direction = direction_name v\<rparr>))"

section \<open>Three paired conditions\<close>

record comparison =
  cmp_metric :: string
  cmp_scenario :: string
  cmp_conditions :: "string list"
  cmp_samples :: "(string, rat list) dict"
  cmp_notes :: "string list"

text \<open>\<open>{c: f(c) for c in conditions}\<close> and \<open>d.get(c, [])\<close>\<close>

definition for_conditions :: "('c \<Rightarrow> 'v) \<Rightarrow> 'c list \<Rightarrow> ('c, 'v) dict" where
  "for_conditions f conditions = fold (\<lambda>c. dset c (f c)) conditions []"

definition series_of :: "('c, 'v list) dict \<Rightarrow> 'c \<Rightarrow> 'v list" where
  "series_of d c = (case dget d c of None \<Rightarrow> [] | Some xs \<Rightarrow> xs)"

definition common_length :: "('c, 'v list) dict \<Rightarrow> 'c list \<Rightarrow> nat" where
  "common_length d conditions =
     (if conditions = [] then 0 else Min (set (map (\<lambda>c. length (series_of d c)) conditions)))"

definition aligned :: "('c, 'v list) dict \<Rightarrow> 'c list \<Rightarrow> ('c, 'v list) dict" where
  "aligned d conditions =
     for_conditions (\<lambda>c. take (common_length d conditions) (series_of d c)) conditions"

text \<open>\<open>for i, first in enumerate(cs): for second in cs[i + 1:]\<close>\<close>

fun condition_pairs :: "'c list \<Rightarrow> ('c \<times> 'c) list" where
  "condition_pairs [] = []"
| "condition_pairs (first # rest) = map (\<lambda>second. (first, second)) rest @ condition_pairs rest"

definition pair_key :: "string \<times> string \<Rightarrow> string" where
  "pair_key p = fst p @ ''_vs_'' @ snd p"

definition all_constant_and_equal :: "'v list list \<Rightarrow> bool" where
  "all_constant_and_equal columns \<longleftrightarrow>
     list_all (\<lambda>col. length (remdups col) = 1) columns \<and> length (remdups (map hd columns)) = 1"

datatype omnibus =
    No_omnibus string
  | Omnibus "rat option" int "rat option" bool

datatype pair_test =
    Untested string
  | Wilcoxon rat rat effect_size bootstrap
  | Mcnemar nat nat rat

text \<open>An entry of the pairwise table; the adjusted p-value and its verdict are added at the end.\<close>

record pair_entry =
  pe_test :: pair_test
  pe_holm :: "(rat \<times> bool) option"

record comparison_result =
  cres_metric :: string
  cres_scenario :: string
  cres_conditions :: "string list"
  cres_n_paired_runs :: nat
  cres_descriptive :: "(string, run_description) dict"
  cres_normality :: "(string, normality) dict"
  cres_notes :: "string list"
  cres_omnibus :: omnibus
  cres_interpretation :: "string option"
  cres_pairwise :: "(string, pair_entry) dict option"
  cres_family_size :: "nat option"

text \<open>The body of the loop over the pairs: the raw p-values and the table.\<close>

definition wilcoxon_pair ::
    "scipy \<Rightarrow> 'g rng \<Rightarrow> (string, rat list) dict \<Rightarrow> string \<times> string
      \<Rightarrow> (string, rat) dict \<times> (string, pair_entry) dict
      \<Rightarrow> (string, rat) dict \<times> (string, pair_entry) dict" where
  "wilcoxon_pair sp rg samples fs x =
     (case x of (raw_p, entries) \<Rightarrow>
       (let key = pair_key fs;
            a = series_of samples (fst fs); b = series_of samples (snd fs)
        in if list_all (\<lambda>(x, y). x = y) (zip a b) then
             (raw_p, dset key \<lparr>pe_test = Untested ''all pairs identical'', pe_holm = None\<rparr> entries)
           else (case sp_wilcoxon sp a b of
                   Inl exc \<Rightarrow> (raw_p, dset key \<lparr>pe_test = Untested exc, pe_holm = None\<rparr> entries)
                 | Inr (w_stat, w_p) \<Rightarrow>
                     (dset key w_p raw_p,
                      dset key
                        \<lparr>pe_test = Wilcoxon (round6 w_stat) w_p
                            (rank_biserial sp (map Some a) (map Some b))
                            (paired_bootstrap_ci rg (map Some a) (map Some b)
                               ''median_difference'' BOOTSTRAP_RESAMPLES BOOTSTRAP_SEED),
                         pe_holm = None\<rparr> entries))))"

definition mark_holm :: "string \<times> rat \<Rightarrow> (string, pair_entry) dict \<Rightarrow> (string, pair_entry) dict" where
  "mark_holm kv entries =
     (case dget entries (fst kv) of
        None \<Rightarrow> entries
      | Some e \<Rightarrow> dset (fst kv) (e\<lparr>pe_holm := Some (snd kv, snd kv < ALPHA)\<rparr>) entries)"

definition marked :: "(string, rat) dict \<times> (string, pair_entry) dict \<Rightarrow> (string, pair_entry) dict" where
  "marked x = fold mark_holm (holm (fst x)) (snd x)"

definition significant_p :: "rat option \<Rightarrow> bool" where
  "significant_p p = (case p of None \<Rightarrow> False | Some v \<Rightarrow> v < ALPHA)"

definition only_runs :: "nat \<Rightarrow> string" where
  "only_runs n = ''only '' @ show_nat n @ '' paired runs''"

definition compare_three_paired :: "scipy \<Rightarrow> 'g rng \<Rightarrow> comparison \<Rightarrow> comparison_result result" where
  "compare_three_paired sp rg c =
     (let conditions = cmp_conditions c;
          samples = aligned (cmp_samples c) conditions;
          n = (case samples of [] \<Rightarrow> 0 | (_, xs) # _ \<Rightarrow> length xs);
          columns = map (series_of samples) conditions;
          res = \<lparr>cres_metric = cmp_metric c, cres_scenario = cmp_scenario c,
                 cres_conditions = conditions, cres_n_paired_runs = n,
                 cres_descriptive = for_conditions (\<lambda>k. describe_runs (map Some (series_of samples k))) conditions,
                 cres_normality = for_conditions (\<lambda>k. normality_of sp (map Some (series_of samples k))) conditions,
                 cres_notes = cmp_notes c, cres_omnibus = No_omnibus (only_runs n),
                 cres_interpretation = None, cres_pairwise = None, cres_family_size = None\<rparr>
      in if n < 3 then Inr res
         else if all_constant_and_equal columns then
           Inr (res\<lparr>cres_omnibus := No_omnibus ''every condition produced an identical constant value'',
                    cres_interpretation := Some ''no difference to test: the conditions agree exactly''\<rparr>)
         else (case sp_friedman sp columns of
                 Inl e \<Rightarrow> Inl (PyValueError e)
               | Inr sp_result \<Rightarrow>
                   (let p_value = map_option snd sp_result;
                        significant = significant_p p_value;
                        res1 = res\<lparr>cres_omnibus := Omnibus (map_option (round6 \<circ> fst) sp_result)
                                      (int (length conditions) - 1) p_value significant\<rparr>
                    in if \<not> significant then
                         Inr (res1\<lparr>cres_pairwise := Some [],
                                   cres_interpretation :=
                                     Some ''omnibus not significant; no pairwise comparison is justified''\<rparr>)
                       else (let tested = fold (wilcoxon_pair sp rg samples) (condition_pairs conditions) ([], [])
                             in Inr (res1\<lparr>cres_pairwise := Some (marked tested),
                                          cres_family_size := Some (length (fst tested))\<rparr>)))))"

section \<open>Paired binary outcomes\<close>

record binary_result =
  bres_conditions :: "string list"
  bres_n_paired_runs :: nat
  bres_successes :: "(string, int) dict"
  bres_rates :: "(string, rat option) dict"
  bres_omnibus :: omnibus
  bres_interpretation :: "string option"
  bres_pairwise :: "(string, pair_entry) dict option"
  bres_family_size :: "nat option"

definition cochran_q_manual :: "scipy \<Rightarrow> int list list \<Rightarrow> rat \<times> rat" where
  "cochran_q_manual sp columns =
     (let k = int (length columns);
          n = length (hd columns);
          col_totals = map sum_list columns;
          row_totals = map (\<lambda>i. sum_list (map (\<lambda>col. col ! i) columns)) [0..<n];
          grand = sum_list col_totals;
          numerator = (k - 1) * (k * sum_list (map (\<lambda>t. t * t) col_totals) - grand * grand);
          denominator = k * grand - sum_list (map (\<lambda>r. r * r) row_totals)
      in if denominator = 0 then (0, 1)
         else (let q = of_int numerator / of_int denominator in (q, sp_chi2_sf sp q (k - 1))))"

definition discordant :: "int list \<Rightarrow> int list \<Rightarrow> nat" where
  "discordant xs ys = length (filter (\<lambda>(x, y). x \<noteq> 0 \<and> y = 0) (zip xs ys))"

definition mcnemar_pair ::
    "scipy \<Rightarrow> (string, int list) dict \<Rightarrow> string \<times> string
      \<Rightarrow> (string, rat) dict \<times> (string, pair_entry) dict
      \<Rightarrow> (string, rat) dict \<times> (string, pair_entry) dict" where
  "mcnemar_pair sp outcomes fs x =
     (case x of (raw_p, entries) \<Rightarrow>
       (let key = pair_key fs;
            b = discordant (series_of outcomes (fst fs)) (series_of outcomes (snd fs));
            c = discordant (series_of outcomes (snd fs)) (series_of outcomes (fst fs))
        in if b + c = 0 then
             (raw_p, dset key \<lparr>pe_test = Untested ''no discordant pairs'', pe_holm = None\<rparr> entries)
           else (let p = sp_binomtest sp b (b + c)
                 in (dset key p raw_p, dset key \<lparr>pe_test = Mcnemar b c p, pe_holm = None\<rparr> entries))))"

definition cochran_q :: "scipy \<Rightarrow> string list \<Rightarrow> (string, int list) dict \<Rightarrow> binary_result" where
  "cochran_q sp conditions outcomes =
     (let n = common_length outcomes conditions;
          aligned_outcomes = aligned outcomes conditions;
          columns = map (series_of aligned_outcomes) conditions;
          res = \<lparr>bres_conditions = conditions, bres_n_paired_runs = n,
                 bres_successes = for_conditions (\<lambda>c. sum_list (series_of aligned_outcomes c)) conditions,
                 bres_rates = for_conditions (\<lambda>c. if n = 0 then None
                   else Some (round6 (of_int (sum_list (series_of aligned_outcomes c)) / of_nat n))) conditions,
                 bres_omnibus = No_omnibus (only_runs n), bres_interpretation = None,
                 bres_pairwise = None, bres_family_size = None\<rparr>
      in if n < 3 then res
         else if all_constant_and_equal columns then
           res\<lparr>bres_omnibus := No_omnibus ''every condition produced the same constant outcome''\<rparr>
         else (let sp_result = (case sp_cochrans_q sp of
                                  Some f \<Rightarrow> f columns
                                | None \<Rightarrow> Some (cochran_q_manual sp columns));
                   p_value = map_option snd sp_result;
                   significant = significant_p p_value;
                   res1 = res\<lparr>bres_omnibus := Omnibus (map_option (round6 \<circ> fst) sp_result)
                                 (int (length conditions) - 1) p_value significant\<rparr>
               in if \<not> significant then
                    res1\<lparr>bres_pairwise := Some [],
                         bres_interpretation := Some ''omnibus not significant; no pairwise follow-up''\<rparr>
                  else (let tested = fold (mcnemar_pair sp aligned_outcomes) (condition_pairs conditions) ([], [])
                        in res1\<lparr>bres_pairwise := Some (marked tested),
                                bres_family_size := Some (length (fst tested))\<rparr>)))"

section \<open>Rates\<close>

record rates =
  rat_tp :: int
  rat_tn :: int
  rat_fp :: int
  rat_fn :: int
  rat_illegitimate :: int
  rat_legitimate :: int
  rat_labelled :: int
  rat_false_acceptance :: "rat option"
  rat_false_rejection :: "rat option"
  rat_detection :: "rat option"
  rat_precision :: "rat option"
  rat_accuracy :: "rat option"
  rat_f1 :: "rat option"

definition ratio :: "int \<Rightarrow> int \<Rightarrow> rat option" where
  "ratio numerator denominator =
     (if denominator = 0 then None else Some (round6 (of_int numerator / of_int denominator)))"

text \<open>\<open>counts.get(k, counts.get(alternative, 0))\<close>\<close>

definition count_or :: "(string, int) dict \<Rightarrow> string \<Rightarrow> string \<Rightarrow> int" where
  "count_or counts k alternative =
     (case dget counts k of Some v \<Rightarrow> v | None \<Rightarrow> count_of counts alternative)"

definition confusion_rates :: "(string, int) dict \<Rightarrow> rates" where
  "confusion_rates counts =
     (let tp = count_or counts ''true_positive'' ''correct_rejection'';
          tn = count_or counts ''true_negative'' ''correct_acceptance'';
          fp = count_or counts ''false_positive'' ''false_rejection'';
          fn = count_or counts ''false_negative'' ''false_acceptance''
      in \<lparr>rat_tp = tp, rat_tn = tn, rat_fp = fp, rat_fn = fn,
          rat_illegitimate = tp + fn, rat_legitimate = tn + fp, rat_labelled = tp + tn + fp + fn,
          rat_false_acceptance = ratio fn (tp + fn), rat_false_rejection = ratio fp (tn + fp),
          rat_detection = ratio tp (tp + fn), rat_precision = ratio tp (tp + fp),
          rat_accuracy = ratio (tp + tn) (tp + tn + fp + fn),
          rat_f1 = ratio (2 * tp) (2 * tp + fp + fn)\<rparr>)"

text \<open>The dictionary \<open>confusion()\<close> of a run returns, with its keys.\<close>

definition confusion_dict :: "confusion_counts \<Rightarrow> (string, int) dict" where
  "confusion_dict c =
     [(''true_positive'', cf_true_positive c), (''false_negative'', cf_false_negative c),
      (''true_negative'', cf_true_negative c), (''false_positive'', cf_false_positive c),
      (''correct_acceptance'', cf_correct_acceptance c), (''false_rejection'', cf_false_rejection c),
      (''correct_rejection'', cf_correct_rejection c), (''false_acceptance'', cf_false_acceptance c),
      (''legitimate_total'', cf_legitimate_total c), (''adversarial_total'', cf_adversarial_total c),
      (''illegitimate_total'', cf_illegitimate_total c), (''labelled_total'', cf_labelled_total c),
      (''correct_total'', cf_correct_total c)]"

end
