(* ===== verification/Statistics_Facts.thy ===== *)
theory Statistics_Facts
  imports Campaign_Statistics
begin

text \<open>
  What holds of the statistical procedures, for every answer of SciPy: rounding is monotone and
  symmetric; the interval of the paired bootstrap lies within the observed differences; the effect size
  is a correlation and changes its sign with the order of the conditions; an adjusted p-value is below a
  level exactly when Holm's step-down procedure rejects at that level; follow-ups run only after a
  significant omnibus test; and the rates of a run are those of its scored steps.
\<close>

section \<open>Rounding\<close>

lemma round_half_even_bounds:
  "of_int (round_half_even x) \<le> x + 1 / 2" "x - 1 / 2 \<le> of_int (round_half_even x)"
proof -
  have f: "of_int \<lfloor>x\<rfloor> \<le> x" "x < of_int \<lfloor>x\<rfloor> + 1" by linarith+
  then have g: "of_int \<lfloor>x\<rfloor> \<le> x + 1 / 2" "x - 1 / 2 \<le> of_int \<lfloor>x\<rfloor> + 1" by linarith+
  show "of_int (round_half_even x) \<le> x + 1 / 2" using f g by (auto simp: round_half_even_def Let_def)
  show "x - 1 / 2 \<le> of_int (round_half_even x)" using f g by (auto simp: round_half_even_def Let_def)
qed

lemma round_half_even_mono: "x \<le> y \<Longrightarrow> round_half_even x \<le> round_half_even y"
proof (cases "\<lfloor>x\<rfloor> = \<lfloor>y\<rfloor>")
  case True
  assume "x \<le> y"
  with True show ?thesis by (auto simp: round_half_even_def Let_def)
next
  case False
  assume "x \<le> y"
  then have "\<lfloor>x\<rfloor> \<le> \<lfloor>y\<rfloor>" by (rule floor_mono)
  with False have "\<lfloor>x\<rfloor> + 1 \<le> \<lfloor>y\<rfloor>" by simp
  moreover have "round_half_even x \<le> \<lfloor>x\<rfloor> + 1" "\<lfloor>y\<rfloor> \<le> round_half_even y"
    by (simp_all add: round_half_even_def Let_def)
  ultimately show ?thesis by linarith
qed

lemma round_half_even_of_int [simp]: "round_half_even (of_int n) = n"
  by (simp add: round_half_even_def)

lemma round_half_even_minus: "round_half_even (- x) = - round_half_even x"
proof (cases "x = of_int \<lfloor>x\<rfloor>")
  case True
  then show ?thesis by (metis of_int_minus round_half_even_of_int)
next
  case False
  define q where "q = \<lfloor>x\<rfloor>"
  define r where "r = x - of_int q"
  have r: "0 < r" "r < 1" using False unfolding r_def q_def by linarith+
  have x: "x = of_int q + r" by (simp add: r_def)
  have "\<lfloor>x\<rfloor> = q" by (simp add: q_def)
  moreover have "\<lfloor>- x\<rfloor> = - q - 1" using r unfolding x by (intro floor_unique) simp_all
  ultimately show ?thesis
    using r by (auto simp: round_half_even_def Let_def x)
qed

lemma round6_mono: "x \<le> y \<Longrightarrow> round6 x \<le> round6 y"
  by (simp add: round6_def divide_right_mono round_half_even_mono)

lemma round6_minus: "round6 (- x) = - round6 x"
  by (simp add: round6_def round_half_even_minus)

lemma round6_int [simp]: "round6 (of_int n) = of_int n"
proof -
  have "(of_int n :: rat) * 1000000 = of_int (n * 1000000)" by simp
  then have "round_half_even (of_int n * 1000000) = n * 1000000" by (metis round_half_even_of_int)
  then show ?thesis by (simp add: round6_def)
qed

lemma round6_0_1 [simp]: "round6 0 = 0" "round6 1 = 1"
  using round6_int [of 0] round6_int [of 1] by simp_all

lemma round6_unit: "0 \<le> x \<Longrightarrow> x \<le> 1 \<Longrightarrow> 0 \<le> round6 x \<and> round6 x \<le> 1"
  using round6_mono [of 0 x] round6_mono [of x 1] by simp

lemma round6_close: "\<bar>round6 x - x\<bar> \<le> 5 / 10000000"
proof -
  have "x * 1000000 - 1 / 2 \<le> of_int (round_half_even (x * 1000000))"
    "of_int (round_half_even (x * 1000000)) \<le> x * 1000000 + 1 / 2"
    by (rule round_half_even_bounds)+
  then have "\<bar>of_int (round_half_even (x * 1000000)) - x * 1000000\<bar> \<le> 1 / 2" by linarith
  then have "\<bar>of_int (round_half_even (x * 1000000)) - x * 1000000\<bar> / 1000000 \<le> 1 / 2 / 1000000"
    by (rule divide_right_mono) simp
  moreover have "round6 x - x = (of_int (round_half_even (x * 1000000)) - x * 1000000) / 1000000"
    by (simp add: round6_def field_simps)
  ultimately show ?thesis by (simp only: abs_divide)
qed

section \<open>Percentiles\<close>

text \<open>The percentile of the analysis is the one of the runs, on the sorted values.\<close>

lemma percentile_q_eq:
  assumes "values \<noteq> []" "0 \<le> q" "q \<le> 100"
  shows "percentile_q values q = Some (percentile (sort values) (q / 100))"
proof (cases "length values = 1")
  case True
  with assms show ?thesis by (simp add: percentile_q_def percentile_def)
next
  case False
  define xs where "xs = sort values"
  have l: "2 \<le> length xs" using assms(1) False by (cases "values"; cases "tl values") (auto simp: xs_def)
  define p where "p = of_nat (length xs - 1) * (q / 100)"
  define k where "k = nat \<lfloor>p\<rfloor>"
  have "p \<le> of_nat (length xs - 1) * 1" unfolding p_def using assms(3) by (intro mult_left_mono) simp_all
  moreover have p0: "0 \<le> p" unfolding p_def using assms(2) by simp
  ultimately have p: "0 \<le> p" "p \<le> of_nat (length xs - 1)" by simp_all
  have k: "of_nat k = (of_int \<lfloor>p\<rfloor> :: rat)" using p0 by (simp add: k_def of_nat_nat)
  have pc: "percentile xs (q / 100) = xs ! k * (1 - (p - of_nat k)) + xs ! min (k + 1) (length xs - 1) * (p - of_nat k)"
    using l by (simp add: percentile_def Let_def p_def k_def mult.commute)
  have qd: "percentile_q values q = Some (if k = nat \<lceil>p\<rceil> then xs ! k
      else xs ! k * (1 - (p - of_nat k)) + xs ! nat \<lceil>p\<rceil> * (p - of_nat k))"
    using assms(1) False by (simp add: percentile_q_def Let_def p_def k_def xs_def)
  show ?thesis
  proof (cases "p = of_nat k")
    case True
    then have "\<lceil>p\<rceil> = int k" by simp
    then have "nat \<lceil>p\<rceil> = k" by simp
    then show ?thesis using True pc qd by (simp add: xs_def)
  next
    case np: False
    have "\<lceil>p\<rceil> = \<lfloor>p\<rfloor> + 1" using np k by (metis ceiling_altdef of_int_eq_iff)
    moreover have "0 \<le> \<lfloor>p\<rfloor>" using p0 by simp
    ultimately have u: "nat \<lceil>p\<rceil> = k + 1" by (simp add: k_def nat_add_distrib)
    have "of_nat k < p" using np k by (metis le_less of_int_floor_le)
    with p(2) have "of_nat k < (of_nat (length xs - 1) :: rat)" by linarith
    then have "k < length xs - 1" by simp
    then show ?thesis using pc qd u by (simp add: xs_def)
  qed
qed

lemma percentile_within:
  assumes "values \<noteq> []" "0 \<le> q" "q \<le> 100" "percentile_q values q = Some v"
    and "\<forall>x \<in> set values. lo \<le> x \<and> x \<le> hi"
  shows "lo \<le> v \<and> v \<le> hi"
proof -
  let ?xs = "sort values"
  have v: "v = percentile ?xs (q / 100)" using percentile_q_eq [OF assms(1-3)] assms(4) by simp
  have ne: "?xs \<noteq> []" using assms(1) by (metis length_0_conv length_sort)
  note po = percentile_ordered [OF sorted_sort ne]
  have "percentile ?xs 0 \<le> v" "v \<le> percentile ?xs 1" using assms(2,3) by (simp_all add: v po)
  moreover have "percentile ?xs 0 \<in> set values" "percentile ?xs 1 \<in> set values"
    using ne assms(1) by (simp_all add: percentile_zero percentile_one)
       (metis length_greater_0_conv nth_mem set_sort, metis last_in_set set_sort)
  ultimately show ?thesis using assms(5) by force
qed

lemma percentile_q_mono:
  assumes "values \<noteq> []" "0 \<le> p" "p \<le> q" "q \<le> 100"
  shows "or_zero (percentile_q values p) \<le> or_zero (percentile_q values q)"
proof -
  have ne: "sort values \<noteq> []" using assms(1) by (metis length_0_conv length_sort)
  show ?thesis
    using assms percentile_ordered [OF sorted_sort ne, of "p / 100" "q / 100"]
    by (simp add: percentile_q_eq or_zero_def)
qed

lemma or_zero_within:
  assumes "values \<noteq> []" "0 \<le> q" "q \<le> 100" "\<forall>x \<in> set values. lo \<le> x \<and> x \<le> hi"
  shows "lo \<le> or_zero (percentile_q values q) \<and> or_zero (percentile_q values q) \<le> hi"
  using percentile_within [OF assms(1-3) _ assms(4)] percentile_q_eq [OF assms(1-3)] by (simp add: or_zero_def)

section \<open>The bootstrap interval\<close>

definition draws_below :: "'g rng \<Rightarrow> bool" where
  "draws_below rg \<longleftrightarrow> (\<forall>n g. 0 < n \<longrightarrow> fst (rg_below rg n g) < n)"

lemma resample_subset:
  assumes "draws_below rg" "pairs \<noteq> []"
  shows "set (fst (resample rg pairs k g)) \<subseteq> set pairs \<and> length (fst (resample rg pairs k g)) = k"
proof (induction k arbitrary: g)
  case 0
  show ?case by simp
next
  case (Suc k)
  obtain i g1 where i: "rg_below rg (length pairs) g = (i, g1)" by fastforce
  have "i < length pairs"
    using assms i by (metis draws_below_def fst_conv length_greater_0_conv)
  then show ?case using Suc.IH [of g1] by (auto simp: i split: prod.split)
qed

lemma mean_within:
  assumes "(xs :: rat list) \<noteq> []" "\<forall>x \<in> set xs. lo \<le> x \<and> x \<le> hi"
  shows "lo \<le> sum_list xs / of_nat (length xs) \<and> sum_list xs / of_nat (length xs) \<le> hi"
proof -
  have "of_nat (length xs) * lo \<le> sum_list xs \<and> sum_list xs \<le> of_nat (length xs) * hi"
    using assms(2) by (induction xs) (auto simp: algebra_simps)
  then show ?thesis using assms(1) by (simp add: field_simps)
qed

lemma point_within:
  assumes "sample \<noteq> []" "\<forall>p \<in> set sample. lo \<le> fst p - snd p \<and> fst p - snd p \<le> hi"
  shows "lo \<le> point statistic sample \<and> point statistic sample \<le> hi"
proof -
  let ?d = "map (\<lambda>(x, y). x - y) sample"
  have d: "?d \<noteq> []" "\<forall>x \<in> set ?d. lo \<le> x \<and> x \<le> hi" using assms by (auto simp: split_beta)
  show ?thesis
    using mean_within [OF d] or_zero_within [OF d(1) _ _ d(2), of 50] by (simp add: point_def Let_def)
qed

lemma bootstrap_draws_length [simp]: "length (bootstrap_draws rg statistic pairs k g) = k"
  by (induction k arbitrary: g) (simp_all split: prod.split)

lemma bootstrap_draws_within:
  assumes "draws_below rg" "pairs \<noteq> []" "\<forall>p \<in> set pairs. lo \<le> fst p - snd p \<and> fst p - snd p \<le> hi"
  shows "\<forall>x \<in> set (bootstrap_draws rg statistic pairs k g). lo \<le> x \<and> x \<le> hi"
proof (induction k arbitrary: g)
  case (Suc k)
  obtain sample g1 where s: "resample rg pairs (length pairs) g = (sample, g1)" by fastforce
  have r: "set sample \<subseteq> set pairs" "length sample = length pairs"
    using resample_subset [OF assms(1,2), of "length pairs" g] s by simp_all
  with assms(2) have "sample \<noteq> []" by auto
  moreover have "\<forall>p \<in> set sample. lo \<le> fst p - snd p \<and> fst p - snd p \<le> hi" using r(1) assms(3) by blast
  ultimately have "lo \<le> point statistic sample \<and> point statistic sample \<le> hi" by (rule point_within)
  then show ?case using Suc.IH [of g1] by (simp add: s)
qed simp

lemma bootstrap_interval:
  assumes "draws_below rg" "0 < resamples"
    and "paired_bootstrap_ci rg a b statistic resamples seed = Interval ci"
    and "\<forall>p \<in> set (present_pairs a b). lo \<le> fst p - snd p \<and> fst p - snd p \<le> hi"
  shows "round6 lo \<le> bci_lower_95 ci" "bci_lower_95 ci \<le> bci_upper_95 ci" "bci_upper_95 ci \<le> round6 hi"
    and "round6 lo \<le> bci_point_estimate ci" "bci_point_estimate ci \<le> round6 hi"
    and "bci_n_pairs ci = length (present_pairs a b)" "2 \<le> bci_n_pairs ci"
proof -
  let ?p = "present_pairs a b" and ?d = "bootstrap_draws rg statistic (present_pairs a b) resamples (rg_seed rg seed)"
  have l: "2 \<le> length ?p" using assms(3) by (auto simp: paired_bootstrap_ci_def Let_def split: if_splits)
  then have ne: "?p \<noteq> []" by auto
  have ci: "bci_point_estimate ci = round6 (point statistic ?p)"
      "bci_lower_95 ci = round6 (or_zero (percentile_q ?d (25 / 10)))"
      "bci_upper_95 ci = round6 (or_zero (percentile_q ?d (975 / 10)))" "bci_n_pairs ci = length ?p"
    using assms(3) l by (auto simp: paired_bootstrap_ci_def Let_def)
  note w = bootstrap_draws_within [OF assms(1) ne assms(4), of statistic resamples "rg_seed rg seed"]
  have d: "?d \<noteq> []" using assms(2) by (metis bootstrap_draws_length length_0_conv less_irrefl)
  show "round6 lo \<le> bci_lower_95 ci"
    unfolding ci using or_zero_within [OF d _ _ w, of "25 / 10"] by (intro round6_mono) simp
  show "bci_upper_95 ci \<le> round6 hi"
    unfolding ci using or_zero_within [OF d _ _ w, of "975 / 10"] by (intro round6_mono) simp
  show "bci_lower_95 ci \<le> bci_upper_95 ci"
    unfolding ci by (intro round6_mono percentile_q_mono d) simp_all
  show "round6 lo \<le> bci_point_estimate ci" "bci_point_estimate ci \<le> round6 hi"
    unfolding ci using point_within [OF ne assms(4), of statistic] by (simp_all add: round6_mono)
  show "bci_n_pairs ci = length ?p" "2 \<le> bci_n_pairs ci" using ci l by simp_all
qed

section \<open>Holm's procedure\<close>

text \<open>
  The reference: go through the p-values in ascending order, compare the smallest of the remaining ones
  with the level divided by how many remain, and stop at the first that is not below.
\<close>

fun step_down :: "rat \<Rightarrow> (string, rat) dict \<Rightarrow> string list" where
  "step_down level [] = []"
| "step_down level ((key, raw) # ordered) =
     (if raw < level / of_nat (Suc (length ordered)) then key # step_down level ordered else [])"

definition holm_rejects :: "rat \<Rightarrow> (string, rat) dict \<Rightarrow> string set" where
  "holm_rejects level p_values = set (step_down level (sort_key snd p_values))"

lemma step_down_keys: "set (step_down level ordered) \<subseteq> fst ` set ordered"
  by (induction level ordered rule: step_down.induct) auto

lemma holm_steps_other:
  "k \<notin> fst ` set ordered \<Longrightarrow> dget (holm_steps m i running ordered adjusted) k = dget adjusted k"
  by (induction m i running ordered adjusted rule: holm_steps.induct) (auto simp: Let_def)

lemma holm_steps_adjusts:
  assumes "dict_ok ordered" "length ordered + i = m" "(k, raw) \<in> set ordered"
  shows "\<exists>v. dget (holm_steps m i running ordered adjusted) k = Some v \<and> running \<le> v
    \<and> (running \<le> 1 \<longrightarrow> v \<le> 1) \<and> (raw \<le> 1 \<longrightarrow> 0 \<le> raw \<longrightarrow> raw \<le> v)
    \<and> (level \<le> 1 \<longrightarrow> running < level \<longrightarrow> (v < level \<longleftrightarrow> k \<in> set (step_down level ordered)))
    \<and> (level \<le> running \<longrightarrow> \<not> v < level)"
  using assms
proof (induction ordered arbitrary: i running adjusted)
  case Nil
  then show ?case by simp
next
  case (Cons p ordered)
  obtain k0 raw0 where p: "p = (k0, raw0)" by fastforce
  define c where "c = min 1 (of_nat (Suc (length ordered)) * raw0)"
  define r where "r = max running c"
  have m: "(of_nat m - of_nat i :: rat) = of_nat (Suc (length ordered))"
    using Cons.prems(2) by auto
  have step: "holm_steps m i running (p # ordered) adjusted =
      holm_steps m (i + 1) r ordered (dset k0 r adjusted)"
    unfolding p by (simp add: Let_def m c_def r_def del: of_nat_Suc)
  have c: "c \<le> 1" by (simp add: c_def)
  have lt: "raw0 < level / of_nat (Suc (length ordered)) \<longleftrightarrow> of_nat (Suc (length ordered)) * raw0 < level"
    by (subst pos_less_divide_eq) (simp_all add: mult.commute)
  have below: "c < level \<longleftrightarrow> of_nat (Suc (length ordered)) * raw0 < level" if "level \<le> 1"
    using that by (auto simp: c_def min_def)
  have dk: "k0 \<notin> fst ` set ordered" "dict_ok ordered" using Cons.prems(1) by (simp_all add: p)
  show ?case
  proof (cases "k = k0")
    case True
    then have raw: "raw = raw0" using Cons.prems(3) dk(1) by (force simp: p)
    have "0 \<le> raw0 \<Longrightarrow> raw0 \<le> of_nat (Suc (length ordered)) * raw0" by (simp add: algebra_simps)
    then have "raw0 \<le> 1 \<Longrightarrow> 0 \<le> raw0 \<Longrightarrow> raw0 \<le> r" by (simp add: r_def c_def le_max_iff_disj)
    moreover have "dget (holm_steps m i running (p # ordered) adjusted) k = Some r"
      unfolding step using dk(1) True by (simp add: holm_steps_other)
    moreover have "k0 \<in> set (step_down level (p # ordered)) \<longleftrightarrow> of_nat (Suc (length ordered)) * raw0 < level"
      using lt by (auto simp: p)
    ultimately show ?thesis
      using c True raw below by (auto simp: r_def)
  next
    case False
    then have kin: "(k, raw) \<in> set ordered" using Cons.prems(3) by (simp add: p)
    obtain v where v: "dget (holm_steps m (i + 1) r ordered (dset k0 r adjusted)) k = Some v" "r \<le> v"
        "r \<le> 1 \<longrightarrow> v \<le> 1" "raw \<le> 1 \<longrightarrow> 0 \<le> raw \<longrightarrow> raw \<le> v"
        "level \<le> 1 \<longrightarrow> r < level \<longrightarrow> (v < level \<longleftrightarrow> k \<in> set (step_down level ordered))"
        "level \<le> r \<longrightarrow> \<not> v < level"
      using Cons.IH [OF dk(2) _ kin, of "i + 1" r "dset k0 r adjusted"] Cons.prems(2) by auto
    have "k \<in> set (step_down level (p # ordered)) \<longleftrightarrow>
        of_nat (Suc (length ordered)) * raw0 < level \<and> k \<in> set (step_down level ordered)"
      using lt False by (auto simp: p)
    then show ?thesis
      using v c below unfolding step by (auto simp: r_def)
  qed
qed

lemma sort_key_dict: "dict_ok d \<Longrightarrow> dict_ok (sort_key snd d)"
  by (simp add: distinct_map)

lemma holm_adjusts:
  assumes "dict_ok p_values" "dget p_values k = Some raw"
  shows "\<exists>v. dget (holm p_values) k = Some v \<and> 0 \<le> v \<and> v \<le> 1 \<and> (0 \<le> raw \<longrightarrow> raw \<le> 1 \<longrightarrow> raw \<le> v)
    \<and> (0 < level \<longrightarrow> level \<le> 1 \<longrightarrow> (v < level \<longleftrightarrow> k \<in> holm_rejects level p_values))"
proof -
  have "(k, raw) \<in> set (sort_key snd p_values)" using assms(2) by (simp add: map_of_SomeD)
  from holm_steps_adjusts [OF sort_key_dict [OF assms(1)] _ this, of 0 "length (sort_key snd p_values)" 0 "[]" level]
  show ?thesis using assms(2) by (auto simp: holm_def holm_rejects_def Let_def)
qed

lemma holm_keys:
  assumes "dict_ok p_values"
  shows "dget (holm p_values) k = None \<longleftrightarrow> dget p_values k = None"
proof
  assume "dget p_values k = None"
  then have "k \<notin> fst ` set (sort_key snd p_values)" by (simp add: map_of_eq_None_iff)
  then show "dget (holm p_values) k = None" by (simp add: holm_def Let_def holm_steps_other)
next
  assume "dget (holm p_values) k = None"
  then show "dget p_values k = None" using holm_adjusts [OF assms, of k _ 1] by (cases "dget p_values k") auto
qed

section \<open>The effect size\<close>

text \<open>What \<open>scipy.stats.rankdata\<close> documents: one rank for each value, counted from one.\<close>

definition ranks_from_one :: "scipy \<Rightarrow> bool" where
  "ranks_from_one sp \<longleftrightarrow>
     (\<forall>xs. length (sp_rankdata sp xs) = length xs \<and> (\<forall>r \<in> set (sp_rankdata sp xs). 1 \<le> r))"

lemma fraction_bounded:
  fixes p n :: rat
  assumes "0 \<le> p" "0 \<le> n"
  shows "\<bar>if p + n \<noteq> 0 then (p - n) / (p + n) else 0\<bar> \<le> 1"
proof (cases "p + n = 0")
  case False
  with assms have "0 < p + n" by simp
  then have "\<bar>(p - n) / (p + n)\<bar> = \<bar>p - n\<bar> / (p + n)" by simp
  also have "\<dots> \<le> 1" using \<open>0 < p + n\<close> assms by (simp add: abs_le_iff)
  finally show ?thesis using False by simp
qed simp

text \<open>The effect of a list of differences that are not zero.\<close>

definition signed_ranks :: "scipy \<Rightarrow> (rat \<Rightarrow> bool) \<Rightarrow> rat list \<Rightarrow> rat" where
  "signed_ranks sp Q nz = sum_list (map fst (filter (\<lambda>(r, d). Q d) (zip (sp_rankdata sp (map abs nz)) nz)))"

definition balance :: "scipy \<Rightarrow> rat list \<Rightarrow> rat" where
  "balance sp nz =
     (let p = signed_ranks sp (\<lambda>d. d > 0) nz; n = signed_ranks sp (\<lambda>d. d < 0) nz
      in if p + n \<noteq> 0 then (p - n) / (p + n) else 0)"

definition differences :: "(rat \<times> rat) list \<Rightarrow> rat list" where
  "differences pairs = filter (\<lambda>d. d \<noteq> 0) (map (\<lambda>(x, y). x - y) pairs)"

lemma rank_biserial_eq:
  "rank_biserial sp a b =
     (let pairs = present_pairs a b; nz = differences pairs
      in if nz = [] then All_tied (length pairs)
         else Effect \<lparr>eff_value = round6 (balance sp nz), eff_n_pairs = length pairs,
           eff_n_non_tied = length nz, eff_magnitude = magnitude_name \<bar>balance sp nz\<bar>,
           eff_direction = direction_name (balance sp nz)\<rparr>)"
  unfolding rank_biserial_def balance_def signed_ranks_def differences_def Let_def by (rule refl)

lemma signed_ranks_nonneg: "ranks_from_one sp \<Longrightarrow> 0 \<le> signed_ranks sp Q nz"
  unfolding signed_ranks_def
proof (rule sum_list_nonneg)
  fix r assume "ranks_from_one sp" "r \<in> set (map fst (filter (\<lambda>(r, d). Q d) (zip (sp_rankdata sp (map abs nz)) nz)))"
  then have "r \<in> set (sp_rankdata sp (map abs nz))" by (auto dest: set_zip_leftD)
  then have "1 \<le> r" using \<open>ranks_from_one sp\<close> by (simp add: ranks_from_one_def)
  then show "0 \<le> r" by simp
qed

lemma rank_biserial_bounded:
  assumes "ranks_from_one sp" "rank_biserial sp a b = Effect e"
  shows "- 1 \<le> eff_value e" "eff_value e \<le> 1" "0 < eff_n_non_tied e" "eff_n_non_tied e \<le> eff_n_pairs e"
proof -
  let ?p = "present_pairs a b" and ?b = "balance sp (differences (present_pairs a b))"
  have e: "differences ?p \<noteq> []" "eff_value e = round6 ?b"
      "eff_n_non_tied e = length (differences ?p)" "eff_n_pairs e = length ?p"
    using assms(2) by (auto simp: rank_biserial_eq Let_def split: if_splits)
  have "\<bar>?b\<bar> \<le> 1"
    unfolding balance_def Let_def by (intro fraction_bounded signed_ranks_nonneg assms(1))
  then have b: "- 1 \<le> ?b" "?b \<le> 1" by linarith+
  have m: "round6 (- 1) = - 1" using round6_int [of "- 1"] by simp
  show "- 1 \<le> eff_value e" using round6_mono [OF b(1)] by (simp add: e m)
  show "eff_value e \<le> 1" using round6_mono [OF b(2)] by (simp add: e)
  show "0 < eff_n_non_tied e" using e by simp
  show "eff_n_non_tied e \<le> eff_n_pairs e"
    unfolding e differences_def by (metis length_filter_le length_map)
qed

lemma present_pairs_simps [simp]:
  "present_pairs [] b = []" "present_pairs a [] = []"
  "present_pairs (None # a) (y # b) = present_pairs a b"
  "present_pairs (x # a) (None # b) = present_pairs a b"
  "present_pairs (Some v # a) (Some w # b) = (v, w) # present_pairs a b"
  by (simp_all add: present_pairs_def List.map_filter_simps split: option.split)

lemma present_pairs_swap: "present_pairs b a = map prod.swap (present_pairs a b)"
proof (induction a b rule: list_induct2')
  case (4 x xs y ys)
  then show ?case by (cases x; cases y) simp_all
qed simp_all

definition opposite_direction :: "string \<Rightarrow> string" where
  "opposite_direction d =
     (if d = ''first exceeds second'' then ''second exceeds first''
      else if d = ''second exceeds first'' then ''first exceeds second''
      else d)"

lemma direction_minus: "direction_name (- v) = opposite_direction (direction_name v)"
  by (simp add: direction_name_def opposite_direction_def)

lemma signed_ranks_minus: "signed_ranks sp Q (map uminus nz) = signed_ranks sp (\<lambda>d. Q (- d)) nz"
  by (simp add: signed_ranks_def zip_map2 filter_map comp_def case_prod_beta')

lemma balance_minus: "balance sp (map uminus nz) = - balance sp nz"
  by (simp add: balance_def Let_def signed_ranks_minus add.commute minus_divide_left)

lemma differences_swap: "differences (map prod.swap pairs) = map uminus (differences pairs)"
  by (induction pairs) (auto simp: differences_def)

lemma rank_biserial_swap:
  assumes "rank_biserial sp a b = Effect e"
  shows "rank_biserial sp b a =
    Effect (e\<lparr>eff_value := - eff_value e, eff_direction := opposite_direction (eff_direction e)\<rparr>)"
  using assms
  by (auto simp: rank_biserial_eq Let_def present_pairs_swap [of b a] differences_swap balance_minus
      round6_minus direction_minus split: if_splits)

section \<open>Follow-ups\<close>

text \<open>
  Both procedures fill two tables pair by pair: the raw p-values, and the entries. A pair is tested or
  not; its entry says which, and its p-value enters the family only if it is.
\<close>

locale pair_table =
  fixes step :: "'p \<Rightarrow> (string, rat) dict \<times> (string, pair_entry) dict \<Rightarrow> (string, rat) dict \<times> (string, pair_entry) dict"
    and key :: "'p \<Rightarrow> string" and pval :: "'p \<Rightarrow> rat option" and test :: "'p \<Rightarrow> pair_test"
  assumes step_eq: "step p x =
    ((case pval p of None \<Rightarrow> fst x | Some v \<Rightarrow> dset (key p) v (fst x)),
     dset (key p) \<lparr>pe_test = test p, pe_holm = None\<rparr> (snd x))"
begin

lemma steps_other:
  assumes "k \<notin> key ` set ps"
  shows "dget (fst (fold step ps x)) k = dget (fst x) k" "dget (snd (fold step ps x)) k = dget (snd x) k"
  using assms by (induction ps arbitrary: x) (auto simp: step_eq split: option.split)

lemma steps_ok: "dict_ok (fst x) \<Longrightarrow> dict_ok (fst (fold step ps x))"
  by (induction ps arbitrary: x) (auto simp: step_eq split: option.split)

lemma steps_at:
  assumes "distinct (map key ps)" "p \<in> set ps"
  shows "dget (fst (fold step ps x)) (key p) = (case pval p of None \<Rightarrow> dget (fst x) (key p) | Some v \<Rightarrow> Some v)"
    and "dget (snd (fold step ps x)) (key p) = Some \<lparr>pe_test = test p, pe_holm = None\<rparr>"
proof -
  have "dget (fst (fold step ps x)) (key p) = (case pval p of None \<Rightarrow> dget (fst x) (key p) | Some v \<Rightarrow> Some v)
      \<and> dget (snd (fold step ps x)) (key p) = Some \<lparr>pe_test = test p, pe_holm = None\<rparr>"
    using assms
  proof (induction ps arbitrary: x)
    case (Cons q ps)
    show ?case
    proof (cases "p = q")
      case True
      with Cons.prems(1) have "key p \<notin> key ` set ps" by simp
      then show ?thesis
        using True step_eq [of q x] steps_other [of "key q" ps "step q x"] by (simp split: option.split)
    next
      case False
      then have "p \<in> set ps" using Cons.prems(2) by simp
      then have "key p \<noteq> key q" using Cons.prems(1) by (auto simp: image_iff)
      then show ?thesis
        using False Cons.prems Cons.IH [of "step q x"] step_eq [of q x] by (auto split: option.splits)
    qed
  qed simp
  then show "dget (fst (fold step ps x)) (key p) = (case pval p of None \<Rightarrow> dget (fst x) (key p) | Some v \<Rightarrow> Some v)"
    "dget (snd (fold step ps x)) (key p) = Some \<lparr>pe_test = test p, pe_holm = None\<rparr>" by simp_all
qed

end

lemma holm_steps_ok: "dict_ok adjusted \<Longrightarrow> dict_ok (holm_steps m i running ordered adjusted)"
  by (induction m i running ordered adjusted rule: holm_steps.induct) (simp_all add: Let_def)

lemma holm_ok: "dict_ok (holm p_values)"
  by (simp add: holm_def Let_def holm_steps_ok)

lemma mark_holm_at:
  "dget (mark_holm kv t) k =
     (if k = fst kv then map_option (\<lambda>e. e\<lparr>pe_holm := Some (snd kv, snd kv < ALPHA)\<rparr>) (dget t k) else dget t k)"
  by (auto simp: mark_holm_def split: option.split)

lemma marks_at:
  assumes "dict_ok adjusted"
  shows "dget (fold mark_holm adjusted t) k =
    (case dget adjusted k of None \<Rightarrow> dget t k
     | Some v \<Rightarrow> map_option (\<lambda>e. e\<lparr>pe_holm := Some (v, v < ALPHA)\<rparr>) (dget t k))"
  using assms
proof (induction adjusted arbitrary: t)
  case (Cons kv adjusted)
  then have "dget adjusted (fst kv) = None" by (simp add: map_of_eq_None_iff)
  with Cons show ?case by (cases kv) (auto simp: mark_holm_at split: option.split)
qed simp

lemma ALPHA_level: "0 < ALPHA" "ALPHA \<le> 1"
  by (simp_all add: ALPHA_def)

text \<open>What an entry says: whether its pair was tested, and for a tested pair the adjusted p-value and
  whether Holm's procedure rejects it within the family.\<close>

definition entry_holds :: "(string, rat) dict \<Rightarrow> string \<Rightarrow> pair_entry \<Rightarrow> bool" where
  "entry_holds family k e \<longleftrightarrow>
     (case dget family k of
        None \<Rightarrow> pe_holm e = None \<and> (\<exists>why. pe_test e = Untested why)
      | Some raw \<Rightarrow> (\<forall>why. pe_test e \<noteq> Untested why)
          \<and> (\<exists>v. pe_holm e = Some (v, k \<in> holm_rejects ALPHA family) \<and> (0 \<le> raw \<longrightarrow> raw \<le> 1 \<longrightarrow> raw \<le> v)))"

context pair_table
begin

lemma marked_entry:
  assumes "distinct (map key ps)" "p \<in> set ps" "(\<exists>why. test p = Untested why) \<longleftrightarrow> pval p = None"
  defines "x \<equiv> fold step ps ([], [])"
  shows "\<exists>e. dget (marked x) (key p) = Some e \<and> pe_test e = test p \<and> entry_holds (fst x) (key p) e"
    and "dget (fst x) (key p) = pval p"
proof -
  note at = steps_at [OF assms(1,2), of "([], [])", folded x_def]
  show fam: "dget (fst x) (key p) = pval p" using at(1) by (simp split: option.splits)
  have ok: "dict_ok (fst x)" unfolding x_def by (rule steps_ok) simp
  have m: "dget (marked x) (key p) =
      (case dget (holm (fst x)) (key p) of None \<Rightarrow> dget (snd x) (key p)
       | Some v \<Rightarrow> map_option (\<lambda>e. e\<lparr>pe_holm := Some (v, v < ALPHA)\<rparr>) (dget (snd x) (key p)))"
    unfolding marked_def by (rule marks_at) (rule holm_ok)
  show "\<exists>e. dget (marked x) (key p) = Some e \<and> pe_test e = test p \<and> entry_holds (fst x) (key p) e"
  proof (cases "pval p")
    case None
    then have "dget (holm (fst x)) (key p) = None" using holm_keys [OF ok, of "key p"] fam by simp
    with None m at(2) fam assms(3) show ?thesis by (auto simp: entry_holds_def)
  next
    case (Some raw)
    obtain v where "dget (holm (fst x)) (key p) = Some v" "0 \<le> raw \<longrightarrow> raw \<le> 1 \<longrightarrow> raw \<le> v"
        "v < ALPHA \<longleftrightarrow> key p \<in> holm_rejects ALPHA (fst x)"
      using holm_adjusts [OF ok, of "key p" raw ALPHA] fam Some ALPHA_level by auto
    with Some m at(2) fam assms(3) show ?thesis by (auto simp: entry_holds_def)
  qed
qed

lemma marked_table:
  assumes "distinct (map key ps)" "\<And>p. (\<exists>why. test p = Untested why) \<longleftrightarrow> pval p = None"
  defines "x \<equiv> fold step ps ([], [])"
  shows "\<forall>p \<in> set ps. \<exists>e. dget (marked x) (key p) = Some e \<and> pe_test e = test p
    \<and> entry_holds (fst x) (key p) e \<and> dget (fst x) (key p) = pval p"
  using marked_entry [OF assms(1) _ assms(2)] unfolding x_def by blast

lemma marked_family: "k \<notin> key ` set ps \<Longrightarrow> dget (fst (fold step ps ([], []))) k = None"
  by (simp add: steps_other)

end

definition wilcoxon_p :: "scipy \<Rightarrow> (string, rat list) dict \<Rightarrow> string \<times> string \<Rightarrow> rat option" where
  "wilcoxon_p sp samples fs =
     (let a = series_of samples (fst fs); b = series_of samples (snd fs)
      in if list_all (\<lambda>(x, y). x = y) (zip a b) then None
         else (case sp_wilcoxon sp a b of Inl exc \<Rightarrow> None | Inr (w_stat, w_p) \<Rightarrow> Some w_p))"

definition wilcoxon_test :: "scipy \<Rightarrow> 'g rng \<Rightarrow> (string, rat list) dict \<Rightarrow> string \<times> string \<Rightarrow> pair_test" where
  "wilcoxon_test sp rg samples fs =
     (let a = series_of samples (fst fs); b = series_of samples (snd fs)
      in if list_all (\<lambda>(x, y). x = y) (zip a b) then Untested ''all pairs identical''
         else (case sp_wilcoxon sp a b of
                 Inl exc \<Rightarrow> Untested exc
               | Inr (w_stat, w_p) \<Rightarrow>
                   Wilcoxon (round6 w_stat) w_p (rank_biserial sp (map Some a) (map Some b))
                     (paired_bootstrap_ci rg (map Some a) (map Some b) ''median_difference''
                        BOOTSTRAP_RESAMPLES BOOTSTRAP_SEED)))"

interpretation wx: pair_table "wilcoxon_pair sp rg samples" pair_key "wilcoxon_p sp samples" "wilcoxon_test sp rg samples"
  for sp :: scipy and rg :: "'g rng" and samples
  by unfold_locales
    (simp add: wilcoxon_pair_def wilcoxon_p_def wilcoxon_test_def Let_def split: prod.split sum.split)

lemma wilcoxon_untested: "(\<exists>why. wilcoxon_test sp rg samples fs = Untested why) \<longleftrightarrow> wilcoxon_p sp samples fs = None"
  by (auto simp: wilcoxon_test_def wilcoxon_p_def Let_def split: sum.splits)

definition mcnemar_counts :: "(string, int list) dict \<Rightarrow> string \<times> string \<Rightarrow> nat \<times> nat" where
  "mcnemar_counts outcomes fs =
     (discordant (series_of outcomes (fst fs)) (series_of outcomes (snd fs)),
      discordant (series_of outcomes (snd fs)) (series_of outcomes (fst fs)))"

definition mcnemar_p :: "scipy \<Rightarrow> (string, int list) dict \<Rightarrow> string \<times> string \<Rightarrow> rat option" where
  "mcnemar_p sp outcomes fs =
     (case mcnemar_counts outcomes fs of (b, c) \<Rightarrow> if b + c = 0 then None else Some (sp_binomtest sp b (b + c)))"

definition mcnemar_test :: "scipy \<Rightarrow> (string, int list) dict \<Rightarrow> string \<times> string \<Rightarrow> pair_test" where
  "mcnemar_test sp outcomes fs =
     (case mcnemar_counts outcomes fs of (b, c) \<Rightarrow>
        if b + c = 0 then Untested ''no discordant pairs'' else Mcnemar b c (sp_binomtest sp b (b + c)))"

interpretation mn: pair_table "mcnemar_pair sp outcomes" pair_key "mcnemar_p sp outcomes" "mcnemar_test sp outcomes"
  for sp outcomes
  by unfold_locales
    (simp add: mcnemar_pair_def mcnemar_p_def mcnemar_test_def mcnemar_counts_def Let_def split: prod.split)

lemma mcnemar_untested: "(\<exists>why. mcnemar_test sp outcomes fs = Untested why) \<longleftrightarrow> mcnemar_p sp outcomes fs = None"
  by (auto simp: mcnemar_test_def mcnemar_p_def split: prod.split)

lemma compare_pairwise:
  assumes "compare_three_paired sp rg c = Inr r" "cres_pairwise r = Some t" "t \<noteq> []"
  shows "\<exists>stat p. cres_omnibus r = Omnibus stat (int (length (cmp_conditions c)) - 1) (Some p) True \<and> p < ALPHA"
  using assms
  by (auto simp: compare_three_paired_def Let_def significant_p_def split: if_splits sum.splits option.splits)

lemma compare_entries:
  assumes "compare_three_paired sp rg c = Inr r" "cres_omnibus r = Omnibus stat df p True"
    and "distinct (map pair_key (condition_pairs (cmp_conditions c)))"
  defines "samples \<equiv> aligned (cmp_samples c) (cmp_conditions c)"
  shows "\<exists>t family. cres_pairwise r = Some t \<and> cres_family_size r = Some (length family)
    \<and> (\<forall>fs \<in> set (condition_pairs (cmp_conditions c)). \<exists>e. dget t (pair_key fs) = Some e
         \<and> pe_test e = wilcoxon_test sp rg samples fs \<and> entry_holds family (pair_key fs) e
         \<and> dget family (pair_key fs) = wilcoxon_p sp samples fs)"
proof -
  let ?x = "fold (wilcoxon_pair sp rg samples) (condition_pairs (cmp_conditions c)) ([], [])"
  have "cres_pairwise r = Some (marked ?x)" "cres_family_size r = Some (length (fst ?x))"
    using assms(1,2)
    by (auto simp: compare_three_paired_def Let_def samples_def split: if_splits sum.splits)
  with wx.marked_table [OF assms(3) wilcoxon_untested, of sp rg samples] show ?thesis by blast
qed

lemma cochran_pairwise:
  assumes "bres_pairwise (cochran_q sp conditions outcomes) = Some t" "t \<noteq> []"
  shows "\<exists>stat p. bres_omnibus (cochran_q sp conditions outcomes) = Omnibus stat (int (length conditions) - 1) (Some p) True
    \<and> p < ALPHA"
  using assms
  by (auto simp: cochran_q_def Let_def significant_p_def split: if_splits option.splits)

lemma cochran_entries:
  assumes "bres_omnibus (cochran_q sp conditions outcomes) = Omnibus stat df p True"
    and "distinct (map pair_key (condition_pairs conditions))"
  defines "samples \<equiv> aligned outcomes conditions"
  shows "\<exists>t family. bres_pairwise (cochran_q sp conditions outcomes) = Some t
    \<and> bres_family_size (cochran_q sp conditions outcomes) = Some (length family)
    \<and> (\<forall>fs \<in> set (condition_pairs conditions). \<exists>e. dget t (pair_key fs) = Some e
         \<and> pe_test e = mcnemar_test sp samples fs \<and> entry_holds family (pair_key fs) e
         \<and> dget family (pair_key fs) = mcnemar_p sp samples fs)"
proof -
  let ?x = "fold (mcnemar_pair sp samples) (condition_pairs conditions) ([], [])"
  have "bres_pairwise (cochran_q sp conditions outcomes) = Some (marked ?x)"
    "bres_family_size (cochran_q sp conditions outcomes) = Some (length (fst ?x))"
    using assms(1) by (auto simp: cochran_q_def Let_def samples_def split: if_splits)
  with mn.marked_table [OF assms(2) mcnemar_untested, of sp samples] show ?thesis by blast
qed

section \<open>Rates\<close>

lemma round_half_even_even: "round_half_even (of_int (2 * n) + x) = 2 * n + round_half_even x"
proof -
  have "\<lfloor>of_int (2 * n) + x\<rfloor> = 2 * n + \<lfloor>x\<rfloor>" by (metis int_add_floor)
  then show ?thesis by (simp add: round_half_even_def Let_def del: of_int_mult)
qed

lemma round6_complement: "round6 x + round6 (1 - x) = 1"
proof -
  have "(1 - x) * 1000000 = of_int (2 * 500000) + - (x * 1000000)" by (simp add: algebra_simps)
  then have "round_half_even ((1 - x) * 1000000) = 1000000 - round_half_even (x * 1000000)"
    by (simp only: round_half_even_even round_half_even_minus)
  then show ?thesis by (simp add: round6_def diff_divide_distrib)
qed

lemma ratio_unit:
  assumes "0 \<le> a" "a \<le> b" "ratio a b = Some v"
  shows "0 \<le> v" "v \<le> 1"
proof -
  have "0 < b" and v: "v = round6 (of_int a / of_int b)" using assms by (auto simp: ratio_def split: if_splits)
  then have "0 \<le> (of_int a / of_int b :: rat)" "(of_int a / of_int b :: rat) \<le> 1" using assms by simp_all
  then show "0 \<le> v" "v \<le> 1" using round6_unit v by auto
qed

lemma ratio_complement:
  assumes "ratio a (a + b) = Some v" "ratio b (a + b) = Some w"
  shows "v + w = 1"
proof -
  have "a + b \<noteq> 0" and v: "v = round6 (of_int a / of_int (a + b))" "w = round6 (of_int b / of_int (a + b))"
    using assms by (auto simp: ratio_def split: if_splits)
  then have "(of_int (a + b) :: rat) \<noteq> 0" by (simp only: of_int_eq_0_iff) simp
  then have "(of_int b / of_int (a + b) :: rat) = 1 - of_int a / of_int (a + b)" by (simp add: field_simps)
  then show ?thesis unfolding v by (simp only: round6_complement)
qed

lemma confusion_nonneg:
  "0 \<le> cf_true_positive (confusion mc)" "0 \<le> cf_true_negative (confusion mc)"
  "0 \<le> cf_false_positive (confusion mc)" "0 \<le> cf_false_negative (confusion mc)"
  by (simp_all add: confusion_def Let_def count_counter_of split: prod.split)

lemma rates_of_confusion:
  "confusion_rates (confusion_dict c) =
     (let tp = cf_true_positive c; tn = cf_true_negative c; fp = cf_false_positive c; fn = cf_false_negative c
      in \<lparr>rat_tp = tp, rat_tn = tn, rat_fp = fp, rat_fn = fn,
          rat_illegitimate = tp + fn, rat_legitimate = tn + fp, rat_labelled = tp + tn + fp + fn,
          rat_false_acceptance = ratio fn (tp + fn), rat_false_rejection = ratio fp (tn + fp),
          rat_detection = ratio tp (tp + fn), rat_precision = ratio tp (tp + fp),
          rat_accuracy = ratio (tp + tn) (tp + tn + fp + fn),
          rat_f1 = ratio (2 * tp) (2 * tp + fp + fn)\<rparr>)"
  by (simp add: confusion_rates_def confusion_dict_def count_or_def Let_def)

text \<open>The rates of a completed run, over the labels its scenario declares.\<close>

lemma run_rates:
  assumes "run_scenario env opt = Inr rr" "rr_ok rr"
  defines "declared \<equiv> map (\<lambda>l. declared_label (snd l)) (declared_labels (rv_rng env) (ro_scenario opt) (ro_seed opt))"
  defines "rt \<equiv> confusion_rates (confusion_dict (rsu_confusion_raw (rr_metrics rr)))"
  shows "rat_illegitimate rt = int (length (filter is_adversarial declared))"
    and "rat_legitimate rt = int (length (filter is_legitimate declared))"
    and "rat_false_acceptance rt =
      ratio (count_of (rsu_counters (rr_metrics rr)) ''M15'') (int (length (filter is_adversarial declared)))"
    and "rat_false_rejection rt =
      ratio (count_of (rsu_counters (rr_metrics rr)) ''M16'') (int (length (filter is_legitimate declared)))"
    and "rat_accuracy rt = ratio (count_of (rsu_counters (rr_metrics rr)) ''M17'')
      (int (length (filter is_adversarial declared)) + int (length (filter is_legitimate declared)))"
    and "rat_false_acceptance rt = Some v \<Longrightarrow> 0 \<le> v \<and> v \<le> 1 \<and> rat_detection rt = Some (1 - v)"
proof -
  let ?c = "rsu_confusion_raw (rr_metrics rr)"
  note rc = run_scenario_confusion [OF assms(1,2)]
  have n: "int (length (filter is_adversarial declared)) = cf_true_positive ?c + cf_false_negative ?c"
    "int (length (filter is_legitimate declared)) = cf_true_negative ?c + cf_false_positive ?c"
    using rc(1,2) by (simp_all add: declared_def filter_map comp_def)
  obtain rn where m: "rr_metrics rr = summary (rn_metrics rn)" "ledger_ok rn"
    using run_scenario_ledger [OF assms(1)] by blast
  have c: "?c = confusion (rn_metrics rn)" by (simp add: m summary_def)
  have acc: "cf_false_negative ?c = cf_false_acceptance ?c" "cf_false_positive ?c = cf_false_rejection ?c"
      "cf_correct_total ?c = cf_true_positive ?c + cf_true_negative ?c"
    unfolding c by (simp_all add: confusion_def Let_def split: prod.split)
  show "rat_illegitimate rt = int (length (filter is_adversarial declared))"
    "rat_legitimate rt = int (length (filter is_legitimate declared))"
    unfolding n by (simp_all add: rt_def rates_of_confusion Let_def)
  show "rat_false_acceptance rt =
      ratio (count_of (rsu_counters (rr_metrics rr)) ''M15'') (int (length (filter is_adversarial declared)))"
    "rat_false_rejection rt =
      ratio (count_of (rsu_counters (rr_metrics rr)) ''M16'') (int (length (filter is_legitimate declared)))"
    "rat_accuracy rt = ratio (count_of (rsu_counters (rr_metrics rr)) ''M17'')
      (int (length (filter is_adversarial declared)) + int (length (filter is_legitimate declared)))"
    unfolding n rc(3-5) [symmetric]
    using acc by (simp_all add: rt_def rates_of_confusion Let_def add_ac)
  show "0 \<le> v \<and> v \<le> 1 \<and> rat_detection rt = Some (1 - v)" if v: "rat_false_acceptance rt = Some v"
  proof -
    have fn: "ratio (cf_false_negative ?c) (cf_true_positive ?c + cf_false_negative ?c) = Some v"
      using v by (simp add: rt_def rates_of_confusion Let_def)
    then obtain w where w: "ratio (cf_true_positive ?c) (cf_true_positive ?c + cf_false_negative ?c) = Some w"
      by (simp add: ratio_def split: if_splits)
    have "w + v = 1" using ratio_complement [OF w fn] .
    moreover have "0 \<le> v" "v \<le> 1"
      using ratio_unit [OF _ _ fn] confusion_nonneg [of "rn_metrics rn"] by (simp_all add: c)
    ultimately show ?thesis using w by (simp add: rt_def rates_of_confusion Let_def)
  qed
qed

end
