(* ===== verification/Sample_Scenario.thy ===== *)
theory Sample_Scenario
  imports Run_Results Sample_Run
begin

text \<open>
  A small experiment on which the hypotheses of the theorems about runs hold: two devices, a 5G session,
  a connection, a device claiming another's address, a transition and a mixed workload, on the Tier-1
  fixtures with the shipped settings and the toy signature scheme.
\<close>

definition plain_event :: "nat \<Rightarrow> event_kind \<Rightarrow> ground_truth_label \<Rightarrow> scenario_event" where
  "plain_event step kind label =
     \<lparr>sev_step = step, sev_kind = kind, sev_device_index = 0, sev_other_device_index = None,
      sev_domain = None, sev_topic = None, sev_payload = [], sev_advance = 0, sev_repeat = 1,
      sev_interval = 0, sev_device_range = None, sev_session_identity = None, sev_posture_override = [],
      sev_legitimate_fraction = None, sev_adversarial_kinds = [], sev_ground_truth = label,
      sev_expected_trust_state = None, sev_expected_action = None, sev_expected_actions = [],
      sev_expect_permitted = None, sev_note = []\<rparr>"

definition sample_events :: "scenario_event list" where
  "sample_events =
     [plain_event 1 NR_SESSION NOT_APPLICABLE,
      plain_event 2 MQTT_CONNECT LEGITIMATE_ALLOW,
      (plain_event 3 IDENTITY_MISMATCH MALICIOUS_REJECT)\<lparr>sev_other_device_index := Some 1\<rparr>,
      plain_event 4 CONCURRENT_TRANSITION LEGITIMATE_RESTRICT,
      (plain_event 5 MIXED_WORKLOAD NOT_APPLICABLE)\<lparr>sev_repeat := 2\<rparr>]"

definition sample_scenario :: scenario where
  "sample_scenario =
     \<lparr>scn_scenario_id = ''E01'', scn_name = ''sample'', scn_description = [], scn_strategy = OneStrategy ''ca_ztcf'',
      scn_device_count = 2, scn_seed = 7, scn_measurement_tier = TIER1, scn_supported_tiers = [TIER1],
      scn_device_counts = [], scn_transition_rates_per_s = [], scn_setup = default_setup,
      scn_event_sequence = sample_events,
      scn_ground_truth = \<lparr>gtr_description = [], gtr_legitimate_transitions = 2, gtr_illegitimate_transitions = 1,
        gtr_device_is_legitimate = True, gtr_adversarial = True, gtr_threat_ids = []\<rparr>,
      scn_expected_policy_behavior = \<lparr>epb_description = [], epb_must_contain_actions = [],
        epb_must_not_contain_actions = [], epb_must_contain_states = [], epb_must_not_contain_states = [],
        epb_strategy_specific = []\<rparr>,
      scn_metrics_to_collect = []\<rparr>"

definition sample_options :: run_options where
  "sample_options =
     \<lparr>ro_scenario = sample_scenario, ro_strategy_name = ''ca_ztcf'', ro_seed = 7, ro_repetition = 0,
      ro_result_class = ''development'', ro_start = None, ro_run_id = ''run-1''\<rparr>"

definition sample_fixture :: fixture_source where
  "sample_fixture = \<lparr>fx_nr_address_prefix = ''10.45.0.'', fx_wlan_address_prefix = ''192.168.60.'',
     fx_address_offset = 2, fx_address_stride = 1\<rparr>"

text \<open>A generator that always draws zero.\<close>

definition zero_rng :: "unit rng" where
  "zero_rng = \<lparr>rg_seed = (\<lambda>_. ()), rg_random = (\<lambda>g. (0, g)), rg_below = (\<lambda>n g. (0, g))\<rparr>"

definition sample_run_env :: "(string, unit) run_env" where
  "sample_run_env =
     \<lparr>rv_crypto = sample_crypto, rv_settings = shipped_settings ''h'', rv_nr_salt = [], rv_wlan_salt = [],
      rv_keypair = (\<lambda>i. \<lparr>kp_public_key_pem = ''a sample public key'', kp_sign = (\<lambda>m. m)\<rparr>),
      rv_nonce = (\<lambda>i. [of_nat i]), rv_binding_id = (\<lambda>i. show_nat i), rv_draws = (\<lambda>i. sample_draws),
      rv_elapsed_ns = (\<lambda>i. 5), rv_rng = zero_rng, rv_source = fixture_access sample_fixture\<rparr>"

lemma sample_builds: "\<exists>st. build_app_state (shipped_settings h) x y = Inr st"
  by (simp add: build_app_state_def shipped_matrix_loads Let_def)

lemma sample_runs: "\<exists>rr. run_scenario sample_run_env sample_options = Inr rr"
  using sample_builds [of "''h''" "[]" "[]"] by (auto simp: run_scenario_def sample_run_env_def)

lemma sample_scenario_checks: "scenario_check sample_scenario = Inr ()"
  by code_simp

lemma sample_key: "usable_key sample_crypto ''a sample public key''"
  by (simp add: usable_key_def sample_crypto_def rejects_private_key_def str_contains_def str_encode_def py_upper_def
      upper_char_def char_of_def)

text \<open>The two workload entries move the clock by a bound each at most.\<close>

lemma sample_reach: "default_start + scenario_reach (shipped_settings h) sample_scenario + seconds 86400 \<le> datetime_max"
  by (simp add: scenario_reach_def sample_scenario_def sample_events_def plain_event_def event_reach_def workload_reach_def
      shipped_settings_def default_start_def datetime_max_def seconds_def)

lemma sample_fits: "fits_calendar (shipped_settings h) sample_options"
  using sample_reach by (simp add: fits_calendar_def sample_options_def run_clock_def new_frozen_clock_def)

lemma sample_completes: "\<exists>rr. run_scenario sample_run_env sample_options = Inr rr \<and> rr_ok rr"
proof (rule checked_run_ok [where h = "''h''" and fx = sample_fixture])
  show "scenario_check (ro_scenario sample_options) = Inr ()"
    using sample_scenario_checks by (simp add: sample_options_def)
  show "list_all (bounded_event (ro_scenario sample_options)) (scn_event_sequence (ro_scenario sample_options))"
    by (simp add: sample_options_def sample_scenario_def sample_events_def plain_event_def bounded_event_def
        member_range_def)
  show "usable_key (rv_crypto sample_run_env) (kp_public_key_pem (rv_keypair sample_run_env i))" for i
    using sample_key by (simp add: sample_run_env_def)
  show "fits_calendar (shipped_settings ''h'') sample_options" by (rule sample_fits)
qed (simp_all add: sample_options_def sample_scenario_def sample_run_env_def shipped_strategies_def)

lemma sample_labels:
  "declared_labels zero_rng sample_scenario 7 =
     [(2, ''LEGITIMATE_ALLOW''), (3, ''MALICIOUS_REJECT''), (4, ''LEGITIMATE_RESTRICT''),
      (4, ''LEGITIMATE_RESTRICT''), (5, ''LEGITIMATE_RESTRICT''), (5, ''LEGITIMATE_RESTRICT'')]"
  by code_simp

lemma sample_classes:
  "length (filter (\<lambda>l. is_legitimate (declared_label l)) (map snd (declared_labels zero_rng sample_scenario 7))) = 5"
  "length (filter (\<lambda>l. is_adversarial (declared_label l)) (map snd (declared_labels zero_rng sample_scenario 7))) = 1"
  unfolding sample_labels by code_simp+

section \<open>A log of two lines\<close>

text \<open>A parser that takes every line for plain text but an exclamation mark, which it reads as a number.\<close>

definition sample_reader :: line_reader where
  "sample_reader = \<lparr>lr_loads = (\<lambda>l. if l = ''!'' then JsonOther else NotJson), lr_repr = (\<lambda>_. []),
     lr_fromiso = (\<lambda>_. None)\<rparr>"

lemma sample_reads:
  "read_new (open5gs_read sample_reader) (\<lambda>_. 0) (Some [''x'']) 0 = (Inr [], 0)"
  "read_lines (open5gs_read sample_reader) (\<lambda>_. 0) (length [''x'']) [''y''] = Inr []"
  "open5gs_read sample_reader 0 (py_strip ''!'') = Inl (PyAttributeError ''object has no attribute get'')"
  "py_strip ''!'' \<noteq> []"
  by code_simp+

end
