(* ===== verification/Sample_Wire.thy ===== *)
theory Sample_Wire
  imports Sample_Gateway Http_Client Device_Agent Statistics_Facts Sample_Scenario
begin

text \<open>
  Small instances for the theorems about the remote arrangement, the device and the statistics: a way to
  print and read JSON (in a notation of its own, all ASCII), the libraries' functions built on it, a
  device, and an answer of SciPy.
\<close>

section \<open>Printing and reading JSON\<close>

definition unary :: "nat \<Rightarrow> string" where
  "unary n = replicate n CHR ''1'' @ ''0''"

definition take_unary :: "string \<Rightarrow> nat \<times> string" where
  "take_unary s = (let n = length (takeWhile (\<lambda>c. c = CHR ''1'') s) in (n, drop (Suc n) s))"

lemma take_unary_append: "take_unary (unary n @ s) = (n, s)"
proof -
  have "takeWhile (\<lambda>c. c = CHR ''1'') (replicate n CHR ''1'' @ CHR ''0'' # s) = replicate n CHR ''1''"
    by (induction n) simp_all
  then show ?thesis by (simp add: take_unary_def unary_def)
qed

fun print_chars :: "string \<Rightarrow> string" where
  "print_chars [] = ''0''"
| "print_chars (c # cs) = CHR ''1'' # unary (of_char c) @ print_chars cs"

fun print_json :: "json \<Rightarrow> string"
and print_list :: "json list \<Rightarrow> string"
and print_members :: "(string \<times> json) list \<Rightarrow> string" where
  "print_json JNull = ''n''"
| "print_json (JBool b) = (if b then ''t'' else ''f'')"
| "print_json (JInt i) = ''i'' @ (if i < 0 then ''-'' else ''+'') @ unary (nat \<bar>i\<bar>)"
| "print_json (JStr s) = ''s'' @ print_chars s"
| "print_json (JList vs) = ''l'' @ print_list vs"
| "print_json (JObj kvs) = ''o'' @ print_members kvs"
| "print_list [] = ''0''"
| "print_list (v # vs) = ''1'' @ print_json v @ print_list vs"
| "print_members [] = ''0''"
| "print_members ((k, v) # kvs) = ''1'' @ print_chars k @ print_json v @ print_members kvs"

fun read_chars :: "nat \<Rightarrow> string \<Rightarrow> (string \<times> string) option" where
  "read_chars 0 s = None"
| "read_chars (Suc f) [] = None"
| "read_chars (Suc f) (c # s) =
     (if c = CHR ''0'' then Some ([], s)
      else (case take_unary s of (n, r) \<Rightarrow> map_option (\<lambda>(cs, r'). (char_of n # cs, r')) (read_chars f r)))"

fun read_json :: "nat \<Rightarrow> string \<Rightarrow> (json \<times> string) option"
and read_list :: "nat \<Rightarrow> string \<Rightarrow> (json list \<times> string) option"
and read_members :: "nat \<Rightarrow> string \<Rightarrow> ((string \<times> json) list \<times> string) option" where
  "read_json 0 s = None"
| "read_json (Suc f) [] = None"
| "read_json (Suc f) (c # s) =
     (if c = CHR ''n'' then Some (JNull, s)
      else if c = CHR ''t'' then Some (JBool True, s)
      else if c = CHR ''f'' then Some (JBool False, s)
      else if c = CHR ''i'' then
        (case s of [] \<Rightarrow> None
         | g # s' \<Rightarrow> (case take_unary s' of (n, r) \<Rightarrow> Some (JInt (if g = CHR ''-'' then - int n else int n), r)))
      else if c = CHR ''s'' then map_option (\<lambda>(x, r). (JStr x, r)) (read_chars f s)
      else if c = CHR ''l'' then map_option (\<lambda>(x, r). (JList x, r)) (read_list f s)
      else map_option (\<lambda>(x, r). (JObj x, r)) (read_members f s))"
| "read_list 0 s = None"
| "read_list (Suc f) [] = None"
| "read_list (Suc f) (c # s) =
     (if c = CHR ''0'' then Some ([], s)
      else Option.bind (read_json f s) (\<lambda>(v, r). map_option (\<lambda>(vs, r'). (v # vs, r')) (read_list f r)))"
| "read_members 0 s = None"
| "read_members (Suc f) [] = None"
| "read_members (Suc f) (c # s) =
     (if c = CHR ''0'' then Some ([], s)
      else Option.bind (read_chars f s) (\<lambda>(k, r).
           Option.bind (read_json f r) (\<lambda>(v, r').
           map_option (\<lambda>(kvs, r''). ((k, v) # kvs, r'')) (read_members f r'))))"

lemma read_print_chars: "length (print_chars cs) \<le> f \<Longrightarrow> read_chars f (print_chars cs @ s) = Some (cs, s)"
proof (induction cs arbitrary: f)
  case Nil
  then show ?case by (cases f) simp_all
next
  case (Cons c cs)
  then show ?case by (cases f) (simp_all add: take_unary_append)
qed

lemma read_print:
  "length (print_json v) \<le> f \<Longrightarrow> read_json f (print_json v @ s) = Some (v, s)"
  "length (print_list vs) \<le> f \<Longrightarrow> read_list f (print_list vs @ s) = Some (vs, s)"
  "length (print_members kvs) \<le> f \<Longrightarrow> read_members f (print_members kvs @ s) = Some (kvs, s)"
proof (induction v and vs and kvs arbitrary: f s and f s and f s rule: print_json_print_list_print_members.induct)
  case (3 i)
  then show ?case by (cases f) (auto simp: take_unary_append)
next
  case (4 x)
  then show ?case by (cases f) (auto simp: read_print_chars)
next
  case (8 v vs)
  then show ?case by (cases f) (auto simp: read_print_chars)
next
  case (10 k v kvs)
  then show ?case by (cases f) (auto simp: read_print_chars)
next
  case 1
  then show ?case by (cases f) auto
next
  case (2 b)
  then show ?case by (cases f; cases b) auto
next
  case (5 vs)
  then show ?case by (cases f) auto
next
  case (6 kvs)
  then show ?case by (cases f) auto
next
  case 7
  then show ?case by (cases f) auto
next
  case 9
  then show ?case by (cases f) auto
qed

definition loads_json :: "string \<Rightarrow> json option" where
  "loads_json s = map_option fst (read_json (length s) s)"

lemma loads_print [simp]: "loads_json (print_json v) = Some v"
  using read_print(1) [of v "length (print_json v)" "[]"] by (simp add: loads_json_def)

lemma ascii_unary [simp]: "ascii_only (unary n)"
  by (induction n) (simp_all add: unary_def ascii_only_def)

lemma ascii_append [simp]: "ascii_only (x @ y) \<longleftrightarrow> ascii_only x \<and> ascii_only y"
  "ascii_only (c # y) \<longleftrightarrow> (of_char c :: nat) < 128 \<and> ascii_only y" "ascii_only []"
  by (simp_all add: ascii_only_def)

lemma ascii_chars [simp]: "ascii_only (print_chars cs)"
  by (induction cs) simp_all

lemma ascii_print: "ascii_only (print_json v)" "ascii_only (print_list vs)" "ascii_only (print_members kvs)"
  by (induction v and vs and kvs rule: print_json_print_list_print_members.induct) simp_all

lemma ascii_text: "ascii_only s \<Longrightarrow> py_text s"
proof (induction s)
  case (Cons c s)
  then have "of_char c < (0x80 :: byte)" by (simp add: word_less_nat_alt unat_of_char)
  with Cons show ?case by (simp add: py_text_def str_encode_def)
qed (simp add: py_text_def str_encode_def)

lemma print_text [simp]: "py_text (print_json v)"
  by (rule ascii_text) (rule ascii_print)

section \<open>The remote arrangement\<close>

definition sample_web :: web where
  "sample_web =
     \<lparr>wb_dumps = print_json, wb_loads = loads_json,
      wb_fromiso = (\<lambda>s. case loads_json s of Some (JInt t) \<Rightarrow> Some t | _ \<Rightarrow> None),
      wb_int = (\<lambda>_. None), wb_repr = print_json, wb_datetime = (\<lambda>t. print_json (JInt t)),
      wb_parse_datetime = (\<lambda>_. None)\<rparr>"

lemma sample_web_laws: "web_laws sample_web"
proof -
  have "(case loads_json (print_json (JInt t)) of Some (JInt t) \<Rightarrow> Some t | _ \<Rightarrow> None) = Some t" for t
    unfolding loads_print by simp
  then show ?thesis unfolding web_laws_def sample_web_def web.simps loads_print by blast
qed

definition sample_remote :: "(app_state \<times> nat) decision_client" where
  "sample_remote =
     http_client sample_web (service_transport sample_web sample_crypto (\<lambda>_. sample_app_draws) (\<lambda>_. (0, [1]))) None"

section \<open>A device\<close>

definition sample_agent :: agent where
  "sample_agent =
     new_agent \<lparr>agc_device_id = ''dev-1'', agc_client_id = None, agc_keep_alive = 60,
       agc_source_address = None, agc_domain = NR\<rparr> (\<lambda>m. m)"

definition sample_agent_env :: agent_env where
  "sample_agent_env =
     \<lparr>ae_event = (\<lambda>n. (show_nat n, 0, n)), ae_duration_ns = (\<lambda>_. 1), ae_loads = loads_json,
      ae_dumps = print_json, ae_compact = print_json, ae_repr = print_json\<rparr>"

definition sample_json_env :: "unit gateway_env" where
  "sample_json_env = (sample_env (sample_client sample_decision))\<lparr>ge_loads := loads_json, ge_dumps := print_json\<rparr>"

lemma sample_same_json: "same_json sample_json_env sample_agent_env"
  by (simp add: same_json_def sample_json_env_def sample_agent_env_def del: print_json.simps)

lemma sample_id_text: "py_text ''dev-1''"
  by (simp add: ascii_text)

section \<open>Statistics\<close>

definition sample_scipy :: scipy where
  "sample_scipy =
     \<lparr>sp_shapiro = (\<lambda>_. (1, 1 / 2)), sp_rankdata = map (\<lambda>_. 1), sp_friedman = (\<lambda>_. Inr (Some (6, 1 / 100))),
      sp_wilcoxon = (\<lambda>a b. Inr (0, 1 / 100)), sp_cochrans_q = None, sp_chi2_sf = (\<lambda>_ _. 1 / 100),
      sp_binomtest = (\<lambda>_ _. 1 / 4)\<rparr>"

definition sample_comparison :: comparison where
  "sample_comparison =
     \<lparr>cmp_metric = ''M3'', cmp_scenario = ''s1'', cmp_conditions = [''a'', ''b'', ''c''],
      cmp_samples = [(''a'', [1, 2, 3]), (''b'', [4, 5, 6]), (''c'', [4, 5, 6])], cmp_notes = []\<rparr>"

lemma sample_pairs: "distinct (map pair_key (condition_pairs (cmp_conditions sample_comparison)))"
  by (simp add: sample_comparison_def pair_key_def)

lemma sample_compared:
  "\<exists>r. compare_three_paired sample_scipy zero_rng sample_comparison = Inr r
     \<and> (\<exists>stat p. cres_omnibus r = Omnibus stat 2 p True)"
  by (simp add: compare_three_paired_def Let_def sample_comparison_def sample_scipy_def aligned_def
      for_conditions_def series_of_def common_length_def all_constant_and_equal_def significant_p_def ALPHA_def)

lemma zero_below: "draws_below zero_rng"
  by (simp add: draws_below_def zero_rng_def)

lemma sample_texts: "b64url_encode [1, 2, 3] = ''AQID''" "length (isoformat 0) = 25"
  by (simp add: b64url_encode_def b64_char_def char_of_def rstrip_pad_def bit_Suc_0_iff) code_simp

lemma sample_connack:
  "\<exists>input p r. read_packet (new_reader input) = (Inr (Some p), r) \<and> pk_type p = PT_CONNACK \<and> pk_payload p = [0, 0]"
proof -
  obtain raw where "build_packet PT_CONNACK 0 [0, 0] = Inr raw" by (simp add: build_packet_Inr MAX_REMAINING_LENGTH_def)
  from read_packet_build [OF this, of "new_reader raw" "[]"] have
    "read_packet (new_reader raw) = (Inr (Some \<lparr>pk_type = PT_CONNACK, pk_flags = 0 mod 16, pk_payload = [0, 0], pk_raw = raw\<rparr>),
      (new_reader raw)\<lparr>rd_input := [], rd_bytes_read := length raw, rd_packets_read := 1\<rparr>)" by (simp add: new_reader_def)
  then show ?thesis by (intro exI conjI) (assumption, simp_all)
qed

lemma sample_built: "\<exists>raw. build_connect ''dev-1'' (Some ''dev-1'') (Some (str_encode ''AQID.AQID'')) 60 True = Inr raw"
  by (simp add: build_connect_def encode_string_def encode_field_def to_bytes2_def build_packet_Inr MAX_REMAINING_LENGTH_def)

lemma sample_opens:
  "\<exists>input ag w. agent_connect sample_agent_env (Inr input) True (Some (b64url_encode [1, 2, 3])) sample_agent = (Inr 0, ag)
     \<and> ag_writer ag = Some w \<and> cw_sent w \<noteq> []"
proof -
  obtain raw where raw: "build_connect ''dev-1'' (Some ''dev-1'') (Some (str_encode ''AQID.AQID'')) 60 True = Inr raw"
    using sample_built by blast
  obtain input p r where p: "read_packet (new_reader input) = (Inr (Some p), r)" "pk_type p = PT_CONNACK"
    "pk_payload p = [0, 0]" using sample_connack by blast
  have "credential (\<lambda>m. m) ''AQID'' = Inr ''AQID.AQID''"
    using sign_issued_nonce [of "\<lambda>m. m" "[1, 2, 3]"] by (simp add: credential_def sample_texts)
  with raw p have "\<exists>ag w. agent_connect sample_agent_env (Inr input) True (Some (b64url_encode [1, 2, 3])) sample_agent = (Inr 0, ag)
     \<and> ag_writer ag = Some w \<and> cw_sent w \<noteq> []"
    by (simp add: agent_connect_def connect_credential_def sample_texts sample_agent_def new_agent_def agent_write_def
        agent_read_def agent_client_id_def name_or_def connack_code_def cw_write_def new_writer_def)
  then show ?thesis by blast
qed

lemma length_print_chars: "length (print_chars cs) \<le> 257 * length cs + 1"
proof (induction cs)
  case (Cons c cs)
  have "length (print_chars (c # cs)) = of_char c + 2 + length (print_chars cs)" by (simp add: unary_def)
  also have "\<dots> \<le> 255 + 2 + (257 * length cs + 1)" using nat_of_char_less_256 [of c] Cons by linarith
  finally show ?case by simp
qed simp

definition sample_open_agent :: agent where
  "sample_open_agent = sample_agent\<lparr>ag_reader := Some (new_reader []), ag_writer := Some new_writer\<rparr>"

lemma sample_challenge:
  "\<exists>sent. build_publish (CHALLENGE_TOPIC ''dev-1'') (challenge_body sample_json_env (b64url_encode [1, 2, 3]) 0) 0 None False = Inr sent"
  "\<exists>answer. build_publish (RESPONSE_TOPIC ''dev-1'')
     (challenge_answer sample_agent_env (b64url_encode [1, 2, 3]) (b64url_encode [1, 2, 3])) 0 None False = Inr answer"
proof -
  note l = length_print_chars [of "isoformat 0"] length_print_chars [of "''AQID''"] length_print_chars [of "''ed25519''"]
    length_print_chars [of "''nonce''"] length_print_chars [of "''expires_at''"] length_print_chars [of "''algorithm''"]
    length_print_chars [of "''signature''"]
  show "\<exists>sent. build_publish (CHALLENGE_TOPIC ''dev-1'') (challenge_body sample_json_env (b64url_encode [1, 2, 3]) 0) 0 None False = Inr sent"
    using l by (simp add: build_publish_def encode_string_def encode_field_def ctl_topic_def build_packet_Inr
        MAX_REMAINING_LENGTH_def challenge_body_def sample_json_env_def sample_texts del: print_chars.simps)
  show "\<exists>answer. build_publish (RESPONSE_TOPIC ''dev-1'')
     (challenge_answer sample_agent_env (b64url_encode [1, 2, 3]) (b64url_encode [1, 2, 3])) 0 None False = Inr answer"
    using l by (simp add: build_publish_def encode_string_def encode_field_def ctl_topic_def build_packet_Inr
        MAX_REMAINING_LENGTH_def challenge_answer_def sample_agent_env_def sample_texts del: print_chars.simps)
qed

end
