(* ===== verification/Csv_Text.thy ===== *)
theory Csv_Text
  imports Prelude
begin

text \<open>
  Python's \<^verbatim>\<open>csv\<close> with its default dialect, as the ledger of a campaign uses it: a comma between fields, a
  field quoted when it holds a comma, a quote or a line break, quotes doubled, rows ended by
  \<open>\r\n\<close>; and the reader's state machine, fed by a file opened without newline translation. A row of
  \<open>DictReader\<close> is a dictionary; one with fewer fields than the header lacks the last keys here, where
  \<open>DictReader\<close> holds \<open>None\<close>, and what a longer one has beyond the header is dropped.

  Shown: what was written is read back.
\<close>

section \<open>Writing\<close>

definition csv_quote :: char where
  "csv_quote = CHR 0x22"

definition csv_break :: "char \<Rightarrow> bool" where
  "csv_break c \<longleftrightarrow> c = CHR 0x0A \<or> c = CHR 0x0D"

definition csv_special :: "char \<Rightarrow> bool" where
  "csv_special c \<longleftrightarrow> c = CHR '','' \<or> c = csv_quote \<or> csv_break c"

fun csv_doubled :: "string \<Rightarrow> string" where
  "csv_doubled [] = []"
| "csv_doubled (c # cs) = (if c = csv_quote then [c, c] else [c]) @ csv_doubled cs"

definition csv_field :: "string \<Rightarrow> string" where
  "csv_field s = (if list_ex csv_special s then csv_quote # csv_doubled s @ [csv_quote] else s)"

text \<open>A row of one empty field is written quoted; no row of this program is one.\<close>

fun csv_fields :: "string list \<Rightarrow> string" where
  "csv_fields [] = []"
| "csv_fields [s] = csv_field s"
| "csv_fields (s # ss) = csv_field s @ CHR '','' # csv_fields ss"

definition csv_line :: "string list \<Rightarrow> string" where
  "csv_line row = (if row = [[]] then [csv_quote, csv_quote] else csv_fields row) @ [CHR 0x0D, CHR 0x0A]"

section \<open>Reading\<close>

datatype csv_state = Start_field | In_field | In_quoted | After_quote

definition after_break :: "char \<Rightarrow> string \<Rightarrow> string" where
  "after_break c rest = (if c = CHR 0x0D \<and> rest \<noteq> [] \<and> hd rest = CHR 0x0A then tl rest else rest)"

text \<open>The fields of the row at the front of the text, and the text after it.\<close>

fun csv_scan :: "csv_state \<Rightarrow> string \<Rightarrow> string list \<Rightarrow> string \<Rightarrow> string list \<times> string" where
  "csv_scan st f fs [] = (fs @ [f], [])"
| "csv_scan In_quoted f fs (c # cs) =
     (if c = csv_quote then csv_scan After_quote f fs cs else csv_scan In_quoted (f @ [c]) fs cs)"
| "csv_scan After_quote f fs (c # cs) =
     (if c = csv_quote then csv_scan In_quoted (f @ [c]) fs cs
      else if c = CHR '','' then csv_scan Start_field [] (fs @ [f]) cs
      else if csv_break c then (fs @ [f], after_break c cs)
      else csv_scan In_field (f @ [c]) fs cs)"
| "csv_scan st f fs (c # cs) =
     (if st = Start_field \<and> c = csv_quote then csv_scan In_quoted f fs cs
      else if c = CHR '','' then csv_scan Start_field [] (fs @ [f]) cs
      else if csv_break c then (fs @ [f], after_break c cs)
      else csv_scan In_field (f @ [c]) fs cs)"

lemma after_break_shorter: "length (after_break c cs) \<le> length cs"
  by (simp add: after_break_def)

lemma csv_scan_shorter: "length (snd (csv_scan st f fs cs)) \<le> length cs"
  by (induction st f fs cs rule: csv_scan.induct) (auto simp: after_break_shorter le_Suc_eq)

lemma csv_scan_progress: "cs \<noteq> [] \<Longrightarrow> length (snd (csv_scan st f fs cs)) < length cs"
  using csv_scan_shorter after_break_shorter
  by (cases cs; cases st) (auto simp: less_Suc_eq_le)

text \<open>The rows of a text; an empty line is an empty row.\<close>

function csv_rows :: "string \<Rightarrow> string list list" where
  "csv_rows text =
     (case text of
        [] \<Rightarrow> []
      | c # cs \<Rightarrow>
          if csv_break c then [] # csv_rows (after_break c cs)
          else (case csv_scan Start_field [] [] text of (row, rest) \<Rightarrow> row # csv_rows rest))"
  by pat_completeness auto
termination
proof (relation "measure length")
  show "(after_break c cs, content) \<in> measure length" if "content = c # cs" for content c cs
    using that after_break_shorter [of c cs] by simp
  show "(rest, content) \<in> measure length"
    if "content = c # cs" "(row, rest) = csv_scan Start_field [] [] content" for content c cs row rest
    using csv_scan_progress [of content Start_field "[]" "[]"] that by (metis in_measure list.distinct(1) snd_conv)
qed simp

declare csv_rows.simps [simp del]

definition csv_dict :: "string list \<Rightarrow> string list \<Rightarrow> (string, string) dict" where
  "csv_dict header row = fold (\<lambda>(k, v). dset k v) (zip header row) []"

definition dict_reader :: "string \<Rightarrow> (string, string) dict list" where
  "dict_reader text =
     (case csv_rows text of
        [] \<Rightarrow> []
      | header # rows \<Rightarrow> map (csv_dict header) (filter (\<lambda>r. r \<noteq> []) rows))"

section \<open>What was written is read back\<close>

lemma scan_quoted:
  "csv_scan In_quoted f fs (csv_doubled s @ csv_quote # rest) = csv_scan After_quote (f @ s) fs rest"
  by (induction s arbitrary: f) auto

lemma scan_plain:
  assumes "\<not> list_ex csv_special s" "st = Start_field \<or> st = In_field"
  shows "csv_scan st f fs (s @ rest) =
    csv_scan (if s = [] then st else In_field) (f @ s) fs rest"
  using assms
proof (induction s arbitrary: f st)
  case (Cons c s)
  have "csv_scan st f fs (c # s @ rest) = csv_scan In_field (f @ [c]) fs (s @ rest)"
    using Cons.prems by (cases st) (auto simp: csv_special_def)
  then show ?case using Cons.IH [of In_field "f @ [c]"] Cons.prems by (cases s) simp_all
qed simp

lemma scan_field:
  "csv_scan Start_field [] fs (csv_field s @ CHR '','' # rest) = csv_scan Start_field [] (fs @ [s]) rest"
  "csv_scan Start_field [] fs (csv_field s @ CHR 0x0D # CHR 0x0A # rest) = (fs @ [s], rest)"
proof -
  have b: "csv_quote \<noteq> CHR '',''" "csv_quote \<noteq> CHR 0x0D" "csv_break (CHR 0x0D)" "\<not> csv_break (CHR '','')"
    "after_break (CHR 0x0D) (CHR 0x0A # rest) = rest"
    by (simp_all add: csv_quote_def csv_break_def after_break_def)
  show "csv_scan Start_field [] fs (csv_field s @ CHR '','' # rest) = csv_scan Start_field [] (fs @ [s]) rest"
    using scan_plain [of s Start_field "[]" fs] scan_quoted [of "[]" fs s "CHR '','' # rest"] b
    by (cases "s = []") (simp_all add: csv_field_def)
  show "csv_scan Start_field [] fs (csv_field s @ CHR 0x0D # CHR 0x0A # rest) = (fs @ [s], rest)"
    using scan_plain [of s Start_field "[]" fs] scan_quoted [of "[]" fs s "CHR 0x0D # CHR 0x0A # rest"] b
    by (cases "s = []") (simp_all add: csv_field_def)
qed

lemma scan_fields:
  "row \<noteq> [] \<Longrightarrow> csv_scan Start_field [] fs (csv_fields row @ CHR 0x0D # CHR 0x0A # rest) = (fs @ row, rest)"
  by (induction row arbitrary: fs rule: csv_fields.induct) (simp_all add: scan_field)

text \<open>Of a row with at least two fields, as every row of the ledger has.\<close>

lemma fields_start:
  assumes "2 \<le> length row"
  obtains c cs where "csv_fields row = c # cs" "\<not> csv_break c"
proof -
  obtain a b r where row: "row = a # b # r" using assms by (cases row; cases "tl row") auto
  have "\<exists>c cs. csv_fields row = c # cs \<and> \<not> csv_break c"
  proof (cases "list_ex csv_special a")
    case True
    then show ?thesis by (simp add: row csv_field_def csv_quote_def csv_break_def)
  next
    case False
    then show ?thesis by (cases a) (auto simp: row csv_field_def csv_special_def csv_break_def)
  qed
  then show ?thesis using that by blast
qed

lemma rows_line:
  assumes "2 \<le> length row"
  shows "csv_rows (csv_line row @ rest) = row # csv_rows rest"
proof -
  obtain c cs where c: "csv_fields row = c # cs" "\<not> csv_break c" using fields_start [OF assms] .
  have row: "row \<noteq> []" "row \<noteq> [[]]" using assms by auto
  have "csv_rows (csv_line row @ rest) =
      (case csv_scan Start_field [] [] (csv_line row @ rest) of (r, rs) \<Rightarrow> r # csv_rows rs)"
    by (subst csv_rows.simps) (simp add: csv_line_def row c)
  also have "csv_scan Start_field [] [] (csv_line row @ rest) = (row, rest)"
    using scan_fields [OF row(1), of "[]" rest] row by (simp add: csv_line_def)
  finally show ?thesis by simp
qed

lemma rows_lines:
  "\<forall>row \<in> set rows. 2 \<le> length row \<Longrightarrow> csv_rows (concat (map csv_line rows)) = rows"
  by (induction rows) (simp_all add: rows_line csv_rows.simps [of "[]"])

lemma csv_dict_rows:
  assumes "distinct header" "length row = length header"
  shows "csv_dict header row = zip header row"
proof -
  have "fold (\<lambda>(k, v). dset k v) kvs d = d @ kvs" if "distinct (map fst kvs)" "set (map fst kvs) \<inter> fst ` set d = {}"
    for kvs :: "(string, string) dict" and d
    using that
  proof (induction kvs arbitrary: d)
    case (Cons kv kvs)
    have "dset (fst kv) (snd kv) d = d @ [kv]" using Cons.prems(2)
      by (induction d) (auto split: prod.splits)
    with Cons show ?case by (auto simp: case_prod_unfold)
  qed simp
  from this [of "zip header row" "[]"] assms show ?thesis by (simp add: csv_dict_def)
qed

text \<open>A dictionary with the keys of the header, in their order.\<close>

definition has_fields :: "string list \<Rightarrow> (string, string) dict \<Rightarrow> bool" where
  "has_fields header d \<longleftrightarrow> map fst d = header"

lemma written_rows_read:
  assumes "distinct header" "2 \<le> length header" "\<forall>d \<in> set ds. has_fields header d"
  shows "dict_reader (csv_line header @ concat (map (\<lambda>d. csv_line (map snd d)) ds)) = ds"
proof -
  let ?rows = "map (map snd) ds"
  have len: "length r = length header" if "r \<in> set ?rows" for r
    using that assms(3) by (auto simp: has_fields_def dest: map_eq_imp_length_eq)
  have "csv_rows (concat (map csv_line (header # ?rows))) = header # ?rows"
    using len assms(2) by (intro rows_lines) auto
  then have rows: "csv_rows (csv_line header @ concat (map (\<lambda>d. csv_line (map snd d)) ds)) = header # ?rows"
    by (simp add: comp_def)
  have ne: "filter (\<lambda>r. r \<noteq> []) ?rows = ?rows"
    using len assms(2) by (intro filter_True) (metis list.size(3) not_numeral_le_zero)
  have "csv_dict header (map snd d) = d" if "d \<in> set ds" for d
  proof -
    have h: "map fst d = header" using that assms(3) by (simp add: has_fields_def)
    then have "csv_dict header (map snd d) = zip header (map snd d)"
      using assms(1) by (intro csv_dict_rows) auto
    then show ?thesis using h zip_map_fst_snd [of d] by simp
  qed
  then have "map (csv_dict header) ?rows = ds" by (simp add: map_idI)
  then show ?thesis by (simp only: dict_reader_def rows ne list.case)
qed

end
