(* ===== verification/Campaign.thy ===== *)
theory Campaign
  imports Run_Results Csv_Text
begin

text \<open>
  The final campaign (\<^verbatim>\<open>scripts/run_final_campaign.py\<close>, beside \<^verbatim>\<open>src/\<close>): the matrix of conditions, the ledger
  of attempts and its file, one attempt, the retries of a condition, the loop over the pending conditions
  and the exit code. The ledger is the state a later session resumes from.

  What a session observes of the world is \<open>campaign_env\<close>, read by the number of the attempt or of the
  condition: the runs' own draws, the testbed, wall clocks and durations, whether a signal arrived or the
  deadline passed, and what git and the settings say after a condition. The parsed seed file and the
  loaded scenarios are arguments. Output files are the tree of \<open>write_run\<close>; printing and sleeping are
  left out.
\<close>

section \<open>The matrix\<close>

definition PRIMARY_STRATEGIES :: "string list" where
  "PRIMARY_STRATEGIES = [''independent'', ''static_continuity'', ''ca_ztcf'']"

definition SENSITIVITY_STRATEGIES :: "string list" where
  "SENSITIVITY_STRATEGIES = [''static_continuity_ttl30'', ''static_continuity_ttl1800'']"

definition SENSITIVITY_SCENARIOS :: "string list" where
  "SENSITIVITY_SCENARIOS =
     [''E03'', ''E04'', ''E05'', ''E06'', ''E07'', ''E08'', ''E09'', ''E10'', ''E15'']"

definition E13_DEVICE_LEVELS :: "nat list" where
  "E13_DEVICE_LEVELS = [1, 5, 10, 25]"

record condition =
  cn_scenario :: scenario
  cn_strategy :: string
  cn_seed :: int
  cn_campaign :: string
  cn_device_count :: "nat option"

definition condition_label :: "condition \<Rightarrow> string" where
  "condition_label c =
     (case cn_device_count c of Some n \<Rightarrow> ''devices='' @ show_nat n | None \<Rightarrow> ''default'')"

type_synonym condition_key = "string \<times> string \<times> int \<times> string"

definition condition_key :: "condition \<Rightarrow> condition_key" where
  "condition_key c = (scn_scenario_id (cn_scenario c), cn_strategy c, cn_seed c, condition_label c)"

definition device_levels :: "scenario \<Rightarrow> nat option list" where
  "device_levels s = (if scn_scenario_id s = ''E13'' then map Some E13_DEVICE_LEVELS else [None])"

definition build_conditions :: "scenario list \<Rightarrow> string list \<Rightarrow> int list \<Rightarrow> string \<Rightarrow> condition list" where
  "build_conditions scenarios strategies seeds campaign =
     concat (map (\<lambda>s. concat (map (\<lambda>level. concat (map (\<lambda>strategy. map (\<lambda>seed.
       \<lparr>cn_scenario = s, cn_strategy = strategy, cn_seed = seed, cn_campaign = campaign,
        cn_device_count = level\<rparr>) seeds) strategies)) (device_levels s))) scenarios)"

section \<open>The ledger\<close>

definition LEDGER_FIELDS :: "string list" where
  "LEDGER_FIELDS =
     [''attempt_id'', ''run_id'', ''scenario'', ''strategy'', ''seed'', ''condition'', ''campaign'', ''start'',
      ''end'', ''duration_s'', ''status'', ''validity'', ''reason'', ''git_sha'', ''config_hash'', ''result_path'']"

abbreviation STATUS_VALID :: string where "STATUS_VALID \<equiv> ''VALID''"
abbreviation STATUS_INFRA :: string where "STATUS_INFRA \<equiv> ''INVALID_INFRASTRUCTURE_RUN''"
abbreviation STATUS_DEFECT :: string where "STATUS_DEFECT \<equiv> ''INVALID_SOFTWARE_DEFECT''"
abbreviation STATUS_ABORTED :: string where "STATUS_ABORTED \<equiv> ''ABORTED''"

type_synonym ledger_row = "(string, string) dict"

text \<open>The rows in memory, and the text of the file.\<close>

record ledger =
  lg_rows :: "ledger_row list"
  lg_text :: string

definition load_ledger :: "string option \<Rightarrow> ledger" where
  "load_ledger stored =
     (case stored of
        Some text \<Rightarrow> \<lparr>lg_rows = dict_reader text, lg_text = text\<rparr>
      | None \<Rightarrow> \<lparr>lg_rows = [], lg_text = csv_line LEDGER_FIELDS\<rparr>)"

definition complete_row :: "ledger_row \<Rightarrow> ledger_row" where
  "complete_row row = map (\<lambda>k. (k, case dget row k of None \<Rightarrow> [] | Some v \<Rightarrow> v)) LEDGER_FIELDS"

definition append_row :: "ledger_row \<Rightarrow> ledger \<Rightarrow> ledger" where
  "append_row row lg =
     (let complete = complete_row row
      in lg\<lparr>lg_rows := lg_rows lg @ [complete], lg_text := lg_text lg @ csv_line (map snd complete)\<rparr>)"

definition row_item :: "ledger_row \<Rightarrow> string \<Rightarrow> string result" where
  "row_item row k = (case dget row k of None \<Rightarrow> Inl (PyKeyError k) | Some v \<Rightarrow> Inr v)"

text \<open>\<open>int(text)\<close>\<close>

definition int_of_text :: "string \<Rightarrow> int result" where
  "int_of_text s = parse_int (py_strip s)"

definition row_key :: "ledger_row \<Rightarrow> condition_key result" where
  "row_key row =
     and_then (row_item row ''scenario'') (\<lambda>scenario.
     and_then (row_item row ''strategy'') (\<lambda>strategy.
     and_then (row_item row ''seed'') (\<lambda>text.
     and_then (int_of_text text) (\<lambda>seed.
     and_then (row_item row ''condition'') (\<lambda>condition. Inr (scenario, strategy, seed, condition))))))"

text \<open>The set, as the list of its elements in the order they are added.\<close>

fun completed :: "ledger_row list \<Rightarrow> condition_key list result" where
  "completed [] = Inr []"
| "completed (row # rows) =
     (if dget row ''status'' \<noteq> Some STATUS_VALID then completed rows
      else (case row_key row of
              Inl (PyValueError m) \<Rightarrow> completed rows
            | Inl e \<Rightarrow> Inl e
            | Inr k \<Rightarrow> and_then (completed rows) (\<lambda>ks. Inr (k # ks))))"

definition attempts_for :: "condition_key \<Rightarrow> ledger_row list \<Rightarrow> nat" where
  "attempts_for key rows =
     (case key of (scenario, strategy, seed, condition) \<Rightarrow>
        length (filter (\<lambda>row. dget row ''scenario'' = Some scenario \<and> dget row ''strategy'' = Some strategy
          \<and> dget row ''condition'' = Some condition \<and> dget row ''seed'' = Some (show_int seed)) rows))"

definition status_counts :: "ledger_row list \<Rightarrow> (string, int) dict" where
  "status_counts rows =
     fold (\<lambda>row. counter_add (case dget row ''status'' of None \<Rightarrow> ''?'' | Some s \<Rightarrow> s) 1) rows []"

section \<open>Failures\<close>

definition INFRASTRUCTURE_MARKERS :: "string list" where
  "INFRASTRUCTURE_MARKERS =
     [''AccessSourceError'', ''not live'', ''no live'', ''Connection refused'', ''Connection reset'', ''Broken pipe'',
      ''No route to host'', ''Timeout'', ''TimeoutError'', ''OSError'', ''Errno'']"

definition classify_failure :: "string list \<Rightarrow> string \<times> string" where
  "classify_failure errors =
     (let text = join_with '' | '' errors
      in if list_ex (\<lambda>marker. str_contains marker text) INFRASTRUCTURE_MARKERS
         then (STATUS_INFRA, take 400 text) else (STATUS_DEFECT, take 400 text))"

text \<open>\<open>type(exc).__name__\<close>\<close>

fun exception_name :: "error \<Rightarrow> string" where
  "exception_name (ConfigurationError _) = ''ConfigurationError''"
| "exception_name (RegistryError _) = ''RegistryError''"
| "exception_name (DeviceAlreadyRegisteredError _) = ''DeviceAlreadyRegisteredError''"
| "exception_name (DeviceNotFoundError _) = ''DeviceNotFoundError''"
| "exception_name (ProofOfPossessionError _) = ''ProofOfPossessionError''"
| "exception_name (NonceError _) = ''NonceError''"
| "exception_name (CollectorError _) = ''CollectorError''"
| "exception_name (EvidenceError _) = ''EvidenceError''"
| "exception_name (PolicyError _) = ''PolicyError''"
| "exception_name (StrategyError _) = ''StrategyError''"
| "exception_name (EnforcementError _) = ''EnforcementError''"
| "exception_name (AccessSourceError _) = ''AccessSourceError''"
| "exception_name (DeviceAgentError _) = ''DeviceAgentError''"
| "exception_name (DeviceKeyError _) = ''DeviceKeyError''"
| "exception_name (MqttProtocolError _) = ''MqttProtocolError''"
| "exception_name (PyValueError _) = ''ValueError''"
| "exception_name (PyKeyError _) = ''KeyError''"
| "exception_name (PyOverflowError _) = ''OverflowError''"
| "exception_name (PyTypeError _) = ''TypeError''"
| "exception_name (PyAttributeError _) = ''AttributeError''"
| "exception_name (PyIndexError _) = ''IndexError''"
| "exception_name (PyRuntimeError _) = ''RuntimeError''"
| "exception_name PyAssertionError = ''AssertionError''"
| "exception_name PyTimeoutError = ''TimeoutError''"
| "exception_name (PyOSError _) = ''OSError''"
| "exception_name IncompleteReadError = ''IncompleteReadError''"

section \<open>One attempt\<close>

record ('k, 'g) campaign_env =
  ce_run :: "nat \<Rightarrow> ('k, 'g) run_env"
  ce_reader :: line_reader
  ce_now :: "nat \<Rightarrow> nat \<Rightarrow> instant"
  ce_testbed :: "nat \<Rightarrow> testbed"
  ce_started :: "nat \<Rightarrow> instant"
  ce_str :: "error \<Rightarrow> string"
  ce_wall :: "nat \<Rightarrow> instant \<times> instant"
  ce_duration :: "nat \<Rightarrow> rat"
  ce_signal :: "nat \<Rightarrow> bool"
  ce_late :: "nat \<Rightarrow> bool"
  ce_frozen :: "nat \<Rightarrow> (string \<times> string) result"

record campaign_args =
  ca_campaign :: string
  ca_seeds :: "int list"
  ca_scenarios :: "scenario list"
  ca_repetitions :: int
  ca_scenario :: "string list"
  ca_run_timeout_s :: rat
  ca_max_retries :: int
  ca_access_source :: string
  ca_allow_dirty :: bool

text \<open>What git and the settings said at the start.\<close>

record frozen =
  fz_git_sha :: string
  fz_config_hash :: string

definition described :: "('k, 'g) campaign_env \<Rightarrow> error \<Rightarrow> string" where
  "described env e = exception_name e @ '': '' @ ce_str env e"

definition attempt_scenario :: "condition \<Rightarrow> scenario" where
  "attempt_scenario c =
     (case cn_device_count c of
        Some n \<Rightarrow> (cn_scenario c)\<lparr>scn_device_count := n\<rparr>
      | None \<Rightarrow> cn_scenario c)"

definition setup_fixture :: "scenario \<Rightarrow> fixture_source" where
  "setup_fixture s =
     \<lparr>fx_nr_address_prefix = sup_nr_address_prefix (scn_setup s),
      fx_wlan_address_prefix = sup_wlan_address_prefix (scn_setup s),
      fx_address_offset = sup_address_offset (scn_setup s),
      fx_address_stride = sup_address_stride (scn_setup s)\<rparr>"

definition attempt_options :: "('k, 'g) campaign_env \<Rightarrow> nat \<Rightarrow> condition \<Rightarrow> run_options" where
  "attempt_options env k c =
     (let s = attempt_scenario c; seed = run_seed s 0 (Some (cn_seed c))
      in \<lparr>ro_scenario = s, ro_strategy_name = cn_strategy c, ro_seed = seed, ro_repetition = 0,
          ro_result_class = ''final'', ro_start = None,
          ro_run_id = make_run_id (scn_scenario_id s) (cn_strategy c) seed (ce_started env k)\<rparr>)"

definition execute ::
    "('k, 'g) campaign_env \<Rightarrow> campaign_args \<Rightarrow> nat \<Rightarrow> condition \<Rightarrow> tree
      \<Rightarrow> (run_result \<times> string \<times> string) result \<times> tree" where
  "execute env args k c t =
     (case build_access_source (ce_reader env) (ce_now env k) (ce_testbed env k) (ca_access_source args)
             (setup_fixture (attempt_scenario c)) of
        Inl e \<Rightarrow> (Inl e, t)
      | Inr source \<Rightarrow>
          (case run_scenario ((ce_run env k)\<lparr>rv_source := source\<rparr>) (attempt_options env k c) of
             Inl e \<Rightarrow> (Inl e, t)
           | Inr rr \<Rightarrow>
               (case write_run rr t of
                  Inl e \<Rightarrow> (Inl e, t)
                | Inr t' \<Rightarrow>
                    (Inr (rr, if rr_ok rr then (STATUS_VALID, [])
                              else classify_failure (map (described env) (rr_errors rr))), t'))))"

text \<open>Status, reason, run identifier and result path of what \<open>execute\<close> returned or raised.\<close>

definition attempt_outcome ::
    "('k, 'g) campaign_env \<Rightarrow> (run_result \<times> string \<times> string) result \<Rightarrow> string \<times> string \<times> string \<times> string" where
  "attempt_outcome env x =
     (case x of
        Inr (rr, status, reason) \<Rightarrow> (status, reason, rr_run_id rr, ''raw/'' @ rr_run_id rr)
      | Inl e \<Rightarrow> (case classify_failure [described env e] of (status, reason) \<Rightarrow> (status, reason, [], [])))"

definition over_budget ::
    "campaign_args \<Rightarrow> rat \<Rightarrow> string \<times> string \<times> string \<times> string \<Rightarrow> string \<times> string \<times> string \<times> string" where
  "over_budget args duration x =
     (case x of (status, reason, run_id, path) \<Rightarrow>
        if duration > ca_run_timeout_s args \<and> status = STATUS_VALID then
          (STATUS_INFRA, ''run exceeded its '' @ show_int (round_half_even (ca_run_timeout_s args)) @ ''s budget'',
           run_id, path)
        else x)"

definition attempt_id :: "ledger \<Rightarrow> string" where
  "attempt_id lg = ''a'' @ pad_left 6 (show_nat (length (lg_rows lg) + 1))"

definition attempt_row ::
    "frozen \<Rightarrow> condition \<Rightarrow> ledger \<Rightarrow> instant \<times> instant \<Rightarrow> string \<Rightarrow> string \<times> string \<times> string \<times> string \<Rightarrow> ledger_row" where
  "attempt_row fz c lg wall duration x =
     (case x of (status, reason, run_id, path) \<Rightarrow>
       [(''attempt_id'', attempt_id lg), (''run_id'', run_id),
        (''scenario'', scn_scenario_id (cn_scenario c)), (''strategy'', cn_strategy c),
        (''seed'', show_int (cn_seed c)), (''condition'', condition_label c), (''campaign'', cn_campaign c),
        (''start'', isoformat (fst wall)), (''end'', isoformat (snd wall)), (''duration_s'', duration),
        (''status'', status), (''validity'', if status = STATUS_VALID then ''valid'' else ''invalid''),
        (''reason'', reason), (''git_sha'', fz_git_sha fz), (''config_hash'', fz_config_hash fz),
        (''result_path'', path)])"

record campaign_state =
  cs_ledger :: ledger
  cs_tree :: tree
  cs_attempts :: nat
  cs_interrupted :: bool
  cs_executed :: nat

definition attempt ::
    "('k, 'g) campaign_env \<Rightarrow> campaign_args \<Rightarrow> frozen \<Rightarrow> condition \<Rightarrow> campaign_state \<Rightarrow> string \<times> campaign_state" where
  "attempt env args fz c st =
     (let k = cs_attempts st; duration = ce_duration env k
      in (case execute env args k c (cs_tree st) of
            (x, t) \<Rightarrow>
              (let outcome = over_budget args duration (attempt_outcome env x)
               in (fst outcome,
                   st\<lparr>cs_ledger := append_row
                        (attempt_row fz c (cs_ledger st) (ce_wall env k)
                          (float3_repr (round_half_even (duration * 1000))) outcome) (cs_ledger st),
                      cs_tree := t, cs_attempts := Suc k\<rparr>))))"

section \<open>Retries and the loop\<close>

datatype attempts_end = Succeeded | Defective | Exhausted

fun attempts ::
    "('k, 'g) campaign_env \<Rightarrow> campaign_args \<Rightarrow> frozen \<Rightarrow> condition \<Rightarrow> nat \<Rightarrow> campaign_state
      \<Rightarrow> attempts_end \<times> campaign_state" where
  "attempts env args fz c 0 st = (Exhausted, st)"
| "attempts env args fz c (Suc n) st =
     (case attempt env args fz c st of
        (status, st1) \<Rightarrow>
          if status = STATUS_VALID then (Succeeded, st1\<lparr>cs_executed := cs_executed st1 + 1\<rparr>)
          else if status = STATUS_DEFECT then (Defective, st1)
          else attempts env args fz c n st1)"

text \<open>\<open>while attempts <= max_retries\<close>, from none\<close>

definition attempt_limit :: "campaign_args \<Rightarrow> nat" where
  "attempt_limit args = nat (ca_max_retries args + 1)"

definition abort_row :: "frozen \<Rightarrow> condition \<Rightarrow> ledger \<Rightarrow> instant \<times> instant \<Rightarrow> ledger_row" where
  "abort_row fz c lg wall =
     attempt_row fz c lg wall ''0'' (STATUS_ABORTED, ''campaign interrupted before this condition ran'', [], [])"

text \<open>The loop over the pending conditions, \<open>i\<close> the index of the next: a value is the exit code of a
  \<open>return\<close> inside it.\<close>

fun campaign_loop ::
    "('k, 'g) campaign_env \<Rightarrow> campaign_args \<Rightarrow> frozen \<Rightarrow> nat \<Rightarrow> condition list \<Rightarrow> campaign_state
      \<Rightarrow> int option result \<times> campaign_state" where
  "campaign_loop env args fz i [] st = (Inr None, st)"
| "campaign_loop env args fz i (c # pending) st =
     (let st0 = st\<lparr>cs_interrupted := cs_interrupted st \<or> ce_signal env i\<rparr>
      in if cs_interrupted st0 then
           campaign_loop env args fz (Suc i) pending
             (st0\<lparr>cs_ledger := append_row (abort_row fz c (cs_ledger st0) (ce_wall env (cs_attempts st0)))
                                 (cs_ledger st0),
                  cs_attempts := Suc (cs_attempts st0)\<rparr>)
         else if ce_late env i then (Inr None, st0)
         else (case attempts env args fz c (attempt_limit args) st0 of
                 (Defective, st1) \<Rightarrow> (Inr (Some 3), st1)
               | (_, st1) \<Rightarrow>
                   (case ce_frozen env i of
                      Inl e \<Rightarrow> (Inl e, st1)
                    | Inr (sha, config_hash) \<Rightarrow>
                        if sha \<noteq> fz_git_sha fz \<or> config_hash \<noteq> fz_config_hash fz then (Inr (Some 4), st1)
                        else campaign_loop env args fz (Suc i) pending st1)))"

section \<open>A session\<close>

text \<open>\<open>seeds[:n]\<close>\<close>

definition py_take :: "int \<Rightarrow> 'a list \<Rightarrow> 'a list" where
  "py_take n xs = take (nat (if n \<ge> 0 then n else int (length xs) + n)) xs"

definition session_seeds :: "campaign_args \<Rightarrow> int list" where
  "session_seeds args =
     (if ca_repetitions args \<noteq> 0 then py_take (ca_repetitions args) (ca_seeds args) else ca_seeds args)"

definition session_strategies :: "campaign_args \<Rightarrow> string list" where
  "session_strategies args =
     (if ca_campaign args = ''sensitivity'' then SENSITIVITY_STRATEGIES else PRIMARY_STRATEGIES)"

definition session_scenarios :: "campaign_args \<Rightarrow> scenario list" where
  "session_scenarios args =
     filter (\<lambda>s.
       (ca_campaign args = ''sensitivity'' \<longrightarrow> scn_scenario_id s \<in> set SENSITIVITY_SCENARIOS)
       \<and> (ca_scenario args \<noteq> [] \<longrightarrow> scn_scenario_id s \<in> set (map py_upper (ca_scenario args))))
       (ca_scenarios args)"

definition session_conditions :: "campaign_args \<Rightarrow> condition list" where
  "session_conditions args =
     build_conditions (session_scenarios args) (session_strategies args) (session_seeds args) (ca_campaign args)"

record session_log =
  sl_campaign :: string
  sl_git_sha :: string
  sl_config_hash :: string
  sl_access_source :: string
  sl_seeds :: "int list"
  sl_scenarios :: "string list"
  sl_strategies :: "string list"
  sl_conditions_total :: nat
  sl_executed_this_session :: nat
  sl_ledger_status_counts :: "(string, int) dict"
  sl_interrupted :: bool

definition session_summary :: "campaign_args \<Rightarrow> frozen \<Rightarrow> campaign_state \<Rightarrow> session_log" where
  "session_summary args fz st =
     \<lparr>sl_campaign = ca_campaign args, sl_git_sha = fz_git_sha fz, sl_config_hash = fz_config_hash fz,
      sl_access_source = ca_access_source args, sl_seeds = session_seeds args,
      sl_scenarios = map scn_scenario_id (session_scenarios args), sl_strategies = session_strategies args,
      sl_conditions_total = length (session_conditions args), sl_executed_this_session = cs_executed st,
      sl_ledger_status_counts = status_counts (lg_rows (cs_ledger st)), sl_interrupted = cs_interrupted st\<rparr>"

definition all_valid :: "condition list \<Rightarrow> condition_key list \<Rightarrow> bool" where
  "all_valid conditions ks \<longleftrightarrow> list_all (\<lambda>c. condition_key c \<in> set ks) conditions"

definition start_session :: "ledger \<Rightarrow> tree \<Rightarrow> campaign_state" where
  "start_session lg t =
     \<lparr>cs_ledger = lg, cs_tree = t, cs_attempts = 0, cs_interrupted = False, cs_executed = 0\<rparr>"

text \<open>From the loaded ledger on: the exit code or exception, and the state at the end.\<close>

definition campaign_session ::
    "('k, 'g) campaign_env \<Rightarrow> campaign_args \<Rightarrow> frozen \<Rightarrow> campaign_state \<Rightarrow> int result \<times> campaign_state" where
  "campaign_session env args fz st =
     run_then (completed (lg_rows (cs_ledger st)), st) (\<lambda>ks st.
       let conditions = session_conditions args;
           pending = filter (\<lambda>c. condition_key c \<notin> set ks) conditions
       in if pending = [] then (Inr 0, st)
          else run_then (campaign_loop env args fz 0 pending st) (\<lambda>code st1.
            case code of
              Some n \<Rightarrow> (Inr n, st1)
            | None \<Rightarrow>
                run_then (completed (lg_rows (cs_ledger st1)), st1) (\<lambda>ks1 st2.
                  (Inr (if all_valid conditions ks1 then 0 else 1), st2))))"

text \<open>On the ledger's file and the output tree; a dirty working tree is refused before either is touched.\<close>

definition campaign_main ::
    "('k, 'g) campaign_env \<Rightarrow> campaign_args \<Rightarrow> frozen \<Rightarrow> bool \<Rightarrow> string option \<times> tree
      \<Rightarrow> int result \<times> (string option \<times> tree)" where
  "campaign_main env args fz dirty x =
     (if dirty \<and> \<not> ca_allow_dirty args then (Inr 2, x)
      else (case campaign_session env args fz (start_session (load_ledger (fst x)) (snd x)) of
              (code, st) \<Rightarrow> (code, Some (lg_text (cs_ledger st)), cs_tree st)))"

section \<open>The script\<close>

text \<open>
  What the script reads before it starts: the commit and the hash of the settings, whether the working tree
  is dirty, the seeds of the seed file, and the parsed scenario files. Each read can raise, in the order of
  the code; a dirty tree is refused before the last two.
\<close>

record campaign_inputs =
  ci_frozen :: "(string \<times> string) result"
  ci_dirty :: "bool result"
  ci_seeds :: "int list result"
  ci_scenarios :: "scenario list result"

definition with_inputs :: "int list \<Rightarrow> scenario list \<Rightarrow> campaign_args \<Rightarrow> campaign_args" where
  "with_inputs seeds scenarios args = args\<lparr>ca_seeds := seeds, ca_scenarios := scenarios\<rparr>"

definition campaign_script ::
    "('k, 'g) campaign_env \<Rightarrow> campaign_args \<Rightarrow> campaign_inputs \<Rightarrow> string option \<times> tree
      \<Rightarrow> int result \<times> (string option \<times> tree)" where
  "campaign_script env args ins x =
     run_then (ci_frozen ins, x) (\<lambda>(sha, config_hash) x.
     run_then (ci_dirty ins, x) (\<lambda>dirty x.
       if dirty \<and> \<not> ca_allow_dirty args then (Inr 2, x)
       else run_then (ci_seeds ins, x) (\<lambda>seeds x.
            run_then (and_then (ci_scenarios ins) load_scenarios, x) (\<lambda>scenarios x.
              campaign_main env (with_inputs seeds scenarios args)
                \<lparr>fz_git_sha = sha, fz_config_hash = config_hash\<rparr> dirty x))))"

end
