(* ===== verification/Campaign_Sessions.thy ===== *)
theory Campaign_Sessions
  imports Campaign_Facts
begin

text \<open>
  The campaign over all its sessions: what the ledger's file and the output tree hold after any number of
  them, how often a condition is tried, what the exit code says, and that a campaign over checked
  scenarios completes.
\<close>

section \<open>Attempts at one condition\<close>

lemma classified: "fst (classify_failure es) \<in> {STATUS_INFRA, STATUS_DEFECT}"
  by (simp add: classify_failure_def Let_def)

lemma over_budget_status:
  "fst (over_budget args d x) = (if d > ca_run_timeout_s args \<and> fst x = STATUS_VALID then STATUS_INFRA else fst x)"
  by (cases x) (simp add: over_budget_def)

lemma execute_ok:
  assumes "execute env args k c t = (Inr (rr, status, reason), t')"
  obtains source where "run_scenario ((ce_run env k)\<lparr>rv_source := source\<rparr>) (attempt_options env k c) = Inr rr"
    "write_run rr t = Inr t'" "status = (if rr_ok rr then STATUS_VALID else fst (classify_failure (map (described env) (rr_errors rr))))"
  using assms by (auto simp: execute_def split: sum.splits if_splits prod.splits)

lemma execute_raised: "execute env args k c t = (Inl e, t') \<Longrightarrow> t' = t"
  by (auto simp: execute_def split: sum.splits if_splits)

lemma attempt_status:
  assumes "attempt env args fz c st = (status, st')"
  shows "status \<in> {STATUS_VALID, STATUS_INFRA, STATUS_DEFECT}"
proof -
  obtain x t outcome where x: "execute env args (cs_attempts st) c (cs_tree st) = (x, t)"
    "outcome = over_budget args (ce_duration env (cs_attempts st)) (attempt_outcome env x)" "status = fst outcome"
    using attempt_effect [OF assms] by metis
  have "fst (attempt_outcome env x) \<in> {STATUS_VALID, STATUS_INFRA, STATUS_DEFECT}"
  proof (cases x)
    case (Inl e)
    then show ?thesis using classified [of "[described env e]"] by (auto simp: attempt_outcome_def split: prod.splits)
  next
    case (Inr y)
    obtain rr s reason where y: "y = (rr, s, reason)" by (cases y)
    obtain source where "s = (if rr_ok rr then STATUS_VALID else fst (classify_failure (map (described env) (rr_errors rr))))"
      using x(1) execute_ok unfolding Inr y by metis
    then show ?thesis using classified [of "map (described env) (rr_errors rr)"]
      by (auto simp: Inr y attempt_outcome_def)
  qed
  then show ?thesis using x(2,3) by (auto simp: over_budget_status)
qed

lemma attempt_row_of:
  assumes "attempt env args fz c st = (status, st')"
  obtains row where "lg_rows (cs_ledger st') = lg_rows (cs_ledger st) @ [row]" "dget row ''status'' = Some status"
    "row_key row = Inr (condition_key c)" "cs_executed st' = cs_executed st"
    "\<And>ks. completed (lg_rows (cs_ledger st)) = Inr ks \<Longrightarrow>
       completed (lg_rows (cs_ledger st')) = Inr (if status = STATUS_VALID then ks @ [condition_key c] else ks)"
proof -
  from attempt_effect [OF assms] obtain lg wall d x where
    "cs_ledger st' = append_row (attempt_row fz c lg wall d x) (cs_ledger st)" "status = fst x"
    "cs_executed st' = cs_executed st" by metis
  then show thesis by (intro that [of "attempt_row fz c lg wall d x"]) simp_all
qed

text \<open>The rows of one condition in a session: all but the last are infrastructure failures.\<close>

definition tried :: "condition \<Rightarrow> nat \<Rightarrow> attempts_end \<Rightarrow> ledger_row list \<Rightarrow> bool" where
  "tried c n e rs \<longleftrightarrow> length rs \<le> n \<and> (\<forall>row \<in> set rs. row_key row = Inr (condition_key c))
     \<and> (\<forall>row \<in> set (butlast rs). dget row ''status'' = Some STATUS_INFRA)
     \<and> (case e of
          Succeeded \<Rightarrow> rs \<noteq> [] \<and> dget (last rs) ''status'' = Some STATUS_VALID
        | Defective \<Rightarrow> rs \<noteq> [] \<and> dget (last rs) ''status'' = Some STATUS_DEFECT
        | Exhausted \<Rightarrow> length rs = n \<and> (rs \<noteq> [] \<longrightarrow> dget (last rs) ''status'' = Some STATUS_INFRA))"

lemma tried_Cons:
  assumes "tried c n e rs" "row_key row = Inr (condition_key c)" "dget row ''status'' = Some STATUS_INFRA"
  shows "tried c (Suc n) e (row # rs)"
  using assms by (auto simp: tried_def split: attempts_end.splits)

lemma attempts_rows:
  assumes "attempts env args fz c n st = (e, st')"
  shows "\<exists>rs. lg_rows (cs_ledger st') = lg_rows (cs_ledger st) @ rs \<and> tried c n e rs"
  using assms
proof (induction n arbitrary: st)
  case 0
  then show ?case by (simp add: tried_def)
next
  case (Suc n)
  obtain status st1 where a: "attempt env args fz c st = (status, st1)" by fastforce
  from attempt_row_of [OF a] obtain row where row: "lg_rows (cs_ledger st1) = lg_rows (cs_ledger st) @ [row]"
    "dget row ''status'' = Some status" "row_key row = Inr (condition_key c)" by metis
  consider (ok) "status = STATUS_VALID" | (infra) "status = STATUS_INFRA" | (defect) "status = STATUS_DEFECT"
    using attempt_status [OF a] by blast
  then show ?case
  proof cases
    case infra
    with Suc.prems a have "attempts env args fz c n st1 = (e, st')" by simp
    from Suc.IH [OF this] obtain rs where rs: "lg_rows (cs_ledger st') = lg_rows (cs_ledger st1) @ rs" "tried c n e rs"
      by blast
    have "tried c (Suc n) e (row # rs)" by (rule tried_Cons [OF rs(2) row(3)]) (simp add: row(2) infra)
    then show ?thesis using rs(1) row(1) by (intro exI [of _ "row # rs"]) simp
  next
    case ok
    with Suc.prems a have "e = Succeeded" "cs_ledger st' = cs_ledger st1" by auto
    then show ?thesis using row ok by (intro exI [of _ "[row]"]) (simp add: tried_def)
  next
    case defect
    with Suc.prems a have "e = Defective" "cs_ledger st' = cs_ledger st1" by auto
    then show ?thesis using row defect by (intro exI [of _ "[row]"]) (simp add: tried_def)
  qed
qed

lemma attempts_completed:
  assumes "attempts env args fz c n st = (e, st')" "completed (lg_rows (cs_ledger st)) = Inr ks"
  shows "completed (lg_rows (cs_ledger st')) = Inr (if e = Succeeded then ks @ [condition_key c] else ks)
    \<and> cs_executed st' = cs_executed st + (if e = Succeeded then 1 else 0)"
  using assms
proof (induction n arbitrary: st)
  case (Suc n)
  obtain status st1 where a: "attempt env args fz c st = (status, st1)" by fastforce
  from attempt_row_of [OF a] have st1: "cs_executed st1 = cs_executed st"
    "completed (lg_rows (cs_ledger st1)) = Inr (if status = STATUS_VALID then ks @ [condition_key c] else ks)"
    using Suc.prems(2) by metis+
  show ?case
    using Suc.prems(1) a st1 Suc.IH [of st1] by (auto split: if_splits)
qed simp

section \<open>A session\<close>

lemma loop_completed:
  assumes "campaign_loop env args fz i pending st = (r, st')" "completed (lg_rows (cs_ledger st)) = Inr ks"
  shows "\<exists>new. completed (lg_rows (cs_ledger st')) = Inr (ks @ new)
    \<and> subseq new (map condition_key pending) \<and> cs_executed st' = cs_executed st + length new"
  using assms
proof (induction pending arbitrary: i st ks)
  case (Cons c pending)
  let ?st = "st\<lparr>cs_interrupted := cs_interrupted st \<or> ce_signal env i\<rparr>"
  consider (abort) "cs_interrupted ?st" | (late) "\<not> cs_interrupted ?st" "ce_late env i"
    | (tries) "\<not> cs_interrupted ?st" "\<not> ce_late env i" by blast
  then show ?case
  proof cases
    case abort
    let ?st1 = "?st\<lparr>cs_ledger := append_row (abort_row fz c (cs_ledger ?st) (ce_wall env (cs_attempts ?st))) (cs_ledger ?st),
             cs_attempts := Suc (cs_attempts ?st)\<rparr>"
    have l: "campaign_loop env args fz (Suc i) pending ?st1 = (r, st')" using Cons.prems(1) abort by (simp add: Let_def)
    have "completed (lg_rows (cs_ledger ?st1)) = Inr ks" using Cons.prems(2) by (simp add: abort_row_def)
    from Cons.IH [OF l this] show ?thesis by auto
  next
    case late
    then have "st' = ?st" using Cons.prems(1) by (simp add: Let_def)
    then show ?thesis using Cons.prems(2) by (intro exI [of _ "[]"]) simp
  next
    case tries
    obtain e st1 where a: "attempts env args fz c (attempt_limit args) ?st = (e, st1)" by fastforce
    let ?ks = "if e = Succeeded then ks @ [condition_key c] else ks"
    have c1: "completed (lg_rows (cs_ledger st1)) = Inr ?ks"
      "cs_executed st1 = cs_executed st + (if e = Succeeded then 1 else 0)"
      using attempts_completed [OF a] Cons.prems(2) by simp_all
    consider "st' = st1" | (more) "campaign_loop env args fz (Suc i) pending st1 = (r, st')"
      using Cons.prems(1) tries a by (auto simp: Let_def split: attempts_end.splits sum.splits prod.splits if_splits)
    then show ?thesis
    proof cases
      case 1
      then show ?thesis using c1
        by (intro exI [of _ "if e = Succeeded then [condition_key c] else []"]) simp
    next
      case more
      from Cons.IH [OF more c1(1)] obtain new where "completed (lg_rows (cs_ledger st')) = Inr (?ks @ new)"
        "subseq new (map condition_key pending)" "cs_executed st' = cs_executed st1 + length new" by blast
      then show ?thesis using c1(2)
        by (intro exI [of _ "if e = Succeeded then condition_key c # new else new"]) auto
    qed
  qed
qed (auto intro: exI [of _ "[]"])

lemma subseq_subset: "subseq xs ys \<Longrightarrow> set xs \<subseteq> set ys"
  by (induction rule: list_emb.induct) auto

lemma subseq_distinct: "subseq xs ys \<Longrightarrow> distinct ys \<Longrightarrow> distinct xs"
  by (induction rule: list_emb.induct) (auto dest: subseq_subset)

text \<open>A session records VALID only conditions that were not, each once; and says with its exit code
  whether all of them are.\<close>

lemma session_completed:
  assumes "campaign_session env args fz st = (r, st')" "completed (lg_rows (cs_ledger st)) = Inr ks"
    and "distinct (map condition_key (session_conditions args))"
  shows "\<exists>new. completed (lg_rows (cs_ledger st')) = Inr (ks @ new) \<and> distinct new \<and> set new \<inter> set ks = {}
    \<and> set new \<subseteq> set (map condition_key (session_conditions args))
    \<and> cs_executed st' = cs_executed st + length new
    \<and> (r = Inr 0 \<longrightarrow> all_valid (session_conditions args) (ks @ new))
    \<and> (r = Inr 1 \<longrightarrow> \<not> all_valid (session_conditions args) (ks @ new))"
proof -
  let ?pending = "filter (\<lambda>c. condition_key c \<notin> set ks) (session_conditions args)"
  show ?thesis
  proof (cases "?pending = []")
    case True
    then have "all_valid (session_conditions args) ks" by (auto simp: all_valid_def list_all_iff filter_empty_conv)
    then show ?thesis using assms(1,2) True
      by (intro exI [of _ "[]"]) (auto simp: campaign_session_def Let_def)
  next
    case False
    obtain code st1 where l: "campaign_loop env args fz 0 ?pending st = (code, st1)" by fastforce
    from loop_completed [OF l assms(2)] obtain new where new: "completed (lg_rows (cs_ledger st1)) = Inr (ks @ new)"
      "subseq new (map condition_key ?pending)" "cs_executed st1 = cs_executed st + length new" by blast
    have d: "distinct (map condition_key ?pending)" using assms(3) by (simp add: distinct_map_filter)
    have n: "distinct new" "set new \<subseteq> condition_key ` set ?pending"
      using subseq_distinct [OF new(2) d] subseq_subset [OF new(2)] by simp_all
    have st': "st' = st1" "r = Inr 0 \<longrightarrow> all_valid (session_conditions args) (ks @ new) \<or> code = Inr (Some 0)"
      "r = Inr 1 \<longrightarrow> \<not> all_valid (session_conditions args) (ks @ new) \<or> code = Inr (Some 1)"
      using assms(1) False assms(2) l new(1) unfolding campaign_session_def
      by (cases code; auto simp: Let_def split: option.splits if_splits)+
    have codes: "code \<noteq> Inr (Some 0)" "code \<noteq> Inr (Some 1)"
    proof -
      have "fst (campaign_loop env args fz i p s) \<notin> {Inr (Some 0), Inr (Some 1)}" for i p s
        by (induction env args fz i p s rule: campaign_loop.induct)
          (auto simp: Let_def split: attempts_end.splits sum.splits prod.splits if_splits)
      from this [of 0 ?pending st] l show "code \<noteq> Inr (Some 0)" "code \<noteq> Inr (Some 1)" by auto
    qed
    show ?thesis using new n st' codes by (intro exI [of _ new]) auto
  qed
qed

text \<open>The keys of the matrix are distinct when scenario identifiers and seeds are.\<close>

lemma label_inject: "condition_label c = condition_label d \<longleftrightarrow> cn_device_count c = cn_device_count d"
  by (auto simp: condition_label_def split: option.splits)

lemma distinct_concat_map:
  assumes "distinct xs" "\<And>x. x \<in> set xs \<Longrightarrow> distinct (f x)"
    and "\<And>x y. x \<in> set xs \<Longrightarrow> y \<in> set xs \<Longrightarrow> x \<noteq> y \<Longrightarrow> set (f x) \<inter> set (f y) = {}"
  shows "distinct (concat (map f xs))"
  using assms by (induction xs) auto

lemma matrix_keys_distinct:
  assumes "distinct (map scn_scenario_id scenarios)" "distinct strategies" "distinct seeds"
  shows "distinct (map condition_key (build_conditions scenarios strategies seeds campaign))"
proof -
  have s: "distinct scenarios" "inj_on scn_scenario_id (set scenarios)" using assms(1) by (simp_all add: distinct_map)
  have lv: "distinct (device_levels x)" for x by (auto simp: device_levels_def E13_DEVICE_LEVELS_def)
  have "map condition_key (build_conditions scenarios strategies seeds campaign) =
      concat (map (\<lambda>s. concat (map (\<lambda>level. concat (map (\<lambda>strategy. map (\<lambda>seed.
        (scn_scenario_id s, strategy, seed, case level of Some n \<Rightarrow> ''devices='' @ show_nat n | None \<Rightarrow> ''default''))
          seeds) strategies)) (device_levels s))) scenarios)"
    by (simp add: build_conditions_def map_concat comp_def condition_key_def condition_label_def)
  also have "distinct \<dots>"
    using s lv assms(2,3)
    by (intro distinct_concat_map) (auto simp: distinct_map inj_on_def split: option.splits)
  finally show ?thesis .
qed

lemma session_keys_distinct:
  assumes "distinct (map scn_scenario_id (ca_scenarios args))" "distinct (ca_seeds args)"
  shows "distinct (map condition_key (session_conditions args))"
  unfolding session_conditions_def
proof (rule matrix_keys_distinct)
  show "distinct (map scn_scenario_id (session_scenarios args))"
    using assms(1) by (simp add: session_scenarios_def distinct_map_filter)
  show "distinct (session_strategies args)"
    by (simp add: session_strategies_def PRIMARY_STRATEGIES_def SENSITIVITY_STRATEGIES_def)
  show "distinct (session_seeds args)" using assms(2) by (simp add: session_seeds_def py_take_def)
qed

end
