(* ===== verification/Campaign_History.thy ===== *)
theory Campaign_History
  imports Campaign_Sessions
begin

text \<open>
  Sessions one after the other, each resuming from the file the last one left: the histories of a campaign
  as an inductive predicate on the ledger's file and the output tree, and what all of them keep. Then a
  campaign that completes.
\<close>

section \<open>How often a condition is tried\<close>

lemma show_int_inject [simp]: "show_int a = show_int b \<longleftrightarrow> a = b"
  by (metis int_of_text_show sum.inject(2))

lemma attempts_for_snoc [simp]:
  "attempts_for key (rows @ [attempt_row fz c lg wall d x]) =
     attempts_for key rows + (if condition_key c = key then 1 else 0)"
  by (cases key) (auto simp: attempts_for_def condition_key_def)

lemma attempts_count:
  assumes "attempts env args fz c n st = (e, st')"
  shows "attempts_for key (lg_rows (cs_ledger st')) \<le>
    attempts_for key (lg_rows (cs_ledger st)) + (if condition_key c = key then n else 0)"
  using assms
proof (induction n arbitrary: st)
  case (Suc n)
  obtain status st1 where a: "attempt env args fz c st = (status, st1)" by fastforce
  from attempt_effect [OF a] obtain lg wall d x where
    "cs_ledger st1 = append_row (attempt_row fz c lg wall d x) (cs_ledger st)" by metis
  then have one: "attempts_for key (lg_rows (cs_ledger st1)) =
      attempts_for key (lg_rows (cs_ledger st)) + (if condition_key c = key then 1 else 0)" by simp
  show ?case
    using Suc.prems a one Suc.IH [of st1] by (auto split: if_splits)
qed simp

definition session_limit :: "campaign_args \<Rightarrow> nat" where
  "session_limit args = max 1 (attempt_limit args)"

lemma loop_count:
  assumes "campaign_loop env args fz i pending st = (r, st')" "distinct (map condition_key pending)"
  shows "attempts_for key (lg_rows (cs_ledger st')) \<le>
    attempts_for key (lg_rows (cs_ledger st)) + (if key \<in> condition_key ` set pending then session_limit args else 0)"
  using assms
proof (induction pending arbitrary: i st)
  case (Cons c pending)
  let ?st = "st\<lparr>cs_interrupted := cs_interrupted st \<or> ce_signal env i\<rparr>"
  let ?k = "\<lambda>st. attempts_for key (lg_rows (cs_ledger st))"
  consider (abort) "cs_interrupted ?st" | (late) "\<not> cs_interrupted ?st" "ce_late env i"
    | (tries) "\<not> cs_interrupted ?st" "\<not> ce_late env i" by blast
  then show ?case
  proof cases
    case abort
    let ?st1 = "?st\<lparr>cs_ledger := append_row (abort_row fz c (cs_ledger ?st) (ce_wall env (cs_attempts ?st))) (cs_ledger ?st),
             cs_attempts := Suc (cs_attempts ?st)\<rparr>"
    have l: "campaign_loop env args fz (Suc i) pending ?st1 = (r, st')" using Cons.prems(1) abort by (simp add: Let_def)
    have "?k ?st1 = ?k st + (if condition_key c = key then 1 else 0)" by (simp add: abort_row_def)
    then show ?thesis using Cons.IH [OF l] Cons.prems(2) by (auto simp: session_limit_def split: if_splits)
  next
    case late
    then have "st' = ?st" using Cons.prems(1) by (simp add: Let_def)
    then show ?thesis by simp
  next
    case tries
    obtain e st1 where a: "attempts env args fz c (attempt_limit args) ?st = (e, st1)" by fastforce
    have k: "?k st1 \<le> ?k st + (if condition_key c = key then attempt_limit args else 0)"
      using attempts_count [OF a, of key] by simp
    consider "st' = st1" | (more) "campaign_loop env args fz (Suc i) pending st1 = (r, st')"
      using Cons.prems(1) tries a by (auto simp: Let_def split: attempts_end.splits sum.splits prod.splits if_splits)
    then show ?thesis
    proof cases
      case 1
      then show ?thesis using k by (auto simp: session_limit_def split: if_splits)
    next
      case more
      from Cons.IH [OF more] Cons.prems(2) k show ?thesis by (auto simp: session_limit_def split: if_splits)
    qed
  qed
qed simp

lemma session_count:
  assumes "campaign_session env args fz st = (r, st')" "completed (lg_rows (cs_ledger st)) = Inr ks"
    and "distinct (map condition_key (session_conditions args))"
  shows "attempts_for key (lg_rows (cs_ledger st')) \<le> attempts_for key (lg_rows (cs_ledger st))
     + (if key \<in> set ks then 0 else session_limit args)"
proof -
  let ?pending = "filter (\<lambda>c. condition_key c \<notin> set ks) (session_conditions args)"
  obtain code st1 where l: "campaign_loop env args fz 0 ?pending st = (code, st1)" by fastforce
  have d: "distinct (map condition_key ?pending)" using assms(3) by (simp add: distinct_map_filter)
  have "st' = st \<or> st' = st1"
    using assms(1,2) l by (cases code) (auto simp: campaign_session_def Let_def run_then_def
        split: if_splits option.splits sum.splits)
  moreover have "key \<notin> set ks" if "key \<in> condition_key ` set ?pending" using that by auto
  ultimately show ?thesis using loop_count [OF l d, of key] by (auto split: if_splits)
qed

section \<open>Every VALID row has its run on disk\<close>

lemma output_files_apart:
  assumes "i \<noteq> j" "p \<in> set (output_files i)"
  shows "p \<notin> set (output_files j)"
proof
  assume "p \<in> set (output_files j)"
  with assms show False
    by (auto simp: output_files_def raw_file_def dest: arg_cong [where f = rev])
qed

lemma write_run_files:
  assumes "write_run r t = Inr t'"
  shows "dget t' (raw_file (rr_run_id r) ''metrics.json'') = Some (Summary (rr_metrics r))"
    and "dget t' (''metadata/'' @ rr_run_id r @ ''.json'') = Some (Metadata (rr_metadata r) (rr_errors r) (rr_ok r))"
    and "\<exists>old. dget t' (raw_file (rr_run_id r) ''decisions.jsonl'') =
      Some (Lines (old @ map (stamped r) (rr_decisions r)))"
  using assms output_files_distinct [of "rr_run_id r", unfolded output_files_def]
  by (auto simp: write_run_def append_lines_def split: if_splits)

text \<open>The row's condition was run to its end by an attempt in one of the environments \<open>W\<close>, and its events, its
  decisions (last in their file), its summary and its metadata are in the tree.\<close>

definition on_disk :: "('k, 'g) campaign_env set \<Rightarrow> tree \<Rightarrow> ledger_row \<Rightarrow> bool" where
  "on_disk W t row \<longleftrightarrow>
     (\<exists>env \<in> W. \<exists>k source c rr.
       run_scenario ((ce_run env k)\<lparr>rv_source := source\<rparr>) (attempt_options env k c) = Inr rr \<and> rr_ok rr
       \<and> row_key row = Inr (condition_key c)
       \<and> dget row ''run_id'' = Some (rr_run_id rr) \<and> dget row ''result_path'' = Some (''raw/'' @ rr_run_id rr)
       \<and> dget t (raw_file (rr_run_id rr) ''events.jsonl'') = Some (Lines (map (stamped rr) (rr_events rr)))
       \<and> (\<exists>old. dget t (raw_file (rr_run_id rr) ''decisions.jsonl'') = Some (Lines (old @ map (stamped rr) (rr_decisions rr))))
       \<and> dget t (raw_file (rr_run_id rr) ''metrics.json'') = Some (Summary (rr_metrics rr))
       \<and> dget t (''metadata/'' @ rr_run_id rr @ ''.json'') = Some (Metadata (rr_metadata rr) [] True))"

definition evidenced :: "('k, 'g) campaign_env set \<Rightarrow> tree \<Rightarrow> ledger_row list \<Rightarrow> bool" where
  "evidenced W t rows \<longleftrightarrow> (\<forall>row \<in> set rows. dget row ''status'' = Some STATUS_VALID \<longrightarrow> on_disk W t row)"

lemma on_disk_write:
  assumes "on_disk W t row" "write_run r t = Inr t'"
  shows "on_disk W t' row"
proof -
  from assms(1) obtain env k source c rr where e: "env \<in> W"
    "run_scenario ((ce_run env k)\<lparr>rv_source := source\<rparr>) (attempt_options env k c) = Inr rr" "rr_ok rr"
    "row_key row = Inr (condition_key c)"
    "dget row ''run_id'' = Some (rr_run_id rr)" "dget row ''result_path'' = Some (''raw/'' @ rr_run_id rr)"
    and f: "dget t (raw_file (rr_run_id rr) ''events.jsonl'') = Some (Lines (map (stamped rr) (rr_events rr)))"
    "\<exists>old. dget t (raw_file (rr_run_id rr) ''decisions.jsonl'') = Some (Lines (old @ map (stamped rr) (rr_decisions rr)))"
    "dget t (raw_file (rr_run_id rr) ''metrics.json'') = Some (Summary (rr_metrics rr))"
    "dget t (''metadata/'' @ rr_run_id rr @ ''.json'') = Some (Metadata (rr_metadata rr) [] True)"
    unfolding on_disk_def by blast
  have ne: "rr_run_id rr \<noteq> rr_run_id r"
    using f(1) write_run_effect(1) [OF assms(2)] by auto
  have "dget t' p = dget t p" if "p \<in> set (output_files (rr_run_id rr))" for p
    using write_run_effect(3) [OF assms(2)] output_files_apart [OF ne that] by blast
  from this [unfolded output_files_def] have
    "dget t' (raw_file (rr_run_id rr) ''events.jsonl'') = Some (Lines (map (stamped rr) (rr_events rr)))"
    "\<exists>old. dget t' (raw_file (rr_run_id rr) ''decisions.jsonl'') = Some (Lines (old @ map (stamped rr) (rr_decisions rr)))"
    "dget t' (raw_file (rr_run_id rr) ''metrics.json'') = Some (Summary (rr_metrics rr))"
    "dget t' (''metadata/'' @ rr_run_id rr @ ''.json'') = Some (Metadata (rr_metadata rr) [] True)"
    using f by simp_all
  with e show ?thesis unfolding on_disk_def by blast
qed

lemma execute_tree:
  assumes "execute env args k c t = (x, t')"
  shows "t' = t \<or> (\<exists>rr. write_run rr t = Inr t')"
  using assms by (auto simp: execute_def split: sum.splits if_splits prod.splits)

lemma attempt_evidenced:
  assumes "env \<in> W" "evidenced W (cs_tree st) (lg_rows (cs_ledger st))" "attempt env args fz c st = (status, st')"
  shows "evidenced W (cs_tree st') (lg_rows (cs_ledger st'))"
proof -
  let ?k = "cs_attempts st"
  from attempt_effect [OF assms(3)] obtain x t lg wall d outcome where
    x: "execute env args ?k c (cs_tree st) = (x, t)"
    and o: "outcome = over_budget args (ce_duration env ?k) (attempt_outcome env x)"
    and st': "cs_ledger st' = append_row (attempt_row fz c lg wall d outcome) (cs_ledger st)" "cs_tree st' = t"
    by metis
  have old: "on_disk W t row" if "row \<in> set (lg_rows (cs_ledger st))" "dget row ''status'' = Some STATUS_VALID" for row
  proof -
    have "on_disk W (cs_tree st) row" using assms(2) that by (simp add: evidenced_def)
    then show ?thesis using execute_tree [OF x] on_disk_write [of W "cs_tree st" row] by blast
  qed
  have new: "on_disk W t (attempt_row fz c lg wall d outcome)" if v: "fst outcome = STATUS_VALID"
  proof (cases x)
    case (Inl e)
    then show ?thesis
      using v o classified [of "[described env e]"]
      by (auto simp: over_budget_status attempt_outcome_def split: if_splits prod.splits)
  next
    case (Inr y)
    obtain rr s reason where y: "y = (rr, s, reason)" by (cases y)
    from execute_ok [OF x [unfolded Inr y]] obtain source where
      r: "run_scenario ((ce_run env ?k)\<lparr>rv_source := source\<rparr>) (attempt_options env ?k c) = Inr rr"
      and w: "write_run rr (cs_tree st) = Inr t"
      and s: "s = (if rr_ok rr then STATUS_VALID else fst (classify_failure (map (described env) (rr_errors rr))))"
      by metis
    have out: "outcome = attempt_outcome env x" "s = STATUS_VALID"
      using v o by (auto simp: over_budget_def Inr y attempt_outcome_def split: if_splits)
    then have ok: "rr_ok rr" using s classified [of "map (described env) (rr_errors rr)"] by (auto split: if_splits)
    have "dget t (raw_file (rr_run_id rr) ''events.jsonl'') = Some (Lines (map (stamped rr) (rr_events rr)))"
      "\<exists>old. dget t (raw_file (rr_run_id rr) ''decisions.jsonl'') = Some (Lines (old @ map (stamped rr) (rr_decisions rr)))"
      "dget t (raw_file (rr_run_id rr) ''metrics.json'') = Some (Summary (rr_metrics rr))"
      "dget t (''metadata/'' @ rr_run_id rr @ ''.json'') = Some (Metadata (rr_metadata rr) [] True)"
      using write_run_effect(2) [OF w] write_run_files [OF w] ok by (simp_all add: rr_ok_def)
    with assms(1) r ok show ?thesis
      unfolding on_disk_def
      by (intro bexI [of _ env] exI [of _ ?k] exI [of _ source] exI [of _ c] exI [of _ rr])
        (simp_all add: out(1) Inr y attempt_outcome_def)
  qed
  show ?thesis using old new st' by (auto simp: evidenced_def)
qed

lemma evidenced_session:
  assumes "env \<in> W"
  shows "session_kept env args fz UNIV (\<lambda>st. evidenced W (cs_tree st) (lg_rows (cs_ledger st)))"
proof
  show "evidenced W (cs_tree st') (lg_rows (cs_ledger st'))"
    if "evidenced W (cs_tree st) (lg_rows (cs_ledger st))" "attempt env args fz c st = (status, st')"
    for c st status st'
    by (rule attempt_evidenced [OF assms that])
qed (auto simp: evidenced_def abort_row_def)

section \<open>The decision rows on disk carry their instants\<close>

text \<open>A row with an \<open>at\<close> written by \<open>isoformat\<close>, and no key twice.\<close>

definition dated :: "row \<Rightarrow> bool" where
  "dated r \<longleftrightarrow> distinct (map fst r) \<and> (\<exists>t. dget r ''at'' = Some (jstr (isoformat t)))"

definition dated_file :: "file_content option \<Rightarrow> bool" where
  "dated_file f \<longleftrightarrow> (case f of None \<Rightarrow> True | Some (Lines rows) \<Rightarrow> list_all dated rows | _ \<Rightarrow> False)"

definition dated_tree :: "tree \<Rightarrow> bool" where
  "dated_tree t \<longleftrightarrow> (\<forall>i. dated_file (dget t (raw_file i ''decisions.jsonl'')))"

lemma mk_row_distinct: "distinct (map fst (mk_row kvs))"
proof -
  have "dict_ok d \<Longrightarrow> dict_ok (fold (\<lambda>(k, v). dset k v) kvs d)" for d :: row
    by (induction kvs arbitrary: d) auto
  from this [of "[]"] show ?thesis by (simp add: mk_row_def)
qed

lemma map_of_rev_distinct: "distinct (map fst r) \<Longrightarrow> map_of (rev r) = map_of r"
  by (rule map_of_inject_set [THEN iffD2]) (simp_all flip: rev_map)

lemma dated_decision: "dated (decision_row d dec p el ev dm src t now)"
proof -
  have "distinct (map fst (decision_row d dec p el ev dm src t now))"
    by (simp add: decision_row_def mk_row_distinct)
  then show ?thesis unfolding dated_def using decision_row_fields(5) by blast
qed

lemma dated_stamped: "dated r \<Longrightarrow> dated (stamped rr r)"
  by (auto simp: dated_def stamped_def mk_row_distinct dget_mk_row map_add_def map_of_rev_distinct
      simp del: map_of_eq_Some_iff)

lemma dated_step: "run_step env opt rn rn' \<Longrightarrow> list_all dated (rn_decisions rn) \<Longrightarrow> list_all dated (rn_decisions rn')"
proof (erule step_frame)
  fix d wp ses peer
  assume "list_all dated (rn_decisions rn)" "rn' = snd (run_decide env opt d wp ses peer rn)"
  then show "list_all dated (rn_decisions rn')"
    by (cases rule: run_decide_cases [of env opt d wp ses peer rn])
      (simp_all add: record_outcome_def Let_def dated_decision)
qed simp

lemma run_dated:
  assumes "run_scenario env opt = Inr rr"
  shows "list_all dated (rr_decisions rr)"
proof -
  obtain st where "rr = finish env opt (prepare_and_play env opt (new_runner env opt st))"
    using run_scenario_Inr [OF assms] by blast
  moreover have "list_all dated (rn_decisions (snd (prepare_and_play env opt (new_runner env opt st))))"
    by (rule run_keeps) (simp add: new_runner_def, rule dated_step)
  ultimately show ?thesis by simp
qed

lemma write_run_dated:
  assumes "dated_tree t" "write_run rr t = Inr t'" "list_all dated (rr_decisions rr)"
  shows "dated_tree t'"
  unfolding dated_tree_def
proof
  fix i
  have old: "dated_file (dget t (raw_file i ''decisions.jsonl''))" using assms(1) by (simp add: dated_tree_def)
  show "dated_file (dget t' (raw_file i ''decisions.jsonl''))"
  proof (cases "i = rr_run_id rr")
    case True
    note d = output_files_distinct [of i, unfolded output_files_def]
    have "list_all dated (map (stamped rr) (rr_decisions rr))"
      using assms(3) by (auto simp: list_all_iff dated_stamped)
    with old show ?thesis using assms(2) d unfolding True
      by (auto simp: write_run_def append_lines_def dated_file_def split: if_splits option.splits file_content.splits)
  next
    case False
    have "raw_file i ''decisions.jsonl'' \<notin> set (output_files (rr_run_id rr))"
      by (rule output_files_apart [OF False]) (simp add: output_files_def)
    from write_run_effect(3) [OF assms(2) this] old show ?thesis by simp
  qed
qed

lemma execute_dated:
  assumes "execute env args k c t = (x, t')" "dated_tree t"
  shows "dated_tree t'"
proof (cases x)
  case (Inl e)
  then show ?thesis using assms execute_raised by metis
next
  case (Inr y)
  obtain rr status reason where "y = (rr, status, reason)" by (cases y)
  from execute_ok [OF assms(1) [unfolded Inr this]] obtain source where
    "run_scenario ((ce_run env k)\<lparr>rv_source := source\<rparr>) (attempt_options env k c) = Inr rr" "write_run rr t = Inr t'"
    by metis
  from write_run_dated [OF assms(2) this(2) run_dated [OF this(1)]] show ?thesis .
qed

lemma dated_session:
  "session_kept env args fz UNIV (\<lambda>st. dated_tree (cs_tree st))"
proof
  show "dated_tree (cs_tree st')" if "dated_tree (cs_tree st)" "attempt env args fz c st = (status, st')" for c st status st'
    using attempt_effect [OF that(2)] execute_dated [OF _ that(1)] by metis
qed simp_all

section \<open>Histories\<close>

text \<open>From a tree in which earlier runs, if any, left dated decisions: any number of sessions, each on what the
  last one left, with whatever arguments and outcome; the scenario identifiers and the seeds of each are
  distinct, as \<open>load_scenarios\<close> and the frozen seed file have them.\<close>

inductive campaign_history :: "('k, 'g) campaign_env set \<Rightarrow> string option \<times> tree \<Rightarrow> bool" for W where
  start: "dated_tree t \<Longrightarrow> campaign_history W (None, t)"
| session: "campaign_history W x \<Longrightarrow> env \<in> W \<Longrightarrow> distinct (map scn_scenario_id (ca_scenarios args)) \<Longrightarrow>
    distinct (ca_seeds args) \<Longrightarrow> campaign_main env args fz dirty x = (r, x') \<Longrightarrow> campaign_history W x'"

definition history_ok :: "('k, 'g) campaign_env set \<Rightarrow> string option \<times> tree \<Rightarrow> bool" where
  "history_ok W x \<longleftrightarrow>
     (let lg = load_ledger (fst x)
      in ledger_kept lg \<and> (\<exists>ks. completed (lg_rows lg) = Inr ks \<and> distinct ks) \<and> evidenced W (snd x) (lg_rows lg)
         \<and> dated_tree (snd x))"

lemma main_cases:
  assumes "campaign_main env args fz dirty x = (r, x')"
  obtains "x' = x" "r = Inr 2"
  | st where "campaign_session env args fz (start_session (load_ledger (fst x)) (snd x)) = (r, st)"
      "x' = (Some (lg_text (cs_ledger st)), cs_tree st)"
  using assms by (auto simp: campaign_main_def split: if_splits prod.splits)

lemma start_session_fields [simp]:
  "cs_ledger (start_session lg t) = lg" "cs_tree (start_session lg t) = t" "cs_executed (start_session lg t) = 0"
  "cs_attempts (start_session lg t) = 0" "cs_interrupted (start_session lg t) = False"
  by (simp_all add: start_session_def)

lemma session_history:
  assumes "history_ok W x" "env \<in> W" "distinct (map condition_key (session_conditions args))"
    and "campaign_session env args fz (start_session (load_ledger (fst x)) (snd x)) = (r, st)"
  shows "history_ok W (Some (lg_text (cs_ledger st)), cs_tree st)" "load_ledger (Some (lg_text (cs_ledger st))) = cs_ledger st"
proof -
  let ?st = "start_session (load_ledger (fst x)) (snd x)"
  obtain ks where k: "ledger_kept (load_ledger (fst x))" "completed (lg_rows (load_ledger (fst x))) = Inr ks" "distinct ks"
    "evidenced W (snd x) (lg_rows (load_ledger (fst x)))" "dated_tree (snd x)"
    using assms(1) by (auto simp: history_ok_def Let_def)
  have lk: "ledger_kept (cs_ledger st)"
    by (rule kept.session_keeps [OF subset_UNIV _ assms(4)]) (simp add: k(1))
  then show reload: "load_ledger (Some (lg_text (cs_ledger st))) = cs_ledger st" by (rule ledger_reloads)
  have ev: "evidenced W (cs_tree st) (lg_rows (cs_ledger st))"
    by (rule session_kept.session_keeps [OF evidenced_session [OF assms(2)] subset_UNIV _ assms(4)]) (simp add: k(4))
  have dt: "dated_tree (cs_tree st)"
    by (rule session_kept.session_keeps [OF dated_session subset_UNIV _ assms(4)]) (simp add: k(5))
  have "\<exists>ks'. completed (lg_rows (cs_ledger st)) = Inr ks' \<and> distinct ks'"
    using session_completed [OF assms(4) _ assms(3)] k(2,3) by fastforce
  then show "history_ok W (Some (lg_text (cs_ledger st)), cs_tree st)"
    using lk ev dt by (simp add: history_ok_def reload Let_def)
qed

lemma history_kept: "campaign_history W x \<Longrightarrow> history_ok W x"
proof (induction rule: campaign_history.induct)
  case (start t)
  then show ?case
    using fresh_ledger_kept by (simp add: history_ok_def Let_def load_ledger_def evidenced_def)
next
  case (session x env args fz dirty r x')
  from session(5) show ?case
  proof (cases rule: main_cases)
    case 1
    then show ?thesis using session.IH by simp
  next
    case (2 st)
    then show ?thesis using session_history(1) [OF session.IH session(2) session_keys_distinct [OF session(3,4)]] by simp
  qed
qed

section \<open>What a session adds, and its exit code\<close>

lemma attempts_defect:
  assumes "attempts env args fz c n st = (Defective, st')"
  shows "lg_rows (cs_ledger st') \<noteq> [] \<and> dget (last (lg_rows (cs_ledger st'))) ''status'' = Some STATUS_DEFECT"
  using attempts_rows [OF assms] by (auto simp: tried_def)

text \<open>How the loop ends: at its end, or on the deadline; on a software defect; on a changed configuration; or
  because reading the configuration raised.\<close>

definition loop_ends :: "('k, 'g) campaign_env \<Rightarrow> frozen \<Rightarrow> int option result \<Rightarrow> campaign_state \<Rightarrow> bool" where
  "loop_ends env fz r st \<longleftrightarrow>
     r = Inr None
     \<or> r = Inr (Some 3) \<and> lg_rows (cs_ledger st) \<noteq> [] \<and> dget (last (lg_rows (cs_ledger st))) ''status'' = Some STATUS_DEFECT
     \<or> r = Inr (Some 4) \<and> (\<exists>i x. ce_frozen env i = Inr x \<and> x \<noteq> (fz_git_sha fz, fz_config_hash fz))
     \<or> (\<exists>i e. r = Inl e \<and> ce_frozen env i = Inl e)"

lemma loop_exit: "campaign_loop env args fz i pending st = (r, st') \<Longrightarrow> loop_ends env fz r st'"
proof (induction pending arbitrary: i st)
  case Nil
  then show ?case by (simp add: loop_ends_def)
next
  case (Cons c pending)
  let ?st = "st\<lparr>cs_interrupted := cs_interrupted st \<or> ce_signal env i\<rparr>"
  show ?case
  proof (cases "cs_interrupted ?st \<or> ce_late env i")
    case True
    then show ?thesis using Cons by (auto simp: Let_def loop_ends_def split: if_splits)
  next
    case False
    obtain e st1 where a: "attempts env args fz c (attempt_limit args) ?st = (e, st1)" by fastforce
    consider "e = Defective" | "e \<noteq> Defective" by blast
    then show ?thesis
    proof cases
      case 1
      then show ?thesis using Cons.prems False a attempts_defect [OF a [unfolded 1]] by (simp add: Let_def loop_ends_def)
    next
      case 2
      then have l: "(case ce_frozen env i of Inl x \<Rightarrow> (Inl x, st1)
          | Inr (sha, config_hash) \<Rightarrow>
              if sha \<noteq> fz_git_sha fz \<or> config_hash \<noteq> fz_config_hash fz then (Inr (Some 4), st1)
              else campaign_loop env args fz (Suc i) pending st1) = (r, st')"
        using Cons.prems False a by (cases e) (simp_all add: Let_def)
      show ?thesis
      proof (cases "ce_frozen env i")
        case (Inl x)
        then show ?thesis using l by (auto simp: loop_ends_def)
      next
        case (Inr x)
        then show ?thesis using l Cons.IH by (cases x) (auto simp: loop_ends_def split: if_splits)
      qed
    qed
  qed
qed

text \<open>A session on the state a history left.\<close>

lemma main_resumes:
  assumes "history_ok W x" "env \<in> W" "distinct (map condition_key (session_conditions args))"
    and "campaign_main env args fz dirty x = (r, x')" "completed (lg_rows (load_ledger (fst x))) = Inr ks"
  defines "rows \<equiv> lg_rows (load_ledger (fst x))" and "rows' \<equiv> lg_rows (load_ledger (fst x'))"
  shows "\<exists>new. rows' = rows @ new \<and> (\<forall>row \<in> set new. own_row fz (set (session_conditions args)) row)"
    and "attempts_for key rows' \<le> attempts_for key rows + (if key \<in> set ks then 0 else session_limit args)"
proof -
  have "(\<exists>new. rows' = rows @ new \<and> (\<forall>row \<in> set new. own_row fz (set (session_conditions args)) row))
      \<and> attempts_for key rows' \<le> attempts_for key rows + (if key \<in> set ks then 0 else session_limit args)"
    using assms(4)
  proof (cases rule: main_cases)
    case 1
    then show ?thesis by (auto simp: rows_def rows'_def intro: exI [of _ "[]"])
  next
    case (2 st)
    have rows': "rows' = lg_rows (cs_ledger st)"
      using session_history(2) [OF assms(1-3) 2(1)] 2(2) by (simp add: rows'_def)
    have "grown fz (set (session_conditions args)) rows st"
      by (rule growing.session_keeps [OF subset_refl _ 2(1)]) (simp add: grown_def rows_def)
    then show ?thesis
      using session_count [OF 2(1) _ assms(3), of ks key] assms(5) by (simp add: grown_def rows' rows_def)
  qed
  then show "\<exists>new. rows' = rows @ new \<and> (\<forall>row \<in> set new. own_row fz (set (session_conditions args)) row)"
    "attempts_for key rows' \<le> attempts_for key rows + (if key \<in> set ks then 0 else session_limit args)"
    by simp_all
qed

lemma session_exit:
  assumes "campaign_session env args fz st = (r, st')" "completed (lg_rows (cs_ledger st)) = Inr ks"
    and "distinct (map condition_key (session_conditions args))"
  shows "r = Inr 0 \<or> r = Inr 1 \<or> loop_ends env fz (map_sum id Some r) st'"
proof -
  let ?pending = "filter (\<lambda>c. condition_key c \<notin> set ks) (session_conditions args)"
  show ?thesis
  proof (cases "?pending = []")
    case True
    then show ?thesis using assms(1,2) by (simp add: campaign_session_def Let_def)
  next
    case False
    obtain code st1 where l: "campaign_loop env args fz 0 ?pending st = (code, st1)" by fastforce
    from loop_completed [OF l assms(2)] obtain ks' where "completed (lg_rows (cs_ledger st1)) = Inr ks'" by blast
    then show ?thesis
      using assms(1) False assms(2) l loop_exit [OF l] unfolding campaign_session_def
      by (cases code) (auto simp: Let_def split: option.splits)
  qed
qed

text \<open>The exit code of the script, or what it raised.\<close>

definition exit_means ::
    "('k, 'g) campaign_env \<Rightarrow> campaign_args \<Rightarrow> frozen \<Rightarrow> bool \<Rightarrow> string option \<times> tree \<Rightarrow> int result
      \<Rightarrow> string option \<times> tree \<Rightarrow> bool" where
  "exit_means env args fz dirty x r x' \<longleftrightarrow>
     (let rows = lg_rows (load_ledger (fst x'));
          finished = (\<exists>ks. completed rows = Inr ks \<and> all_valid (session_conditions args) ks)
      in r = Inr 0 \<and> finished
         \<or> r = Inr 1 \<and> \<not> finished
         \<or> r = Inr 2 \<and> dirty \<and> \<not> ca_allow_dirty args \<and> x' = x
         \<or> r = Inr 3 \<and> rows \<noteq> [] \<and> dget (last rows) ''status'' = Some STATUS_DEFECT
         \<or> r = Inr 4 \<and> (\<exists>i y. ce_frozen env i = Inr y \<and> y \<noteq> (fz_git_sha fz, fz_config_hash fz))
         \<or> (\<exists>i e. r = Inl e \<and> ce_frozen env i = Inl e))"

lemma main_exit:
  assumes "history_ok W x" "env \<in> W" "distinct (map condition_key (session_conditions args))"
    and "campaign_main env args fz dirty x = (r, x')"
  shows "exit_means env args fz dirty x r x'"
proof (cases "dirty \<and> \<not> ca_allow_dirty args")
  case True
  then show ?thesis using assms(4) by (auto simp: campaign_main_def exit_means_def Let_def)
next
  case False
  then obtain st where st: "campaign_session env args fz (start_session (load_ledger (fst x)) (snd x)) = (r, st)"
    "x' = (Some (lg_text (cs_ledger st)), cs_tree st)"
    using assms(4) by (auto simp: campaign_main_def split: prod.splits)
  have rows: "lg_rows (load_ledger (fst x')) = lg_rows (cs_ledger st)"
    using session_history(2) [OF assms(1-3) st(1)] st(2) by simp
  obtain ks where ks: "completed (lg_rows (cs_ledger (start_session (load_ledger (fst x)) (snd x)))) = Inr ks"
    using assms(1) by (auto simp: history_ok_def Let_def)
  from session_completed [OF st(1) ks assms(3)] obtain new where new: "completed (lg_rows (cs_ledger st)) = Inr (ks @ new)"
    "r = Inr 0 \<longrightarrow> all_valid (session_conditions args) (ks @ new)"
    "r = Inr 1 \<longrightarrow> \<not> all_valid (session_conditions args) (ks @ new)"
    by blast
  from session_exit [OF st(1) ks assms(3)] show ?thesis
  proof (elim disjE)
    assume "loop_ends env fz (map_sum id Some r) st"
    then show ?thesis by (cases r) (auto simp: exit_means_def loop_ends_def rows Let_def)
  qed (use new in \<open>auto simp: exit_means_def rows Let_def\<close>)
qed

text \<open>The loaded scenarios have identifiers that differ, so the conditions of a session with distinct seeds do.\<close>

lemma unique_ids_distinct:
  "unique_ids seen ss = Inr ss' \<Longrightarrow> ss' = ss \<and> distinct (map scn_scenario_id ss) \<and> set (map scn_scenario_id ss) \<inter> set seen = {}"
  by (induction seen ss arbitrary: ss' rule: unique_ids.induct) (auto simp: and_then_Inr_iff split: if_splits)

lemma load_scenarios_distinct:
  "load_scenarios parsed = Inr scenarios \<Longrightarrow> distinct (map scn_scenario_id scenarios)"
  using unique_ids_distinct [of "[]" parsed scenarios] by (auto simp: load_scenarios_def and_then_Inr_iff)

text \<open>
  The script: it leaves with an exception of one of its first reads, or refuses a dirty tree, before
  anything is written; or it is a session with what was read.
\<close>

lemma script_cases:
  assumes "campaign_script env args ins x = (r, x')"
  obtains (unread) e where "r = Inl e" "x' = x"
      "Inl e = map_sum id (\<lambda>_. ()) (ci_frozen ins) \<or> Inl e = map_sum id (\<lambda>_. ()) (ci_dirty ins)
       \<or> Inl e = map_sum id (\<lambda>_. ()) (ci_seeds ins) \<or> and_then (ci_scenarios ins) load_scenarios = Inl e"
  | (refused) "r = Inr 2" "x' = x" "ci_dirty ins = Inr True" "\<not> ca_allow_dirty args"
  | (session) sha config_hash dirty seeds scenarios where "ci_frozen ins = Inr (sha, config_hash)" "ci_dirty ins = Inr dirty"
      "ci_seeds ins = Inr seeds" "and_then (ci_scenarios ins) load_scenarios = Inr scenarios"
      "\<not> (dirty \<and> \<not> ca_allow_dirty args)"
      "campaign_main env (with_inputs seeds scenarios args) \<lparr>fz_git_sha = sha, fz_config_hash = config_hash\<rparr> dirty x = (r, x')"
proof (cases "ci_frozen ins")
  case (Inl e)
  with assms show ?thesis by (intro unread) (auto simp: campaign_script_def)
next
  case (Inr y)
  obtain sha config_hash where f: "ci_frozen ins = Inr (sha, config_hash)" using Inr by (cases y) simp
  show ?thesis
  proof (cases "ci_dirty ins")
    case (Inl e)
    with assms f show ?thesis by (intro unread) (auto simp: campaign_script_def)
  next
    case d: (Inr dirty)
    show ?thesis
    proof (cases "dirty \<and> \<not> ca_allow_dirty args")
      case True
      with assms f d show ?thesis by (intro refused) (auto simp: campaign_script_def)
    next
      case False
      show ?thesis
      proof (cases "ci_seeds ins")
        case (Inl e)
        with assms f d False show ?thesis by (intro unread) (auto simp: campaign_script_def)
      next
        case s: (Inr seeds)
        show ?thesis
        proof (cases "and_then (ci_scenarios ins) load_scenarios")
          case (Inl e)
          with assms f d False s show ?thesis by (intro unread) (auto simp: campaign_script_def)
        next
          case (Inr scenarios)
          with assms f d False s show ?thesis by (intro session) (auto simp: campaign_script_def)
        qed
      qed
    qed
  qed
qed

section \<open>A campaign that completes\<close>

text \<open>The machine keeps still: runs end within their budget, no signal and no deadline, and neither git nor
  the settings change.\<close>

definition steady :: "('k, 'g) campaign_env \<Rightarrow> campaign_args \<Rightarrow> frozen \<Rightarrow> bool" where
  "steady env args fz \<longleftrightarrow>
     (\<forall>k. ce_duration env k \<le> ca_run_timeout_s args) \<and> (\<forall>i. \<not> ce_signal env i \<and> \<not> ce_late env i)
     \<and> (\<forall>i. ce_frozen env i = Inr (fz_git_sha fz, fz_config_hash fz))"

text \<open>
  The condition can be run: its scenario passes validation, its device indices are in range, and the
  scenario clock, started where a campaign starts it, stays within the calendar.
\<close>

definition runnable_condition :: "condition \<Rightarrow> bool" where
  "runnable_condition c \<longleftrightarrow>
     scenario_check (attempt_scenario c) = Inr ()
     \<and> list_all (bounded_event (attempt_scenario c)) (scn_event_sequence (attempt_scenario c))
     \<and> scn_device_count (attempt_scenario c) \<le> 10000 \<and> cn_strategy c \<in> fst ` set shipped_strategies
     \<and> default_start + scenario_reach (shipped_settings []) (attempt_scenario c) + seconds 86400 \<le> datetime_max"

definition shipped_runs :: "('k, 'g) campaign_env \<Rightarrow> bool" where
  "shipped_runs env \<longleftrightarrow>
     (\<forall>k. (\<exists>h. rv_settings (ce_run env k) = shipped_settings h)
       \<and> (\<forall>i. usable_key (rv_crypto (ce_run env k)) (kp_public_key_pem (rv_keypair (ce_run env k) i))))"

abbreviation attempt_run_id :: "('k, 'g) campaign_env \<Rightarrow> nat \<Rightarrow> condition \<Rightarrow> string" where
  "attempt_run_id env k c \<equiv> ro_run_id (attempt_options env k c)"

text \<open>From attempt \<open>n\<close> to before attempt \<open>m\<close>, no run identifier is taken, and no two attempts share one.\<close>

definition fresh_ids :: "('k, 'g) campaign_env \<Rightarrow> condition set \<Rightarrow> nat \<Rightarrow> nat \<Rightarrow> tree \<Rightarrow> bool" where
  "fresh_ids env cs n m t \<longleftrightarrow>
     (\<forall>k \<in> {n ..< m}. \<forall>c \<in> cs. dget t (raw_file (attempt_run_id env k c) ''events.jsonl'') = None)
     \<and> (\<forall>k \<in> {n ..< m}. \<forall>l \<in> {n ..< m}. \<forall>c \<in> cs. \<forall>d \<in> cs. k \<noteq> l \<longrightarrow>
          attempt_run_id env k c \<noteq> attempt_run_id env l d)"

lemma attempt_succeeds:
  assumes "steady env args fz" "shipped_runs env" "ca_access_source args = ''tier1''"
    and "runnable_condition c" "c \<in> cs" "fresh_ids env cs (cs_attempts st) m (cs_tree st)" "cs_attempts st < m"
  shows "\<exists>st'. attempt env args fz c st = (STATUS_VALID, st') \<and> fresh_ids env cs (cs_attempts st') m (cs_tree st')
    \<and> cs_attempts st' = Suc (cs_attempts st)"
proof -
  let ?k = "cs_attempts st" and ?src = "fixture_access (setup_fixture (attempt_scenario c))"
  let ?rv = "(ce_run env ?k)\<lparr>rv_source := ?src\<rparr>" and ?opt = "attempt_options env ?k c"
  obtain h where h: "rv_settings (ce_run env ?k) = shipped_settings h"
    using assms(2) by (auto simp: shipped_runs_def)
  have opt: "ro_scenario ?opt = attempt_scenario c" "ro_strategy_name ?opt = cn_strategy c"
    by (simp_all add: attempt_options_def Let_def)
  have "fits_calendar (shipped_settings h) ?opt"
    using assms(4) shipped_reach [of h "attempt_scenario c" "[]"]
    by (simp add: fits_calendar_def runnable_condition_def attempt_options_def Let_def run_clock_def new_frozen_clock_def)
  then have "\<exists>rr. run_scenario ?rv ?opt = Inr rr \<and> rr_ok rr"
    using assms(2,4) by (intro checked_run_ok [where h = h and fx = "setup_fixture (attempt_scenario c)"])
      (simp_all add: opt runnable_condition_def shipped_runs_def h)
  then obtain rr where rr: "run_scenario ?rv ?opt = Inr rr" "rr_ok rr" by blast
  have i: "rr_run_id rr = attempt_run_id env ?k c"
    using rr(1) by (auto simp: run_scenario_def split: sum.splits)
  have free: "dget (cs_tree st) (raw_file (rr_run_id rr) ''events.jsonl'') = None"
    using assms(5-7) by (simp add: i fresh_ids_def)
  then obtain t' where t': "write_run rr (cs_tree st) = Inr t'" by (simp add: write_run_def)
  have ex: "execute env args ?k c (cs_tree st) = (Inr (rr, STATUS_VALID, []), t')"
    using rr t' by (simp add: execute_def build_access_source_def assms(3))
  have "ce_duration env ?k \<le> ca_run_timeout_s args" using assms(1) by (simp add: steady_def)
  then obtain st' where st': "attempt env args fz c st = (STATUS_VALID, st')" "cs_tree st' = t'" "cs_attempts st' = Suc ?k"
    by (simp add: attempt_def Let_def ex attempt_outcome_def over_budget_def)
  have kept: "dget t' (raw_file (attempt_run_id env l d) ''events.jsonl'') =
      dget (cs_tree st) (raw_file (attempt_run_id env l d) ''events.jsonl'')" if "l > ?k" "l < m" "d \<in> cs" for l d
  proof -
    have "attempt_run_id env l d \<noteq> attempt_run_id env ?k c"
      using that assms(5-7) by (simp add: fresh_ids_def)
    from output_files_apart [OF this]
    have "raw_file (attempt_run_id env l d) ''events.jsonl'' \<notin> set (output_files (rr_run_id rr))"
      by (simp add: i output_files_def)
    then show ?thesis by (rule write_run_effect(3) [OF t'])
  qed
  have "fresh_ids env cs (cs_attempts st') m (cs_tree st')"
    using assms(6) kept by (simp add: fresh_ids_def st'(2,3))
  with st'(1,3) show ?thesis by blast
qed

lemma loop_succeeds:
  assumes "steady env args fz" "shipped_runs env" "ca_access_source args = ''tier1''" "0 \<le> ca_max_retries args"
    and "\<forall>c \<in> cs. runnable_condition c" "set pending \<subseteq> cs"
    and "fresh_ids env cs (cs_attempts st) m (cs_tree st)" "cs_attempts st + length pending \<le> m"
    and "\<not> cs_interrupted st" "completed (lg_rows (cs_ledger st)) = Inr ks"
  shows "\<exists>st'. campaign_loop env args fz i pending st = (Inr None, st')
    \<and> completed (lg_rows (cs_ledger st')) = Inr (ks @ map condition_key pending)"
  using assms(6-10)
proof (induction pending arbitrary: i st ks)
  case (Cons c pending)
  have quiet: "\<not> ce_signal env i" "\<not> ce_late env i" "ce_frozen env i = Inr (fz_git_sha fz, fz_config_hash fz)"
    using assms(1) by (simp_all add: steady_def)
  have same: "st\<lparr>cs_interrupted := cs_interrupted st \<or> ce_signal env i\<rparr> = st"
    using quiet(1) Cons.prems(4) by (cases st) simp
  have c: "c \<in> cs" "set pending \<subseteq> cs" "runnable_condition c" using Cons.prems(1) assms(5) by auto
  have lt: "cs_attempts st < m" using Cons.prems(3) by simp
  from attempt_succeeds [OF assms(1-3) c(3,1) Cons.prems(2) lt]
  obtain st1 where a: "attempt env args fz c st = (STATUS_VALID, st1)" "fresh_ids env cs (cs_attempts st1) m (cs_tree st1)"
    "cs_attempts st1 = Suc (cs_attempts st)"
    by blast
  let ?st2 = "st1\<lparr>cs_executed := cs_executed st1 + 1\<rparr>"
  have "cs_interrupted st1 = cs_interrupted st" using attempt_effect [OF a(1)] by metis
  then have i2: "\<not> cs_interrupted ?st2" using Cons.prems(4) by simp
  have "completed (lg_rows (cs_ledger st1)) = Inr (ks @ [condition_key c])"
    using attempt_row_of [OF a(1)] Cons.prems(5) by (metis (mono_tags))
  then have c2: "completed (lg_rows (cs_ledger ?st2)) = Inr (ks @ [condition_key c])" by simp
  have f2: "fresh_ids env cs (cs_attempts ?st2) m (cs_tree ?st2)" using a(2) by simp
  have l2: "cs_attempts ?st2 + length pending \<le> m" using a(3) Cons.prems(3) by simp
  have "attempt_limit args \<noteq> 0" using assms(4) by (simp add: attempt_limit_def)
  then obtain n where n: "attempt_limit args = Suc n" by (cases "attempt_limit args") blast+
  have t: "attempts env args fz c (attempt_limit args) st = (Succeeded, ?st2)" by (simp add: n a(1))
  have "campaign_loop env args fz i (c # pending) st = campaign_loop env args fz (Suc i) pending ?st2"
    unfolding campaign_loop.simps Let_def same t using Cons.prems(4) quiet(2,3) by simp
  then show ?case using Cons.IH [OF c(2) f2 l2 i2 c2, of "Suc i"] by simp
qed simp

text \<open>Whatever the history, a session under these conditions leaves every condition recorded VALID.\<close>

lemma campaign_completes:
  assumes "history_ok W (stored, t)" "env \<in> W" "\<not> dirty"
    and "steady env args fz" "shipped_runs env" "ca_access_source args = ''tier1''" "0 \<le> ca_max_retries args"
    and "\<forall>c \<in> set (session_conditions args). runnable_condition c"
    and "fresh_ids env (set (session_conditions args)) 0 (length (session_conditions args)) t"
  shows "\<exists>stored' t' ks. campaign_main env args fz dirty (stored, t) = (Inr 0, stored', t')
    \<and> completed (lg_rows (load_ledger stored')) = Inr ks
    \<and> set (map condition_key (session_conditions args)) \<subseteq> set ks"
proof -
  let ?cs = "session_conditions args" and ?st = "start_session (load_ledger stored) t"
  obtain ks where ks: "completed (lg_rows (load_ledger stored)) = Inr ks" "ledger_kept (load_ledger stored)"
    using assms(1) by (auto simp: history_ok_def Let_def)
  let ?pending = "filter (\<lambda>c. condition_key c \<notin> set ks) ?cs"
  from loop_succeeds [OF assms(4-8), of ?pending ?st "length ?cs" ks 0] obtain st' where l:
    "campaign_loop env args fz 0 ?pending ?st = (Inr None, st')"
    "completed (lg_rows (cs_ledger st')) = Inr (ks @ map condition_key ?pending)"
    using assms(9) ks(1) by auto
  have lk: "ledger_kept (cs_ledger st')" by (rule kept.loop_keeps [OF subset_UNIV _ l(1)]) (simp add: ks(2))
  have all: "all_valid ?cs (ks @ map condition_key ?pending)" by (auto simp: all_valid_def list_all_iff)
  then have sub: "set (map condition_key ?cs) \<subseteq> set (ks @ map condition_key ?pending)"
    by (auto simp: all_valid_def list_all_iff)
  show ?thesis
  proof (cases "?pending = []")
    case True
    then have "campaign_session env args fz ?st = (Inr 0, ?st)"
      using ks(1) by (simp add: campaign_session_def Let_def)
    then show ?thesis
      using assms(3) ks sub True ledger_reloads [OF ks(2)]
      by (intro exI [of _ "Some (lg_text (load_ledger stored))"] exI [of _ t] exI [of _ ks])
        (simp add: campaign_main_def)
  next
    case False
    then have "campaign_session env args fz ?st = (Inr 0, st')"
      using ks(1) l all by (simp add: campaign_session_def Let_def)
    then show ?thesis
      using assms(3) l(2) sub ledger_reloads [OF lk]
      by (intro exI [of _ "Some (lg_text (cs_ledger st'))"] exI [of _ "cs_tree st'"]
          exI [of _ "ks @ map condition_key ?pending"])
        (simp add: campaign_main_def)
  qed
qed

text \<open>And once every condition is recorded, a session does nothing.\<close>

lemma completed_campaign_idles:
  assumes "completed (lg_rows (load_ledger stored)) = Inr ks" "ledger_kept (load_ledger stored)"
    and "set (map condition_key (session_conditions args)) \<subseteq> set ks" "\<not> dirty"
  shows "campaign_main env args fz dirty (stored, t) = (Inr 0, Some (lg_text (load_ledger stored)), t)"
proof -
  have "filter (\<lambda>c. condition_key c \<notin> set ks) (session_conditions args) = []"
    using assms(3) by (auto simp: filter_empty_conv)
  then show ?thesis using assms(1,4) by (simp add: campaign_main_def campaign_session_def Let_def)
qed

lemma campaign_completes_then_idles:
  fixes env env' :: "('k, 'g) campaign_env"
  assumes "history_ok W (stored, t)" "env \<in> W"
    and "steady env args fz" "shipped_runs env" "ca_access_source args = ''tier1''" "0 \<le> ca_max_retries args"
    and "\<forall>c \<in> set (session_conditions args). runnable_condition c"
    and "fresh_ids env (set (session_conditions args)) 0 (length (session_conditions args)) t"
  shows "\<exists>text t' ks. campaign_main env args fz False (stored, t) = (Inr 0, Some text, t')
    \<and> completed (lg_rows (load_ledger (Some text))) = Inr ks
    \<and> set (map condition_key (session_conditions args)) \<subseteq> set ks
    \<and> (\<forall>env' :: ('k, 'g) campaign_env. \<forall>fz'.
         campaign_main env' args fz' False (Some text, t') = (Inr 0, Some text, t'))"
proof -
  from campaign_completes [OF assms(1,2) _ assms(3-8), of False] obtain stored' t' ks where
    m: "campaign_main env args fz False (stored, t) = (Inr 0, stored', t')"
    and ks: "completed (lg_rows (load_ledger stored')) = Inr ks" "set (map condition_key (session_conditions args)) \<subseteq> set ks"
    by auto
  then obtain new where s: "stored' = Some new" by (auto simp: campaign_main_def split: prod.splits)
  have "filter (\<lambda>c. condition_key c \<notin> set ks) (session_conditions args) = []"
    using ks(2) by (auto simp: filter_empty_conv)
  then have "campaign_main env' args fz' False (Some new, t') = (Inr 0, Some new, t')"
    for env' :: "('k, 'g) campaign_env" and fz'
    using ks(1) unfolding s by (simp add: campaign_main_def campaign_session_def Let_def load_ledger_def)
  with m ks show ?thesis unfolding s by blast
qed

end
