(* ===== verification/Final_Report.thy ===== *)
theory Final_Report
  imports Campaign Campaign_Statistics
begin

text \<open>
  From the ledger and the output tree of a campaign to its processed rows and its statistics
  (\<^verbatim>\<open>experiments/analysis/final_report.py\<close>): loading the valid runs, pairing them by seed, the continuous
  comparisons, the security outcomes, the scalability levels and the sensitivity to token lifetimes.

  The files of a run are the values \<open>write_run\<close> put into the tree. What sampling wrote to
  \<^verbatim>\<open>resources.json\<close> is a function of the run's directory, empty where there is no file; reading an instant
  back is a function. Integers among the values of a metric are rationals, as \<^verbatim>\<open>float()\<close> makes them.
\<close>

section \<open>Constants\<close>

definition PRIMARY :: "string list" where
  "PRIMARY = [''independent'', ''static_continuity'', ''ca_ztcf'']"

definition LABELS :: "(string, string) dict" where
  "LABELS =
     [(''independent'', ''A independent''), (''static_continuity'', ''B300 static continuity''),
      (''ca_ztcf'', ''C CA-ZTCF''), (''static_continuity_ttl30'', ''B30 static continuity''),
      (''static_continuity_ttl1800'', ''B1800 static continuity'')]"

definition SENSITIVITY :: "string list" where
  "SENSITIVITY = [''static_continuity_ttl30'', ''static_continuity'', ''static_continuity_ttl1800'']"

definition TRANSITION_SCENARIOS :: "string list" where
  "TRANSITION_SCENARIOS = [''E03'', ''E04'', ''E05'', ''E09'', ''E12'']"

definition ADVERSARIAL_SCENARIOS :: "string list" where
  "ADVERSARIAL_SCENARIOS = [''E06'', ''E07'', ''E08'', ''E09'', ''E10'', ''E15'']"

definition E13_LEVELS :: "nat list" where
  "E13_LEVELS = [1, 5, 10, 25]"

definition label_of :: "string \<Rightarrow> string" where
  "label_of s = (case dget LABELS s of Some l \<Rightarrow> l | None \<Rightarrow> s)"

section \<open>Loading\<close>

record final_run =
  fr_run_id :: string
  fr_scenario :: string
  fr_strategy :: string
  fr_seed :: int
  fr_condition :: string
  fr_campaign :: string
  fr_device_count :: nat
  fr_metrics :: "(string, rat option) dict"
  fr_confusion :: "(string, int) dict"
  fr_actions :: "(string, int) dict"
  fr_metadata :: "run_metadata option"

text \<open>\<open>_dist(metrics, key, field)\<close>\<close>

definition dist_of :: "run_summary \<Rightarrow> string \<Rightarrow> (stats \<Rightarrow> rat) \<Rightarrow> rat option" where
  "dist_of m key f =
     (case dget (rsu_distributions m) key of
        Some (Described s, _, _) \<Rightarrow> Some (f s)
      | _ \<Rightarrow> None)"

text \<open>\<open>run.metrics.get(metric)\<close>\<close>

definition metric_of :: "final_run \<Rightarrow> string \<Rightarrow> rat option" where
  "metric_of r metric = (case dget (fr_metrics r) metric of None \<Rightarrow> None | Some v \<Rightarrow> v)"

definition numeric_series :: "final_run list \<Rightarrow> string \<Rightarrow> rat list" where
  "numeric_series runs metric = List.map_filter (\<lambda>r. metric_of r metric) runs"

definition counter_value :: "(string, int) dict \<Rightarrow> string \<Rightarrow> rat option" where
  "counter_value counters key = map_option of_int (dget counters key)"

definition row_moment :: "(string \<Rightarrow> instant option) \<Rightarrow> row \<Rightarrow> instant option result" where
  "row_moment fromiso r =
     (case dget r ''at'' of
        None \<Rightarrow> Inr None
      | Some (J (JStr s)) \<Rightarrow>
          if s = [] then Inr None
          else (case fromiso s of
                  None \<Rightarrow> Inl (PyValueError ''Invalid isoformat string'')
                | Some t \<Rightarrow> Inr (Some t))
      | Some (J v) \<Rightarrow> if truthy v then Inl (PyTypeError ''argument must be str'') else Inr None
      | Some (Num q) \<Rightarrow> if q \<noteq> 0 then Inl (PyTypeError ''argument must be str'') else Inr None)"

fun row_moments :: "(string \<Rightarrow> instant option) \<Rightarrow> row list \<Rightarrow> instant list result" where
  "row_moments fromiso [] = Inr []"
| "row_moments fromiso (r # rows) =
     and_then (row_moment fromiso r) (\<lambda>m.
     and_then (row_moments fromiso rows) (\<lambda>ms.
       Inr (case m of None \<Rightarrow> ms | Some t \<Rightarrow> t # ms)))"

definition scenario_span_seconds :: "(string \<Rightarrow> instant option) \<Rightarrow> file_content option \<Rightarrow> rat option result" where
  "scenario_span_seconds fromiso stored =
     (case stored of
        Some (Lines rows) \<Rightarrow>
          and_then (row_moments fromiso rows) (\<lambda>stamps.
            Inr (Some (if length stamps < 2 then 0
                       else of_int (Max (set stamps) - Min (set stamps)) / 1000000)))
      | Some _ \<Rightarrow> Inl (PyAttributeError ''get'')
      | None \<Rightarrow> Inr None)"

text \<open>\<open>_rate\<close>: none when the run had no event of the class.\<close>

definition run_rate :: "(string, int) dict \<Rightarrow> string \<Rightarrow> string \<Rightarrow> rat option" where
  "run_rate c numerator denominator =
     (if count_of c denominator = 0 then None
      else Some (of_int (count_of c numerator) / of_int (count_of c denominator)))"

definition run_metrics ::
    "run_summary \<Rightarrow> (string, rat) dict \<Rightarrow> rat option \<Rightarrow> (string, rat option) dict" where
  "run_metrics m resources covered =
     (let c = confusion_dict (rsu_confusion_raw m); counters = rsu_counters m
      in [(''decision_latency_ms_median'', dist_of m ''M3'' sta_median),
          (''decision_latency_ms_p95'', dist_of m ''M3'' sta_p95),
          (''engine_time_us_median'', dist_of m ''M12'' sta_median),
          (''nr_context_ms_median'', dist_of m ''M1_NR'' sta_median),
          (''wlan_context_ms_median'', dist_of m ''M1_EAP'' sta_median),
          (''transition_ms_median'', dist_of m ''M2'' sta_median),
          (''app_recovery_ms_median'', dist_of m ''M4'' sta_median),
          (''reauthentications'', Some (of_int (count_of counters ''M5''))),
          (''step_ups'', Some (of_int (count_of counters ''M6''))),
          (''state_changes'', Some (of_int (count_of counters ''M7''))),
          (''messages'', counter_value counters ''M8''),
          (''bytes'', counter_value counters ''M9''),
          (''app_operations'', counter_value counters ''M19''),
          (''cpu_seconds'', dget resources ''cpu_seconds_total''),
          (''cpu_percent'', dget resources ''cpu_percent_mean_over_run''),
          (''memory_mib_peak'', dget resources ''memory_mib_peak_rss''),
          (''wall_seconds'', dget resources ''wall_seconds''),
          (''scenario_span_s'', covered),
          (''false_acceptance_rate'', run_rate c ''false_acceptance'' ''illegitimate_total''),
          (''false_rejection_rate'', run_rate c ''false_rejection'' ''legitimate_total'')])"

text \<open>The body of the loop over the rows of the ledger.\<close>

definition load_run ::
    "(string \<Rightarrow> instant option) \<Rightarrow> (string \<Rightarrow> (string, rat) dict) \<Rightarrow> tree \<Rightarrow> ledger_row \<Rightarrow> final_run option result" where
  "load_run fromiso res t row =
     and_then (row_item row ''status'') (\<lambda>status.
     if status \<noteq> STATUS_VALID then Inr None
     else and_then (row_item row ''result_path'') (\<lambda>path.
     if path = [] then Inr None
     else (case dget t (path @ ''/metrics.json'') of
             None \<Rightarrow> Inr None
           | Some (Summary m) \<Rightarrow>
               and_then (row_item row ''run_id'') (\<lambda>run_id.
               and_then (scenario_span_seconds fromiso (dget t (path @ ''/decisions.jsonl''))) (\<lambda>covered.
               and_then (row_item row ''scenario'') (\<lambda>scenario.
               and_then (row_item row ''strategy'') (\<lambda>strategy.
               and_then (row_item row ''seed'') (\<lambda>seed_text.
               and_then (int_of_text seed_text) (\<lambda>seed.
               and_then (row_item row ''condition'') (\<lambda>condition.
               and_then (row_item row ''campaign'') (\<lambda>campaign.
                 (let metadata = (case dget t (''metadata/'' @ run_id @ ''.json'') of
                                    Some (Metadata md _ _) \<Rightarrow> Some md | _ \<Rightarrow> None)
                  in Inr (Some
                       \<lparr>fr_run_id = run_id, fr_scenario = scenario, fr_strategy = strategy, fr_seed = seed,
                        fr_condition = condition, fr_campaign = campaign,
                        fr_device_count = (case metadata of Some md \<Rightarrow> rmd_device_count md | None \<Rightarrow> 1),
                        fr_metrics = run_metrics m (res path) covered,
                        fr_confusion = confusion_dict (rsu_confusion_raw m),
                        fr_actions = rsu_policy_action_distribution m, fr_metadata = metadata\<rparr>))))))))))
           | Some _ \<Rightarrow> Inl (PyAttributeError ''get''))))"

fun load_rows ::
    "(string \<Rightarrow> instant option) \<Rightarrow> (string \<Rightarrow> (string, rat) dict) \<Rightarrow> tree \<Rightarrow> ledger_row list \<Rightarrow> final_run list result" where
  "load_rows fromiso res t [] = Inr []"
| "load_rows fromiso res t (row # rows) =
     and_then (load_run fromiso res t row) (\<lambda>r.
     and_then (load_rows fromiso res t rows) (\<lambda>rs.
       Inr (case r of None \<Rightarrow> rs | Some x \<Rightarrow> x # rs)))"

definition load_final_runs ::
    "(string \<Rightarrow> instant option) \<Rightarrow> (string \<Rightarrow> (string, rat) dict) \<Rightarrow> string option \<times> tree \<Rightarrow> final_run list result" where
  "load_final_runs fromiso res x =
     (case fst x of
        None \<Rightarrow> Inl (PyOSError ''No such file or directory'')
      | Some text \<Rightarrow> load_rows fromiso res (snd x) (dict_reader text))"

section \<open>Pairing\<close>

text \<open>\<open>by_seed[run.seed][run.strategy] = v\<close> over the runs \<open>sel\<close> selects; a later run overwrites.\<close>

definition at_seed :: "(int, (string, 'v) dict) dict \<Rightarrow> int \<Rightarrow> (string, 'v) dict" where
  "at_seed d seed = (case dget d seed of None \<Rightarrow> [] | Some vs \<Rightarrow> vs)"

definition group_by_seed ::
    "(final_run \<Rightarrow> bool) \<Rightarrow> (final_run \<Rightarrow> 'v) \<Rightarrow> final_run list \<Rightarrow> (int, (string, 'v) dict) dict" where
  "group_by_seed sel f runs =
     fold (\<lambda>r d. if sel r then dset (fr_seed r) (dset (fr_strategy r) (f r) (at_seed d (fr_seed r))) d else d) runs []"

definition sorted_seeds :: "(int, 'v) dict \<Rightarrow> int list" where
  "sorted_seeds d = sort (map fst d)"

definition recorded :: "(string, rat option) dict \<Rightarrow> string \<Rightarrow> rat option" where
  "recorded d s = (case dget d s of None \<Rightarrow> None | Some v \<Rightarrow> v)"

definition of_condition :: "string \<Rightarrow> string \<Rightarrow> string \<Rightarrow> final_run \<Rightarrow> bool" where
  "of_condition campaign scenario condition r \<longleftrightarrow>
     fr_campaign r = campaign \<and> fr_scenario r = scenario \<and> fr_condition r = condition"

definition paired_series ::
    "final_run list \<Rightarrow> string \<Rightarrow> string \<Rightarrow> string list \<Rightarrow> string \<Rightarrow> string \<Rightarrow> (string, rat list) dict" where
  "paired_series runs scenario metric strategies condition campaign =
     (let by_seed = group_by_seed (of_condition campaign scenario condition) (\<lambda>r. metric_of r metric) runs;
          seeds = filter (\<lambda>seed. list_all (\<lambda>s. recorded (at_seed by_seed seed) s \<noteq> None) strategies)
                    (sorted_seeds by_seed)
      in for_conditions (\<lambda>s. List.map_filter (\<lambda>seed. recorded (at_seed by_seed seed) s) seeds) strategies)"

section \<open>Processed rows\<close>

definition counter_update :: "(string, int) dict \<Rightarrow> (string, int) dict \<Rightarrow> (string, int) dict" where
  "counter_update new totals = fold (\<lambda>(k, n). counter_add k n) new totals"

record confusion_row =
  cfr_campaign :: string
  cfr_scenario :: string
  cfr_strategy :: string
  cfr_strategy_label :: string
  cfr_runs :: nat
  cfr_rates :: rates

definition grouped_confusion :: "final_run list \<Rightarrow> (string \<times> string \<times> string, (string, int) dict) dict" where
  "grouped_confusion runs =
     fold (\<lambda>r d. let k = (fr_campaign r, fr_scenario r, fr_strategy r)
                 in dset k (counter_update (fr_confusion r) (case dget d k of None \<Rightarrow> [] | Some c \<Rightarrow> c)) d) runs []"

text \<open>\<open>sorted(grouped.items())\<close>: the keys are distinct and compared as tuples of text.\<close>

definition triple_le :: "string \<times> string \<times> string \<Rightarrow> string \<times> string \<times> string \<Rightarrow> bool" where
  "triple_le x y =
     (case (x, y) of ((a, b, c), (a', b', c')) \<Rightarrow> a < a' \<or> a = a' \<and> (b < b' \<or> b = b' \<and> c \<le> c'))"

fun insert_triple ::
    "(string \<times> string \<times> string) \<times> 'v \<Rightarrow> ((string \<times> string \<times> string) \<times> 'v) list
      \<Rightarrow> ((string \<times> string \<times> string) \<times> 'v) list" where
  "insert_triple x [] = [x]"
| "insert_triple x (y # ys) = (if triple_le (fst x) (fst y) then x # y # ys else y # insert_triple x ys)"

definition sorted_triples ::
    "(string \<times> string \<times> string, 'v) dict \<Rightarrow> (string \<times> string \<times> string, 'v) dict" where
  "sorted_triples d = foldr insert_triple d []"

definition confusion_row_of :: "(string \<times> string \<times> string) \<times> (string, int) dict \<Rightarrow> confusion_row" where
  "confusion_row_of x =
     (case x of ((campaign, scenario, strategy), totals) \<Rightarrow>
        \<lparr>cfr_campaign = campaign, cfr_scenario = scenario, cfr_strategy = strategy,
         cfr_strategy_label = label_of strategy, cfr_runs = 30, cfr_rates = confusion_rates totals\<rparr>)"

definition confusion_rows :: "final_run list \<Rightarrow> confusion_row list" where
  "confusion_rows runs = map confusion_row_of (sorted_triples (grouped_confusion runs))"

record action_row =
  acr_campaign :: string
  acr_scenario :: string
  acr_strategy :: string
  acr_seed :: int
  acr_condition :: string
  acr_action :: string
  acr_count :: int

definition action_rows :: "final_run list \<Rightarrow> action_row list" where
  "action_rows runs =
     concat (map (\<lambda>r. map (\<lambda>(action, n).
       \<lparr>acr_campaign = fr_campaign r, acr_scenario = fr_scenario r, acr_strategy = fr_strategy r,
        acr_seed = fr_seed r, acr_condition = fr_condition r, acr_action = action, acr_count = n\<rparr>)
       (sorted_items (fr_actions r))) runs)"

section \<open>Continuous comparisons\<close>

definition CONTINUOUS_COMPARISONS :: "(string \<times> string \<times> string \<times> string list option) list" where
  "CONTINUOUS_COMPARISONS =
     [(''P1'', ''false_acceptance_rate'', ''false acceptance rate per run'', Some ADVERSARIAL_SCENARIOS),
      (''P1'', ''false_rejection_rate'', ''false rejection rate per run'', None),
      (''P2'', ''transition_ms_median'', ''transition duration (ms)'', Some TRANSITION_SCENARIOS),
      (''P2'', ''app_recovery_ms_median'', ''application recovery (ms)'', Some TRANSITION_SCENARIOS),
      (''P3'', ''reauthentications'', ''full re-authentications (count)'', None),
      (''P3'', ''step_ups'', ''step-up authentications (count)'', None),
      (''P4'', ''decision_latency_ms_median'', ''decision latency, median per run (ms)'', None),
      (''P4'', ''engine_time_us_median'', ''trust engine evaluation, median per run (us)'', None),
      (''P5'', ''cpu_seconds'', ''CPU seconds per run'', None),
      (''P5'', ''memory_mib_peak'', ''peak resident memory (MiB)'', None),
      (''P5'', ''messages'', ''MQTT control packets (count)'', None),
      (''P5'', ''bytes'', ''bytes exchanged'', None)]"

record continuous =
  cont_dimension :: string
  cont_metric_label :: string
  cont_condition :: string
  cont_result :: comparison_result

definition condition_of_scenario :: "string \<Rightarrow> string" where
  "condition_of_scenario scenario = (if scenario = ''E13'' then ''devices=25'' else ''default'')"

text \<open>What each strategy recorded of the metric, paired or not; and the entry when there is no pair.\<close>

definition available_series :: "final_run list \<Rightarrow> string \<Rightarrow> string \<Rightarrow> string \<Rightarrow> (string, rat list) dict" where
  "available_series runs metric scenario condition =
     filter (\<lambda>(s, vs). vs \<noteq> []) (map (\<lambda>s. (s, numeric_series
       (filter (\<lambda>r. of_condition ''primary'' scenario condition r \<and> fr_strategy r = s) runs) metric)) PRIMARY)"

definition unpaired_entry ::
    "string \<Rightarrow> string \<Rightarrow> string \<Rightarrow> string \<Rightarrow> string \<Rightarrow> (string, rat list) dict \<Rightarrow> continuous" where
  "unpaired_entry dimension metric label scenario condition producing =
     \<lparr>cont_dimension = dimension, cont_metric_label = label, cont_condition = condition,
      cont_result =
        \<lparr>cres_metric = metric, cres_scenario = scenario, cres_conditions = sort (map fst producing),
         cres_n_paired_runs = 0,
         cres_descriptive = map (\<lambda>(s, v). (s, describe_runs (map Some v))) producing, cres_normality = [],
         cres_notes =
           [''dimension '' @ dimension @ '': '' @ label,
            ''descriptive only; a paired comparison would require every condition to produce the metric''],
         cres_omnibus = No_omnibus
           (''not every strategy produces this metric, so there is no paired series. Produced by: '' @
            join_with '', '' (sort (map fst producing)) @ ''. Reported descriptively.''),
         cres_interpretation = None, cres_pairwise = Some [], cres_family_size = None\<rparr>\<rparr>"

definition primary_comparison :: "string \<Rightarrow> string \<Rightarrow> string \<Rightarrow> string \<Rightarrow> (string, rat list) dict \<Rightarrow> comparison" where
  "primary_comparison dimension metric label scenario series =
     \<lparr>cmp_metric = metric, cmp_scenario = scenario, cmp_conditions = PRIMARY, cmp_samples = series,
      cmp_notes = [''dimension '' @ dimension @ '': '' @ label,
        ''experimental unit is the run; one value per seed per strategy'']\<rparr>"

definition continuous_entry ::
    "scipy \<Rightarrow> 'g rng \<Rightarrow> final_run list \<Rightarrow> string \<times> string \<times> string \<times> string list option \<Rightarrow> string
      \<Rightarrow> continuous option result" where
  "continuous_entry sp rg runs spec scenario =
     (case spec of (dimension, metric, label, limit) \<Rightarrow>
       if (case limit of None \<Rightarrow> False | Some l \<Rightarrow> scenario \<notin> set l) then Inr None
       else (let condition = condition_of_scenario scenario;
                 series = paired_series runs scenario metric PRIMARY condition ''primary''
             in if series_of series (hd PRIMARY) = [] then
                  (let producing = available_series runs metric scenario condition
                   in Inr (if producing = [] then None
                           else Some (unpaired_entry dimension metric label scenario condition producing)))
                else and_then (compare_three_paired sp rg (primary_comparison dimension metric label scenario series)) (\<lambda>outcome.
                  Inr (Some \<lparr>cont_dimension = dimension, cont_metric_label = label, cont_condition = condition,
                             cont_result = outcome\<rparr>))))"

text \<open>The nested loops: every comparison, every scenario.\<close>

fun gather_results :: "('a \<Rightarrow> 'b option result) \<Rightarrow> 'a list \<Rightarrow> 'b list result" where
  "gather_results f [] = Inr []"
| "gather_results f (x # xs) =
     and_then (f x) (\<lambda>y. and_then (gather_results f xs) (\<lambda>ys. Inr (case y of None \<Rightarrow> ys | Some z \<Rightarrow> z # ys)))"

definition primary_scenarios :: "final_run list \<Rightarrow> string list" where
  "primary_scenarios runs = sort (remdups (map fr_scenario (filter (\<lambda>r. fr_campaign r = ''primary'') runs)))"

definition continuous_comparisons :: "scipy \<Rightarrow> 'g rng \<Rightarrow> final_run list \<Rightarrow> continuous list result" where
  "continuous_comparisons sp rg runs =
     gather_results (\<lambda>(spec, scenario). continuous_entry sp rg runs spec scenario)
       (concat (map (\<lambda>spec. map (Pair spec) (primary_scenarios runs)) CONTINUOUS_COMPARISONS))"

section \<open>Security outcomes\<close>

text \<open>The seeds for which every strategy has a run.\<close>

definition complete_seeds :: "string list \<Rightarrow> (int, (string, 'v) dict) dict \<Rightarrow> int list" where
  "complete_seeds strategies by_seed =
     filter (\<lambda>seed. list_all (\<lambda>s. dget (at_seed by_seed seed) s \<noteq> None) strategies) (sorted_seeds by_seed)"

definition runs_at :: "(int, (string, 'v) dict) dict \<Rightarrow> int list \<Rightarrow> string \<Rightarrow> 'v list" where
  "runs_at by_seed seeds s = List.map_filter (\<lambda>seed. dget (at_seed by_seed seed) s) seeds"

definition summed_confusion :: "final_run list \<Rightarrow> (string, int) dict" where
  "summed_confusion runs = fold (\<lambda>r. counter_update (fr_confusion r)) runs []"

definition any_event :: "string \<Rightarrow> final_run \<Rightarrow> int" where
  "any_event k r = (if count_of (fr_confusion r) k \<noteq> 0 then 1 else 0)"

record strategy_security =
  ssc_label :: string
  ssc_aggregate :: rates
  ssc_runs_with_any_false_acceptance :: int
  ssc_runs_with_any_false_rejection :: int

record security_entry =
  sec_scenario :: string
  sec_n_paired_runs :: nat
  sec_per_strategy :: "(string, strategy_security) dict"
  sec_false_acceptance :: binary_result
  sec_false_rejection :: binary_result

definition security_outcome :: "scipy \<Rightarrow> final_run list \<Rightarrow> string \<Rightarrow> security_entry" where
  "security_outcome sp runs scenario =
     (let by_seed = group_by_seed (\<lambda>r. fr_campaign r = ''primary'' \<and> fr_scenario r = scenario) (\<lambda>r. r) runs;
          seeds = complete_seeds PRIMARY by_seed;
          chosen = runs_at by_seed seeds;
          fa = for_conditions (\<lambda>s. map (any_event ''false_acceptance'') (chosen s)) PRIMARY;
          fr = for_conditions (\<lambda>s. map (any_event ''false_rejection'') (chosen s)) PRIMARY
      in \<lparr>sec_scenario = scenario, sec_n_paired_runs = length seeds,
          sec_per_strategy = for_conditions (\<lambda>s.
            \<lparr>ssc_label = label_of s, ssc_aggregate = confusion_rates (summed_confusion (chosen s)),
             ssc_runs_with_any_false_acceptance = sum_list (series_of fa s),
             ssc_runs_with_any_false_rejection = sum_list (series_of fr s)\<rparr>) PRIMARY,
          sec_false_acceptance = cochran_q sp PRIMARY fa, sec_false_rejection = cochran_q sp PRIMARY fr\<rparr>)"

section \<open>Scalability and token lifetimes\<close>

record level_entry =
  lvl_label :: string
  lvl_n_runs :: nat
  lvl_decision_latency_median :: run_description
  lvl_decision_latency_p95 :: run_description
  lvl_cpu_seconds :: run_description
  lvl_memory_mib_peak :: run_description
  lvl_messages :: run_description
  lvl_app_operations :: run_description
  lvl_errors :: nat

definition described_series :: "final_run list \<Rightarrow> string \<Rightarrow> run_description" where
  "described_series runs metric = describe_runs (map Some (numeric_series runs metric))"

definition level_outcome :: "final_run list \<Rightarrow> nat \<Rightarrow> string \<Rightarrow> level_entry" where
  "level_outcome runs level strategy =
     (let selected = filter (\<lambda>r. fr_scenario r = ''E13'' \<and> fr_strategy r = strategy \<and> fr_device_count r = level
                              \<and> fr_campaign r = ''primary'') runs
      in \<lparr>lvl_label = label_of strategy, lvl_n_runs = length selected,
          lvl_decision_latency_median = described_series selected ''decision_latency_ms_median'',
          lvl_decision_latency_p95 = described_series selected ''decision_latency_ms_p95'',
          lvl_cpu_seconds = described_series selected ''cpu_seconds'',
          lvl_memory_mib_peak = described_series selected ''memory_mib_peak'',
          lvl_messages = described_series selected ''messages'',
          lvl_app_operations = described_series selected ''app_operations'',
          lvl_errors = length (filter (\<lambda>r. count_of (fr_confusion r) ''false_rejection'' \<noteq> 0) selected)\<rparr>)"

definition scalability :: "final_run list \<Rightarrow> (string, (string, level_entry) dict) dict" where
  "scalability runs = map (\<lambda>level. (show_nat level, for_conditions (level_outcome runs level) PRIMARY)) E13_LEVELS"

text \<open>\<open>round(x, 3)\<close> of the upper median of the spans\<close>

definition scenario_time_span :: "final_run list \<Rightarrow> string \<Rightarrow> string \<Rightarrow> rat option" where
  "scenario_time_span runs scenario strategy =
     (let spans = numeric_series (filter (\<lambda>r. fr_scenario r = scenario \<and> fr_strategy r = strategy) runs)
                    ''scenario_span_s''
      in if spans = [] then None
         else Some (of_int (round_half_even (sort spans ! (length spans div 2) * 1000)) / 1000))"

record lifetime_entry =
  lif_label :: string
  lif_aggregate :: rates
  lif_runs_with_any_false_acceptance :: int
  lif_reauthentications :: run_description
  lif_step_ups :: run_description

record sensitivity_entry =
  sen_scenario :: string
  sen_n_paired_runs :: nat
  sen_scenario_time_span_s :: "rat option"
  sen_long_enough :: "bool option"
  sen_per_lifetime :: "(string, lifetime_entry) dict"
  sen_false_acceptance :: binary_result

definition sensitivity_runs :: "final_run list \<Rightarrow> final_run list" where
  "sensitivity_runs runs =
     filter (\<lambda>r. fr_campaign r = ''sensitivity'') runs
     @ filter (\<lambda>r. fr_campaign r = ''primary'' \<and> fr_strategy r = ''static_continuity'') runs"

definition sensitivity_outcome :: "scipy \<Rightarrow> final_run list \<Rightarrow> string \<Rightarrow> sensitivity_entry" where
  "sensitivity_outcome sp runs scenario =
     (let by_seed = group_by_seed (\<lambda>r. fr_scenario r = scenario) (\<lambda>r. r) (sensitivity_runs runs);
          seeds = complete_seeds SENSITIVITY by_seed;
          chosen = runs_at by_seed seeds;
          fa = for_conditions (\<lambda>s. map (any_event ''false_acceptance'') (chosen s)) SENSITIVITY;
          covered = scenario_time_span runs scenario ''static_continuity''
      in \<lparr>sen_scenario = scenario, sen_n_paired_runs = length seeds, sen_scenario_time_span_s = covered,
          sen_long_enough = map_option (\<lambda>s. s > 30) covered,
          sen_per_lifetime = for_conditions (\<lambda>s.
            \<lparr>lif_label = label_of s, lif_aggregate = confusion_rates (summed_confusion (chosen s)),
             lif_runs_with_any_false_acceptance = sum_list (series_of fa s),
             lif_reauthentications = described_series (chosen s) ''reauthentications'',
             lif_step_ups = described_series (chosen s) ''step_ups''\<rparr>) SENSITIVITY,
          sen_false_acceptance = cochran_q sp SENSITIVITY fa\<rparr>)"

definition sensitivity_scenarios :: "final_run list \<Rightarrow> string list" where
  "sensitivity_scenarios runs =
     sort (remdups (map fr_scenario (filter (\<lambda>r. fr_campaign r = ''sensitivity'') runs)))"

record final_statistics =
  fst_continuous :: "continuous list"
  fst_security :: "security_entry list"
  fst_scalability :: "(string, (string, level_entry) dict) dict"
  fst_sensitivity :: "sensitivity_entry list"

definition build_statistics :: "scipy \<Rightarrow> 'g rng \<Rightarrow> final_run list \<Rightarrow> final_statistics result" where
  "build_statistics sp rg runs =
     and_then (continuous_comparisons sp rg runs) (\<lambda>comparisons. Inr
       \<lparr>fst_continuous = comparisons, fst_security = map (security_outcome sp runs) ADVERSARIAL_SCENARIOS,
        fst_scalability = scalability runs,
        fst_sensitivity = map (sensitivity_outcome sp runs) (sensitivity_scenarios runs)\<rparr>)"

end
