(* ===== verification/Final_Findings.thy ===== *)
theory Final_Findings
  imports Final_Report
begin

text \<open>
  The findings and non-findings drawn from the statistics of a campaign
  (\<^verbatim>\<open>experiments/analysis/final_findings.py\<close>), and the security summary beside them. A record is built with
  the fields its branch of the code gives it; the constant fields and the label and condition repeated
  from the comparison, the names of the supporting files, the prose of the limitations and the rendering of the lists as text are left out.
\<close>

section \<open>Records\<close>

datatype measured =
    Confusion_measured "(string, rates \<times> int) dict"
  | Series_measured "(string, run_description) dict"
  | Levels_measured "(string, (string, run_description) dict) dict"

record pair_finding =
  pf_p_value_holm :: "rat option"
  pf_significant :: "bool option"
  pf_discordant :: "(nat \<times> nat) option"

record finding =
  fd_dimension :: string
  fd_metric :: string
  fd_scenario :: string
  fd_n_paired_runs :: "nat option"
  fd_measured :: measured
  fd_test :: string
  fd_pair :: "string option"
  fd_statistic :: "rat option"
  fd_omnibus_p_value :: "rat option"
  fd_pairwise :: "(string, pair_finding) dict"
  fd_p_value_raw :: "rat option"
  fd_p_value_holm :: "rat option"
  fd_effect_size :: "effect_size option"
  fd_confidence_interval :: "bootstrap option"
  fd_direction :: "string option"
  fd_outcome :: "string option"
  fd_reason :: "string option"

definition new_finding :: "string \<Rightarrow> string \<Rightarrow> string \<Rightarrow> nat option \<Rightarrow> measured \<Rightarrow> string \<Rightarrow> finding" where
  "new_finding dimension metric scenario n m test =
     \<lparr>fd_dimension = dimension, fd_metric = metric, fd_scenario = scenario, fd_n_paired_runs = n,
      fd_measured = m, fd_test = test, fd_pair = None, fd_statistic = None, fd_omnibus_p_value = None,
      fd_pairwise = [], fd_p_value_raw = None, fd_p_value_holm = None, fd_effect_size = None,
      fd_confidence_interval = None, fd_direction = None, fd_outcome = None, fd_reason = None\<rparr>"

text \<open>\<open>s.split(sep)\<close> for a non-empty separator: \<open>n\<close> characters of a match are still to be skipped.\<close>

fun split_from :: "string \<Rightarrow> nat \<Rightarrow> string \<Rightarrow> string list" where
  "split_from sep n [] = [[]]"
| "split_from sep (Suc n) (c # cs) = split_from sep n cs"
| "split_from sep 0 (c # cs) =
     (if prefix sep (c # cs) then [] # split_from sep (length sep - 1) cs
      else (case split_from sep 0 cs of [] \<Rightarrow> [[c]] | f # fs \<Rightarrow> (c # f) # fs))"

definition split_pair :: "string \<Rightarrow> (string \<times> string) result" where
  "split_pair key =
     (case split_from ''_vs_'' 0 key of
        [first, second] \<Rightarrow> Inr (first, second)
      | _ \<Rightarrow> Inl (PyValueError ''values to unpack''))"

definition effect_direction :: "effect_size \<Rightarrow> string \<Rightarrow> string \<Rightarrow> string" where
  "effect_direction effect first second =
     (case effect of
        All_tied _ \<Rightarrow> ''no direction''
      | Effect e \<Rightarrow>
          if eff_value e > 0 then label_of first @ '' higher than '' @ label_of second
          else if eff_value e < 0 then label_of second @ '' higher than '' @ label_of first
          else ''no direction'')"

section \<open>Security outcomes\<close>

definition pair_finding_of :: "pair_entry \<Rightarrow> pair_finding" where
  "pair_finding_of e =
     \<lparr>pf_p_value_holm = map_option fst (pe_holm e), pf_significant = map_option snd (pe_holm e),
      pf_discordant = (case pe_test e of Mcnemar b c p \<Rightarrow> Some (b, c) | _ \<Rightarrow> None)\<rparr>"

text \<open>Each contribution goes to the findings (\<open>True\<close>) or to the non-findings.\<close>

definition security_contribution :: "security_entry \<Rightarrow> bool \<times> finding" where
  "security_contribution entry =
     (let record = new_finding ''P1'' ''false acceptance'' (sec_scenario entry) (Some (sec_n_paired_runs entry))
            (Confusion_measured (map (\<lambda>(s, x). (ssc_label x, ssc_aggregate x, ssc_runs_with_any_false_acceptance x))
              (sec_per_strategy entry)));
          test = sec_false_acceptance entry
      in case bres_omnibus test of
           Omnibus statistic df p True \<Rightarrow>
             (True, (record ''cochran_q with exact McNemar follow-up, Holm corrected'')
                \<lparr>fd_statistic := statistic, fd_omnibus_p_value := p,
                 fd_pairwise := (case bres_pairwise test of
                    None \<Rightarrow> [] | Some t \<Rightarrow> map (\<lambda>(k, e). (k, pair_finding_of e)) t)\<rparr>)
         | Omnibus _ _ _ False \<Rightarrow>
             (False, (record ''cochran_q'')\<lparr>fd_outcome := Some ''not significant'',
                fd_reason := Some ''omnibus not significant''\<rparr>)
         | No_omnibus reason \<Rightarrow>
             (False, (record ''cochran_q'')\<lparr>fd_outcome := Some ''not applicable'', fd_reason := Some reason\<rparr>))"

section \<open>Continuous metrics\<close>

definition continuous_record :: "continuous \<Rightarrow> string \<Rightarrow> finding" where
  "continuous_record c test =
     (let r = cont_result c
      in new_finding (cont_dimension c) (cres_metric r) (cres_scenario r) (Some (cres_n_paired_runs r))
           (Series_measured (List.map_filter (\<lambda>s. map_option (Pair (label_of s)) (dget (cres_descriptive r) s))
             (cres_conditions r))) test)"

definition pair_contribution :: "continuous \<Rightarrow> rat option \<Rightarrow> string \<times> pair_entry \<Rightarrow> (bool \<times> finding) result" where
  "pair_contribution c omnibus_p kv =
     (case kv of (key, e) \<Rightarrow>
        and_then (split_pair key) (\<lambda>(first, second).
          (case pe_test e of
             Wilcoxon statistic p effect interval \<Rightarrow>
               (let record = (continuous_record c
                      ''friedman omnibus, then paired wilcoxon signed-rank, Holm corrected'')
                      \<lparr>fd_pair := Some key, fd_omnibus_p_value := omnibus_p, fd_statistic := Some statistic,
                       fd_p_value_raw := Some p, fd_p_value_holm := map_option fst (pe_holm e),
                       fd_effect_size := Some effect, fd_confidence_interval := Some interval,
                       fd_direction := Some (effect_direction effect first second)\<rparr>
                in Inr (if (case pe_holm e of Some (_, b) \<Rightarrow> b | None \<Rightarrow> False) then (True, record)
                        else (False, record\<lparr>fd_outcome := Some ''not significant after Holm''\<rparr>)))
           | Untested reason \<Rightarrow>
               Inr (False, (continuous_record c ''wilcoxon_signed_rank'')
                 \<lparr>fd_pair := Some key, fd_outcome := Some ''not applicable'', fd_reason := Some reason\<rparr>)
           | Mcnemar _ _ _ \<Rightarrow> Inl (PyKeyError ''statistic''))))"

definition continuous_contributions :: "continuous \<Rightarrow> (bool \<times> finding) list result" where
  "continuous_contributions c =
     (case cres_omnibus (cont_result c) of
        No_omnibus reason \<Rightarrow>
          Inr [(False, (continuous_record c ''friedman'')
                  \<lparr>fd_outcome := Some ''not applicable'', fd_reason := Some reason\<rparr>)]
      | Omnibus statistic df p False \<Rightarrow>
          Inr [(False, (continuous_record c ''friedman'')
                  \<lparr>fd_statistic := statistic, fd_omnibus_p_value := p, fd_outcome := Some ''not significant'',
                   fd_reason := Some ''omnibus p >= 0.05; no pairwise follow-up''\<rparr>)]
      | Omnibus statistic df p True \<Rightarrow>
          gather_results (\<lambda>kv. and_then (pair_contribution c p kv) (\<lambda>x. Inr (Some x)))
            (case cres_pairwise (cont_result c) of None \<Rightarrow> [] | Some t \<Rightarrow> t))"

section \<open>All of them\<close>

definition scalability_finding :: "(string, (string, level_entry) dict) dict \<Rightarrow> finding" where
  "scalability_finding levels =
     new_finding ''P6'' ''decision latency versus logical device count'' ''E13'' None
       (Levels_measured (map (\<lambda>(level, per). (level @ '' devices'',
          map (\<lambda>(s, x). (label_of s, lvl_decision_latency_median x)) per)) levels))
       ''none; descriptive only''"

definition contributions :: "final_statistics \<Rightarrow> (bool \<times> finding) list result" where
  "contributions st =
     and_then (gather_results (\<lambda>c. and_then (continuous_contributions c) (\<lambda>xs. Inr (Some xs))) (fst_continuous st)) (\<lambda>xss.
       Inr (map security_contribution (fst_security st) @ concat xss
              @ [(True, scalability_finding (fst_scalability st))]))"

definition build_findings :: "final_statistics \<Rightarrow> (finding list \<times> finding list) result" where
  "build_findings st =
     and_then (contributions st) (\<lambda>xs.
       Inr (map snd (filter fst xs), map snd (filter (\<lambda>x. \<not> fst x) xs)))"

text \<open>Per scenario and strategy, over all its primary runs.\<close>

definition security_summary :: "final_run list \<Rightarrow> (string, (string, rates) dict) dict" where
  "security_summary runs =
     map (\<lambda>scenario. (scenario, map (\<lambda>strategy. (label_of strategy, confusion_rates (summed_confusion
       (filter (\<lambda>r. fr_campaign r = ''primary'' \<and> fr_scenario r = scenario \<and> fr_strategy r = strategy) runs))))
       PRIMARY)) ADVERSARIAL_SCENARIOS"

end
