(* ===== verification/Final_Facts.thy ===== *)
theory Final_Facts
  imports Campaign_History Final_Findings Statistics_Facts
begin

text \<open>
  What is published of a campaign: the runs that are loaded are its completed conditions, each the run on
  disk; the values compared with one another belong to the same seed; and a finding rests on a significant
  omnibus test and, for a pair, on an adjusted p-value below the level.
\<close>

section \<open>Pairs\<close>

lemma dget_for_conditions: "dget (for_conditions f cs) c = (if c \<in> set cs then Some (f c) else None)"
proof -
  have "dget (fold (\<lambda>c. dset c (f c)) cs d) c = (if c \<in> set cs then Some (f c) else dget d c)" for d
    by (induction cs arbitrary: d) auto
  then show ?thesis by (simp add: for_conditions_def)
qed

lemma group_snoc:
  "group_by_seed sel f (runs @ [r]) =
     (let d = group_by_seed sel f runs
      in if sel r then dset (fr_seed r) (dset (fr_strategy r) (f r) (at_seed d (fr_seed r))) d else d)"
  by (simp add: group_by_seed_def Let_def)

lemma at_seed_dset [simp]: "at_seed (dset k v d) seed = (if seed = k then v else at_seed d seed)"
  by (simp add: at_seed_def)

text \<open>What is grouped under a seed and a strategy comes from a selected run with that seed and strategy.\<close>

lemma grouped_from:
  "dget (at_seed (group_by_seed sel f runs) seed) s = Some v \<Longrightarrow>
     \<exists>r \<in> set runs. sel r \<and> fr_seed r = seed \<and> fr_strategy r = s \<and> v = f r"
proof (induction runs arbitrary: v rule: rev_induct)
  case Nil
  then show ?case by (simp add: group_by_seed_def at_seed_def)
next
  case (snoc r runs)
  then show ?case by (auto simp: group_snoc Let_def split: if_splits)
qed

lemma grouped_ok: "dict_ok (group_by_seed sel f runs)"
  by (induction runs rule: rev_induct) (simp_all add: group_by_seed_def group_snoc [unfolded group_by_seed_def] Let_def)

lemma sorted_seeds_ok: "dict_ok d \<Longrightarrow> sorted (sorted_seeds d) \<and> distinct (sorted_seeds d)"
  by (simp add: sorted_seeds_def)

lemma map_filter_total: "\<forall>x \<in> set xs. f x \<noteq> None \<Longrightarrow> List.map_filter f xs = map (\<lambda>x. the (f x)) xs"
  by (induction xs) auto

text \<open>The value is what a run of this seed, strategy and condition recorded of the metric.\<close>

definition recorded_by ::
    "final_run list \<Rightarrow> string \<Rightarrow> string \<Rightarrow> string \<Rightarrow> string \<Rightarrow> int \<Rightarrow> string \<Rightarrow> rat \<Rightarrow> bool" where
  "recorded_by runs campaign scenario condition metric seed s v \<longleftrightarrow>
     (\<exists>r \<in> set runs. of_condition campaign scenario condition r \<and> fr_seed r = seed \<and> fr_strategy r = s
        \<and> metric_of r metric = Some v)"

text \<open>Among runs of different conditions none is overwritten, so the grouping loses nothing.\<close>

definition final_key :: "final_run \<Rightarrow> condition_key" where
  "final_key r = (fr_scenario r, fr_strategy r, fr_seed r, fr_condition r)"

lemma grouped_all:
  assumes "distinct (map final_key runs)" "r \<in> set runs" "of_condition campaign scenario condition r"
  shows "dget (at_seed (group_by_seed (of_condition campaign scenario condition) f runs) (fr_seed r)) (fr_strategy r) = Some (f r)"
  using assms(1,2)
proof (induction runs rule: rev_induct)
  case (snoc x runs)
  show ?case
  proof (cases "r = x")
    case True
    with assms(3) show ?thesis by (simp add: group_snoc Let_def)
  next
    case False
    with snoc.prems(2) have r: "r \<in> set runs" by simp
    have "final_key r \<noteq> final_key x" using snoc.prems(1) imageI [OF r, of final_key] by auto
    with assms(3) have "of_condition campaign scenario condition x \<Longrightarrow> fr_seed x = fr_seed r \<Longrightarrow> fr_strategy x \<noteq> fr_strategy r"
      by (auto simp: final_key_def of_condition_def)
    with snoc.IH r snoc.prems(1) show ?thesis by (auto simp: group_snoc Let_def)
  qed
qed simp

lemma paired_series_pairs:
  obtains seeds where "sorted seeds" "distinct seeds"
    "\<And>s. s \<in> set strategies \<Longrightarrow> \<exists>vs. dget (paired_series runs scenario metric strategies condition campaign) s = Some vs
       \<and> length vs = length seeds
       \<and> (\<forall>i < length seeds. recorded_by runs campaign scenario condition metric (seeds ! i) s (vs ! i))"
    "strategies \<noteq> [] \<Longrightarrow> distinct (map final_key runs) \<Longrightarrow>
       set seeds = {seed. \<forall>s \<in> set strategies. \<exists>v. recorded_by runs campaign scenario condition metric seed s v}"
proof -
  define d where "d = group_by_seed (of_condition campaign scenario condition) (\<lambda>r. metric_of r metric) runs"
  define seeds where "seeds = filter (\<lambda>seed. list_all (\<lambda>s. recorded (at_seed d seed) s \<noteq> None) strategies) (sorted_seeds d)"
  have ok: "sorted seeds" "distinct seeds"
    using sorted_seeds_ok [OF grouped_ok, of "of_condition campaign scenario condition" "\<lambda>r. metric_of r metric" runs]
    by (simp_all add: seeds_def d_def sorted_wrt_filter)
  have "\<exists>vs. dget (paired_series runs scenario metric strategies condition campaign) s = Some vs
       \<and> length vs = length seeds
       \<and> (\<forall>i < length seeds. recorded_by runs campaign scenario condition metric (seeds ! i) s (vs ! i))"
    if s: "s \<in> set strategies" for s
  proof -
    have some: "recorded (at_seed d seed) s \<noteq> None" if "seed \<in> set seeds" for seed
      using that s by (auto simp: seeds_def list_all_iff)
    let ?vs = "map (\<lambda>seed. the (recorded (at_seed d seed) s)) seeds"
    have "dget (paired_series runs scenario metric strategies condition campaign) s =
        Some (List.map_filter (\<lambda>seed. recorded (at_seed d seed) s) seeds)"
      using s by (simp add: paired_series_def Let_def dget_for_conditions d_def seeds_def)
    also have "\<dots> = Some ?vs" using some by (simp add: map_filter_total)
    finally have get: "dget (paired_series runs scenario metric strategies condition campaign) s = Some ?vs" .
    have "recorded_by runs campaign scenario condition metric (seeds ! i) s (?vs ! i)" if i: "i < length seeds" for i
    proof -
      obtain v where "recorded (at_seed d (seeds ! i)) s = Some v" using some i by (metis nth_mem option.exhaust)
      then have v: "dget (at_seed d (seeds ! i)) s = Some (Some v)" "?vs ! i = v"
        using i by (auto simp: recorded_def split: option.splits)
      from grouped_from [OF v(1) [unfolded d_def]] show ?thesis by (auto simp: recorded_by_def v(2))
    qed
    with get show ?thesis by (intro exI [of _ ?vs]) simp
  qed
  moreover have "set seeds = {seed. \<forall>s \<in> set strategies. \<exists>v. recorded_by runs campaign scenario condition metric seed s v}"
    if ne: "strategies \<noteq> []" and keys: "distinct (map final_key runs)"
  proof -
    have iff: "recorded (at_seed d seed) s = Some v \<longleftrightarrow> recorded_by runs campaign scenario condition metric seed s v" for seed s v
    proof
      assume "recorded (at_seed d seed) s = Some v"
      then have "dget (at_seed d seed) s = Some (Some v)" by (auto simp: recorded_def split: option.splits)
      from grouped_from [OF this [unfolded d_def]] show "recorded_by runs campaign scenario condition metric seed s v"
        by (auto simp: recorded_by_def)
    next
      assume "recorded_by runs campaign scenario condition metric seed s v"
      then obtain r where r: "r \<in> set runs" "of_condition campaign scenario condition r" "fr_seed r = seed"
        "fr_strategy r = s" "metric_of r metric = Some v" by (auto simp: recorded_by_def)
      from grouped_all [OF keys r(1,2), where f = "\<lambda>r. metric_of r metric"] r(3-5)
      show "recorded (at_seed d seed) s = Some v" by (simp add: d_def recorded_def)
    qed
    have key: "seed \<in> set (sorted_seeds d)" if "recorded (at_seed d seed) s \<noteq> None" for seed s
      using that by (force simp: sorted_seeds_def recorded_def at_seed_def split: option.splits dest: map_of_SomeD)
    have "seed \<in> set seeds \<longleftrightarrow> (\<forall>s \<in> set strategies. recorded (at_seed d seed) s \<noteq> None)" for seed
      using key ne by (auto simp: seeds_def list_all_iff) (metis last_in_set)+
    then show ?thesis using iff by auto
  qed
  ultimately show thesis using ok that by blast
qed

section \<open>Loading\<close>

text \<open>
  What the metrics of a loaded run have to be, from the run itself. The latencies, engine times, counts of
  actions and state changes are those of its decisions; the two rates have the declared labels as their
  denominators and the counters of false acceptances and rejections above; the other medians and counters
  are the summary's, the resources are the sampled ones, and the span is that of the instants in the file
  of decisions.
\<close>

definition row_stamp :: "(string \<Rightarrow> instant option) \<Rightarrow> row \<Rightarrow> instant option" where
  "row_stamp fromiso r =
     (case dget r ''at'' of Some (J (JStr s)) \<Rightarrow> if s = [] then None else fromiso s | _ \<Rightarrow> None)"

definition span_of :: "instant list \<Rightarrow> rat" where
  "span_of ts = (if length ts < 2 then 0 else of_int (Max (set ts) - Min (set ts)) / 1000000)"

definition summary_median :: "run_summary \<Rightarrow> string \<Rightarrow> rat option" where
  "summary_median m k =
     (case dget (rsu_distributions m) k of Some (Described s, _) \<Rightarrow> Some (sta_median s) | _ \<Rightarrow> None)"

definition rate_of :: "int \<Rightarrow> nat \<Rightarrow> rat option" where
  "rate_of events n = (if n = 0 then None else Some (of_int events / of_nat n))"

definition decisions_measured :: "final_run \<Rightarrow> row list \<Rightarrow> bool" where
  "decisions_measured r rows \<longleftrightarrow>
     (let latencies = sort (map row_latency rows); times = sort (engine_times rows)
      in metric_of r ''decision_latency_ms_median'' = (if rows = [] then None else Some (py_median latencies))
         \<and> metric_of r ''decision_latency_ms_p95'' = (if rows = [] then None else Some (percentile latencies (95 / 100)))
         \<and> metric_of r ''engine_time_us_median'' = (if engine_times rows = [] then None else Some (py_median times))
         \<and> metric_of r ''reauthentications'' = Some (of_nat (rows_with ''action'' ''REAUTHENTICATE'' rows))
         \<and> metric_of r ''step_ups'' = Some (of_nat (rows_with ''action'' ''STEP_UP_AUTHENTICATION'' rows))
         \<and> metric_of r ''state_changes'' = Some (of_nat (state_changes rows)))"

definition summary_measured :: "final_run \<Rightarrow> run_summary \<Rightarrow> (string, rat) dict \<Rightarrow> bool" where
  "summary_measured r m resources \<longleftrightarrow>
     metric_of r ''nr_context_ms_median'' = summary_median m ''M1_NR''
     \<and> metric_of r ''wlan_context_ms_median'' = summary_median m ''M1_EAP''
     \<and> metric_of r ''transition_ms_median'' = summary_median m ''M2''
     \<and> metric_of r ''app_recovery_ms_median'' = summary_median m ''M4''
     \<and> metric_of r ''messages'' = map_option of_int (dget (rsu_counters m) ''M8'')
     \<and> metric_of r ''bytes'' = map_option of_int (dget (rsu_counters m) ''M9'')
     \<and> metric_of r ''app_operations'' = map_option of_int (dget (rsu_counters m) ''M19'')
     \<and> metric_of r ''cpu_seconds'' = dget resources ''cpu_seconds_total''
     \<and> metric_of r ''cpu_percent'' = dget resources ''cpu_percent_mean_over_run''
     \<and> metric_of r ''memory_mib_peak'' = dget resources ''memory_mib_peak_rss''
     \<and> metric_of r ''wall_seconds'' = dget resources ''wall_seconds''"

definition rates_measured :: "final_run \<Rightarrow> run_summary \<Rightarrow> string list \<Rightarrow> bool" where
  "rates_measured r m labels \<longleftrightarrow>
     metric_of r ''false_acceptance_rate'' = rate_of (count_of (rsu_counters m) ''M15'')
       (length (filter (\<lambda>l. is_adversarial (declared_label l)) labels))
     \<and> metric_of r ''false_rejection_rate'' = rate_of (count_of (rsu_counters m) ''M16'')
       (length (filter (\<lambda>l. is_legitimate (declared_label l)) labels))"

text \<open>The loaded run is a run of its condition, played to its end by an attempt of the campaign.\<close>

definition run_of ::
    "('k, 'g) campaign_env set \<Rightarrow> (string \<Rightarrow> instant option) \<Rightarrow> (string \<Rightarrow> (string, rat) dict) \<Rightarrow> tree
      \<Rightarrow> final_run \<Rightarrow> run_result \<Rightarrow> bool" where
  "run_of W fromiso res t r rr \<longleftrightarrow>
     (\<exists>env \<in> W. \<exists>k source c.
       run_scenario ((ce_run env k)\<lparr>rv_source := source\<rparr>) (attempt_options env k c) = Inr rr
       \<and> condition_key c = final_key r
       \<and> rates_measured r (rr_metrics rr) (map snd (declared_labels (rv_rng (ce_run env k)) (attempt_scenario c)
           (ro_seed (attempt_options env k c)))))
     \<and> rr_ok rr \<and> fr_run_id r = rr_run_id rr
     \<and> decisions_measured r (rr_decisions rr)
     \<and> summary_measured r (rr_metrics rr) (res (''raw/'' @ rr_run_id rr))
     \<and> (\<exists>old. dget t (raw_file (rr_run_id rr) ''decisions.jsonl'') = Some (Lines (old @ map (stamped rr) (rr_decisions rr)))
          \<and> metric_of r ''scenario_span_s'' = Some (span_of (List.map_filter (row_stamp fromiso) (old @ rr_decisions rr))))
     \<and> fr_confusion r = confusion_dict (rsu_confusion_raw (rr_metrics rr))
     \<and> fr_actions r = rsu_policy_action_distribution (rr_metrics rr) \<and> fr_metadata r = Some (rr_metadata rr)"

lemma run_metrics_get:
  assumes "fr_metrics r = run_metrics m resources covered"
  shows "metric_of r ''decision_latency_ms_median'' = dist_of m ''M3'' sta_median"
    "metric_of r ''decision_latency_ms_p95'' = dist_of m ''M3'' sta_p95"
    "metric_of r ''engine_time_us_median'' = dist_of m ''M12'' sta_median"
    "metric_of r ''reauthentications'' = Some (of_int (count_of (rsu_counters m) ''M5''))"
    "metric_of r ''step_ups'' = Some (of_int (count_of (rsu_counters m) ''M6''))"
    "metric_of r ''state_changes'' = Some (of_int (count_of (rsu_counters m) ''M7''))"
    "metric_of r ''scenario_span_s'' = covered"
    "metric_of r ''false_acceptance_rate'' = run_rate (confusion_dict (rsu_confusion_raw m)) ''false_acceptance'' ''illegitimate_total''"
    "metric_of r ''false_rejection_rate'' = run_rate (confusion_dict (rsu_confusion_raw m)) ''false_rejection'' ''legitimate_total''"
    "summary_measured r m resources"
  unfolding metric_of_def assms run_metrics_def Let_def summary_measured_def
  by (simp_all add: dist_of_def summary_median_def counter_value_def split: option.split description.split)

lemma dist_of_samples:
  assumes "map_option fst (dget (rsu_distributions m) k) = (if e then None else Some (describe xs))"
    and "xs = [] \<longrightarrow> e"
  shows "dist_of m k sta_median = (if e then None else Some (py_median (sort xs)))"
    "dist_of m k sta_p95 = (if e then None else Some (percentile (sort xs) (95 / 100)))"
  using assms by (auto simp: dist_of_def describe_def Let_def split: option.splits if_splits)

lemma metrics_measured:
  assumes "run_scenario env opt = Inr rr" "rr_ok rr" "fr_metrics r = run_metrics (rr_metrics rr) resources covered"
  shows "decisions_measured r (rr_decisions rr)" "summary_measured r (rr_metrics rr) resources"
    "rates_measured r (rr_metrics rr) (map snd (declared_labels (rv_rng env) (ro_scenario opt) (ro_seed opt)))"
    "metric_of r ''scenario_span_s'' = covered"
proof -
  note b = run_scenario_books [OF assms(1)] and c = run_scenario_confusion [OF assms(1,2)]
  note g = run_metrics_get [OF assms(3)]
  have "map row_latency (rr_decisions rr) = [] \<longrightarrow> rr_decisions rr = []" by simp
  note lat = dist_of_samples [OF b(7) this] and times = dist_of_samples(1) [OF b(8)]
  show "decisions_measured r (rr_decisions rr)"
    unfolding decisions_measured_def Let_def g(1-6) lat b(3,4,6) by (simp add: times)
  show "summary_measured r (rr_metrics rr) resources" "metric_of r ''scenario_span_s'' = covered" by (rule g)+
  show "rates_measured r (rr_metrics rr) (map snd (declared_labels (rv_rng env) (ro_scenario opt) (ro_seed opt)))"
    unfolding rates_measured_def g(8,9) rate_of_def run_rate_def using c
    by (simp add: confusion_dict_def count_of_def)
qed

lemma row_moments_stamps: "row_moments fromiso rows = Inr ts \<Longrightarrow> ts = List.map_filter (row_stamp fromiso) rows"
proof (induction rows arbitrary: ts)
  case (Cons r rows)
  from Cons.prems obtain m ms where m: "row_moment fromiso r = Inr m" "row_moments fromiso rows = Inr ms"
    "ts = (case m of None \<Rightarrow> ms | Some t \<Rightarrow> t # ms)"
    by (auto simp: and_then_Inr_iff)
  have "row_stamp fromiso r = m"
    using m(1) by (auto simp: row_moment_def row_stamp_def split: option.splits cell.splits json.splits if_splits)
  with Cons.IH [OF m(2)] m(3) show ?case by (simp add: map_filter_simps split: option.split)
qed (simp add: map_filter_simps)

lemma span_of_lines:
  "scenario_span_seconds fromiso (Some (Lines rows)) = Inr covered \<Longrightarrow>
     covered = Some (span_of (List.map_filter (row_stamp fromiso) rows))"
  by (auto simp: scenario_span_seconds_def span_of_def and_then_Inr_iff dest!: row_moments_stamps)

lemma stamped_stamps:
  "list_all dated rows \<Longrightarrow> List.map_filter (row_stamp fromiso) (map (stamped rr) rows) = List.map_filter (row_stamp fromiso) rows"
proof (induction rows)
  case (Cons r rows)
  then have "dget (stamped rr r) ''at'' = dget r ''at''"
    by (auto simp: dated_def stamped_def dget_mk_row map_add_def map_of_rev_distinct simp del: map_of_eq_Some_iff split: option.split)
  then have "row_stamp fromiso (stamped rr r) = row_stamp fromiso r" by (simp add: row_stamp_def)
  with Cons show ?case by (simp add: map_filter_simps split: option.split)
qed simp

lemma map_filter_append: "List.map_filter f (xs @ ys) = List.map_filter f xs @ List.map_filter f ys"
  by (simp add: List.map_filter_def)

lemma load_run_valid:
  assumes "on_disk W t row" "dget row ''status'' = Some STATUS_VALID" "load_run fromiso res t row = Inr x"
  shows "\<exists>r rr. x = Some r \<and> row_key row = Inr (final_key r) \<and> run_of W fromiso res t r rr"
proof -
  obtain env k source c rr old where w: "env \<in> W"
    "run_scenario ((ce_run env k)\<lparr>rv_source := source\<rparr>) (attempt_options env k c) = Inr rr" "rr_ok rr"
    and key: "row_key row = Inr (condition_key c)"
    and row: "dget row ''run_id'' = Some (rr_run_id rr)" "dget row ''result_path'' = Some (''raw/'' @ rr_run_id rr)"
    and f: "dget t (''raw/'' @ rr_run_id rr @ ''/metrics.json'') = Some (Summary (rr_metrics rr))"
    "dget t (''metadata/'' @ rr_run_id rr @ ''.json'') = Some (Metadata (rr_metadata rr) [] True)"
    "dget t (''raw/'' @ rr_run_id rr @ ''/decisions.jsonl'') = Some (Lines (old @ map (stamped rr) (rr_decisions rr)))"
    using assms(1) unfolding on_disk_def raw_file_def by auto
  from key obtain digits where items: "dget row ''scenario'' = Some (scn_scenario_id (cn_scenario c))"
    "dget row ''strategy'' = Some (cn_strategy c)" "dget row ''seed'' = Some digits"
    "int_of_text digits = Inr (cn_seed c)" "dget row ''condition'' = Some (condition_label c)"
    by (auto simp: row_key_def row_item_def condition_key_def and_then_Inr_iff split: option.splits)
  obtain r covered where r: "x = Some r" "fr_run_id r = rr_run_id rr" "fr_scenario r = scn_scenario_id (cn_scenario c)"
    "fr_strategy r = cn_strategy c" "fr_seed r = cn_seed c" "fr_condition r = condition_label c"
    "fr_confusion r = confusion_dict (rsu_confusion_raw (rr_metrics rr))"
    "fr_actions r = rsu_policy_action_distribution (rr_metrics rr)" "fr_metadata r = Some (rr_metadata rr)"
    and metrics: "fr_metrics r = run_metrics (rr_metrics rr) (res (''raw/'' @ rr_run_id rr)) covered"
    and covered: "scenario_span_seconds fromiso (Some (Lines (old @ map (stamped rr) (rr_decisions rr)))) = Inr covered"
    using assms(2,3) row f items by (auto simp: load_run_def row_item_def and_then_Inr_iff Let_def split: option.splits)
  have k: "final_key r = condition_key c" using r by (simp add: final_key_def condition_key_def)
  have opt: "ro_scenario (attempt_options env k c) = attempt_scenario c" by (simp add: attempt_options_def Let_def)
  note mm = metrics_measured [OF w(2,3) metrics, unfolded opt]
  have "metric_of r ''scenario_span_s'' = Some (span_of (List.map_filter (row_stamp fromiso) (old @ rr_decisions rr)))"
    using mm(4) span_of_lines [OF covered] stamped_stamps [OF run_dated [OF w(2)], where rr = rr] by (simp add: map_filter_append)
  with f(3) have span: "\<exists>old. dget t (raw_file (rr_run_id rr) ''decisions.jsonl'') =
        Some (Lines (old @ map (stamped rr) (rr_decisions rr)))
      \<and> metric_of r ''scenario_span_s'' = Some (span_of (List.map_filter (row_stamp fromiso) (old @ rr_decisions rr)))"
    by (auto simp: raw_file_def)
  have "run_of W fromiso res t r rr"
    unfolding run_of_def
    using w k mm(1-3) span r(2,7-9) by (auto intro!: bexI [of _ env] exI [of _ k] exI [of _ source] exI [of _ c])
  with key k r(1) show ?thesis by auto
qed

lemma load_rows_completed:
  assumes "load_rows fromiso res t rows = Inr runs" "completed rows = Inr ks" "evidenced W t rows"
  shows "map final_key runs = ks \<and> (\<forall>r \<in> set runs. \<exists>rr. run_of W fromiso res t r rr)"
  using assms
proof (induction rows arbitrary: runs ks)
  case (Cons row rows)
  from Cons.prems(1) obtain x rs where l: "load_run fromiso res t row = Inr x" "load_rows fromiso res t rows = Inr rs"
    "runs = (case x of None \<Rightarrow> rs | Some r \<Rightarrow> r # rs)"
    by (auto simp: and_then_Inr_iff)
  have ev: "evidenced W t rows" using Cons.prems(3) by (simp add: evidenced_def)
  show ?case
  proof (cases "dget row ''status'' = Some STATUS_VALID")
    case True
    then have "on_disk W t row" using Cons.prems(3) by (simp add: evidenced_def)
    from load_run_valid [OF this True l(1)] obtain r rr where r: "x = Some r" "row_key row = Inr (final_key r)" "run_of W fromiso res t r rr"
      by blast
    from Cons.prems(2) True r(2) obtain ks' where ks: "completed rows = Inr ks'" "ks = final_key r # ks'"
      by (auto simp: and_then_Inr_iff)
    from Cons.IH [OF l(2) ks(1) ev] show ?thesis using l(3) r ks by auto
  next
    case False
    then have "x = None" using l(1) by (auto simp: load_run_def row_item_def split: option.splits if_splits)
    moreover have "completed rows = Inr ks" using Cons.prems(2) False by simp
    ultimately show ?thesis using Cons.IH [OF l(2) _ ev] l(3) by simp
  qed
qed simp

text \<open>An instant that was written can be read back, as \<open>datetime.fromisoformat\<close> documents of \<open>isoformat\<close>.\<close>

definition reads_instants :: "(string \<Rightarrow> instant option) \<Rightarrow> bool" where
  "reads_instants fromiso \<longleftrightarrow> (\<forall>t. fromiso (isoformat t) \<noteq> None)"

lemma row_moments_total:
  "reads_instants fromiso \<Longrightarrow> list_all dated rows \<Longrightarrow> \<exists>ts. row_moments fromiso rows = Inr ts"
proof (induction rows)
  case (Cons r rows)
  from Cons.prems(2) obtain t where t: "dget r ''at'' = Some (jstr (isoformat t))" by (auto simp: dated_def)
  obtain t' where "fromiso (isoformat t) = Some t'" using Cons.prems(1) by (auto simp: reads_instants_def)
  then have "\<exists>m. row_moment fromiso r = Inr m" by (simp add: row_moment_def t)
  with Cons show ?case by auto
qed simp

lemma span_total:
  assumes "reads_instants fromiso" "dated_file f"
  shows "\<exists>s. scenario_span_seconds fromiso f = Inr s"
proof -
  have "f = None \<or> (\<exists>rows. f = Some (Lines rows) \<and> list_all dated rows)"
    using assms(2) by (auto simp: dated_file_def split: option.splits file_content.splits)
  then show ?thesis
  proof (elim disjE exE conjE)
    fix rows assume f: "f = Some (Lines rows)" "list_all dated rows"
    from row_moments_total [OF assms(1) f(2)] obtain ts where "row_moments fromiso rows = Inr ts" by blast
    then show ?thesis by (simp add: scenario_span_seconds_def f(1))
  qed (simp add: scenario_span_seconds_def)
qed

lemma load_run_total:
  assumes "reads_instants fromiso" "dated_tree t" "dget row ''status'' \<noteq> None"
    and "dget row ''status'' = Some STATUS_VALID \<longrightarrow> on_disk W t row \<and> dget row ''campaign'' \<noteq> None"
  shows "\<exists>x. load_run fromiso res t row = Inr x"
proof (cases "dget row ''status'' = Some STATUS_VALID")
  case False
  with assms(3) show ?thesis by (auto simp: load_run_def row_item_def)
next
  case True
  with assms(4) have o: "on_disk W t row" and "dget row ''campaign'' \<noteq> None" by auto
  from this(2) obtain campaign where campaign: "dget row ''campaign'' = Some campaign" by blast
  from o obtain c and rr :: run_result where key: "row_key row = Inr (condition_key c)"
    and row: "dget row ''run_id'' = Some (rr_run_id rr)" "dget row ''result_path'' = Some (''raw/'' @ rr_run_id rr)"
    and f: "dget t (raw_file (rr_run_id rr) ''metrics.json'') = Some (Summary (rr_metrics rr))"
    unfolding on_disk_def by blast
  from key obtain digits where items: "dget row ''scenario'' = Some (scn_scenario_id (cn_scenario c))"
    "dget row ''strategy'' = Some (cn_strategy c)" "dget row ''seed'' = Some digits"
    "int_of_text digits = Inr (cn_seed c)" "dget row ''condition'' = Some (condition_label c)"
    by (auto simp: row_key_def row_item_def condition_key_def and_then_Inr_iff split: option.splits)
  have "dated_file (dget t (raw_file (rr_run_id rr) ''decisions.jsonl''))"
    using assms(2) by (simp add: dated_tree_def)
  from span_total [OF assms(1) this] obtain s where
    "scenario_span_seconds fromiso (dget t (raw_file (rr_run_id rr) ''decisions.jsonl'')) = Inr s" by blast
  then show ?thesis
    using True row campaign items f by (simp add: load_run_def row_item_def raw_file_def Let_def)
qed

text \<open>What is loaded after any history of the campaign.\<close>

lemma loaded_runs:
  assumes "history_ok W (Some stored, t)" "load_final_runs fromiso res (Some stored, t) = Inr runs"
  shows "completed (lg_rows (load_ledger (Some stored))) = Inr (map final_key runs)"
    "distinct (map final_key runs)" "r \<in> set runs \<Longrightarrow> \<exists>rr. run_of W fromiso res t r rr"
proof -
  obtain ks where ks: "completed (dict_reader stored) = Inr ks" "distinct ks" "evidenced W t (dict_reader stored)"
    using assms(1) by (auto simp: history_ok_def Let_def load_ledger_def)
  have l: "load_rows fromiso res t (dict_reader stored) = Inr runs"
    using assms(2) by (simp add: load_final_runs_def)
  from load_rows_completed [OF l ks(1,3)] ks
  show "completed (lg_rows (load_ledger (Some stored))) = Inr (map final_key runs)"
    "distinct (map final_key runs)" "r \<in> set runs \<Longrightarrow> \<exists>rr. run_of W fromiso res t r rr"
    by (auto simp: load_ledger_def)
qed

lemma load_rows_total:
  assumes "reads_instants fromiso" "dated_tree t" "evidenced W t rows" "\<forall>row \<in> set rows. has_fields LEDGER_FIELDS row"
  shows "\<exists>runs. load_rows fromiso res t rows = Inr runs"
  using assms(3,4)
proof (induction rows)
  case (Cons row rows)
  have k: "dget row k \<noteq> None" if "k \<in> set LEDGER_FIELDS" for k
    using Cons.prems(2) that by (simp add: has_fields_def map_of_eq_None_iff flip: set_map)
  have "dget row ''status'' \<noteq> None" "dget row ''campaign'' \<noteq> None"
    by (rule k, simp add: LEDGER_FIELDS_def)+
  then obtain x where "load_run fromiso res t row = Inr x"
    using load_run_total [OF assms(1,2)] Cons.prems(1) by (metis evidenced_def list.set_intros(1))
  moreover have "evidenced W t rows" using Cons.prems(1) by (simp add: evidenced_def)
  ultimately show ?case using Cons by auto
qed simp

lemma history_loads:
  assumes "history_ok W (Some stored, t)" "reads_instants fromiso"
  shows "\<exists>runs. load_final_runs fromiso res (Some stored, t) = Inr runs"
proof -
  have "evidenced W t (dict_reader stored)" "dated_tree t" "\<forall>row \<in> set (dict_reader stored). has_fields LEDGER_FIELDS row"
    using assms(1) by (auto simp: history_ok_def Let_def load_ledger_def ledger_kept_def)
  from load_rows_total [OF assms(2) this(2,1,3)] show ?thesis by (simp add: load_final_runs_def)
qed

end
