(* ===== verification/Findings_Facts.thy ===== *)
theory Findings_Facts
  imports Final_Facts
begin

text \<open>
  What becomes a finding: the statistics of a campaign always yield findings and non-findings, every
  comparison is in one of the two, and what is reported as a finding is significant.
\<close>

section \<open>Loops that may raise\<close>

lemma results_from:
  "gather_results f xs = Inr ys \<Longrightarrow> y \<in> set ys \<Longrightarrow> \<exists>x \<in> set xs. f x = Inr (Some y)"
  by (induction xs arbitrary: ys) (auto simp: and_then_Inr_iff split: option.splits)

lemma results_total:
  "\<forall>x \<in> set xs. \<exists>y. f x = Inr y \<Longrightarrow> \<exists>ys. gather_results f xs = Inr ys"
  by (induction xs) (auto simp: and_then_Inr_iff)

lemma results_all:
  "gather_results f xs = Inr ys \<Longrightarrow> x \<in> set xs \<Longrightarrow> f x = Inr (Some y) \<Longrightarrow> y \<in> set ys"
  by (induction xs arbitrary: ys) (auto simp: and_then_Inr_iff split: option.splits)

section \<open>Entries of the pairwise tables\<close>

text \<open>A key of a pair of conditions, no McNemar test, and the verdict of the adjusted p-value.\<close>

definition pair_entry_ok :: "string list \<Rightarrow> string \<times> pair_entry \<Rightarrow> bool" where
  "pair_entry_ok conditions kv \<longleftrightarrow>
     fst kv \<in> pair_key ` set (condition_pairs conditions) \<and> (\<forall>b c p. pe_test (snd kv) \<noteq> Mcnemar b c p)
     \<and> (\<forall>v b. pe_holm (snd kv) = Some (v, b) \<longrightarrow> b = (v < ALPHA))"

lemma set_dset: "x \<in> set (dset k v d) \<Longrightarrow> x = (k, v) \<or> x \<in> set d"
  by (induction d) (auto split: if_splits)

lemma dget_mem: "dget d k = Some v \<Longrightarrow> (k, v) \<in> set d"
  by (rule map_of_SomeD)

lemma wilcoxon_table:
  "\<exists>test. snd (wilcoxon_pair sp rg samples fs x) = dset (pair_key fs) \<lparr>pe_test = test, pe_holm = None\<rparr> (snd x)
     \<and> (\<forall>b c p. test \<noteq> Mcnemar b c p)"
proof -
  obtain raw entries where x: "x = (raw, entries)" by (cases x)
  show ?thesis
    by (cases "sp_wilcoxon sp (series_of samples (fst fs)) (series_of samples (snd fs))")
      (auto simp: wilcoxon_pair_def Let_def x split: prod.split)
qed

lemma wilcoxon_entry_ok:
  assumes "fs \<in> set (condition_pairs conditions)" "\<forall>kv \<in> set (snd x). pair_entry_ok conditions kv"
  shows "\<forall>kv \<in> set (snd (wilcoxon_pair sp rg samples fs x)). pair_entry_ok conditions kv"
proof -
  obtain test where t: "snd (wilcoxon_pair sp rg samples fs x) =
      dset (pair_key fs) \<lparr>pe_test = test, pe_holm = None\<rparr> (snd x)" "\<forall>b c p. test \<noteq> Mcnemar b c p"
    using wilcoxon_table by metis
  have "pair_entry_ok conditions (pair_key fs, \<lparr>pe_test = test, pe_holm = None\<rparr>)"
    using assms(1) t(2) by (simp add: pair_entry_ok_def)
  then show ?thesis unfolding t(1) using assms(2) set_dset by fast
qed

lemma wilcoxon_entries_ok:
  assumes "set ps \<subseteq> set (condition_pairs conditions)" "\<forall>kv \<in> set (snd x). pair_entry_ok conditions kv"
  shows "\<forall>kv \<in> set (snd (fold (wilcoxon_pair sp rg samples) ps x)). pair_entry_ok conditions kv"
  using assms
proof (induction ps arbitrary: x)
  case (Cons fs ps)
  from Cons.prems have "fs \<in> set (condition_pairs conditions)" by simp
  from Cons.IH [OF _ wilcoxon_entry_ok [OF this Cons.prems(2)]] Cons.prems(1) show ?case by simp
qed simp

lemma mark_entry_ok:
  assumes "\<forall>kv \<in> set t. pair_entry_ok conditions kv"
  shows "\<forall>kv \<in> set (mark_holm p t). pair_entry_ok conditions kv"
proof (cases "dget t (fst p)")
  case (Some e)
  then have "pair_entry_ok conditions (fst p, e)" using assms dget_mem by fast
  then have ok: "pair_entry_ok conditions (fst p, e\<lparr>pe_holm := Some (snd p, snd p < ALPHA)\<rparr>)"
    by (simp add: pair_entry_ok_def)
  have "mark_holm p t = dset (fst p) (e\<lparr>pe_holm := Some (snd p, snd p < ALPHA)\<rparr>) t"
    using Some by (simp add: mark_holm_def)
  with ok assms set_dset show ?thesis by fastforce
qed (use assms in \<open>simp add: mark_holm_def\<close>)

lemma mark_entries_ok:
  assumes "\<forall>kv \<in> set t. pair_entry_ok conditions kv"
  shows "\<forall>kv \<in> set (fold mark_holm ps t). pair_entry_ok conditions kv"
  using assms
proof (induction ps arbitrary: t)
  case (Cons p ps)
  from Cons.IH [OF mark_entry_ok [OF Cons.prems]] show ?case by simp
qed simp

lemma significant_pD: "significant_p p \<Longrightarrow> \<exists>v. p = Some v \<and> v < ALPHA"
  by (cases p) (simp_all add: significant_p_def)

lemma compare_significant:
  assumes "compare_three_paired sp rg c = Inr r" "cres_omnibus r = Omnibus stat df p True"
  shows "significant_p p" "cres_pairwise r = Some (marked (fold (wilcoxon_pair sp rg
    (aligned (cmp_samples c) (cmp_conditions c))) (condition_pairs (cmp_conditions c)) ([], [])))"
  using assms by (auto simp: compare_three_paired_def Let_def split: if_splits sum.splits)

lemma compare_table_ok:
  assumes "compare_three_paired sp rg c = Inr r" "cres_omnibus r = Omnibus stat df p True" "cres_pairwise r = Some t"
  shows "\<forall>kv \<in> set t. pair_entry_ok (cmp_conditions c) kv"
proof -
  let ?x = "fold (wilcoxon_pair sp rg (aligned (cmp_samples c) (cmp_conditions c)))
    (condition_pairs (cmp_conditions c)) ([], [])"
  have t: "t = fold mark_holm (holm (fst ?x)) (snd ?x)"
    using compare_significant(2) [OF assms(1,2)] assms(3) by (simp add: marked_def)
  have "\<forall>kv \<in> set (snd ?x). pair_entry_ok (cmp_conditions c) kv"
    by (rule wilcoxon_entries_ok) simp_all
  from mark_entries_ok [OF this] show ?thesis unfolding t .
qed

lemma cochran_significant:
  assumes "bres_omnibus (cochran_q sp conditions outcomes) = Omnibus stat df p True"
  shows "significant_p p"
  using assms by (auto simp: cochran_q_def Let_def split: if_splits)

lemma primary_pairs:
  "distinct (map pair_key (condition_pairs PRIMARY))" "condition_pairs PRIMARY \<noteq> []"
  "k \<in> pair_key ` set (condition_pairs PRIMARY) \<Longrightarrow> \<exists>fs. split_pair k = Inr fs"
proof -
  show "distinct (map pair_key (condition_pairs PRIMARY))" "condition_pairs PRIMARY \<noteq> []"
    by (simp_all add: PRIMARY_def pair_key_def)
  have "list_all (\<lambda>k. case split_pair k of Inr _ \<Rightarrow> True | Inl _ \<Rightarrow> False) (map pair_key (condition_pairs PRIMARY))"
    by code_simp
  then show "k \<in> pair_key ` set (condition_pairs PRIMARY) \<Longrightarrow> \<exists>fs. split_pair k = Inr fs"
    by (cases "split_pair k") (auto simp: list_all_iff)
qed

section \<open>Where a continuous entry comes from\<close>

definition compared :: "scipy \<Rightarrow> 'g rng \<Rightarrow> continuous \<Rightarrow> bool" where
  "compared sp rg c \<longleftrightarrow>
     (\<exists>cmp. cmp_conditions cmp = PRIMARY \<and> compare_three_paired sp rg cmp = Inr (cont_result c))"

lemma continuous_entry_from:
  assumes "continuous_entry sp rg runs spec scenario = Inr (Some c)"
  shows "compared sp rg c \<or> (\<exists>why. cres_omnibus (cont_result c) = No_omnibus why)"
proof -
  obtain dimension metric label limit where spec: "spec = (dimension, metric, label, limit)" by (cases spec)
  define series where
    "series = paired_series runs scenario metric PRIMARY (condition_of_scenario scenario) ''primary''"
  show ?thesis
  proof (cases "series_of series (hd PRIMARY) = []")
    case True
    then show ?thesis using assms
      by (auto simp: continuous_entry_def spec Let_def unpaired_entry_def simp flip: series_def split: if_splits)
  next
    case False
    then have "compare_three_paired sp rg (primary_comparison dimension metric label scenario series) = Inr (cont_result c)"
      using assms by (auto simp: continuous_entry_def spec Let_def and_then_Inr_iff simp flip: series_def split: if_splits)
    moreover have "cmp_conditions (primary_comparison dimension metric label scenario series) = PRIMARY"
      by (simp add: primary_comparison_def)
    ultimately show ?thesis unfolding compared_def by blast
  qed
qed

lemma statistics_from:
  assumes "build_statistics sp rg runs = Inr st"
  shows "c \<in> set (fst_continuous st) \<Longrightarrow> compared sp rg c \<or> (\<exists>why. cres_omnibus (cont_result c) = No_omnibus why)"
    "fst_security st = map (security_outcome sp runs) ADVERSARIAL_SCENARIOS"
proof -
  from assms obtain cs where cs: "continuous_comparisons sp rg runs = Inr cs" "fst_continuous st = cs"
    "fst_security st = map (security_outcome sp runs) ADVERSARIAL_SCENARIOS"
    by (auto simp: build_statistics_def and_then_Inr_iff)
  from cs(3) show "fst_security st = map (security_outcome sp runs) ADVERSARIAL_SCENARIOS" .
  assume "c \<in> set (fst_continuous st)"
  from results_from [OF cs(1) [unfolded continuous_comparisons_def] this [unfolded cs(2)]]
  obtain spec scenario where "continuous_entry sp rg runs spec scenario = Inr (Some c)" by auto
  then show "compared sp rg c \<or> (\<exists>why. cres_omnibus (cont_result c) = No_omnibus why)"
    by (rule continuous_entry_from)
qed

section \<open>Findings\<close>

definition backed :: "finding \<Rightarrow> bool" where
  "backed f \<longleftrightarrow>
     fd_dimension f = ''P6'' \<and> fd_test f = ''none; descriptive only''
     \<or> (\<exists>p. fd_omnibus_p_value f = Some p \<and> p < ALPHA
         \<and> (fd_pair f \<noteq> None \<longrightarrow> (\<exists>v. fd_p_value_holm f = Some v \<and> v < ALPHA)))"

definition about :: "continuous \<Rightarrow> finding \<Rightarrow> bool" where
  "about c f \<longleftrightarrow> fd_metric f = cres_metric (cont_result c) \<and> fd_scenario f = cres_scenario (cont_result c)
     \<and> fd_dimension f = cont_dimension c"

lemma continuous_record_fields [simp]:
  "fd_metric (continuous_record c test) = cres_metric (cont_result c)"
  "fd_scenario (continuous_record c test) = cres_scenario (cont_result c)"
  "fd_dimension (continuous_record c test) = cont_dimension c"
  by (simp_all add: continuous_record_def new_finding_def Let_def)

lemma pair_contributes:
  assumes "pair_entry_ok PRIMARY kv" "p = Some v" "v < ALPHA"
  shows "\<exists>x. pair_contribution c p kv = Inr x \<and> about c (snd x) \<and> (fst x \<longrightarrow> backed (snd x))"
proof -
  obtain k e where kv: "kv = (k, e)" by (cases kv)
  from assms(1) primary_pairs(3) [of k] obtain first second where sp: "split_pair k = Inr (first, second)"
    by (auto simp: pair_entry_ok_def kv)
  show ?thesis
  proof (cases "pe_test e")
    case (Untested reason)
    then show ?thesis by (simp add: pair_contribution_def kv sp about_def)
  next
    case (Wilcoxon w wp effect interval)
    show ?thesis
    proof (cases "pe_holm e")
      case None
      then show ?thesis by (simp add: pair_contribution_def kv sp Wilcoxon Let_def about_def)
    next
      case (Some h)
      obtain hp b where h: "h = (hp, b)" by (cases h)
      have "b = (hp < ALPHA)" using assms(1) Some by (simp add: pair_entry_ok_def kv h)
      then show ?thesis using assms(2,3)
        by (simp add: pair_contribution_def kv sp Wilcoxon Some h Let_def about_def backed_def)
    qed
  next
    case (Mcnemar b c p)
    then show ?thesis using assms(1) by (simp add: pair_entry_ok_def kv)
  qed
qed

lemma continuous_contributes:
  assumes "compared sp rg c \<or> (\<exists>why. cres_omnibus (cont_result c) = No_omnibus why)"
  shows "\<exists>xs. continuous_contributions c = Inr xs \<and> xs \<noteq> []
    \<and> (\<forall>x \<in> set xs. about c (snd x) \<and> (fst x \<longrightarrow> backed (snd x)))"
proof (cases "cres_omnibus (cont_result c)")
  case (No_omnibus why)
  then show ?thesis by (simp add: continuous_contributions_def about_def)
next
  case (Omnibus stat df p b)
  then obtain cmp where cmp: "cmp_conditions cmp = PRIMARY" "compare_three_paired sp rg cmp = Inr (cont_result c)"
    using assms by (auto simp: compared_def)
  show ?thesis
  proof (cases b)
    case False
    with Omnibus show ?thesis by (simp add: continuous_contributions_def about_def)
  next
    case True
    then have om: "cres_omnibus (cont_result c) = Omnibus stat df p True" using Omnibus by simp
    from significant_pD [OF compare_significant(1) [OF cmp(2) om]] obtain v where v: "p = Some v" "v < ALPHA" by blast
    from compare_entries [OF cmp(2) om] primary_pairs(1) obtain t where t: "cres_pairwise (cont_result c) = Some t"
      "\<forall>fs \<in> set (condition_pairs PRIMARY). \<exists>e. dget t (pair_key fs) = Some e"
      unfolding cmp(1) by blast
    have ok: "\<forall>kv \<in> set t. pair_entry_ok PRIMARY kv" using compare_table_ok [OF cmp(2) om t(1)] cmp(1) by simp
    have some: "\<exists>x. pair_contribution c p kv = Inr x \<and> about c (snd x) \<and> (fst x \<longrightarrow> backed (snd x))"
      if "kv \<in> set t" for kv using pair_contributes [OF _ v] ok that by blast
    let ?f = "\<lambda>kv. and_then (pair_contribution c p kv) (\<lambda>x. Inr (Some x))"
    have one: "\<exists>x. ?f kv = Inr (Some x) \<and> about c (snd x) \<and> (fst x \<longrightarrow> backed (snd x))" if "kv \<in> set t" for kv
    proof -
      from some [OF that] obtain x where "pair_contribution c p kv = Inr x" "about c (snd x)" "fst x \<longrightarrow> backed (snd x)"
        by blast
      then show ?thesis by (intro exI [of _ x]) simp
    qed
    then have "\<forall>kv \<in> set t. \<exists>y. ?f kv = Inr y" by blast
    from results_total [OF this] obtain xs where xs: "gather_results ?f t = Inr xs" by blast
    have each: "about c (snd x) \<and> (fst x \<longrightarrow> backed (snd x))" if "x \<in> set xs" for x
    proof -
      from results_from [OF xs that] obtain kv where kv: "kv \<in> set t" "?f kv = Inr (Some x)" by blast
      from one [OF kv(1)] obtain x' where "?f kv = Inr (Some x')" "about c (snd x')" "fst x' \<longrightarrow> backed (snd x')" by blast
      with kv(2) show ?thesis by simp
    qed
    have "t \<noteq> []" using t(2) primary_pairs(2) by (cases "condition_pairs PRIMARY") auto
    then obtain kv where "kv \<in> set t" by (cases t) auto
    from one [OF this] obtain x where "?f kv = Inr (Some x)" by blast
    from results_all [OF xs \<open>kv \<in> set t\<close> this] have "xs \<noteq> []" by auto
    have "continuous_contributions c = Inr xs" using xs by (simp add: continuous_contributions_def om t(1))
    with each \<open>xs \<noteq> []\<close> show ?thesis by blast
  qed
qed

lemma security_contributes:
  "fd_dimension (snd (security_contribution entry)) = ''P1''"
  "fd_scenario (snd (security_contribution entry)) = sec_scenario entry"
  by (simp_all add: security_contribution_def Let_def new_finding_def split: omnibus.split bool.split)

lemma security_omnibus:
  assumes "fst (security_contribution entry)"
  obtains stat df p where "bres_omnibus (sec_false_acceptance entry) = Omnibus stat df p True"
  using assms that by (auto simp: security_contribution_def Let_def split: omnibus.splits bool.splits)

lemma security_backed:
  assumes "fst (security_contribution (security_outcome sp runs scenario))"
  shows "backed (snd (security_contribution (security_outcome sp runs scenario)))"
proof -
  define entry where "entry = security_outcome sp runs scenario"
  from assms obtain stat df p where om: "bres_omnibus (sec_false_acceptance entry) = Omnibus stat df p True"
    unfolding entry_def by (rule security_omnibus)
  obtain fa where "sec_false_acceptance entry = cochran_q sp PRIMARY fa"
    by (simp add: entry_def security_outcome_def Let_def)
  with om have "significant_p p" using cochran_significant by metis
  from significant_pD [OF this] obtain v where "p = Some v" "v < ALPHA" by blast
  then show ?thesis
    unfolding entry_def [symmetric] by (simp add: security_contribution_def Let_def om backed_def new_finding_def)
qed

text \<open>Findings are always built; what is one is backed by its tests; and nothing that was compared is dropped.\<close>

lemma findings_built:
  assumes "build_statistics sp rg runs = Inr st"
  shows "\<exists>fs nfs. build_findings st = Inr (fs, nfs) \<and> (\<forall>f \<in> set fs. backed f)
    \<and> (\<forall>c \<in> set (fst_continuous st). \<exists>f \<in> set fs \<union> set nfs. about c f)
    \<and> (\<forall>scenario \<in> set ADVERSARIAL_SCENARIOS. \<exists>f \<in> set fs \<union> set nfs. fd_dimension f = ''P1'' \<and> fd_scenario f = scenario)"
proof -
  let ?f = "\<lambda>c. and_then (continuous_contributions c) (\<lambda>xs. Inr (Some xs))"
  have each: "\<exists>xs. continuous_contributions c = Inr xs \<and> xs \<noteq> []
      \<and> (\<forall>x \<in> set xs. about c (snd x) \<and> (fst x \<longrightarrow> backed (snd x)))" if "c \<in> set (fst_continuous st)" for c
    using continuous_contributes [OF statistics_from(1) [OF assms that]] .
  have "\<exists>y. ?f c = Inr y" if c: "c \<in> set (fst_continuous st)" for c
  proof -
    from each [OF c] obtain xs where "continuous_contributions c = Inr xs" by blast
    then show ?thesis by simp
  qed
  then have "\<forall>c \<in> set (fst_continuous st). \<exists>y. ?f c = Inr y" by blast
  from results_total [OF this] obtain xss where xss: "gather_results ?f (fst_continuous st) = Inr xss" by blast
  let ?sec = "map security_contribution (fst_security st)"
  let ?xs = "?sec @ concat xss @ [(True, scalability_finding (fst_scalability st))]"
  have c: "contributions st = Inr ?xs" by (simp add: contributions_def xss)
  let ?fs = "map snd (filter fst ?xs)" and ?nfs = "map snd (filter (\<lambda>x. \<not> fst x) ?xs)"
  have built: "build_findings st = Inr (?fs, ?nfs)" by (simp add: build_findings_def c)
  have both: "snd ` set ?xs = set ?fs \<union> set ?nfs" by force
  have bk: "backed (snd x)" if "x \<in> set ?xs" "fst x" for x
  proof -
    from that(1) consider "x \<in> set ?sec" | xs where "xs \<in> set xss" "x \<in> set xs"
      | "x = (True, scalability_finding (fst_scalability st))" by auto
    then show ?thesis
    proof cases
      case 1
      then show ?thesis using security_backed that(2) by (auto simp: statistics_from(2) [OF assms])
    next
      case 2
      from results_from [OF xss 2(1)] obtain c where "c \<in> set (fst_continuous st)" "continuous_contributions c = Inr xs"
        by (auto simp: and_then_Inr_iff)
      with each [of c] 2(2) that(2) show ?thesis by auto
    next
      case 3
      then show ?thesis by (simp add: backed_def scalability_finding_def new_finding_def)
    qed
  qed
  have con: "\<exists>f \<in> set ?fs \<union> set ?nfs. about c f" if m: "c \<in> set (fst_continuous st)" for c
  proof -
    from each [OF m] obtain xs where xs: "continuous_contributions c = Inr xs" "xs \<noteq> []" "\<forall>x \<in> set xs. about c (snd x)"
      by blast
    have "xs \<in> set xss" by (rule results_all [OF xss m]) (simp add: xs(1))
    moreover obtain x where "x \<in> set xs" using xs(2) by (cases xs) auto
    ultimately have "snd x \<in> snd ` set ?xs" "about c (snd x)" using xs(3) by force+
    then show ?thesis unfolding both by blast
  qed
  have sec: "\<exists>f \<in> set ?fs \<union> set ?nfs. fd_dimension f = ''P1'' \<and> fd_scenario f = scenario"
    if "scenario \<in> set ADVERSARIAL_SCENARIOS" for scenario
  proof -
    let ?x = "security_contribution (security_outcome sp runs scenario)"
    have "?x \<in> set ?sec" using that by (simp add: statistics_from(2) [OF assms])
    then have "snd ?x \<in> set ?fs \<union> set ?nfs" unfolding both [symmetric] by (metis UnCI imageI set_append)
    moreover have "sec_scenario (security_outcome sp runs scenario) = scenario"
      by (simp add: security_outcome_def Let_def)
    ultimately show ?thesis using security_contributes [of "security_outcome sp runs scenario"] by metis
  qed
  have "\<forall>f \<in> set ?fs. backed f" using bk by auto
  with built con sec show ?thesis by blast
qed

section \<open>The statistics are always built\<close>

text \<open>SciPy's Friedman test returns on three or more series of one length, as it documents.\<close>

definition friedman_returns :: "scipy \<Rightarrow> bool" where
  "friedman_returns sp \<longleftrightarrow>
     (\<forall>columns n. 3 \<le> length columns \<and> (\<forall>c \<in> set columns. length c = n) \<longrightarrow> (\<exists>x. sp_friedman sp columns = Inr x))"

lemma aligned_length:
  assumes "c \<in> set conditions"
  shows "length (series_of (aligned d conditions) c) = common_length d conditions"
proof -
  have "common_length d conditions \<le> length (series_of d c)"
    using assms by (auto simp: common_length_def)
  moreover have "series_of (aligned d conditions) c = take (common_length d conditions) (series_of d c)"
    unfolding aligned_def by (subst series_of_def) (simp add: dget_for_conditions assms)
  ultimately show ?thesis by simp
qed

lemma compare_returns:
  assumes "friedman_returns sp" "cmp_conditions c = PRIMARY"
  shows "\<exists>r. compare_three_paired sp rg c = Inr r"
proof -
  let ?columns = "map (series_of (aligned (cmp_samples c) PRIMARY)) PRIMARY"
  have "3 \<le> length ?columns" "\<forall>x \<in> set ?columns. length x = common_length (cmp_samples c) PRIMARY"
    by (simp add: PRIMARY_def) (auto simp: aligned_length)
  with assms(1) obtain x where "sp_friedman sp ?columns = Inr x" unfolding friedman_returns_def by blast
  then show ?thesis by (simp add: compare_three_paired_def Let_def assms(2))
qed

lemma statistics_built:
  assumes "friedman_returns sp"
  shows "\<exists>st. build_statistics sp rg runs = Inr st"
proof -
  have "\<exists>y. continuous_entry sp rg runs spec scenario = Inr y" for spec scenario
  proof -
    obtain dimension metric label limit where spec: "spec = (dimension, metric, label, limit)" by (cases spec)
    let ?c = "primary_comparison dimension metric label scenario
        (paired_series runs scenario metric PRIMARY (condition_of_scenario scenario) ''primary'')"
    have "cmp_conditions ?c = PRIMARY" by (simp add: primary_comparison_def)
    from compare_returns [OF assms this] obtain r where "compare_three_paired sp rg ?c = Inr r" by blast
    then show ?thesis by (simp add: continuous_entry_def spec Let_def)
  qed
  then have "\<forall>x \<in> set xs. \<exists>y. (\<lambda>(spec, scenario). continuous_entry sp rg runs spec scenario) x = Inr y" for xs
    by auto
  from results_total [OF this] obtain cs where "continuous_comparisons sp rg runs = Inr cs"
    unfolding continuous_comparisons_def by blast
  then show ?thesis by (simp add: build_statistics_def)
qed

section \<open>The number of runs is written by hand\<close>

text \<open>Every confusion row says that it sums over 30 runs, whatever runs were loaded.\<close>

lemma confusion_rows_say_thirty: "\<forall>row \<in> set (confusion_rows runs). cfr_runs row = 30"
  by (auto simp: confusion_rows_def confusion_row_of_def split: prod.splits)

end
