(* ===== verification/Sample_Campaign.thy ===== *)
theory Sample_Campaign
  imports Sample_Wire Findings_Facts
begin

text \<open>
  A small campaign on which the hypotheses of the theorems about campaigns and their reports hold: the
  sample experiment under the three strategies with one seed, on a machine that keeps still, and on one
  that is interrupted at the first condition.
\<close>

definition sample_args :: campaign_args where
  "sample_args =
     \<lparr>ca_campaign = ''primary'', ca_seeds = [7], ca_scenarios = [sample_scenario], ca_repetitions = 0,
      ca_scenario = [], ca_run_timeout_s = 900, ca_max_retries = 3, ca_access_source = ''tier1'',
      ca_allow_dirty = False\<rparr>"

definition sample_frozen :: frozen where
  "sample_frozen = \<lparr>fz_git_sha = ''sha'', fz_config_hash = ''hash''\<rparr>"

text \<open>An attempt a microsecond; neither a signal nor a deadline.\<close>

definition sample_campaign_env :: "(string, unit) campaign_env" where
  "sample_campaign_env =
     \<lparr>ce_run = (\<lambda>k. sample_run_env), ce_reader = sample_reader, ce_now = (\<lambda>k n. 0),
      ce_testbed = (\<lambda>k. \<lparr>tb_ue_interfaces = [], tb_sta_interface = [], tb_sta_mac = [], tb_nr_stream = None,
        tb_wlan_stream = None\<rparr>),
      ce_started = (\<lambda>k. int k), ce_str = (\<lambda>e. []), ce_wall = (\<lambda>k. (int k, int k + 1)),
      ce_duration = (\<lambda>k. 1 / 10), ce_signal = (\<lambda>i. False), ce_late = (\<lambda>i. False),
      ce_frozen = (\<lambda>i. Inr (''sha'', ''hash''))\<rparr>"

definition sample_signalled :: "(string, unit) campaign_env" where
  "sample_signalled = sample_campaign_env\<lparr>ce_signal := (\<lambda>i. True)\<rparr>"

lemma sample_conditions:
  "session_conditions sample_args =
     map (\<lambda>s. \<lparr>cn_scenario = sample_scenario, cn_strategy = s, cn_seed = 7, cn_campaign = ''primary'', cn_device_count = None\<rparr>)
       PRIMARY_STRATEGIES"
  by (simp add: session_conditions_def session_scenarios_def session_strategies_def session_seeds_def sample_args_def
      build_conditions_def device_levels_def sample_scenario_def PRIMARY_STRATEGIES_def)

lemma sample_conditions_run: "\<forall>c \<in> set (session_conditions sample_args). runnable_condition c"
proof -
  have "list_all (bounded_event sample_scenario) (scn_event_sequence sample_scenario)" "scn_device_count sample_scenario \<le> 10000"
    by (simp_all add: sample_scenario_def sample_events_def plain_event_def bounded_event_def member_range_def)
  with sample_scenario_checks sample_reach [of "[]"] show ?thesis
    by (auto simp: sample_conditions runnable_condition_def attempt_scenario_def PRIMARY_STRATEGIES_def shipped_strategies_def)
qed

lemma sample_steady: "steady sample_campaign_env sample_args sample_frozen"
  by (simp add: steady_def sample_campaign_env_def sample_args_def sample_frozen_def)

lemma sample_ships: "shipped_runs sample_campaign_env"
  using sample_key by (auto simp: shipped_runs_def sample_campaign_env_def sample_run_env_def)

lemma sample_instants:
  "map (\<lambda>k. pad_left 6 (show_int (int k))) [0, 1, 2] = [''000000'', ''000001'', ''000002'']"
  by (simp add: pad_left_def show_int_def show_nat.simps digit_char_def char_of_def bit_Suc_0_iff)
    (simp add: numeral_eq_Suc)

lemma sample_run_id:
  assumes "k < 3"
  obtains x where "attempt_run_id sample_campaign_env k c = x @ pad_left 6 (show_int (int k)) @ ''Z''"
  using assms that [of "_ @ _"]
  by (force simp: attempt_options_def Let_def make_run_id_def sample_campaign_env_def strftime_compact_def split: prod.split)

lemma sample_fresh:
  "fresh_ids sample_campaign_env (set (session_conditions sample_args)) 0 (length (session_conditions sample_args)) []"
proof -
  have n: "length (session_conditions sample_args) = 3" by (simp add: sample_conditions PRIMARY_STRATEGIES_def)
  have apart: "attempt_run_id sample_campaign_env k c \<noteq> attempt_run_id sample_campaign_env l d"
    if lt: "k < 3" "l < 3" and ne: "k \<noteq> l" for k l c d
  proof
    assume e: "attempt_run_id sample_campaign_env k c = attempt_run_id sample_campaign_env l d"
    from lt have k: "k \<in> {0, 1, 2}" "l \<in> {0, 1, 2}" by auto
    obtain x where x: "attempt_run_id sample_campaign_env k c = x @ pad_left 6 (show_int (int k)) @ ''Z''"
      by (rule sample_run_id [OF lt(1)])
    obtain y where y: "attempt_run_id sample_campaign_env l d = y @ pad_left 6 (show_int (int l)) @ ''Z''"
      by (rule sample_run_id [OF lt(2)])
    from e k ne sample_instants show False unfolding x y by auto
  qed
  show ?thesis unfolding fresh_ids_def n using apart by simp
qed

lemma sample_keys:
  "distinct (map scn_scenario_id (ca_scenarios sample_args))" "distinct (ca_seeds sample_args)"
  by (simp_all add: sample_args_def)

lemma sample_undated: "dated_tree []"
  by (simp add: dated_tree_def dated_file_def)

lemma sample_start: "campaign_history {sample_campaign_env} (None, [])"
  by (rule campaign_history.start) (rule sample_undated)

section \<open>A completed history\<close>

lemma sample_completed:
  "\<exists>x ks. campaign_history {sample_campaign_env} x \<and> completed (lg_rows (load_ledger (fst x))) = Inr ks
     \<and> set (map condition_key (session_conditions sample_args)) \<subseteq> set ks \<and> fst x \<noteq> None"
proof -
  have a: "ca_access_source sample_args = ''tier1''" "0 \<le> ca_max_retries sample_args" by (simp_all add: sample_args_def)
  from campaign_completes_then_idles [OF history_kept [OF sample_start] singletonI sample_steady sample_ships a
      sample_conditions_run sample_fresh]
  obtain new t' ks where m: "campaign_main sample_campaign_env sample_args sample_frozen False (None, []) = (Inr 0, Some new, t')"
    and ks: "completed (lg_rows (load_ledger (Some new))) = Inr ks"
      "set (map condition_key (session_conditions sample_args)) \<subseteq> set ks"
    by blast
  have "campaign_history {sample_campaign_env} (Some new, t')"
    by (rule campaign_history.session [OF sample_start singletonI sample_keys m])
  with ks show ?thesis by (intro exI [of _ "(Some new, t')"] exI [of _ ks]) simp
qed

section \<open>An interrupted session\<close>

lemma sample_start_signalled: "campaign_history {sample_signalled} (None, [])"
  by (rule campaign_history.start) (rule sample_undated)

lemma sample_interrupted:
  "\<exists>x'. campaign_main sample_signalled sample_args sample_frozen False (None, []) = (Inr 1, x')"
proof -
  have loop: "\<exists>st'. campaign_loop sample_signalled args fz i pending st = (Inr None, st')
      \<and> completed (lg_rows (cs_ledger st')) = Inr []" if "completed (lg_rows (cs_ledger st)) = Inr []" for args fz i pending st
    using that
  proof (induction pending arbitrary: i st)
    case (Cons c pending)
    let ?st = "st\<lparr>cs_interrupted := True\<rparr>"
    let ?st1 = "?st\<lparr>cs_ledger := append_row (abort_row fz c (cs_ledger ?st) (ce_wall sample_signalled (cs_attempts ?st)))
      (cs_ledger ?st), cs_attempts := Suc (cs_attempts ?st)\<rparr>"
    have "campaign_loop sample_signalled args fz i (c # pending) st = campaign_loop sample_signalled args fz (Suc i) pending ?st1"
      by (simp add: Let_def sample_signalled_def)
    moreover have "completed (lg_rows (cs_ledger ?st1)) = Inr []" using Cons.prems by (simp add: abort_row_def)
    ultimately show ?case using Cons.IH [of ?st1 "Suc i"] by simp
  qed simp
  let ?st = "start_session (load_ledger None) ([] :: tree)"
  have none: "completed (lg_rows (cs_ledger ?st)) = Inr []" by (simp add: load_ledger_def)
  have ne: "filter (\<lambda>c. condition_key c \<notin> set []) (session_conditions sample_args) = session_conditions sample_args"
    "session_conditions sample_args \<noteq> []"
    by (simp_all add: sample_conditions PRIMARY_STRATEGIES_def)
  obtain st' where st': "campaign_loop sample_signalled sample_args sample_frozen 0 (session_conditions sample_args) ?st = (Inr None, st')"
    "completed (lg_rows (cs_ledger st')) = Inr []"
    using loop [OF none] by blast
  have "\<not> all_valid (session_conditions sample_args) []" using ne(2) by (cases "session_conditions sample_args") (simp_all add: all_valid_def)
  then have "fst (campaign_session sample_signalled sample_args sample_frozen ?st) = Inr 1"
    using none ne st' by (simp add: campaign_session_def Let_def)
  then obtain st1 where "campaign_session sample_signalled sample_args sample_frozen ?st = (Inr 1, st1)"
    by (metis prod.collapse)
  then show ?thesis by (simp add: campaign_main_def)
qed

section \<open>Attempts without a testbed\<close>

text \<open>The live access source raises where nothing of the testbed is there, which counts as infrastructure.\<close>

definition sample_live_args :: campaign_args where
  "sample_live_args = sample_args\<lparr>ca_access_source := ''tier2''\<rparr>"

definition sample_condition :: condition where
  "sample_condition = hd (session_conditions sample_args)"

definition sample_session :: campaign_state where
  "sample_session = start_session (load_ledger None) []"

lemma sample_refused:
  "\<exists>m. execute sample_campaign_env sample_live_args k c t = (Inl (AccessSourceError m), t)"
proof -
  have "tunnel_numbers (netns_interface_addresses [] ''uesimtun'') = Inr []"
    by (simp add: netns_interface_addresses_def)
  then have "\<exists>m. load_live lr now (ce_testbed sample_campaign_env k) new_live_source = Inl (AccessSourceError m)" for lr now
    by (simp add: load_live_def sample_campaign_env_def Let_def sort_key_def)
  then obtain m where "load_live (ce_reader sample_campaign_env) (ce_now sample_campaign_env k)
      (ce_testbed sample_campaign_env k) new_live_source = Inl (AccessSourceError m)" by blast
  then show ?thesis by (simp add: execute_def build_access_source_def sample_live_args_def)
qed

lemma sample_infrastructure: "fst (attempt sample_campaign_env sample_live_args fz c st) = STATUS_INFRA"
proof -
  obtain m where m: "execute sample_campaign_env sample_live_args (cs_attempts st) c (cs_tree st) =
      (Inl (AccessSourceError m), cs_tree st)"
    using sample_refused by blast
  have "str_contains ''AccessSourceError'' (described sample_campaign_env (AccessSourceError m))"
    unfolding str_contains_iff described_def by (rule exI [of _ "[]"]) simp
  then have "fst (classify_failure [described sample_campaign_env (AccessSourceError m)]) = STATUS_INFRA"
    by (simp add: classify_failure_def Let_def INFRASTRUCTURE_MARKERS_def)
  then show ?thesis
    by (cases "classify_failure [described sample_campaign_env (AccessSourceError m)]")
      (simp add: attempt_def Let_def m attempt_outcome_def over_budget_status)
qed

lemma sample_exhausts:
  "\<exists>st'. attempts sample_campaign_env sample_live_args sample_frozen sample_condition (attempt_limit sample_live_args)
     sample_session = (Exhausted, st')"
proof -
  have "fst (attempts sample_campaign_env sample_live_args fz c n st) = Exhausted" for fz c n st
  proof (induction n arbitrary: st)
    case (Suc n)
    obtain status st1 where a: "attempt sample_campaign_env sample_live_args fz c st = (status, st1)" by fastforce
    with sample_infrastructure [of fz c st] have "status = STATUS_INFRA" by simp
    with a Suc show ?case by simp
  qed simp
  then show ?thesis by (metis prod.collapse)
qed

section \<open>What the script reads\<close>

definition sample_script_inputs :: campaign_inputs where
  "sample_script_inputs =
     \<lparr>ci_frozen = Inr (''sha'', ''hash''), ci_dirty = Inr False, ci_seeds = Inr [7], ci_scenarios = Inr [sample_scenario]\<rparr>"

lemma sample_script_inputs_read:
  "ci_frozen sample_script_inputs = Inr (''sha'', ''hash'')" "ci_dirty sample_script_inputs = Inr False"
  "ci_seeds sample_script_inputs = Inr [7]" "and_then (ci_scenarios sample_script_inputs) load_scenarios = Inr [sample_scenario]"
  "with_inputs [7] [sample_scenario] sample_args = sample_args"
  by (simp_all add: sample_script_inputs_def load_scenarios_def sample_scenario_checks with_inputs_def sample_args_def)

lemma sample_script:
  "campaign_script env sample_args sample_script_inputs x = campaign_main env sample_args sample_frozen False x"
  using sample_script_inputs_read by (simp add: campaign_script_def sample_frozen_def)

section \<open>Loaded runs\<close>

definition sample_final_run :: "string \<Rightarrow> int \<Rightarrow> rat \<Rightarrow> final_run" where
  "sample_final_run s seed v =
     \<lparr>fr_run_id = s, fr_scenario = ''E01'', fr_strategy = s, fr_seed = seed, fr_condition = ''default'',
      fr_campaign = ''primary'', fr_device_count = 1, fr_metrics = [(''step_ups'', Some v)], fr_confusion = [],
      fr_actions = [], fr_metadata = None\<rparr>"

definition sample_final_runs :: "final_run list" where
  "sample_final_runs =
     concat (map (\<lambda>s. [sample_final_run s 1 2, sample_final_run s 2 3, sample_final_run s 3 5]) PRIMARY)"

lemma sample_final_mem:
  "r \<in> set sample_final_runs \<longleftrightarrow>
     (\<exists>s \<in> set PRIMARY. r = sample_final_run s 1 2 \<or> r = sample_final_run s 2 3 \<or> r = sample_final_run s 3 5)"
  by (auto simp: sample_final_runs_def)

lemma sample_final_keys:
  "PRIMARY \<noteq> []" "''ca_ztcf'' \<in> set PRIMARY" "distinct (map final_key sample_final_runs)"
  by (simp_all add: PRIMARY_def sample_final_runs_def final_key_def sample_final_run_def)

lemma sample_final_seeds:
  "{seed. \<forall>s \<in> set PRIMARY. \<exists>r \<in> set sample_final_runs. fr_campaign r = ''primary'' \<and> fr_scenario r = ''E01''
      \<and> fr_condition r = ''default'' \<and> fr_seed r = seed \<and> fr_strategy r = s \<and> metric_of r ''step_ups'' \<noteq> None} = {1, 2, 3}"
  using sample_final_keys(2) by (auto simp: Bex_def sample_final_mem sample_final_run_def metric_of_def)

lemma sample_step_ups:
  "(\<exists>r \<in> set sample_final_runs. fr_seed r = seed \<and> fr_strategy r = ''ca_ztcf'' \<and> metric_of r ''step_ups'' = Some v)
     \<longleftrightarrow> seed = 1 \<and> v = 2 \<or> seed = 2 \<and> v = 3 \<or> seed = 3 \<and> v = 5"
  using sample_final_keys(2) by (auto simp: Bex_def sample_final_mem sample_final_run_def metric_of_def)

lemma sample_friedman: "friedman_returns sample_scipy"
  by (simp add: friedman_returns_def sample_scipy_def)

end
