(* ===== verification/Spec2Isabelle.thy ===== *)
theory Spec2Isabelle
  imports Sample_Campaign
begin

text \<open>
  A model of CA-ZTCF, a research prototype of continuous trust for devices that move between a 5G
  (NR) and a WLAN access domain. All source paths are under \<^verbatim>\<open>src/ca_ztcf/\<close> unless said otherwise.

  \<^bold>\<open>The program and its parts.\<close> Collectors turn access-domain events into bindings of an address
  (\<^verbatim>\<open>collectors/base.py\<close>, \<^verbatim>\<open>nr.py\<close>, \<^verbatim>\<open>wlan.py\<close>); the transition collector watches where a device is seen
  and derives the transition context (\<^verbatim>\<open>collectors/transition.py\<close>); devices prove possession of a
  registered key over single-use nonces (\<^verbatim>\<open>identity/\<close>). For a request, a strategy (\<^verbatim>\<open>strategies/\<close>)
  gathers all this, the assembler makes an evidence record of it (\<^verbatim>\<open>evidence/assembler.py\<close>), eleven
  predicates judge the record (\<^verbatim>\<open>evidence/predicates.py\<close>), ordered rules give a trust state
  (\<^verbatim>\<open>trust_engine/engine.py\<close>) and the policy matrix an action, a scope and a lifetime (\<^verbatim>\<open>policy/\<close>). The
  decision is applied at an enforcement point (\<^verbatim>\<open>enforcement/memory_pep.py\<close>) and written to a redacted
  audit log (\<^verbatim>\<open>telemetry/audit.py\<close>). The HTTP routes (\<^verbatim>\<open>api/routes_research.py\<close>) drive it, and an MQTT
  gateway (\<^verbatim>\<open>enforcement/mqtt_gateway.py\<close>) enforces it on the wire (\<^verbatim>\<open>enforcement/mqtt_codec.py\<close>),
  asking the service in process or over HTTP (\<^verbatim>\<open>enforcement/decision_client.py\<close>); a device connects to
  it with the agent of \<^verbatim>\<open>device/agent.py\<close>. The experiments (\<^verbatim>\<open>experiments/\<close>, beside \<^verbatim>\<open>src/\<close>) play declared
  scenarios against the service and score its decisions; a campaign (\<^verbatim>\<open>scripts/run_final_campaign.py\<close>, also
  beside \<^verbatim>\<open>src/\<close>) runs every scenario under every strategy and seed, resuming over many sessions from a
  ledger on disk, and its report (\<^verbatim>\<open>experiments/analysis/\<close>) loads the completed runs, compares them seed by
  seed and says what is a finding.

  \<^bold>\<open>The theories.\<close> Each opens with what it holds; its definitions keep the names of the code.
    \<^item> Prelude: instants (microseconds), insertion-ordered dictionaries as association lists, text, the
      errors of \<^verbatim>\<open>errors.py\<close> as values. Rendering: how instants, numbers and booleans print.
    \<^item> Identity, Base64url, Proof: registry, nonces, verification, proof store.
    \<^item> Bindings, Access\_Collectors, Transition, Counters: the observations and their stores.
    \<^item> Config, Shipped\_Config: settings with their validation; the values under \<^verbatim>\<open>config/\<close>.
    \<^item> Evidence, Assembler, Predicates, Trust\_Engine: from observations to a trust state.
    \<^item> Policy, Enforcement: from a trust state to a decision, and its enforcement.
    \<^item> Strategies, Strategy\_Contracts: the three strategies; the contract they share, as a locale
      interpreted on each of them.
    \<^item> Audit\_Log, App\_State, Service\_Api, Service\_Runs: the audit log, the shared state, the routes, and
      the runs of the service as an inductive step relation with its reachable states.
    \<^item> Mqtt\_Codec, Mqtt\_Codec\_Facts, Mqtt\_Stream: the wire format, its bounds, and the round trips of
      whole packets through the reader of \<^verbatim>\<open>enforcement/mqtt_stream.py\<close>.
    \<^item> Gateway, Gateway\_Facts, Gateway\_Runs: one MQTT connection from its first byte to its end; what
      holds for every decision client; and the runs whose client decides in process, which instantiate
      the locale of decision sources.
    \<^item> Http\_Client: the HTTP decision client and the routes it talks to, again an instance of the locale
      of decision sources. Device\_Agent: the device's side of the wire.
    \<^item> Log\_Patterns, Live\_Collectors: the readers of the logs of a live testbed
      (\<^verbatim>\<open>collectors/nr_open5gs.py\<close>, \<^verbatim>\<open>wlan_hostapd.py\<close>, \<^verbatim>\<open>wlan_hwsim.py\<close>).
    \<^item> Scenario, Run\_Metrics, Access\_Sources, Scenario\_Runner: the experiments' scenarios, metrics, access
      sources and controller (\<^verbatim>\<open>experiments/schemas/scenario.py\<close>, \<^verbatim>\<open>experiments/runner/\<close>). Scenario\_Runs: a
      run as a sequence of primitive steps and what every such sequence keeps. Run\_Ledger, Run\_Labels,
      Run\_Completion, Run\_Results: the books of a run, its declared labels, that it completes, its output.
    \<^item> Campaign\_Statistics, Statistics\_Facts: the statistical plan
      (\<^verbatim>\<open>experiments/analysis/statistics.py\<close>) and its correctness.
    \<^item> Csv\_Text: the standard library's \<^verbatim>\<open>csv\<close>, for the ledger's file. Campaign: the matrix, the ledger, an
      attempt, the retries, a session and its exit code. Campaign\_Facts: the ledger and its file, and the
      locale of what every step of a session keeps. Campaign\_Sessions, Campaign\_History: what a session
      records; histories of sessions as an inductive predicate, what they keep, and a campaign that
      completes.
    \<^item> Final\_Report, Final\_Findings: loading, pairing, the statistics of a campaign and its findings
      (\<^verbatim>\<open>experiments/analysis/final_report.py\<close>, \<^verbatim>\<open>final_findings.py\<close>). Final\_Facts, Findings\_Facts: what is
      loaded, what is paired, and what a finding rests on.
    \<^item> Sample\_Run, Sample\_Gateway, Sample\_Scenario, Sample\_Wire, Sample\_Campaign: a small deployment, a
      connection to it, a run, a remote arrangement and a campaign, on which the hypotheses of the theorems
      are shown to hold.

  \<^bold>\<open>How the code is modelled.\<close> An object with mutable fields is a record, its method a function from
  the state to a result and the new state; an exception is the left side of a sum, so each raise is a
  branch. A clock read, a random token or a uuid is an argument, in the order the code draws them (the
  records of draws), so every theorem holds for all of them; the clock reads that one operation makes in a
  row (\<open>check\<close>, \<open>verify\<close>) are one instant. Instants are integers in microseconds, as Python's datetimes
  are exact at that grain; ages printed as seconds use milliseconds, and a gap is cut to milliseconds
  exactly where the code goes through a float. An instant stands for a datetime with a time zone within the
  range of \<open>datetime\<close>: the naive instants that a request may carry, which raise a TypeError when they are
  compared, and sums of instants and lifetimes past the year 9999 are outside the model, except that the
  frozen clock of a run raises past the last datetime, as the code's does. Letters change case in ASCII
  only, the numbers of JSON are integers, and a PEM text of an algorithm the library does not support is
  not told from one it cannot read. The cryptography (PEM loading, Ed25519, SHA-256, HMAC) is a record of functions without laws: no theorem
  assumes anything of it. MQTT bytes are 8-bit words. A connection is the list of bytes the client still
  sends and the bytes the broker answers with; the gateway asks a decision client, a record of two
  functions on a state of its own, and reads clocks and random values from a record of draws per
  packet. Parsing and printing JSON text and Python's \<open>str\<close> of a JSON value are functions of the
  gateway's environment, without laws. Writes succeed, and the task that relays the broker's packets is
  modelled by how many of them it has relayed when the session ends. The HTTP library is a transport, a
  function from a request and a state to an answer; that JSON text and rendered instants are read back as
  they were written is the named hypothesis \<open>web_laws\<close> of the theorems that need it (\<open>same_json\<close> for the
  device and the gateway). A wait of the device's agent is the number of packets that arrive before its
  deadline.

  A run draws its keys, nonces, identifiers, durations and random numbers from \<open>run_env\<close>. Its floats are
  exact rationals; binary64 rounding is written out (\<open>fl\<close>) where a cohort size depends on it, and the
  statistics round to six decimals as the code does. SciPy is a record of functions, with the one law that
  its Friedman test returns on series of one length (\<open>friedman_returns\<close>) where it is needed. A session of a
  campaign reads the world from \<open>campaign_env\<close> by the number of the attempt or condition: the draws of the
  run, clocks, signals, the deadline, and what git and the settings say afterwards; its state is the ledger
  with the text of its file and the tree of output files, that is, of what runs wrote: the directories made
  at the start are not part of it, and writing the ledger, the session log and the files of a run succeeds.
  What the script reads before the session (\<open>campaign_inputs\<close>) can raise. Histories of sessions
  (\<open>campaign_history\<close>) are of sessions that list no seed twice, which the script does not check.

  \<^bold>\<open>What the lemmas show.\<close> Every store has an invariant kept by each of its operations, and the
  service's state keeps all of them on every reachable state. The predicates, rules and assembler
  refine one abstract classification of the gathered inputs; the shipped matrix is a two-argument
  table; the enforcement point's answer is an exact condition on held decisions, and on reachable states
  these decisions are the ones the policy prescribes. Parsers and printers of the wire format are
  inverse to each other, and decoders stay within their input. Every packet the gateway sends the
  broker is justified by the decision in force at that step, which for the in-process client is the
  decision of a reachable state of the service; its counters are the lengths of what it read and wrote.
  A decision over HTTP is the in-process decision, so the same holds of the deployed arrangement; what the
  device signs is what the gateway verifies. Settings load exactly under the bounds of their models, and the
  audit log holds redacted copies only. A scenario that passes validation and stays within the calendar
  (\<open>fits_calendar\<close>) runs to its end, every step is scored by the label it declares, the books of a run agree with one another, and the published rates
  have the declared denominators. The Holm correction is the step-down procedure, and pairwise tests
  follow a significant omnibus test only. The ledger in memory is always what reading its file gives, so a
  session resumes what the last one left; a condition is recorded VALID once, with its run on disk, and the
  report's runs are these, each with the metrics of its run; values are compared under the seeds that
  every strategy has; a finding rests on significant tests, and nothing compared is dropped.

  \<^bold>\<open>Termination and fuel.\<close> All definitions are total: recursion is structural, except where a
  measure is proved (splitting text, the variable-length integer, decoding of lists of filters, the
  loop that reads a client's packets, which consumes its stream). There is no fuel; the agent's waiting
  loops count the packets that arrive in time.

  \<^bold>\<open>Not modelled.\<close> Logging and Prometheus metrics, health pages, the wiring of processes (listening
  sockets, signal handling, the table of open sessions), the YAML and JSON parsers (settings and records
  are taken as parsed), resource sampling (what it wrote is an argument of the report), the git and platform
  facts in the metadata of a run, the rendering of the campaign's tables, figures and prose, and the scripts
  that operate a testbed or drive it interactively.
\<close>

unbundle bit_operations_syntax

section \<open>The service as a whole\<close>

text \<open>
  C1 Whatever the enforcement point lets through, in any state the service can reach under the
  shipped configuration, rests on a held, unexpired decision for that very device whose action, scope
  and lifetime are the ones the policy table and the shipped lifetimes give for its trust state and
  transition context, whose action does not end access, and whose scope admits the topic (a CONNECT
  needs no topic).
\<close>

theorem enforcement_follows_policy:
  assumes "reachable cr (shipped_settings h) st"
    and "el_permitted (fst (check now (ap_pep st) rq))"
  shows "\<exists>d. dget (mp_decisions (ap_pep st)) (eq_device_id rq) = Some d
     \<and> \<not> decision_expired now d \<and> dc_device_id d = eq_device_id rq
     \<and> dget shipped_ttl_ms (action_value (dc_action d)) = Some (dc_ttl_ms d)
     \<and> dc_action d = fst (policy_table (dc_trust_state d) (dc_transition_context d))
     \<and> dc_action d \<notin> set TERMINATING_ACTIONS
     \<and> dc_scope d = resolve (shipped_scope (snd (policy_table (dc_trust_state d) (dc_transition_context d))))
         (eq_device_id rq)
     \<and> (eq_operation rq = CONNECT \<or> fst (scope_permits d (eq_resource rq)))"
  using assms by (rule reachable_permits)

theorem enforcement_follows_policy_witness:
  "\<exists>d. dget (mp_decisions (ap_pep sample_app2)) ''dev-1'' = Some d
     \<and> dc_action d = fst (policy_table (dc_trust_state d) (dc_transition_context d))"
  using enforcement_follows_policy [OF sample_reachable2 sample_permitted]
  by (auto simp: sample_connect_def)

text \<open>
  C2 Every state the service can reach is well formed, whatever its configuration: the registry
  holds only identities that passed their checks, each under its own identifier; nonces and bindings
  are filed once each and bindings under their address; stored proofs are valid and dated; transition
  tracks are consistent and bounded; the enforcement point holds only decisions that do not end
  access, each the last one given to its device; and the audit log holds only redacted records, as
  many as it counts.
\<close>

theorem service_stays_well_formed:
  assumes "reachable cr s st"
  shows "services_ok (ap_services st) \<and> pep_ok (ap_pep st) \<and> audit_ok (ap_audit st)"
  using reachable_ok [OF assms] by (simp add: app_ok_def)

theorem service_stays_well_formed_witness:
  "services_ok (ap_services sample_app2) \<and> pep_ok (ap_pep sample_app2) \<and> audit_ok (ap_audit sample_app2)"
  by (rule service_stays_well_formed [OF sample_reachable2])

text \<open>
  C3 The eleven predicates, the ordered rules and the assembler of the proposed strategy implement
  the abstract classification of what was gathered about the request, and its decision is the
  matrix's answer for that state and the gathered transition context, scoped to the requesting device.
\<close>

theorem decision_implements_classification:
  assumes "evidence_valid (st_evidence (sy_settings sy))"
    and "gather cr dw sy rq = (ins, ctx, tr, sy1)"
    and "ca_ztcf_decide cr name dw sy rq = (Inr so, sy')"
  shows "dc_trust_state (so_decision so) = classify (sy_settings sy) ins (decision_now dw rq)
     \<and> dc_device_id (so_decision so) = rq_device_id rq
     \<and> dc_transition_context (so_decision so) = ctx
     \<and> (\<exists>out. lookup (sy_matrix sy) (classify (sy_settings sy) ins (decision_now dw rq)) ctx = Inr out
          \<and> dc_action (so_decision so) = mo_action out
          \<and> dc_scope (so_decision so) = resolve (mo_scope out) (rq_device_id rq)
          \<and> dc_rule_id (so_decision so) = mo_rule_id out)
     \<and> sm_state (sy_states sy') (rq_device_id rq) = Some (dc_trust_state (so_decision so))"
  using ca_ztcf_decide_facts [OF assms] by simp

theorem decision_implements_classification_witness:
  "\<exists>so sy'. ca_ztcf_decide sample_crypto ''ca_ztcf'' sample_draws sample_services sample_request = (Inr so, sy')
     \<and> dc_trust_state (so_decision so) = STABLE"
proof -
  obtain sy1 so sy' where g: "gather sample_crypto sample_draws sample_services sample_request
      = (sample_inputs, CtxNone, None, sy1)"
    and d: "ca_ztcf_decide sample_crypto ''ca_ztcf'' sample_draws sample_services sample_request = (Inr so, sy')"
    using sample_run by blast
  show ?thesis using decision_implements_classification [OF _ g d] d by (simp add: sample_classified)
qed

text \<open>
  C4 Under the shipped configuration the proposed strategy grants full access exactly when the
  device is registered and active, no other device is attributed to its binding, nothing it shows is
  contradictory, a fresh binding and a fresh valid proof are held for it, and no access transition is
  recent.
\<close>

theorem full_access_iff:
  assumes "sy_settings sy = shipped_settings h" "sy_matrix sy = shipped_matrix h"
    and "gather cr dw sy rq = (ins, ctx, tr, sy1)"
    and "ca_ztcf_decide cr name dw sy rq = (Inr so, sy')"
  shows "dc_action (so_decision so) = ALLOW \<longleftrightarrow>
     identity_ok ins \<and> ai_binding_consistent ins \<and> \<not> contradictory (shipped_settings h) ins
     \<and> evidence_sufficient (shipped_settings h) ins (decision_now dw rq) \<and> \<not> ai_transition_recent ins"
proof -
  have v: "evidence_valid (st_evidence (sy_settings sy))" by (simp add: assms(1))
  have st: "dc_action (so_decision so) = fst (policy_table (dc_trust_state (so_decision so)) ctx)"
    using ca_ztcf_decide_facts(4) [OF v assms(3,4)] shipped_lookup [of h _ ctx] by (metis assms(2) sum.inject(2))
  have "dc_action (so_decision so) = ALLOW \<longleftrightarrow> dc_trust_state (so_decision so) = STABLE"
    unfolding st using ca_ztcf_state_context(1) [OF v assms(4)] ca_ztcf_decide_facts(3) [OF v assms(3,4)]
    by (cases "dc_trust_state (so_decision so)") auto
  then show ?thesis
    by (simp add: ca_ztcf_decide_facts(1) [OF v assms(3,4)] assms(1) classify_STABLE_iff)
qed

theorem full_access_iff_witness:
  "\<exists>so sy'. ca_ztcf_decide sample_crypto ''ca_ztcf'' sample_draws sample_services sample_request = (Inr so, sy')
     \<and> dc_action (so_decision so) = ALLOW"
proof -
  obtain sy1 so sy' where g: "gather sample_crypto sample_draws sample_services sample_request
      = (sample_inputs, CtxNone, None, sy1)"
    and d: "ca_ztcf_decide sample_crypto ''ca_ztcf'' sample_draws sample_services sample_request = (Inr so, sy')"
    using sample_run by blast
  have "classify (shipped_settings ''h'') sample_inputs (seconds 100) = STABLE" by (rule sample_classified)
  with full_access_iff [OF _ _ g d] d show ?thesis by (simp add: classify_STABLE_iff)
qed



text \<open>
  A device that is not registered, or is registered but not active, gets a denial from the
  proposed strategy under the shipped configuration, and once that decision is applied the
  enforcement point refuses every operation of it, at any time.
\<close>

theorem inactive_device_is_refused:
  assumes "sy_settings sy = shipped_settings h" "sy_matrix sy = shipped_matrix h"
    and "\<forall>i. reg_get (sy_registry sy) (rq_device_id rq) = Some i \<longrightarrow> di_status i \<noteq> ACTIVE"
    and "fst (ca_ztcf_decide cr name dw sy rq) = Inr so"
    and "eq_device_id er = rq_device_id rq"
  shows "dc_action (so_decision so) = DENY
     \<and> \<not> el_permitted (fst (check now (apply_decision pep (so_decision so)) er))"
proof -
  have step: "fst (case ca_ztcf_decide cr name dw sy rq of (r, sy') \<Rightarrow> (r, (), sy')) = Inr so"
    using assms(4) by (cases "ca_ztcf_decide cr name dw sy rq") simp
  show ?thesis
    using proposed.not_active_denied [OF assms(1-3) step] proposed.not_active_refused [OF assms(1-3) step assms(5)]
    by simp
qed

theorem inactive_device_is_refused_witness:
  "\<exists>so. fst (ca_ztcf_decide sample_crypto ''ca_ztcf'' sample_draws revoked_services sample_request) = Inr so
     \<and> \<not> el_permitted (fst (check 0 (apply_decision new_pep (so_decision so)) sample_connect))"
proof -
  obtain so where so: "fst (ca_ztcf_decide sample_crypto ''ca_ztcf'' sample_draws revoked_services sample_request) = Inr so"
    using sample_revoked_run by blast
  have "\<not> el_permitted (fst (check 0 (apply_decision new_pep (so_decision so)) sample_connect))"
    using inactive_device_is_refused [where sy = revoked_services and h = "''h''" and er = sample_connect, OF _ _ _ so]
    by (simp add: revoked_services_def reg_get_def sample_connect_def)
  with so show ?thesis by blast
qed

text \<open>
  C6 In the proposed strategy STABLE only ever meets the context NONE, and TRANSITIONAL never does:
  both follow from one reading of the last transition, so the rules of the shipped matrix for the
  other combinations (P09, and STABLE with any transition) can never fire.
\<close>

theorem state_and_context_agree:
  assumes "evidence_valid (st_evidence (sy_settings sy))"
    and "ca_ztcf_decide cr name dw sy rq = (Inr so, sy')"
  shows "(dc_trust_state (so_decision so) = STABLE \<longrightarrow> dc_transition_context (so_decision so) = CtxNone)
     \<and> (dc_trust_state (so_decision so) = TRANSITIONAL \<longrightarrow> dc_transition_context (so_decision so) \<noteq> CtxNone)"
  using ca_ztcf_state_context [OF assms] by simp

theorem state_and_context_agree_witness:
  "\<exists>so sy'. ca_ztcf_decide sample_crypto ''ca_ztcf'' sample_draws sample_services sample_request = (Inr so, sy')
     \<and> (dc_trust_state (so_decision so) = STABLE \<longrightarrow> dc_transition_context (so_decision so) = CtxNone)"
proof -
  obtain so sy' where d: "ca_ztcf_decide sample_crypto ''ca_ztcf'' sample_draws sample_services sample_request = (Inr so, sy')"
    using sample_run by blast
  with state_and_context_agree [OF _ d] show ?thesis by simp
qed

text \<open>
  Baseline B honours a live session token whatever the registry, the bindings or the proof say:
  it answers STABLE with no transition context, also for a device that has been revoked.
\<close>

theorem live_token_suffices:
  assumes "dget toks (rq_device_id rq) = Some t" "token_valid t (decision_now dw rq)"
    and "fst (static_decide cr def dw toks sy rq) = Inr so"
  shows "dc_trust_state (so_decision so) = STABLE \<and> dc_transition_context (so_decision so) = CtxNone
     \<and> fst (snd (static_decide cr def dw toks sy rq)) = toks"
  using static_token_suffices [OF assms] assms(1,2)
  by (auto simp: static_decide_def split: prod.split)

theorem live_token_suffices_witness:
  "\<exists>so. fst (static_decide sample_crypto static_definition sample_draws sample_tokens revoked_services sample_request) = Inr so
     \<and> dc_trust_state (so_decision so) = STABLE"
proof -
  obtain so where so: "fst (static_decide sample_crypto static_definition sample_draws sample_tokens
      revoked_services sample_request) = Inr so" using sample_static_run by blast
  have "token_valid \<lparr>tk_device_id = ''dev-1'', tk_issued_at = 0, tk_expires_at = seconds 300\<rparr> (seconds 100)"
    by (simp add: token_valid_def)
  with live_token_suffices [OF _ _ so] so show ?thesis by (simp add: sample_tokens_def)
qed

text \<open>
  C7 The address of a request is claimed for its device before anything about the device is
  checked, so a request by an unregistered device takes the free binding of that address, and the
  next request of the registered, active device behind it is judged UNTRUSTED.
\<close>

theorem unregistered_claim_locks_out:
  assumes "evidence_valid (st_evidence (sy_settings sy))"
    and "dget (sy_bindings sy) (rq_peer_address rq) = Some b" "ab_device_ref b = None"
    and "\<not> ab_is_expired b (dw_clk_claim dw0)" "\<not> ab_is_expired b (dw_clk_claim dw)"
    and "reg_get (sy_registry sy) (rq_device_id rq0) = None"
    and "rq_peer_address rq0 = rq_peer_address rq"
    and "reg_get (sy_registry sy) (rq_device_id rq) = Some i"
    and "ca_ztcf_decide cr name dw (snd (ca_ztcf_decide cr name dw0 sy rq0)) rq = (Inr so, sy')"
  shows "dc_trust_state (so_decision so) = UNTRUSTED"
proof -
  let ?sy0 = "snd (ca_ztcf_decide cr name dw0 sy rq0)"
  have pol: "sy_settings ?sy0 = sy_settings sy" "sy_registry ?sy0 = sy_registry sy"
    using ca_ztcf_decide_services(1) [where sy = sy and cr = cr and name = name and dw = dw0 and rq = rq0]
    by (simp_all add: same_policy_def)
  obtain ins ctx tr sy1 where g: "gather cr dw ?sy0 rq = (ins, ctx, tr, sy1)" by (metis prod_cases4)
  have v: "evidence_valid (st_evidence (sy_settings ?sy0))" using assms(1) pol by simp
  have "rq_device_id rq0 \<noteq> rq_device_id rq" using assms(6,8) by auto
  moreover have "dget (sy_bindings ?sy0) (rq_peer_address rq) = Some (b\<lparr>ab_device_ref := Some (rq_device_id rq0)\<rparr>)"
    using assms(2-4,7) by (simp add: ca_ztcf_decide_services claim_unattributed bs_get_def)
  ultimately have "\<not> ai_binding_consistent ins"
    using assms(5) by (simp add: gather_facts(6) [OF g] claim_attributed bs_get_def)
  moreover have "ai_identity ins \<noteq> None" using gather_facts(2) [OF g] assms(8) pol by simp
  ultimately show ?thesis
    using ca_ztcf_decide_facts(1) [OF v g assms(9)] by (simp add: classify_UNTRUSTED_iff)
qed

theorem unregistered_claim_locks_out_witness:
  "\<exists>so. fst (ca_ztcf_decide sample_crypto ''ca_ztcf'' sample_draws
       (snd (ca_ztcf_decide sample_crypto ''ca_ztcf'' sample_draws sample_services
         (sample_request\<lparr>rq_device_id := ''intruder''\<rparr>))) sample_request) = Inr so
     \<and> dc_trust_state (so_decision so) = UNTRUSTED"
proof -
  let ?rq0 = "sample_request\<lparr>rq_device_id := ''intruder''\<rparr>"
  let ?sy0 = "snd (ca_ztcf_decide sample_crypto ''ca_ztcf'' sample_draws sample_services ?rq0)"
  have "shipped ''h'' ?sy0"
    using ca_ztcf_decide_services(1) [where sy = sample_services] by (rule shipped_same) (simp add: shipped_def)
  then obtain so where "fst (ca_ztcf_decide sample_crypto ''ca_ztcf'' sample_draws ?sy0 sample_request) = Inr so"
    using shipped_ca_ztcf_total by blast
  then obtain sy' where so: "ca_ztcf_decide sample_crypto ''ca_ztcf'' sample_draws ?sy0 sample_request = (Inr so, sy')"
    by (metis prod.collapse)
  have "ab_device_ref sample_binding = None" "\<not> ab_is_expired sample_binding (seconds 100)"
    by (simp_all add: sample_binding_def ab_is_expired_def seconds_def)
  with unregistered_claim_locks_out [OF _ _ _ _ _ _ _ _ so, of sample_binding sample_identity]
  have "dc_trust_state (so_decision so) = UNTRUSTED" by (simp add: reg_get_def)
  with so show ?thesis by simp
qed

section \<open>The MQTT gateway\<close>

text \<open>
  C8 Whatever the peers send and the decision client answers, all that a connection of the gateway
  ever sends to the broker is, first, a CONNECT in the device's name without password or will, and
  then only packets that parse as unprotected ones (disconnect, ping, acknowledgements, unsubscribe), as
  PUBLISH packets whose topic, or SUBSCRIBE packets all of whose filters, a decision given in this
  session permits, and never as a step-up response; and without an accepting first decision it sends
  nothing at all.
\<close>

theorem gateway_forwards_only_permitted:
  "let e = se_session (handle_client env cx st);
       d = sn_device_id (gs_stats e);
       sent = cw_sent (gs_broker e)
   in (sent = [] \<or> clean_connect d (hd sent))
      \<and> set (tl sent) \<subseteq> {raw. forwardable d (gs_decisions e) raw}
      \<and> (sent = [] \<or> (gs_decisions e \<noteq> [] \<and> dc_action (hd (gs_decisions e)) \<notin> set REFUSING_ACTIONS))"
  using handle_client_view [of env cx st] by (auto simp: broker_view_def Let_def)

text \<open>
  C9 A gateway in front of a service that is in any reachable state under the shipped configuration
  enforces its policy on the wire: every packet after the CONNECT is of an unprotected type, or is a
  PUBLISH to a topic, not the step-up response topic, or a SUBSCRIBE to filters, that the scope
  prescribed by the policy table for a trust state and transition context decided for this device
  admits, under an action that does not refuse.
\<close>

theorem gateway_enforces_policy:
  assumes "ge_client env = local_client cr dflt ads nds" "reachable cr (shipped_settings h) st"
    and "e = se_session (handle_client env cx (st, k))" "d = sn_device_id (gs_stats e)"
  shows "set (tl (cw_sent (gs_broker e))) \<subseteq>
     {raw. \<exists>p. parses_as raw p \<and>
        (pk_type p \<in> set unprotected
         \<or> (\<exists>pub dec. pk_type p = PT_PUBLISH \<and> decode_publish p = Inr pub \<and> pb_topic pub \<noteq> RESPONSE_TOPIC d
              \<and> dec \<in> set (gs_decisions e) \<and> within_policy d dec (pb_topic pub))
         \<or> (\<exists>sub dec. pk_type p = PT_SUBSCRIBE \<and> decode_subscribe p = Inr sub \<and> dec \<in> set (gs_decisions e)
              \<and> (\<forall>(f, q) \<in> set (sb_subscriptions sub). within_policy d dec f)))}"
  using gateway_within_policy [OF assms(1-3)] by (auto simp: assms(4) packet_within_def)

theorem gateway_enforces_policy_witness:
  "let e = se_session (handle_client (sample_env (local_client sample_crypto ''ca_ztcf'' (\<lambda>_. sample_app_draws)
          (\<lambda>_. (0, [1])))) sample_connection (sample_app2, 0))
   in set (tl (cw_sent (gs_broker e))) \<subseteq>
     {raw. \<exists>p. parses_as raw p \<and>
        (pk_type p \<in> set unprotected
         \<or> (\<exists>pub dec. pk_type p = PT_PUBLISH \<and> decode_publish p = Inr pub
              \<and> pb_topic pub \<noteq> RESPONSE_TOPIC (sn_device_id (gs_stats e))
              \<and> dec \<in> set (gs_decisions e) \<and> within_policy (sn_device_id (gs_stats e)) dec (pb_topic pub))
         \<or> (\<exists>sub dec. pk_type p = PT_SUBSCRIBE \<and> decode_subscribe p = Inr sub \<and> dec \<in> set (gs_decisions e)
              \<and> (\<forall>(f, q) \<in> set (sb_subscriptions sub). within_policy (sn_device_id (gs_stats e)) dec f)))}"
  unfolding Let_def
  by (rule gateway_enforces_policy [where cr = sample_crypto and dflt = "''ca_ztcf''" and ads = "\<lambda>_. sample_app_draws"
        and nds = "\<lambda>_. (0, [1])" and h = "''h''", OF _ sample_reachable2 refl refl]) (simp add: sample_env_def)

text \<open>
  C10 Where the decision in force has expired and the decision client refuses, a PUBLISH or SUBSCRIBE
  reaches the broker no more, and the session ends with it unless it was a step-up response.
\<close>

theorem expired_decision_is_not_used:
  assumes "client_refuses env (gs_state gs)" "gw_expired (pd_now pd) dec"
    and "pk_type p \<in> {PT_PUBLISH, PT_SUBSCRIBE}"
  shows "gs_broker (snd (handle_packet env pd peer dec p gs)) = gs_broker gs
     \<and> (fst (handle_packet env pd peer dec p gs) = Inr (Again dec') \<longrightarrow>
          (\<exists>pub. decode_publish p = Inr pub \<and> pb_topic pub = RESPONSE_TOPIC (sn_device_id (gs_stats gs))))"
  using expired_forwards_nothing [OF assms] by blast

theorem expired_decision_is_not_used_witness:
  "fst (handle_packet (sample_env (sample_client refusing_decision)) sample_packet_draws ''10.0.0.2''
      refusing_decision sample_publish (new_session ''con-1'' ())) \<noteq> Inr (Again sample_decision)"
proof -
  have "client_refuses (sample_env (sample_client refusing_decision)) (gs_state (new_session ''con-1'' ()))"
    by (simp add: client_refuses_def sample_env_def sample_client_def refusing_decision_def REFUSING_ACTIONS_def)
  moreover have "gw_expired (pd_now sample_packet_draws) refusing_decision"
    by (simp add: gw_expired_def refusing_decision_def)
  moreover have "pk_type sample_publish \<in> {PT_PUBLISH, PT_SUBSCRIBE}" by (simp add: sample_publish_def)
  ultimately show ?thesis
    using expired_decision_is_not_used [of "sample_env (sample_client refusing_decision)" "new_session ''con-1'' ()"
        sample_packet_draws refusing_decision sample_publish "''10.0.0.2''" sample_decision]
    by (auto simp: sample_publish_decodes new_session_def new_stats_def ctl_topic_def)
qed

text \<open>
  C11 The books of a connection are right: however the packets the gateway wrote to the client and those
  it relayed took turns on the wire, the bytes and packets counted toward the client are those of what
  was sent, and the bytes counted toward the broker are the ones sent to it. What is relayed begins right
  after the broker's CONNACK, which is the first packet the client gets, and is the broker's output, packet
  by packet, unchanged, as far as the relaying task came or until no further packet can be read; where
  the broker does not begin with a CONNACK, nothing is relayed.
\<close>

theorem gateway_accounts_are_exact:
  "let e = handle_client env cx st; gs = se_session e; relayed = se_relayed e
   in (\<forall>out \<in> shuffles (cw_sent (gs_client gs)) relayed.
         sn_bytes_to_client (se_stats e) = length (concat out) \<and> sn_packets_to_client (se_stats e) = length out)
      \<and> (\<not> gs_opened gs \<or> sn_bytes_to_broker (se_stats e) = length (concat (cw_sent (gs_broker gs))))
      \<and> ((\<exists>ack ps own rest. parses_as (pk_raw ack) ack \<and> pk_type ack = PT_CONNACK
            \<and> cx_broker cx = Inr (pk_raw ack @ concat relayed @ rest) \<and> cw_sent (gs_client gs) = pk_raw ack # own
            \<and> relayed = map pk_raw ps \<and> (\<forall>p \<in> set ps. parses_as (pk_raw p) p)
            \<and> (length ps = cx_relayed cx
               \<or> length ps < cx_relayed cx \<and> (\<forall>p. fst (read_packet (new_reader rest)) \<noteq> Inr (Some p))))
         \<or> relayed = [] \<and> (cw_sent (gs_broker gs) = []
            \<or> (\<nexists>ack stream. cx_broker cx = Inr (pk_raw ack @ stream) \<and> parses_as (pk_raw ack) ack
                  \<and> pk_type ack = PT_CONNACK)))"
proof -
  let ?e = "handle_client env cx st"
  obtain r where s: "se_stats ?e = final_stats r (se_relayed ?e) (se_session ?e)"
    using handle_client_stats [of env cx st] by blast
  have w: "writer_ok (gs_client (se_session ?e))" "writer_ok (gs_broker (se_session ?e))"
    using handle_client_view [of env cx st] by (simp_all add: broker_view_def)
  have "sn_bytes_to_client (se_stats ?e) = length (concat out) \<and> sn_packets_to_client (se_stats ?e) = length out"
    if "out \<in> shuffles (cw_sent (gs_client (se_session ?e))) (se_relayed ?e)" for out
    using final_counters [OF w(1) that] by (simp add: s final_stats_def Let_def)
  moreover have "\<not> gs_opened (se_session ?e)
      \<or> sn_bytes_to_broker (se_stats ?e) = length (concat (cw_sent (gs_broker (se_session ?e))))"
    using w(2) by (simp add: s final_stats_def writer_ok_def Let_def)
  ultimately show ?thesis
    using handle_client_relayed [of cx env st]
    unfolding Let_def relayed_from_def acknowledged_def whole_packets_def by blast
qed

theorem gateway_accounts_are_exact_witness:
  "sn_bytes_to_client (se_stats (handle_client (sample_env (sample_client sample_decision)) sample_connection ())) =
     length (concat (cw_sent (gs_client (se_session (handle_client (sample_env (sample_client sample_decision))
         sample_connection ()))) @
       se_relayed (handle_client (sample_env (sample_client sample_decision)) sample_connection ())))"
  using gateway_accounts_are_exact [of "sample_env (sample_client sample_decision)" sample_connection "()"]
  unfolding Let_def by (blast intro: append_in_shuffles)

text \<open>
  C12 A PUBLISH that was built is read off the stream as one packet, whatever bytes follow it, and
  decodes to the topic, payload, quality of service and flags it was built from.
\<close>

theorem publish_roundtrip:
  assumes "build_publish topic payload q pid retain = Inr raw" "q < 4" "py_text topic"
  shows "\<exists>p r'. read_packet (new_reader (raw @ rest)) = (Inr (Some p), r') \<and> rd_input r' = rest
     \<and> pk_type p = PT_PUBLISH
     \<and> decode_publish p = Inr \<lparr>pb_topic = topic, pb_packet_id = (if q > 0 then pid else None),
          pb_payload = payload, pb_qos = q, pb_retain = retain, pb_dup = False\<rparr>"
proof -
  note b = build_publish_Inr(3) [OF assms(1)]
  let ?flags = "push_bit 1 (q AND 0x03) OR (if retain then 0x01 else 0x00)"
  let ?p = "\<lparr>pk_type = PT_PUBLISH, pk_flags = ?flags mod 16,
      pk_payload = be16 (length topic) @ str_encode topic @ (if q > 0 then be16 (the pid) else []) @ payload,
      pk_raw = raw\<rparr>"
  have "read_packet (new_reader (raw @ rest)) = (Inr (Some ?p), (new_reader (raw @ rest))
      \<lparr>rd_input := rest, rd_bytes_read := length raw, rd_packets_read := 1\<rparr>)"
    using read_packet_build [OF b, of "new_reader (raw @ rest)" rest] by (simp add: new_reader_def)
  moreover have "decode_publish ?p = Inr \<lparr>pb_topic = topic, pb_packet_id = (if q > 0 then pid else None),
          pb_payload = payload, pb_qos = q, pb_retain = retain, pb_dup = False\<rparr>"
    using publish_flag_bits [OF assms(2)] by (intro decode_publish_build [OF assms]) simp_all
  ultimately show ?thesis by (intro exI [of _ ?p]) (simp add: new_reader_def)
qed

theorem publish_roundtrip_witness:
  "\<exists>p r'. read_packet (new_reader ((0x30 # varint 4 @ be16 1 @ str_encode ''t'' @ [1]) @ [0xC0, 0x00])) = (Inr (Some p), r')
     \<and> rd_input r' = [0xC0, 0x00]"
proof -
  have "build_publish ''t'' [1] 0 None False = Inr (0x30 # varint 4 @ be16 1 @ str_encode ''t'' @ [1])"
    by (simp add: build_publish_def encode_string_def encode_field_def build_packet_Inr MAX_REMAINING_LENGTH_def)
  moreover have "py_text ''t''" by code_simp
  ultimately show ?thesis using publish_roundtrip [of "''t''" "[1]" 0 None False _ "[0xC0, 0x00]"] by fastforce
qed

section \<open>The remote arrangement and the device\<close>

text \<open>
  C13 The deployed gateway, which asks the service over HTTP, enforces the shipped policy as the one in
  process does: from any reachable state of the service, every packet it sends the broker after the
  CONNECT is of an unprotected type, or is a PUBLISH (not a step-up response) or a SUBSCRIBE that lies in
  the scope the policy table gives for a decision about this device.
  Assumed of the libraries is only that JSON text and rendered instants are read back as written.
\<close>

theorem deployed_gateway_enforces_policy:
  assumes "web_laws web" "ge_client env = http_client web (service_transport web cr ads nds) strategy"
    and "reachable cr (shipped_settings h) st" "e = se_session (handle_client env cx (st, k))"
  shows "set (tl (cw_sent (gs_broker e))) \<subseteq> {raw. \<exists>p. parses_as raw p \<and> packet_within e p}"
  using remote_gateway_within_policy [OF assms] by blast

theorem deployed_gateway_enforces_policy_witness:
  "let e = se_session (handle_client (sample_env sample_remote) sample_connection (sample_app2, 0))
   in set (tl (cw_sent (gs_broker e))) \<subseteq> {raw. \<exists>p. parses_as raw p \<and> packet_within e p}"
  unfolding Let_def
  by (rule deployed_gateway_enforces_policy [OF sample_web_laws _ sample_reachable2 refl])
    (simp add: sample_env_def sample_remote_def)

text \<open>
  C14 A decision over HTTP is the decision in process, on the same state and with the same draws, for a
  request that carries no proof of another device and whose instant is read back as it was written: it is
  given exactly when that one is, and is equal to it but for the description of its scope, which is not
  served; the two leave the same state of the service except for the audit log; and every answer of the
  service that is not a decision becomes an enforcement error.
\<close>

theorem remote_decisions_are_local:
  assumes "web_laws web" "own_proof r" "read_at web r = Some (dr_at r)"
  shows "let remote = cl_decide (http_client web (service_transport web cr ads nds) strategy) (st, k) r;
             here = cl_decide (local_client cr (name_or strategy DEFAULT_STRATEGY) ads nds) (st, k) r
   in (\<forall>d. fst remote = Inr d \<longleftrightarrow> (\<exists>d0. fst here = Inr d0 \<and> d = undescribed d0))
      \<and> (\<exists>aw. fst (snd remote) = (fst (snd here))\<lparr>ap_audit := aw\<rparr>)
      \<and> (\<forall>e. fst remote = Inl e \<longrightarrow> (\<exists>m. e = EnforcementError m))"
  unfolding Let_def
  using http_decide_local [OF assms refl refl, where cr = cr and ads = ads and nds = nds and st = st and k = k
      and strategy = strategy] by blast

theorem remote_decisions_are_local_witness:
  "\<exists>aw. fst (snd (cl_decide sample_remote (sample_app2, 0) sample_plain_request)) =
     (fst (snd (cl_decide (local_client sample_crypto DEFAULT_STRATEGY (\<lambda>_. sample_app_draws) (\<lambda>_. (0, [1])))
       (sample_app2, 0) sample_plain_request)))\<lparr>ap_audit := aw\<rparr>"
proof -
  have "own_proof sample_plain_request" "read_at sample_web sample_plain_request = Some (dr_at sample_plain_request)"
    by (simp_all add: own_proof_def read_at_def sample_plain_request_def)
  from remote_decisions_are_local [OF sample_web_laws this, of sample_crypto "\<lambda>_. sample_app_draws" "\<lambda>_. (0, [1])"
      None sample_app2 0]
  show ?thesis unfolding sample_remote_def Let_def by (simp add: name_or_def)
qed

text \<open>
  C15 What a device sends when it connects with a nonce of the service is one CONNECT that the gateway
  decodes to the device's own identifier and, from the password field, to the device's proof for that
  nonce; and that proof is accepted exactly when the nonce is outstanding for the device and the
  registered key verifies the device's signature of the nonce's bytes.
\<close>

theorem credential_is_the_proof:
  assumes "agent_connect env (Inr input) timely (Some (b64url_encode raw)) ag = (x, ag')"
    and "ag_writer ag' = Some w" "cw_sent w \<noteq> []"
    and "raw \<noteq> []" "ag_sign ag raw \<noteq> []" "py_text (agent_client_id ag)" "py_text (agent_id ag)"
  shows "\<exists>p r c pf. read_packet (new_reader (concat (cw_sent w) @ rest)) = (Inr (Some p), r) \<and> rd_input r = rest
    \<and> pk_type p = PT_CONNECT \<and> decode_connect p = Inr c \<and> cp_username c = Some (agent_id ag)
    \<and> parse_proof (agent_id ag) (cp_password c) = Some pf
    \<and> device_proof (ag_sign ag) (agent_id ag) (b64url_encode raw) = Inr pf
    \<and> (pr_valid (fst (verify cr now ni i pf)) \<longleftrightarrow>
         agent_id ag = di_device_id i \<and> fst (consume now ni (b64url_encode raw) (agent_id ag))
         \<and> (\<exists>k. load_pem cr (di_public_key_pem i) = Some (Ed25519Key k) \<and> ed_verify cr k (ag_sign ag raw) raw))"
proof -
  obtain p r c where "read_packet (new_reader (concat (cw_sent w) @ rest)) = (Inr (Some p), r)" "rd_input r = rest"
    "pk_type p = PT_CONNECT" "decode_connect p = Inr c" "cp_username c = Some (agent_id ag)"
    "parse_proof (agent_id ag) (cp_password c) = Some (signed_proof (ag_sign ag) (agent_id ag) raw)"
    using credential_reaches_gateway [OF assms, of rest] by blast
  then show ?thesis
    by (intro exI [of _ p] exI [of _ r] exI [of _ c] exI [of _ "signed_proof (ag_sign ag) (agent_id ag) raw"])
      (simp add: device_proof_signed signed_proof_accepted)
qed

theorem credential_is_the_proof_witness:
  "\<exists>bs p c pf. fst (read_packet (new_reader bs)) = Inr (Some p) \<and> decode_connect p = Inr c
     \<and> parse_proof ''dev-1'' (cp_password c) = Some pf \<and> pp_nonce pf = b64url_encode [1, 2, 3]"
proof -
  obtain input ag w where o: "agent_connect sample_agent_env (Inr input) True (Some (b64url_encode [1, 2, 3])) sample_agent =
      (Inr 0, ag)" "ag_writer ag = Some w" "cw_sent w \<noteq> []"
    using sample_opens by blast
  have f: "ag_sign sample_agent [1, 2, 3] \<noteq> []" "py_text (agent_client_id sample_agent)" "py_text (agent_id sample_agent)"
    "agent_id sample_agent = ''dev-1''" "([1, 2, 3] :: bytes) \<noteq> []"
    using sample_id_text by (simp_all add: sample_agent_def new_agent_def agent_client_id_def name_or_def)
  from credential_is_the_proof [OF o f(5,1-3), of "[]" sample_crypto "seconds 100" "new_nonce_issuer 60" sample_identity]
  obtain p r c pf where q: "read_packet (new_reader (concat (cw_sent w))) = (Inr (Some p), r)" "decode_connect p = Inr c"
    "parse_proof ''dev-1'' (cp_password c) = Some pf"
    "device_proof (ag_sign sample_agent) ''dev-1'' (b64url_encode [1, 2, 3]) = Inr pf"
    unfolding f(4) append_Nil2 by blast
  have "pp_nonce pf = b64url_encode [1, 2, 3]" using q(4) by (auto simp: device_proof_signed signed_proof_def)
  with q(1-3) show ?thesis
    by (intro exI [of _ "concat (cw_sent w)"] exI [of _ p] exI [of _ c] exI [of _ pf]) simp
qed

text \<open>
  C16 A challenge is answered: the device reads the packet the gateway builds for a nonce, writes exactly
  one packet for it, and the gateway decodes that packet, on the device's response topic, to the
  device's proof for the nonce. Assumed of the two JSON libraries is that each reads what the other prints.
\<close>

theorem challenge_is_answered:
  assumes "same_json genv env" "py_text (agent_id ag)" "ag_writer ag = Some w"
    and "build_publish (CHALLENGE_TOPIC (agent_id ag)) (challenge_body genv (b64url_encode raw) expires_at) 0 None False = Inr sent"
    and "build_publish (RESPONSE_TOPIC (agent_id ag))
      (challenge_answer env (b64url_encode raw) (b64url_encode (ag_sign ag raw))) 0 None False = Inr answer"
  shows "(\<exists>p r. read_packet (new_reader sent) = (Inr (Some p), r) \<and> fst (dispatch env p ag) = Inr ()
      \<and> ag_writer (snd (dispatch env p ag)) = Some (cw_write w answer)
      \<and> ag_challenges_answered (snd (dispatch env p ag)) = ag_challenges_answered ag + 1)
    \<and> (\<exists>p r pub pf. read_packet (new_reader (answer @ rest)) = (Inr (Some p), r) \<and> rd_input r = rest
      \<and> decode_publish p = Inr pub \<and> pb_topic pub = RESPONSE_TOPIC (agent_id ag)
      \<and> step_up_proof genv (agent_id ag) (pb_payload pub) = Inr pf
      \<and> device_proof (ag_sign ag) (agent_id ag) (b64url_encode raw) = Inr pf)"
  using challenge_answered(1) [OF assms] challenge_answered(2) [OF assms, of rest] device_proof_signed by blast

theorem challenge_is_answered_witness:
  "\<exists>sent p r. read_packet (new_reader sent) = (Inr (Some p), r)
     \<and> ag_challenges_answered (snd (dispatch sample_agent_env p sample_open_agent)) = 1"
proof -
  obtain sent where s: "build_publish (CHALLENGE_TOPIC ''dev-1'') (challenge_body sample_json_env (b64url_encode [1, 2, 3]) 0) 0 None False = Inr sent"
    using sample_challenge(1) by blast
  obtain answer where a: "build_publish (RESPONSE_TOPIC ''dev-1'')
     (challenge_answer sample_agent_env (b64url_encode [1, 2, 3]) (b64url_encode [1, 2, 3])) 0 None False = Inr answer"
    using sample_challenge(2) by blast
  have f: "agent_id sample_open_agent = ''dev-1''" "ag_writer sample_open_agent = Some new_writer"
    "ag_sign sample_open_agent [1, 2, 3] = [1, 2, 3]" "ag_challenges_answered sample_open_agent = 0"
    by (simp_all add: sample_open_agent_def sample_agent_def new_agent_def)
  show ?thesis
    using challenge_is_answered [OF sample_same_json, of sample_open_agent new_writer "[1, 2, 3]" 0 sent answer "[]"]
      sample_id_text s a
    by (auto simp: f)
qed

section \<open>Policy and enforcement\<close>

text \<open>
  C17 The shipped policy matrix, loaded and searched as the code does it, is the table of its
  comments: for each of the six trust states and five transition contexts a rule matches, and it
  gives the table's action and scope.
\<close>

theorem shipped_matrix_is_policy_table:
  "new_policy_matrix (shipped_settings h) = Inr (shipped_matrix h)
   \<and> (\<exists>out. lookup (shipped_matrix h) st ctx = Inr out \<and> mo_matched out
        \<and> mo_action out = fst (policy_table st ctx)
        \<and> mo_scope out = shipped_scope (snd (policy_table st ctx)))"
  using shipped_matrix_loads [of h] shipped_lookup [of h st ctx] by simp

text \<open>
  For every configuration that passes the cross-validation of the loader, a lookup never raises,
  and where a rule matches its action also has a lifetime, so a decision can always be built from it.
\<close>

theorem cross_validated_lookup_total:
  assumes "new_policy_matrix s = Inr m" "cross_validate s = Inr ()"
  shows "\<exists>out. lookup m st ctx = Inr out
     \<and> ((\<exists>e \<in> set (mx_entries m). matches e st ctx) \<longrightarrow>
          mo_matched out \<and> (\<exists>ttl. mx_ttl_ms m (mo_action out) = Inr ttl))"
  using lookup_total [OF assms] matched_lookup_total [OF assms] by (metis sum.inject(2))

theorem cross_validated_lookup_total_witness:
  "\<exists>out. lookup (shipped_matrix ''h'') STABLE CtxNone = Inr out"
  using cross_validated_lookup_total [OF shipped_matrix_loads shipped_cross_validated] by blast

text \<open>
  The enforcement point permits an operation exactly when it holds an unexpired decision for the
  device and the operation is a CONNECT or the decision's scope has an allow pattern and no deny
  pattern matching the topic.
\<close>

theorem enforcement_permits_iff:
  "el_permitted (fst (check now p rq)) \<longleftrightarrow>
     (\<exists>d. dget (mp_decisions p) (eq_device_id rq) = Some d \<and> \<not> decision_expired now d
        \<and> (eq_operation rq = CONNECT
           \<or> ((\<exists>q \<in> set (sp_allow (dc_scope d)). topic_matches q (eq_resource rq))
              \<and> (\<forall>q \<in> set (sp_deny (dc_scope d)). \<not> topic_matches q (eq_resource rq)))))"
  by (rule check_permitted_iff)

theorem enforcement_permits_iff_witness:
  "el_permitted (fst (check (seconds 101) (ap_pep sample_app2) sample_connect))
   \<and> (\<exists>d. dget (mp_decisions (ap_pep sample_app2)) ''dev-1'' = Some d \<and> \<not> decision_expired (seconds 101) d)"
  using sample_permitted enforcement_permits_iff [of "seconds 101" "ap_pep sample_app2" sample_connect]
  by (auto simp: sample_connect_def)

text \<open>
  C18 Topic matching is MQTT's relation on levels: equal length with every pattern level a plus or
  the topic's own level, or a pattern ending in a hash whose levels before it match a prefix of the
  topic's.
\<close>

theorem topic_matching_is_mqtt:
  "topic_matches pattern topic =
     (let ps = split_on (CHR ''/'') pattern; ts = split_on (CHR ''/'') topic
      in list_all2 level_matches ps ts
         \<or> (\<exists>qs us vs. ps = qs @ [''#''] \<and> ts = us @ vs \<and> list_all2 level_matches qs us))"
  by (simp add: topic_matches_spec levels_spec_def Let_def)

text \<open>
  C19 Under the shipped scopes a granted subscription filter is contained in its scope: whatever
  topic it can deliver is itself permitted, for every device whose identifier passed the registry's
  charset check.
\<close>

theorem granted_subscription_contained:
  assumes "device_id_charset d" "dc_scope dec = resolve (shipped_scope n) d"
    and "n \<in> set [''full'', ''restricted'', ''step_up_pending'', ''quarantine'', ''none'']"
    and "fst (scope_permits dec f)" "topic_matches f t"
  shows "fst (scope_permits dec t)"
  using assms by (rule granted_filter_shipped)

theorem granted_subscription_contained_witness:
  "fst (scope_permits sample_decision ''dev/dev-1/temperature'')"
proof -
  have id: "device_id_charset ''dev-1''" by code_simp
  have scope: "dc_scope sample_decision = resolve (shipped_scope ''full'') ''dev-1''"
    by (simp add: sample_decision_def)
  have delivers: "topic_matches ''dev/dev-1/+'' ''dev/dev-1/temperature''" by code_simp
  have grant: "fst (scope_permits sample_decision ''dev/dev-1/+'')"
  proof -
    have "sp_allow (dc_scope sample_decision) = [''dev/dev-1/#'', ''cmd/dev-1/#'', ''shared/telemetry/#'']"
      "sp_deny (dc_scope sample_decision) = []"
      using shipped_resolved(1,2) [of "''dev-1''"] by (simp_all add: sample_decision_def)
    moreover have "topic_matches ''dev/dev-1/#'' ''dev/dev-1/+''" by code_simp
    ultimately show ?thesis by (simp add: gateway_scope.permitted_iff)
  qed
  show ?thesis by (rule granted_subscription_contained [OF id scope _ grant delivers]) simp
qed

section \<open>Identity and proof of possession\<close>

text \<open>
  C20 A proof is accepted exactly when it is for the identity's own device, its nonce is outstanding,
  was issued to that device and has not expired, the registered key is a readable Ed25519 key, and
  signature and nonce are base64url texts whose bytes verify under that key.
\<close>

theorem proof_accepted_iff:
  "pr_valid (fst (verify cr now ni i p)) \<longleftrightarrow>
     pp_device_id p = di_device_id i
     \<and> (\<exists>rec. dget (ni_issued ni) (pp_nonce p) = Some rec \<and> in_device_id rec = di_device_id i
             \<and> now \<le> in_expires_at rec)
     \<and> (\<exists>k sig msg. load_pem cr (di_public_key_pem i) = Some (Ed25519Key k)
          \<and> b64url_decode (pp_signature p) = Inr sig \<and> b64url_decode (pp_nonce p) = Inr msg
          \<and> ed_verify cr k sig msg)"
  by (rule verify_valid_iff)

text \<open>
  C21 A nonce that was presented for its device, whether the proof then held or not, is gone: no
  later proof with it is accepted, for any device, at any time, as long as it is not issued again.
\<close>

theorem presented_nonce_is_spent:
  assumes "pp_device_id p = di_device_id i" "pp_nonce q = pp_nonce p"
  shows "\<not> pr_valid (fst (verify cr' now' (snd (verify cr now ni i p)) j q))"
  using verify_forgets_nonce [OF assms(1), of cr now ni "pp_nonce p"] assms(2)
  by (simp add: verify_valid_iff)

theorem presented_nonce_is_spent_witness:
  "pr_valid (fst (verify sample_crypto (seconds 100) (sy_nonces sample_services) sample_identity sample_proof))
   \<and> \<not> pr_valid (fst (verify sample_crypto (seconds 100)
        (snd (verify sample_crypto (seconds 100) (sy_nonces sample_services) sample_identity sample_proof))
        sample_identity sample_proof))"
proof -
  have "pp_device_id sample_proof = di_device_id sample_identity"
    by (simp add: sample_proof_def sample_identity_def)
  from presented_nonce_is_spent [OF this refl, where cr' = sample_crypto and now' = "seconds 100"
      and cr = sample_crypto and now = "seconds 100" and ni = "sy_nonces sample_services" and j = sample_identity]
  show ?thesis
    by (simp add: sample_verify sample_pop_def)
qed

text \<open>
  Over any sequence of issuing and consuming, a nonce is accepted at most as often as it was
  issued (counting one that was outstanding at the start).
\<close>

theorem accepted_at_most_issued:
  assumes "issuer_ok ni"
  shows "accepted_count n ni ops \<le> issued_count n ops + (if dget (ni_issued ni) n = None then 0 else 1)"
  using assms by (rule accepted_le_issued)

theorem accepted_at_most_issued_witness:
  "accepted_count (b64url_encode [7]) (new_nonce_issuer 60)
     [IssueOp 0 [7] ''dev-1'', ConsumeOp 1 (b64url_encode [7]) ''dev-1'', ConsumeOp 2 (b64url_encode [7]) ''dev-1''] \<le> 1"
  using accepted_at_most_issued [of "new_nonce_issuer 60" "b64url_encode [7]"
      "[IssueOp 0 [7] ''dev-1'', ConsumeOp 1 (b64url_encode [7]) ''dev-1'', ConsumeOp 2 (b64url_encode [7]) ''dev-1'']"]
  by (simp add: new_nonce_issuer_def issuer_ok_def)

text \<open>
  The proof store answers exactly the stored proof of that device that is dated and no older than
  the configured lifetime at the instant asked about.
\<close>

theorem stored_proof_answered_iff:
  "fst (ps_get ttl ps d now) = Some r \<longleftrightarrow>
     dget ps d = Some r \<and> (\<exists>v. pr_verified_at r = Some v \<and> now - v \<le> seconds ttl)"
  by (rule ps_get_Some_iff)

text \<open>What is encoded as unpadded base64url decodes to the same bytes.\<close>

theorem base64url_roundtrip: "b64url_decode (b64url_encode raw) = Inr raw"
  by (rule b64url_decode_encode)

text \<open>
  Enrolling a device whose identifier has a character outside the registry's charset fails with an
  unhandled validation error (500) instead of the 400 that the route gives for its other refusals,
  and leaves the state alone.
\<close>

theorem bad_identifier_is_server_error:
  assumes "reg_get (app_registry st) d = None" "fingerprint_public_key_pem cr pem = Inr fp"
    and "\<not> device_id_charset d"
  shows "route_register cr now st d pem labels notes = (ServerError, st)"
proof -
  have "\<not> reg_exists (app_registry st) d"
    using assms(1) by (simp add: reg_exists_def reg_get_def map_of_eq_None_iff)
  with assms(2,3) show ?thesis
    by (simp add: route_register_def register_def identity_valid_def Let_def)
qed

theorem bad_identifier_is_server_error_witness:
  "status_of (fst (route_register sample_crypto 0 sample_app0 ''dev 1'' ''K'' [] [])) = 500"
proof -
  have "app_registry sample_app0 = []" by (simp add: app_registry_def sample_app0_def build_services_def)
  moreover have "\<not> device_id_charset ''dev 1''" by code_simp
  moreover have "\<exists>fp. fingerprint_public_key_pem sample_crypto ''K'' = Inr fp"
    by (simp add: fingerprint_public_key_pem_def sample_crypto_def)
  ultimately show ?thesis
    using bad_identifier_is_server_error [of sample_app0 "''dev 1''" sample_crypto "''K''" _ 0 "[]" "[]"]
    by (auto simp: reg_get_def status_of_def)
qed

section \<open>Access bindings and transitions\<close>

text \<open>
  Once a binding is attributed, it stays attributed to that device, with the same identity and
  first sighting, through any sequence of collector updates, claims, releases and expiries that does
  not release or clear it, move it to the other access domain, or name a device itself.
\<close>

theorem attribution_is_kept:
  assumes "dget s a = Some b" "ab_device_ref b = Some d"
    and "\<forall>op \<in> set ops. \<not> ends_attribution a (ab_domain b) op"
  shows "\<exists>b'. dget (binding_run s ops) a = Some b' \<and> ab_device_ref b' = Some d
     \<and> ab_binding_id b' = ab_binding_id b \<and> ab_first_seen b' = ab_first_seen b"
  using assms by (rule binding_run_keeps_attribution)

theorem attribution_is_kept_witness:
  "\<exists>b'. dget (binding_run [(''10.0.0.2'', sample_binding\<lparr>ab_device_ref := Some ''dev-1''\<rparr>)]
      [Claim (seconds 110) ''10.0.0.2'' ''intruder'', Upsert (sample_binding\<lparr>ab_last_seen := seconds 120\<rparr>)]) ''10.0.0.2''
     = Some b' \<and> ab_device_ref b' = Some ''dev-1''"
  using attribution_is_kept [of "[(''10.0.0.2'', sample_binding\<lparr>ab_device_ref := Some ''dev-1''\<rparr>)]" "''10.0.0.2''"
      "sample_binding\<lparr>ab_device_ref := Some ''dev-1''\<rparr>" "''dev-1''"
      "[Claim (seconds 110) ''10.0.0.2'' ''intruder'', Upsert (sample_binding\<lparr>ab_last_seen := seconds 120\<rparr>)]"]
  by (auto simp: ends_attribution_def sample_binding_def)

text \<open>
  A live binding belongs to the first device that claims it: after that claim, through any further
  updates, claims, releases and expiries that do not end the attribution, no other device's claim of
  it succeeds while it lives.
\<close>

theorem first_claim_wins:
  assumes "bs_get t0 s a = Some b" "ab_device_ref b = None" "d' \<noteq> d"
    and "\<forall>op \<in> set ops. \<not> ends_attribution a (ab_domain b) op"
  shows "fst (snd (claim t0 s a d))
     \<and> (bs_get t1 (binding_run (snd (snd (claim t0 s a d))) ops) a \<noteq> None \<longrightarrow>
          \<not> fst (snd (claim t1 (binding_run (snd (snd (claim t0 s a d))) ops) a d')))"
proof -
  let ?s = "snd (snd (claim t0 s a d))"
  have c: "fst (snd (claim t0 s a d))" using claim_unattributed [OF assms(1,2)] by simp
  have "dget ?s a = Some (b\<lparr>ab_device_ref := Some d\<rparr>)" using claim_unattributed [OF assms(1,2)] by simp
  then obtain b' where b': "dget (binding_run ?s ops) a = Some b'" "ab_device_ref b' = Some d"
    using binding_run_keeps_attribution [of ?s a "b\<lparr>ab_device_ref := Some d\<rparr>" d ops] assms(4) by auto
  show ?thesis
  proof (intro conjI impI)
    assume "bs_get t1 (binding_run ?s ops) a \<noteq> None"
    then have "bs_get t1 (binding_run ?s ops) a = Some b'"
      using b'(1) bs_get_SomeD [of t1 "binding_run ?s ops" a] by (metis not_None_eq option.inject)
    then show "\<not> fst (snd (claim t1 (binding_run ?s ops) a d'))"
      using claim_attributed [of t1 "binding_run ?s ops" a b' d] b'(2) assms(3) by auto
  qed (rule c)
qed

theorem first_claim_wins_witness:
  "fst (snd (claim (seconds 100) [(''10.0.0.2'', sample_binding)] ''10.0.0.2'' ''dev-1''))
   \<and> \<not> fst (snd (claim (seconds 101) (snd (snd (claim (seconds 100) [(''10.0.0.2'', sample_binding)] ''10.0.0.2'' ''dev-1'')))
          ''10.0.0.2'' ''intruder''))"
proof -
  let ?s = "[(''10.0.0.2'', sample_binding)]"
  have live: "bs_get t [(''10.0.0.2'', b)] ''10.0.0.2'' = Some b"
    if "t \<le> seconds 220" "ab_expires_at b = ab_expires_at sample_binding" for t b
    using that by (simp add: bs_get_def ab_is_expired_def sample_binding_def)
  have free: "ab_device_ref sample_binding = None" by (simp add: sample_binding_def)
  have b: "bs_get (seconds 100) ?s ''10.0.0.2'' = Some sample_binding" by (rule live) (simp_all add: seconds_def)
  have s1: "snd (snd (claim (seconds 100) ?s ''10.0.0.2'' ''dev-1''))
      = [(''10.0.0.2'', sample_binding\<lparr>ab_device_ref := Some ''dev-1''\<rparr>)]"
    using claim_unattributed [OF b free] by simp
  have "bs_get (seconds 101) [(''10.0.0.2'', sample_binding\<lparr>ab_device_ref := Some ''dev-1''\<rparr>)] ''10.0.0.2'' \<noteq> None"
    using live [of "seconds 101"] by (simp add: seconds_def)
  with first_claim_wins [OF b free, of "''intruder''" "''dev-1''" "[]" "seconds 101"] show ?thesis
    unfolding s1 by (simp add: binding_run_def)
qed

text \<open>
  Observing a device keeps the tracks consistent (bounded histories and transition records, each
  filed under its own device and identifier, nothing dated after the last observation) and, when the
  drawn transition identifier is fresh, keeps the lookup by identifier in step with the records held,
  eviction of the oldest record included; it touches no other device.
\<close>

theorem observation_keeps_tracks:
  assumes "tracks_ok tc" "index_agrees tc" "dget (tc_by_transition_id tc) tid = None"
  shows "tracks_ok (snd (observe_detailed clk store tid tc d dm addr now))
     \<and> index_agrees (snd (observe_detailed clk store tid tc d dm addr now))
     \<and> (d' \<noteq> d \<longrightarrow> dget (tc_tracks (snd (observe_detailed clk store tid tc d dm addr now))) d' = dget (tc_tracks tc) d')"
  by (simp add: observe_detailed_ok [OF assms(1)] observe_index_agrees [OF assms] observe_other_device)

theorem observation_keeps_tracks_witness:
  "index_agrees (snd (observe_detailed 0 None ''t1'' (new_transition_collector 60 3 20) ''dev-1'' WLAN None 0))"
  using observation_keeps_tracks [of "new_transition_collector 60 3 20" "''t1''" 0 None "''dev-1''" WLAN None 0]
  by (simp add: new_transition_collector_def [of 60 3 20, THEN arg_cong, of tc_by_transition_id])

text \<open>
  A stale or repeated observation changes nothing that decisions depend on: neither the device's
  position nor its clock, its window of changes, its last transition, its records or the lookup by
  identifier; and an accepted one never moves the device's clock back.
\<close>

theorem rejected_observation_changes_nothing:
  assumes "observe_detailed clk store tid tc d dm addr now = (r, tc')"
    and "or_verdict r \<in> {STALE, DUPLICATE}"
  shows "dt_current_domain (track_of tc' d) = dt_current_domain (track_of tc d)
     \<and> dt_current_address (track_of tc' d) = dt_current_address (track_of tc d)
     \<and> dt_last_observed_at (track_of tc' d) = dt_last_observed_at (track_of tc d)
     \<and> dt_history (track_of tc' d) = dt_history (track_of tc d)
     \<and> dt_last_transition (track_of tc' d) = dt_last_transition (track_of tc d)
     \<and> dt_transitions (track_of tc' d) = dt_transitions (track_of tc d)
     \<and> tc_by_transition_id tc' = tc_by_transition_id tc"
proof -
  have "or_verdict (fst (observe_detailed clk store tid tc d dm addr now)) \<in> {STALE, DUPLICATE}"
    using assms by simp
  from rejected_keeps_position [OF this assms(1)] show ?thesis by simp
qed

theorem rejected_observation_changes_nothing_witness:
  "\<exists>r tc'. observe_detailed (seconds 99) None ''t1'' sample_tracks ''dev-1'' NR None (seconds 99) = (r, tc')
     \<and> or_verdict r = STALE \<and> dt_current_domain (track_of tc' ''dev-1'') = Some WLAN"
proof -
  obtain r tc' where o: "observe_detailed (seconds 99) None ''t1'' sample_tracks ''dev-1'' NR None (seconds 99) = (r, tc')"
    by fastforce
  have t: "track_of sample_tracks ''dev-1'' = sample_track" by (simp add: track_of_def sample_tracks_def)
  have "is_stale sample_track (seconds 99)" by (simp add: is_stale_def sample_track_def new_track_def seconds_def)
  then have "or_verdict r = STALE" using o by (auto simp: observe_stale t)
  with rejected_observation_changes_nothing [OF o] o t show ?thesis by (simp add: sample_track_def)
qed

text \<open>
  Under the tracks' invariant the windowed count of a device is the number of its counted changes
  no older than the rate window, whatever the order of earlier prunings.
\<close>

theorem window_count_is_exact:
  assumes "tracks_ok tc"
  shows "fst (transitions_in_window tc d now) =
     length (filter (\<lambda>t. now - seconds (tc_rate_window_s tc) \<le> t) (dt_history (track_of tc d)))"
  using assms by (rule transitions_in_window_count)

theorem window_count_is_exact_witness:
  "fst (transitions_in_window (new_transition_collector 60 3 20) ''dev-1'' 0) = 0"
  using window_count_is_exact [OF tracks_ok_new, of 60 3 20 "''dev-1''" 0]
  by (simp add: track_of_def new_transition_collector_def new_track_def)

text \<open>
  Over any run of recorded failures and queries at non-decreasing instants, the pruned bucket
  gives exactly the number of failures within the window: pruning loses nothing that still counts.
\<close>

theorem failure_count_is_exact:
  assumes "sorted (map op_at ops)" "\<forall>op \<in> set ops. op_at op \<le> now" "0 \<le> w"
  shows "fst (authn_failures (fold (\<lambda>op c. counter_step d c op) ops (new_counters w)) d now)
     = length (filter (\<lambda>t. now - seconds w \<le> t) (failure_log ops))"
  using assms by (rule counter_run_count)

theorem failure_count_is_exact_witness:
  "fst (authn_failures (fold (\<lambda>op c. counter_step ''dev-1'' c op) [Failure 0, Query (seconds 5), Failure (seconds 8)]
       (new_counters 10)) ''dev-1'' (seconds 12)) = 1"
  using failure_count_is_exact [of "[Failure 0, Query (seconds 5), Failure (seconds 8)]" "seconds 12" 10 "''dev-1''"]
  by (simp add: seconds_def)

section \<open>Trust states, evidence, configuration\<close>

text \<open>
  The state manager's history of a device is the last entries of all its evaluations, in order,
  up to the limit: eviction drops only the oldest and other devices never interfere.
\<close>

theorem state_history_is_suffix:
  assumes "sm_history_of m d = []"
  shows "sm_history_of (sm_run m es) d = last_entries (sm_history_limit m) (entries_for d es)
     \<and> length (sm_history_of (sm_run m es) d) \<le> sm_history_limit m"
  using sm_run_history [OF assms] by (simp add: last_entries_def)

theorem state_history_is_suffix_witness:
  "sm_history_of (sm_run (new_state_manager 1) [sample_evaluation UNKNOWN, sample_evaluation STABLE]) ''dev-1''
     = [(isoformat 0, STABLE)]"
proof -
  have "sm_history_of (new_state_manager 1) ''dev-1'' = []" by (simp add: new_state_manager_def sm_history_of_def)
  from state_history_is_suffix [OF this, of "[sample_evaluation UNKNOWN, sample_evaluation STABLE]"]
  moreover have "sm_history_limit (new_state_manager (Suc 0)) = Suc 0" by (simp add: new_state_manager_def)
  ultimately show ?thesis by (simp add: last_entries_def entries_for_def sample_evaluation_def)
qed

text \<open>
  Whatever the inputs, an assembled record has exactly the twenty-four items of the catalogue,
  once each and in this order; assembling fails only where a freshness lifetime is negative.
\<close>

theorem evidence_catalogue_is_complete:
  "map fst (assemble_items s ins now pf bf) =
     [''identity_registered'', ''identity_enabled'', ''public_key_fingerprint'',
      ''proof_of_possession_valid'', ''binding_present'', ''binding_domain'', ''binding_fresh'',
      ''binding_consistent'', ''current_domain'', ''previous_domain'', ''transition_detected'',
      ''transition_age'', ''transition_count_window'', ''authentication_failure_count'',
      ''identity_mismatch'', ''session_mismatch'', ''unauthorized_context'', ''domain_posture_ok'',
      ''collector_available'', ''evidence_complete'', ''assembled_at'', ''evidence_age'',
      ''schema_version'', ''config_hash'']
   \<and> (evidence_valid (st_evidence s) \<longrightarrow> (\<exists>r. assemble s rid ins now = Inr r))"
  using assemble_items_keys assemble_total by simp

theorem evidence_catalogue_is_complete_witness:
  "\<exists>r. assemble (shipped_settings ''h'') ''r1'' sample_inputs (seconds 100) = Inr r"
  using evidence_catalogue_is_complete [of "shipped_settings ''h''" sample_inputs "seconds 100" True True "''r1''"]
  by simp

text \<open>
  Predicate C6 (stability) is the negation of C7 (transition) on every record: the configured
  stability window has no effect on any decision.
\<close>

theorem stability_window_is_unused:
  "pv_ok (evaluate_predicates s tid r) C6 = Inr (\<not> pq_result (eval_of s r C7))
   \<and> pv_ok (evaluate_predicates s tid r) C7 = Inr (pq_result (eval_of s r C7))
   \<and> evaluate_predicates (s\<lparr>st_transition := (st_transition s)\<lparr>ts_stability_window_s := w\<rparr>\<rparr>) tid r
       = evaluate_predicates s tid r"
proof (intro conjI)
  show "pv_ok (evaluate_predicates s tid r) C6 = Inr (\<not> pq_result (eval_of s r C7))"
    "pv_ok (evaluate_predicates s tid r) C7 = Inr (pq_result (eval_of s r C7))"
    by (simp_all add: c6_is_not_c7)
qed (simp add: evaluate_predicates_def eval_c4_def eval_c8_def eval_c9_def Let_def)

text \<open>
  C22 Settings load exactly when they are valid and consistent: every strategy file defines one strategy,
  under a name that is not empty and is used once; every number is within the bound its model declares;
  the default scope exists, every rule names an existing scope and an action with a lifetime; and at
  least one strategy is configured. What loads is what was assembled from the files.
\<close>

theorem loaded_settings_are_sound:
  "load_settings files f = Inr s \<longleftrightarrow>
     (\<exists>defs. map snd files = map (\<lambda>(n, x). StrategyBlock (Some n) x) defs
        \<and> [] \<notin> fst ` set defs \<and> distinct (map fst defs) \<and> s = f defs)
     \<and> 1 \<le> sv_port (st_service s) \<and> sv_port (st_service s) \<le> 65535
     \<and> 1 \<le> es_proof_of_possession_ttl_s (st_evidence s) \<and> 1 \<le> es_nonce_ttl_s (st_evidence s)
     \<and> 1 \<le> es_binding_freshness_max_s (st_evidence s)
     \<and> 1 \<le> ts_transition_window_s (st_transition s) \<and> 1 \<le> ts_stability_window_s (st_transition s)
     \<and> 1 \<le> ts_rate_window_s (st_transition s) \<and> 1 \<le> ts_repeat_threshold (st_transition s)
     \<and> ts_repeat_threshold (st_transition s) \<le> ts_max_transitions_per_window (st_transition s)
     \<and> 1 \<le> ss_authn_failure_window_s (st_security s) \<and> 1 \<le> ss_max_authn_failures (st_security s)
     \<and> 0 \<le> ss_cooldown_s (st_security s)
     \<and> (\<forall>(action, ttl) \<in> set (pl_ttl_ms (st_policy s)). 0 \<le> ttl)
     \<and> 8 \<le> pv_identifier_hash_length (st_privacy s) \<and> pv_identifier_hash_length (st_privacy s) \<le> 64
     \<and> dget (st_scopes s) (md_default_scope (st_policy_matrix s)) \<noteq> None
     \<and> (\<forall>rule \<in> set (md_rules (st_policy_matrix s)). dget (st_scopes s) (rd_scope rule) \<noteq> None
          \<and> dget (pl_ttl_ms (st_policy s)) (rd_action rule) \<noteq> None)
     \<and> st_strategies s \<noteq> []"
proof -
  have "policy_valid (st_policy s) \<longleftrightarrow> (\<forall>(action, ttl) \<in> set (pl_ttl_ms (st_policy s)). 0 \<le> ttl)"
    by (auto simp: policy_valid_def list_all_iff not_less)
  then show ?thesis
    unfolding load_settings_iff settings_valid_def cross_validate_iff service_valid_def evidence_valid_def
      transition_valid_def security_valid_def privacy_valid_def by auto
qed

theorem loaded_settings_are_sound_witness:
  "load_settings [] (\<lambda>_. shipped_settings ''h'') = Inr (shipped_settings ''h'')
   \<and> (\<nexists>files f s. sv_port (st_service s) = 0 \<and> load_settings files f = Inr s)"
proof
  have "load_settings [] (\<lambda>_. shipped_settings ''h'') = Inr (shipped_settings ''h'')"
    by (simp add: load_settings_def Let_def shipped_settings_valid shipped_cross_validated)
  from loaded_settings_are_sound [THEN iffD1, OF this] this
  show "load_settings [] (\<lambda>_. shipped_settings ''h'') = Inr (shipped_settings ''h'')" by blast
  show "\<nexists>files f s. sv_port (st_service s) = 0 \<and> load_settings files f = Inr s"
  proof
    assume "\<exists>files f s. sv_port (st_service s) = 0 \<and> load_settings files f = Inr s"
    then obtain files f s where s: "sv_port (st_service s) = 0" "load_settings files f = Inr s" by blast
    from loaded_settings_are_sound [THEN iffD1, OF s(2)] s(1) show False by linarith
  qed
qed

text \<open>
  Two 5G events that differ only in a subscriber reference with the same salted digest give the
  same binding, and the attributes of every binding stay within the seven documented keys: the raw
  reference is nowhere in what is stored.
\<close>

theorem only_digests_are_stored:
  assumes "hash_identifier cr co x = hash_identifier cr co y"
  shows "nr_binding cr co bid (e\<lparr>ne_subscriber_ref := Some x\<rparr>) = nr_binding cr co bid (e\<lparr>ne_subscriber_ref := Some y\<rparr>)
     \<and> fst ` set (ab_attributes (nr_binding cr co bid e)) \<subseteq> set nr_attribute_keys"
  using nr_binding_digest_only [OF assms] nr_attributes_keys by (simp add: nr_binding_def)

theorem only_digests_are_stored_witness:
  "nr_binding sample_crypto \<lparr>co_hash_length = 2, co_salt = [], co_available = True\<rparr> ''b1''
       (sample_event\<lparr>ne_subscriber_ref := Some ''a1''\<rparr>)
   = nr_binding sample_crypto \<lparr>co_hash_length = 2, co_salt = [], co_available = True\<rparr> ''b1''
       (sample_event\<lparr>ne_subscriber_ref := Some ''a11''\<rparr>)"
proof -
  have "hash_identifier sample_crypto \<lparr>co_hash_length = 2, co_salt = [], co_available = True\<rparr> ''a1''
      = hash_identifier sample_crypto \<lparr>co_hash_length = 2, co_salt = [], co_available = True\<rparr> ''a11''"
    by (simp add: hash_identifier_def sample_crypto_def str_encode_def)
  from only_digests_are_stored [OF this] show ?thesis by simp
qed

section \<open>The audit log\<close>

text \<open>
  C23 What the audit writer appends and indexes is the redacted copy of what it was given, never the record
  itself: no denylisted key keeps its value, at any depth, and no string looks like key material; the
  keys stay, a record that has nothing to redact is kept as it is, and redacting again changes nothing.
\<close>

theorem audit_redacts:
  "let (w, aw1) = audit_write aw rec; (v, aw2) = write_decision aw d ev t extra; dl = aw_denylist aw
   in redacted_copy dl rec w \<and> redacted_copy dl (decision_record d ev t extra) v
      \<and> aw_lines aw1 = aw_lines aw @ (if aw_enabled aw then [w] else [])
      \<and> aw_lines aw2 = aw_lines aw @ (if aw_enabled aw then [v] else [])
      \<and> (\<forall>i. find_decision aw1 i = find_decision aw i)
      \<and> (\<forall>i. find_decision aw2 i = (if i = dc_decision_id d then Some v else find_decision aw i))
      \<and> aw_denylist aw1 = dl \<and> aw_denylist aw2 = dl \<and> redact dl (redact dl x) = redact dl x"
  using find_decision_written [of aw d ev t extra]
  by (simp add: split_beta Let_def audit_write_facts write_decision_facts redacted_copy_mapping redact_idempotent
      find_decision_def)

text \<open>
  A decision that is served is the last one given to its device at the enforcement point, and the
  audit log finds it by its identifier, with its action and trust state readable under the shipped
  denylist.
\<close>

theorem served_decision_is_traceable:
  assumes "decide_and_enforce cr def ad extra st rq = (Inr so, st')"
    and "aw_denylist (ap_audit st) = map py_lower shipped_redact_keys"
  shows "dget (mp_last (ap_pep st')) (dc_device_id (so_decision so)) = Some (so_decision so)
     \<and> (\<exists>rec. find_decision (ap_audit st') (dc_decision_id (so_decision so)) = Some rec
          \<and> dget rec ''action'' = Some (JStr (action_value (dc_action (so_decision so))))
          \<and> dget rec ''trust_state'' = Some (JStr (state_value (dc_trust_state (so_decision so)))))"
proof -
  obtain st1 where run: "run_strategy cr def (ad_strategy ad) st rq = (Inr so, st1)"
    and st': "st' = enforce_outcome (ad_recorded_at ad) (extra so) st1 so"
    using assms(1) by (auto simp: decide_and_enforce_def split: prod.splits sum.splits)
  have "ap_audit st1 = ap_audit st"
    using run_strategy_frame(2) [of cr def "ad_strategy ad" st rq] run by simp
  with assms(2) st' show ?thesis
    by (simp add: enforce_outcome_def apply_decision_last find_decision_written written_decision_readable)
qed

theorem served_decision_is_traceable_witness:
  "\<exists>so st'. decide_and_enforce sample_crypto \<lparr>sd_name = ''ca_ztcf'', sd_kind = K_CA_ZTCF, sd_parameters = []\<rparr>
     sample_app_draws (\<lambda>_. []) sample_app1 sample_plain_access = (Inr so, st')
   \<and> find_decision (ap_audit st') (dc_decision_id (so_decision so)) \<noteq> None"
proof -
  obtain so st' where d: "decide_and_enforce sample_crypto \<lparr>sd_name = ''ca_ztcf'', sd_kind = K_CA_ZTCF, sd_parameters = []\<rparr>
     sample_app_draws (\<lambda>_. []) sample_app1 sample_plain_access = (Inr so, st')" using sample_served by blast
  from served_decision_is_traceable [OF d sample_denylist] d show ?thesis by auto
qed

section \<open>The MQTT codec\<close>

text \<open>
  A remaining length that encodes takes at most four bytes, and decoding it at any offset inside
  any data gives the value back with the number of bytes it took.
\<close>

theorem remaining_length_decodes_encoded:
  assumes "encode_remaining_length (int n) = Inr bs"
  shows "decode_remaining_length (pre @ bs @ suf) (length pre) = Inr (n, length bs) \<and> length bs \<le> 4"
  using remaining_length_roundtrip [OF assms] by simp

theorem remaining_length_decodes_encoded_witness:
  "decode_remaining_length ([0xAB] @ [0xC1, 0x02] @ [0xCD]) 1 = Inr (321, 2)"
proof -
  have "encode_remaining_length (int 321) = Inr [0xC1, 0x02]"
    by (simp add: encode_remaining_length_def MAX_REMAINING_LENGTH_def varint_small varint_big) 
  from remaining_length_decodes_encoded [OF this, of "[0xAB]" "[0xCD]"] show ?thesis by simp
qed

text \<open>
  Whatever bytes arrive, a decoded remaining length is within the protocol's range, took between
  one and four bytes and was read inside the data.
\<close>

theorem decoded_length_is_bounded:
  assumes "decode_remaining_length data offset = Inr (v, c)"
  shows "v \<le> MAX_REMAINING_LENGTH \<and> 1 \<le> c \<and> c \<le> 4 \<and> offset + c \<le> length data"
  using assms by (rule decode_remaining_length_bound)

theorem decoded_length_is_bounded_witness:
  "decode_remaining_length [0x7F] 0 = Inr (127, 1) \<and> 0 + (1 :: nat) \<le> length [0x7F :: byte]"
proof -
  have "decode_remaining_length [0x7F] 0 = Inr (127, 1)"
    using drl_stop [of 0 0 "[0x7F]" 1 0] by (simp add: decode_remaining_length_def)
  with decoded_length_is_bounded [OF this] show ?thesis by simp
qed

section \<open>Experiments\<close>

text \<open>
  C24 The ground truth of a run is declared before it is played: the labels its outcomes are scored
  against are, in order, those of a function of the scenario, the seed and the random generator alone,
  or an initial part of them when the run stops with an exception. No decision, strategy, clock or
  access source has any influence on them.
\<close>

theorem ground_truth_is_declared:
  assumes "run_scenario env opt = Inr rr"
  shows "prefix (map (\<lambda>q. (sco_step q, sco_ground_truth q)) (rsu_ground_truth_outcomes (rr_metrics rr)))
      (declared_labels (rv_rng env) (ro_scenario opt) (ro_seed opt))
    \<and> (rr_ok rr \<longrightarrow>
        map (\<lambda>q. (sco_step q, sco_ground_truth q)) (rsu_ground_truth_outcomes (rr_metrics rr)) =
          declared_labels (rv_rng env) (ro_scenario opt) (ro_seed opt))"
  using run_scenario_labels [OF assms] by (simp add: outcome_labels_def)

theorem ground_truth_is_declared_witness:
  "\<exists>rr. run_scenario sample_run_env sample_options = Inr rr \<and>
     prefix (map (\<lambda>q. (sco_step q, sco_ground_truth q)) (rsu_ground_truth_outcomes (rr_metrics rr)))
       (declared_labels zero_rng sample_scenario 7)"
proof -
  obtain rr where "run_scenario sample_run_env sample_options = Inr rr" using sample_runs by blast
  with ground_truth_is_declared [OF this] show ?thesis
    by (simp add: sample_run_env_def sample_options_def)
qed

text \<open>
  C25 The confusion counts of a completed run have the denominators the scenario declares: the
  legitimate steps are split into correct acceptances and false rejections, the adversarial ones into
  correct rejections and false acceptances, and the totals are the numbers of declared labels of each
  class, whatever the strategy decided. The counters M15, M16 and M17 are the same numbers.
\<close>

theorem confusion_splits_the_declared_labels:
  assumes "run_scenario env opt = Inr rr" "rr_ok rr"
  shows "let cf = rsu_confusion_raw (rr_metrics rr);
             declared = map snd (declared_labels (rv_rng env) (ro_scenario opt) (ro_seed opt))
         in cf_true_negative cf + cf_false_positive cf = int (length (filter (\<lambda>l. is_legitimate (declared_label l)) declared))
          \<and> cf_true_positive cf + cf_false_negative cf = int (length (filter (\<lambda>l. is_adversarial (declared_label l)) declared))
          \<and> cf_false_acceptance cf = count_of (rsu_counters (rr_metrics rr)) ''M15''
          \<and> cf_false_rejection cf = count_of (rsu_counters (rr_metrics rr)) ''M16''
          \<and> cf_correct_total cf = count_of (rsu_counters (rr_metrics rr)) ''M17''"
  using run_scenario_confusion [OF assms] by (simp add: Let_def)

theorem confusion_splits_the_declared_labels_witness:
  "\<exists>rr. run_scenario sample_run_env sample_options = Inr rr
     \<and> cf_true_negative (rsu_confusion_raw (rr_metrics rr)) + cf_false_positive (rsu_confusion_raw (rr_metrics rr)) = 5
     \<and> cf_true_positive (rsu_confusion_raw (rr_metrics rr)) + cf_false_negative (rsu_confusion_raw (rr_metrics rr)) = 1"
proof -
  obtain rr where rr: "run_scenario sample_run_env sample_options = Inr rr" "rr_ok rr"
    using sample_completes by blast
  have e: "rv_rng sample_run_env = zero_rng" "ro_scenario sample_options = sample_scenario" "ro_seed sample_options = 7"
    by (simp_all add: sample_run_env_def sample_options_def)
  show ?thesis
    using confusion_splits_the_declared_labels [OF rr] rr(1) unfolding e Let_def sample_classes by auto
qed

text \<open>
  C26 The books of a run agree: every decision is one row, one sample of the decision latency, one count
  of its action and one count of its trust state; the distributions of latency and of engine time describe
  the values in the rows, in order; the counters of reauthentications and step-ups are the ones of those
  decisions; and the state changes counted are the rows whose state differs from the last one of the same
  device, each counted once as a transition.
\<close>

theorem run_books_agree:
  assumes "run_scenario env opt = Inr rr"
  shows "let m = rr_metrics rr; rows = rr_decisions rr
         in (\<forall>a. count_of (rsu_policy_action_distribution m) a = int (rows_with ''action'' a rows))
          \<and> (\<forall>s. count_of (rsu_trust_state_distribution m) s = int (rows_with ''trust_state'' s rows))
          \<and> map_option fst (dget (rsu_distributions m) ''M3'') =
              (if rows = [] then None else Some (describe (map row_latency rows)))
          \<and> map_option fst (dget (rsu_distributions m) ''M12'') =
              (if engine_times rows = [] then None else Some (describe (engine_times rows)))
          \<and> count_of (rsu_counters m) ''M5'' = int (rows_with ''action'' ''REAUTHENTICATE'' rows)
          \<and> count_of (rsu_counters m) ''M6'' = int (rows_with ''action'' ''STEP_UP_AUTHENTICATION'' rows)
          \<and> count_of (rsu_counters m) ''M7'' = int (state_changes rows)
          \<and> counter_total (rsu_trust_state_transitions m) = count_of (rsu_counters m) ''M7''
          \<and> counter_total (rsu_policy_action_distribution m) = int (length rows)"
  unfolding Let_def by (intro conjI allI run_scenario_books [OF assms])

theorem run_books_agree_witness:
  "\<exists>rr. run_scenario sample_run_env sample_options = Inr rr
     \<and> counter_total (rsu_policy_action_distribution (rr_metrics rr)) = int (length (rr_decisions rr))"
proof -
  obtain rr where "run_scenario sample_run_env sample_options = Inr rr" using sample_runs by blast
  with run_books_agree [OF this] show ?thesis by (simp add: Let_def)
qed

text \<open>
  C27 The rows of a run tell where its evidence comes from: with either access source a row names the mode
  of live evidence exactly when the run is recorded as Tier 2, and the metadata lists the live mode only
  for a Tier-2 run.
\<close>

theorem rows_tell_their_tier:
  assumes "build_access_source lr now tb kind fx = Inr (rv_source env)" "run_scenario env opt = Inr rr"
  shows "(\<forall>r m. r \<in> set (rr_events rr) \<longrightarrow> dget r ''source_mode'' = Some (jstr (source_mode_value m)) \<longrightarrow>
            (m = LIVE_TESTBED \<longleftrightarrow> rr_measurement_tier rr = TIER2))
    \<and> (source_mode_value LIVE_TESTBED \<in> set (rmd_source_modes (rr_metadata rr)) \<longrightarrow>
        rmd_measurement_tier (rr_metadata rr) = ''tier2'')"
  using run_scenario_provenance [OF assms] by blast

theorem rows_tell_their_tier_witness:
  "\<exists>rr. run_scenario sample_run_env sample_options = Inr rr
     \<and> (\<forall>r m. r \<in> set (rr_events rr) \<longrightarrow> dget r ''source_mode'' = Some (jstr (source_mode_value m)) \<longrightarrow> m \<noteq> LIVE_TESTBED)"
proof -
  obtain rr where rr: "run_scenario sample_run_env sample_options = Inr rr" using sample_runs by blast
  have src: "build_access_source lr now tb ''tier1'' sample_fixture = Inr (rv_source sample_run_env)" for lr now tb
    by (simp add: build_access_source_def sample_run_env_def)
  have "rr_measurement_tier rr = TIER1"
    using rr by (auto simp: run_scenario_def finish_def sample_run_env_def source_tier_def fixture_access_def
        split: sum.splits)
  with rows_tell_their_tier [OF src rr] rr show ?thesis by auto
qed

text \<open>
  C28 A checked scenario is played to its end: with the shipped settings, the Tier-1 fixtures, keys that can
  be read and a configured strategy, a scenario of at most 10000 devices that passes its validation, whose
  identity-mismatch events name the other device, whose device ranges start inside the device list, and
  whose advances of the clock keep the run a day within the last instant of \<open>datetime\<close>, runs to its last
  event without an exception.
\<close>

theorem checked_run_completes:
  assumes "scenario_check (ro_scenario opt) = Inr ()"
    and "list_all (bounded_event (ro_scenario opt)) (scn_event_sequence (ro_scenario opt))"
    and "scn_device_count (ro_scenario opt) \<le> 10000"
    and "\<And>i. usable_key (rv_crypto env) (kp_public_key_pem (rv_keypair env i))"
    and "ro_strategy_name opt \<in> fst ` set shipped_strategies"
    and "rv_settings env = shipped_settings h" "rv_source env = fixture_access fx"
    and "fits_calendar (shipped_settings h) opt"
  shows "\<exists>rr. run_scenario env opt = Inr rr \<and> rr_ok rr"
  using checked_run_ok [OF assms] .

theorem checked_run_completes_witness:
  "\<exists>rr. run_scenario sample_run_env sample_options = Inr rr \<and> rr_ok rr"
proof (rule checked_run_completes [where h = "''h''" and fx = sample_fixture])
  show "scenario_check (ro_scenario sample_options) = Inr ()"
    using sample_scenario_checks by (simp add: sample_options_def)
  show "list_all (bounded_event (ro_scenario sample_options)) (scn_event_sequence (ro_scenario sample_options))"
    by (simp add: sample_options_def sample_scenario_def sample_events_def plain_event_def bounded_event_def member_range_def)
  show "usable_key (rv_crypto sample_run_env) (kp_public_key_pem (rv_keypair sample_run_env i))" for i
    using sample_key by (simp add: sample_run_env_def)
  show "fits_calendar (shipped_settings ''h'') sample_options" by (rule sample_fits)
qed (simp_all add: sample_options_def sample_scenario_def sample_run_env_def shipped_strategies_def)

text \<open>
  The descriptive statistics of any series come in order: minimum, first quartile, median, third
  quartile, 95th percentile, maximum; the count is the number of samples and the interquartile range is
  not negative.
\<close>

theorem statistics_are_ordered:
  assumes "describe values = Described s"
  shows "sta_min s \<le> sta_q1 s \<and> sta_q1 s \<le> sta_median s \<and> sta_median s \<le> sta_q3 s
    \<and> sta_q3 s \<le> sta_p95 s \<and> sta_p95 s \<le> sta_max s \<and> sta_count s = length values \<and> 0 \<le> sta_iqr s"
  using describe_ordered [OF assms] by simp

theorem statistics_are_ordered_witness:
  "\<exists>s. describe [3, 1, 2] = Described s \<and> sta_min s \<le> sta_median s \<and> sta_count s = 3"
proof -
  obtain s where "describe [3, 1, 2] = Described s" by (simp add: describe_def Let_def)
  with statistics_are_ordered [OF this] show ?thesis by auto
qed

text \<open>
  A reader of a log stream reads each line once: after a read of the lines so far, the next read of the
  longer stream gives the events of the new lines and no other, for all three readers. But one line that
  raises blocks the reader for good: every later read raises again and the offset stays.
\<close>

theorem lines_are_read_once:
  assumes "read_new (open5gs_read lr) now (Some ls) k = (Inr old, off)"
    and "read_lines (open5gs_read lr) now' (length ls) added = Inr fresh"
    and "open5gs_read lr t (py_strip l) = Inl e" "py_strip l \<noteq> []"
  shows "read_new (open5gs_read lr) now' (Some (ls @ added)) off = (Inr fresh, off + length fresh)
    \<and> (\<exists>e'. read_new (open5gs_read lr) now' (Some (ls @ [l] @ later)) off = (Inl e', off))"
  using open5gs.reads_each_line_once [OF assms(1,2)]
    open5gs.refused_line_blocks [OF assms(3,4), of "ls @ [l] @ later" now' off]
  by simp

theorem lines_are_read_once_witness:
  "read_new (open5gs_read sample_reader) (\<lambda>_. 0) (Some [''x'', ''y'']) 0 = (Inr [], 0)
    \<and> (\<exists>e'. read_new (open5gs_read sample_reader) (\<lambda>_. 0) (Some [''x'', ''!'', ''y'']) 0 = (Inl e', 0))"
  using lines_are_read_once [OF sample_reads, of "[''y'']"] by simp

text \<open>
  A run is written once: writing succeeds only where no run of that identifier has its events, puts the
  run's rows, stamped, there, leaves every file of another run as it was, and a second run of the same
  identifier is then refused.
\<close>

theorem run_output_is_written_once:
  assumes "write_run r t = Inr t'"
  shows "dget t (raw_file (rr_run_id r) ''events.jsonl'') = None
    \<and> dget t' (raw_file (rr_run_id r) ''events.jsonl'') = Some (Lines (map (stamped r) (rr_events r)))
    \<and> (\<forall>p. p \<notin> set (output_files (rr_run_id r)) \<longrightarrow> dget t' p = dget t p)
    \<and> (\<forall>r2. rr_run_id r2 = rr_run_id r \<longrightarrow> (\<exists>e. write_run r2 t' = Inl e))"
  using write_run_effect [OF assms] by blast

theorem run_output_is_written_once_witness:
  "\<exists>r t'. write_run r [] = Inr t' \<and> (\<exists>e. write_run r t' = Inl e)"
proof -
  fix r :: run_result
  obtain t' where "write_run r [] = Inr t'" by (simp add: write_run_def)
  with run_output_is_written_once [OF this] show ?thesis by blast
qed

section \<open>Statistics\<close>

text \<open>
  C29 The adjusted p-values are Holm's: for every level of at most one, an adjusted value is below the level
  exactly when the step-down procedure, which compares the smallest remaining p-value with the level over
  how many remain and stops at the first that is not below, rejects. No adjusted value exceeds one or
  falls below its raw value.
\<close>

theorem holm_is_step_down:
  assumes "dict_ok p_values" "dget p_values k = Some raw" "0 < level" "level \<le> 1"
  shows "\<exists>v. dget (holm p_values) k = Some v \<and> (v < level \<longleftrightarrow> k \<in> holm_rejects level p_values)
    \<and> 0 \<le> v \<and> v \<le> 1 \<and> (0 \<le> raw \<and> raw \<le> 1 \<longrightarrow> raw \<le> v)"
  using holm_adjusts [OF assms(1,2), of level] assms(3,4) by blast

theorem holm_is_step_down_witness:
  "\<exists>v. dget (holm [(''a'', 1 / 100), (''b'', 4 / 100)]) ''b'' = Some v
     \<and> (v < 5 / 100 \<longleftrightarrow> ''b'' \<in> holm_rejects (5 / 100) [(''a'', 1 / 100), (''b'', 4 / 100)])"
  using holm_is_step_down [of "[(''a'', 1 / 100), (''b'', 4 / 100)]" "''b''" "4 / 100" "5 / 100"] by auto

text \<open>
  C30 Pairwise results are reported only after a significant omnibus test, and then for every pair of
  conditions: a pair that was tested has an adjusted p-value, no smaller than its raw one, whose verdict
  is that of Holm's procedure over the family of the tested pairs; a pair that was not says why and has
  none.
\<close>

theorem follow_ups_are_justified:
  assumes "compare_three_paired sp rg c = Inr r"
    and "distinct (map pair_key (condition_pairs (cmp_conditions c)))"
  shows "(\<forall>t. cres_pairwise r = Some t \<and> t \<noteq> [] \<longrightarrow>
      (\<exists>stat p. cres_omnibus r = Omnibus stat (int (length (cmp_conditions c)) - 1) (Some p) True \<and> p < ALPHA))
    \<and> (\<forall>stat df p. cres_omnibus r = Omnibus stat df p True \<longrightarrow>
      (\<exists>t family. cres_pairwise r = Some t \<and> cres_family_size r = Some (length family)
        \<and> (\<forall>fs \<in> set (condition_pairs (cmp_conditions c)). \<exists>e. dget t (pair_key fs) = Some e
             \<and> entry_holds family (pair_key fs) e
             \<and> dget family (pair_key fs) = wilcoxon_p sp (aligned (cmp_samples c) (cmp_conditions c)) fs)))"
proof (intro conjI allI impI)
  show "\<exists>stat p. cres_omnibus r = Omnibus stat (int (length (cmp_conditions c)) - 1) (Some p) True \<and> p < ALPHA"
    if "cres_pairwise r = Some t \<and> t \<noteq> []" for t
    using compare_pairwise [OF assms(1)] that by blast
  show "\<exists>t family. cres_pairwise r = Some t \<and> cres_family_size r = Some (length family)
        \<and> (\<forall>fs \<in> set (condition_pairs (cmp_conditions c)). \<exists>e. dget t (pair_key fs) = Some e
             \<and> entry_holds family (pair_key fs) e
             \<and> dget family (pair_key fs) = wilcoxon_p sp (aligned (cmp_samples c) (cmp_conditions c)) fs)"
    if "cres_omnibus r = Omnibus stat df p True" for stat df p
    using compare_entries [OF assms(1) that assms(2)] by blast
qed

theorem follow_ups_are_justified_witness:
  "\<exists>r t. compare_three_paired sample_scipy zero_rng sample_comparison = Inr r \<and> cres_pairwise r = Some t
     \<and> (\<exists>e. dget t ''a_vs_b'' = Some e)"
proof -
  obtain r stat p where r: "compare_three_paired sample_scipy zero_rng sample_comparison = Inr r"
    "cres_omnibus r = Omnibus stat 2 p True"
    using sample_compared by blast
  then obtain t where "cres_pairwise r = Some t"
    "\<forall>fs \<in> set (condition_pairs (cmp_conditions sample_comparison)). \<exists>e. dget t (pair_key fs) = Some e"
    using follow_ups_are_justified [OF r(1) sample_pairs] by meson
  moreover have "(''a'', ''b'') \<in> set (condition_pairs (cmp_conditions sample_comparison))"
    by (simp add: sample_comparison_def)
  ultimately show ?thesis using r(1) by (force simp: pair_key_def)
qed

text \<open>
  C31 The bootstrap interval is an interval of what was observed: its lower end is not above its upper end,
  and both, like the point estimate, lie between any bounds of the paired differences, rounded; for any
  statistic, any positive number of resamples and any draws, as long as a draw below a bound is below it.
\<close>

theorem interval_is_observed:
  assumes "draws_below rg" "0 < resamples"
    and "paired_bootstrap_ci rg a b statistic resamples seed = Interval ci"
    and "\<forall>p \<in> set (present_pairs a b). lo \<le> fst p - snd p \<and> fst p - snd p \<le> hi"
  shows "bci_lower_95 ci \<le> bci_upper_95 ci
    \<and> {bci_lower_95 ci, bci_upper_95 ci, bci_point_estimate ci} \<subseteq> {round6 lo .. round6 hi}
    \<and> bci_n_pairs ci = length (present_pairs a b)"
  using bootstrap_interval [OF assms] by auto

theorem interval_is_observed_witness:
  "\<exists>ci. paired_bootstrap_ci zero_rng [Some 1, Some 2] [Some 0, Some 0] ''median_difference'' 3 7 = Interval ci
     \<and> bci_lower_95 ci \<le> bci_upper_95 ci \<and> bci_upper_95 ci \<le> round6 2"
proof -
  obtain ci where ci: "paired_bootstrap_ci zero_rng [Some 1, Some 2] [Some 0, Some 0] ''median_difference'' 3 7 = Interval ci"
    by (simp add: paired_bootstrap_ci_def Let_def)
  have "\<forall>p \<in> set (present_pairs [Some 1, Some 2] [Some 0, Some 0]). 1 \<le> fst p - snd p \<and> fst p - snd p \<le> 2" by simp
  from interval_is_observed [OF zero_below _ ci this] ci show ?thesis by auto
qed

text \<open>
  C32 The rates published of a completed run are over the labels its scenario declares: their denominators
  count the adversarial and the legitimate declared labels, their numerators are the run's own counters of
  false acceptances, false rejections and correct decisions, and the false acceptance rate lies between
  zero and one and is what the detection rate leaves.
\<close>

theorem published_rates_are_declared:
  assumes "run_scenario env opt = Inr rr" "rr_ok rr"
    and "declared = map (\<lambda>l. declared_label (snd l)) (declared_labels (rv_rng env) (ro_scenario opt) (ro_seed opt))"
    and "rt = confusion_rates (confusion_dict (rsu_confusion_raw (rr_metrics rr)))"
  shows "rat_illegitimate rt = int (length (filter is_adversarial declared))
    \<and> rat_legitimate rt = int (length (filter is_legitimate declared))
    \<and> rat_false_acceptance rt = ratio (count_of (rsu_counters (rr_metrics rr)) ''M15'') (rat_illegitimate rt)
    \<and> rat_false_rejection rt = ratio (count_of (rsu_counters (rr_metrics rr)) ''M16'') (rat_legitimate rt)
    \<and> rat_accuracy rt = ratio (count_of (rsu_counters (rr_metrics rr)) ''M17'') (rat_illegitimate rt + rat_legitimate rt)
    \<and> (\<forall>v. rat_false_acceptance rt = Some v \<longrightarrow> 0 \<le> v \<and> v \<le> 1 \<and> rat_detection rt = Some (1 - v))"
  using run_rates [OF assms(1,2)] unfolding assms(3,4) by simp

theorem published_rates_are_declared_witness:
  "\<exists>rr. run_scenario sample_run_env sample_options = Inr rr
     \<and> rat_illegitimate (confusion_rates (confusion_dict (rsu_confusion_raw (rr_metrics rr)))) = 1
     \<and> rat_legitimate (confusion_rates (confusion_dict (rsu_confusion_raw (rr_metrics rr)))) = 5"
proof -
  obtain rr where rr: "run_scenario sample_run_env sample_options = Inr rr" "rr_ok rr"
    using sample_completes by blast
  have e: "rv_rng sample_run_env = zero_rng" "ro_scenario sample_options = sample_scenario" "ro_seed sample_options = 7"
    by (simp_all add: sample_run_env_def sample_options_def)
  show ?thesis
    using published_rates_are_declared [OF rr refl refl] rr(1) sample_classes
    unfolding e by (simp add: filter_map comp_def)
qed

section \<open>The campaign and its report\<close>

text \<open>
  C33 A campaign can be completed, and once completed it is idempotent. On a steady machine (no signal, no
  deadline, no run past its time, an unchanged commit and configuration), over a clean tree, with the Tier-1
  source, the shipped settings and keys that can be read, retries that are not negative, run identifiers
  that no earlier run has, and a matrix whose every condition can run (it passes validation, has at most
  10000 devices, events in bounds and a configured strategy, and stays within the calendar), a session
  on what any history of sessions left returns 0 and leaves every condition of its matrix recorded
  VALID, and a further session, with whatever environment, returns 0 and changes neither the ledger's file
  nor the output.
\<close>

theorem campaign_completes_and_idles:
  fixes env :: "('k, 'g) campaign_env"
  assumes "campaign_history W (stored, t)" "env \<in> W"
    and "steady env args fz" "shipped_runs env" "ca_access_source args = ''tier1''" "0 \<le> ca_max_retries args"
    and "\<forall>c \<in> set (session_conditions args). runnable_condition c"
    and "fresh_ids env (set (session_conditions args)) 0 (length (session_conditions args)) t"
  shows "\<exists>text t' ks. campaign_main env args fz False (stored, t) = (Inr 0, Some text, t')
    \<and> completed (lg_rows (load_ledger (Some text))) = Inr ks
    \<and> set (map condition_key (session_conditions args)) \<subseteq> set ks
    \<and> (\<forall>env' :: ('k, 'g) campaign_env. \<forall>fz'.
         campaign_main env' args fz' False (Some text, t') = (Inr 0, Some text, t'))"
  by (rule campaign_completes_then_idles [OF history_kept [OF assms(1)] assms(2-8)])

theorem campaign_completes_and_idles_witness:
  "\<exists>text t' ks. campaign_main sample_campaign_env sample_args sample_frozen False (None, []) = (Inr 0, Some text, t')
    \<and> completed (lg_rows (load_ledger (Some text))) = Inr ks
    \<and> set (map condition_key (session_conditions sample_args)) \<subseteq> set ks"
  using campaign_completes_and_idles [OF sample_start singletonI sample_steady sample_ships _ _ sample_conditions_run
      sample_fresh]
  by (fastforce simp: sample_args_def)

text \<open>
  C34 Whatever sessions a campaign had, as long as no session's list of seeds, or of scenario identifiers,
  repeats one, with whatever other arguments, failures, signals and changes of the configuration between
  them, no condition is recorded VALID twice, and every VALID row names a run of that condition that one of
  the sessions played to its end without an error and whose events, decisions, summary and metadata are in
  the output tree, untouched since.
\<close>

theorem valid_rows_are_evidenced:
  assumes "campaign_history W x"
  shows "let rows = lg_rows (load_ledger (fst x))
    in (\<exists>ks. completed rows = Inr ks \<and> distinct ks)
       \<and> (\<forall>row \<in> set rows. dget row ''status'' = Some STATUS_VALID \<longrightarrow> on_disk W (snd x) row)"
  using history_kept [OF assms] by (simp add: history_ok_def evidenced_def Let_def)

theorem valid_rows_are_evidenced_witness:
  "\<exists>x ks. campaign_history {sample_campaign_env} x \<and> completed (lg_rows (load_ledger (fst x))) = Inr ks
     \<and> distinct ks \<and> set (map condition_key (session_conditions sample_args)) \<subseteq> set ks"
proof -
  obtain x ks where x: "campaign_history {sample_campaign_env} x" "completed (lg_rows (load_ledger (fst x))) = Inr ks"
    "set (map condition_key (session_conditions sample_args)) \<subseteq> set ks"
    using sample_completed by blast
  from valid_rows_are_evidenced [OF x(1)] x(2) have "distinct ks" by (auto simp: Let_def)
  with x show ?thesis by blast
qed

text \<open>
  C35 A session whose seeds and scenario identifiers are each listed once resumes what the last one left: the rows of the ledger's file stay, the new ones name the
  configuration and a condition of this session, no condition that is recorded VALID is attempted again,
  and no other condition gets more rows than the retries allow (one more than \<open>max_retries\<close>, and at least
  the one that records an abort).
\<close>

theorem session_resumes:
  assumes "campaign_history W x" "env \<in> W" "distinct (map scn_scenario_id (ca_scenarios args))" "distinct (ca_seeds args)"
    and "campaign_main env args fz dirty x = (r, x')" "completed (lg_rows (load_ledger (fst x))) = Inr ks"
  shows "\<exists>new. lg_rows (load_ledger (fst x')) = lg_rows (load_ledger (fst x)) @ new
      \<and> (\<forall>row \<in> set new. own_row fz (set (session_conditions args)) row)
      \<and> (\<forall>key. attempts_for key (lg_rows (load_ledger (fst x'))) \<le> attempts_for key (lg_rows (load_ledger (fst x)))
           + (if key \<in> set ks then 0 else max 1 (attempt_limit args)))"
proof -
  note m = main_resumes [OF history_kept [OF assms(1)] assms(2) session_keys_distinct [OF assms(3,4)] assms(5,6),
      unfolded session_limit_def]
  from m(1) m(2) show ?thesis by blast
qed

theorem session_resumes_witness:
  "\<exists>x r x' ks. campaign_history {sample_campaign_env} x
     \<and> campaign_main sample_campaign_env sample_args sample_frozen False x = (r, x')
     \<and> completed (lg_rows (load_ledger (fst x))) = Inr ks \<and> ks \<noteq> []
     \<and> (\<forall>key \<in> set ks. attempts_for key (lg_rows (load_ledger (fst x'))) \<le> attempts_for key (lg_rows (load_ledger (fst x))))"
proof -
  obtain x ks where x: "campaign_history {sample_campaign_env} x" "completed (lg_rows (load_ledger (fst x))) = Inr ks"
    "set (map condition_key (session_conditions sample_args)) \<subseteq> set ks"
    using sample_completed by blast
  obtain r x' where m: "campaign_main sample_campaign_env sample_args sample_frozen False x = (r, x')"
    by (rule prod.exhaust)
  have "ks \<noteq> []" using x(3) by (auto simp: sample_conditions PRIMARY_STRATEGIES_def)
  from session_resumes [OF x(1) singletonI sample_keys m x(2)]
  have "\<forall>key. attempts_for key (lg_rows (load_ledger (fst x'))) \<le> attempts_for key (lg_rows (load_ledger (fst x)))
      + (if key \<in> set ks then 0 else max 1 (attempt_limit sample_args))" (is "\<forall>key. ?fewer key") by blast
  then have every: "?fewer key" for key by (rule spec)
  have "attempts_for key (lg_rows (load_ledger (fst x'))) \<le> attempts_for key (lg_rows (load_ledger (fst x)))"
    if "key \<in> set ks" for key
    using every [of key] that by simp
  with x(1,2) m \<open>ks \<noteq> []\<close> show ?thesis by blast
qed

text \<open>
  C36 Only a failure of the infrastructure is retried: the attempts at a condition are at most
  \<open>max_retries + 1\<close> rows for that condition, every row but the last is an infrastructure failure, and the
  last is VALID exactly when the attempts succeeded, a software defect exactly when the campaign stops
  for one, and otherwise the retries were used up.
\<close>

theorem only_infrastructure_is_retried:
  assumes "attempts env args fz c (attempt_limit args) st = (e, st')"
  shows "\<exists>rs. lg_rows (cs_ledger st') = lg_rows (cs_ledger st) @ rs \<and> length rs \<le> attempt_limit args
    \<and> (\<forall>row \<in> set rs. row_key row = Inr (condition_key c))
    \<and> (\<forall>row \<in> set (butlast rs). dget row ''status'' = Some STATUS_INFRA)
    \<and> (case e of
         Succeeded \<Rightarrow> rs \<noteq> [] \<and> dget (last rs) ''status'' = Some STATUS_VALID
       | Defective \<Rightarrow> rs \<noteq> [] \<and> dget (last rs) ''status'' = Some STATUS_DEFECT
       | Exhausted \<Rightarrow> length rs = attempt_limit args \<and> (rs \<noteq> [] \<longrightarrow> dget (last rs) ''status'' = Some STATUS_INFRA))"
  using attempts_rows [OF assms] by (simp add: tried_def)

theorem only_infrastructure_is_retried_witness:
  "\<exists>st'. attempts sample_campaign_env sample_live_args sample_frozen sample_condition (attempt_limit sample_live_args)
       sample_session = (Exhausted, st') \<and> length (lg_rows (cs_ledger st')) = 4"
proof -
  obtain st' where a: "attempts sample_campaign_env sample_live_args sample_frozen sample_condition
      (attempt_limit sample_live_args) sample_session = (Exhausted, st')"
    using sample_exhausts by blast
  have "attempt_limit sample_live_args = 4" "lg_rows (cs_ledger sample_session) = []"
    by (simp_all add: attempt_limit_def sample_live_args_def sample_args_def sample_session_def load_ledger_def)
  with only_infrastructure_is_retried [OF a] a show ?thesis by auto
qed

text \<open>
  C37 The exit code tells what happened, over any history of sessions whose seeds are listed once: the script
  leaves with the exception of its first reads (commit and configuration, working tree, seeds, scenarios)
  or returns 2 on a dirty tree, with the ledger and the runs as they were; or it is a session, which
  returns 0 when every condition of the matrix is recorded VALID in the ledger's file, 1 when not all are,
  3 when the last row is a software defect, 4 when the commit or the configuration changed under it, and
  leaves with an exception only when reading those again raises one. (Making the output directories, and
  writing the ledger and the session log, are taken to succeed.)
\<close>

theorem exit_code_is_truthful:
  assumes "campaign_history W x" "env \<in> W" "\<forall>seeds. ci_seeds ins = Inr seeds \<longrightarrow> distinct seeds"
    and "campaign_script env args ins x = (r, x')"
  shows "(\<exists>e. r = Inl e \<and> x' = x
        \<and> (ci_frozen ins = Inl e \<or> ci_dirty ins = Inl e \<or> ci_seeds ins = Inl e
           \<or> and_then (ci_scenarios ins) load_scenarios = Inl e))
    \<or> r = Inr 2 \<and> x' = x \<and> ci_dirty ins = Inr True \<and> \<not> ca_allow_dirty args
    \<or> (\<exists>frozen seeds scenarios. ci_frozen ins = Inr frozen \<and> ci_seeds ins = Inr seeds
        \<and> and_then (ci_scenarios ins) load_scenarios = Inr scenarios
        \<and> (let rows = lg_rows (load_ledger (fst x'));
                conditions = session_conditions (with_inputs seeds scenarios args);
                finished = (\<exists>ks. completed rows = Inr ks \<and> all_valid conditions ks)
            in r = Inr 0 \<and> finished
               \<or> r = Inr 1 \<and> \<not> finished
               \<or> r = Inr 3 \<and> rows \<noteq> [] \<and> dget (last rows) ''status'' = Some STATUS_DEFECT
               \<or> r = Inr 4 \<and> (\<exists>i y. ce_frozen env i = Inr y \<and> y \<noteq> frozen)
               \<or> (\<exists>i e. r = Inl e \<and> ce_frozen env i = Inl e)))"
  using assms(4)
proof (cases rule: script_cases)
  case (unread e)
  then have "ci_frozen ins = Inl e \<or> ci_dirty ins = Inl e \<or> ci_seeds ins = Inl e
      \<or> and_then (ci_scenarios ins) load_scenarios = Inl e"
    by (cases "ci_frozen ins"; cases "ci_dirty ins"; cases "ci_seeds ins") auto
  with unread(1,2) show ?thesis by blast
next
  case (session sha config_hash dirty seeds scenarios)
  let ?args = "with_inputs seeds scenarios args"
  have d: "distinct (map condition_key (session_conditions ?args))"
    using session_keys_distinct [of ?args] session(3,4) assms(3)
    by (auto simp: with_inputs_def and_then_Inr_iff dest: load_scenarios_distinct)
  have "\<not> (dirty \<and> \<not> ca_allow_dirty ?args)" using session(5) by (simp add: with_inputs_def)
  with main_exit [OF history_kept [OF assms(1)] assms(2) d session(6)] session(1,3,4) show ?thesis
    by (intro disjI2 exI [of _ "(sha, config_hash)"] exI [of _ seeds] exI [of _ scenarios] conjI)
      (auto simp: exit_means_def Let_def)
qed blast

theorem exit_code_is_truthful_witness:
  "\<exists>x'. campaign_script sample_signalled sample_args sample_script_inputs (None, []) = (Inr 1, x')
     \<and> (\<nexists>ks. completed (lg_rows (load_ledger (fst x'))) = Inr ks \<and> all_valid (session_conditions sample_args) ks)"
proof -
  obtain x' where x': "campaign_script sample_signalled sample_args sample_script_inputs (None, []) = (Inr 1, x')"
    using sample_interrupted unfolding sample_script by blast
  have "\<forall>seeds. ci_seeds sample_script_inputs = Inr seeds \<longrightarrow> distinct seeds" by (simp add: sample_script_inputs_def)
  from exit_code_is_truthful [OF sample_start_signalled singletonI this x'] x' sample_script_inputs_read show ?thesis
    by (simp add: Let_def)
qed

text \<open>
  C38 The analysis loads exactly the completed conditions: after any history of a campaign its loader
  returns, in the ledger's order, one run for each condition recorded VALID, none twice, each with the
  metrics, confusion counts, actions and metadata of a run of that condition that a session played to
  its end. The metrics are those of that run: the median and 95th percentile of the latencies of its
  decisions, the median of its engine times, its reauthentications, step-ups and state changes counted over
  its decisions, its false acceptances and rejections over the labels its scenario declares, the summary's
  other medians and counters, the sampled resources, and the span of the instants in its file of decisions.
\<close>

theorem report_loads_completed_runs:
  assumes "campaign_history W (Some stored, t)" "\<forall>t. fromiso (isoformat t) \<noteq> None"
  shows "\<exists>runs. load_final_runs fromiso res (Some stored, t) = Inr runs
    \<and> completed (lg_rows (load_ledger (Some stored))) = Inr (map final_key runs) \<and> distinct (map final_key runs)
    \<and> (\<forall>r \<in> set runs. \<exists>rr. run_of W fromiso res t r rr)"
proof -
  have i: "reads_instants fromiso" using assms(2) by (simp add: reads_instants_def)
  obtain runs where runs: "load_final_runs fromiso res (Some stored, t) = Inr runs"
    using history_loads [OF history_kept [OF assms(1)] i] by blast
  with loaded_runs [OF history_kept [OF assms(1)] runs] show ?thesis by blast
qed

theorem report_loads_completed_runs_witness:
  "\<exists>x runs. load_final_runs (\<lambda>s. Some 0) (\<lambda>path. []) x = Inr runs
     \<and> set (map condition_key (session_conditions sample_args)) \<subseteq> set (map final_key runs)"
proof -
  obtain x ks where x: "campaign_history {sample_campaign_env} x" "completed (lg_rows (load_ledger (fst x))) = Inr ks"
    "set (map condition_key (session_conditions sample_args)) \<subseteq> set ks" "fst x \<noteq> None"
    using sample_completed by blast
  then obtain stored t where "x = (Some stored, t)" by (cases x) auto
  with x report_loads_completed_runs [of "{sample_campaign_env}" stored t "\<lambda>s. Some 0" "\<lambda>path. []"]
  show ?thesis by fastforce
qed

text \<open>
  C39 Values are compared within a seed only, and none that can be compared is left out: the series the
  analysis pairs have one length, and their i-th values were recorded, by runs of the same campaign,
  scenario and condition, under the same i-th seed, the seeds ascending and none twice; and where no
  condition is loaded twice, the seeds are all those under which every strategy recorded the metric.
\<close>

theorem compared_values_share_a_seed:
  "\<exists>seeds. sorted seeds \<and> distinct seeds
     \<and> (\<forall>s \<in> set strategies. \<exists>vs.
          dget (paired_series runs scenario metric strategies condition campaign) s = Some vs \<and> length vs = length seeds
          \<and> (\<forall>i < length seeds. \<exists>r \<in> set runs. fr_campaign r = campaign \<and> fr_scenario r = scenario
               \<and> fr_condition r = condition \<and> fr_seed r = seeds ! i \<and> fr_strategy r = s \<and> metric_of r metric = Some (vs ! i)))
     \<and> (strategies \<noteq> [] \<and> distinct (map final_key runs) \<longrightarrow>
          set seeds = {seed. \<forall>s \<in> set strategies. \<exists>r \<in> set runs. fr_campaign r = campaign \<and> fr_scenario r = scenario
               \<and> fr_condition r = condition \<and> fr_seed r = seed \<and> fr_strategy r = s \<and> metric_of r metric \<noteq> None})"
proof -
  have rec: "(\<exists>v. recorded_by runs campaign scenario condition metric seed s v) \<longleftrightarrow>
      (\<exists>r \<in> set runs. fr_campaign r = campaign \<and> fr_scenario r = scenario
         \<and> fr_condition r = condition \<and> fr_seed r = seed \<and> fr_strategy r = s \<and> metric_of r metric \<noteq> None)" for seed s
    by (auto simp: recorded_by_def of_condition_def)
  show ?thesis
  proof (rule paired_series_pairs [where runs = runs and scenario = scenario and metric = metric
        and strategies = strategies and condition = condition and campaign = campaign])
    fix seeds
    assume s: "sorted seeds" "distinct seeds"
      "\<And>s. s \<in> set strategies \<Longrightarrow> \<exists>vs. dget (paired_series runs scenario metric strategies condition campaign) s = Some vs
         \<and> length vs = length seeds
         \<and> (\<forall>i < length seeds. recorded_by runs campaign scenario condition metric (seeds ! i) s (vs ! i))"
      and all: "strategies \<noteq> [] \<Longrightarrow> distinct (map final_key runs) \<Longrightarrow>
         set seeds = {seed. \<forall>s \<in> set strategies. \<exists>v. recorded_by runs campaign scenario condition metric seed s v}"
    have "\<exists>vs. dget (paired_series runs scenario metric strategies condition campaign) s = Some vs \<and> length vs = length seeds
       \<and> (\<forall>i < length seeds. \<exists>r \<in> set runs. fr_campaign r = campaign \<and> fr_scenario r = scenario
            \<and> fr_condition r = condition \<and> fr_seed r = seeds ! i \<and> fr_strategy r = s \<and> metric_of r metric = Some (vs ! i))"
      if "s \<in> set strategies" for s
      using s(3) [OF that] unfolding recorded_by_def of_condition_def by blast
    with s(1,2) all [unfolded rec] show ?thesis by blast
  qed
qed

theorem compared_values_share_a_seed_witness:
  "dget (paired_series sample_final_runs ''E01'' ''step_ups'' PRIMARY ''default'' ''primary'') ''ca_ztcf'' = Some [2, 3, 5]"
proof -
  obtain seeds vs where s: "sorted seeds" "distinct seeds" "set seeds = {1, 2, 3}"
    and vs: "dget (paired_series sample_final_runs ''E01'' ''step_ups'' PRIMARY ''default'' ''primary'') ''ca_ztcf'' = Some vs"
    "length vs = length seeds"
    "\<forall>i < length seeds. \<exists>r \<in> set sample_final_runs. fr_seed r = seeds ! i \<and> fr_strategy r = ''ca_ztcf''
       \<and> metric_of r ''step_ups'' = Some (vs ! i)"
    using compared_values_share_a_seed [of PRIMARY sample_final_runs "''E01''" "''step_ups''" "''default''" "''primary''"]
      sample_final_keys unfolding sample_final_seeds by blast
  have seeds: "seeds = [1, 2, 3]" using s sorted_distinct_set_unique [of seeds "[1, 2, 3]"] by simp
  then obtain x y z where v: "vs = [x, y, z]" using vs(2) by (auto simp: length_Suc_conv)
  have "x = 2 \<and> y = 3 \<and> z = 5" using vs(3) unfolding seeds v sample_step_ups by (simp add: All_less_Suc)
  with vs(1) v show ?thesis by simp
qed

text \<open>
  C40 What the report calls a finding is significant, and nothing it compared is dropped: from any loaded
  runs the statistics and the findings are built; every finding but the descriptive one on scalability
  rests on an omnibus test below the level and, where it is about a pair, on a Holm-adjusted p-value below
  it; and every continuous comparison and every adversarial scenario appears among the findings or the
  non-findings.
\<close>

theorem findings_are_significant:
  assumes "friedman_returns sp"
  shows "\<exists>st fs nfs. build_statistics sp rg runs = Inr st \<and> build_findings st = Inr (fs, nfs)
    \<and> (\<forall>f \<in> set fs. fd_dimension f = ''P6'' \<and> fd_test f = ''none; descriptive only''
         \<or> (\<exists>p. fd_omnibus_p_value f = Some p \<and> p < ALPHA
             \<and> (fd_pair f \<noteq> None \<longrightarrow> (\<exists>v. fd_p_value_holm f = Some v \<and> v < ALPHA))))
    \<and> (\<forall>c \<in> set (fst_continuous st). \<exists>f \<in> set fs \<union> set nfs. fd_metric f = cres_metric (cont_result c)
         \<and> fd_scenario f = cres_scenario (cont_result c) \<and> fd_dimension f = cont_dimension c)
    \<and> (\<forall>scenario \<in> set ADVERSARIAL_SCENARIOS. \<exists>f \<in> set fs \<union> set nfs.
         fd_dimension f = ''P1'' \<and> fd_scenario f = scenario)"
proof -
  obtain st where "build_statistics sp rg runs = Inr st" using statistics_built [OF assms] by blast
  with findings_built [OF this] show ?thesis unfolding backed_def about_def by blast
qed

theorem findings_are_significant_witness:
  "\<exists>st fs nfs. build_statistics sample_scipy zero_rng sample_final_runs = Inr st \<and> build_findings st = Inr (fs, nfs)
     \<and> (\<exists>f \<in> set fs \<union> set nfs. fd_dimension f = ''P1'' \<and> fd_scenario f = ''E06'')"
  using findings_are_significant [OF sample_friedman, of zero_rng sample_final_runs]
  by (fastforce simp: ADVERSARIAL_SCENARIOS_def)

end
